(* ===== verification/Prelude.thy ===== *)
theory Prelude
  imports Main "HOL-Library.AList"
begin

text \<open>
  The prelude of the development: the shape in which every stateful function of the
  orchestrator is modelled, the loops such functions contain, and the generic facts on
  lists and association lists that the component theories share.

  A Go method that reads and writes shared state and returns \<open>(x, err)\<close> is an action
  \<open>'w \<Rightarrow> ('e + 'a) \<times> 'w\<close>: the state before, and the error or the value together with the
  state after.  An error keeps every write made before it, as an early
  \<open>return err\<close> does.
\<close>

named_theorems act_simps \<open>unfolding rules for actions\<close>
named_theorems rg_intros \<open>rules that derive a rely/guarantee triple\<close>
named_theorems stable_intros \<open>rules that derive the stability of a fact\<close>

section \<open>Actions\<close>

type_synonym ('w, 'e, 'a) act = "'w \<Rightarrow> ('e + 'a) \<times> 'w"

definition ok :: "'a \<Rightarrow> ('w, 'e, 'a) act" where
  "ok x = (\<lambda>w. (Inr x, w))"

definition fail :: "'e \<Rightarrow> ('w, 'e, 'a) act" where
  "fail e = (\<lambda>w. (Inl e, w))"

text \<open>\<open>x, err := m; if err != nil { return err }; f(x)\<close>.\<close>

definition and_then :: "('w, 'e, 'a) act \<Rightarrow> ('a \<Rightarrow> ('w, 'e, 'b) act) \<Rightarrow> ('w, 'e, 'b) act" where
  "and_then m f = (\<lambda>w. case m w of (Inl e, w') \<Rightarrow> (Inl e, w') | (Inr x, w') \<Rightarrow> f x w')"

text \<open>\<open>x, err := m\<close> where the code goes on to inspect \<open>err\<close> itself.\<close>

definition attempt :: "('w, 'e, 'a) act \<Rightarrow> ('w, 'e, 'e + 'a) act" where
  "attempt m = (\<lambda>w. case m w of (r, w') \<Rightarrow> (Inr r, w'))"

text \<open>\<open>return wrap(err)\<close>: the error of an action is rewritten, its value kept.\<close>

definition map_err :: "('e \<Rightarrow> 'e) \<Rightarrow> ('w, 'e, 'a) act \<Rightarrow> ('w, 'e, 'a) act" where
  "map_err f m = (\<lambda>w. case m w of (Inl e, w') \<Rightarrow> (Inl (f e), w') | (Inr x, w') \<Rightarrow> (Inr x, w'))"

definition of_sum :: "'e + 'a \<Rightarrow> ('w, 'e, 'a) act" where
  "of_sum r = (\<lambda>w. (r, w))"

text \<open>\<open>for _, x := range xs { if err := body(x); err != nil { return err } }\<close>.\<close>

fun for_each :: "('x \<Rightarrow> ('w, 'e, unit) act) \<Rightarrow> 'x list \<Rightarrow> ('w, 'e, unit) act" where
  "for_each body [] = ok ()"
| "for_each body (x # xs) = and_then (body x) (\<lambda>_. for_each body xs)"

text \<open>The same loop with variables of the enclosing function carried through it.\<close>

fun fold_act :: "('x \<Rightarrow> 's \<Rightarrow> ('w, 'e, 's) act) \<Rightarrow> 'x list \<Rightarrow> 's \<Rightarrow> ('w, 'e, 's) act" where
  "fold_act body [] s = ok s"
| "fold_act body (x # xs) s = and_then (body x s) (fold_act body xs)"

lemma ok_apply [act_simps]: "ok x w = (Inr x, w)"
  by (simp add: ok_def)

lemma fail_apply [act_simps]: "fail e w = (Inl e, w)"
  by (simp add: fail_def)

lemma of_sum_apply [act_simps]: "of_sum r w = (r, w)"
  by (simp add: of_sum_def)

lemma and_then_apply [act_simps]:
  "and_then m f w = (case m w of (Inl e, w') \<Rightarrow> (Inl e, w') | (Inr x, w') \<Rightarrow> f x w')"
  by (simp add: and_then_def)

lemma attempt_apply [act_simps]: "attempt m w = (Inr (fst (m w)), snd (m w))"
  by (simp add: attempt_def split: prod.splits)

lemma map_err_apply [act_simps]:
  "map_err f m w = (case m w of (Inl e, w') \<Rightarrow> (Inl (f e), w') | (Inr x, w') \<Rightarrow> (Inr x, w'))"
  by (simp add: map_err_def)

lemma and_then_ok [simp]: "and_then (ok x) f = f x"
  by (simp add: and_then_def ok_def fun_eq_iff)

lemma and_then_fail [simp]: "and_then (fail e) f = fail e"
  by (simp add: and_then_def fail_def fun_eq_iff)

lemma and_then_ok_right [simp]: "and_then m ok = m"
  by (auto simp: and_then_def ok_def fun_eq_iff split: prod.splits sum.splits)

lemma and_then_assoc: "and_then (and_then m f) g = and_then m (\<lambda>x. and_then (f x) g)"
  by (auto simp: and_then_def fun_eq_iff split: prod.splits sum.splits)

text \<open>Inversion: how a composed action can have returned.\<close>

lemma and_then_Inr:
  assumes "and_then m f w = (Inr y, w'')"
  obtains x w' where "m w = (Inr x, w')" and "f x w' = (Inr y, w'')"
  using assms by (auto simp: and_then_def split: prod.splits sum.splits)

lemma and_then_cases:
  assumes "and_then m f w = (r, w'')"
  obtains (failure) e where "m w = (Inl e, w'')" and "r = Inl e"
    | (success) x w' where "m w = (Inr x, w')" and "f x w' = (r, w'')"
  using assms by (auto simp: and_then_def split: prod.splits sum.splits)

lemma for_each_append: "for_each body (xs @ ys) = and_then (for_each body xs) (\<lambda>_. for_each body ys)"
  by (induction xs) (simp_all add: and_then_assoc)

section \<open>Lists and association lists\<close>

text \<open>The first element that satisfies a test, as the search loops of the code return it.\<close>

fun find_first :: "('a \<Rightarrow> bool) \<Rightarrow> 'a list \<Rightarrow> 'a option" where
  "find_first P [] = None"
| "find_first P (x # xs) = (if P x then Some x else find_first P xs)"

lemma find_first_Some: "find_first P xs = Some x \<Longrightarrow> x \<in> set xs \<and> P x"
  by (induction xs) (auto split: if_splits)

lemma find_first_map:
  assumes "\<And>x. P (f x) = P x"
  shows "find_first P (map f xs) = map_option f (find_first P xs)"
  using assms by (induction xs) simp_all

lemma find_first_append: "find_first P (xs @ ys) = (case find_first P xs of None \<Rightarrow> find_first P ys | Some x \<Rightarrow> Some x)"
  by (induction xs) simp_all

lemma find_first_None_iff: "find_first P xs = None \<longleftrightarrow> (\<forall>x\<in>set xs. \<not> P x)"
  by (induction xs) auto

lemma find_first_mono:
  "find_first P xs = None \<Longrightarrow> (\<And>x. x \<in> set xs \<Longrightarrow> Q x \<Longrightarrow> P x) \<Longrightarrow> find_first Q xs = None"
  by (auto simp: find_first_None_iff)

fun first_some :: "'a option list \<Rightarrow> 'a option" where
  "first_some [] = None"
| "first_some (x # xs) = (case x of None \<Rightarrow> first_some xs | Some y \<Rightarrow> Some y)"

text \<open>The values of a Go map kept as an association list, one per key.\<close>

definition map_values :: "('k \<times> 'v) list \<Rightarrow> 'v list" where
  "map_values m = map snd m"

lemma map_of_update [simp]: "map_of (AList.update k v m) = (map_of m)(k \<mapsto> v)"
  by (rule AList.update_conv')

lemma distinct_keys_update:
  "distinct (map fst m) \<Longrightarrow> distinct (map fst (AList.update k v m))"
  by (rule distinct_update)

text \<open>Two lists that agree on every projection of their elements under \<open>f\<close>.\<close>

lemma map_eq_in_set:
  "map f xs = map g ys \<Longrightarrow> x \<in> set xs \<Longrightarrow> \<exists>y\<in>set ys. f x = g y"
  by (metis (no_types, lifting) imageE imageI list.set_map)

lemma partition_length:
  "length (filter P xs) + length (filter (\<lambda>x. \<not> P x) xs) = length xs"
  by (rule sum_length_filter_compl)

end
