(* ===== verification/Detail.thy ===== *)
theory Detail
  imports Prelude Complex_Main
begin

text \<open>
  The values Go's \<open>any\<close> holds in the free-form detail of a failure (\<open>platform/base/failure\<close>) and what
  \<open>encoding/json\<close> makes of them.  A finite \<open>float64\<close> is a rational number (there is no
  negative zero); \<open>f64\<close> is its rounding, to the nearest number of 53 binary digits, ties to even.  A map is
  the list of its entries, with distinct keys; text is ASCII.
\<close>

section \<open>Floating-point numbers\<close>

datatype flt = NaN | NegInf | Fin rat | PosInf

definition round_half_even :: "rat \<Rightarrow> int" where
  "round_half_even q = (let f = floor q; r = q - of_int f in
     if r < 1/2 then f else if 1/2 < r then f + 1 else if even f then f else f + 1)"

fun digit_count :: "nat \<Rightarrow> nat \<Rightarrow> nat" where
  "digit_count b n = (if b < 2 \<or> n = 0 then 0 else Suc (digit_count b (n div b)))"

declare digit_count.simps [simp del]

text \<open>The exponent of the leading digit of a positive number in base \<open>b\<close>.\<close>

definition leading_exponent :: "nat \<Rightarrow> rat \<Rightarrow> int" where
  "leading_exponent b x = (case quotient_of x of (p, q) \<Rightarrow>
     let e = int (digit_count b (nat p)) - int (digit_count b (nat q)) in if x < of_nat b powi e then e - 1 else e)"

definition f64 :: "rat \<Rightarrow> rat" where
  "f64 x = (if x = 0 then 0 else let u = max (leading_exponent 2 \<bar>x\<bar> - 52) (- 1074) in
     sgn x * (of_int (round_half_even (\<bar>x\<bar> / 2 powi u)) * 2 powi u))"

section \<open>Values\<close>

datatype detail =
    Leaf string
  | Flag bool
  | Null
  | Whole int
  | Float flt
  | Items "detail list"
  | Node "(string \<times> detail) list"

text \<open>
  JSON writes every finite number - a float by digits that parse back to it - and no other; it decodes
  numbers as \<open>float64\<close> and keeps everything else.
\<close>

fun json_writes :: "detail \<Rightarrow> bool" where
  "json_writes (Float f) = (case f of Fin x \<Rightarrow> True | _ \<Rightarrow> False)"
| "json_writes (Items vs) = list_all json_writes vs"
| "json_writes (Node kvs) = list_all (\<lambda>(k, v). json_writes v) kvs"
| "json_writes v = True"

fun json_value :: "detail \<Rightarrow> detail" where
  "json_value (Whole i) = Float (Fin (f64 (of_int i)))"
| "json_value (Items vs) = Items (map json_value vs)"
| "json_value (Node kvs) = Node (map (\<lambda>(k, v). (k, json_value v)) kvs)"
| "json_value v = v"

definition json_map :: "(string \<times> detail) list \<Rightarrow> (string \<times> detail) list" where
  "json_map = map (\<lambda>(k, v). (k, json_value v))"

section \<open>The normal form of a detail\<close>

text \<open>What was decoded can be encoded, and is then decoded to itself.\<close>

lemma json_value_writes: "json_writes v \<Longrightarrow> json_writes (json_value v)"
  by (induction v rule: json_value.induct) (auto simp: list_all_iff split: flt.splits)

lemma json_value_again: "json_value (json_value v) = json_value v"
  by (induction v rule: json_value.induct) auto

lemma json_map_again: "json_map (json_map kvs) = json_map kvs"
  by (auto simp: json_map_def json_value_again)

end
