(* ===== verification/Errs.thy ===== *)
theory Errs
  imports Detail "HOL-Library.Multiset"
begin

text \<open>
  The error values of the services and what their transport makes of them:
  \<open>platform/errs\<close> (the framework wraps, attribution, grouping, the two error processors) and
  the sentinel errors of \<open>submitqueue/extension/storage/storage.go\<close>.

  A Go error is a chain of wraps around a cause.  \<open>Wrapped\<close> is \<open>fmt.Errorf("...: %w", err)\<close>
  (only the constant part of the message is kept), \<open>Detailed\<close> is \<open>fmt.Errorf("%w: ...", err)\<close>,
  \<open>Plain\<close> an error with no cause and \<open>CommandError\<close> a failed git command: its operation, its
  diagnostic and the exit code of the process if it exited.  Pointer
  identity of sentinels is equality here.
\<close>

section \<open>Errors and subjects\<close>

datatype subject = Subject (subject_type: string) (subject_id: string)

datatype goerr =
    Plain string
  | ErrNotFound
  | ErrAlreadyExists
  | Wrapped string goerr
  | Detailed goerr string
  | CommandError string string "int option"
  | UserError goerr
  | InfraError (retryable: bool) (dependency: bool) goerr
  | AttributedError "subject list" "(string \<times> detail) list" goerr
  | GroupedError "goerr list"

definition new_user_error :: "goerr \<Rightarrow> goerr" where
  "new_user_error e = UserError e"

definition new_retryable_error :: "goerr \<Rightarrow> goerr" where
  "new_retryable_error e = InfraError True False e"

definition new_dependency_error :: "goerr \<Rightarrow> goerr" where
  "new_dependency_error e = InfraError False True e"

definition new_retryable_dependency_error :: "goerr \<Rightarrow> goerr" where
  "new_retryable_dependency_error e = InfraError True True e"

definition err_version_mismatch :: goerr where
  "err_version_mismatch = new_retryable_error (Plain ''version mismatch'')"

text \<open>
  \<open>errors.Is\<close>: equality with a node of the chain, or the node's own \<open>Is\<close> method.  The methods
  of \<open>*userError\<close> and \<open>*infraError\<close> answer for any target of their type.
\<close>

definition user_error_is :: "goerr \<Rightarrow> bool" where
  "user_error_is target = (case target of UserError _ \<Rightarrow> True | _ \<Rightarrow> False)"

definition infra_error_is :: "goerr \<Rightarrow> bool" where
  "infra_error_is target = (case target of InfraError _ _ _ \<Rightarrow> True | _ \<Rightarrow> False)"

fun errors_is :: "goerr \<Rightarrow> goerr \<Rightarrow> bool" where
  "errors_is (Wrapped m c) target = (Wrapped m c = target \<or> errors_is c target)"
| "errors_is (Detailed c d) target = (Detailed c d = target \<or> errors_is c target)"
| "errors_is (UserError c) target = (user_error_is target \<or> errors_is c target)"
| "errors_is (InfraError r d c) target = (infra_error_is target \<or> errors_is c target)"
| "errors_is (AttributedError ss det c) target = (AttributedError ss det c = target \<or> errors_is c target)"
| "errors_is (GroupedError ms) target =
     (GroupedError ms = target \<or> list_ex (\<lambda>m. errors_is m target) ms)"
| "errors_is e target = (e = target)"

text \<open>\<open>err.Error()\<close>, with the constant part of each wrap's message.\<close>

fun join_texts :: "string list \<Rightarrow> string" where
  "join_texts [] = []"
| "join_texts [t] = t"
| "join_texts (t # ts) = t @ ''; '' @ join_texts ts"

fun error_text :: "goerr \<Rightarrow> string" where
  "error_text (Plain m) = m"
| "error_text ErrNotFound = ''not found''"
| "error_text ErrAlreadyExists = ''already exists''"
| "error_text (Wrapped m c) = m @ '': '' @ error_text c"
| "error_text (Detailed c d) = error_text c @ '': '' @ d"
| "error_text (CommandError operation message code) = message"
| "error_text (UserError c) = error_text c"
| "error_text (InfraError r d c) = error_text c"
| "error_text (AttributedError ss det c) = error_text c"
| "error_text (GroupedError ms) = join_texts (map error_text ms)"

definition is_not_found :: "goerr \<Rightarrow> bool" where
  "is_not_found e = errors_is e ErrNotFound"

definition is_already_exists :: "goerr \<Rightarrow> bool" where
  "is_already_exists e = errors_is e ErrAlreadyExists"

definition is_version_mismatch :: "goerr \<Rightarrow> bool" where
  "is_version_mismatch e = errors_is e err_version_mismatch"

text \<open>\<open>errors.As\<close> for the two framework types: the first such node, outermost first.\<close>

fun as_infra_error :: "goerr \<Rightarrow> (bool \<times> bool) option" where
  "as_infra_error (InfraError r d c) = Some (r, d)"
| "as_infra_error (Wrapped m c) = as_infra_error c"
| "as_infra_error (Detailed c d) = as_infra_error c"
| "as_infra_error (UserError c) = as_infra_error c"
| "as_infra_error (AttributedError ss det c) = as_infra_error c"
| "as_infra_error (GroupedError ms) = first_some (map as_infra_error ms)"
| "as_infra_error e = None"

fun is_user_error :: "goerr \<Rightarrow> bool" where
  "is_user_error (UserError c) = True"
| "is_user_error (InfraError r d c) = is_user_error c"
| "is_user_error (Wrapped m c) = is_user_error c"
| "is_user_error (Detailed c d) = is_user_error c"
| "is_user_error (AttributedError ss det c) = is_user_error c"
| "is_user_error (GroupedError ms) = list_ex is_user_error ms"
| "is_user_error e = False"

definition is_retryable :: "goerr \<Rightarrow> bool" where
  "is_retryable e = (case as_infra_error e of Some (r, d) \<Rightarrow> r | None \<Rightarrow> False)"

definition is_dependency_error :: "goerr \<Rightarrow> bool" where
  "is_dependency_error e = (case as_infra_error e of Some (r, d) \<Rightarrow> d | None \<Rightarrow> False)"

section \<open>Attribution\<close>

text \<open>
  \<open>Attribute(err, subjects...)\<close>, for an error that is not nil; the callers apply it on error
  branches only.
\<close>

definition attribute :: "subject list \<Rightarrow> goerr \<Rightarrow> goerr" where
  "attribute ss e = AttributedError ss [] e"

text \<open>\<open>Detail(err, detail)\<close>.\<close>

definition with_detail :: "(string \<times> detail) list \<Rightarrow> goerr \<Rightarrow> goerr" where
  "with_detail det e = AttributedError [] det e"

text \<open>\<open>errors.Unwrap\<close>: the single cause of a node, none for a leaf or a group.\<close>

fun unwrap :: "goerr \<Rightarrow> goerr option" where
  "unwrap (Wrapped m c) = Some c"
| "unwrap (Detailed c d) = Some c"
| "unwrap (UserError c) = Some c"
| "unwrap (InfraError r d c) = Some c"
| "unwrap (AttributedError ss det c) = Some c"
| "unwrap e = None"

fun add_subjects :: "subject list \<Rightarrow> subject list \<Rightarrow> subject list" where
  "add_subjects seen [] = seen"
| "add_subjects seen (s # ss) = add_subjects (if s \<in> set seen then seen else seen @ [s]) ss"

fun attribution_from :: "subject list \<Rightarrow> goerr \<Rightarrow> subject list" where
  "attribution_from seen (AttributedError ss det c) = attribution_from (add_subjects seen ss) c"
| "attribution_from seen (Wrapped m c) = attribution_from seen c"
| "attribution_from seen (Detailed c d) = attribution_from seen c"
| "attribution_from seen (UserError c) = attribution_from seen c"
| "attribution_from seen (InfraError r d c) = attribution_from seen c"
| "attribution_from seen e = seen"

definition attribution :: "goerr \<Rightarrow> subject list" where
  "attribution e = attribution_from [] e"

text \<open>The outermost entry of a key wins.\<close>

fun add_entries :: "(string \<times> detail) list \<Rightarrow> (string \<times> detail) list \<Rightarrow> (string \<times> detail) list" where
  "add_entries seen [] = seen"
| "add_entries seen ((k, v) # kvs) = add_entries (if k \<in> fst ` set seen then seen else seen @ [(k, v)]) kvs"

fun attributed_detail_from :: "(string \<times> detail) list \<Rightarrow> goerr \<Rightarrow> (string \<times> detail) list" where
  "attributed_detail_from seen (AttributedError ss det c) = attributed_detail_from (add_entries seen det) c"
| "attributed_detail_from seen (Wrapped m c) = attributed_detail_from seen c"
| "attributed_detail_from seen (Detailed c d) = attributed_detail_from seen c"
| "attributed_detail_from seen (UserError c) = attributed_detail_from seen c"
| "attributed_detail_from seen (InfraError r d c) = attributed_detail_from seen c"
| "attributed_detail_from seen e = seen"

definition attributed_detail :: "goerr \<Rightarrow> (string \<times> detail) list" where
  "attributed_detail e = attributed_detail_from [] e"

definition ids_of_type :: "subject list \<Rightarrow> string \<Rightarrow> string list" where
  "ids_of_type ss t = map subject_id (filter (\<lambda>s. subject_type s = t) ss)"

section \<open>Groups and processors\<close>

text \<open>\<open>Group\<close> over the errors of several handlers; \<open>None\<close> is nil.\<close>

definition group :: "goerr option list \<Rightarrow> goerr option" where
  "group es = (case List.map_filter id es of [] \<Rightarrow> None | ms \<Rightarrow> Some (GroupedError ms))"

datatype verdict = Unknown | User | Infra | InfraRetryable | InfraDependency | InfraDependencyRetryable

fun wrap_verdict :: "goerr \<Rightarrow> verdict" where
  "wrap_verdict (UserError c) = User"
| "wrap_verdict (InfraError r d c) =
     (if r \<and> d then InfraDependencyRetryable
      else if r then InfraRetryable
      else if d then InfraDependency
      else Infra)"
| "wrap_verdict e = Unknown"

fun verdict_rank :: "verdict \<Rightarrow> nat" where
  "verdict_rank InfraRetryable = 5"
| "verdict_rank InfraDependencyRetryable = 4"
| "verdict_rank Infra = 3"
| "verdict_rank User = 2"
| "verdict_rank InfraDependency = 1"
| "verdict_rank Unknown = 0"

fun first_verdict :: "(goerr \<Rightarrow> verdict) list \<Rightarrow> goerr \<Rightarrow> verdict" where
  "first_verdict [] e = Unknown"
| "first_verdict (c # cs) e = (let v = c e in if v \<noteq> Unknown then v else first_verdict cs e)"

fun best_verdict :: "verdict \<Rightarrow> verdict list \<Rightarrow> verdict" where
  "best_verdict acc [] = acc"
| "best_verdict acc (v # vs) =
     best_verdict (if verdict_rank v > verdict_rank acc then v else acc) vs"

fun classify :: "(goerr \<Rightarrow> verdict) list \<Rightarrow> goerr \<Rightarrow> verdict" where
  "classify cs (UserError c) = wrap_verdict (UserError c)"
| "classify cs (InfraError r d c) = wrap_verdict (InfraError r d c)"
| "classify cs (GroupedError ms) =
     (let v = first_verdict cs (GroupedError ms) in
      if v \<noteq> Unknown then v else best_verdict Unknown (map (classify cs) ms))"
| "classify cs (Wrapped m c) =
     (let v = first_verdict cs (Wrapped m c) in if v \<noteq> Unknown then v else classify cs c)"
| "classify cs (Detailed c d) =
     (let v = first_verdict cs (Detailed c d) in if v \<noteq> Unknown then v else classify cs c)"
| "classify cs (AttributedError ss det c) =
     (let v = first_verdict cs (AttributedError ss det c) in if v \<noteq> Unknown then v else classify cs c)"
| "classify cs e = first_verdict cs e"

text \<open>Pass 1 of the processor: a framework wrap on the single-cause spine.\<close>

fun spine_wrapped :: "goerr \<Rightarrow> bool" where
  "spine_wrapped (UserError c) = True"
| "spine_wrapped (InfraError r d c) = True"
| "spine_wrapped (Wrapped m c) = spine_wrapped c"
| "spine_wrapped (Detailed c d) = spine_wrapped c"
| "spine_wrapped (AttributedError ss det c) = spine_wrapped c"
| "spine_wrapped e = False"

definition classifier_process :: "(goerr \<Rightarrow> verdict) list \<Rightarrow> goerr option \<Rightarrow> goerr option" where
  "classifier_process cs err = (case err of
     None \<Rightarrow> None
   | Some e \<Rightarrow>
       if spine_wrapped e then Some e
       else (case classify cs e of
           User \<Rightarrow> Some (new_user_error e)
         | InfraRetryable \<Rightarrow> Some (new_retryable_error e)
         | InfraDependency \<Rightarrow> Some (new_dependency_error e)
         | InfraDependencyRetryable \<Rightarrow> Some (new_retryable_dependency_error e)
         | _ \<Rightarrow> Some e))"

definition always_retryable_process :: "goerr option \<Rightarrow> goerr option" where
  "always_retryable_process err = map_option new_retryable_error err"

section \<open>Facts\<close>

lemmas new_error_defs =
  new_user_error_def new_retryable_error_def new_dependency_error_def
  new_retryable_dependency_error_def

lemma version_mismatch_sentinel [simp]: "is_version_mismatch err_version_mismatch"
  by (simp add: is_version_mismatch_def err_version_mismatch_def new_error_defs infra_error_is_def)

lemma is_version_mismatch_simps [simp]:
  "is_version_mismatch (Wrapped m e) = is_version_mismatch e"
  "is_version_mismatch (AttributedError ss det e) = is_version_mismatch e"
  "is_version_mismatch (InfraError r d e) = True"
  "\<not> is_version_mismatch ErrNotFound"
  "\<not> is_version_mismatch ErrAlreadyExists"
  "\<not> is_version_mismatch (Plain m)"
  by (simp_all add: is_version_mismatch_def err_version_mismatch_def new_error_defs infra_error_is_def)

lemma is_not_found_simps [simp]:
  "is_not_found ErrNotFound"
  "is_not_found (Wrapped m e) = is_not_found e"
  "is_not_found (AttributedError ss det e) = is_not_found e"
  "\<not> is_not_found ErrAlreadyExists"
  "\<not> is_not_found (Plain m)"
  by (simp_all add: is_not_found_def)

lemma is_already_exists_simps [simp]:
  "is_already_exists ErrAlreadyExists"
  "is_already_exists (Wrapped m e) = is_already_exists e"
  "\<not> is_already_exists ErrNotFound"
  "\<not> is_already_exists (Plain m)"
  by (simp_all add: is_already_exists_def)

lemma verdict_rank_inj: "verdict_rank v = verdict_rank v' \<Longrightarrow> v = v'"
  by (cases v; cases v') simp_all

lemma best_verdict_in: "best_verdict acc vs \<in> set (acc # vs)"
  by (induction acc vs rule: best_verdict.induct) auto

lemma best_verdict_ge: "v \<in> set (acc # vs) \<Longrightarrow> verdict_rank v \<le> verdict_rank (best_verdict acc vs)"
proof (induction acc vs arbitrary: v rule: best_verdict.induct)
  case (1 acc)
  then show ?case by simp
next
  case (2 acc u us)
  let ?m = "if verdict_rank u > verdict_rank acc then u else acc"
  have "verdict_rank ?m \<le> verdict_rank (best_verdict ?m us)" by (rule "2.IH") simp
  then show ?case using "2.prems" "2.IH" [of v] by (auto split: if_splits)
qed

lemma best_verdict_mset:
  assumes "mset vs = mset vs'"
  shows "best_verdict acc vs = best_verdict acc vs'"
proof (rule verdict_rank_inj, rule antisym)
  from assms have same: "set vs = set vs'" by (rule mset_eq_setD)
  show "verdict_rank (best_verdict acc vs) \<le> verdict_rank (best_verdict acc vs')"
    using best_verdict_in [of acc vs] same by (intro best_verdict_ge) auto
  show "verdict_rank (best_verdict acc vs') \<le> verdict_rank (best_verdict acc vs)"
    using best_verdict_in [of acc vs'] same by (intro best_verdict_ge) auto
qed

lemma set_add_subjects: "set (add_subjects seen ss) = set seen \<union> set ss"
  by (induction seen ss rule: add_subjects.induct) auto

lemma distinct_add_subjects: "distinct seen \<Longrightarrow> distinct (add_subjects seen ss)"
  by (induction seen ss rule: add_subjects.induct) auto

lemma attribution_from_keeps: "set seen \<subseteq> set (attribution_from seen e)"
  by (induction seen e rule: attribution_from.induct) (auto simp: set_add_subjects)

lemma attribution_from_distinct: "distinct seen \<Longrightarrow> distinct (attribution_from seen e)"
  by (induction seen e rule: attribution_from.induct) (auto simp: distinct_add_subjects)

lemma distinct_add_entries: "distinct (map fst seen) \<Longrightarrow> distinct (map fst (add_entries seen kvs))"
  by (induction seen kvs rule: add_entries.induct) (auto simp: image_iff)

text \<open>What an error carries as its detail is a map: no key comes twice.\<close>

lemma attributed_detail_distinct: "distinct (map fst (attributed_detail e))"
proof -
  have "distinct (map fst seen) \<Longrightarrow> distinct (map fst (attributed_detail_from seen e))" for seen
    by (induction seen e rule: attributed_detail_from.induct) (auto simp: distinct_add_entries)
  then show ?thesis by (simp add: attributed_detail_def)
qed

lemma spine_wrapped_not_wrapped:
  "\<not> spine_wrapped e \<Longrightarrow> wrap_verdict e = Unknown"
  by (cases e) auto

end
