(* ===== verification/Ids.thy ===== *)
theory Ids
  imports Errs
begin

text \<open>
  Counter-generated resource IDs (\<open>platform/base/id\<close>): the canonical decimal string of a
  positive 64-bit counter value, its validation, and the numeric comparison.  \<open>dec\<close> is
  \<open>strconv.FormatInt(v, 10)\<close> on a non-negative value, \<open>parse_int\<close> is
  \<open>strconv.ParseInt(s, 10, 64)\<close>: an optional sign, decimal digits, a 64-bit range check.
\<close>

section \<open>Decimal strings\<close>

definition digit :: "nat \<Rightarrow> char" where
  "digit d = char_of (48 + d)"

fun dec :: "nat \<Rightarrow> string" where
  "dec n = (if n < 10 then [digit n] else dec (n div 10) @ [digit (n mod 10)])"

declare dec.simps [simp del]

definition digit_value :: "char \<Rightarrow> nat option" where
  "digit_value c = (let k = of_char c :: nat in if 48 \<le> k \<and> k \<le> 57 then Some (k - 48) else None)"

fun parse_digits :: "nat \<Rightarrow> string \<Rightarrow> nat option" where
  "parse_digits acc [] = Some acc"
| "parse_digits acc (c # cs) =
     (case digit_value c of None \<Rightarrow> None | Some d \<Rightarrow> parse_digits (10 * acc + d) cs)"

definition parse_nat :: "string \<Rightarrow> nat option" where
  "parse_nat s = (if s = [] then None else parse_digits 0 s)"

definition int64_max :: int where
  "int64_max = 9223372036854775807"

definition parse_int :: "string \<Rightarrow> int option" where
  "parse_int s =
     (let (neg, rest) = (case s of
            c # cs \<Rightarrow> if c = CHR ''-'' then (True, cs) else if c = CHR ''+'' then (False, cs) else (False, s)
          | [] \<Rightarrow> (False, s))
      in case parse_nat rest of
           None \<Rightarrow> None
         | Some n \<Rightarrow>
             if neg then (if int n \<le> int64_max + 1 then Some (- int n) else None)
             else (if int n \<le> int64_max then Some (int n) else None))"

section \<open>Resource IDs\<close>

definition from_counter :: "int \<Rightarrow> goerr + string" where
  "from_counter v = (if v \<le> 0 then Inl (Plain ''counter value must be positive'') else Inr (dec (nat v)))"

definition validate_id :: "string \<Rightarrow> goerr + unit" where
  "validate_id i = (case parse_int i of
     None \<Rightarrow> Inl (Plain ''resource ID must be a positive decimal string'')
   | Some v \<Rightarrow> (case from_counter v of
       Inl e \<Rightarrow> Inl e
     | Inr canonical \<Rightarrow>
         if i \<noteq> canonical then Inl (Plain ''resource ID must use canonical decimal form'') else Inr ()))"

definition parse_resource_id :: "string \<Rightarrow> goerr + int" where
  "parse_resource_id i = (case validate_id i of
     Inl e \<Rightarrow> Inl e
   | Inr _ \<Rightarrow> (case parse_int i of None \<Rightarrow> Inl (Plain ''invalid syntax'') | Some v \<Rightarrow> Inr v))"

definition compare_ids :: "string \<Rightarrow> string \<Rightarrow> goerr + int" where
  "compare_ids a b = (case parse_resource_id a of
     Inl e \<Rightarrow> Inl (Wrapped ''invalid first resource ID'' e)
   | Inr av \<Rightarrow> (case parse_resource_id b of
       Inl e \<Rightarrow> Inl (Wrapped ''invalid second resource ID'' e)
     | Inr bv \<Rightarrow> Inr (if av < bv then - 1 else if bv < av then 1 else 0)))"

section \<open>Facts\<close>

lemma digit_value_digit: "d < 10 \<Longrightarrow> digit_value (digit d) = Some d"
  by (simp add: digit_value_def digit_def Let_def)

lemma parse_digits_append:
  "parse_digits acc (xs @ ys) =
     (case parse_digits acc xs of None \<Rightarrow> None | Some n \<Rightarrow> parse_digits n ys)"
  by (induction acc xs rule: parse_digits.induct) (auto split: option.splits)

lemma parse_digits_dec: "parse_digits 0 (dec n) = Some n"
proof (induction n rule: dec.induct)
  case (1 n)
  show ?case
  proof (cases "n < 10")
    case True
    then show ?thesis by (subst dec.simps) (simp add: digit_value_digit)
  next
    case False
    with "1.IH" have "parse_digits 0 (dec (n div 10)) = Some (n div 10)" by simp
    with False show ?thesis
      by (subst dec.simps) (simp add: parse_digits_append digit_value_digit)
  qed
qed

lemma dec_nonempty [simp]: "dec n \<noteq> []"
  by (subst dec.simps) simp

lemma parse_nat_dec: "parse_nat (dec n) = Some n"
  by (simp add: parse_nat_def parse_digits_dec)

lemma dec_inject [simp]: "dec m = dec n \<longleftrightarrow> m = n"
  by (metis option.inject parse_nat_dec)

definition digits_only :: "string \<Rightarrow> bool" where
  "digits_only s \<longleftrightarrow> (\<forall>c\<in>set s. \<exists>d<10. c = digit d)"

lemma dec_digits: "digits_only (dec n)"
proof (induction n rule: dec.induct)
  case (1 n)
  show ?case
  proof (cases "n < 10")
    case True
    then show ?thesis by (subst dec.simps) (auto simp: digits_only_def)
  next
    case False
    with "1.IH" have "digits_only (dec (n div 10))" by simp
    moreover have "\<exists>d<10. digit (n mod 10) = digit d" by (rule exI [of _ "n mod 10"]) simp
    ultimately show ?thesis using False by (subst dec.simps) (auto simp: digits_only_def)
  qed
qed

lemma of_char_digit: "d < 10 \<Longrightarrow> (of_char (digit d) :: nat) = 48 + d"
  by (simp add: digit_def)

lemma digit_neq: "d < 10 \<Longrightarrow> (of_char c :: nat) < 48 \<or> 57 < (of_char c :: nat) \<Longrightarrow> digit d \<noteq> c"
  using of_char_digit [of d] by auto

lemma digit_not_special:
  assumes "d < 10"
  shows "digit d \<noteq> CHR ''-''" "digit d \<noteq> CHR ''+''" "digit d \<noteq> CHR ''=''"
    "digit d \<noteq> CHR 0x0A" "digit d \<noteq> CHR ''/''" "digit d \<noteq> CHR ''@''"
  by (rule digit_neq [OF assms], simp)+

lemma parse_int_dec: "int n \<le> int64_max \<Longrightarrow> parse_int (dec n) = Some (int n)"
proof -
  assume le: "int n \<le> int64_max"
  obtain c cs where cs: "dec n = c # cs" by (cases "dec n") auto
  from dec_digits [of n] cs obtain d where d: "d < 10" "c = digit d"
    by (auto simp: digits_only_def)
  then have "c \<noteq> CHR ''-''" "c \<noteq> CHR ''+''" by (simp_all add: digit_not_special)
  with le show ?thesis
    using parse_nat_dec [of n] by (simp add: parse_int_def cs)
qed

lemma from_counter_Inr: "from_counter v = Inr s \<Longrightarrow> 0 < v \<and> s = dec (nat v)"
  by (auto simp: from_counter_def split: if_splits)

lemma parse_int_bound: "parse_int s = Some v \<Longrightarrow> v \<le> int64_max"
  by (auto simp: parse_int_def Let_def int64_max_def split: option.splits if_splits list.splits prod.splits)

lemma validate_id_Inr:
  "validate_id s = Inr () \<longleftrightarrow> (\<exists>v. 0 < v \<and> v \<le> int64_max \<and> s = dec (nat v))"
proof
  assume "validate_id s = Inr ()"
  then obtain v where v: "parse_int s = Some v" "from_counter v = Inr s"
    by (auto simp: validate_id_def split: option.splits sum.splits if_splits)
  then show "\<exists>v. 0 < v \<and> v \<le> int64_max \<and> s = dec (nat v)"
    using parse_int_bound from_counter_Inr by blast
next
  assume "\<exists>v. 0 < v \<and> v \<le> int64_max \<and> s = dec (nat v)"
  then obtain v where v: "0 < v" "v \<le> int64_max" "s = dec (nat v)" by blast
  then have "parse_int s = Some v" using parse_int_dec [of "nat v"] by simp
  with v show "validate_id s = Inr ()" by (simp add: validate_id_def from_counter_def)
qed

lemma parse_resource_id_dec:
  "0 < v \<Longrightarrow> v \<le> int64_max \<Longrightarrow> parse_resource_id (dec (nat v)) = Inr v"
  using parse_int_dec [of "nat v"] validate_id_Inr [of "dec (nat v)"]
  by (auto simp: parse_resource_id_def)

end
