(* ===== verification/Entity.thy ===== *)
theory Entity
  imports Ids
begin

text \<open>
  The domain entities of \<open>submitqueue/entity\<close>: requests, batches, speculation paths, builds,
  their states, and the request-log entry.  A Go string type with named constants is a datatype
  of those constants, the zero value included; a struct is a record whose fields keep the order
  of the source.  Version counters and attempt counters are \<open>int\<close>: the code only ever adds one
  to them and compares them for equality.
\<close>

section \<open>Requests\<close>

datatype request_state =
    RequestStateUnknown | RequestStateStarted | RequestStateValidated | RequestStateBatched
  | RequestStateProcessing | RequestStateLanded | RequestStateError | RequestStateCancelling
  | RequestStateCancelled

definition is_request_state_terminal :: "request_state \<Rightarrow> bool" where
  "is_request_state_terminal s \<longleftrightarrow>
     s = RequestStateLanded \<or> s = RequestStateError \<or> s = RequestStateCancelled"

definition is_request_state_halted :: "request_state \<Rightarrow> bool" where
  "is_request_state_halted s \<longleftrightarrow> is_request_state_terminal s \<or> s = RequestStateCancelling"

record request =
  r_id :: string
  r_queue :: string
  r_uris :: "string list"
  r_land_strategy :: string
  r_state :: request_state
  r_version :: int

record land_request =
  lr_id :: string
  lr_queue :: string
  lr_uris :: "string list"
  lr_land_strategy :: string

record cancel_request =
  cr_id :: string
  cr_queue :: string
  cr_reason :: string

section \<open>Changes\<close>

record changed_file =
  cf_path :: string
  cf_added :: int
  cf_deleted :: int
  cf_modified :: int

record change_details =
  cd_author_name :: string
  cd_author_email :: string
  cd_files :: "changed_file list"

record change_info =
  ci_uri :: string
  ci_details :: change_details

record change_record =
  ch_uri :: string
  ch_request :: string
  ch_queue :: string
  ch_details :: change_details
  ch_created_at :: int
  ch_updated_at :: int
  ch_version :: int

section \<open>Batches\<close>

datatype batch_state =
    BatchStateUnknown | BatchStateCreating | BatchStateCreated | BatchStateSpeculating
  | BatchStateLanding | BatchStateSucceeded | BatchStateFailed | BatchStateCancelling
  | BatchStateCancelled

fun batch_state_is_terminal :: "batch_state \<Rightarrow> bool" where
  "batch_state_is_terminal BatchStateSucceeded = True"
| "batch_state_is_terminal BatchStateFailed = True"
| "batch_state_is_terminal BatchStateCancelled = True"
| "batch_state_is_terminal _ = False"

definition non_cancellable_batch_states :: "batch_state list" where
  "non_cancellable_batch_states =
     [BatchStateUnknown, BatchStateCreating, BatchStateLanding, BatchStateSucceeded,
      BatchStateFailed, BatchStateCancelled]"

definition batch_state_is_cancellable :: "batch_state \<Rightarrow> bool" where
  "batch_state_is_cancellable s \<longleftrightarrow> s \<notin> set non_cancellable_batch_states"

definition is_batch_state_halted :: "batch_state \<Rightarrow> bool" where
  "is_batch_state_halted s \<longleftrightarrow> batch_state_is_terminal s \<or> s = BatchStateCancelling"

definition all_batch_states :: "batch_state list" where
  "all_batch_states =
     [BatchStateCreating, BatchStateCreated, BatchStateSpeculating, BatchStateLanding,
      BatchStateSucceeded, BatchStateFailed, BatchStateCancelling, BatchStateCancelled]"

definition active_batch_states :: "batch_state list" where
  "active_batch_states =
     [BatchStateCreated, BatchStateSpeculating, BatchStateLanding, BatchStateCancelling]"

definition dependency_batch_states :: "batch_state list" where
  "dependency_batch_states = [BatchStateCreated, BatchStateSpeculating, BatchStateLanding]"

record batch =
  b_id :: string
  b_queue :: string
  b_contains :: "string list"
  b_deps :: "string list"
  b_state :: batch_state
  b_version :: int

text \<open>The zero value of \<open>entity.Batch\<close>, which a missing map key reads as.\<close>

definition zero_batch :: batch where
  "zero_batch = \<lparr>b_id = [], b_queue = [], b_contains = [], b_deps = [],
     b_state = BatchStateUnknown, b_version = 0\<rparr>"

record queue_batch_state =
  qbs_queue :: string
  qbs_state :: batch_state
  qbs_batch :: string

record request_batch =
  rb_request :: string
  rb_batch :: string
  rb_version :: int

record batch_dependent =
  bd_batch :: string
  bd_dependents :: "string list"
  bd_version :: int

section \<open>Speculation paths\<close>

datatype assumption = AssumptionUnknown | Succeeds | Fails

record path_dependency =
  pd_batch :: string
  pd_assumption :: assumption

record path =
  p_head :: string
  p_deps :: "path_dependency list"

fun assumption_string :: "assumption \<Rightarrow> string" where
  "assumption_string AssumptionUnknown = ''''"
| "assumption_string Succeeds = ''succeeds''"
| "assumption_string Fails = ''fails''"

text \<open>
  \<open>SpeculationPath.ID\<close>: the text that names the head and its assumptions, then
  \<open>hex(sha256(text))\<close>.  The digest is the argument \<open>sha\<close>.
\<close>

definition path_text :: "path \<Rightarrow> string" where
  "path_text p = p_head p @
     concat (map (\<lambda>d. CHR 0x0A # pd_batch d @ CHR ''='' # assumption_string (pd_assumption d)) (p_deps p))"

definition path_id :: "(string \<Rightarrow> string) \<Rightarrow> path \<Rightarrow> string" where
  "path_id sha p = sha (path_text p)"

definition path_base :: "path \<Rightarrow> string list" where
  "path_base p = map pd_batch (filter (\<lambda>d. pd_assumption d = Succeeds) (p_deps p))"

datatype path_status =
    PathUnknown | PathPending | PathBuilding | PathPassed | PathFailed | PathCancelling | PathCancelled

fun path_status_is_terminal :: "path_status \<Rightarrow> bool" where
  "path_status_is_terminal PathPassed = True"
| "path_status_is_terminal PathFailed = True"
| "path_status_is_terminal PathCancelled = True"
| "path_status_is_terminal _ = False"

record path_entry =
  e_id :: string
  e_path :: path
  e_status :: path_status
  e_attempt :: int
  e_version :: int
  e_created_at :: int
  e_updated_at :: int

definition zero_entry :: path_entry where
  "zero_entry = \<lparr>e_id = [], e_path = \<lparr>p_head = [], p_deps = []\<rparr>, e_status = PathUnknown,
     e_attempt = 0, e_version = 0, e_created_at = 0, e_updated_at = 0\<rparr>"

record path_set =
  ps_queue :: string
  ps_head :: string
  ps_paths :: "path_entry list"
  ps_version :: int

definition zero_set :: path_set where
  "zero_set = \<lparr>ps_queue = [], ps_head = [], ps_paths = [], ps_version = 0\<rparr>"

datatype path_action = PathActionUnknown | PathActionBuild | PathActionCancel

record speculation =
  sp_path :: path
  sp_action :: path_action

section \<open>Builds\<close>

datatype build_status =
    BuildUnknown | BuildAccepted | BuildRunning | BuildSucceeded | BuildFailed | BuildCancelled

definition build_status_is_terminal :: "build_status \<Rightarrow> bool" where
  "build_status_is_terminal s \<longleftrightarrow> s = BuildSucceeded \<or> s = BuildFailed \<or> s = BuildCancelled"

record build =
  bl_id :: string
  bl_batch :: string
  bl_path :: string
  bl_attempt :: int
  bl_status :: build_status

record path_build =
  pb_queue :: string
  pb_path :: string
  pb_attempt :: int
  pb_build :: string

section \<open>The request log\<close>

datatype request_status =
    RequestStatusUnknown | RequestStatusAccepting | RequestStatusAccepted | RequestStatusStarted
  | RequestStatusValidating | RequestStatusValidated | RequestStatusBatching | RequestStatusBatched
  | RequestStatusSpeculating | RequestStatusSpeculated | RequestStatusLanding | RequestStatusLanded
  | RequestStatusError | RequestStatusCancelling | RequestStatusCancelled

datatype request_event =
    RequestEventUnknown | RequestEventBuilding | RequestEventBuilt | RequestEventWaiting
  | RequestEventInvalidated

datatype request_log_type = RequestLogTypeStatus | RequestLogTypeEvent

fun status_string :: "request_status \<Rightarrow> string" where
  "status_string RequestStatusUnknown = ''''"
| "status_string RequestStatusAccepting = ''accepting''"
| "status_string RequestStatusAccepted = ''accepted''"
| "status_string RequestStatusStarted = ''started''"
| "status_string RequestStatusValidating = ''validating''"
| "status_string RequestStatusValidated = ''validated''"
| "status_string RequestStatusBatching = ''batching''"
| "status_string RequestStatusBatched = ''batched''"
| "status_string RequestStatusSpeculating = ''speculating''"
| "status_string RequestStatusSpeculated = ''speculated''"
| "status_string RequestStatusLanding = ''landing''"
| "status_string RequestStatusLanded = ''landed''"
| "status_string RequestStatusError = ''error''"
| "status_string RequestStatusCancelling = ''cancelling''"
| "status_string RequestStatusCancelled = ''cancelled''"

fun event_string :: "request_event \<Rightarrow> string" where
  "event_string RequestEventUnknown = ''''"
| "event_string RequestEventBuilding = ''building''"
| "event_string RequestEventBuilt = ''built''"
| "event_string RequestEventWaiting = ''waiting''"
| "event_string RequestEventInvalidated = ''invalidated''"

fun build_status_string :: "build_status \<Rightarrow> string" where
  "build_status_string BuildUnknown = ''''"
| "build_status_string BuildAccepted = ''accepted''"
| "build_status_string BuildRunning = ''running''"
| "build_status_string BuildSucceeded = ''succeeded''"
| "build_status_string BuildFailed = ''failed''"
| "build_status_string BuildCancelled = ''cancelled''"

type_synonym metadata = "string \<rightharpoonup> string"

record request_log =
  rl_request :: string
  rl_queue :: string
  rl_timestamp :: int
  rl_type :: request_log_type
  rl_status :: request_status
  rl_event :: request_event
  rl_version :: int
  rl_last_error :: string
  rl_metadata :: metadata

definition new_request_status_log ::
  "int \<Rightarrow> string \<Rightarrow> string \<Rightarrow> request_status \<Rightarrow> int \<Rightarrow> string \<Rightarrow> metadata \<Rightarrow> request_log" where
  "new_request_status_log now_ms queue request_id status version last_error meta =
     \<lparr>rl_request = request_id, rl_queue = queue, rl_timestamp = now_ms,
      rl_type = RequestLogTypeStatus, rl_status = status, rl_event = RequestEventUnknown,
      rl_version = version, rl_last_error = last_error, rl_metadata = meta\<rparr>"

definition new_request_event_log ::
  "int \<Rightarrow> string \<Rightarrow> string \<Rightarrow> request_event \<Rightarrow> metadata \<Rightarrow> request_log" where
  "new_request_event_log now_ms queue request_id event meta =
     \<lparr>rl_request = request_id, rl_queue = queue, rl_timestamp = now_ms,
      rl_type = RequestLogTypeEvent, rl_status = RequestStatusUnknown, rl_event = event,
      rl_version = 0, rl_last_error = [], rl_metadata = meta\<rparr>"

definition log_value :: "request_log \<Rightarrow> string" where
  "log_value l =
     (if rl_type l = RequestLogTypeEvent then event_string (rl_event l) else status_string (rl_status l))"

section \<open>Facts\<close>

lemmas state_defs =
  is_request_state_terminal_def is_request_state_halted_def is_batch_state_halted_def
  batch_state_is_cancellable_def non_cancellable_batch_states_def build_status_is_terminal_def

lemmas state_list_defs =
  all_batch_states_def active_batch_states_def dependency_batch_states_def

lemma batch_state_is_terminal_iff:
  "batch_state_is_terminal s \<longleftrightarrow> s = BatchStateSucceeded \<or> s = BatchStateFailed \<or> s = BatchStateCancelled"
  by (cases s) simp_all

lemma path_status_is_terminal_iff:
  "path_status_is_terminal s \<longleftrightarrow> s = PathPassed \<or> s = PathFailed \<or> s = PathCancelled"
  by (cases s) simp_all

lemma log_value_simps [simp]:
  "log_value (new_request_status_log n q i s v e m) = status_string s"
  "log_value (new_request_event_log n q i ev m) = event_string ev"
  by (simp_all add: log_value_def new_request_status_log_def new_request_event_log_def)

text \<open>
  The text of a path determines the path as long as no batch ID holds the two separators, which
  canonical decimal IDs never do.
\<close>

definition plain_id :: "string \<Rightarrow> bool" where
  "plain_id s \<longleftrightarrow> CHR 0x0A \<notin> set s \<and> CHR ''='' \<notin> set s"

definition plain_path :: "path \<Rightarrow> bool" where
  "plain_path p \<longleftrightarrow> plain_id (p_head p) \<and> (\<forall>d\<in>set (p_deps p). plain_id (pd_batch d))"

lemma plain_id_dec: "plain_id (dec n)"
  using dec_digits [of n] unfolding plain_id_def digits_only_def by (metis digit_not_special(3,4))

lemma assumption_string_inject: "assumption_string a = assumption_string a' \<Longrightarrow> a = a'"
  by (cases a; cases a') simp_all

lemma assumption_string_plain: "CHR 0x0A \<notin> set (assumption_string a)"
  by (cases a) simp_all

lemma split_at_separator:
  "c \<notin> set xs \<Longrightarrow> c \<notin> set xs' \<Longrightarrow> xs @ c # ys = xs' @ c # ys' \<Longrightarrow> xs = xs' \<and> ys = ys'"
proof (induction xs arbitrary: xs')
  case Nil
  then show ?case by (cases xs') auto
next
  case (Cons x xs)
  then show ?case by (cases xs') auto
qed

lemma lines_inject:
  assumes "\<forall>t\<in>set (h # ts). c \<notin> set t" and "\<forall>t\<in>set (h' # ts'). c \<notin> set t"
    and "h @ concat (map ((#) c) ts) = h' @ concat (map ((#) c) ts')"
  shows "h = h' \<and> ts = ts'"
  using assms
proof (induction ts arbitrary: ts' h h')
  case Nil
  then show ?case by (cases ts') auto
next
  case (Cons t ts)
  show ?case
  proof (cases ts')
    case Nil
    with Cons.prems show ?thesis by auto
  next
    case (Cons t' us)
    with Cons.prems have "h = h' \<and>
        t @ concat (map ((#) c) ts) = t' @ concat (map ((#) c) us)"
      by (intro split_at_separator) auto
    with Cons Cons.prems Cons.IH [of t t' us] show ?thesis by simp
  qed
qed

definition dependency_text :: "path_dependency \<Rightarrow> string" where
  "dependency_text d = pd_batch d @ CHR ''='' # assumption_string (pd_assumption d)"

lemma dependency_text_inject:
  assumes "plain_id (pd_batch d)" and "plain_id (pd_batch d')"
    and "dependency_text d = dependency_text d'"
  shows "d = (d' :: path_dependency)"
proof -
  from assms have "pd_batch d = pd_batch d' \<and>
      assumption_string (pd_assumption d) = assumption_string (pd_assumption d')"
    by (intro split_at_separator) (auto simp: plain_id_def dependency_text_def)
  then show ?thesis by (auto dest: assumption_string_inject)
qed

lemma dependency_text_plain: "plain_id (pd_batch d) \<Longrightarrow> CHR 0x0A \<notin> set (dependency_text d)"
  by (auto simp: dependency_text_def plain_id_def assumption_string_plain)

lemma path_text_lines:
  "path_text p = p_head p @ concat (map ((#) (CHR 0x0A)) (map dependency_text (p_deps p)))"
  by (simp add: path_text_def dependency_text_def comp_def)

lemma path_text_inject:
  assumes "plain_path p" and "plain_path q" and "path_text p = path_text q"
  shows "p = (q :: path)"
proof -
  have "p_head p = p_head q \<and> map dependency_text (p_deps p) = map dependency_text (p_deps q)"
    using assms(3) unfolding path_text_lines
    by (rule lines_inject [rotated 2])
      (use assms(1,2) in \<open>auto simp: plain_path_def plain_id_def dependency_text_plain\<close>)
  moreover have "inj_on dependency_text (set (p_deps p) \<union> set (p_deps q))"
    using assms(1,2) by (auto simp: inj_on_def plain_path_def intro!: dependency_text_inject)
  ultimately have "p_head p = p_head q" and "p_deps p = p_deps q"
    by (auto dest: map_inj_on)
  then show ?thesis by simp
qed

end
