(* ===== verification/Machine.thy ===== *)
theory Machine
  imports Errs
begin

text \<open>
  A process that shares a store with others, whatever the store: the store's state, and the script
  of what befalls its calls.  Every call consumes one event of the script: what the other processes
  did to the store before it, and whether the call fails - lost before it took effect, or applied
  and reported as failed.  An exhausted script is a quiet store.  The rely/guarantee triples over
  such processes are proved once here for any store and any invariant and relation on it.
\<close>

section \<open>Processes on a shared store\<close>

datatype fault = Lost goerr | Applied goerr

datatype 'd store_event = Event (ev_other: "'d \<Rightarrow> 'd") (ev_fault: "fault option")

record 'd store_world =
  w_db :: 'd
  w_script :: "'d store_event list"

text \<open>One call of the store.\<close>

definition db_op :: "('d \<Rightarrow> (goerr + 'a) \<times> 'd) \<Rightarrow> (('d, 'm) store_world_scheme, goerr, 'a) act" where
  "db_op f w = (case w_script w of
     [] \<Rightarrow> (case f (w_db w) of (r, d) \<Rightarrow> (r, w\<lparr>w_db := d\<rparr>))
   | ev # es \<Rightarrow>
       (let d0 = ev_other ev (w_db w); w0 = w\<lparr>w_script := es\<rparr> in
        case ev_fault ev of
          None \<Rightarrow> (case f d0 of (r, d) \<Rightarrow> (r, w0\<lparr>w_db := d\<rparr>))
        | Some (Lost e) \<Rightarrow> (Inl e, w0\<lparr>w_db := d0\<rparr>)
        | Some (Applied e) \<Rightarrow> (Inl e, w0\<lparr>w_db := snd (f d0)\<rparr>)))"

lemma db_op_quiet [act_simps]:
  "w_script w = [] \<Longrightarrow> db_op f w = (fst (f (w_db w)), w\<lparr>w_db := snd (f (w_db w))\<rparr>)"
  by (simp add: db_op_def split: prod.splits)

lemma db_op_script: "db_op f w = (r, w') \<Longrightarrow> w_script w' = tl (w_script w)"
  by (auto simp: db_op_def Let_def split: list.splits prod.splits option.splits fault.splits)

section \<open>Rely/guarantee triples\<close>

text \<open>
  \<open>abides I R w\<close>: on a database where the invariant \<open>I\<close> holds every other process only makes changes in \<open>R\<close>,
  which keep \<open>I\<close>.  \<open>triple I R P m Q\<close>: started where \<open>I\<close> and \<open>P\<close> hold, under such interference and any
  faults, \<open>m\<close> as a whole makes a change in \<open>R\<close>, and \<open>Q\<close> holds of its value and the database if it
  returns no error.
\<close>

definition abides :: "('d \<Rightarrow> bool) \<Rightarrow> ('d \<Rightarrow> 'd \<Rightarrow> bool) \<Rightarrow> ('d, 'm) store_world_scheme \<Rightarrow> bool" where
  "abides I R w \<longleftrightarrow> (\<forall>ev\<in>set (w_script w). \<forall>d. I d \<longrightarrow> R d (ev_other ev d))"

definition triple ::
  "('d \<Rightarrow> bool) \<Rightarrow> ('d \<Rightarrow> 'd \<Rightarrow> bool) \<Rightarrow> ('d \<Rightarrow> bool) \<Rightarrow> (('d, 'm) store_world_scheme, goerr, 'a) act \<Rightarrow> ('a \<Rightarrow> 'd \<Rightarrow> bool) \<Rightarrow> bool" where
  "triple I R P m Q \<longleftrightarrow> (\<forall>w r w'. abides I R w \<longrightarrow> I (w_db w) \<longrightarrow> P (w_db w) \<longrightarrow> m w = (r, w') \<longrightarrow>
     abides I R w' \<and> R (w_db w) (w_db w') \<and> (\<forall>x. r = Inr x \<longrightarrow> Q x (w_db w')))"

definition stable :: "('d \<Rightarrow> 'd \<Rightarrow> bool) \<Rightarrow> ('d \<Rightarrow> bool) \<Rightarrow> bool" where
  "stable R P \<longleftrightarrow> (\<forall>d d'. P d \<longrightarrow> R d d' \<longrightarrow> P d')"

lemma stableI [intro]: "(\<And>d d'. P d \<Longrightarrow> R d d' \<Longrightarrow> P d') \<Longrightarrow> stable R P"
  by (auto simp: stable_def)

lemma stableD: "stable R P \<Longrightarrow> P d \<Longrightarrow> R d d' \<Longrightarrow> P d'"
  by (auto simp: stable_def)

lemma stable_const [stable_intros, simp]: "stable R (\<lambda>_. c)"
  by (auto simp: stable_def)

lemma stable_conj [stable_intros]: "stable R P \<Longrightarrow> stable R Q \<Longrightarrow> stable R (\<lambda>d. P d \<and> Q d)"
  by (auto simp: stable_def)

lemma stable_ball [stable_intros]: "(\<And>x. x \<in> A \<Longrightarrow> stable R (P x)) \<Longrightarrow> stable R (\<lambda>d. \<forall>x\<in>A. P x d)"
  unfolding stable_def by blast

lemma stable_imp [stable_intros]: "(c \<Longrightarrow> stable R P) \<Longrightarrow> stable R (\<lambda>d. c \<longrightarrow> P d)"
  unfolding stable_def by blast

lemma stable_all [stable_intros]: "(\<And>x. stable R (P x)) \<Longrightarrow> stable R (\<lambda>d. \<forall>x. P x d)"
  unfolding stable_def by blast

text \<open>
  The rules need of the relation only that doing nothing is allowed and that two allowed changes
  in a row are one allowed change.
\<close>

locale evolution =
  fixes I :: "'d \<Rightarrow> bool" and R :: "'d \<Rightarrow> 'd \<Rightarrow> bool"
  assumes evolves_refl: "R d d"
    and evolves_trans: "R d d' \<Longrightarrow> R d' d'' \<Longrightarrow> R d d''"
    and evolves_keeps: "I d \<Longrightarrow> R d d' \<Longrightarrow> I d'"
begin

lemma triple_ok: "(\<And>d. P d \<Longrightarrow> Q x d) \<Longrightarrow> triple I R P (ok x) Q"
  by (auto simp: triple_def ok_apply evolves_refl)

lemma triple_fail: "triple I R P (fail e) Q"
  by (auto simp: triple_def fail_apply evolves_refl)

lemma triple_of_sum: "(\<And>d x. P d \<Longrightarrow> r = Inr x \<Longrightarrow> Q x d) \<Longrightarrow> triple I R P (of_sum r) Q"
  by (auto simp: triple_def of_sum_apply evolves_refl)

lemma triple_bind:
  assumes "triple I R P m Q" and "\<And>x. triple I R (Q x) (f x) S"
  shows "triple I R P (and_then m f) S"
  unfolding triple_def
proof (intro allI impI)
  fix w r w''
  assume w: "abides I R w" "I (w_db w)" "P (w_db w)" and run: "and_then m f w = (r, w'')"
  from run show "abides I R w'' \<and> R (w_db w) (w_db w'') \<and> (\<forall>x. r = Inr x \<longrightarrow> S x (w_db w''))"
  proof (cases rule: and_then_cases)
    case (failure e)
    with w assms(1) show ?thesis unfolding triple_def by blast
  next
    case (success x w')
    with w assms(1) have w': "abides I R w'" "R (w_db w) (w_db w')" "Q x (w_db w')"
      unfolding triple_def by blast+
    moreover have "I (w_db w')" by (rule evolves_keeps [OF w(2) w'(2)])
    ultimately show ?thesis
      using assms(2) [of x] success(2) unfolding triple_def using evolves_trans by blast
  qed
qed

lemma triple_conseq:
  "triple I R P' m Q' \<Longrightarrow> (\<And>d. P d \<Longrightarrow> P' d) \<Longrightarrow> (\<And>x d. Q' x d \<Longrightarrow> Q x d) \<Longrightarrow> triple I R P m Q"
  unfolding triple_def by blast

lemma triple_pre: "triple I R P' m Q \<Longrightarrow> (\<And>d. P d \<Longrightarrow> P' d) \<Longrightarrow> triple I R P m Q"
  unfolding triple_def by blast

lemma triple_pure: "(c \<Longrightarrow> triple I R P m Q) \<Longrightarrow> triple I R (\<lambda>d. P d \<and> c) m Q"
  unfolding triple_def by blast

lemma triple_result:
  "triple I R P m Q \<Longrightarrow> (\<And>w x w'. m w = (Inr x, w') \<Longrightarrow> F x) \<Longrightarrow> triple I R P m (\<lambda>x d. Q x d \<and> F x)"
  unfolding triple_def by blast

lemma triple_inv: "triple I R (\<lambda>d. P d \<and> I d) m Q \<Longrightarrow> triple I R P m Q"
  unfolding triple_def by blast

lemma triple_frame:
  "triple I R P m Q \<Longrightarrow> stable R F \<Longrightarrow> triple I R (\<lambda>d. P d \<and> F d) m (\<lambda>x d. Q x d \<and> F d)"
  unfolding triple_def stable_def by blast

lemma triple_keep:
  "triple I R P m Q \<Longrightarrow> stable R P \<Longrightarrow> triple I R P m (\<lambda>x d. Q x d \<and> P d)"
  unfolding triple_def stable_def by blast

lemma triple_attempt:
  assumes "triple I R P m Q" and "stable R P"
  shows "triple I R P (attempt m) (\<lambda>r d. P d \<and> (\<forall>x. r = Inr x \<longrightarrow> Q x d))"
  using assms unfolding triple_def stable_def attempt_apply by (metis Pair_inject prod.collapse sum.inject(2))

lemma triple_map_err: "triple I R P m Q \<Longrightarrow> triple I R P (map_err g m) Q"
  unfolding triple_def map_err_apply by (fastforce split: prod.splits sum.splits)

lemma triple_if:
  "(c \<Longrightarrow> triple I R P m Q) \<Longrightarrow> (\<not> c \<Longrightarrow> triple I R P n Q) \<Longrightarrow> triple I R P (if c then m else n) Q"
  by simp

lemma triple_case_sum:
  "(\<And>e. r = Inl e \<Longrightarrow> triple I R P (f e) Q) \<Longrightarrow> (\<And>x. r = Inr x \<Longrightarrow> triple I R P (g x) Q) \<Longrightarrow>
   triple I R P (case r of Inl e \<Rightarrow> f e | Inr x \<Rightarrow> g x) Q"
  by (cases r) auto

lemma triple_case_option:
  "(r = None \<Longrightarrow> triple I R P f Q) \<Longrightarrow> (\<And>x. r = Some x \<Longrightarrow> triple I R P (g x) Q) \<Longrightarrow>
   triple I R P (case r of None \<Rightarrow> f | Some x \<Rightarrow> g x) Q"
  by (cases r) auto

lemma triple_case_prod:
  "(\<And>a b. r = (a, b) \<Longrightarrow> triple I R P (f a b) Q) \<Longrightarrow> triple I R P (case r of (a, b) \<Rightarrow> f a b) Q"
  by (cases r) auto

lemma triple_let: "triple I R P (f x) Q \<Longrightarrow> triple I R P (let y = x in f y) Q"
  by simp

lemma triple_for_each:
  assumes "\<And>x. x \<in> set xs \<Longrightarrow> triple I R P (body x) (\<lambda>_. P)"
  shows "triple I R P (for_each body xs) (\<lambda>_. P)"
  using assms
proof (induction xs)
  case Nil
  then show ?case by (auto intro: triple_ok)
next
  case (Cons x xs)
  then show ?case by (auto intro: triple_bind)
qed

lemma triple_fold_act:
  assumes "\<And>x s. x \<in> set xs \<Longrightarrow> triple I R (P s) (body x s) P"
  shows "triple I R (P s) (fold_act body xs s) P"
  using assms
proof (induction xs arbitrary: s)
  case Nil
  then show ?case by (auto intro: triple_ok)
next
  case (Cons x xs)
  then show ?case by (auto intro: triple_bind)
qed

text \<open>The one rule about the database: what the call does to it, allowing for the script.\<close>

lemma triple_db_op:
  assumes "stable R P"
    and "\<And>d. P d \<Longrightarrow> R d (snd (f d))"
    and "\<And>d x. P d \<Longrightarrow> fst (f d) = Inr x \<Longrightarrow> Q x (snd (f d))"
  shows "triple I R P (db_op f) Q"
  unfolding triple_def
proof (intro allI impI)
  fix w r w'
  assume w: "abides I R w" "I (w_db w)" "P (w_db w)" and run: "db_op f w = (r, w')"
  show "abides I R w' \<and> R (w_db w) (w_db w') \<and> (\<forall>x. r = Inr x \<longrightarrow> Q x (w_db w'))"
  proof (cases "w_script w")
    case Nil
    with run have w': "w' = w\<lparr>w_db := snd (f (w_db w))\<rparr>" and r: "r = fst (f (w_db w))"
      by (auto simp: act_simps)
    have "abides I R w'" using Nil w' by (simp add: abides_def)
    moreover have "R (w_db w) (w_db w')" using w' assms(2) w(3) by simp
    moreover have "\<forall>x. r = Inr x \<longrightarrow> Q x (w_db w')" using w' r assms(3) [OF w(3)] by auto
    ultimately show ?thesis by simp
  next
    case (Cons ev es)
    let ?d = "ev_other ev (w_db w)"
    from w Cons have step: "R (w_db w) ?d" and rest: "\<forall>ev\<in>set es. \<forall>d. I d \<longrightarrow> R d (ev_other ev d)"
      by (auto simp: abides_def)
    from assms(1) w(3) step have P: "P ?d" by (rule stableD)
    have 1: "R (w_db w) (snd (f ?d))" using evolves_trans [OF step assms(2) [OF P]] .
    have script: "w_script w' = es" and cases: "w_db w' = ?d \<and> (\<exists>e. r = Inl e) \<or>
        w_db w' = snd (f ?d) \<and> (r = fst (f ?d) \<or> (\<exists>e. r = Inl e))"
      using run Cons by (auto simp: db_op_def Let_def split: option.splits fault.splits prod.splits)
    have "abides I R w'" using rest script by (simp add: abides_def)
    moreover have "R (w_db w) (w_db w')" using cases step 1 by auto
    moreover have "\<forall>x. r = Inr x \<longrightarrow> Q x (w_db w')" using cases assms(3) [OF P] by auto
    ultimately show ?thesis by simp
  qed
qed

text \<open>A step of the process that leaves the store and the script alone.\<close>

lemma triple_local:
  assumes "\<And>w. w_db (snd (m w)) = w_db w \<and> w_script (snd (m w)) = w_script w"
  shows "triple I R P m (\<lambda>_. P)"
  unfolding triple_def
proof (intro allI impI)
  fix w r w'
  assume "abides I R w" "I (w_db w)" "P (w_db w)" "m w = (r, w')"
  with assms [of w] show "abides I R w' \<and> R (w_db w) (w_db w') \<and> (\<forall>x. r = Inr x \<longrightarrow> P (w_db w'))"
    by (auto simp: abides_def evolves_refl)
qed

text \<open>A call that only reads.\<close>

lemma triple_db_read:
  assumes "stable R P" and "\<And>d. snd (f d) = d" and "\<And>d x. P d \<Longrightarrow> fst (f d) = Inr x \<Longrightarrow> Q x d"
  shows "triple I R P (db_op f) Q"
  using assms by (intro triple_db_op) (auto simp: evolves_refl)

lemmas triple_structural =
  triple_if triple_case_sum triple_case_option triple_case_prod triple_let triple_map_err

end

text \<open>An operation that is chosen by the world it starts in.\<close>

lemma triple_world: "(\<And>w. \<exists>m'. m w = m' w \<and> triple I R P m' Q) \<Longrightarrow> triple I R P m Q"
  unfolding triple_def by metis

text \<open>The whole change of a handler, read off its triple.\<close>

lemma triple_evolves:
  "triple I R P m Q \<Longrightarrow> abides I R w \<Longrightarrow> I (w_db w) \<Longrightarrow> P (w_db w) \<Longrightarrow> R (w_db w) (w_db (snd (m w)))"
  unfolding triple_def by (cases "m w") auto

end
