(* ===== verification/World.thy ===== *)
theory World
  imports Entity Machine
begin

text \<open>
  The world a handler of the orchestrator runs in.  \<open>db\<close> is the part of the shared MySQL
  databases that belongs to one queue: the stores of \<open>submitqueue/extension/storage\<close> resolved for
  that queue, its counters, and the message table its publishes go to.  \<open>world\<close> adds what one
  process sees: the queue its stores are bound to, the topic registry, the clock, and a script.

  A script is the adversary.  Every database call of a handler is one atomic step that first
  consumes one event of the script: the event's \<open>ev_other\<close> is whatever the other processes did to
  the database since this handler's previous call, and its \<open>ev_fault\<close> says whether the call
  itself fails, before the database applied it (\<open>Lost\<close>) or after (\<open>Applied\<close>: the write is there and
  the caller sees an error).  An exhausted script means no interference and no faults.
\<close>

section \<open>Messages\<close>

datatype topic_key =
    TopicKeyStart | TopicKeyCancel | TopicKeyValidate | TopicKeyBatch | TopicKeyDependencyAnalysis
  | TopicKeySpeculate | TopicKeyBuild | TopicKeyBuildSignal | TopicKeyLand | TopicKeyConclude
  | TopicKeyLog | TopicKeyMergeConflictCheck | TopicKeyMerge

datatype merge_outcome = OutcomeUnspecified | OutcomeSucceeded | OutcomeFailed

record merge_result =
  mr_id :: string
  mr_queue :: string
  mr_outcome :: merge_outcome
  mr_reason :: string

datatype proto_strategy = DEFAULT | REBASE | SQUASH_REBASE | MERGE | PROMOTE | OtherStrategy int

record merge_step =
  ms_step :: string
  ms_uris :: "string list"
  ms_strategy :: proto_strategy

record merge_request =
  mq_id :: string
  mq_queue :: string
  mq_steps :: "merge_step list"

text \<open>
  The payloads of the pipeline's topics by their content; \<open>PBad\<close> is a body that does not decode.
\<close>

datatype payload =
    PId string string
  | PStart land_request
  | PCancel cancel_request
  | PLog request_log
  | PMergeRequest merge_request
  | PMergeResult merge_result
  | PBad

record message =
  m_tenant :: string
  m_topic :: string
  m_id :: string
  m_partition :: string
  m_payload :: payload
  m_metadata :: metadata
  m_published_at :: int

text \<open>
  The free-form detail of a failure is a map of the values of \<open>Detail\<close>.  A delivery carries the queue's own metadata and, when it is a dead letter whose producer
  recorded one, the failure.
\<close>

record failure =
  f_message :: string
  f_subjects :: "subject list"
  f_detail :: "(string \<times> detail) list"

record delivery =
  dl_message :: message
  dl_attempt :: nat
  dl_metadata :: metadata
  dl_failure :: "failure option"

section \<open>The database slice of one queue\<close>

record db =
  d_requests :: "string \<rightharpoonup> request"
  d_request_batches :: "request_batch list"
  d_batches :: "string \<rightharpoonup> batch"
  d_dependents :: "string \<rightharpoonup> batch_dependent"
  d_batch_states :: "queue_batch_state list"
  d_path_sets :: "string \<rightharpoonup> path_set"
  d_path_builds :: "string \<times> int \<rightharpoonup> path_build"
  d_builds :: "string \<rightharpoonup> build"
  d_changes :: "change_record list"
  d_counters :: "string \<Rightarrow> int"
  d_messages :: "message list"

definition empty_db :: db where
  "empty_db = \<lparr>d_requests = Map.empty, d_request_batches = [], d_batches = Map.empty,
     d_dependents = Map.empty, d_batch_states = [], d_path_sets = Map.empty,
     d_path_builds = Map.empty, d_builds = Map.empty, d_changes = [], d_counters = (\<lambda>_. 0), d_messages = []\<rparr>"

text \<open>What a process asked of the build runner, in order: an effect outside the database.\<close>

datatype runner_call = Triggered "string list" string | CancelRequested string

type_synonym event = "db store_event"

record world = "db store_world" +
  w_queue :: string
  w_registry :: "topic_key \<rightharpoonup> string"
  w_nanos :: nat
  w_seq :: nat
  w_calls :: "runner_call list"

type_synonym 'a op = "(world, goerr, 'a) act"

definition now_ms :: "world \<Rightarrow> int" where
  "now_ms w = int (w_nanos w div 1000000)"

text \<open>\<open>time.Now().UnixMilli()\<close>.\<close>

definition get_now_ms :: "int op" where
  "get_now_ms = (\<lambda>w. (Inr (now_ms w), w))"

lemma triple_get_now:
  "(\<And>d. R d d) \<Longrightarrow> (\<And>d t. P d \<Longrightarrow> Q t d) \<Longrightarrow> triple I R P get_now_ms Q"
  by (auto simp: triple_def get_now_ms_def)

end
