(* ===== verification/Storage.thy ===== *)
theory Storage
  imports World "HOL-Library.Char_ord" "HOL-Library.List_Lexorder"
begin

text \<open>
  The queue-bound stores of \<open>submitqueue/orchestrator/extension/storage/mysql\<close> and the counter of
  \<open>platform/extension/counter/mysql\<close>.  Each method is the one SQL statement it sends, as a function
  of the database slice (\<open>..._row_...\<close>), under the checks the method makes before it sends it.
  The slice holds the rows of the bound queue only, so the \<open>queue = ?\<close> of every statement is the
  choice of the slice.  \<open>insert_row\<close> and \<open>update_where\<close> are the INSERT and the UPDATE on a table
  with a primary key; an UPDATE reports the rows it changed, as the driver does by default.

  Four of the stores share one contract, optimistic locking; the locale \<open>versioned_table\<close> states
  it and proves what the callers rely on, and is interpreted on each of them.
\<close>

section \<open>Statements\<close>

definition insert_row :: "'k \<Rightarrow> 'r \<Rightarrow> ('k \<rightharpoonup> 'r) \<Rightarrow> ('k \<rightharpoonup> 'r) option" where
  "insert_row k r t = (case t k of Some _ \<Rightarrow> None | None \<Rightarrow> Some (t(k \<mapsto> r)))"

definition update_where :: "('r \<Rightarrow> bool) \<Rightarrow> 'k \<Rightarrow> 'r \<Rightarrow> ('k \<rightharpoonup> 'r) \<Rightarrow> nat \<times> ('k \<rightharpoonup> 'r)" where
  "update_where P k new t = (case t k of
     Some old \<Rightarrow> if P old \<and> old \<noteq> new then (1, t(k \<mapsto> new)) else (0, t)
   | None \<Rightarrow> (0, t))"

text \<open>
  \<open>sql.ErrNoRows\<close> and the wraps of \<open>submitqueue/extension/storage/storage.go\<close>:
  \<open>WrapNotFound(err)\<close> joins the sentinel to the cause.
\<close>

definition wrap_not_found :: "goerr \<Rightarrow> goerr" where
  "wrap_not_found cause = GroupedError [ErrNotFound, cause]"

definition select_row :: "'r option \<Rightarrow> goerr + 'r" where
  "select_row r = (case r of None \<Rightarrow> Inl (wrap_not_found (Plain ''sql: no rows in result set'')) | Some x \<Rightarrow> Inr x)"

definition require_queue :: "string \<Rightarrow> string \<Rightarrow> 'a op \<Rightarrow> 'a op" where
  "require_queue what q m = (\<lambda>w. if q \<noteq> w_queue w then fail (Plain what) w else m w)"

section \<open>The request store\<close>

definition request_row_create :: "request \<Rightarrow> db \<Rightarrow> (goerr + unit) \<times> db" where
  "request_row_create r d = (case insert_row (r_id r) r (d_requests d) of
     None \<Rightarrow> (Inl (Wrapped ''request entity'' ErrAlreadyExists), d)
   | Some t \<Rightarrow> (Inr (), d\<lparr>d_requests := t\<rparr>))"

definition request_row_update :: "request \<Rightarrow> int \<Rightarrow> int \<Rightarrow> db \<Rightarrow> (goerr + unit) \<times> db" where
  "request_row_update r old new d =
     (case update_where (\<lambda>s. r_version s = old) (r_id r) (r\<lparr>r_version := new\<rparr>) (d_requests d) of
       (n, t) \<Rightarrow>
         if n \<noteq> 1 then (Inl (Wrapped ''version mismatch for request update'' err_version_mismatch), d\<lparr>d_requests := t\<rparr>)
         else (Inr (), d\<lparr>d_requests := t\<rparr>))"

definition request_get :: "string \<Rightarrow> request op" where
  "request_get i = db_op (\<lambda>d. (select_row (d_requests d i), d))"

definition request_create :: "request \<Rightarrow> unit op" where
  "request_create r = require_queue ''request queue does not match'' (r_queue r) (db_op (request_row_create r))"

definition request_update :: "request \<Rightarrow> int \<Rightarrow> int \<Rightarrow> unit op" where
  "request_update r old new =
     require_queue ''request queue does not match'' (r_queue r) (db_op (request_row_update r old new))"

section \<open>The request-to-batch associations\<close>

definition request_batch_row_create :: "request_batch \<Rightarrow> db \<Rightarrow> (goerr + unit) \<times> db" where
  "request_batch_row_create a d =
     (if list_ex (\<lambda>x. rb_request x = rb_request a \<and> rb_batch x = rb_batch a) (d_request_batches d)
      then (Inl (Wrapped ''request batch association'' ErrAlreadyExists), d)
      else (Inr (), d\<lparr>d_request_batches := d_request_batches d @ [a]\<rparr>))"

definition request_batch_create :: "request_batch \<Rightarrow> unit op" where
  "request_batch_create a = db_op (request_batch_row_create a)"

definition get_by_request_id :: "string \<Rightarrow> request_batch list op" where
  "get_by_request_id i = db_op (\<lambda>d.
     (Inr (sort_key rb_batch (filter (\<lambda>a. rb_request a = i) (d_request_batches d))), d))"

section \<open>The batch store\<close>

definition batch_row_create :: "batch \<Rightarrow> db \<Rightarrow> (goerr + unit) \<times> db" where
  "batch_row_create b d = (case insert_row (b_id b) b (d_batches d) of
     None \<Rightarrow> (Inl (Wrapped ''batch entity'' ErrAlreadyExists), d)
   | Some t \<Rightarrow> (Inr (), d\<lparr>d_batches := t\<rparr>))"

definition batch_row_update :: "batch \<Rightarrow> int \<Rightarrow> int \<Rightarrow> db \<Rightarrow> (goerr + unit) \<times> db" where
  "batch_row_update b old new d =
     (case update_where (\<lambda>s. b_version s = old) (b_id b) (b\<lparr>b_version := new\<rparr>) (d_batches d) of
       (n, t) \<Rightarrow>
         if n \<noteq> 1 then (Inl (Wrapped ''version mismatch for batch update'' err_version_mismatch), d\<lparr>d_batches := t\<rparr>)
         else (Inr (), d\<lparr>d_batches := t\<rparr>))"

definition batch_get :: "string \<Rightarrow> batch op" where
  "batch_get i = db_op (\<lambda>d. (select_row (d_batches d i), d))"

definition batch_create :: "batch \<Rightarrow> unit op" where
  "batch_create b = require_queue ''batch queue does not match'' (b_queue b) (db_op (batch_row_create b))"

definition batch_update :: "batch \<Rightarrow> int \<Rightarrow> int \<Rightarrow> unit op" where
  "batch_update b old new =
     require_queue ''batch queue does not match'' (b_queue b) (db_op (batch_row_update b old new))"

section \<open>The reverse dependency edges\<close>

definition dependent_row_create :: "batch_dependent \<Rightarrow> db \<Rightarrow> (goerr + unit) \<times> db" where
  "dependent_row_create b d = (case insert_row (bd_batch b) b (d_dependents d) of
     None \<Rightarrow> (Inl (Wrapped ''batch dependent entity'' ErrAlreadyExists), d)
   | Some t \<Rightarrow> (Inr (), d\<lparr>d_dependents := t\<rparr>))"

definition dependent_row_update :: "batch_dependent \<Rightarrow> int \<Rightarrow> int \<Rightarrow> db \<Rightarrow> (goerr + unit) \<times> db" where
  "dependent_row_update b old new d =
     (case update_where (\<lambda>s. bd_version s = old) (bd_batch b) (b\<lparr>bd_version := new\<rparr>) (d_dependents d) of
       (n, t) \<Rightarrow>
         if n \<noteq> 1 then (Inl (Wrapped ''version mismatch for batch dependent update'' err_version_mismatch), d\<lparr>d_dependents := t\<rparr>)
         else (Inr (), d\<lparr>d_dependents := t\<rparr>))"

definition dependent_get :: "string \<Rightarrow> batch_dependent op" where
  "dependent_get i = db_op (\<lambda>d. (select_row (d_dependents d i), d))"

definition dependent_create :: "batch_dependent \<Rightarrow> unit op" where
  "dependent_create b = db_op (dependent_row_create b)"

definition dependent_update :: "batch_dependent \<Rightarrow> int \<Rightarrow> int \<Rightarrow> unit op" where
  "dependent_update b old new = db_op (dependent_row_update b old new)"

section \<open>The per-state membership records\<close>

definition state_row_put :: "queue_batch_state \<Rightarrow> db \<Rightarrow> db" where
  "state_row_put rec d =
     (if rec \<in> set (d_batch_states d) then d else d\<lparr>d_batch_states := d_batch_states d @ [rec]\<rparr>)"

definition state_row_delete :: "batch_state \<Rightarrow> string \<Rightarrow> db \<Rightarrow> db" where
  "state_row_delete st i d =
     d\<lparr>d_batch_states := filter (\<lambda>r. \<not> (qbs_state r = st \<and> qbs_batch r = i)) (d_batch_states d)\<rparr>"

definition state_list :: "batch_state \<Rightarrow> queue_batch_state list op" where
  "state_list st = db_op (\<lambda>d. (Inr (filter (\<lambda>r. qbs_state r = st) (d_batch_states d)), d))"

definition state_put :: "queue_batch_state \<Rightarrow> unit op" where
  "state_put rec = require_queue ''queue batch state record queue does not match'' (qbs_queue rec)
     (db_op (\<lambda>d. (Inr (), state_row_put rec d)))"

definition state_delete :: "batch_state \<Rightarrow> string \<Rightarrow> unit op" where
  "state_delete st i = db_op (\<lambda>d. (Inr (), state_row_delete st i d))"

section \<open>The speculation path sets\<close>

definition path_set_row_create :: "path_set \<Rightarrow> db \<Rightarrow> (goerr + unit) \<times> db" where
  "path_set_row_create s d = (case insert_row (ps_head s) s (d_path_sets d) of
     None \<Rightarrow> (Inl (Wrapped ''speculation path set entity'' ErrAlreadyExists), d)
   | Some t \<Rightarrow> (Inr (), d\<lparr>d_path_sets := t\<rparr>))"

definition path_set_row_update :: "path_set \<Rightarrow> int \<Rightarrow> int \<Rightarrow> db \<Rightarrow> (goerr + unit) \<times> db" where
  "path_set_row_update s old new d =
     (case update_where (\<lambda>r. ps_version r = old) (ps_head s) (s\<lparr>ps_version := new\<rparr>) (d_path_sets d) of
       (n, t) \<Rightarrow>
         if n \<noteq> 1 then (Inl (Wrapped ''version mismatch for speculation path set update'' err_version_mismatch), d\<lparr>d_path_sets := t\<rparr>)
         else (Inr (), d\<lparr>d_path_sets := t\<rparr>))"

definition path_set_get :: "string \<Rightarrow> path_set op" where
  "path_set_get h = db_op (\<lambda>d. (select_row (d_path_sets d h), d))"

definition path_set_create :: "path_set \<Rightarrow> unit op" where
  "path_set_create s =
     require_queue ''speculation path set queue does not match'' (ps_queue s) (db_op (path_set_row_create s))"

definition path_set_update :: "path_set \<Rightarrow> int \<Rightarrow> int \<Rightarrow> unit op" where
  "path_set_update s old new =
     require_queue ''speculation path set queue does not match'' (ps_queue s) (db_op (path_set_row_update s old new))"

section \<open>Builds and the build of each path attempt\<close>

definition build_row_create :: "build \<Rightarrow> db \<Rightarrow> (goerr + unit) \<times> db" where
  "build_row_create b d = (case insert_row (bl_id b) b (d_builds d) of
     None \<Rightarrow> (Inl (Wrapped ''build entity'' ErrAlreadyExists), d)
   | Some t \<Rightarrow> (Inr (), d\<lparr>d_builds := t\<rparr>))"

definition build_row_update :: "build \<Rightarrow> db \<Rightarrow> (goerr + unit) \<times> db" where
  "build_row_update b d = (case update_where (\<lambda>_. True) (bl_id b) b (d_builds d) of
     (n, t) \<Rightarrow> if n \<noteq> 1 then (Inl (wrap_not_found (Plain ''build entity'')), d\<lparr>d_builds := t\<rparr>)
               else (Inr (), d\<lparr>d_builds := t\<rparr>))"

definition build_get :: "string \<Rightarrow> build op" where
  "build_get i = db_op (\<lambda>d. (select_row (d_builds d i), d))"

definition build_create :: "build \<Rightarrow> unit op" where
  "build_create b = db_op (build_row_create b)"

definition build_update :: "build \<Rightarrow> unit op" where
  "build_update b = db_op (build_row_update b)"

definition path_build_row_create :: "path_build \<Rightarrow> db \<Rightarrow> (goerr + unit) \<times> db" where
  "path_build_row_create b d = (case insert_row (pb_path b, pb_attempt b) b (d_path_builds d) of
     None \<Rightarrow> (Inl (Wrapped ''path build entity'' ErrAlreadyExists), d)
   | Some t \<Rightarrow> (Inr (), d\<lparr>d_path_builds := t\<rparr>))"

definition path_build_get :: "string \<Rightarrow> int \<Rightarrow> path_build op" where
  "path_build_get p n = db_op (\<lambda>d. (select_row (d_path_builds d (p, n)), d))"

definition path_build_create :: "path_build \<Rightarrow> unit op" where
  "path_build_create b =
     require_queue ''path build queue does not match'' (pb_queue b) (db_op (path_build_row_create b))"

section \<open>The claimed changes\<close>

text \<open>\<open>INSERT IGNORE\<close>: a row with the same key is kept as it is.\<close>

definition change_row_create :: "change_record \<Rightarrow> db \<Rightarrow> (goerr + unit) \<times> db" where
  "change_row_create c d =
     (if list_ex (\<lambda>x. ch_uri x = ch_uri c \<and> ch_request x = ch_request c) (d_changes d) then (Inr (), d)
      else (Inr (), d\<lparr>d_changes := d_changes d @ [c]\<rparr>))"

definition change_create :: "change_record \<Rightarrow> unit op" where
  "change_create c = require_queue ''change record queue does not match'' (ch_queue c) (db_op (change_row_create c))"

definition change_get_by_uri :: "string \<Rightarrow> change_record list op" where
  "change_get_by_uri uri = db_op (\<lambda>d. (Inr (filter (\<lambda>c. ch_uri c = uri) (d_changes d)), d))"

section \<open>Counters and the resolution of a queue\<close>

text \<open>A domain without a row starts at one, so an absent counter is the value zero.\<close>

definition counter_next :: "string \<Rightarrow> int op" where
  "counter_next domain = db_op (\<lambda>d.
     let v = d_counters d domain + 1; d' = d\<lparr>d_counters := (d_counters d)(domain := v)\<rparr> in
     if v \<le> 0 then (Inl (Plain ''counter returned non-positive value''), d') else (Inr v, d'))"

text \<open>
  \<open>Storage.For(queueName)\<close>.  A handler runs in the world of the queue its message names, so the
  store aggregate it resolves is the world's own; another queue's world is not this one.
\<close>

definition storage_for :: "string \<Rightarrow> unit op" where
  "storage_for q = (\<lambda>w.
     if q = [] then fail (Plain ''queue name must not be empty'') w
     else if q \<noteq> w_queue w then fail (Plain ''no backend is configured for the queue'') w
     else ok () w)"

section \<open>Facts on the statements\<close>

lemma is_not_found_wrapped [simp]: "is_not_found (wrap_not_found e)"
  by (simp add: wrap_not_found_def is_not_found_def)

lemma is_already_exists_wrap_not_found [simp]:
  "is_already_exists (wrap_not_found (Plain m)) = False"
  by (simp add: wrap_not_found_def is_already_exists_def)

lemma select_row_simps [simp]:
  "select_row (Some x) = Inr x"
  "select_row r = Inr x \<longleftrightarrow> r = Some x"
  by (auto simp: select_row_def split: option.splits)

lemma insert_row_Some: "insert_row k r t = Some t' \<longleftrightarrow> t k = None \<and> t' = t(k \<mapsto> r)"
  by (auto simp: insert_row_def split: option.splits)

lemma insert_row_None: "insert_row k r t = None \<longleftrightarrow> (\<exists>s. t k = Some s)"
  by (auto simp: insert_row_def split: option.splits)

lemma update_where_cases:
  obtains (changed) s where "t k = Some s" "P s" "s \<noteq> new" "update_where P k new t = (1, t(k \<mapsto> new))"
    | (unchanged) "update_where P k new t = (0, t)" "\<forall>s. t k = Some s \<longrightarrow> \<not> P s \<or> s = new"
proof (cases "t k")
  case None
  then show ?thesis by (intro unchanged) (auto simp: update_where_def)
next
  case (Some s)
  then show ?thesis
    by (cases "P s \<and> s \<noteq> new") (auto simp: update_where_def intro: changed unchanged)
qed

lemma require_queue_apply [act_simps]:
  "require_queue what q m w = (if q \<noteq> w_queue w then fail (Plain what) w else m w)"
  by (simp add: require_queue_def)

section \<open>The contract of the optimistic-locking stores\<close>

locale versioned_table =
  fixes lookup :: "db \<Rightarrow> string \<Rightarrow> 'r option"
    and create :: "'r \<Rightarrow> db \<Rightarrow> (goerr + unit) \<times> db"
    and update :: "'r \<Rightarrow> int \<Rightarrow> int \<Rightarrow> db \<Rightarrow> (goerr + unit) \<times> db"
    and key :: "'r \<Rightarrow> string"
    and version :: "'r \<Rightarrow> int"
    and stamp :: "int \<Rightarrow> 'r \<Rightarrow> 'r"
  assumes key_stamp: "key (stamp v r) = key r"
    and version_stamp: "version (stamp v r) = v"
    and create_new: "lookup d (key r) = None \<Longrightarrow>
      fst (create r d) = Inr () \<and> lookup (snd (create r d)) = (lookup d)(key r \<mapsto> r)"
    and create_taken: "lookup d (key r) = Some s \<Longrightarrow>
      \<exists>e. create r d = (Inl e, d) \<and> is_already_exists e"
    and update_hit: "lookup d (key r) = Some s \<Longrightarrow> version s = old \<Longrightarrow> old \<noteq> new \<Longrightarrow>
      fst (update r old new d) = Inr () \<and> lookup (snd (update r old new d)) = (lookup d)(key r \<mapsto> stamp new r)"
    and update_miss: "(\<forall>s. lookup d (key r) = Some s \<longrightarrow> version s \<noteq> old) \<Longrightarrow>
      \<exists>e. update r old new d = (Inl e, d) \<and> is_version_mismatch e"
begin

lemma update_cases:
  assumes "old \<noteq> new"
  obtains (hit) s where "lookup d (key r) = Some s" "version s = old" "fst (update r old new d) = Inr ()"
      "lookup (snd (update r old new d)) = (lookup d)(key r \<mapsto> stamp new r)"
    | (miss) e where "update r old new d = (Inl e, d)" "is_version_mismatch e"
        "\<forall>s. lookup d (key r) = Some s \<longrightarrow> version s \<noteq> old"
  using assms update_hit [of d r] update_miss [of d r] by (cases "lookup d (key r)") metis+

lemma create_cases:
  obtains (new) "lookup d (key r) = None" "fst (create r d) = Inr ()"
      "lookup (snd (create r d)) = (lookup d)(key r \<mapsto> r)"
    | (taken) s e where "lookup d (key r) = Some s" "create r d = (Inl e, d)" "is_already_exists e"
  using create_new [of d r] create_taken [of d r] by (cases "lookup d (key r)") metis+

lemma update_succeeds_iff:
  "old \<noteq> new \<Longrightarrow> fst (update r old new d) = Inr () \<longleftrightarrow>
     (\<exists>s. lookup d (key r) = Some s \<and> version s = old)"
  by (cases rule: update_cases [of old new d r]) auto

lemma update_other_key: "old \<noteq> new \<Longrightarrow> k \<noteq> key r \<Longrightarrow> lookup (snd (update r old new d)) k = lookup d k"
  by (cases rule: update_cases [of old new d r]) auto

lemma create_keeps: "lookup d k = Some s \<Longrightarrow> lookup (snd (create r d)) k = Some s"
  by (cases rule: create_cases [of d r]) auto

text \<open>Of two writers that read the same version, the second to write is refused.\<close>

lemma no_lost_update:
  assumes "old \<noteq> new" and "old \<noteq> new'" and "key r' = key r"
    and "fst (update r old new d) = Inr ()"
  shows "\<exists>e. update r' old new' (snd (update r old new d)) = (Inl e, snd (update r old new d)) \<and>
           is_version_mismatch e"
  using assms update_miss [of "snd (update r old new d)" r' old new']
  by (cases rule: update_cases [OF assms(1), of d r]) (auto simp: version_stamp)

text \<open>Writers that add one to the version never bring a row's version down.\<close>

lemma update_version_grows:
  assumes "lookup d k = Some s"
  shows "\<exists>s'. lookup (snd (update r old (old + 1) d)) k = Some s' \<and> version s \<le> version s'"
proof -
  have "old \<noteq> old + 1" by simp
  then show ?thesis
    by (cases rule: update_cases [of old "old + 1" d r]) (use assms in \<open>auto simp: version_stamp\<close>)
qed

end

lemmas row_defs =
  request_row_create_def request_row_update_def batch_row_create_def batch_row_update_def
  dependent_row_create_def dependent_row_update_def path_set_row_create_def path_set_row_update_def
  path_build_row_create_def build_row_create_def build_row_update_def insert_row_def update_where_def

interpretation request_table: versioned_table d_requests request_row_create request_row_update
  r_id r_version "\<lambda>v r. r\<lparr>r_version := v\<rparr>"
  by unfold_locales (auto simp: row_defs split: option.splits if_splits)

interpretation batch_table: versioned_table d_batches batch_row_create batch_row_update
  b_id b_version "\<lambda>v r. r\<lparr>b_version := v\<rparr>"
  by unfold_locales (auto simp: row_defs split: option.splits if_splits)

interpretation dependent_table: versioned_table d_dependents dependent_row_create dependent_row_update
  bd_batch bd_version "\<lambda>v r. r\<lparr>bd_version := v\<rparr>"
  by unfold_locales (auto simp: row_defs split: option.splits if_splits)

interpretation path_set_table: versioned_table d_path_sets path_set_row_create path_set_row_update
  ps_head ps_version "\<lambda>v r. r\<lparr>ps_version := v\<rparr>"
  by unfold_locales (auto simp: row_defs split: option.splits if_splits)

section \<open>What a store call leaves alone\<close>

lemmas all_row_defs = row_defs request_batch_row_create_def state_row_put_def state_row_delete_def change_row_create_def

lemma batches_untouched [simp]:
  "d_batches (snd (request_row_create r d)) = d_batches d"
  "d_batches (snd (request_row_update r v v' d)) = d_batches d"
  "d_batches (snd (request_batch_row_create a d)) = d_batches d"
  "d_batches (snd (dependent_row_create bd d)) = d_batches d"
  "d_batches (snd (dependent_row_update bd v v' d)) = d_batches d"
  "d_batches (state_row_put q d) = d_batches d"
  "d_batches (state_row_delete st i d) = d_batches d"
  "d_batches (snd (path_set_row_create s d)) = d_batches d"
  "d_batches (snd (path_set_row_update s v v' d)) = d_batches d"
  "d_batches (snd (build_row_create bl d)) = d_batches d"
  "d_batches (snd (build_row_update bl d)) = d_batches d"
  "d_batches (snd (path_build_row_create pb d)) = d_batches d"
  "d_batches (snd (change_row_create c d)) = d_batches d"
  by (auto simp: all_row_defs split: option.splits)

lemma sets_untouched [simp]:
  "d_path_sets (snd (request_row_create r d)) = d_path_sets d"
  "d_path_sets (snd (request_row_update r v v' d)) = d_path_sets d"
  "d_path_sets (snd (request_batch_row_create a d)) = d_path_sets d"
  "d_path_sets (snd (batch_row_create b d)) = d_path_sets d"
  "d_path_sets (snd (batch_row_update b v v' d)) = d_path_sets d"
  "d_path_sets (snd (dependent_row_create bd d)) = d_path_sets d"
  "d_path_sets (snd (dependent_row_update bd v v' d)) = d_path_sets d"
  "d_path_sets (state_row_put q d) = d_path_sets d"
  "d_path_sets (state_row_delete st i d) = d_path_sets d"
  "d_path_sets (snd (build_row_create bl d)) = d_path_sets d"
  "d_path_sets (snd (build_row_update bl d)) = d_path_sets d"
  "d_path_sets (snd (path_build_row_create pb d)) = d_path_sets d"
  "d_path_sets (snd (change_row_create c d)) = d_path_sets d"
  by (auto simp: all_row_defs split: option.splits)

lemma requests_untouched [simp]:
  "d_requests (snd (request_batch_row_create a d)) = d_requests d"
  "d_requests (snd (batch_row_create b d)) = d_requests d"
  "d_requests (snd (batch_row_update b v v' d)) = d_requests d"
  "d_requests (snd (dependent_row_create bd d)) = d_requests d"
  "d_requests (snd (dependent_row_update bd v v' d)) = d_requests d"
  "d_requests (state_row_put q d) = d_requests d"
  "d_requests (state_row_delete st i d) = d_requests d"
  "d_requests (snd (path_set_row_create s d)) = d_requests d"
  "d_requests (snd (path_set_row_update s v v' d)) = d_requests d"
  "d_requests (snd (build_row_create bl d)) = d_requests d"
  "d_requests (snd (build_row_update bl d)) = d_requests d"
  "d_requests (snd (path_build_row_create pb d)) = d_requests d"
  "d_requests (snd (change_row_create c d)) = d_requests d"
  by (auto simp: all_row_defs split: option.splits)

lemma builds_untouched [simp]:
  "d_builds (snd (request_row_create r d)) = d_builds d"
  "d_builds (snd (request_row_update r v v' d)) = d_builds d"
  "d_builds (snd (request_batch_row_create a d)) = d_builds d"
  "d_builds (snd (batch_row_create b d)) = d_builds d"
  "d_builds (snd (batch_row_update b v v' d)) = d_builds d"
  "d_builds (snd (dependent_row_create bd d)) = d_builds d"
  "d_builds (snd (dependent_row_update bd v v' d)) = d_builds d"
  "d_builds (state_row_put q d) = d_builds d"
  "d_builds (state_row_delete st i d) = d_builds d"
  "d_builds (snd (path_set_row_create s d)) = d_builds d"
  "d_builds (snd (path_set_row_update s v v' d)) = d_builds d"
  "d_builds (snd (path_build_row_create pb d)) = d_builds d"
  "d_builds (snd (change_row_create c d)) = d_builds d"
  by (auto simp: all_row_defs split: option.splits)

lemma links_untouched [simp]:
  "d_path_builds (snd (request_row_create r d)) = d_path_builds d"
  "d_path_builds (snd (request_row_update r v v' d)) = d_path_builds d"
  "d_path_builds (snd (request_batch_row_create a d)) = d_path_builds d"
  "d_path_builds (snd (batch_row_create b d)) = d_path_builds d"
  "d_path_builds (snd (batch_row_update b v v' d)) = d_path_builds d"
  "d_path_builds (snd (dependent_row_create bd d)) = d_path_builds d"
  "d_path_builds (snd (dependent_row_update bd v v' d)) = d_path_builds d"
  "d_path_builds (state_row_put q d) = d_path_builds d"
  "d_path_builds (state_row_delete st i d) = d_path_builds d"
  "d_path_builds (snd (path_set_row_create s d)) = d_path_builds d"
  "d_path_builds (snd (path_set_row_update s v v' d)) = d_path_builds d"
  "d_path_builds (snd (build_row_create bl d)) = d_path_builds d"
  "d_path_builds (snd (build_row_update bl d)) = d_path_builds d"
  "d_path_builds (snd (change_row_create c d)) = d_path_builds d"
  by (auto simp: all_row_defs split: option.splits)

lemma associations_untouched [simp]:
  "d_request_batches (snd (request_row_create r d)) = d_request_batches d"
  "d_request_batches (snd (request_row_update r v v' d)) = d_request_batches d"
  "d_request_batches (snd (batch_row_create b d)) = d_request_batches d"
  "d_request_batches (snd (batch_row_update b v v' d)) = d_request_batches d"
  "d_request_batches (snd (dependent_row_create bd d)) = d_request_batches d"
  "d_request_batches (snd (dependent_row_update bd v v' d)) = d_request_batches d"
  "d_request_batches (state_row_put q d) = d_request_batches d"
  "d_request_batches (state_row_delete st i d) = d_request_batches d"
  "d_request_batches (snd (path_set_row_create s d)) = d_request_batches d"
  "d_request_batches (snd (path_set_row_update s v v' d)) = d_request_batches d"
  "d_request_batches (snd (build_row_create bl d)) = d_request_batches d"
  "d_request_batches (snd (build_row_update bl d)) = d_request_batches d"
  "d_request_batches (snd (path_build_row_create pb d)) = d_request_batches d"
  "d_request_batches (snd (change_row_create c d)) = d_request_batches d"
  by (auto simp: all_row_defs split: option.splits)

lemma messages_untouched [simp]:
  "d_messages (snd (request_row_create r d)) = d_messages d"
  "d_messages (snd (request_row_update r v v' d)) = d_messages d"
  "d_messages (snd (request_batch_row_create a d)) = d_messages d"
  "d_messages (snd (batch_row_create b d)) = d_messages d"
  "d_messages (snd (batch_row_update b v v' d)) = d_messages d"
  "d_messages (snd (dependent_row_create bd d)) = d_messages d"
  "d_messages (snd (dependent_row_update bd v v' d)) = d_messages d"
  "d_messages (state_row_put q d) = d_messages d"
  "d_messages (state_row_delete st i d) = d_messages d"
  "d_messages (snd (path_set_row_create s d)) = d_messages d"
  "d_messages (snd (path_set_row_update s v v' d)) = d_messages d"
  "d_messages (snd (build_row_create bl d)) = d_messages d"
  "d_messages (snd (build_row_update bl d)) = d_messages d"
  "d_messages (snd (path_build_row_create pb d)) = d_messages d"
  "d_messages (snd (change_row_create c d)) = d_messages d"
  by (auto simp: all_row_defs split: option.splits)

lemma states_untouched [simp]:
  "d_batch_states (snd (request_row_create r d)) = d_batch_states d"
  "d_batch_states (snd (request_row_update r v v' d)) = d_batch_states d"
  "d_batch_states (snd (request_batch_row_create a d)) = d_batch_states d"
  "d_batch_states (snd (batch_row_create b d)) = d_batch_states d"
  "d_batch_states (snd (batch_row_update b v v' d)) = d_batch_states d"
  "d_batch_states (snd (dependent_row_create bd d)) = d_batch_states d"
  "d_batch_states (snd (dependent_row_update bd v v' d)) = d_batch_states d"
  "d_batch_states (snd (path_set_row_create s d)) = d_batch_states d"
  "d_batch_states (snd (path_set_row_update s v v' d)) = d_batch_states d"
  "d_batch_states (snd (build_row_create bl d)) = d_batch_states d"
  "d_batch_states (snd (build_row_update bl d)) = d_batch_states d"
  "d_batch_states (snd (path_build_row_create pb d)) = d_batch_states d"
  "d_batch_states (snd (change_row_create c d)) = d_batch_states d"
  by (auto simp: all_row_defs split: option.splits)

end
