(* ===== verification/Publish.thy ===== *)
theory Publish
  imports Storage
begin

text \<open>
  Publishing: \<open>platform/publish\<close>, the message identity checks of \<open>platform/base/messagequeue\<close>,
  the MySQL publisher and its deduplicating insert (\<open>platform/extension/messagequeue/mysql\<close>), and
  the ID-only payloads of \<open>submitqueue/core/messagequeue\<close>.  Strings are ASCII, so a byte is a
  character and every string is valid UTF-8.  The messages of the slice are those the tenant's
  producers inserted and the queue has not garbage-collected, oldest first.
\<close>

section \<open>Message identifiers\<close>

fun strings_join :: "string \<Rightarrow> string list \<Rightarrow> string" where
  "strings_join sep [] = []"
| "strings_join sep [x] = x"
| "strings_join sep (x # y # ys) = x @ sep @ strings_join sep (y # ys)"

definition intent_id :: "string \<Rightarrow> string list \<Rightarrow> string" where
  "intent_id entity cause = (if cause = [] then entity else entity @ ''/'' @ strings_join ''/'' cause)"

text \<open>\<open>UniqueID\<close> reads the clock and advances the process-wide sequence.\<close>

definition unique_id :: "string \<Rightarrow> string op" where
  "unique_id i = (\<lambda>w.
     let n = w_seq w + 1 in
     (Inr (i @ ''@'' @ dec (w_nanos w) @ ''-'' @ dec n), w\<lparr>w_seq := n\<rparr>))"

section \<open>Identity checks\<close>

abbreviation metadata_key_queue_name :: string where
  "metadata_key_queue_name \<equiv> ''queue_name''"

definition metadata_get :: "metadata \<Rightarrow> string \<Rightarrow> string" where
  "metadata_get m k = (case m k of None \<Rightarrow> [] | Some v \<Rightarrow> v)"

definition validate_tenant_metadata :: "message \<Rightarrow> goerr + unit" where
  "validate_tenant_metadata m =
     (if m_tenant m = [] then Inl (Plain ''message tenant is required'')
      else let q = metadata_get (m_metadata m) metadata_key_queue_name in
        if q \<noteq> [] \<and> q \<noteq> m_tenant m then Inl (Plain ''message tenant does not match queue metadata'')
        else Inr ())"

definition validate_payload_queue :: "message \<Rightarrow> string \<Rightarrow> goerr + unit" where
  "validate_payload_queue m q = (case validate_tenant_metadata m of
     Inl e \<Rightarrow> Inl e
   | Inr _ \<Rightarrow>
       if q = [] then Inl (Plain ''payload queue is required'')
       else if q \<noteq> m_tenant m then Inl (Plain ''message tenant does not match payload queue'')
       else Inr ())"

definition validate_ascii_identifier :: "string \<Rightarrow> string \<Rightarrow> goerr + unit" where
  "validate_ascii_identifier name v =
     (if length v > 255 then Inl (Plain (name @ '' exceeds 255 bytes''))
      else if list_ex (\<lambda>c. (of_char c :: nat) > 127) v
        then Inl (Plain (name @ '' must contain only ASCII characters''))
      else if list_ex (\<lambda>c. (of_char c :: nat) = 0) v
        then Inl (Plain (name @ '' must not contain NUL''))
      else Inr ())"

definition validate_text_identifier :: "string \<Rightarrow> string \<Rightarrow> goerr + unit" where
  "validate_text_identifier name v =
     (if length v > 255 then Inl (Plain (name @ '' exceeds 255 characters'')) else Inr ())"

section \<open>The insert and the publisher\<close>

definition same_message_key :: "message \<Rightarrow> message \<Rightarrow> bool" where
  "same_message_key a b \<longleftrightarrow> m_tenant a = m_tenant b \<and> m_topic a = m_topic b \<and>
     m_partition a = m_partition b \<and> m_id a = m_id b"

text \<open>
  The transaction of \<open>Insert\<close> for one message: the duplicate of a row still held is swallowed.
  The checks before the statement repeat those of the publisher and are made here too.
\<close>

definition message_row_insert :: "message \<Rightarrow> db \<Rightarrow> (goerr + unit) \<times> db" where
  "message_row_insert m d =
     (if m_tenant m = [] then (Inl (Plain ''tenant is required''), d)
      else case validate_tenant_metadata m of
        Inl e \<Rightarrow> (Inl (Wrapped ''insert message'' e), d)
      | Inr _ \<Rightarrow>
          if list_ex (same_message_key m) (d_messages d) then (Inr (), d)
          else (Inr (), d\<lparr>d_messages := d_messages d @ [m]\<rparr>))"

definition publisher_publish :: "message \<Rightarrow> unit op" where
  "publisher_publish m =
     (if m_tenant m = [] then fail (Plain ''publish: message tenant is required'')
      else and_then (map_err (Wrapped ''publish'') (of_sum (validate_tenant_metadata m))) (\<lambda>_.
        and_then (map_err (Wrapped ''publish'') (of_sum (validate_ascii_identifier ''tenant'' (m_tenant m)))) (\<lambda>_.
        and_then (map_err (Wrapped ''publish'') (of_sum (validate_ascii_identifier ''topic'' (m_topic m)))) (\<lambda>_.
        and_then (map_err (Wrapped ''publish'') (of_sum (validate_text_identifier ''message ID'' (m_id m)))) (\<lambda>_.
        and_then (map_err (Wrapped ''publish'') (of_sum (validate_text_identifier ''partition key'' (m_partition m)))) (\<lambda>_.
        map_err (Wrapped ''publish message store insert error'') (db_op (message_row_insert m))))))))"

text \<open>The checks of the publisher alone, for the services with a database of their own.\<close>

definition check_message :: "message \<Rightarrow> goerr + unit" where
  "check_message m =
     (if m_tenant m = [] then Inl (Plain ''publish: message tenant is required'')
      else case validate_tenant_metadata m of Inl e \<Rightarrow> Inl (Wrapped ''publish'' e) | Inr _ \<Rightarrow>
       (case validate_ascii_identifier ''tenant'' (m_tenant m) of Inl e \<Rightarrow> Inl (Wrapped ''publish'' e) | Inr _ \<Rightarrow>
       (case validate_ascii_identifier ''topic'' (m_topic m) of Inl e \<Rightarrow> Inl (Wrapped ''publish'' e) | Inr _ \<Rightarrow>
       (case validate_text_identifier ''message ID'' (m_id m) of Inl e \<Rightarrow> Inl (Wrapped ''publish'' e) | Inr _ \<Rightarrow>
       (case validate_text_identifier ''partition key'' (m_partition m) of Inl e \<Rightarrow> Inl (Wrapped ''publish'' e) | Inr _ \<Rightarrow> Inr ())))))"

lemma published_checked:
  "publisher_publish m = and_then (of_sum (check_message m))
     (\<lambda>_. map_err (Wrapped ''publish message store insert error'') (db_op (message_row_insert m)))"
  by (rule ext) (simp add: publisher_publish_def check_message_def act_simps split: sum.splits)

section \<open>publish.Message\<close>

record message_params =
  mp_tenant :: string
  mp_id :: string
  mp_payload :: payload
  mp_partition :: string
  mp_metadata :: metadata

definition publish_message :: "topic_key \<Rightarrow> message_params \<Rightarrow> unit op" where
  "publish_message key p = (\<lambda>w.
     if mp_tenant p = [] then fail (Plain ''tenant is required'') w
     else case w_registry w key of
       None \<Rightarrow> fail (Plain ''no queue registered for topic key'') w
     | Some topic \<Rightarrow>
         (case mp_metadata p metadata_key_queue_name of
            Some q \<Rightarrow> if q \<noteq> mp_tenant p
              then fail (Plain ''queue-name metadata does not match tenant'') w
              else publisher_publish
                \<lparr>m_tenant = mp_tenant p, m_topic = topic, m_id = mp_id p, m_partition = mp_partition p,
                 m_payload = mp_payload p,
                 m_metadata = (mp_metadata p)(metadata_key_queue_name \<mapsto> mp_tenant p),
                 m_published_at = now_ms w\<rparr> w
          | None \<Rightarrow> publisher_publish
                \<lparr>m_tenant = mp_tenant p, m_topic = topic, m_id = mp_id p, m_partition = mp_partition p,
                 m_payload = mp_payload p,
                 m_metadata = (mp_metadata p)(metadata_key_queue_name \<mapsto> mp_tenant p),
                 m_published_at = now_ms w\<rparr> w))"

section \<open>ID-only payloads\<close>

definition carries_id :: "topic_key \<Rightarrow> bool" where
  "carries_id key \<longleftrightarrow> key \<in> {TopicKeyValidate, TopicKeyBatch, TopicKeyDependencyAnalysis,
     TopicKeySpeculate, TopicKeyBuild, TopicKeyBuildSignal, TopicKeyLand, TopicKeyConclude}"

definition marshal_id :: "topic_key \<Rightarrow> string \<Rightarrow> string \<Rightarrow> goerr + payload" where
  "marshal_id key i q =
     (if carries_id key then Inr (PId i q) else Inl (Plain ''topic does not carry an id-only payload''))"

definition unmarshal_id :: "topic_key \<Rightarrow> payload \<Rightarrow> goerr + string \<times> string" where
  "unmarshal_id key p =
     (if \<not> carries_id key then Inl (Plain ''topic does not carry an id-only payload'')
      else case p of PId i q \<Rightarrow> Inr (i, q) | _ \<Rightarrow> Inl (Plain ''malformed payload''))"

definition unmarshal_request_id :: "topic_key \<Rightarrow> payload \<Rightarrow> goerr + string \<times> string" where
  "unmarshal_request_id key p =
     (if key \<in> {TopicKeyValidate, TopicKeyBatch} then unmarshal_id key p
      else Inl (Plain ''topic does not carry a request-id payload''))"

definition unmarshal_batch_id :: "topic_key \<Rightarrow> payload \<Rightarrow> goerr + string \<times> string" where
  "unmarshal_batch_id key p =
     (if key \<in> {TopicKeyDependencyAnalysis, TopicKeySpeculate, TopicKeyBuild, TopicKeyLand, TopicKeyConclude}
      then unmarshal_id key p else Inl (Plain ''topic does not carry a batch-id payload''))"

definition unmarshal_build_id :: "topic_key \<Rightarrow> payload \<Rightarrow> goerr + string \<times> string" where
  "unmarshal_build_id key p =
     (if key = TopicKeyBuildSignal then unmarshal_id key p
      else Inl (Plain ''topic does not carry a build-id payload''))"

definition unmarshal_land_request :: "payload \<Rightarrow> goerr + land_request" where
  "unmarshal_land_request p = (case p of PStart r \<Rightarrow> Inr r | _ \<Rightarrow> Inl (Plain ''malformed payload''))"

definition unmarshal_cancel_request :: "payload \<Rightarrow> goerr + cancel_request" where
  "unmarshal_cancel_request p = (case p of PCancel r \<Rightarrow> Inr r | _ \<Rightarrow> Inl (Plain ''malformed payload''))"

section \<open>Facts\<close>

lemmas identity_defs =
  validate_tenant_metadata_def validate_ascii_identifier_def validate_text_identifier_def

lemma message_row_insert_cases:
  obtains (refused) e where "message_row_insert m d = (Inl e, d)"
    | (duplicate) m' where "m' \<in> set (d_messages d)" "same_message_key m m'" "message_row_insert m d = (Inr (), d)"
    | (inserted) "\<forall>m'\<in>set (d_messages d). \<not> same_message_key m m'"
        "message_row_insert m d = (Inr (), d\<lparr>d_messages := d_messages d @ [m]\<rparr>)"
  unfolding message_row_insert_def
  by (cases "m_tenant m = []"; cases "validate_tenant_metadata m";
      cases "list_ex (same_message_key m) (d_messages d)")
    (auto simp: list_ex_iff)

definition only_messages :: "db \<Rightarrow> db \<Rightarrow> bool" where
  "only_messages d d' \<longleftrightarrow> (\<exists>ms. d' = d\<lparr>d_messages := d_messages d @ ms\<rparr>)"

lemma only_messages_refl [simp]: "only_messages d d"
  unfolding only_messages_def by (rule exI [of _ "[]"]) simp

lemma message_row_insert_only: "only_messages d (snd (message_row_insert m d))"
  by (cases rule: message_row_insert_cases [of m d]) (auto simp: only_messages_def)

lemma same_message_key_sym: "same_message_key a b \<Longrightarrow> same_message_key b a"
  by (auto simp: same_message_key_def)

lemma same_message_key_refl [simp]: "same_message_key a a"
  by (simp add: same_message_key_def)

text \<open>A database whose rows respect the unique index keeps to it.\<close>

definition unique_messages :: "db \<Rightarrow> bool" where
  "unique_messages d \<longleftrightarrow> distinct (map (\<lambda>m. (m_tenant m, m_topic m, m_partition m, m_id m)) (d_messages d))"

lemma message_row_insert_unique:
  "unique_messages d \<Longrightarrow> unique_messages (snd (message_row_insert m d))"
  by (cases rule: message_row_insert_cases [of m d])
    (auto simp: unique_messages_def same_message_key_def)

text \<open>In a quiet world a publish either fails and changes nothing or leaves a row with its key.\<close>

lemma publisher_publish_quiet:
  assumes "w_script w = []" and "publisher_publish m w = (Inr (), w')"
  shows "snd (message_row_insert m (w_db w)) = w_db w' \<and> w' = w\<lparr>w_db := w_db w'\<rparr> \<and>
    (\<exists>m'\<in>set (d_messages (w_db w')). same_message_key m m')"
proof -
  from assms have "fst (message_row_insert m (w_db w)) = Inr ()"
    and "w' = w\<lparr>w_db := snd (message_row_insert m (w_db w))\<rparr>"
    by (auto simp: publisher_publish_def act_simps split: if_splits sum.splits prod.splits)
  then show ?thesis
    by (cases rule: message_row_insert_cases [of m "w_db w"]) auto
qed

end
