(* ===== verification/CoreBatch.thy ===== *)
theory CoreBatch
  imports Publish
begin

text \<open>
  \<open>submitqueue/orchestrator/core/batch\<close>: the one way a batch changes state (a compare-and-swap of
  the batch row followed by the move of its membership record), the repair of a record, the listing
  of a queue's batches through the records, and the batches of a request.  The parallel reads of
  \<open>ListByStates\<close> are made here in index order; each is one read, so any other order is another
  script.
\<close>

section \<open>Transition\<close>

definition record_of :: "batch \<Rightarrow> queue_batch_state" where
  "record_of b = \<lparr>qbs_queue = b_queue b, qbs_state = b_state b, qbs_batch = b_id b\<rparr>"

definition transition :: "batch \<Rightarrow> batch_state \<Rightarrow> batch op" where
  "transition b st =
     (let old_state = b_state b; new_version = b_version b + 1; updated = b\<lparr>b_state := st\<rparr> in
      and_then (map_err (Wrapped ''failed to update batch state'')
        (batch_update updated (b_version b) new_version)) (\<lambda>_.
      let updated = updated\<lparr>b_version := new_version\<rparr> in
      and_then (map_err (Wrapped ''failed to put queue batch state record'')
        (state_put \<lparr>qbs_queue = b_queue updated, qbs_state = st, qbs_batch = b_id updated\<rparr>)) (\<lambda>_.
      and_then
        (if old_state \<noteq> st
         then map_err (Wrapped ''failed to delete queue batch state record'') (state_delete old_state (b_id updated))
         else ok ()) (\<lambda>_.
      ok updated))))"

definition ensure_record :: "batch \<Rightarrow> unit op" where
  "ensure_record b = map_err (Wrapped ''failed to put queue batch state record'') (state_put (record_of b))"

section \<open>Listing\<close>

text \<open>
  The loop over the requested states: \<open>wanted\<close> holds the states already listed, \<open>ids\<close> the
  candidate IDs in the order they were first seen (the map \<open>seen\<close> holds the same IDs).
\<close>

definition add_candidate :: "string list \<Rightarrow> string \<Rightarrow> string list" where
  "add_candidate ids i = (if i \<in> set ids then ids else ids @ [i])"

definition list_bucket ::
  "batch_state \<Rightarrow> batch_state list \<times> string list \<Rightarrow> (batch_state list \<times> string list) op" where
  "list_bucket st s = (case s of (wanted, ids) \<Rightarrow>
     if st \<in> set wanted then ok (wanted, ids)
     else and_then (map_err (Wrapped ''failed to list queue batch state records'') (state_list st)) (\<lambda>records.
       ok (st # wanted, foldl add_candidate ids (map qbs_batch records))))"

definition hydrate :: "string \<Rightarrow> batch list \<Rightarrow> batch list op" where
  "hydrate i acc = and_then (map_err (Wrapped ''failed to get batch'') (batch_get i)) (\<lambda>b. ok (acc @ [b]))"

definition list_by_states :: "batch_state list \<Rightarrow> batch list op" where
  "list_by_states states =
     and_then (fold_act list_bucket states ([], [])) (\<lambda>(wanted, ids).
     and_then (fold_act hydrate ids []) (\<lambda>hydrated.
     ok (filter (\<lambda>b. b_state b \<in> set wanted) hydrated)))"

section \<open>The batches of a request\<close>

definition find_association :: "request_batch \<Rightarrow> batch list \<times> int \<Rightarrow> (batch list \<times> int) op" where
  "find_association a s = (case s of (batches, stale) \<Rightarrow>
     and_then (attempt (batch_get (rb_batch a))) (\<lambda>r. case r of
       Inl e \<Rightarrow> if is_not_found e then ok (batches, stale + 1)
                else fail (Wrapped ''failed to get associated batch'' e)
     | Inr b \<Rightarrow> ok (batches @ [b], stale)))"

definition find_by_request_id :: "string \<Rightarrow> (batch list \<times> int) op" where
  "find_by_request_id request_id =
     and_then (map_err (Wrapped ''failed to get batch associations for request'') (get_by_request_id request_id)) (\<lambda>associations.
     and_then (fold_act find_association associations ([], 0)) (\<lambda>(batches, stale).
     ok (sort_key b_id batches, stale)))"

section \<open>Facts\<close>

lemma foldl_add_candidate_set: "set (foldl add_candidate ids xs) = set ids \<union> set xs"
  by (induction xs arbitrary: ids) (auto simp: add_candidate_def)

lemma foldl_add_candidate_distinct: "distinct ids \<Longrightarrow> distinct (foldl add_candidate ids xs)"
  by (induction xs arbitrary: ids) (auto simp: add_candidate_def)

text \<open>The quiet runs of the store calls, as rewrite rules for worlds without script.\<close>

lemma batch_get_quiet:
  "w_script w = [] \<Longrightarrow> batch_get i w = (select_row (d_batches (w_db w) i), w)"
  by (simp add: batch_get_def act_simps)

lemma state_list_quiet:
  "w_script w = [] \<Longrightarrow>
   state_list st w = (Inr (filter (\<lambda>r. qbs_state r = st) (d_batch_states (w_db w))), w)"
  by (simp add: state_list_def act_simps)

lemma state_put_quiet:
  "w_script w = [] \<Longrightarrow> qbs_queue r = w_queue w \<Longrightarrow>
   state_put r w = (Inr (), w\<lparr>w_db := state_row_put r (w_db w)\<rparr>)"
  by (simp add: state_put_def act_simps)

lemma state_delete_quiet:
  "w_script w = [] \<Longrightarrow> state_delete st i w = (Inr (), w\<lparr>w_db := state_row_delete st i (w_db w)\<rparr>)"
  by (simp add: state_delete_def act_simps)

lemma batch_update_quiet:
  "w_script w = [] \<Longrightarrow> b_queue b = w_queue w \<Longrightarrow>
   batch_update b v v' w = (fst (batch_row_update b v v' (w_db w)), w\<lparr>w_db := snd (batch_row_update b v v' (w_db w))\<rparr>)"
  by (simp add: batch_update_def act_simps)

lemmas store_quiet = batch_get_quiet state_list_quiet state_put_quiet state_delete_quiet batch_update_quiet

text \<open>The listing in a quiet world: the candidates of the wanted buckets, then the batches themselves.\<close>

lemma list_bucket_quiet:
  "w_script w = [] \<Longrightarrow> list_bucket st (wanted, ids) w =
     (Inr (if st \<in> set wanted then (wanted, ids)
           else (st # wanted, foldl add_candidate ids
             (map qbs_batch (filter (\<lambda>r. qbs_state r = st) (d_batch_states (w_db w)))))), w)"
  by (simp add: list_bucket_def act_simps store_quiet)

lemma list_buckets_quiet:
  assumes "w_script w = []"
  shows "\<exists>wanted' ids'. fold_act list_bucket states (wanted, ids) w = (Inr (wanted', ids'), w) \<and>
    set wanted' = set wanted \<union> set states \<and>
    set ids' = set ids \<union> {qbs_batch r |r. r \<in> set (d_batch_states (w_db w)) \<and> qbs_state r \<in> set states - set wanted} \<and>
    (distinct ids \<longrightarrow> distinct ids')"
proof (induction states arbitrary: wanted ids)
  case Nil
  then show ?case by (simp add: act_simps)
next
  case (Cons st states)
  let ?rows = "d_batch_states (w_db w)"
  let ?ids = "foldl add_candidate ids (map qbs_batch (filter (\<lambda>r. qbs_state r = st) ?rows))"
  show ?case
  proof (cases "st \<in> set wanted")
    case True
    with Cons.IH [of wanted ids] show ?thesis
      by (auto simp: act_simps list_bucket_quiet [OF assms])
  next
    case False
    from Cons.IH [of "st # wanted" ?ids] obtain wanted' ids' where
      run: "fold_act list_bucket states (st # wanted, ?ids) w = (Inr (wanted', ids'), w)" and
      w: "set wanted' = set (st # wanted) \<union> set states" and
      i: "set ids' = set ?ids \<union> {qbs_batch r |r. r \<in> set ?rows \<and> qbs_state r \<in> set states - set (st # wanted)}" and
      dst: "distinct ?ids \<longrightarrow> distinct ids'"
      by blast
    have "set ids' = set ids \<union> {qbs_batch r |r. r \<in> set ?rows \<and> qbs_state r \<in> set (st # states) - set wanted}"
      using False unfolding i by (auto simp: foldl_add_candidate_set)
    with run w dst False show ?thesis
      by (auto simp: act_simps list_bucket_quiet [OF assms] foldl_add_candidate_distinct)
  qed
qed

lemma hydrate_all_quiet:
  assumes "w_script w = []"
  shows "fold_act hydrate ids acc w =
    (if list_all (\<lambda>i. d_batches (w_db w) i \<noteq> None) ids
     then (Inr (acc @ map (\<lambda>i. the (d_batches (w_db w) i)) ids), w)
     else (Inl (Wrapped ''failed to get batch'' (wrap_not_found (Plain ''sql: no rows in result set''))), w))"
  using assms
  by (induction ids arbitrary: acc) (auto simp: hydrate_def act_simps store_quiet select_row_def split: option.splits)

text \<open>
  What a quiet listing returns: exactly the batches filed somewhere under a wanted state whose own
  state is wanted, each once, whatever bucket it was found in.
\<close>

definition filed :: "db \<Rightarrow> batch_state set \<Rightarrow> string set" where
  "filed d sts = {qbs_batch r |r. r \<in> set (d_batch_states d) \<and> qbs_state r \<in> sts}"

lemma list_by_states_quiet:
  assumes "w_script w = []" and "list_by_states states w = (Inr bs, w')"
  shows "w' = w" and "set bs = {b. \<exists>i\<in>filed (w_db w) (set states). d_batches (w_db w) i = Some b \<and> b_state b \<in> set states}"
proof -
  obtain wanted ids where
    run: "fold_act list_bucket states ([], []) w = (Inr (wanted, ids), w)" and
    wanted: "set wanted = set states" and ids: "set ids = filed (w_db w) (set states)"
    using list_buckets_quiet [OF assms(1), of states "[]" "[]"] by (auto simp: filed_def)
  have all: "\<forall>i\<in>set ids. d_batches (w_db w) i \<noteq> None"
    and bs: "bs = filter (\<lambda>b. b_state b \<in> set wanted) (map (\<lambda>i. the (d_batches (w_db w) i)) ids)"
    and w': "w' = w"
    using assms(2) run
    by (auto simp: list_by_states_def act_simps hydrate_all_quiet [OF assms(1)] list_all_iff split: if_splits)
  show "w' = w" by (rule w')
  show "set bs = {b. \<exists>i\<in>filed (w_db w) (set states). d_batches (w_db w) i = Some b \<and> b_state b \<in> set states}"
    using all unfolding bs wanted set_filter set_map ids [symmetric] by force
qed

end
