(* ===== verification/CoreRequest.thy ===== *)
theory CoreRequest
  imports CoreBatch
begin

text \<open>
  \<open>submitqueue/orchestrator/core/request\<close>: the request-log publications and the idempotent
  termination of a request.
\<close>

section \<open>Request logs\<close>

definition publish_log :: "request_log \<Rightarrow> string \<Rightarrow> string \<Rightarrow> unit op" where
  "publish_log entry partition_key occurrence =
     (let cause = [log_value entry];
          cause = (if occurrence \<noteq> [] then cause @ [occurrence] else cause) in
      map_err (Wrapped ''failed to publish message'')
        (publish_message TopicKeyLog
          \<lparr>mp_tenant = rl_queue entry, mp_id = intent_id (rl_request entry) cause,
           mp_payload = PLog entry, mp_partition = partition_key, mp_metadata = Map.empty\<rparr>))"

definition publish_batch_logs ::
  "string \<Rightarrow> string list \<Rightarrow> request_status \<Rightarrow> string \<Rightarrow> metadata \<Rightarrow> unit op" where
  "publish_batch_logs queue request_ids status occurrence meta =
     for_each (\<lambda>request_id.
       and_then get_now_ms (\<lambda>t.
       map_err (Wrapped ''failed to publish request log'')
         (publish_log (new_request_status_log t queue request_id status 0 [] meta) request_id occurrence)))
       request_ids"

definition publish_batch_events ::
  "string \<Rightarrow> string list \<Rightarrow> request_event \<Rightarrow> string \<Rightarrow> metadata \<Rightarrow> unit op" where
  "publish_batch_events queue request_ids event occurrence meta =
     for_each (\<lambda>request_id.
       and_then get_now_ms (\<lambda>t.
       map_err (Wrapped ''failed to publish request event'')
         (publish_log (new_request_event_log t queue request_id event meta) request_id occurrence)))
       request_ids"

section \<open>Termination\<close>

datatype termination_outcome =
    TerminationOutcomeUnknown | TerminationOutcomeSuccess | TerminationOutcomeAlreadyInTargetState
  | TerminationOutcomeDiverged | TerminationOutcomeNotFound

record termination_result =
  tr_outcome :: termination_outcome
  tr_before :: request_state
  tr_after :: request_state

fun terminal_state_to_status :: "request_state \<Rightarrow> goerr + request_status" where
  "terminal_state_to_status RequestStateLanded = Inr RequestStatusLanded"
| "terminal_state_to_status RequestStateError = Inr RequestStatusError"
| "terminal_state_to_status RequestStateCancelled = Inr RequestStatusCancelled"
| "terminal_state_to_status _ = Inl (Plain ''non-terminal request state'')"

text \<open>The log entry and the result that the success and the idempotent branch share.\<close>

definition terminate_publish ::
  "request \<Rightarrow> string \<Rightarrow> request_status \<Rightarrow> int \<Rightarrow> string \<Rightarrow> metadata \<Rightarrow> termination_result \<Rightarrow> termination_result op" where
  "terminate_publish request request_id status log_version last_error meta result =
     and_then get_now_ms (\<lambda>t.
     and_then (map_err (Wrapped ''failed to publish request log'')
       (publish_log (new_request_status_log t (r_queue request) request_id status log_version last_error meta) request_id []))
       (\<lambda>_. ok result))"

text \<open>What happens to a request that was read, and the operation.\<close>

definition terminate_read ::
  "string \<Rightarrow> request_state \<Rightarrow> request_status \<Rightarrow> string \<Rightarrow> metadata \<Rightarrow> request \<Rightarrow> termination_result op" where
  "terminate_read request_id target status last_error meta request =
     (let before_state = r_state request in
      if r_state request = target then
        terminate_publish request request_id status (r_version request) last_error meta
          \<lparr>tr_outcome = TerminationOutcomeAlreadyInTargetState, tr_before = before_state, tr_after = target\<rparr>
      else if is_request_state_terminal (r_state request) then
        ok \<lparr>tr_outcome = TerminationOutcomeDiverged, tr_before = r_state request, tr_after = r_state request\<rparr>
      else
        let new_version = r_version request + 1; request = request\<lparr>r_state := target\<rparr> in
        and_then (map_err (Wrapped ''failed to update request state'')
          (request_update request (r_version request) new_version)) (\<lambda>_.
        let request = request\<lparr>r_version := new_version\<rparr> in
        terminate_publish request request_id status (r_version request) last_error meta
          \<lparr>tr_outcome = TerminationOutcomeSuccess, tr_before = before_state, tr_after = target\<rparr>))"

definition terminate_request ::
  "string \<Rightarrow> request_state \<Rightarrow> string \<Rightarrow> metadata \<Rightarrow> termination_result op" where
  "terminate_request request_id target last_error meta =
     and_then (of_sum (terminal_state_to_status target)) (\<lambda>status.
     and_then (attempt (request_get request_id)) (\<lambda>r. case r of
       Inl e \<Rightarrow>
         if is_not_found e
         then ok \<lparr>tr_outcome = TerminationOutcomeNotFound, tr_before = RequestStateUnknown, tr_after = RequestStateUnknown\<rparr>
         else fail (Wrapped ''failed to get request'' e)
     | Inr request \<Rightarrow> terminate_read request_id target status last_error meta request))"

lemma terminal_state_to_status_iff:
  "(\<exists>s. terminal_state_to_status st = Inr s) \<longleftrightarrow> is_request_state_terminal st"
  by (cases st) (simp_all add: is_request_state_terminal_def)

lemma terminal_state_to_status_Inr:
  "terminal_state_to_status st = Inr s \<Longrightarrow> is_request_state_terminal st"
  using terminal_state_to_status_iff by blast

end
