(* ===== verification/SpecDecide.thy ===== *)
theory SpecDecide
  imports CoreRequest
begin

text \<open>
  The pure part of the speculate controller
  (\<open>submitqueue/orchestrator/controller/speculate\<close>): the snapshot of a run and its queries
  (\<open>snapshot.go\<close>), the outcome of a head (\<open>outcome.go\<close>, \<open>bypass.go\<close>), the check of a
  Speculator's proposals (\<open>check.go\<close>), and the changes a run makes to a path set in memory
  (\<open>finalize.go\<close>, \<open>dispatch.go\<close>).  A Go function that returns a value and a found flag returns an
  option.  The snapshot's \<open>store\<close> is the world the run is in.  A path set is a value: the code
  copies the struct and shares its slice, but writes the copy back wherever it changed an element.
\<close>

section \<open>The snapshot\<close>

record snapshot =
  sn_batches :: "(string \<times> batch) list"
  sn_in_flight :: "batch list"
  sn_trigger :: string
  sn_speculating :: "batch list"
  sn_path_sets :: "string \<rightharpoonup> path_set"
  sn_dirty :: "string \<Rightarrow> bool"

definition mark_dirty :: "string \<Rightarrow> snapshot \<Rightarrow> snapshot" where
  "mark_dirty i s = s\<lparr>sn_dirty := (sn_dirty s)(i := True)\<rparr>"

definition mark_clean :: "string \<Rightarrow> snapshot \<Rightarrow> snapshot" where
  "mark_clean i s = s\<lparr>sn_dirty := (sn_dirty s)(i := False)\<rparr>"

definition is_dirty :: "snapshot \<Rightarrow> string \<Rightarrow> bool" where
  "is_dirty s i \<longleftrightarrow> sn_dirty s i"

definition is_trigger :: "snapshot \<Rightarrow> string \<Rightarrow> bool" where
  "is_trigger s i \<longleftrightarrow> sn_trigger s = i"

definition batch_at :: "snapshot \<Rightarrow> string \<Rightarrow> batch" where
  "batch_at s i = (case map_of (sn_batches s) i of None \<Rightarrow> zero_batch | Some b \<Rightarrow> b)"

definition state_in :: "snapshot \<Rightarrow> string \<Rightarrow> batch_state" where
  "state_in s i = b_state (batch_at s i)"

definition assumption_broken :: "path \<Rightarrow> snapshot \<Rightarrow> bool" where
  "assumption_broken p s = list_ex (\<lambda>dep.
     let st = state_in s (pd_batch dep) in
     if \<not> batch_state_is_terminal st then False
     else (case pd_assumption dep of
         Succeeds \<Rightarrow> st \<noteq> BatchStateSucceeded
       | Fails \<Rightarrow> st = BatchStateSucceeded
       | AssumptionUnknown \<Rightarrow> False)) (p_deps p)"

section \<open>Outcomes\<close>

datatype outcome = OutcomeWait | OutcomeLand | OutcomeFail | OutcomeCancel

fun terminal_state :: "outcome \<Rightarrow> batch_state option" where
  "terminal_state OutcomeFail = Some BatchStateFailed"
| "terminal_state OutcomeCancel = Some BatchStateCancelled"
| "terminal_state _ = None"

definition all_assumptions_settled :: "path \<Rightarrow> snapshot \<Rightarrow> bool" where
  "all_assumptions_settled p s = list_all (\<lambda>dep.
     let st = state_in s (pd_batch dep) in
     case pd_assumption dep of
       Succeeds \<Rightarrow> st = BatchStateSucceeded
     | Fails \<Rightarrow> st = BatchStateFailed \<or> st = BatchStateCancelled
     | AssumptionUnknown \<Rightarrow> True) (p_deps p)"

definition landable_path :: "path_set \<Rightarrow> snapshot \<Rightarrow> path_entry option" where
  "landable_path ps s = find_first (\<lambda>e.
     e_status e = PathPassed \<and> \<not> assumption_broken (e_path e) s \<and> all_assumptions_settled (e_path e) s)
     (ps_paths ps)"

definition passed_entry :: "path_set \<Rightarrow> path_entry option" where
  "passed_entry ps = find_first (\<lambda>e. e_status e = PathPassed) (ps_paths ps)"

definition live_passed_path :: "path_set \<Rightarrow> snapshot \<Rightarrow> path_entry option" where
  "live_passed_path ps s =
     find_first (\<lambda>e. e_status e = PathPassed \<and> \<not> assumption_broken (e_path e) s) (ps_paths ps)"

text \<open>The loop over the paths of \<open>hasNoViableFuture\<close>, \<open>live\<close> counting the unbroken ones.\<close>

fun live_all_failed :: "path_entry list \<Rightarrow> snapshot \<Rightarrow> nat \<Rightarrow> bool" where
  "live_all_failed [] s live = (live > 0)"
| "live_all_failed (e # es) s live =
     (if assumption_broken (e_path e) s then live_all_failed es s live
      else if e_status e \<noteq> PathFailed then False
      else live_all_failed es s (live + 1))"

definition has_no_viable_future :: "batch \<Rightarrow> path_set \<Rightarrow> snapshot \<Rightarrow> bool" where
  "has_no_viable_future head ps s =
     (if list_ex (\<lambda>d. \<not> batch_state_is_terminal (state_in s d)) (b_deps head) then False
      else live_all_failed (ps_paths ps) s 0)"

section \<open>Well-formed paths\<close>

fun deps_match :: "path_dependency list \<Rightarrow> string list \<Rightarrow> bool" where
  "deps_match [] [] = True"
| "deps_match (d # ds) (i # is) =
     (if pd_batch d \<noteq> i then False
      else (case pd_assumption d of Succeeds \<Rightarrow> deps_match ds is | Fails \<Rightarrow> deps_match ds is
            | AssumptionUnknown \<Rightarrow> False))"
| "deps_match _ _ = False"

definition is_well_formed :: "path \<Rightarrow> batch \<Rightarrow> bool" where
  "is_well_formed p head =
     (if p_head p \<noteq> b_id head then False
      else if length (p_deps p) \<noteq> length (b_deps head) then False
      else deps_match (p_deps p) (b_deps head))"

definition find_path :: "path_set \<Rightarrow> string \<Rightarrow> path_entry option" where
  "find_path ps pid = find_first (\<lambda>e. e_id e = pid) (ps_paths ps)"

section \<open>Landing past unsettled dependencies\<close>

definition unsettled_dependency_indices :: "batch \<Rightarrow> snapshot \<Rightarrow> nat list" where
  "unsettled_dependency_indices head s =
     filter (\<lambda>i. \<not> batch_state_is_terminal (state_in s (b_deps head ! i))) [0..<length (b_deps head)]"

fun required_combinations :: "nat list \<Rightarrow> nat \<Rightarrow> nat \<Rightarrow> nat option" where
  "required_combinations [] n required = Some required"
| "required_combinations (i # is) n required =
     (if required > n div 2 then None else required_combinations is n (required * 2))"

definition signature_of :: "path \<Rightarrow> nat list \<Rightarrow> string" where
  "signature_of p unsettled =
     map (\<lambda>i. if pd_assumption (p_deps p ! i) = Fails then CHR ''f'' else CHR ''s'') unsettled"

fun bypass_scan ::
  "batch \<Rightarrow> snapshot \<Rightarrow> nat list \<Rightarrow> path_entry list \<Rightarrow> string list \<Rightarrow> path_entry \<Rightarrow> string list \<times> path_entry" where
  "bypass_scan head s unsettled [] seen winner = (seen, winner)"
| "bypass_scan head s unsettled (e # es) seen winner =
     (if e_status e \<noteq> PathPassed \<or> assumption_broken (e_path e) s \<or> \<not> is_well_formed (e_path e) head
      then bypass_scan head s unsettled es seen winner
      else let key = signature_of (e_path e) unsettled in
        if key \<in> set seen then bypass_scan head s unsettled es seen winner
        else bypass_scan head s unsettled es (key # seen) (if length (key # seen) = 1 then e else winner))"

definition bypassable_path :: "batch \<Rightarrow> path_set \<Rightarrow> snapshot \<Rightarrow> path_entry option" where
  "bypassable_path head ps s =
     (let unsettled = unsettled_dependency_indices head s in
      if unsettled = [] then None
      else case required_combinations unsettled (length (ps_paths ps)) 1 of
        None \<Rightarrow> None
      | Some required \<Rightarrow>
          (case bypass_scan head s unsettled (ps_paths ps) [] zero_entry of
            (seen, winner) \<Rightarrow> if length seen = required then Some winner else None))"

definition decide :: "batch \<Rightarrow> path_set \<Rightarrow> snapshot \<Rightarrow> outcome" where
  "decide head ps s =
     (if landable_path ps s \<noteq> None then OutcomeLand
      else if bypassable_path head ps s \<noteq> None then OutcomeLand
      else if has_no_viable_future head ps s then OutcomeFail
      else OutcomeWait)"

section \<open>The check of proposals\<close>

datatype rejection =
    RejectUnknownAction | RejectUnknownHead | RejectHeadNotSpeculating | RejectMalformedPath
  | RejectBrokenAssumption | RejectPathTerminal | RejectCancelNotInFlight | RejectCancelPassed

definition path_set_at :: "snapshot \<Rightarrow> string \<Rightarrow> path_set" where
  "path_set_at s i = (case sn_path_sets s i of None \<Rightarrow> zero_set | Some ps \<Rightarrow> ps)"

definition rejection_reason :: "(string \<Rightarrow> string) \<Rightarrow> speculation \<Rightarrow> snapshot \<Rightarrow> rejection option" where
  "rejection_reason sha proposal s =
     (if sp_action proposal \<noteq> PathActionBuild \<and> sp_action proposal \<noteq> PathActionCancel then Some RejectUnknownAction
      else case map_of (sn_batches s) (p_head (sp_path proposal)) of
        None \<Rightarrow> Some RejectUnknownHead
      | Some head \<Rightarrow>
          if b_state head \<noteq> BatchStateSpeculating then Some RejectHeadNotSpeculating
          else if \<not> is_well_formed (sp_path proposal) head then Some RejectMalformedPath
          else if assumption_broken (sp_path proposal) s then Some RejectBrokenAssumption
          else
            let stored = find_path (path_set_at s (b_id head)) (path_id sha (sp_path proposal)) in
            if sp_action proposal = PathActionCancel then
              (case stored of
                 None \<Rightarrow> Some RejectCancelNotInFlight
               | Some e \<Rightarrow>
                   if e_status e = PathPassed then Some RejectCancelPassed
                   else if path_status_is_terminal (e_status e) then Some RejectCancelNotInFlight
                   else None)
            else
              (case stored of
                 None \<Rightarrow> None
               | Some e \<Rightarrow> if path_status_is_terminal (e_status e) then Some RejectPathTerminal else None))"

fun filter_proposals ::
  "(string \<Rightarrow> string) \<Rightarrow> speculation list \<Rightarrow> snapshot \<Rightarrow> speculation list \<times> rejection list" where
  "filter_proposals sha [] s = ([], [])"
| "filter_proposals sha (p # props) s = (case filter_proposals sha props s of (kept, rejected) \<Rightarrow>
     (case rejection_reason sha p s of
        Some reason \<Rightarrow> (kept, reason # rejected)
      | None \<Rightarrow> (p # kept, rejected)))"

section \<open>Changes to a path set in memory\<close>

definition stoppable :: "(path_entry \<Rightarrow> bool) \<Rightarrow> path_entry \<Rightarrow> bool" where
  "stoppable keep e \<longleftrightarrow>
     \<not> (path_status_is_terminal (e_status e) \<or> e_status e = PathCancelling) \<and> \<not> keep e"

definition mark_cancelling :: "path_set \<Rightarrow> int \<Rightarrow> (path_entry \<Rightarrow> bool) \<Rightarrow> path_set \<times> bool" where
  "mark_cancelling ps now keep =
     (ps\<lparr>ps_paths := map (\<lambda>e. if stoppable keep e then e\<lparr>e_status := PathCancelling, e_updated_at := now\<rparr> else e)
        (ps_paths ps)\<rparr>,
      list_ex (stoppable keep) (ps_paths ps))"

definition cancel_broken_paths_in_set :: "path_set \<Rightarrow> snapshot \<Rightarrow> int \<Rightarrow> path_set \<times> bool" where
  "cancel_broken_paths_in_set ps s now = mark_cancelling ps now (\<lambda>e. \<not> assumption_broken (e_path e) s)"

definition supersede :: "path_set \<Rightarrow> string \<Rightarrow> int \<Rightarrow> path_set \<times> bool" where
  "supersede ps winner_id now = mark_cancelling ps now (\<lambda>e. e_id e = winner_id)"

definition cancel_all_paths :: "path_set \<Rightarrow> int \<Rightarrow> path_set \<times> bool" where
  "cancel_all_paths ps now = mark_cancelling ps now (\<lambda>_. False)"

definition all_paths_stopped :: "path_set \<Rightarrow> bool" where
  "all_paths_stopped ps = list_all (\<lambda>e. path_status_is_terminal (e_status e)) (ps_paths ps)"

text \<open>
  \<open>applyProposal\<close>: \<open>fold_proposal\<close> is its loop over the entries, \<open>None\<close> when no entry has the
  path's ID.
\<close>

fun fold_proposal :: "string \<Rightarrow> path_action \<Rightarrow> int \<Rightarrow> path_entry list \<Rightarrow> (path_entry list \<times> bool) option" where
  "fold_proposal pid action now [] = None"
| "fold_proposal pid action now (e # es) =
     (if e_id e \<noteq> pid then map_option (\<lambda>(es', changed). (e # es', changed)) (fold_proposal pid action now es)
      else case action of
        PathActionCancel \<Rightarrow>
          if e_status e = PathCancelling then Some (e # es, False)
          else Some (e\<lparr>e_status := PathCancelling, e_updated_at := now\<rparr> # es, True)
      | PathActionBuild \<Rightarrow>
          if \<not> path_status_is_terminal (e_status e) then Some (e # es, False)
          else Some (e\<lparr>e_status := PathPending, e_attempt := e_attempt e + 1, e_updated_at := now\<rparr> # es, True)
      | PathActionUnknown \<Rightarrow> Some (e # es, False))"

definition new_entry :: "(string \<Rightarrow> string) \<Rightarrow> path \<Rightarrow> int \<Rightarrow> path_entry" where
  "new_entry sha p now = \<lparr>e_id = path_id sha p, e_path = p, e_status = PathPending, e_attempt = 1,
     e_version = 1, e_created_at = now, e_updated_at = now\<rparr>"

definition apply_proposal :: "(string \<Rightarrow> string) \<Rightarrow> path_set \<Rightarrow> speculation \<Rightarrow> int \<Rightarrow> path_set \<times> bool" where
  "apply_proposal sha ps proposal now =
     (case fold_proposal (path_id sha (sp_path proposal)) (sp_action proposal) now (ps_paths ps) of
        Some (es, changed) \<Rightarrow> (ps\<lparr>ps_paths := es\<rparr>, changed)
      | None \<Rightarrow>
          if sp_action proposal \<noteq> PathActionBuild then (ps, False)
          else (ps\<lparr>ps_paths := ps_paths ps @ [new_entry sha (sp_path proposal) now]\<rparr>, True))"

definition has_actionable_paths :: "path_set \<Rightarrow> bool" where
  "has_actionable_paths ps = list_ex (\<lambda>e. e_status e = PathPending) (ps_paths ps)"

fun terminal_path_status :: "build_status \<Rightarrow> path_status" where
  "terminal_path_status BuildSucceeded = PathPassed"
| "terminal_path_status BuildFailed = PathFailed"
| "terminal_path_status BuildCancelled = PathCancelled"
| "terminal_path_status _ = PathUnknown"

end
