(* ===== verification/SpecFacts.thy ===== *)
theory SpecFacts
  imports SpecDecide
begin

text \<open>
  Facts about the decisions of \<open>SpecDecide\<close>.  A resolution \<open>\<rho>\<close> says of every dependency whether
  it ends by succeeding; it agrees with a snapshot when it says so of the dependencies that have
  finished.  A path matches a resolution when every assumption it makes comes true in it.
\<close>

section \<open>Paths against resolutions\<close>

definition agrees :: "(string \<Rightarrow> bool) \<Rightarrow> batch \<Rightarrow> snapshot \<Rightarrow> bool" where
  "agrees \<rho> head s \<longleftrightarrow> (\<forall>d\<in>set (b_deps head). batch_state_is_terminal (state_in s d) \<longrightarrow>
     \<rho> d = (state_in s d = BatchStateSucceeded))"

definition matches :: "(string \<Rightarrow> bool) \<Rightarrow> path \<Rightarrow> bool" where
  "matches \<rho> p \<longleftrightarrow> (\<forall>d\<in>set (p_deps p). pd_assumption d = (if \<rho> (pd_batch d) then Succeeds else Fails))"

definition well_formed_set :: "(string \<Rightarrow> string) \<Rightarrow> batch \<Rightarrow> path_set \<Rightarrow> bool" where
  "well_formed_set sha head ps \<longleftrightarrow>
     (\<forall>e\<in>set (ps_paths ps). is_well_formed (e_path e) head \<and> e_id e = path_id sha (e_path e))"

lemma deps_match_iff:
  "deps_match ds is \<longleftrightarrow> map pd_batch ds = is \<and> (\<forall>d\<in>set ds. pd_assumption d \<noteq> AssumptionUnknown)"
  by (induction ds "is" rule: deps_match.induct) (auto split: assumption.splits)

lemma is_well_formed_iff:
  "is_well_formed p head \<longleftrightarrow> p_head p = b_id head \<and> map pd_batch (p_deps p) = b_deps head \<and>
     (\<forall>d\<in>set (p_deps p). pd_assumption d \<noteq> AssumptionUnknown)"
  unfolding is_well_formed_def deps_match_iff by (auto dest: map_eq_imp_length_eq) (metis length_map)

lemma assumption_cases [consumes 2]:
  assumes "is_well_formed p head" and "d \<in> set (p_deps p)"
  obtains "pd_assumption d = Succeeds" | "pd_assumption d = Fails"
  using assms by (cases "pd_assumption d") (auto simp: is_well_formed_iff)

lemma matches_base:
  assumes "is_well_formed p head" and "matches \<rho> p"
  shows "path_base p = filter \<rho> (b_deps head)"
proof -
  have "filter (\<lambda>d. pd_assumption d = Succeeds) (p_deps p) = filter (\<lambda>d. \<rho> (pd_batch d)) (p_deps p)"
    using assms(2) by (auto simp: matches_def split: if_splits intro!: filter_cong)
  moreover have "map pd_batch (filter (\<lambda>d. \<rho> (pd_batch d)) (p_deps p)) = filter \<rho> (map pd_batch (p_deps p))"
    by (simp add: filter_map comp_def)
  ultimately show ?thesis using assms(1) by (simp add: path_base_def is_well_formed_iff)
qed

text \<open>The path of a head that matches a resolution is unique.\<close>

lemma matches_unique:
  assumes "is_well_formed p head" and "is_well_formed q head" and "matches \<rho> p" and "matches \<rho> q"
  shows "p = (q :: path)"
proof -
  have same: "map pd_batch (p_deps p) = map pd_batch (p_deps q)"
    using assms(1,2) by (simp add: is_well_formed_iff)
  have "p_deps p = p_deps q"
  proof (rule nth_equalityI)
    show "length (p_deps p) = length (p_deps q)" using same by (metis length_map)
    fix i assume i: "i < length (p_deps p)"
    then have i': "i < length (p_deps q)" using same by (metis length_map)
    have b: "pd_batch (p_deps p ! i) = pd_batch (p_deps q ! i)"
      using same i i' by (metis nth_map)
    have "pd_assumption (p_deps p ! i) = pd_assumption (p_deps q ! i)"
      using assms(3,4) nth_mem [OF i] nth_mem [OF i'] b by (simp add: matches_def)
    with b show "p_deps p ! i = p_deps q ! i" by simp
  qed
  moreover have "p_head p = p_head q" using assms(1,2) by (simp add: is_well_formed_iff)
  ultimately show ?thesis by simp
qed

text \<open>A well-formed path is broken exactly when a finished dependency contradicts it.\<close>

lemma assumption_broken_iff:
  assumes "is_well_formed p head"
  shows "assumption_broken p s \<longleftrightarrow> (\<exists>d\<in>set (p_deps p). batch_state_is_terminal (state_in s (pd_batch d)) \<and>
    (pd_assumption d = Succeeds) \<noteq> (state_in s (pd_batch d) = BatchStateSucceeded))"
  using assms unfolding assumption_broken_def list_ex_iff
  by (intro bex_cong) (auto simp: is_well_formed_iff Let_def split: assumption.splits)

lemma matches_unbroken:
  assumes "is_well_formed p head" and "agrees \<rho> head s" and "matches \<rho> p"
  shows "\<not> assumption_broken p s"
proof -
  have "set (b_deps head) = pd_batch ` set (p_deps p)"
    using assms(1) by (metis is_well_formed_iff set_map)
  with assms show ?thesis by (auto simp: assumption_broken_iff agrees_def matches_def)
qed

lemma unbroken_matches:
  assumes "is_well_formed p head" and "agrees \<rho> head s" and "\<not> assumption_broken p s"
    and "\<forall>d\<in>set (b_deps head). batch_state_is_terminal (state_in s d)"
  shows "matches \<rho> p"
  unfolding matches_def
proof
  fix d assume d: "d \<in> set (p_deps p)"
  with assms(1) have dep: "pd_batch d \<in> set (b_deps head)"
    by (metis imageI is_well_formed_iff set_map)
  with assms(3,4) d have "(pd_assumption d = Succeeds) = (state_in s (pd_batch d) = BatchStateSucceeded)"
    using assumption_broken_iff [OF assms(1)] by auto
  moreover have "\<rho> (pd_batch d) = (state_in s (pd_batch d) = BatchStateSucceeded)"
    using assms(2,4) dep by (simp add: agrees_def)
  ultimately show "pd_assumption d = (if \<rho> (pd_batch d) then Succeeds else Fails)"
    by - (rule assumption_cases [OF assms(1) d], auto)
qed

lemma settled_terminal:
  assumes "is_well_formed p head" and "all_assumptions_settled p s"
  shows "\<forall>d\<in>set (b_deps head). batch_state_is_terminal (state_in s d)"
proof
  fix i assume "i \<in> set (b_deps head)"
  with assms(1) obtain d where d: "d \<in> set (p_deps p)" "i = pd_batch d"
    by (metis (no_types, lifting) imageE is_well_formed_iff set_map)
  with assms show "batch_state_is_terminal (state_in s i)"
    by (cases rule: assumption_cases [OF assms(1) d(1)])
      (force simp: all_assumptions_settled_def list_all_iff Let_def)+
qed

lemma landable_path_Some:
  assumes "landable_path ps s = Some e"
  shows "e \<in> set (ps_paths ps)" and "e_status e = PathPassed"
    and "\<not> assumption_broken (e_path e) s" and "all_assumptions_settled (e_path e) s"
  using assms unfolding landable_path_def by (auto dest: find_first_Some)

section \<open>The count of combinations\<close>

lemma required_combinations_Some:
  "required_combinations us n r = Some q \<Longrightarrow> q = r * 2 ^ length us"
  by (induction us n r rule: required_combinations.induct) (auto split: if_splits)

definition signatures :: "nat \<Rightarrow> string set" where
  "signatures k = {xs. set xs \<subseteq> {CHR ''f'', CHR ''s''} \<and> length xs = k}"

lemma card_signatures: "finite (signatures k) \<and> card (signatures k) = 2 ^ k"
proof -
  have "card {CHR ''f'', CHR ''s''} = 2" by (simp add: numeral_2_eq_2)
  then show ?thesis unfolding signatures_def
    using card_lists_length_eq [of "{CHR ''f'', CHR ''s''}" k] finite_lists_length_eq [of "{CHR ''f'', CHR ''s''}" k]
    by (simp only: finite.intros simp_thms)
qed

lemma signature_in: "signature_of p us \<in> signatures (length us)"
  by (auto simp: signature_of_def signatures_def)

definition covers :: "batch \<Rightarrow> snapshot \<Rightarrow> path_entry \<Rightarrow> bool" where
  "covers head s e \<longleftrightarrow> e_status e = PathPassed \<and> \<not> assumption_broken (e_path e) s \<and> is_well_formed (e_path e) head"

text \<open>What the scan collects: one key for each combination some covering entry stands for.\<close>

lemma bypass_scan_seen:
  assumes "bypass_scan head s us es seen w = (seen', w')"
  shows "set seen' = set seen \<union> {signature_of (e_path e) us |e. e \<in> set es \<and> covers head s e} \<and>
    (distinct seen \<longrightarrow> distinct seen')"
  using assms
proof (induction es arbitrary: seen w)
  case Nil
  then show ?case by simp
next
  case (Cons e es)
  show ?case
  proof (cases "covers head s e \<and> signature_of (e_path e) us \<notin> set seen")
    case True
    with Cons.prems have "bypass_scan head s us es (signature_of (e_path e) us # seen)
        (if length (signature_of (e_path e) us # seen) = 1 then e else w) = (seen', w')"
      by (simp add: covers_def Let_def)
    from Cons.IH [OF this] True show ?thesis by auto
  next
    case False
    with Cons.prems have "bypass_scan head s us es seen w = (seen', w')"
      by (auto simp: covers_def Let_def split: if_splits)
    from Cons.IH [OF this] False show ?thesis by auto
  qed
qed

lemma bypass_scan_winner:
  assumes "bypass_scan head s us es seen w = (seen', w')"
  shows "(seen \<noteq> [] \<longrightarrow> w' = w) \<and> (seen = [] \<longrightarrow> seen' = [] \<or> w' \<in> set es \<and> covers head s w')"
  using assms
proof (induction es arbitrary: seen w)
  case Nil
  then show ?case by simp
next
  case (Cons e es)
  show ?case
  proof (cases "covers head s e \<and> signature_of (e_path e) us \<notin> set seen")
    case True
    with Cons.prems have "bypass_scan head s us es (signature_of (e_path e) us # seen)
        (if length (signature_of (e_path e) us # seen) = 1 then e else w) = (seen', w')"
      by (simp add: covers_def Let_def)
    from Cons.IH [OF this] True show ?thesis by (auto split: if_splits)
  next
    case False
    with Cons.prems have "bypass_scan head s us es seen w = (seen', w')"
      by (auto simp: covers_def Let_def split: if_splits)
    from Cons.IH [OF this] False show ?thesis by auto
  qed
qed

lemma bypassable_path_Some:
  assumes "bypassable_path head ps s = Some w"
  shows "unsettled_dependency_indices head s \<noteq> []"
    and "w \<in> set (ps_paths ps)" and "covers head s w"
    and "{signature_of (e_path e) (unsettled_dependency_indices head s) |e. e \<in> set (ps_paths ps) \<and> covers head s e} =
      signatures (length (unsettled_dependency_indices head s))"
proof -
  let ?us = "unsettled_dependency_indices head s"
  from assms obtain q seen where us: "?us \<noteq> []"
    and q: "required_combinations ?us (length (ps_paths ps)) 1 = Some q"
    and scan: "bypass_scan head s ?us (ps_paths ps) [] zero_entry = (seen, w)" and len: "length seen = q"
    by (auto simp: bypassable_path_def Let_def split: if_splits option.splits prod.splits)
  have q': "q = 2 ^ length ?us" using required_combinations_Some [OF q] by simp
  let ?sigs = "{signature_of (e_path e) ?us |e. e \<in> set (ps_paths ps) \<and> covers head s e}"
  have seen: "set seen = ?sigs" "distinct seen" using bypass_scan_seen [OF scan] by auto
  have sub: "?sigs \<subseteq> signatures (length ?us)" using signature_in by auto
  have "card ?sigs = card (signatures (length ?us))"
    using seen len q' card_signatures distinct_card [OF seen(2)] by simp
  with sub card_signatures show "?sigs = signatures (length ?us)" by (intro card_subset_eq) auto
  have "seen \<noteq> []" using len q' by auto
  with bypass_scan_winner [OF scan] show "w \<in> set (ps_paths ps)" "covers head s w" by auto
  show "?us \<noteq> []" by (rule us)
qed

lemma covering_entry:
  assumes "bypassable_path head ps s = Some w" and "agrees \<rho> head s"
  shows "\<exists>e\<in>set (ps_paths ps). covers head s e \<and> matches \<rho> (e_path e)"
proof -
  let ?us = "unsettled_dependency_indices head s"
  let ?sig = "map (\<lambda>i. if \<rho> (b_deps head ! i) then CHR ''s'' else CHR ''f'') ?us"
  have "?sig \<in> signatures (length ?us)" by (auto simp: signatures_def)
  with bypassable_path_Some(4) [OF assms(1)] obtain e where
    e: "e \<in> set (ps_paths ps)" "covers head s e" and sig: "signature_of (e_path e) ?us = ?sig"
    by (auto dest!: equalityD2 subsetD)
  let ?p = "e_path e"
  have wf: "is_well_formed ?p head" and unbroken: "\<not> assumption_broken ?p s" using e(2) by (auto simp: covers_def)
  have "matches \<rho> ?p" unfolding matches_def
  proof
    fix d assume "d \<in> set (p_deps ?p)"
    then obtain i where i: "i < length (p_deps ?p)" and d: "d = p_deps ?p ! i" by (metis in_set_conv_nth)
    have deps: "map pd_batch (p_deps ?p) = b_deps head" using wf by (simp add: is_well_formed_iff)
    have i': "i < length (b_deps head)" using i unfolding deps [symmetric] by simp
    have "pd_batch d = b_deps head ! i" using i d unfolding deps [symmetric] by simp
    show "pd_assumption d = (if \<rho> (pd_batch d) then Succeeds else Fails)"
    proof (cases "batch_state_is_terminal (state_in s (pd_batch d))")
      case True
      then have "(pd_assumption d = Succeeds) = (state_in s (pd_batch d) = BatchStateSucceeded)"
        using unbroken i d assumption_broken_iff [OF wf, of s] by (metis nth_mem)
      moreover have "\<rho> (pd_batch d) = (state_in s (pd_batch d) = BatchStateSucceeded)"
        using True assms(2) i' \<open>pd_batch d = b_deps head ! i\<close> by (simp add: agrees_def)
      ultimately show ?thesis using wf i d by (cases "pd_assumption d") (auto simp: is_well_formed_iff)
    next
      case False
      then have "i \<in> set ?us"
        using i' \<open>pd_batch d = b_deps head ! i\<close> by (simp add: unsettled_dependency_indices_def)
      with sig have "(if pd_assumption d = Fails then CHR ''f'' else CHR ''s'') =
          (if \<rho> (pd_batch d) then CHR ''s'' else CHR ''f'')"
        unfolding signature_of_def d [symmetric] \<open>pd_batch d = b_deps head ! i\<close>
        by (simp add: d)
      then show ?thesis using wf i d by (cases "pd_assumption d") (auto simp: is_well_formed_iff split: if_splits)
    qed
  qed
  with e show ?thesis by blast
qed

section \<open>Outcomes\<close>

lemma live_all_failed_iff:
  "live_all_failed es s n \<longleftrightarrow>
     (\<forall>e\<in>set es. \<not> assumption_broken (e_path e) s \<longrightarrow> e_status e = PathFailed) \<and>
     (n > 0 \<or> (\<exists>e\<in>set es. \<not> assumption_broken (e_path e) s))"
  by (induction es s n rule: live_all_failed.induct) auto

lemma has_no_viable_future_iff:
  "has_no_viable_future head ps s \<longleftrightarrow>
     (\<forall>d\<in>set (b_deps head). batch_state_is_terminal (state_in s d)) \<and>
     (\<forall>e\<in>set (ps_paths ps). \<not> assumption_broken (e_path e) s \<longrightarrow> e_status e = PathFailed) \<and>
     (\<exists>e\<in>set (ps_paths ps). \<not> assumption_broken (e_path e) s)"
  by (auto simp: has_no_viable_future_def live_all_failed_iff list_ex_iff)

lemma decide_land_cases:
  assumes "decide head ps s = OutcomeLand"
  obtains (landable) e where "landable_path ps s = Some e"
    | (bypass) e where "bypassable_path head ps s = Some e"
  using assms by (auto simp: decide_def split: if_splits)

lemma decide_fail_viable:
  "decide head ps s = OutcomeFail \<Longrightarrow> has_no_viable_future head ps s"
  by (auto simp: decide_def split: if_splits)

lemma decide_never_cancels: "decide head ps s \<noteq> OutcomeCancel"
  by (simp add: decide_def)

text \<open>The resolution a snapshot with only finished dependencies describes.\<close>

definition settled_resolution :: "snapshot \<Rightarrow> string \<Rightarrow> bool" where
  "settled_resolution s d \<longleftrightarrow> state_in s d = BatchStateSucceeded"

lemma settled_resolution_agrees: "agrees (settled_resolution s) head s"
  by (simp add: agrees_def settled_resolution_def)

lemma land_matching_entry:
  assumes "well_formed_set sha head ps" and "decide head ps s = OutcomeLand" and "agrees \<rho> head s"
  shows "\<exists>e\<in>set (ps_paths ps). e_status e = PathPassed \<and> is_well_formed (e_path e) head \<and> matches \<rho> (e_path e)"
  using assms(2)
proof (cases rule: decide_land_cases)
  case (landable e)
  note e = landable_path_Some [OF landable]
  with assms(1) have wf: "is_well_formed (e_path e) head" by (simp add: well_formed_set_def)
  have "matches \<rho> (e_path e)"
    by (rule unbroken_matches [OF wf assms(3) e(3) settled_terminal [OF wf e(4)]])
  with e wf show ?thesis by blast
next
  case (bypass e)
  from covering_entry [OF this assms(3)] show ?thesis by (auto simp: covers_def)
qed

lemma unbroken_entry_unique:
  assumes "well_formed_set sha head ps" and "\<forall>d\<in>set (b_deps head). batch_state_is_terminal (state_in s d)"
    and "e \<in> set (ps_paths ps)" and "\<not> assumption_broken (e_path e) s"
    and "is_well_formed p head" and "\<not> assumption_broken p s"
  shows "e_path e = p"
  using assms unbroken_matches [OF _ settled_resolution_agrees]
  by (intro matches_unique [of _ head _ "settled_resolution s"]) (auto simp: well_formed_set_def)

lemma unbroken_entry_only:
  assumes "well_formed_set sha head ps" and "distinct (map e_id (ps_paths ps))"
    and "\<forall>d\<in>set (b_deps head). batch_state_is_terminal (state_in s d)"
    and "e \<in> set (ps_paths ps)" and "\<not> assumption_broken (e_path e) s"
    and "e' \<in> set (ps_paths ps)" and "\<not> assumption_broken (e_path e') s"
  shows "e' = e"
proof -
  have wf: "is_well_formed (e_path e) head" using assms(1,4) by (simp add: well_formed_set_def)
  have "e_path e' = e_path e" by (rule unbroken_entry_unique [OF assms(1,3,6,7) wf assms(5)])
  then have "e_id e' = e_id e" using assms(1,4,6) unfolding well_formed_set_def by metis
  then show ?thesis using assms(2,4,6) by (metis distinct_map inj_onD)
qed

section \<open>Proposals\<close>

lemma find_path_Some:
  "find_path ps i = Some e \<Longrightarrow> e \<in> set (ps_paths ps) \<and> e_id e = i"
  by (auto simp: find_path_def dest: find_first_Some)

lemma find_path_exists:
  "e \<in> set (ps_paths ps) \<Longrightarrow> e_id e = i \<Longrightarrow> \<exists>e'. find_path ps i = Some e'"
  unfolding find_path_def using find_first_None_iff [of "\<lambda>e. e_id e = i" "ps_paths ps"]
  by (cases "find_first (\<lambda>e. e_id e = i) (ps_paths ps)") auto

lemma find_path_unique:
  assumes "distinct (map e_id (ps_paths ps))" and "e \<in> set (ps_paths ps)"
  shows "find_path ps (e_id e) = Some e"
proof -
  obtain e' where e': "find_path ps (e_id e) = Some e'" using find_path_exists [OF assms(2) refl] by blast
  with assms find_path_Some [OF e'] show ?thesis by (auto simp: distinct_map dest: inj_onD)
qed

lemma filter_proposals_eq:
  "filter_proposals sha props s =
     (filter (\<lambda>p. rejection_reason sha p s = None) props,
      List.map_filter (\<lambda>p. rejection_reason sha p s) props)"
  by (induction props) (auto simp: List.map_filter_simps split: option.split)

text \<open>What an accepted proposal is.\<close>

lemma accepted_proposal:
  assumes "rejection_reason sha p s = None"
  obtains head where "map_of (sn_batches s) (p_head (sp_path p)) = Some head"
    and "b_state head = BatchStateSpeculating" and "is_well_formed (sp_path p) head"
    and "\<not> assumption_broken (sp_path p) s"
    and "sp_action p = PathActionBuild \<and> (\<forall>e. find_path (path_set_at s (b_id head)) (path_id sha (sp_path p)) = Some e \<longrightarrow>
           \<not> path_status_is_terminal (e_status e)) \<or>
         sp_action p = PathActionCancel \<and> (\<exists>e. find_path (path_set_at s (b_id head)) (path_id sha (sp_path p)) = Some e \<and>
           \<not> path_status_is_terminal (e_status e))"
  using assms
  by (cases "sp_action p"; cases "map_of (sn_batches s) (p_head (sp_path p))")
    (auto simp: rejection_reason_def Let_def split: if_splits option.splits)

text \<open>A path whose stored entry is terminal accepts no proposal any more.\<close>

lemma terminal_entry_rejects:
  assumes "map_of (sn_batches s) (p_head (sp_path p)) = Some head"
    and "find_path (path_set_at s (b_id head)) (path_id sha (sp_path p)) = Some e"
    and "path_status_is_terminal (e_status e)"
  shows "rejection_reason sha p s \<noteq> None"
proof
  assume "rejection_reason sha p s = None"
  then show False by (rule accepted_proposal) (use assms in auto)
qed

section \<open>Changes to a set\<close>

lemma mark_cancelling_paths:
  "map e_path (ps_paths (fst (mark_cancelling ps now keep))) = map e_path (ps_paths ps)"
  "map e_id (ps_paths (fst (mark_cancelling ps now keep))) = map e_id (ps_paths ps)"
  "map e_attempt (ps_paths (fst (mark_cancelling ps now keep))) = map e_attempt (ps_paths ps)"
  by (auto simp: mark_cancelling_def)

lemma mark_cancelling_unchanged:
  "\<not> snd (mark_cancelling ps now keep) \<Longrightarrow> fst (mark_cancelling ps now keep) = ps"
  by (auto simp: mark_cancelling_def list_ex_iff intro!: path_set.equality map_idI)

lemma mark_cancelling_terminal:
  "filter (\<lambda>e. path_status_is_terminal (e_status e)) (ps_paths (fst (mark_cancelling ps now keep))) =
   filter (\<lambda>e. path_status_is_terminal (e_status e)) (ps_paths ps)"
proof -
  have "filter (\<lambda>e. path_status_is_terminal (e_status e))
      (map (\<lambda>e. if stoppable keep e then e\<lparr>e_status := PathCancelling, e_updated_at := now\<rparr> else e) es) =
    filter (\<lambda>e. path_status_is_terminal (e_status e)) es" for es
    by (induction es) (auto simp: stoppable_def)
  then show ?thesis by (simp add: mark_cancelling_def)
qed

lemma mark_cancelling_again:
  "mark_cancelling (fst (mark_cancelling ps now keep)) now' (\<lambda>e. keep e) =
     (fst (mark_cancelling ps now keep), False)" if "\<And>e st t. keep (e\<lparr>e_status := st, e_updated_at := t\<rparr>) = keep e"
  by (auto simp: mark_cancelling_def stoppable_def list_ex_iff that intro!: path_set.equality)

lemma well_formed_set_same_paths:
  assumes "map e_path (ps_paths ps') = map e_path (ps_paths ps)" and "map e_id (ps_paths ps') = map e_id (ps_paths ps)"
    and "well_formed_set sha head ps"
  shows "well_formed_set sha head ps'"
proof -
  have "list_all (\<lambda>(p, i). is_well_formed p head \<and> i = path_id sha p)
      (zip (map e_path (ps_paths ps)) (map e_id (ps_paths ps)))"
    using assms(3) by (auto simp: well_formed_set_def list_all_iff zip_map_map zip_same_conv_map)
  then show ?thesis unfolding assms(1,2) [symmetric]
    by (auto simp: well_formed_set_def list_all_iff zip_map_map zip_same_conv_map)
qed

lemma mark_cancelling_well_formed:
  "well_formed_set sha head ps \<Longrightarrow> well_formed_set sha head (fst (mark_cancelling ps now keep))"
  using well_formed_set_same_paths [OF mark_cancelling_paths(1,2)] .

text \<open>\<open>fold_proposal\<close> touches the one entry \<open>find_path\<close> finds.\<close>

lemma fold_proposal_None_iff:
  "fold_proposal pid a now es = None \<longleftrightarrow> (\<forall>e\<in>set es. e_id e \<noteq> pid)"
  by (induction es) (auto split: path_action.splits if_splits)

lemma fold_proposal_keeps:
  "fold_proposal pid a now es = Some (es', c) \<Longrightarrow> map e_path es' = map e_path es \<and> map e_id es' = map e_id es"
  by (induction es arbitrary: es') (auto split: path_action.splits if_splits)

lemma apply_proposal_ids:
  "distinct (map e_id (ps_paths ps)) \<Longrightarrow> distinct (map e_id (ps_paths (fst (apply_proposal sha ps p now))))"
  by (auto simp: apply_proposal_def fold_proposal_None_iff new_entry_def dest: fold_proposal_keeps
      split: option.splits prod.splits)

lemma apply_proposal_well_formed:
  assumes "well_formed_set sha head ps" and "is_well_formed (sp_path p) head"
  shows "well_formed_set sha head (fst (apply_proposal sha ps p now))"
proof (cases "fold_proposal (path_id sha (sp_path p)) (sp_action p) now (ps_paths ps)")
  case None
  with assms show ?thesis by (auto simp: apply_proposal_def well_formed_set_def new_entry_def)
next
  case (Some r)
  then obtain es c where r: "r = (es, c)" by (cases r)
  with Some assms(1) show ?thesis
    by (intro well_formed_set_same_paths [OF _ _ assms(1)])
      (auto simp: apply_proposal_def dest: fold_proposal_keeps)
qed

text \<open>A well-formed path of a head without repeated dependencies describes a resolution.\<close>

lemma well_formed_matches:
  assumes "is_well_formed p head" and "distinct (b_deps head)"
  shows "matches (\<lambda>d. \<exists>dep\<in>set (p_deps p). pd_batch dep = d \<and> pd_assumption dep = Succeeds) p"
proof -
  have "inj_on pd_batch (set (p_deps p))"
    using assms by (metis distinct_map is_well_formed_iff)
  then show ?thesis unfolding matches_def
    using assms(1) by (auto simp: inj_on_def) (metis (full_types) assumption_cases)+
qed

lemma unbroken_agrees:
  assumes "is_well_formed p head" and "matches \<rho> p" and "\<not> assumption_broken p s"
  shows "agrees \<rho> head s"
  unfolding agrees_def
proof (intro ballI impI)
  fix i assume i: "i \<in> set (b_deps head)" "batch_state_is_terminal (state_in s i)"
  then obtain dep where dep: "dep \<in> set (p_deps p)" "pd_batch dep = i"
    using assms(1) by (metis (no_types, lifting) imageE is_well_formed_iff set_map)
  with i assms(3) have "(pd_assumption dep = Succeeds) = (state_in s i = BatchStateSucceeded)"
    using assumption_broken_iff [OF assms(1)] by auto
  with dep assms(2) show "\<rho> i = (state_in s i = BatchStateSucceeded)"
    by (auto simp: matches_def split: if_splits)
qed

text \<open>Once a head can land, every path of it that is still possible is stored with a passed build.\<close>

lemma landed_head_stores:
  assumes "well_formed_set sha head ps" and "distinct (b_deps head)" and "decide head ps s = OutcomeLand"
    and "is_well_formed p head" and "\<not> assumption_broken p s"
  shows "\<exists>e\<in>set (ps_paths ps). e_status e = PathPassed \<and> e_path e = p \<and> e_id e = path_id sha p"
proof -
  let ?\<rho> = "\<lambda>d. \<exists>dep\<in>set (p_deps p). pd_batch dep = d \<and> pd_assumption dep = Succeeds"
  have m: "matches ?\<rho> p" by (rule well_formed_matches [OF assms(4,2)])
  have "agrees ?\<rho> head s" by (rule unbroken_agrees [OF assms(4) m assms(5)])
  from land_matching_entry [OF assms(1,3) this] obtain e where
    e: "e \<in> set (ps_paths ps)" "e_status e = PathPassed" "is_well_formed (e_path e) head" "matches ?\<rho> (e_path e)"
    by blast
  have "e_path e = p" by (rule matches_unique [OF e(3) assms(4) e(4) m])
  with e(1,2) assms(1) show ?thesis by (auto simp: well_formed_set_def)
qed

lemma mark_cancelling_keeps_terminal:
  "e \<in> set (ps_paths ps) \<Longrightarrow> path_status_is_terminal (e_status e) \<Longrightarrow>
   e \<in> set (ps_paths (fst (mark_cancelling ps now keep)))"
  by (force simp: mark_cancelling_def stoppable_def image_iff)

section \<open>A small queue\<close>

text \<open>
  The head \<open>3\<close> speculates on \<open>1\<close>, which has landed, and \<open>2\<close>, which is still being worked on.  The
  digest is the identity.
\<close>

definition sample_batch :: "string \<Rightarrow> string list \<Rightarrow> batch_state \<Rightarrow> batch" where
  "sample_batch i ds st = \<lparr>b_id = i, b_queue = ''q'', b_contains = [''r'' @ i], b_deps = ds, b_state = st, b_version = 3\<rparr>"

definition sample_head :: batch where
  "sample_head = sample_batch ''3'' [''1'', ''2''] BatchStateSpeculating"

definition sample_path :: "assumption \<Rightarrow> assumption \<Rightarrow> path" where
  "sample_path a1 a2 = \<lparr>p_head = ''3'',
     p_deps = [\<lparr>pd_batch = ''1'', pd_assumption = a1\<rparr>, \<lparr>pd_batch = ''2'', pd_assumption = a2\<rparr>]\<rparr>"

definition sample_entry :: "path \<Rightarrow> path_status \<Rightarrow> path_entry" where
  "sample_entry p st = \<lparr>e_id = path_text p, e_path = p, e_status = st, e_attempt = 1, e_version = 1,
     e_created_at = 0, e_updated_at = 0\<rparr>"

definition sample_set :: "path_status \<Rightarrow> path_status \<Rightarrow> path_set" where
  "sample_set st st' = \<lparr>ps_queue = ''q'', ps_head = ''3'',
     ps_paths = [sample_entry (sample_path Succeeds Succeeds) st, sample_entry (sample_path Succeeds Fails) st'],
     ps_version = 1\<rparr>"

definition sample_snapshot :: "batch_state \<Rightarrow> path_set \<Rightarrow> snapshot" where
  "sample_snapshot st ps = \<lparr>sn_batches = [(''1'', sample_batch ''1'' [] BatchStateSucceeded),
       (''2'', sample_batch ''2'' [] st), (''3'', sample_head)],
     sn_in_flight = [sample_head], sn_trigger = ''3'', sn_speculating = [sample_head],
     sn_path_sets = [''3'' \<mapsto> ps], sn_dirty = (\<lambda>_. False)\<rparr>"

lemmas sample_defs = sample_batch_def sample_head_def sample_path_def sample_entry_def sample_set_def sample_snapshot_def

lemmas decide_defs = decide_def landable_path_def bypassable_path_def bypass_scan.simps signature_of_def
  unsettled_dependency_indices_def assumption_broken_def all_assumptions_settled_def state_in_def batch_at_def
  has_no_viable_future_def is_well_formed_def

lemma sample_well_formed: "well_formed_set (\<lambda>t. t) sample_head (sample_set st st')"
  by (simp add: well_formed_set_def sample_defs is_well_formed_def path_id_def)

lemma sample_bypass:
  "decide sample_head (sample_set PathPassed PathPassed) (sample_snapshot BatchStateSpeculating (sample_set PathPassed PathPassed)) = OutcomeLand"
  by (simp add: decide_defs sample_defs Let_def upt_rec)

section \<open>Properties\<close>

text \<open>
  C1. A head is handed to the land stage only on validated ground: however its unfinished
  dependencies still end, one of its builds that passed was built on exactly the dependencies that
  succeed, in queue order.
\<close>
theorem land_validated:
  assumes "well_formed_set sha head ps" and "decide head ps s = OutcomeLand" and "agrees \<rho> head s"
  shows "\<exists>e\<in>set (ps_paths ps). e_status e = PathPassed \<and> p_head (e_path e) = b_id head \<and>
    path_base (e_path e) = filter \<rho> (b_deps head)"
  using land_matching_entry [OF assms] matches_base by (fastforce simp: is_well_formed_iff)

lemma land_validated_witness:
  "\<exists>e\<in>set (ps_paths (sample_set PathPassed PathPassed)). e_status e = PathPassed \<and> p_head (e_path e) = b_id sample_head \<and>
    path_base (e_path e) = filter (\<lambda>d. d = ''1'') (b_deps sample_head)"
  by (rule land_validated [OF sample_well_formed sample_bypass])
    (simp add: agrees_def sample_defs state_in_def batch_at_def)

text \<open>
  C3. A head is failed only when its case is closed: every dependency has finished, the build on
  exactly the dependencies that succeeded has failed, and no passed path of the head agrees with how
  they ended.
\<close>
theorem fail_sound:
  assumes "well_formed_set sha head ps" and "decide head ps s = OutcomeFail"
  shows "(\<forall>d\<in>set (b_deps head). batch_state_is_terminal (state_in s d)) \<and>
    (\<exists>e\<in>set (ps_paths ps). e_status e = PathFailed \<and>
       path_base (e_path e) = filter (\<lambda>d. state_in s d = BatchStateSucceeded) (b_deps head)) \<and>
    (\<forall>e\<in>set (ps_paths ps). e_status e = PathPassed \<longrightarrow> assumption_broken (e_path e) s)"
proof -
  from assms(2) have viable: "has_no_viable_future head ps s" by (rule decide_fail_viable)
  then obtain e where e: "e \<in> set (ps_paths ps)" "\<not> assumption_broken (e_path e) s" "e_status e = PathFailed"
    and deps: "\<forall>d\<in>set (b_deps head). batch_state_is_terminal (state_in s d)"
    by (auto simp: has_no_viable_future_iff)
  have wf: "is_well_formed (e_path e) head" using assms(1) e(1) by (simp add: well_formed_set_def)
  have "path_base (e_path e) = filter (settled_resolution s) (b_deps head)"
    by (rule matches_base [OF wf unbroken_matches [OF wf settled_resolution_agrees e(2) deps]])
  then have base: "path_base (e_path e) = filter (\<lambda>d. state_in s d = BatchStateSucceeded) (b_deps head)"
    by (simp add: settled_resolution_def [abs_def])
  have passed: "assumption_broken (e_path e') s" if "e' \<in> set (ps_paths ps)" "e_status e' = PathPassed" for e'
    using viable that unfolding has_no_viable_future_iff by force
  show ?thesis using deps e(1,3) base passed by blast
qed

lemma fail_sound_witness:
  "\<exists>e\<in>set (ps_paths (sample_set PathPassed PathFailed)). e_status e = PathFailed \<and>
     path_base (e_path e) = filter (\<lambda>d. state_in (sample_snapshot BatchStateFailed (sample_set PathPassed PathFailed)) d = BatchStateSucceeded)
       (b_deps sample_head)"
  using fail_sound [OF sample_well_formed [of PathPassed PathFailed],
      of "sample_snapshot BatchStateFailed (sample_set PathPassed PathFailed)"]
  by (simp add: decide_defs sample_defs Let_def upt_rec)

text \<open>
  C10. Once every dependency has finished and the path set of a head records the one path that guessed
  right, the outcome of the head is that of this path: it lands if that path passed, fails if that path's build failed, and otherwise waits.
\<close>
theorem decide_settled:
  assumes "well_formed_set sha head ps" and "distinct (map e_id (ps_paths ps))"
    and "\<forall>d\<in>set (b_deps head). batch_state_is_terminal (state_in s d)"
    and "e \<in> set (ps_paths ps)" and "\<not> assumption_broken (e_path e) s"
  shows "decide head ps s =
    (if e_status e = PathPassed then OutcomeLand else if e_status e = PathFailed then OutcomeFail else OutcomeWait)"
proof -
  have wf: "is_well_formed (e_path e') head" "e_id e' = path_id sha (e_path e')" if "e' \<in> set (ps_paths ps)" for e'
    using assms(1) that by (auto simp: well_formed_set_def)
  note only = unbroken_entry_only [OF assms]
  have settled: "all_assumptions_settled (e_path e) s"
  proof -
    have dep: "batch_state_is_terminal (state_in s (pd_batch d))" if "d \<in> set (p_deps (e_path e))" for d
      using assms(3) wf(1) [OF assms(4)] that by (metis imageI is_well_formed_iff set_map)
    show ?thesis
      using assms(5) wf(1) [OF assms(4)] dep
      by (fastforce simp: all_assumptions_settled_def list_all_iff assumption_broken_iff Let_def is_well_formed_iff
          batch_state_is_terminal_iff split: assumption.splits)
  qed
  have land: "landable_path ps s = (if e_status e = PathPassed then Some e else None)"
  proof (cases "landable_path ps s")
    case None
    then show ?thesis using assms(4,5) settled by (auto simp: landable_path_def find_first_None_iff)
  next
    case (Some e')
    with only [OF landable_path_Some(1,3) [OF Some]] landable_path_Some(2) [OF Some] show ?thesis by auto
  qed
  have "unsettled_dependency_indices head s = []"
    using assms(3) by (auto simp: unsettled_dependency_indices_def filter_empty_conv)
  then have bypass: "bypassable_path head ps s = None" by (simp add: bypassable_path_def)
  have fails: "has_no_viable_future head ps s = (e_status e = PathFailed)"
    unfolding has_no_viable_future_iff using assms(3,4,5) only by blast
  show ?thesis by (simp add: decide_def land bypass fails)
qed

lemma decide_settled_witness:
  "decide sample_head (sample_set PathCancelling PathPassed)
     (sample_snapshot BatchStateFailed (sample_set PathCancelling PathPassed)) = OutcomeLand"
  using decide_settled [OF sample_well_formed [of PathCancelling PathPassed],
      of "sample_snapshot BatchStateFailed (sample_set PathCancelling PathPassed)"
        "sample_entry (sample_path Succeeds Fails) PathPassed"]
  by (simp add: sample_defs assumption_broken_def state_in_def batch_at_def path_text_def)

text \<open>
  A head this run sends to land takes no more work in the same run: with its losing paths
  superseded, the check refuses every proposal aimed at it, whatever the Speculator answers, although
  the snapshot still shows the head as Speculating.
\<close>
theorem landing_head_closed:
  assumes "well_formed_set sha head ps" and "distinct (map e_id (ps_paths ps))" and "distinct (b_deps head)"
    and "decide head ps s = OutcomeLand" and "map_of (sn_batches s) (b_id head) = Some head"
    and "p_head (sp_path p) = b_id head"
  shows "rejection_reason sha p (s\<lparr>sn_path_sets := (sn_path_sets s)(b_id head \<mapsto> fst (supersede ps wid now))\<rparr>) \<noteq> None"
    (is "rejection_reason sha p ?s \<noteq> None")
proof
  have broken: "assumption_broken q ?s = assumption_broken q s" for q
    by (simp add: assumption_broken_def state_in_def batch_at_def)
  assume acc: "rejection_reason sha p ?s = None"
  then obtain "is_well_formed (sp_path p) head" "\<not> assumption_broken (sp_path p) s"
    by (rule accepted_proposal) (use assms(5,6) broken in auto)
  from landed_head_stores [OF assms(1,3,4) this] obtain e where
    e: "e \<in> set (ps_paths ps)" "e_status e = PathPassed" "e_id e = path_id sha (sp_path p)" by blast
  let ?ps = "fst (supersede ps wid now)"
  have "e \<in> set (ps_paths ?ps)" using e(1,2) by (simp add: supersede_def mark_cancelling_keeps_terminal)
  moreover have "distinct (map e_id (ps_paths ?ps))" using assms(2) by (simp add: supersede_def mark_cancelling_paths)
  ultimately have "find_path (path_set_at ?s (b_id head)) (path_id sha (sp_path p)) = Some e"
    using find_path_unique e(3) by (fastforce simp: path_set_at_def)
  with acc show False using terminal_entry_rejects [of ?s p head sha e] assms(5,6) e(2) by simp
qed

lemma landing_head_closed_witness:
  "rejection_reason (\<lambda>t. t) \<lparr>sp_path = sample_path Succeeds Fails, sp_action = PathActionBuild\<rparr>
     ((sample_snapshot BatchStateSpeculating (sample_set PathPassed PathPassed))
       \<lparr>sn_path_sets := (sn_path_sets (sample_snapshot BatchStateSpeculating (sample_set PathPassed PathPassed)))
          (b_id sample_head \<mapsto> fst (supersede (sample_set PathPassed PathPassed) ''x'' 7))\<rparr>) \<noteq> None"
  by (rule landing_head_closed [OF sample_well_formed _ _ sample_bypass]) (simp_all add: sample_defs path_text_def)

text \<open>
  C4. A cancelled build can wedge its head.  When every dependency has finished and the build of the
  one path that guessed right was cancelled, the head neither lands nor fails, and the check refuses
  every proposal that could give it another build.
\<close>
theorem cancelled_path_wedges:
  assumes "well_formed_set sha head ps" and "distinct (map e_id (ps_paths ps))"
    and "\<forall>d\<in>set (b_deps head). batch_state_is_terminal (state_in s d)"
    and "e \<in> set (ps_paths ps)" and "\<not> assumption_broken (e_path e) s" and "e_status e = PathCancelled"
    and "sn_path_sets s (b_id head) = Some ps" and "map_of (sn_batches s) (b_id head) = Some head"
  shows "decide head ps s = OutcomeWait \<and>
    (\<forall>p. p_head (sp_path p) = b_id head \<longrightarrow> rejection_reason sha p s \<noteq> None)"
proof (intro conjI allI impI notI)
  have wf: "is_well_formed (e_path e) head" "e_id e = path_id sha (e_path e)"
    using assms(1,4) by (auto simp: well_formed_set_def)
  have land: "landable_path ps s = None"
  proof (cases "landable_path ps s")
    case (Some e')
    have "e' = e" by (rule unbroken_entry_only [OF assms(1-5) landable_path_Some(1,3) [OF Some]])
    with landable_path_Some(2) [OF Some] assms(6) show ?thesis by simp
  qed simp
  have "unsettled_dependency_indices head s = []"
    using assms(3) by (auto simp: unsettled_dependency_indices_def filter_empty_conv)
  then have "bypassable_path head ps s = None" by (simp add: bypassable_path_def)
  moreover have "\<not> has_no_viable_future head ps s"
    using assms(4-6) by (auto simp: has_no_viable_future_iff)
  ultimately show "decide head ps s = OutcomeWait" using land by (simp add: decide_def)
  fix p assume head: "p_head (sp_path p) = b_id head" and acc: "rejection_reason sha p s = None"
  then obtain "is_well_formed (sp_path p) head" "\<not> assumption_broken (sp_path p) s"
    by (rule_tac accepted_proposal) (use assms(8) in auto)
  then have "e_path e = sp_path p" by (rule unbroken_entry_unique [OF assms(1,3,4,5)])
  then have "find_path (path_set_at s (b_id head)) (path_id sha (sp_path p)) = Some e"
    using find_path_unique [OF assms(2,4)] wf(2) assms(7) by (simp add: path_set_at_def)
  with terminal_entry_rejects [of s p head sha e] head assms(6,8) acc show False by simp
qed

lemma cancelled_path_wedges_witness:
  "decide sample_head (sample_set PathCancelling PathCancelled)
     (sample_snapshot BatchStateFailed (sample_set PathCancelling PathCancelled)) = OutcomeWait"
  using cancelled_path_wedges [OF sample_well_formed [of PathCancelling PathCancelled],
      of "sample_snapshot BatchStateFailed (sample_set PathCancelling PathCancelled)"
        "sample_entry (sample_path Succeeds Fails) PathCancelled"]
  by (simp add: sample_defs assumption_broken_def state_in_def batch_at_def path_text_def)

end
