(* ===== verification/SpecRun.thy ===== *)
theory SpecRun
  imports SpecFacts
begin

text \<open>
  The speculate controller's run (\<open>speculate.go\<close>, \<open>run.go\<close>, \<open>finalize.go\<close>, \<open>dispatch.go\<close> of
  \<open>submitqueue/orchestrator/controller/speculate\<close>): read, admit, finalize, ask, check, dispatch,
  over the world of the queue.  The Speculator extension and SHA-256 are the record \<open>exts\<close>; metrics
  and log lines are left out.  A Go loop that assigns to variables of the enclosing function is a
  \<open>fold_act\<close> over those variables.
\<close>

section \<open>Subjects and extensions\<close>

definition batch_subject :: "string \<Rightarrow> subject" where
  "batch_subject i = Subject ''batch'' i"

definition queue_subject :: "string \<Rightarrow> subject" where
  "queue_subject q = Subject ''queue'' q"

definition request_subject :: "string \<Rightarrow> subject" where
  "request_subject i = Subject ''request'' i"

type_synonym speculator = "batch list \<Rightarrow> path_set list \<Rightarrow> goerr + speculation list"

record exts =
  x_sha :: "string \<Rightarrow> string"
  x_speculator_for :: "string \<Rightarrow> goerr + speculator"

section \<open>Publishing batch IDs\<close>

definition publish_batch_id_with_metadata ::
  "topic_key \<Rightarrow> string \<Rightarrow> string \<Rightarrow> string \<Rightarrow> string \<Rightarrow> metadata \<Rightarrow> unit op" where
  "publish_batch_id_with_metadata key msg_id batch_id queue partition_key meta =
     and_then (map_err (Wrapped ''failed to serialize batch ID'') (of_sum (marshal_id key batch_id queue))) (\<lambda>payload.
     publish_message key \<lparr>mp_tenant = queue, mp_id = msg_id, mp_payload = payload,
       mp_partition = partition_key, mp_metadata = meta\<rparr>)"

definition publish_batch_id :: "topic_key \<Rightarrow> string \<Rightarrow> string \<Rightarrow> string \<Rightarrow> string \<Rightarrow> unit op" where
  "publish_batch_id key msg_id batch_id queue partition_key =
     publish_batch_id_with_metadata key msg_id batch_id queue partition_key Map.empty"

definition fanout :: "string \<Rightarrow> string \<Rightarrow> unit op" where
  "fanout batch_id queue =
     and_then (unique_id batch_id) (\<lambda>msg_id.
     map_err (\<lambda>e. attribute [batch_subject batch_id] (Wrapped ''failed to publish to conclude'' e))
       (publish_batch_id TopicKeyConclude msg_id batch_id queue queue))"

section \<open>Admission\<close>

definition admit :: "batch \<Rightarrow> batch op" where
  "admit b =
     and_then (map_err (\<lambda>e. attribute [batch_subject (b_id b)] (Wrapped ''failed to publish request logs'' e))
       (publish_batch_logs (b_queue b) (b_contains b) RequestStatusSpeculating (b_id b) [''batch_id'' \<mapsto> b_id b])) (\<lambda>_.
     map_err (attribute [batch_subject (b_id b)]) (transition b BatchStateSpeculating))"

definition admit_created_one :: "nat \<Rightarrow> snapshot \<Rightarrow> snapshot op" where
  "admit_created_one i s =
     (let b = sn_in_flight s ! i in
      if b_state b \<noteq> BatchStateCreated then ok s
      else and_then (attempt (admit b)) (\<lambda>r. case r of
        Inl _ \<Rightarrow> ok s
      | Inr updated \<Rightarrow> ok (s\<lparr>sn_batches := AList.update (b_id updated) updated (sn_batches s),
          sn_in_flight := (sn_in_flight s)[i := updated],
          sn_speculating := sn_speculating s @ [updated]\<rparr>)))"

definition admit_created :: "snapshot \<Rightarrow> snapshot op" where
  "admit_created s = fold_act admit_created_one [0..<length (sn_in_flight s)] s"

section \<open>Reading the queue\<close>

text \<open>One iteration of \<open>updatePathsFromBuilds\<close>: the entry, and whether it changed.\<close>

definition observe_entry :: "string \<Rightarrow> path_entry \<Rightarrow> (path_entry \<times> bool) op" where
  "observe_entry head e =
     (if path_status_is_terminal (e_status e) then ok (e, False)
      else and_then (attempt (path_build_get (e_id e) (e_attempt e))) (\<lambda>link. case link of
        Inl err \<Rightarrow>
          if is_not_found err then
            (if e_status e = PathCancelling then ok (e\<lparr>e_status := PathCancelled\<rparr>, True) else ok (e, False))
          else fail (attribute [batch_subject head] (Wrapped ''failed to look up build for path'' err))
      | Inr link \<Rightarrow>
          and_then (attempt (build_get (pb_build link))) (\<lambda>bl. case bl of
            Inl err \<Rightarrow>
              if is_not_found err then ok (e, False)
              else fail (attribute [batch_subject head] (Wrapped ''failed to get build'' err))
          | Inr bl \<Rightarrow>
              if \<not> build_status_is_terminal (bl_status bl) then
                (if e_status e = PathPending then ok (e\<lparr>e_status := PathBuilding\<rparr>, True) else ok (e, False))
              else ok (e\<lparr>e_status := terminal_path_status (bl_status bl)\<rparr>, True))))"

definition observe_into :: "string \<Rightarrow> path_entry \<Rightarrow> path_entry list \<times> bool \<Rightarrow> (path_entry list \<times> bool) op" where
  "observe_into head e st = (case st of (es, changed) \<Rightarrow>
     and_then (observe_entry head e) (\<lambda>(e', c). ok (es @ [e'], changed \<or> c)))"

definition update_paths_from_builds :: "path_set \<Rightarrow> (path_set \<times> bool) op" where
  "update_paths_from_builds ps =
     and_then (fold_act (observe_into (ps_head ps)) (ps_paths ps) ([], False)) (\<lambda>(es, changed).
     ok (ps\<lparr>ps_paths := es\<rparr>, changed))"

definition load_dependency ::
  "string \<Rightarrow> (string \<times> batch) list \<Rightarrow> (string \<times> batch) list op" where
  "load_dependency dep_id batches =
     (if map_of batches dep_id \<noteq> None then ok batches
      else and_then (map_err (\<lambda>e. attribute [batch_subject dep_id] (Wrapped ''failed to get dependency batch'' e))
        (batch_get dep_id)) (\<lambda>dep.
      ok (AList.update dep_id dep batches)))"

definition load_path_set :: "batch \<Rightarrow> snapshot \<Rightarrow> snapshot op" where
  "load_path_set b s =
     and_then (attempt (path_set_get (b_id b))) (\<lambda>r. case r of
       Inl err \<Rightarrow>
         if is_not_found err then ok s
         else fail (attribute [batch_subject (b_id b)] (Wrapped ''failed to get path set'' err))
     | Inr ps \<Rightarrow>
         and_then (update_paths_from_builds ps) (\<lambda>(ps', changed).
         let s' = s\<lparr>sn_path_sets := (sn_path_sets s)(b_id b \<mapsto> ps')\<rparr> in
         ok (if changed then mark_dirty (b_id b) s' else s')))"

definition index_batches :: "batch list \<Rightarrow> (string \<times> batch) list" where
  "index_batches bs = foldl (\<lambda>m b. AList.update (b_id b) b m) [] bs"

definition read_snapshot :: "string \<Rightarrow> snapshot op" where
  "read_snapshot queue =
     and_then (map_err (\<lambda>e. attribute [queue_subject queue] (Wrapped ''failed to list in-flight batches of queue'' e))
       (list_by_states active_batch_states)) (\<lambda>in_flight.
     and_then (fold_act (\<lambda>b batches. fold_act load_dependency (b_deps b) batches) in_flight (index_batches in_flight)) (\<lambda>batches.
     fold_act load_path_set in_flight
       \<lparr>sn_batches = batches, sn_in_flight = in_flight, sn_trigger = [],
        sn_speculating = filter (\<lambda>b. b_state b = BatchStateSpeculating) in_flight,
        sn_path_sets = Map.empty, sn_dirty = (\<lambda>_. False)\<rparr>))"

section \<open>Persisting a path set\<close>

definition persist :: "path_set \<Rightarrow> bool \<Rightarrow> path_set op" where
  "persist ps exists =
     (if \<not> exists then
        let ps = ps\<lparr>ps_version := 1\<rparr> in
        and_then (attempt (path_set_create ps)) (\<lambda>r. case r of
          Inl err \<Rightarrow>
            if is_already_exists err then fail err_version_mismatch
            else fail (Wrapped ''failed to create path set'' err)
        | Inr _ \<Rightarrow> ok ps)
      else
        let new_version = ps_version ps + 1 in
        and_then (attempt (path_set_update ps (ps_version ps) new_version)) (\<lambda>r. case r of
          Inl err \<Rightarrow>
            if is_version_mismatch err then fail err
            else fail (Wrapped ''failed to update path set'' err)
        | Inr _ \<Rightarrow> ok (ps\<lparr>ps_version := new_version\<rparr>)))"

section \<open>Enacting an outcome\<close>

definition dispatch_land :: "batch \<Rightarrow> unit op" where
  "dispatch_land b =
     and_then (map_err (Wrapped ''failed to publish request logs'')
       (publish_batch_logs (b_queue b) (b_contains b) RequestStatusSpeculated (b_id b) [''batch_id'' \<mapsto> b_id b])) (\<lambda>_.
     map_err (Wrapped ''failed to publish batch to land'')
       (publish_batch_id TopicKeyLand (intent_id (b_id b) [''land-dispatch'']) (b_id b) (b_queue b) (b_queue b)))"

definition recoverable :: "batch \<Rightarrow> unit op" where
  "recoverable b =
     and_then (unique_id (b_id b)) (\<lambda>msg_id.
     map_err (Wrapped ''failed to publish recovery signal'')
       (publish_batch_id TopicKeySpeculate msg_id (b_id b) (b_queue b) (b_queue b)))"

definition failure_meta :: "outcome \<Rightarrow> metadata" where
  "failure_meta decision =
     (if decision = OutcomeFail
      then [''failure_reason'' \<mapsto> ''no speculation path could pass; every candidate build failed'']
      else Map.empty)"

definition outcome_state :: "outcome \<Rightarrow> batch_state option" where
  "outcome_state decision = (case decision of
     OutcomeLand \<Rightarrow> Some BatchStateLanding
   | OutcomeFail \<Rightarrow> terminal_state decision
   | OutcomeCancel \<Rightarrow> terminal_state decision
   | OutcomeWait \<Rightarrow> None)"

definition apply_outcome :: "batch \<Rightarrow> outcome \<Rightarrow> bool \<Rightarrow> bool op" where
  "apply_outcome b decision is_trigger_batch =
     (case outcome_state decision of
        None \<Rightarrow> ok False
      | Some st \<Rightarrow>
          and_then (if \<not> is_trigger_batch then recoverable b else ok ()) (\<lambda>_.
          and_then (attempt (transition b st)) (\<lambda>r. case r of
            Inl err \<Rightarrow> if is_version_mismatch err then ok False else fail err
          | Inr _ \<Rightarrow>
              and_then
                (if decision = OutcomeLand then dispatch_land b
                 else map_err (Wrapped ''failed to publish batch to conclude'')
                   (publish_batch_id_with_metadata TopicKeyConclude (intent_id (b_id b) [''conclude'', ''speculate''])
                      (b_id b) (b_queue b) (b_queue b) (failure_meta decision))) (\<lambda>_.
              ok True))))"

text \<open>
  \<open>commitOutcome\<close> returns the snapshot it changed and whether the outcome landed.  When the write
  of the paths loses its race the state write is not attempted.
\<close>

definition commit_paths :: "snapshot \<Rightarrow> batch \<Rightarrow> (snapshot \<times> bool) op" where
  "commit_paths s b =
     (if is_dirty s (b_id b) then
        and_then (attempt (persist (path_set_at s (b_id b)) (sn_path_sets s (b_id b) \<noteq> None))) (\<lambda>r. case r of
          Inl err \<Rightarrow>
            if is_version_mismatch err then ok (mark_clean (b_id b) s, False)
            else fail (attribute [batch_subject (b_id b)] err)
        | Inr stored \<Rightarrow>
            ok (mark_clean (b_id b) (s\<lparr>sn_path_sets := (sn_path_sets s)(b_id b \<mapsto> stored)\<rparr>), True))
      else ok (s, True))"

definition commit_outcome :: "snapshot \<Rightarrow> batch \<Rightarrow> outcome \<Rightarrow> (snapshot \<times> bool) op" where
  "commit_outcome s b decision =
     and_then (commit_paths s b) (\<lambda>(s', stored).
     if \<not> stored then ok (s', False)
     else and_then (map_err (attribute [batch_subject (b_id b)])
       (apply_outcome b decision (is_trigger s' (b_id b)))) (\<lambda>landed.
     ok (s', landed)))"

definition record_outcome :: "snapshot \<Rightarrow> string \<Rightarrow> outcome \<Rightarrow> snapshot" where
  "record_outcome s i decision = (case terminal_state decision of
     None \<Rightarrow> s
   | Some st \<Rightarrow> s\<lparr>sn_batches := AList.update i ((batch_at s i)\<lparr>b_state := st\<rparr>) (sn_batches s)\<rparr>)"

section \<open>Finalizing\<close>

definition report_speculation ::
  "batch \<Rightarrow> path_set \<Rightarrow> snapshot \<Rightarrow> path_entry option \<Rightarrow> outcome \<Rightarrow> unit op" where
  "report_speculation b ps s before decision =
     (let publish = (\<lambda>event pid.
            map_err (\<lambda>e. attribute [batch_subject (b_id b)] (Wrapped ''failed to publish request events'' e))
              (publish_batch_events (b_queue b) (b_contains b) event pid [''batch_id'' \<mapsto> b_id b, ''path_id'' \<mapsto> pid]))
      in case live_passed_path ps s of
        Some after \<Rightarrow> if decision = OutcomeWait then publish RequestEventWaiting (e_id after) else ok ()
      | None \<Rightarrow> (case before of Some e \<Rightarrow> publish RequestEventInvalidated (e_id e) | None \<Rightarrow> ok ()))"

text \<open>
  The change of a head's set in the snapshot: when the set is there and \<open>change\<close> changed it, the
  result replaces it and is marked dirty.  The set returned is the one the code goes on with.
\<close>

definition change_set :: "string \<Rightarrow> (path_set \<Rightarrow> path_set \<times> bool) \<Rightarrow> snapshot \<Rightarrow> path_set \<times> snapshot" where
  "change_set i change s = (case sn_path_sets s i of
     None \<Rightarrow> (zero_set, s)
   | Some ps \<Rightarrow> (case change ps of (ps', changed) \<Rightarrow>
       if changed then (ps', mark_dirty i (s\<lparr>sn_path_sets := (sn_path_sets s)(i \<mapsto> ps')\<rparr>)) else (ps', s)))"

definition finalize_cancellation :: "int \<Rightarrow> batch \<Rightarrow> snapshot \<Rightarrow> snapshot op" where
  "finalize_cancellation now b s =
     (if b_state b \<noteq> BatchStateCancelling then ok s
      else case change_set (b_id b) (\<lambda>ps. cancel_all_paths ps now) s of (ps, s1) \<Rightarrow>
        if sn_path_sets s (b_id b) \<noteq> None \<and> \<not> all_paths_stopped ps then ok s1
        else and_then (commit_outcome s1 b OutcomeCancel) (\<lambda>(s2, committed).
          ok (if committed then record_outcome s2 (b_id b) OutcomeCancel else s2)))"

definition finalize_cancellations :: "int \<Rightarrow> snapshot \<Rightarrow> snapshot op" where
  "finalize_cancellations now s = fold_act (finalize_cancellation now) (sn_in_flight s) s"

text \<open>The path that carries a landing head out of the queue.\<close>

definition winner_of :: "batch \<Rightarrow> path_set \<Rightarrow> snapshot \<Rightarrow> path_entry" where
  "winner_of b ps s = (case landable_path ps s of
     Some e \<Rightarrow> e
   | None \<Rightarrow> (case bypassable_path b ps s of Some e \<Rightarrow> e | None \<Rightarrow> zero_entry))"

text \<open>
  One iteration of the loop over the open heads: the snapshot, the number of heads decided so far
  and the heads still open.  A head that lands has a set, so superseding its losers is a
  \<open>change_set\<close> too.
\<close>

definition finalize_head ::
  "int \<Rightarrow> batch \<Rightarrow> snapshot \<times> nat \<times> batch list \<Rightarrow> (snapshot \<times> nat \<times> batch list) op" where
  "finalize_head now b st = (case st of (s, decided, still_open) \<Rightarrow>
     let before = passed_entry (path_set_at s (b_id b)) in
     case change_set (b_id b) (\<lambda>ps. cancel_broken_paths_in_set ps s now) s of (ps, s1) \<Rightarrow>
     let decision = decide b ps s1 in
     and_then (report_speculation b ps s1 before decision) (\<lambda>_.
     if decision = OutcomeWait then ok (s1, decided, still_open @ [b])
     else
       let s2 = (if decision = OutcomeLand
                 then snd (change_set (b_id b) (\<lambda>ps'. supersede ps' (e_id (winner_of b ps s1)) now) s1) else s1) in
       and_then (commit_outcome s2 b decision) (\<lambda>(s3, committed).
       if \<not> committed then ok (s3, decided, still_open)
       else ok (record_outcome s3 (b_id b) decision, decided + 1, still_open))))"

definition finalize_pass :: "int \<Rightarrow> batch list \<Rightarrow> snapshot \<Rightarrow> (snapshot \<times> nat \<times> batch list) op" where
  "finalize_pass now heads s = fold_act (finalize_head now) heads (s, 0, [])"

text \<open>
  The outer loop stops at the first pass that decides no head.  A pass never leaves more heads open
  than it was given, less those it decided, so the loop ends.
\<close>

lemma fold_act_invariant:
  assumes "\<And>x s w s' w'. x \<in> set xs \<Longrightarrow> body x s w = (Inr s', w') \<Longrightarrow> f s' \<le> Suc (f s)"
    and "fold_act body xs s w = (Inr s', w')"
  shows "(f s' :: nat) \<le> f s + length xs"
  using assms
proof (induction xs arbitrary: s w)
  case Nil
  then show ?case by (auto simp: act_simps)
next
  case (Cons x xs)
  from Cons.prems(2) obtain s1 w1 where
    "body x s w = (Inr s1, w1)" and rest: "fold_act body xs s1 w1 = (Inr s', w')"
    by (auto elim: and_then_Inr)
  with Cons.prems(1) [of x s w s1 w1] have "f s1 \<le> Suc (f s)" by simp
  moreover have "f s' \<le> f s1 + length xs"
    using rest by (intro Cons.IH) (use Cons.prems(1) in force)+
  ultimately show ?case by simp
qed

lemma finalize_head_counts:
  "finalize_head now b (s, n, os) w = (Inr (s', n', os'), w') \<Longrightarrow> n' + length os' \<le> Suc (n + length os)"
  by (auto simp: finalize_head_def Let_def ok_apply split: prod.splits if_splits elim!: and_then_Inr)

lemma finalize_pass_counts:
  assumes "finalize_pass now heads s w = (Inr (s', decided, still_open), w')"
  shows "decided + length still_open \<le> length heads"
  using fold_act_invariant [of heads "finalize_head now" "\<lambda>(s, n, os). n + length os", OF _ assms [unfolded finalize_pass_def]]
  by (auto dest: finalize_head_counts)

function finalize_loop :: "int \<Rightarrow> batch list \<Rightarrow> snapshot \<Rightarrow> (snapshot \<times> batch list) op" where
  "finalize_loop now heads s w = (case finalize_pass now heads s w of
     (Inl e, w') \<Rightarrow> (Inl e, w')
   | (Inr (s', decided, still_open), w') \<Rightarrow>
       if decided = 0 then (Inr (s', still_open), w') else finalize_loop now still_open s' w')"
  by auto

termination
  by (relation "measure (\<lambda>(now, heads, s, w). length heads)") (auto dest!: finalize_pass_counts [OF sym])

declare finalize_loop.simps [simp del]

definition finalize :: "snapshot \<Rightarrow> snapshot op" where
  "finalize s =
     and_then get_now_ms (\<lambda>now.
     and_then (finalize_cancellations now s) (\<lambda>s.
     and_then (finalize_loop now (sn_speculating s) s) (\<lambda>(s, still_open).
     ok (s\<lparr>sn_speculating := still_open\<rparr>))))"

section \<open>Asking, checking, dispatching\<close>

definition ask :: "exts \<Rightarrow> string \<Rightarrow> snapshot \<Rightarrow> speculation list op" where
  "ask x queue s =
     and_then (map_err (\<lambda>e. attribute [queue_subject queue] (Wrapped ''failed to build speculator for queue'' e))
       (of_sum (x_speculator_for x queue))) (\<lambda>spec.
     let sets = List.map_filter (\<lambda>b. sn_path_sets s (b_id b)) (sn_in_flight s) in
     map_err (\<lambda>e. attribute [queue_subject queue] (Wrapped ''speculator failed for queue'' e))
       (of_sum (spec (map_values (sn_batches s)) sets)))"

definition apply_proposals ::
  "exts \<Rightarrow> int \<Rightarrow> speculation list \<Rightarrow> path_set \<times> bool \<Rightarrow> path_set \<times> bool" where
  "apply_proposals x now props st =
     foldl (\<lambda>(ps, changed) p. case apply_proposal (x_sha x) ps p now of (ps', c) \<Rightarrow> (ps', changed \<or> c)) st props"

definition dispatch_head ::
  "exts \<Rightarrow> string \<Rightarrow> snapshot \<Rightarrow> speculation list \<Rightarrow> int \<Rightarrow> batch \<Rightarrow> unit op" where
  "dispatch_head x queue s kept now b =
     (let found = sn_path_sets s (b_id b);
          ps = (case found of Some ps \<Rightarrow> ps
            | None \<Rightarrow> \<lparr>ps_queue = queue, ps_head = b_id b, ps_paths = [], ps_version = 0\<rparr>);
          by_head = filter (\<lambda>p. p_head (sp_path p) = b_id b) kept;
          (ps, changed) = apply_proposals x now by_head (ps, is_dirty s (b_id b));
          send = (if has_actionable_paths ps then
              and_then (unique_id (b_id b)) (\<lambda>msg_id.
              map_err (\<lambda>e. attribute [batch_subject (b_id b)] (Wrapped ''failed to publish batch to build'' e))
                (publish_batch_id TopicKeyBuild msg_id (b_id b) queue (b_id b)))
            else ok ())
      in if changed then
           and_then (attempt (persist ps (found \<noteq> None))) (\<lambda>r. case r of
             Inl err \<Rightarrow>
               if is_version_mismatch err then ok () else fail (attribute [batch_subject (b_id b)] err)
           | Inr _ \<Rightarrow> send)
         else send)"

definition dispatch :: "exts \<Rightarrow> string \<Rightarrow> snapshot \<Rightarrow> speculation list \<Rightarrow> unit op" where
  "dispatch x queue s kept =
     and_then get_now_ms (\<lambda>now. for_each (dispatch_head x queue s kept now) (sn_in_flight s))"

section \<open>The run and the handler\<close>

definition run :: "exts \<Rightarrow> batch \<Rightarrow> unit op" where
  "run x trigger =
     and_then (read_snapshot (b_queue trigger)) (\<lambda>s.
     and_then (admit_created (s\<lparr>sn_trigger := b_id trigger\<rparr>)) (\<lambda>s.
     and_then (finalize s) (\<lambda>s.
     if sn_speculating s = [] then dispatch x (b_queue trigger) s []
     else and_then (ask x (b_queue trigger) s) (\<lambda>proposals.
       dispatch x (b_queue trigger) s (fst (filter_proposals (x_sha x) proposals s))))))"

definition speculate_process :: "exts \<Rightarrow> topic_key \<Rightarrow> delivery \<Rightarrow> unit op" where
  "speculate_process x key dl =
     (let msg = dl_message dl in
      and_then (map_err (Wrapped ''failed to deserialize batch ID'')
        (of_sum (unmarshal_batch_id key (m_payload msg)))) (\<lambda>(bid, queue).
      and_then (map_err (Wrapped ''invalid message identity'') (of_sum (validate_payload_queue msg queue))) (\<lambda>_.
      and_then (map_err (\<lambda>e. attribute [queue_subject queue] (Wrapped ''failed to resolve storage for queue'' e))
        (storage_for queue)) (\<lambda>_.
      and_then (map_err (\<lambda>e. attribute [batch_subject bid] (Wrapped ''failed to get batch'' e)) (batch_get bid)) (\<lambda>b.
      if queue \<noteq> [] \<and> queue \<noteq> b_queue b then
        fail (attribute [batch_subject (b_id b)] (Plain ''payload queue does not match queue of batch''))
      else if batch_state_is_terminal (b_state b) then
        and_then (fanout (b_id b) (b_queue b)) (\<lambda>_. run x b)
      else
        and_then (if b_state b = BatchStateCreated then and_then (admit b) (\<lambda>_. ok ()) else ok ()) (\<lambda>_.
        and_then
          (if b_state b = BatchStateLanding
           then map_err (attribute [batch_subject (b_id b)]) (dispatch_land b) else ok ()) (\<lambda>_.
        run x b)))))))"

end
