(* ===== verification/PathSets.thy ===== *)
theory PathSets
  imports SpecRun
begin

text \<open>
  How a stored path set may change.  \<open>entry_step\<close> is the life of one entry (pending, building,
  cancelling, and a final status that stays); a set grows when its entries step in place and new
  entries are appended.  Every change a run makes in memory (observing builds, cancelling paths,
  folding in accepted proposals) is a growth of the set it read.
\<close>

section \<open>Growth\<close>

fun path_rank :: "path_status \<Rightarrow> nat" where
  "path_rank PathUnknown = 0"
| "path_rank PathPending = 1"
| "path_rank PathBuilding = 2"
| "path_rank PathCancelling = 3"
| "path_rank _ = 4"

definition entry_step :: "path_entry \<Rightarrow> path_entry \<Rightarrow> bool" where
  "entry_step e e' \<longleftrightarrow> e_id e' = e_id e \<and> e_path e' = e_path e \<and> e_attempt e' = e_attempt e \<and>
     path_rank (e_status e) \<le> path_rank (e_status e') \<and> (path_status_is_terminal (e_status e) \<longrightarrow> e' = e)"

definition paths_grow :: "path_entry list \<Rightarrow> path_entry list \<Rightarrow> bool" where
  "paths_grow es es' \<longleftrightarrow> (\<exists>old new. es' = old @ new \<and> list_all2 entry_step es old)"

definition set_fits :: "(string \<Rightarrow> string) \<Rightarrow> batch \<Rightarrow> path_set \<Rightarrow> bool" where
  "set_fits sha b ps \<longleftrightarrow> well_formed_set sha b ps \<and> distinct (map e_id (ps_paths ps))"

lemma entry_step_refl [simp]: "entry_step e e"
  by (simp add: entry_step_def)

lemma entry_step_trans: "entry_step a b \<Longrightarrow> entry_step b c \<Longrightarrow> entry_step a c"
  by (auto simp: entry_step_def)

lemma entry_steps_refl [simp]: "list_all2 entry_step es es"
  by (simp add: list.rel_refl)

lemma paths_grow_refl [simp]: "paths_grow es es"
  unfolding paths_grow_def by (rule exI [of _ es], rule exI [of _ "[]"]) simp

lemma paths_grow_steps: "list_all2 entry_step es es' \<Longrightarrow> paths_grow es es'"
  unfolding paths_grow_def by (rule exI [of _ es'], rule exI [of _ "[]"]) simp

lemma paths_grow_append: "paths_grow es (es @ new)"
  unfolding paths_grow_def by (rule exI [of _ es]) simp

lemma paths_grow_trans:
  assumes "paths_grow a b" and "paths_grow b c"
  shows "paths_grow a c"
proof -
  from assms(1) obtain o1 n1 where b: "b = o1 @ n1" "list_all2 entry_step a o1" by (auto simp: paths_grow_def)
  from assms(2) obtain o2 n2 where c: "c = o2 @ n2" "list_all2 entry_step b o2" by (auto simp: paths_grow_def)
  from b(1) c(2) obtain p q where o2: "o2 = p @ q" "list_all2 entry_step o1 p"
    by (auto simp: list_all2_append1)
  have "list_all2 entry_step a p"
    using list_all2_trans [of entry_step entry_step entry_step, OF _ b(2) o2(2)] entry_step_trans by blast
  with c(1) o2(1) show ?thesis by (auto simp: paths_grow_def)
qed

text \<open>Nothing already recorded is lost by growth.\<close>

lemma paths_grow_keeps:
  assumes "paths_grow es es'" and "e \<in> set es"
  shows "\<exists>e'\<in>set es'. entry_step e e'"
proof -
  from assms(1) obtain old new where es': "es' = old @ new" "list_all2 entry_step es old"
    by (auto simp: paths_grow_def)
  from assms(2) obtain i where "i < length es" "e = es ! i" by (auto simp: in_set_conv_nth)
  with es' have "entry_step e (old ! i) \<and> old ! i \<in> set es'" by (auto simp: list_all2_conv_all_nth)
  then show ?thesis by blast
qed

lemma paths_grow_terminal:
  "paths_grow es es' \<Longrightarrow> e \<in> set es \<Longrightarrow> path_status_is_terminal (e_status e) \<Longrightarrow> e \<in> set es'"
  using paths_grow_keeps by (fastforce simp: entry_step_def)

lemma entry_steps_same:
  "list_all2 entry_step es es' \<Longrightarrow> map e_path es' = map e_path es \<and> map e_id es' = map e_id es"
  by (induction rule: list_all2_induct) (auto simp: entry_step_def)

lemma set_fits_steps:
  assumes "set_fits sha b ps" and "list_all2 entry_step (ps_paths ps) (ps_paths ps')"
  shows "set_fits sha b ps'"
proof -
  note same = entry_steps_same [OF assms(2)]
  with well_formed_set_same_paths [of ps' ps] assms(1) show ?thesis
    unfolding set_fits_def by metis
qed

lemma set_fits_batch:
  "b_id b' = b_id b \<Longrightarrow> b_deps b' = b_deps b \<Longrightarrow> set_fits sha b' ps = set_fits sha b ps"
  by (simp add: set_fits_def well_formed_set_def is_well_formed_def)

section \<open>The changes of a run\<close>

lemma path_rank_live: "\<not> path_status_is_terminal st \<Longrightarrow> path_rank st \<le> 3"
  by (cases st) simp_all

lemma entry_step_cancelling:
  "\<not> path_status_is_terminal (e_status e) \<Longrightarrow> entry_step e (e\<lparr>e_status := PathCancelling, e_updated_at := t\<rparr>)"
  by (simp add: entry_step_def path_rank_live)

lemma mark_cancelling_steps:
  "list_all2 entry_step (ps_paths ps) (ps_paths (fst (mark_cancelling ps now keep)))"
  unfolding mark_cancelling_def
  by (auto simp: stoppable_def intro!: list_all2_all_nthI entry_step_cancelling)

lemma terminal_path_status_terminal:
  "build_status_is_terminal st \<Longrightarrow> path_status_is_terminal (terminal_path_status st)"
  by (cases st) (simp_all add: build_status_is_terminal_def)

lemma terminal_rank: "path_status_is_terminal st \<Longrightarrow> path_rank st = 4"
  by (cases st) simp_all

lemma path_rank_le [simp]: "path_rank st \<le> 4"
  by (cases st) simp_all

lemma observe_entry_step:
  assumes "observe_entry h e w = (Inr (e', c), w')"
  shows "entry_step e e' \<and> (\<not> c \<longrightarrow> e' = e)"
  using assms
  by (auto simp: observe_entry_def ok_apply fail_apply entry_step_def terminal_path_status_terminal terminal_rank
      elim!: and_then_Inr split: if_splits sum.splits)

lemma update_paths_from_builds_steps:
  assumes "update_paths_from_builds ps w = (Inr (ps', c), w')"
  shows "list_all2 entry_step (ps_paths ps) (ps_paths ps') \<and> ps_head ps' = ps_head ps \<and>
    ps_queue ps' = ps_queue ps \<and> ps_version ps' = ps_version ps"
proof -
  have step: "\<exists>es2. es' = es1 @ es2 \<and> list_all2 entry_step es es2"
    if "fold_act (observe_into h) es (es1, c1) w = (Inr (es', c'), w')" for h es es1 c1 w es' c' w'
    using that
  proof (induction es arbitrary: es1 c1 w)
    case Nil
    then show ?case by (simp add: ok_apply)
  next
    case (Cons e es)
    then obtain s2 w2 where 1: "observe_into h e (es1, c1) w = (Inr s2, w2)"
      and 2: "fold_act (observe_into h) es s2 w2 = (Inr (es', c'), w')"
      by (auto elim: and_then_Inr)
    from 1 obtain e' c2 where "entry_step e e'" and s2: "s2 = (es1 @ [e'], c2)"
      by (auto simp: observe_into_def ok_apply elim!: and_then_Inr dest!: observe_entry_step)
    with Cons.IH [OF 2 [unfolded s2]] show ?case by fastforce
  qed
  from assms obtain es c1 w1 where
    "fold_act (observe_into (ps_head ps)) (ps_paths ps) ([], False) w = (Inr (es, c1), w1)" and ps': "ps' = ps\<lparr>ps_paths := es\<rparr>"
    by (auto simp: update_paths_from_builds_def ok_apply elim!: and_then_Inr)
  from step [OF this(1)] ps' show ?thesis by simp
qed

text \<open>
  Folding an accepted proposal into the set: \<open>open_path\<close> says its path is not stored with a final
  status, which the check made sure of and earlier proposals leave so.
\<close>

definition open_path :: "string \<Rightarrow> path_set \<Rightarrow> bool" where
  "open_path pid ps \<longleftrightarrow> (\<forall>e\<in>set (ps_paths ps). e_id e = pid \<longrightarrow> \<not> path_status_is_terminal (e_status e))"

lemma fold_proposal_steps:
  "fold_proposal pid a now es = Some (es', c) \<Longrightarrow>
   \<forall>e\<in>set es. e_id e = pid \<longrightarrow> \<not> path_status_is_terminal (e_status e) \<Longrightarrow>
   list_all2 entry_step es es' \<and> (\<forall>e\<in>set es'. path_status_is_terminal (e_status e) \<longrightarrow> e \<in> set es)"
proof (induction es arbitrary: es')
  case Nil
  then show ?case by simp
next
  case (Cons e es)
  show ?case
  proof (cases "e_id e = pid")
    case True
    with Cons.prems(2) have "\<not> path_status_is_terminal (e_status e)" by simp
    with True Cons.prems(1) show ?thesis
      by (cases a) (auto simp: entry_step_cancelling split: if_splits)
  next
    case False
    with Cons show ?thesis by fastforce
  qed
qed

lemma apply_proposal_grows:
  assumes "open_path (path_id sha (sp_path p)) ps"
  shows "paths_grow (ps_paths ps) (ps_paths (fst (apply_proposal sha ps p now)))"
    and "open_path pid ps \<Longrightarrow> open_path pid (fst (apply_proposal sha ps p now))"
proof -
  have "paths_grow (ps_paths ps) (ps_paths (fst (apply_proposal sha ps p now))) \<and>
    (open_path pid ps \<longrightarrow> open_path pid (fst (apply_proposal sha ps p now)))"
  proof (cases "fold_proposal (path_id sha (sp_path p)) (sp_action p) now (ps_paths ps)")
    case None
    then show ?thesis
      by (auto simp: apply_proposal_def open_path_def new_entry_def intro: paths_grow_append)
  next
    case (Some r)
    then obtain es c where r: "fold_proposal (path_id sha (sp_path p)) (sp_action p) now (ps_paths ps) = Some (es, c)"
      by (cases r) auto
    from fold_proposal_steps [OF r] assms have steps: "list_all2 entry_step (ps_paths ps) es"
      and final: "\<forall>e\<in>set es. path_status_is_terminal (e_status e) \<longrightarrow> e \<in> set (ps_paths ps)"
      unfolding open_path_def by auto
    have "fst (apply_proposal sha ps p now) = ps\<lparr>ps_paths := es\<rparr>" using r by (simp add: apply_proposal_def)
    with steps final show ?thesis by (auto simp: open_path_def intro: paths_grow_steps)
  qed
  then show "paths_grow (ps_paths ps) (ps_paths (fst (apply_proposal sha ps p now)))"
    and "open_path pid ps \<Longrightarrow> open_path pid (fst (apply_proposal sha ps p now))"
    by auto
qed

lemma apply_proposal_header:
  "ps_head (fst (apply_proposal sha ps p now)) = ps_head ps \<and> ps_queue (fst (apply_proposal sha ps p now)) = ps_queue ps \<and>
   ps_version (fst (apply_proposal sha ps p now)) = ps_version ps"
  by (auto simp: apply_proposal_def split: option.splits prod.splits)

lemma apply_proposals_grow:
  assumes "\<forall>p\<in>set props. open_path (path_id (x_sha x) (sp_path p)) ps \<and> is_well_formed (sp_path p) b"
    and "set_fits (x_sha x) b ps" and "apply_proposals x now props (ps, c) = (ps', c')"
  shows "paths_grow (ps_paths ps) (ps_paths ps') \<and> set_fits (x_sha x) b ps' \<and> ps_head ps' = ps_head ps \<and>
    ps_queue ps' = ps_queue ps \<and> ps_version ps' = ps_version ps \<and> (\<not> c' \<longrightarrow> \<not> c)"
  using assms
proof (induction props arbitrary: ps c)
  case Nil
  then show ?case by (simp add: apply_proposals_def)
next
  case (Cons p props)
  let ?ps1 = "fst (apply_proposal (x_sha x) ps p now)"
  let ?c1 = "c \<or> snd (apply_proposal (x_sha x) ps p now)"
  have run: "apply_proposals x now props (?ps1, ?c1) = (ps', c')"
    using Cons.prems(3) by (simp add: apply_proposals_def split: prod.splits)
  have op: "open_path (path_id (x_sha x) (sp_path p)) ps" and wf: "is_well_formed (sp_path p) b" using Cons.prems(1) by auto
  have "\<forall>q\<in>set props. open_path (path_id (x_sha x) (sp_path q)) ?ps1 \<and> is_well_formed (sp_path q) b"
    using Cons.prems(1) apply_proposal_grows(2) [OF op] by auto
  moreover have "set_fits (x_sha x) b ?ps1"
    using Cons.prems(2) apply_proposal_ids apply_proposal_well_formed [OF _ wf] by (auto simp: set_fits_def)
  ultimately show ?case
    using Cons.IH [OF _ _ run] paths_grow_trans [OF apply_proposal_grows(1) [OF op]] apply_proposal_header by auto
qed

text \<open>The check leaves only proposals for paths that are still open.\<close>

lemma accepted_open:
  assumes "rejection_reason sha p s = None" and "distinct (map e_id (ps_paths ps))"
    and "sn_path_sets s (p_head (sp_path p)) = Some ps"
  shows "open_path (path_id sha (sp_path p)) ps"
proof -
  from assms(1) obtain head where head: "is_well_formed (sp_path p) head"
    and act: "\<forall>e. find_path (path_set_at s (b_id head)) (path_id sha (sp_path p)) = Some e \<longrightarrow>
        \<not> path_status_is_terminal (e_status e)"
    by (rule accepted_proposal) auto
  have "b_id head = p_head (sp_path p)" using head by (simp add: is_well_formed_iff)
  then have "path_set_at s (b_id head) = ps" using assms(3) by (simp add: path_set_at_def)
  with act find_path_unique [OF assms(2)] show ?thesis by (force simp: open_path_def)
qed

end
