(* ===== verification/Lifecycle.thy ===== *)
theory Lifecycle
  imports PathSets
begin

text \<open>
  The life of a batch as a contract between the processes that share a queue's database.
  \<open>batch_edge\<close> is the state graph of \<open>submitqueue/entity/batch.go\<close> with the writes of every
  controller; \<open>evolves sha\<close> says of two databases that every batch row only moved along it, with its
  version going up and its identity and content fixed.  \<open>evolves sha\<close> is both what a handler may rely on
  from the others and what it must guarantee.
\<close>

section \<open>The state graph\<close>

definition batch_edge :: "batch_state \<Rightarrow> batch_state \<Rightarrow> bool" where
  "batch_edge s t \<longleftrightarrow> (case t of
     BatchStateCreated \<Rightarrow> s = BatchStateCreating
   | BatchStateSpeculating \<Rightarrow> s = BatchStateCreated
   | BatchStateCancelling \<Rightarrow> s = BatchStateCreated \<or> s = BatchStateSpeculating
   | BatchStateLanding \<Rightarrow> s = BatchStateSpeculating
   | BatchStateCancelled \<Rightarrow> s = BatchStateCancelling
   | BatchStateSucceeded \<Rightarrow> \<not> batch_state_is_terminal s \<and> s \<noteq> BatchStateCancelling
   | BatchStateFailed \<Rightarrow> \<not> batch_state_is_terminal s
   | _ \<Rightarrow> False)"

fun state_rank :: "batch_state \<Rightarrow> nat" where
  "state_rank BatchStateUnknown = 0"
| "state_rank BatchStateCreating = 1"
| "state_rank BatchStateCreated = 2"
| "state_rank BatchStateSpeculating = 3"
| "state_rank BatchStateLanding = 4"
| "state_rank BatchStateCancelling = 4"
| "state_rank _ = 5"

lemma batch_edge_rank: "batch_edge s t \<Longrightarrow> state_rank s < state_rank t"
  by (cases s; cases t) (simp_all add: batch_edge_def)

lemma batch_edge_not_terminal: "batch_edge s t \<Longrightarrow> \<not> batch_state_is_terminal s"
  by (cases s; cases t) (simp_all add: batch_edge_def)

lemma batch_path_rank: "batch_edge\<^sup>+\<^sup>+ s t \<Longrightarrow> state_rank s < state_rank t"
  by (induction rule: tranclp_induct) (auto dest: batch_edge_rank)

lemma batch_path_not_terminal: "batch_edge\<^sup>+\<^sup>+ s t \<Longrightarrow> \<not> batch_state_is_terminal s"
  by (induction rule: tranclp_induct) (auto dest: batch_edge_not_terminal)

lemma batch_path_not_creating: "batch_edge\<^sup>+\<^sup>+ s t \<Longrightarrow> t \<noteq> BatchStateCreating"
  by (induction rule: tranclp_induct) (auto simp: batch_edge_def)

section \<open>The evolution of a queue's batches\<close>

definition evolved :: "batch \<Rightarrow> batch \<Rightarrow> bool" where
  "evolved b b' \<longleftrightarrow> b' = b \<or>
     b_id b' = b_id b \<and> b_queue b' = b_queue b \<and> b_contains b' = b_contains b \<and>
     (b_state b = BatchStateCreating \<or> b_deps b' = b_deps b) \<and>
     b_version b < b_version b' \<and> batch_edge\<^sup>+\<^sup>+ (b_state b) (b_state b')"

definition batches_evolve :: "db \<Rightarrow> db \<Rightarrow> bool" where
  "batches_evolve d d' \<longleftrightarrow> (\<forall>i. case d_batches d i of
     Some b \<Rightarrow> (\<exists>b'. d_batches d' i = Some b' \<and> evolved b b')
   | None \<Rightarrow> (\<forall>b'. d_batches d' i = Some b' \<longrightarrow> b_id b' = i))"

definition keyed :: "db \<Rightarrow> bool" where
  "keyed d \<longleftrightarrow> (\<forall>i b. d_batches d i = Some b \<longrightarrow> b_id b = i)"

text \<open>\<open>known b d\<close>: \<open>b\<close> is a value the row of its batch has or had.\<close>

definition known :: "batch \<Rightarrow> db \<Rightarrow> bool" where
  "known b d \<longleftrightarrow> (\<exists>b'. d_batches d (b_id b) = Some b' \<and> evolved b b')"

lemma evolved_refl [simp]: "evolved b b"
  by (simp add: evolved_def)

lemma evolved_trans: "evolved a b \<Longrightarrow> evolved b c \<Longrightarrow> evolved a c"
proof -
  assume ab: "evolved a b" and bc: "evolved b c"
  show ?thesis
  proof (cases "a = b \<or> b = c")
    case True
    with ab bc show ?thesis by auto
  next
    case False
    with ab bc have path: "batch_edge\<^sup>+\<^sup>+ (b_state a) (b_state b)" "batch_edge\<^sup>+\<^sup>+ (b_state b) (b_state c)"
      by (auto simp: evolved_def)
    have "b_state b \<noteq> BatchStateCreating" by (rule batch_path_not_creating [OF path(1)])
    with False ab bc path show ?thesis by (auto simp: evolved_def)
  qed
qed

lemma evolved_version: "evolved b b' \<Longrightarrow> b_version b \<le> b_version b'"
  by (auto simp: evolved_def)

lemma evolved_same_version: "evolved b b' \<Longrightarrow> b_version b' = b_version b \<Longrightarrow> b' = b"
  by (auto simp: evolved_def)

lemma evolved_id: "evolved b b' \<Longrightarrow> b_id b' = b_id b"
  by (auto simp: evolved_def)

lemma evolved_terminal: "evolved b b' \<Longrightarrow> batch_state_is_terminal (b_state b) \<Longrightarrow> b' = b"
  by (auto simp: evolved_def dest: batch_path_not_terminal)

lemma batches_evolve_same: "d_batches d' = d_batches d \<Longrightarrow> batches_evolve d d'"
  by (auto simp: batches_evolve_def split: option.splits)

lemma batches_evolve_Some:
  "batches_evolve d d' \<Longrightarrow> d_batches d i = Some b \<Longrightarrow> \<exists>b'. d_batches d' i = Some b' \<and> evolved b b'"
  unfolding batches_evolve_def by (auto dest: spec [of _ i])

lemma batches_evolve_None:
  "batches_evolve d d' \<Longrightarrow> d_batches d i = None \<Longrightarrow> d_batches d' i = Some b' \<Longrightarrow> b_id b' = i"
  unfolding batches_evolve_def by (auto dest: spec [of _ i])

lemma batches_evolve_trans: "batches_evolve d d' \<Longrightarrow> batches_evolve d' d'' \<Longrightarrow> batches_evolve d d''"
  unfolding batches_evolve_def [of d d'']
proof
  fix i assume 1: "batches_evolve d d'" and 2: "batches_evolve d' d''"
  show "case d_batches d i of Some b \<Rightarrow> \<exists>b'. d_batches d'' i = Some b' \<and> evolved b b'
      | None \<Rightarrow> \<forall>b'. d_batches d'' i = Some b' \<longrightarrow> b_id b' = i"
  proof (cases "d_batches d i")
    case None
    show ?thesis
    proof (cases "d_batches d' i")
      case None
      with \<open>d_batches d i = None\<close> batches_evolve_None [OF 2] show ?thesis by auto
    next
      case (Some b)
      with batches_evolve_None [OF 1 \<open>d_batches d i = None\<close>] batches_evolve_Some [OF 2 Some] None show ?thesis
        by (auto dest: evolved_id)
    qed
  next
    case (Some b)
    with batches_evolve_Some [OF 1 Some] batches_evolve_Some [OF 2] show ?thesis by (fastforce intro: evolved_trans)
  qed
qed

section \<open>The evolution of its path sets\<close>

definition set_step :: "path_set \<Rightarrow> path_set \<Rightarrow> bool" where
  "set_step ps ps' \<longleftrightarrow> ps' = ps \<or>
     ps_head ps' = ps_head ps \<and> ps_version ps < ps_version ps' \<and> paths_grow (ps_paths ps) (ps_paths ps')"

definition sets_evolve :: "db \<Rightarrow> db \<Rightarrow> bool" where
  "sets_evolve d d' \<longleftrightarrow> (\<forall>h ps. d_path_sets d h = Some ps \<longrightarrow> (\<exists>ps'. d_path_sets d' h = Some ps' \<and> set_step ps ps'))"

text \<open>Every stored set is about a batch past its creation, and its paths are guesses about that batch.\<close>

definition sets_ok :: "(string \<Rightarrow> string) \<Rightarrow> db \<Rightarrow> bool" where
  "sets_ok sha d \<longleftrightarrow> (\<forall>h ps. d_path_sets d h = Some ps \<longrightarrow> ps_head ps = h \<and>
     (\<exists>b. d_batches d h = Some b \<and> b_state b \<noteq> BatchStateCreating \<and> set_fits sha b ps))"

section \<open>The evolution of the requests, and the records that are written once\<close>

text \<open>
  A request never leaves a terminal state, and once it is being cancelled only a terminal state can
  follow.  Between the other states the code takes no care of the order.
\<close>

definition request_edge :: "request_state \<Rightarrow> request_state \<Rightarrow> bool" where
  "request_edge s t \<longleftrightarrow> \<not> is_request_state_terminal s \<and>
     (is_request_state_terminal t \<or>
      s \<noteq> RequestStateCancelling \<and> t \<in> {RequestStateValidated, RequestStateBatched, RequestStateCancelling})"

definition request_evolved :: "request \<Rightarrow> request \<Rightarrow> bool" where
  "request_evolved r r' \<longleftrightarrow> r' = r \<or>
     r_id r' = r_id r \<and> r_queue r' = r_queue r \<and> r_uris r' = r_uris r \<and>
     r_land_strategy r' = r_land_strategy r \<and> r_version r < r_version r' \<and>
     request_edge (r_state r) (r_state r')"

definition requests_evolve :: "db \<Rightarrow> db \<Rightarrow> bool" where
  "requests_evolve d d' \<longleftrightarrow> (\<forall>i. case d_requests d i of
     Some r \<Rightarrow> (\<exists>r'. d_requests d' i = Some r' \<and> request_evolved r r')
   | None \<Rightarrow> (\<forall>r'. d_requests d' i = Some r' \<longrightarrow> r_id r' = i))"

definition requests_keyed :: "db \<Rightarrow> bool" where
  "requests_keyed d \<longleftrightarrow> (\<forall>i r. d_requests d i = Some r \<longrightarrow> r_id r = i)"

definition known_request :: "request \<Rightarrow> db \<Rightarrow> bool" where
  "known_request r d \<longleftrightarrow> (\<exists>r'. d_requests d (r_id r) = Some r' \<and> request_evolved r r')"

text \<open>The build of a path attempt and the association of a request with a batch are never rewritten.\<close>

definition links_grow :: "db \<Rightarrow> db \<Rightarrow> bool" where
  "links_grow d d' \<longleftrightarrow> d_path_builds d \<subseteq>\<^sub>m d_path_builds d' \<and>
     set (d_request_batches d) \<subseteq> set (d_request_batches d')"

definition evolves :: "(string \<Rightarrow> string) \<Rightarrow> db \<Rightarrow> db \<Rightarrow> bool" where
  "evolves sha d d' \<longleftrightarrow> batches_evolve d d' \<and> sets_evolve d d' \<and> requests_evolve d d' \<and> links_grow d d' \<and>
     (sets_ok sha d \<longrightarrow> sets_ok sha d')"

definition consistent :: "(string \<Rightarrow> string) \<Rightarrow> db \<Rightarrow> bool" where
  "consistent sha d \<longleftrightarrow> keyed d \<and> requests_keyed d \<and> sets_ok sha d"

text \<open>\<open>same_rows\<close>: nothing this contract speaks of has changed.\<close>

definition same_rows :: "db \<Rightarrow> db \<Rightarrow> bool" where
  "same_rows d d' \<longleftrightarrow> d_batches d' = d_batches d \<and> d_path_sets d' = d_path_sets d \<and>
     d_requests d' = d_requests d \<and> links_grow d d'"

lemma request_edge_trans: "request_edge s t \<Longrightarrow> request_edge t u \<Longrightarrow> request_edge s u"
  by (auto simp: request_edge_def state_defs)

lemma request_evolved_refl [simp]: "request_evolved r r"
  by (simp add: request_evolved_def)

lemma request_evolved_trans: "request_evolved a b \<Longrightarrow> request_evolved b c \<Longrightarrow> request_evolved a c"
  by (auto simp: request_evolved_def dest: request_edge_trans)

lemma request_evolved_id: "request_evolved r r' \<Longrightarrow> r_id r' = r_id r"
  by (auto simp: request_evolved_def)

lemma request_evolved_same_version: "request_evolved r r' \<Longrightarrow> r_version r' = r_version r \<Longrightarrow> r' = r"
  by (auto simp: request_evolved_def)

lemma request_evolved_terminal:
  "request_evolved r r' \<Longrightarrow> is_request_state_terminal (r_state r) \<Longrightarrow> r' = r"
  by (auto simp: request_evolved_def request_edge_def)

lemma requests_evolve_same: "d_requests d' = d_requests d \<Longrightarrow> requests_evolve d d'"
  by (auto simp: requests_evolve_def split: option.splits)

lemma requests_evolve_Some:
  "requests_evolve d d' \<Longrightarrow> d_requests d i = Some r \<Longrightarrow> \<exists>r'. d_requests d' i = Some r' \<and> request_evolved r r'"
  unfolding requests_evolve_def by (auto dest: spec [of _ i])

lemma requests_evolve_None:
  "requests_evolve d d' \<Longrightarrow> d_requests d i = None \<Longrightarrow> d_requests d' i = Some r' \<Longrightarrow> r_id r' = i"
  unfolding requests_evolve_def by (auto dest: spec [of _ i])

lemma requests_evolve_trans: "requests_evolve d d' \<Longrightarrow> requests_evolve d' d'' \<Longrightarrow> requests_evolve d d''"
  unfolding requests_evolve_def [of d d'']
proof
  fix i assume 1: "requests_evolve d d'" and 2: "requests_evolve d' d''"
  show "case d_requests d i of Some r \<Rightarrow> \<exists>r'. d_requests d'' i = Some r' \<and> request_evolved r r'
      | None \<Rightarrow> \<forall>r'. d_requests d'' i = Some r' \<longrightarrow> r_id r' = i"
  proof (cases "d_requests d i")
    case None
    show ?thesis
    proof (cases "d_requests d' i")
      case None
      with \<open>d_requests d i = None\<close> requests_evolve_None [OF 2] show ?thesis by auto
    next
      case (Some r)
      with requests_evolve_None [OF 1 \<open>d_requests d i = None\<close>] requests_evolve_Some [OF 2 Some] None show ?thesis
        by (auto dest: request_evolved_id)
    qed
  next
    case (Some r)
    with requests_evolve_Some [OF 1 Some] requests_evolve_Some [OF 2] show ?thesis
      by (fastforce intro: request_evolved_trans)
  qed
qed

lemma links_grow_refl [simp]: "links_grow d d"
  by (simp add: links_grow_def)

lemma links_grow_same:
  "d_path_builds d' = d_path_builds d \<Longrightarrow> d_request_batches d' = d_request_batches d \<Longrightarrow> links_grow d d'"
  by (simp add: links_grow_def)

lemma links_grow_trans: "links_grow d d' \<Longrightarrow> links_grow d' d'' \<Longrightarrow> links_grow d d''"
  unfolding links_grow_def by (blast intro: map_le_trans)

lemma set_step_refl [simp]: "set_step ps ps"
  by (simp add: set_step_def)

lemma set_step_trans: "set_step a b \<Longrightarrow> set_step b c \<Longrightarrow> set_step a c"
  by (auto simp: set_step_def intro: paths_grow_trans)

lemma set_step_grow: "set_step ps ps' \<Longrightarrow> paths_grow (ps_paths ps) (ps_paths ps')"
  by (auto simp: set_step_def)

lemma set_step_same_version: "set_step ps ps' \<Longrightarrow> ps_version ps' = ps_version ps \<Longrightarrow> ps' = ps"
  by (auto simp: set_step_def)

lemma evolved_not_creating:
  "evolved b b' \<Longrightarrow> b_state b \<noteq> BatchStateCreating \<Longrightarrow>
   b_state b' \<noteq> BatchStateCreating \<and> b_deps b' = b_deps b \<and> b_id b' = b_id b"
  by (auto simp: evolved_def dest: batch_path_not_creating)

lemma sets_evolve_trans: "sets_evolve d d' \<Longrightarrow> sets_evolve d' d'' \<Longrightarrow> sets_evolve d d''"
  unfolding sets_evolve_def using set_step_trans by metis

lemma sets_ok_batches:
  assumes "batches_evolve d d'" and "d_path_sets d' = d_path_sets d" and "sets_ok sha d"
  shows "sets_ok sha d'"
  unfolding sets_ok_def
proof (intro allI impI)
  fix h ps assume "d_path_sets d' h = Some ps"
  with assms(2,3) obtain b where b: "ps_head ps = h" "d_batches d h = Some b" "b_state b \<noteq> BatchStateCreating" "set_fits sha b ps"
    by (auto simp: sets_ok_def)
  from batches_evolve_Some [OF assms(1) b(2)] obtain b' where "d_batches d' h = Some b'" "evolved b b'" by blast
  with b evolved_not_creating set_fits_batch [of b' b] show "ps_head ps = h \<and>
      (\<exists>b. d_batches d' h = Some b \<and> b_state b \<noteq> BatchStateCreating \<and> set_fits sha b ps)" by auto
qed

lemma evolves_batches:
  "batches_evolve d d' \<Longrightarrow> d_path_sets d' = d_path_sets d \<Longrightarrow> d_requests d' = d_requests d \<Longrightarrow> links_grow d d' \<Longrightarrow>
   evolves sha d d'"
  by (auto simp: evolves_def sets_evolve_def intro: sets_ok_batches requests_evolve_same)

lemma evolves_same: "same_rows d d' \<Longrightarrow> evolves sha d d'"
  by (auto simp: same_rows_def intro: evolves_batches batches_evolve_same)

lemma evolves_requests:
  "requests_evolve d d' \<Longrightarrow> d_batches d' = d_batches d \<Longrightarrow> d_path_sets d' = d_path_sets d \<Longrightarrow> links_grow d d' \<Longrightarrow>
   evolves sha d d'"
  by (auto simp: evolves_def sets_evolve_def sets_ok_def intro: batches_evolve_same)

lemma same_rows_refl [simp]: "same_rows d d"
  by (simp add: same_rows_def)

lemma evolves_transitive: "evolves sha d d' \<Longrightarrow> evolves sha d' d'' \<Longrightarrow> evolves sha d d''"
  by (auto simp: evolves_def intro: batches_evolve_trans sets_evolve_trans
      requests_evolve_trans links_grow_trans)

lemma evolves_Some:
  "evolves sha d d' \<Longrightarrow> d_batches d i = Some b \<Longrightarrow> \<exists>b'. d_batches d' i = Some b' \<and> evolved b b'"
  by (auto simp: evolves_def dest: batches_evolve_Some)

lemma evolves_None:
  "evolves sha d d' \<Longrightarrow> d_batches d i = None \<Longrightarrow> d_batches d' i = Some b' \<Longrightarrow> b_id b' = i"
  by (auto simp: evolves_def dest: batches_evolve_None)

lemma evolves_set:
  "evolves sha d d' \<Longrightarrow> d_path_sets d h = Some ps \<Longrightarrow> \<exists>ps'. d_path_sets d' h = Some ps' \<and> set_step ps ps'"
  by (auto simp: evolves_def sets_evolve_def)

lemma evolves_request:
  "evolves sha d d' \<Longrightarrow> d_requests d i = Some r \<Longrightarrow> \<exists>r'. d_requests d' i = Some r' \<and> request_evolved r r'"
  by (auto simp: evolves_def dest: requests_evolve_Some)

lemma evolves_no_request:
  "evolves sha d d' \<Longrightarrow> d_requests d i = None \<Longrightarrow> d_requests d' i = Some r' \<Longrightarrow> r_id r' = i"
  by (auto simp: evolves_def dest: requests_evolve_None)

lemma stable_sets_ok [stable_intros]: "stable (evolves sha) (sets_ok sha)"
  by (auto simp: stable_def evolves_def)

lemma stable_known [stable_intros]: "stable (evolves sha) (known b)"
  unfolding stable_def known_def using evolves_Some evolved_trans by metis

lemma stable_keyed [stable_intros]: "stable (evolves sha) keyed"
  unfolding stable_def keyed_def
proof (intro allI impI)
  fix d d' i b'
  assume keyed: "\<forall>i b. d_batches d i = Some b \<longrightarrow> b_id b = i" and step: "evolves sha d d'" and row: "d_batches d' i = Some b'"
  show "b_id b' = i"
  proof (cases "d_batches d i")
    case None
    from evolves_None [OF step this row] show ?thesis .
  next
    case (Some b)
    from evolves_Some [OF step Some] row have "evolved b b'" by auto
    with keyed Some show ?thesis by (auto dest: evolved_id)
  qed
qed

lemma stable_known_request [stable_intros]: "stable (evolves sha) (known_request r)"
  unfolding stable_def known_request_def using evolves_request request_evolved_trans by metis

lemma stable_requests_keyed [stable_intros]: "stable (evolves sha) requests_keyed"
  unfolding stable_def requests_keyed_def
proof (intro allI impI)
  fix d d' i r'
  assume keyed: "\<forall>i r. d_requests d i = Some r \<longrightarrow> r_id r = i" and step: "evolves sha d d'" and row: "d_requests d' i = Some r'"
  show "r_id r' = i"
  proof (cases "d_requests d i")
    case None
    from evolves_no_request [OF step this row] show ?thesis .
  next
    case (Some r)
    from evolves_request [OF step Some] row have "request_evolved r r'" by auto
    with keyed Some show ?thesis by (auto dest: request_evolved_id)
  qed
qed

lemma stable_consistent [stable_intros]: "stable (evolves sha) (consistent sha)"
  unfolding consistent_def by (intro stable_intros)

interpretation lifecycle: evolution "consistent sha" "evolves sha" for sha
  by unfold_locales (auto intro: evolves_same evolves_transitive dest: stableD [OF stable_consistent])

text \<open>
  The triples of the pipeline, and the interference they allow: on a consistent database the other
  processes only make lawful changes.
\<close>

abbreviation rg :: "(string \<Rightarrow> string) \<Rightarrow> (db \<Rightarrow> bool) \<Rightarrow> 'a op \<Rightarrow> ('a \<Rightarrow> db \<Rightarrow> bool) \<Rightarrow> bool" where
  "rg sha \<equiv> triple (consistent sha) (evolves sha)"

abbreviation lawful_script :: "(string \<Rightarrow> string) \<Rightarrow> world \<Rightarrow> bool" where
  "lawful_script sha \<equiv> abides (consistent sha) (evolves sha)"

text \<open>A terminal batch stays what it is under any lawful change, and so does a terminal request.\<close>

lemma evolves_terminal:
  "evolves sha d d' \<Longrightarrow> d_batches d i = Some b \<Longrightarrow> batch_state_is_terminal (b_state b) \<Longrightarrow> d_batches d' i = Some b"
  using evolves_Some evolved_terminal by metis

lemma evolves_request_terminal:
  "evolves sha d d' \<Longrightarrow> d_requests d i = Some r \<Longrightarrow> is_request_state_terminal (r_state r) \<Longrightarrow> d_requests d' i = Some r"
  using evolves_request request_evolved_terminal by metis

section \<open>Steps that leave the batches alone\<close>

text \<open>A stable fact is kept by every step; these rules carry it through a handler's code.\<close>

lemma keep_bind [rg_intros]:
  "rg sha P m (\<lambda>_. P) \<Longrightarrow> (\<And>x. rg sha P (f x) (\<lambda>_. P)) \<Longrightarrow>
   rg sha P (and_then m f) (\<lambda>_. P)"
  by (rule lifecycle.triple_bind)

lemma keep_attempt [rg_intros]:
  "rg sha P m (\<lambda>_. P) \<Longrightarrow> stable (evolves sha) P \<Longrightarrow> rg sha P (attempt m) (\<lambda>_. P)"
  by (drule (1) lifecycle.triple_attempt) (erule lifecycle.triple_conseq; simp)

lemma keep_ok [rg_intros]: "rg sha P (ok x) (\<lambda>_. P)"
  by (rule lifecycle.triple_ok)

lemma keep_of_sum [rg_intros]: "rg sha P (of_sum r) (\<lambda>_. P)"
  by (rule lifecycle.triple_of_sum)

lemma keep_now [rg_intros]: "rg sha P get_now_ms (\<lambda>_. P)"
  by (rule triple_get_now [OF lifecycle.evolves_refl])

lemma keep_for_each [rg_intros]:
  "(\<And>x. rg sha P (body x) (\<lambda>_. P)) \<Longrightarrow> rg sha P (for_each body xs) (\<lambda>_. P)"
  by (rule lifecycle.triple_for_each)

lemma keep_fold_act [rg_intros]:
  "(\<And>x s. rg sha P (body x s) (\<lambda>_. P)) \<Longrightarrow> rg sha P (fold_act body xs s) (\<lambda>_. P)"
  by (rule lifecycle.triple_fold_act [where P = "\<lambda>_. P"])

lemmas keep_structural [rg_intros] =
  lifecycle.triple_fail lifecycle.triple_map_err lifecycle.triple_if lifecycle.triple_case_sum
  lifecycle.triple_case_option lifecycle.triple_case_prod

lemma keep_unique_id [rg_intros]: "rg sha P (unique_id i) (\<lambda>_. P)"
  by (auto simp: triple_def unique_id_def Let_def abides_def intro: evolves_same)

lemma keep_db_op:
  "stable (evolves sha) P \<Longrightarrow> (\<And>d. same_rows d (snd (f d))) \<Longrightarrow> rg sha P (db_op f) (\<lambda>_. P)"
  by (rule lifecycle.triple_db_op) (blast intro: evolves_same stableD)+

lemma triple_require_queue [rg_intros]:
  "rg sha P m Q \<Longrightarrow> rg sha P (require_queue what q m) Q"
  unfolding triple_def require_queue_apply by (auto simp: act_simps evolves_same split: if_splits)

lemma message_row_insert_rows [simp]:
  "d_batches (snd (message_row_insert m d)) = d_batches d"
  "d_path_sets (snd (message_row_insert m d)) = d_path_sets d"
  "d_requests (snd (message_row_insert m d)) = d_requests d"
  "d_path_builds (snd (message_row_insert m d)) = d_path_builds d"
  "d_request_batches (snd (message_row_insert m d)) = d_request_batches d"
  using message_row_insert_only [of d m] by (auto simp: only_messages_def)

lemma links_grow_writes [simp]:
  "links_grow d (snd (path_build_row_create pb d))"
  "links_grow d (snd (request_batch_row_create a d))"
  by (auto simp: links_grow_def all_row_defs map_le_def split: option.splits)

lemmas other_store_defs =
  request_get_def request_batch_create_def get_by_request_id_def
  batch_get_def dependent_get_def dependent_create_def dependent_update_def state_list_def state_put_def state_delete_def
  path_set_get_def build_get_def build_create_def build_update_def
  path_build_get_def path_build_create_def counter_next_def change_create_def change_get_by_uri_def

lemma keep_stores [rg_intros]:
  assumes "stable (evolves sha) P"
  shows "rg sha P (request_get i) (\<lambda>_. P)"
    and "rg sha P (request_batch_create a) (\<lambda>_. P)"
    and "rg sha P (get_by_request_id i) (\<lambda>_. P)"
    and "rg sha P (batch_get i) (\<lambda>_. P)"
    and "rg sha P (dependent_get i) (\<lambda>_. P)"
    and "rg sha P (dependent_create bd) (\<lambda>_. P)"
    and "rg sha P (dependent_update bd v v') (\<lambda>_. P)"
    and keep_state_list: "rg sha P (state_list st) (\<lambda>_. P)"
    and "rg sha P (state_put rec) (\<lambda>_. P)"
    and "rg sha P (state_delete st i) (\<lambda>_. P)"
    and "rg sha P (path_set_get i) (\<lambda>_. P)"
    and "rg sha P (build_get i) (\<lambda>_. P)"
    and "rg sha P (build_create bl) (\<lambda>_. P)"
    and "rg sha P (build_update bl) (\<lambda>_. P)"
    and "rg sha P (path_build_get i n) (\<lambda>_. P)"
    and "rg sha P (path_build_create pb) (\<lambda>_. P)"
    and "rg sha P (counter_next i) (\<lambda>_. P)"
    and "rg sha P (change_create c) (\<lambda>_. P)"
    and "rg sha P (change_get_by_uri u) (\<lambda>_. P)"
  unfolding other_store_defs
  by (intro triple_require_queue keep_db_op assms; simp add: same_rows_def links_grow_same Let_def split: option.split)+

lemma keep_storage_for [rg_intros]: "rg sha P (storage_for q) (\<lambda>_. P)"
  by (auto simp: triple_def storage_for_def act_simps evolves_same split: if_splits)

section \<open>Publishing keeps\<close>

lemma keep_publisher [rg_intros]: "stable (evolves sha) P \<Longrightarrow> rg sha P (publisher_publish m) (\<lambda>_. P)"
  unfolding publisher_publish_def by (intro rg_intros keep_db_op; simp add: same_rows_def links_grow_same)

lemma keep_publish_message [rg_intros]:
  assumes "stable (evolves sha) P"
  shows "rg sha P (publish_message key p) (\<lambda>_. P)"
  unfolding triple_def
proof (intro allI impI)
  fix w r w'
  assume w: "lawful_script sha w" "consistent sha (w_db w)" "P (w_db w)" and run: "publish_message key p w = (r, w')"
  then consider (failed) e where "r = Inl e" "w' = w" | (sent) m where "publisher_publish m w = (r, w')"
    by (auto simp: publish_message_def act_simps split: if_splits option.splits)
  then show "lawful_script sha w' \<and> evolves sha (w_db w) (w_db w') \<and> (\<forall>x. r = Inr x \<longrightarrow> P (w_db w'))"
  proof cases
    case failed
    with w show ?thesis by (auto intro: evolves_same)
  next
    case (sent m)
    with w keep_publisher [OF assms, of m] show ?thesis unfolding triple_def by blast
  qed
qed

lemma keep_publish_log [rg_intros]: "stable (evolves sha) P \<Longrightarrow> rg sha P (publish_log l k occ) (\<lambda>_. P)"
  unfolding publish_log_def Let_def by (intro rg_intros)

lemma keep_publish_batch_logs [rg_intros]:
  "stable (evolves sha) P \<Longrightarrow> rg sha P (publish_batch_logs q is st occ meta) (\<lambda>_. P)"
  unfolding publish_batch_logs_def by (intro rg_intros)

lemma keep_publish_batch_events [rg_intros]:
  "stable (evolves sha) P \<Longrightarrow> rg sha P (publish_batch_events q is ev occ meta) (\<lambda>_. P)"
  unfolding publish_batch_events_def by (intro rg_intros)

lemma keep_ensure_record [rg_intros]: "stable (evolves sha) P \<Longrightarrow> rg sha P (ensure_record b) (\<lambda>_. P)"
  unfolding ensure_record_def by (intro rg_intros)

section \<open>Reading and writing requests\<close>

lemma triple_request_get:
  assumes "stable (evolves sha) P" and "\<And>d. P d \<Longrightarrow> requests_keyed d"
  shows "rg sha P (request_get i) (\<lambda>r d. P d \<and> known_request r d \<and> r_id r = i)"
  unfolding request_get_def
  by (rule lifecycle.triple_db_read [OF assms(1)]) (use assms(2) in \<open>auto simp: known_request_def requests_keyed_def\<close>)

lemma request_row_update_evolves:
  assumes "known_request r0 d" and "r_id r = r_id r0" and "r_version r0 = v" and "v < v'"
    and "request_evolved r0 (r\<lparr>r_version := v'\<rparr>)"
  shows "evolves sha d (snd (request_row_update r v v' d))"
proof -
  have neq: "v \<noteq> v'" using assms(4) by simp
  show ?thesis
  proof (cases rule: request_table.update_cases [OF neq, of d r])
    case (1 s)
    with assms(1,2,3) have s: "s = r0" by (auto simp: known_request_def dest: request_evolved_same_version)
    have "requests_evolve d (snd (request_row_update r v v' d))"
      unfolding requests_evolve_def 1(4) using 1(1) s assms(5) by (auto split: option.splits)
    then show ?thesis by (rule evolves_requests) (simp_all add: links_grow_same)
  next
    case (2 e)
    then show ?thesis by (auto intro: evolves_same)
  qed
qed

lemma triple_request_update:
  assumes "stable (evolves sha) P" and "\<And>d. P d \<Longrightarrow> known_request r0 d" and "r_id r = r_id r0" and "r_version r0 = v" and "v < v'"
    and "request_evolved r0 (r\<lparr>r_version := v'\<rparr>)"
  shows "rg sha P (request_update r v v') (\<lambda>_. P)"
  unfolding request_update_def
proof (rule triple_require_queue, rule lifecycle.triple_db_op)
  fix d assume P: "P d"
  from assms(2) [OF this] show step: "evolves sha d (snd (request_row_update r v v' d))"
    using assms(3-6) by (rule request_row_update_evolves)
  show "P (snd (request_row_update r v v' d))" by (rule stableD [OF assms(1) P step])
qed (rule assms(1))

text \<open>The update every controller makes: the state of a request it read, moved along an edge.\<close>

lemma triple_request_move:
  assumes "stable (evolves sha) P" and "\<And>d. P d \<Longrightarrow> known_request r d" and "request_edge (r_state r) st"
  shows "rg sha P (request_update (r\<lparr>r_state := st\<rparr>) (r_version r) (r_version r + 1)) (\<lambda>_. P)"
  by (rule triple_request_update [OF assms(1,2)]) (use assms(3) in \<open>simp_all add: request_evolved_def\<close>)

lemma triple_request_create [rg_intros]:
  assumes "stable (evolves sha) P"
  shows "rg sha P (request_create r) (\<lambda>_. P)"
  unfolding request_create_def
proof (rule triple_require_queue, rule lifecycle.triple_db_op)
  fix d assume P: "P d"
  show step: "evolves sha d (snd (request_row_create r d))"
  proof (cases rule: request_table.create_cases [of d r])
    case new
    then have "requests_evolve d (snd (request_row_create r d))"
      unfolding requests_evolve_def by (auto split: option.splits)
    then show ?thesis by (rule evolves_requests) (simp_all add: links_grow_same)
  next
    case (taken s e)
    then show ?thesis by (auto intro: evolves_same)
  qed
  show "P (snd (request_row_create r d))" by (rule stableD [OF assms P step])
qed (rule assms)

lemma triple_batch_create [rg_intros]:
  assumes "stable (evolves sha) P"
  shows "rg sha P (batch_create b) (\<lambda>_. P)"
  unfolding batch_create_def
proof (rule triple_require_queue, rule lifecycle.triple_db_op)
  fix d assume P: "P d"
  show step: "evolves sha d (snd (batch_row_create b d))"
  proof (cases rule: batch_table.create_cases [of d b])
    case new
    then have "batches_evolve d (snd (batch_row_create b d))"
      unfolding batches_evolve_def by (auto split: option.splits)
    then show ?thesis by (rule evolves_batches) (simp_all add: links_grow_same)
  next
    case (taken s e)
    then show ?thesis by (auto intro: evolves_same)
  qed
  show "P (snd (batch_row_create b d))" by (rule stableD [OF assms P step])
qed (rule assms)

lemma keep_terminate_publish [rg_intros]:
  "stable (evolves sha) P \<Longrightarrow> rg sha P (terminate_publish r i st v err meta res) (\<lambda>_. P)"
  unfolding terminate_publish_def by (intro rg_intros)

lemma triple_terminate_read:
  assumes "stable (evolves sha) P" and "is_request_state_terminal st"
  shows "rg sha (\<lambda>d. P d \<and> known_request r d) (terminate_read i st status err meta r) (\<lambda>_. P)"
proof -
  have known: "stable (evolves sha) (\<lambda>d. P d \<and> known_request r d)" by (intro stable_intros assms(1))
  have upd: "rg sha (\<lambda>d. P d \<and> known_request r d)
      (request_update (r\<lparr>r_state := st\<rparr>) (r_version r) (r_version r + 1)) (\<lambda>_ d. P d \<and> known_request r d)"
    if "\<not> is_request_state_terminal (r_state r)"
    by (rule triple_request_move [OF known]) (use that assms(2) in \<open>auto simp: request_edge_def\<close>)
  have "rg sha (\<lambda>d. P d \<and> known_request r d) (terminate_read i st status err meta r)
      (\<lambda>_ d. P d \<and> known_request r d)"
    unfolding terminate_read_def Let_def by (intro rg_intros known) (use upd in simp)
  then show ?thesis by (rule lifecycle.triple_conseq) auto
qed

lemma triple_terminate_request [rg_intros]:
  assumes "stable (evolves sha) P" and "\<And>d. P d \<Longrightarrow> requests_keyed d"
  shows "rg sha P (terminate_request i st err meta) (\<lambda>_. P)"
  unfolding terminate_request_def
proof (rule lifecycle.triple_bind)
  show "rg sha P (of_sum (terminal_state_to_status st)) (\<lambda>_ d. P d \<and> is_request_state_terminal st)"
    by (rule lifecycle.triple_of_sum) (auto dest: terminal_state_to_status_Inr)
  have get: "rg sha P (attempt (request_get i)) (\<lambda>r d. P d \<and> (\<forall>x. r = Inr x \<longrightarrow> P d \<and> known_request x d \<and> r_id x = i))"
    by (rule lifecycle.triple_attempt [OF triple_request_get [OF assms] assms(1)])
  show "rg sha (\<lambda>d. P d \<and> is_request_state_terminal st)
      (and_then (attempt (request_get i)) (\<lambda>r. case r of
         Inl e \<Rightarrow> if is_not_found e
           then ok \<lparr>tr_outcome = TerminationOutcomeNotFound, tr_before = RequestStateUnknown, tr_after = RequestStateUnknown\<rparr>
           else fail (Wrapped ''failed to get request'' e)
       | Inr request \<Rightarrow> terminate_read i st status err meta request)) (\<lambda>_. P)" for status
  proof (rule lifecycle.triple_pure, rule lifecycle.triple_bind [OF get])
    fix r assume "is_request_state_terminal st"
    then show "rg sha (\<lambda>d. P d \<and> (\<forall>x. r = Inr x \<longrightarrow> P d \<and> known_request x d \<and> r_id x = i))
        (case r of
           Inl e \<Rightarrow> if is_not_found e
             then ok \<lparr>tr_outcome = TerminationOutcomeNotFound, tr_before = RequestStateUnknown, tr_after = RequestStateUnknown\<rparr>
             else fail (Wrapped ''failed to get request'' e)
         | Inr request \<Rightarrow> terminate_read i st status err meta request) (\<lambda>_. P)"
      by (cases r) (auto intro!: lifecycle.triple_if lifecycle.triple_ok lifecycle.triple_fail
          lifecycle.triple_pre [OF triple_terminate_read [OF assms(1)]])
  qed
qed

section \<open>Reading and moving batches\<close>

lemma triple_batch_get:
  assumes "stable (evolves sha) P" and "\<And>d. P d \<Longrightarrow> keyed d"
  shows "rg sha P (batch_get i) (\<lambda>b d. P d \<and> known b d \<and> b_id b = i)"
  unfolding batch_get_def
  by (rule lifecycle.triple_db_read [OF assms(1)]) (use assms(2) in \<open>auto simp: known_def keyed_def\<close>)

text \<open>
  A compare-and-swap on a value that was read writes only over that very value, so it is one step
  of the graph.
\<close>

lemma batch_row_update_evolves:
  assumes "known b0 d" and "b_id b = b_id b0" and "b_version b0 = v" and "v < v'"
    and "evolved b0 (b\<lparr>b_version := v'\<rparr>)"
  shows "evolves sha d (snd (batch_row_update b v v' d))"
    and "fst (batch_row_update b v v' d) = Inr () \<Longrightarrow> known (b\<lparr>b_version := v'\<rparr>) (snd (batch_row_update b v v' d))"
proof -
  have neq: "v \<noteq> v'" using assms(4) by simp
  have "evolves sha d (snd (batch_row_update b v v' d)) \<and>
    (fst (batch_row_update b v v' d) = Inr () \<longrightarrow> known (b\<lparr>b_version := v'\<rparr>) (snd (batch_row_update b v v' d)))"
  proof (cases rule: batch_table.update_cases [OF neq, of d b])
    case (1 s)
    with assms(1,2,3) have s: "s = b0" by (auto simp: known_def dest: evolved_same_version)
    have "batches_evolve d (snd (batch_row_update b v v' d))"
      unfolding batches_evolve_def 1(4) using 1(1) s assms(5) by (auto split: option.splits)
    then have "evolves sha d (snd (batch_row_update b v v' d))" by (rule evolves_batches) (simp_all add: links_grow_same)
    moreover have "known (b\<lparr>b_version := v'\<rparr>) (snd (batch_row_update b v v' d))"
      unfolding known_def 1(4) by simp
    ultimately show ?thesis by simp
  next
    case (2 e)
    then show ?thesis by (auto intro: evolves_same)
  qed
  then show "evolves sha d (snd (batch_row_update b v v' d))"
    and "fst (batch_row_update b v v' d) = Inr () \<Longrightarrow> known (b\<lparr>b_version := v'\<rparr>) (snd (batch_row_update b v v' d))"
    by auto
qed

lemma triple_batch_update:
  assumes "stable (evolves sha) P" and "\<And>d. P d \<Longrightarrow> known b0 d" and "b_id b = b_id b0" and "b_version b0 = v" and "v < v'"
    and "evolved b0 (b\<lparr>b_version := v'\<rparr>)"
  shows "rg sha P (batch_update b v v') (\<lambda>_ d. P d \<and> known (b\<lparr>b_version := v'\<rparr>) d)"
  unfolding batch_update_def
proof (rule triple_require_queue, rule lifecycle.triple_db_op)
  fix d assume "P d"
  from assms(2) [OF this] show "evolves sha d (snd (batch_row_update b v v' d))"
    using assms(3-6) by (rule batch_row_update_evolves(1))
next
  fix d x assume P: "P d" and "fst (batch_row_update b v v' d) = Inr x"
  then show "P (snd (batch_row_update b v v' d)) \<and> known (b\<lparr>b_version := v'\<rparr>) (snd (batch_row_update b v v' d))"
    using batch_row_update_evolves [OF assms(2) [OF P] assms(3-6)] stableD [OF assms(1) P] by simp
qed (rule assms(1))

definition moved :: "batch \<Rightarrow> batch_state \<Rightarrow> batch" where
  "moved b st = b\<lparr>b_state := st, b_version := b_version b + 1\<rparr>"

lemma triple_transition_from:
  assumes P: "stable (evolves sha) P" "\<And>d. P d \<Longrightarrow> known b0 d"
    and b: "b_id b = b_id b0" "b_version b = b_version b0" "evolved b0 (moved b st)"
  shows "rg sha P (transition b st) (\<lambda>b' d. P d \<and> b' = moved b st \<and> known b' d)"
proof -
  have up: "rg sha P (batch_update (b\<lparr>b_state := st\<rparr>) (b_version b) (b_version b + 1))
      (\<lambda>_ d. P d \<and> known (moved b st) d)"
    using triple_batch_update [OF P, of "b\<lparr>b_state := st\<rparr>" "b_version b" "b_version b + 1"] b by (simp add: moved_def)
  have st: "stable (evolves sha) (\<lambda>d. P d \<and> known (moved b st) d)"
    by (intro stable_intros P(1))
  have keep: "rg sha (\<lambda>d. P d \<and> known (moved b st) d) m (\<lambda>_ d. P d \<and> known (moved b st) d)"
    if "\<And>P. stable (evolves sha) P \<Longrightarrow> rg sha P m (\<lambda>_. P)" for m :: "unit op"
    using that [OF st] .
  show ?thesis
    unfolding transition_def Let_def
    by (intro lifecycle.triple_bind [OF lifecycle.triple_map_err [OF up]]
        lifecycle.triple_bind [OF lifecycle.triple_map_err [OF keep]] lifecycle.triple_bind [OF keep])
      (auto intro!: rg_intros lifecycle.triple_ok simp: moved_def)
qed

lemma evolved_moved: "batch_edge (b_state b) st \<Longrightarrow> evolved b (moved b st)"
  by (simp add: evolved_def moved_def tranclp.r_into_trancl)

lemma triple_transition:
  assumes "stable (evolves sha) P" and "\<And>d. P d \<Longrightarrow> known b d" and "batch_edge (b_state b) st"
  shows "rg sha P (transition b st) (\<lambda>b' d. P d \<and> b' = moved b st \<and> known b' d)"
  by (rule triple_transition_from [OF assms(1,2) refl refl evolved_moved [OF assms(3)]])

text \<open>A listing returns batches in the states asked for, each as its row reads or read.\<close>

lemma triple_list_by_states:
  assumes "stable (evolves sha) P" and "\<And>d. P d \<Longrightarrow> keyed d"
  shows "rg sha P (list_by_states states)
    (\<lambda>bs d. P d \<and> (\<forall>b\<in>set bs. known b d \<and> b_state b \<in> set states))"
proof -
  have st: "stable (evolves sha) (\<lambda>d. P d \<and> (\<forall>b\<in>set acc. known b d))" for acc
    by (intro stable_intros assms(1))
  have bucket: "rg sha (\<lambda>d. P d \<and> set (fst s) \<subseteq> set states) (list_bucket i s)
      (\<lambda>s' d. P d \<and> set (fst s') \<subseteq> set states)" if "i \<in> set states" for i s
    unfolding list_bucket_def using that assms(1)
    by (cases s) (auto intro!: lifecycle.triple_pure lifecycle.triple_if lifecycle.triple_ok
        lifecycle.triple_bind [OF lifecycle.triple_map_err [OF keep_state_list]])
  have buckets: "rg sha P (fold_act list_bucket states ([], [])) (\<lambda>s' d. P d \<and> set (fst s') \<subseteq> set states)"
    using lifecycle.triple_fold_act [where P = "\<lambda>s d. P d \<and> set (fst s) \<subseteq> set states" and xs = states and s = "([], [])", OF bucket]
    by simp
  have step: "rg sha (\<lambda>d. P d \<and> (\<forall>b\<in>set acc. known b d)) (hydrate i acc)
      (\<lambda>acc' d. P d \<and> (\<forall>b\<in>set acc'. known b d))" for i acc
    unfolding hydrate_def
    by (rule lifecycle.triple_bind [OF lifecycle.triple_map_err [OF triple_batch_get [OF st]]],
        use assms(2) in blast, rule lifecycle.triple_ok, auto)
  have all: "rg sha P (fold_act hydrate ids []) (\<lambda>bs d. P d \<and> (\<forall>b\<in>set bs. known b d))" for ids
    using lifecycle.triple_fold_act [where P = "\<lambda>acc d. P d \<and> (\<forall>b\<in>set acc. known b d)" and xs = ids and s = "[]", OF step]
    by simp
  show ?thesis
    unfolding list_by_states_def
  proof (rule lifecycle.triple_bind [OF buckets], clarify)
    fix wanted ids
    show "rg sha (\<lambda>d. P d \<and> set (fst (wanted, ids)) \<subseteq> set states)
        (and_then (fold_act hydrate ids []) (\<lambda>hydrated. ok (filter (\<lambda>b. b_state b \<in> set wanted) hydrated)))
        (\<lambda>bs d. P d \<and> (\<forall>b\<in>set bs. known b d \<and> b_state b \<in> set states))"
      by (rule lifecycle.triple_pure, rule lifecycle.triple_bind [OF all], rule lifecycle.triple_ok) auto
  qed
qed

section \<open>Writing a path set\<close>

text \<open>
  \<open>derived ps d\<close>: \<open>ps\<close> is a growth, in memory, of a value the row of its head has or had, still at
  that value's version.
\<close>

definition derived :: "path_set \<Rightarrow> db \<Rightarrow> bool" where
  "derived ps d \<longleftrightarrow> (\<exists>base row. ps_version ps = ps_version base \<and> ps_head ps = ps_head base \<and>
     paths_grow (ps_paths base) (ps_paths ps) \<and> d_path_sets d (ps_head ps) = Some row \<and> set_step base row)"

text \<open>\<open>fits_row\<close>: the set is about \<open>b\<close>, which its row has or had, past its creation.\<close>

definition fits_row :: "(string \<Rightarrow> string) \<Rightarrow> batch \<Rightarrow> path_set \<Rightarrow> db \<Rightarrow> bool" where
  "fits_row sha b ps d \<longleftrightarrow> known b d \<and> b_state b \<noteq> BatchStateCreating \<and> b_id b = ps_head ps \<and> set_fits sha b ps"

lemma stable_derived [stable_intros]: "stable (evolves sha) (derived ps)"
  unfolding stable_def
proof (intro allI impI)
  fix d d' assume "derived ps d" and step: "evolves sha d d'"
  then obtain base row where base: "ps_version ps = ps_version base" "ps_head ps = ps_head base"
    "paths_grow (ps_paths base) (ps_paths ps)" and row: "d_path_sets d (ps_head ps) = Some row" "set_step base row"
    by (auto simp: derived_def)
  from evolves_set [OF step row(1)] obtain row' where "d_path_sets d' (ps_head ps) = Some row'" "set_step row row'" by blast
  with base row(2) show "derived ps d'" unfolding derived_def by (blast intro: set_step_trans)
qed

lemma stable_fits_row [stable_intros]: "stable (evolves sha) (fits_row sha' b ps)"
  unfolding fits_row_def by (intro stable_intros)

lemma derived_row: "d_path_sets d (ps_head ps) = Some ps \<Longrightarrow> derived ps d"
  unfolding derived_def by (intro exI [of _ ps]) auto

lemma derived_grow:
  "derived ps d \<Longrightarrow> ps_head ps' = ps_head ps \<Longrightarrow> ps_version ps' = ps_version ps \<Longrightarrow>
   paths_grow (ps_paths ps) (ps_paths ps') \<Longrightarrow> derived ps' d"
  unfolding derived_def using paths_grow_trans by fastforce

lemma sets_ok_write:
  assumes "sets_ok sha d" and "fits_row sha b ps d" and "d_batches d' = d_batches d"
    and "d_path_sets d' = (d_path_sets d)(ps_head ps \<mapsto> ps\<lparr>ps_version := v\<rparr>)"
  shows "sets_ok sha d'"
proof -
  from assms(2) obtain b' where "d_batches d (ps_head ps) = Some b'" "evolved b b'"
    and fits: "b_state b \<noteq> BatchStateCreating" "set_fits sha b ps"
    by (auto simp: fits_row_def known_def)
  moreover from evolved_not_creating [OF this(2,3)] have "set_fits sha b' ps" "b_state b' \<noteq> BatchStateCreating"
    using set_fits_batch [of b' b] fits by auto
  moreover have "set_fits sha c (ps\<lparr>ps_version := v\<rparr>) = set_fits sha c ps" for c
    by (simp add: set_fits_def well_formed_set_def)
  ultimately show ?thesis using assms(1,3,4) by (auto simp: sets_ok_def)
qed

lemma path_set_rows_batches [simp]:
  "d_batches (snd (path_set_row_update s v v' d)) = d_batches d"
  "d_batches (snd (path_set_row_create s d)) = d_batches d"
  by simp_all

lemma path_set_update_evolves:
  assumes "derived ps d" and "fits_row sha b ps d" and "ps_version ps < v"
  shows "evolves sha d (snd (path_set_row_update ps (ps_version ps) v d))"
proof -
  from assms(3) have neq: "ps_version ps \<noteq> v" by simp
  show ?thesis
  proof (cases rule: path_set_table.update_cases [OF neq, of d ps])
    case (1 row)
    from assms(1) obtain base where base: "ps_version ps = ps_version base" "ps_head ps = ps_head base"
      "paths_grow (ps_paths base) (ps_paths ps)" "set_step base row"
      using 1(1) by (auto simp: derived_def)
    with 1(2) have "row = base" by (auto dest: set_step_same_version)
    with base 1(2) assms(3) have "set_step row (ps\<lparr>ps_version := v\<rparr>)" by (auto simp: set_step_def)
    then have "sets_evolve d (snd (path_set_row_update ps (ps_version ps) v d))"
      unfolding sets_evolve_def 1(4) using 1(1) by auto
    moreover have "sets_ok sha (snd (path_set_row_update ps (ps_version ps) v d))" if "sets_ok sha d"
      by (rule sets_ok_write [OF that assms(2) _ 1(4)]) simp
    ultimately show ?thesis by (auto simp: evolves_def links_grow_same intro: batches_evolve_same requests_evolve_same)
  next
    case (2 e)
    then show ?thesis by (auto intro: evolves_same)
  qed
qed

lemma path_set_create_evolves:
  assumes "fits_row sha b ps d"
  shows "evolves sha d (snd (path_set_row_create (ps\<lparr>ps_version := v\<rparr>) d))"
proof (cases rule: path_set_table.create_cases [of d "ps\<lparr>ps_version := v\<rparr>"])
  case new
  note 1 = new
  then have "sets_evolve d (snd (path_set_row_create (ps\<lparr>ps_version := v\<rparr>) d))"
    unfolding sets_evolve_def by auto
  moreover have "sets_ok sha (snd (path_set_row_create (ps\<lparr>ps_version := v\<rparr>) d))" if "sets_ok sha d"
    by (rule sets_ok_write [OF that assms]) (use 1 in simp_all)
  ultimately show ?thesis by (auto simp: evolves_def links_grow_same intro: batches_evolve_same requests_evolve_same)
next
  case (taken s e)
  then show ?thesis by (auto intro: evolves_same)
qed

lemma triple_path_set_update [rg_intros]:
  assumes "stable (evolves sha) P" and "\<And>d. P d \<Longrightarrow> derived ps d \<and> (\<exists>b. fits_row sha b ps d)"
  shows "rg sha P (path_set_update ps (ps_version ps) (ps_version ps + 1)) (\<lambda>_. P)"
  unfolding path_set_update_def
proof (rule triple_require_queue, rule lifecycle.triple_db_op)
  fix d assume P: "P d"
  with assms(2) obtain b where "derived ps d" "fits_row sha b ps d" by blast
  then show step: "evolves sha d (snd (path_set_row_update ps (ps_version ps) (ps_version ps + 1) d))"
    by (rule path_set_update_evolves) simp
  show "P (snd (path_set_row_update ps (ps_version ps) (ps_version ps + 1) d))"
    by (rule stableD [OF assms(1) P step])
qed (rule assms(1))

lemma triple_path_set_create [rg_intros]:
  assumes "stable (evolves sha) P" and "\<And>d. P d \<Longrightarrow> \<exists>b. fits_row sha b ps d"
  shows "rg sha P (path_set_create (ps\<lparr>ps_version := 1\<rparr>)) (\<lambda>_. P)"
  unfolding path_set_create_def
proof (rule triple_require_queue, rule lifecycle.triple_db_op)
  fix d assume P: "P d"
  with assms(2) obtain b where "fits_row sha b ps d" by blast
  then show step: "evolves sha d (snd (path_set_row_create (ps\<lparr>ps_version := 1\<rparr>) d))"
    by (rule path_set_create_evolves)
  show "P (snd (path_set_row_create (ps\<lparr>ps_version := 1\<rparr>) d))"
    by (rule stableD [OF assms(1) P step])
qed (rule assms(1))

text \<open>Reading one, for a batch that was read past its creation.\<close>

lemma triple_path_set_get:
  assumes "stable (evolves sha) P" and "\<And>d. P d \<Longrightarrow> sets_ok sha d \<and> known b d"
    and "b_id b = h" and "b_state b \<noteq> BatchStateCreating"
  shows "rg sha P (path_set_get h) (\<lambda>ps d. P d \<and> derived ps d \<and> ps_head ps = h \<and> set_fits sha b ps)"
  unfolding path_set_get_def
proof (rule lifecycle.triple_db_read [OF assms(1)])
  fix d ps assume P: "P d" and "fst (select_row (d_path_sets d h), d) = Inr ps"
  then have row: "d_path_sets d h = Some ps" by simp
  with assms(2) [OF P] obtain b' where b': "ps_head ps = h" "d_batches d h = Some b'" "set_fits sha b' ps"
    by (auto simp: sets_ok_def)
  with assms(2) [OF P] assms(3) have "evolved b b'" by (auto simp: known_def)
  with evolved_not_creating [OF this assms(4)] b'(3) set_fits_batch [of b' b] have "set_fits sha b ps" by auto
  with P b'(1) row show "P d \<and> derived ps d \<and> ps_head ps = h \<and> set_fits sha b ps" by (auto intro: derived_row)
qed simp

end
