(* ===== verification/SpecSafe.thy ===== *)
theory SpecSafe
  imports Lifecycle
begin

text \<open>
  The speculate controller keeps to the contract of \<open>Lifecycle\<close>: whatever the other processes do
  within it between two of its calls, and whichever calls fail, a message handled by \<open>Process\<close>
  moves batches along the state graph only.  The proof carries through the run that every batch the
  snapshot names is a value its row has or had, and that the heads open to new work were read in
  Speculating.
\<close>

section \<open>What a snapshot knows\<close>

definition heads_known :: "batch list \<Rightarrow> db \<Rightarrow> bool" where
  "heads_known bs d \<longleftrightarrow> (\<forall>b\<in>set bs. known b d \<and> b_state b = BatchStateSpeculating)"

definition sets_known :: "(string \<Rightarrow> string) \<Rightarrow> (string \<rightharpoonup> path_set) \<Rightarrow> db \<Rightarrow> bool" where
  "sets_known sha m d \<longleftrightarrow> (\<forall>h ps. m h = Some ps \<longrightarrow> ps_head ps = h \<and> derived ps d \<and> (\<exists>b. fits_row sha b ps d))"

definition index_known :: "(string \<times> batch) list \<Rightarrow> db \<Rightarrow> bool" where
  "index_known m d \<longleftrightarrow> (\<forall>i b. map_of m i = Some b \<longrightarrow> b_state b = BatchStateSpeculating \<longrightarrow> b_id b = i \<and> known b d)"

definition snapshot_known :: "(string \<Rightarrow> string) \<Rightarrow> snapshot \<Rightarrow> db \<Rightarrow> bool" where
  "snapshot_known sha s d \<longleftrightarrow> consistent sha d \<and>
     (\<forall>b\<in>set (sn_in_flight s). known b d \<and> b_state b \<noteq> BatchStateCreating) \<and>
     heads_known (sn_speculating s) d \<and> sets_known sha (sn_path_sets s) d \<and> index_known (sn_batches s) d \<and>
     (\<forall>i. sn_dirty s i \<longrightarrow> sn_path_sets s i \<noteq> None)"

lemma stable_heads_known [stable_intros]: "stable (evolves sha) (heads_known bs)"
  unfolding heads_known_def by (intro stable_intros)

lemma stable_ex [stable_intros]: "(\<And>x. stable R (P x)) \<Longrightarrow> stable R (\<lambda>d. \<exists>x. P x d)"
  unfolding stable_def by blast

lemma stable_sets_known [stable_intros]: "stable (evolves sha) (sets_known sha' m)"
  unfolding sets_known_def by (intro stable_intros)

lemma stable_index_known [stable_intros]: "stable (evolves sha) (index_known m)"
  unfolding index_known_def by (intro stable_intros)

lemma stable_snapshot_known [stable_intros]: "stable (evolves sha) (snapshot_known sha s)"
  unfolding snapshot_known_def by (intro stable_intros)

lemma snapshot_known_in_flight:
  "snapshot_known sha s d \<Longrightarrow> b \<in> set (sn_in_flight s) \<Longrightarrow> known b d \<and> b_state b \<noteq> BatchStateCreating"
  by (simp add: snapshot_known_def)

lemma snapshot_known_set:
  "snapshot_known sha s d \<Longrightarrow> sn_path_sets s h = Some ps \<Longrightarrow>
   ps_head ps = h \<and> derived ps d \<and> (\<exists>b. fits_row sha b ps d)"
  by (simp add: snapshot_known_def sets_known_def)

lemma snapshot_known_consistent: "snapshot_known sha s d \<Longrightarrow> consistent sha d"
  by (simp add: snapshot_known_def)

text \<open>The snapshot's sets may grow in memory.\<close>

lemma fits_row_steps:
  "fits_row sha b ps d \<Longrightarrow> ps_head ps' = ps_head ps \<Longrightarrow> list_all2 entry_step (ps_paths ps) (ps_paths ps') \<Longrightarrow>
   fits_row sha b ps' d"
  by (auto simp: fits_row_def intro: set_fits_steps)

lemma sets_known_update:
  "sets_known sha m d \<Longrightarrow> ps_head ps = h \<Longrightarrow> derived ps d \<Longrightarrow> fits_row sha b ps d \<Longrightarrow> sets_known sha (m(h \<mapsto> ps)) d"
  by (auto simp: sets_known_def)

text \<open>A change is a step of every entry of the set, as cancelling paths is.\<close>

definition step_change :: "(path_set \<Rightarrow> path_set \<times> bool) \<Rightarrow> bool" where
  "step_change change \<longleftrightarrow> (\<forall>ps. list_all2 entry_step (ps_paths ps) (ps_paths (fst (change ps))) \<and>
     ps_head (fst (change ps)) = ps_head ps \<and> ps_version (fst (change ps)) = ps_version ps)"

lemma step_change_cancels [simp]:
  "step_change (\<lambda>ps. cancel_all_paths ps now)"
  "step_change (\<lambda>ps. cancel_broken_paths_in_set ps s now)"
  "step_change (\<lambda>ps. supersede ps wid now)"
  by (simp_all add: step_change_def cancel_all_paths_def cancel_broken_paths_in_set_def supersede_def mark_cancelling_steps)
    (simp_all add: mark_cancelling_def)

lemma change_set_known:
  assumes "snapshot_known sha s d" and "step_change change"
  shows "snapshot_known sha (snd (change_set i change s)) d"
proof (cases "sn_path_sets s i")
  case None
  with assms(1) show ?thesis by (simp add: change_set_def)
next
  case (Some ps)
  obtain ps' c where c: "change ps = (ps', c)" by (cases "change ps")
  with assms(2) have step: "list_all2 entry_step (ps_paths ps) (ps_paths ps')" "ps_head ps' = ps_head ps" "ps_version ps' = ps_version ps"
    by (auto simp: step_change_def dest!: spec [of _ ps])
  from snapshot_known_set [OF assms(1) Some] obtain b where
    ps: "ps_head ps = i" "derived ps d" "fits_row sha b ps d" by blast
  have "sets_known sha ((sn_path_sets s)(i \<mapsto> ps')) d"
    using assms(1) ps step
    by (intro sets_known_update [where b = b])
      (auto simp: snapshot_known_def intro: derived_grow paths_grow_steps fits_row_steps)
  with assms(1) show ?thesis
    by (auto simp: change_set_def Some c snapshot_known_def mark_dirty_def)
qed

section \<open>Steps that only keep\<close>

lemma keep_publish_batch_id_with_metadata [rg_intros]:
  "stable (evolves sha) P \<Longrightarrow> rg sha P (publish_batch_id_with_metadata k m b q p meta) (\<lambda>_. P)"
  unfolding publish_batch_id_with_metadata_def by (intro rg_intros)

lemma keep_publish_batch_id [rg_intros]:
  "stable (evolves sha) P \<Longrightarrow> rg sha P (publish_batch_id k m b q p) (\<lambda>_. P)"
  unfolding publish_batch_id_def by (intro rg_intros)

lemma keep_fanout [rg_intros]: "stable (evolves sha) P \<Longrightarrow> rg sha P (fanout b q) (\<lambda>_. P)"
  unfolding fanout_def by (intro rg_intros)

lemma keep_dispatch_land [rg_intros]: "stable (evolves sha) P \<Longrightarrow> rg sha P (dispatch_land b) (\<lambda>_. P)"
  unfolding dispatch_land_def by (intro rg_intros)

lemma keep_recoverable [rg_intros]: "stable (evolves sha) P \<Longrightarrow> rg sha P (recoverable b) (\<lambda>_. P)"
  unfolding recoverable_def by (intro rg_intros)

lemma keep_observe_entry [rg_intros]: "stable (evolves sha) P \<Longrightarrow> rg sha P (observe_entry h e) (\<lambda>_. P)"
  unfolding observe_entry_def by (intro rg_intros)

lemma keep_update_paths [rg_intros]:
  "stable (evolves sha) P \<Longrightarrow> rg sha P (update_paths_from_builds ps) (\<lambda>_. P)"
  unfolding update_paths_from_builds_def observe_into_def by (intro rg_intros)

lemma keep_report_speculation [rg_intros]:
  "stable (evolves sha) P \<Longrightarrow> rg sha P (report_speculation b ps s before dn) (\<lambda>_. P)"
  unfolding report_speculation_def Let_def by (intro rg_intros)

lemma keep_ask [rg_intros]: "stable (evolves sha) P \<Longrightarrow> rg sha P (ask x q s) (\<lambda>_. P)"
  unfolding ask_def Let_def by (intro rg_intros)

section \<open>Admission and reading\<close>

lemma triple_admit:
  assumes "stable (evolves sha) P" and "\<And>d. P d \<Longrightarrow> known b d" and "b_state b = BatchStateCreated"
  shows "rg sha P (admit b) (\<lambda>b' d. P d \<and> b' = moved b BatchStateSpeculating \<and> known b' d)"
  unfolding admit_def
  by (rule lifecycle.triple_bind, rule lifecycle.triple_map_err, rule keep_publish_batch_logs [OF assms(1)],
      rule lifecycle.triple_map_err, rule triple_transition)
    (use assms in \<open>auto simp: batch_edge_def\<close>)

lemma triple_admit_created:
  "rg sha (snapshot_known sha s) (admit_created s) (snapshot_known sha)"
proof -
  define n where "n = length (sn_in_flight s)"
  let ?I = "\<lambda>s d. snapshot_known sha s d \<and> length (sn_in_flight s) = n"
  have "rg sha (?I s) (admit_created_one i s) ?I" if "i \<in> set [0..<n]" for i s
    unfolding admit_created_one_def Let_def
  proof (rule lifecycle.triple_pure, rule lifecycle.triple_if, rule lifecycle.triple_ok, simp)
    assume len: "length (sn_in_flight s) = n" and created: "\<not> b_state (sn_in_flight s ! i) \<noteq> BatchStateCreated"
    let ?b = "sn_in_flight s ! i"
    have "?b \<in> set (sn_in_flight s)" using that len by simp
    then have known: "\<And>d. snapshot_known sha s d \<Longrightarrow> known ?b d" by (simp add: snapshot_known_def)
    show "rg sha (snapshot_known sha s) (and_then (attempt (admit ?b)) (case_sum (\<lambda>_. ok s)
        (\<lambda>updated. ok (s\<lparr>sn_batches := AList.update (b_id updated) updated (sn_batches s),
          sn_in_flight := (sn_in_flight s)[i := updated], sn_speculating := sn_speculating s @ [updated]\<rparr>)))) ?I"
    proof (rule lifecycle.triple_bind)
      have "rg sha (snapshot_known sha s) (admit ?b)
          (\<lambda>b' d. snapshot_known sha s d \<and> b' = moved ?b BatchStateSpeculating \<and> known b' d)"
        by (rule triple_admit [OF stable_snapshot_known known]) (use created in auto)
      from lifecycle.triple_attempt [OF this stable_snapshot_known]
      show "rg sha (snapshot_known sha s) (attempt (admit ?b)) (\<lambda>r d. snapshot_known sha s d \<and> (\<forall>x. r = Inr x \<longrightarrow>
          snapshot_known sha s d \<and> x = moved ?b BatchStateSpeculating \<and> known x d))" .
    qed (rule lifecycle.triple_case_sum; rule lifecycle.triple_ok;
        use len in \<open>auto simp: snapshot_known_def heads_known_def index_known_def moved_def
          dest!: set_update_subset_insert [THEN subsetD]\<close>)
  qed
  then have "rg sha (?I s) (fold_act admit_created_one [0..<n] s) ?I"
    by (rule lifecycle.triple_fold_act)
  then show ?thesis
    unfolding admit_created_def n_def by (rule lifecycle.triple_conseq) auto
qed

lemma index_known_update:
  "index_known m d \<Longrightarrow> known b d \<Longrightarrow> b_id b = i \<Longrightarrow> index_known (AList.update i b m) d"
  by (simp add: index_known_def)

lemma index_batches_known:
  assumes "\<forall>b\<in>set bs. known b d"
  shows "index_known (index_batches bs) d"
proof -
  have fold: "index_known m d \<Longrightarrow> index_known (foldl (\<lambda>m b. AList.update (b_id b) b m) m bs) d" for m
    using assms
  proof (induction bs arbitrary: m)
    case (Cons b bs)
    then have "index_known (AList.update (b_id b) b m) d" by (intro index_known_update) simp_all
    with Cons show ?case by simp
  qed simp
  have "index_known [] d" by (simp add: index_known_def)
  then show ?thesis unfolding index_batches_def by (rule fold)
qed

lemma triple_load_dependency:
  assumes "stable (evolves sha) P" and "\<And>d. P d \<Longrightarrow> keyed d"
  shows "rg sha (\<lambda>d. P d \<and> index_known bs d) (load_dependency i bs) (\<lambda>bs' d. P d \<and> index_known bs' d)"
proof -
  have st: "stable (evolves sha) (\<lambda>d. P d \<and> index_known bs d)" by (intro stable_intros assms(1))
  show ?thesis
    unfolding load_dependency_def
    by (rule lifecycle.triple_if, rule lifecycle.triple_ok, simp,
        rule lifecycle.triple_bind [OF lifecycle.triple_map_err [OF triple_batch_get [OF st]]],
        use assms(2) in blast, rule lifecycle.triple_ok)
      (auto simp: index_known_def)
qed

lemma triple_load_path_set:
  assumes "b \<in> set (sn_in_flight s)"
  shows "rg sha (snapshot_known sha s) (load_path_set b s)
    (\<lambda>s' d. snapshot_known sha s' d \<and> sn_in_flight s' = sn_in_flight s)"
proof (cases "b_state b = BatchStateCreating")
  case True
  with assms have "\<not> snapshot_known sha s d" for d by (auto simp: snapshot_known_def)
  then show ?thesis by (simp add: triple_def)
next
  case False
  let ?G = "\<lambda>ps d. snapshot_known sha s d \<and> derived ps d \<and> ps_head ps = b_id b \<and> set_fits sha b ps"
  have "rg sha (snapshot_known sha s) (path_set_get (b_id b)) ?G"
    using assms False
    by (intro triple_path_set_get stable_intros)
      (auto simp: snapshot_known_def consistent_def)
  from lifecycle.triple_attempt [OF this stable_snapshot_known]
  have get: "rg sha (snapshot_known sha s) (attempt (path_set_get (b_id b)))
      (\<lambda>r d. snapshot_known sha s d \<and> (\<forall>ps. r = Inr ps \<longrightarrow> ?G ps d))" .
  have st: "stable (evolves sha) (?G ps)" for ps by (intro stable_intros)
  have upd: "rg sha (?G ps) (update_paths_from_builds ps)
      (\<lambda>r d. ?G ps d \<and> (list_all2 entry_step (ps_paths ps) (ps_paths (fst r)) \<and> ps_head (fst r) = ps_head ps \<and>
        ps_version (fst r) = ps_version ps))" for ps
    by (rule lifecycle.triple_result [OF keep_update_paths [OF st]]) (auto dest!: update_paths_from_builds_steps)
  have folded: "snapshot_known sha (s\<lparr>sn_path_sets := (sn_path_sets s)(b_id b \<mapsto> ps')\<rparr>) d \<and>
      snapshot_known sha (mark_dirty (b_id b) (s\<lparr>sn_path_sets := (sn_path_sets s)(b_id b \<mapsto> ps')\<rparr>)) d"
    if "?G ps d" "list_all2 entry_step (ps_paths ps) (ps_paths ps')" "ps_head ps' = ps_head ps" "ps_version ps' = ps_version ps"
    for ps ps' d
  proof -
    have "fits_row sha b ps' d"
      using that assms False by (auto simp: fits_row_def snapshot_known_def intro: set_fits_steps)
    moreover have "derived ps' d" using that by (auto intro: derived_grow paths_grow_steps)
    ultimately have "sets_known sha ((sn_path_sets s)(b_id b \<mapsto> ps')) d"
      using that by (intro sets_known_update) (auto simp: snapshot_known_def)
    with that(1) show ?thesis by (auto simp: snapshot_known_def mark_dirty_def)
  qed
  show ?thesis
    unfolding load_path_set_def
  proof (rule lifecycle.triple_bind [OF get], rule lifecycle.triple_case_sum)
    fix r e
    show "rg sha (\<lambda>d. snapshot_known sha s d \<and> (\<forall>ps. r = Inr ps \<longrightarrow> ?G ps d))
        (if is_not_found e then ok s else fail (attribute [batch_subject (b_id b)] (Wrapped ''failed to get path set'' e)))
        (\<lambda>s' d. snapshot_known sha s' d \<and> sn_in_flight s' = sn_in_flight s)"
      by (auto intro: lifecycle.triple_ok lifecycle.triple_fail)
  next
    fix r :: "goerr + path_set" and ps assume r: "r = Inr ps"
    show "rg sha (\<lambda>d. snapshot_known sha s d \<and> (\<forall>ps. r = Inr ps \<longrightarrow> ?G ps d))
        (and_then (update_paths_from_builds ps) (\<lambda>(ps', changed).
          let s' = s\<lparr>sn_path_sets := (sn_path_sets s)(b_id b \<mapsto> ps')\<rparr> in ok (if changed then mark_dirty (b_id b) s' else s')))
        (\<lambda>s' d. snapshot_known sha s' d \<and> sn_in_flight s' = sn_in_flight s)"
      by (rule lifecycle.triple_bind [OF lifecycle.triple_pre [OF upd [of ps]]], use r in blast,
          rule lifecycle.triple_case_prod, unfold Let_def, rule lifecycle.triple_ok)
        (use folded in \<open>auto simp: mark_dirty_def\<close>)
  qed
qed

lemma triple_read_snapshot:
  "rg sha (consistent sha) (read_snapshot q) (snapshot_known sha)"
proof -
  let ?L = "\<lambda>bs d. consistent sha d \<and> (\<forall>b\<in>set bs. known b d \<and> b_state b \<in> set active_batch_states)"
  have list: "rg sha (consistent sha) (list_by_states active_batch_states) ?L"
    by (rule triple_list_by_states [OF stable_consistent]) (simp add: consistent_def)
  have st: "stable (evolves sha) (?L bs)" for bs by (intro stable_intros)
  have load: "rg sha (\<lambda>d. ?L bs d \<and> index_known m d) (load_dependency i m) (\<lambda>m d. ?L bs d \<and> index_known m d)" for bs i m
    by (rule triple_load_dependency [OF st]) (simp add: consistent_def)
  have deps: "rg sha (?L bs) (fold_act (\<lambda>b m. fold_act load_dependency (b_deps b) m) bs (index_batches bs))
      (\<lambda>m d. ?L bs d \<and> index_known m d)" for bs
    by (rule lifecycle.triple_pre [OF lifecycle.triple_fold_act [where P = "\<lambda>m d. ?L bs d \<and> index_known m d",
          OF lifecycle.triple_fold_act [where P = "\<lambda>m d. ?L bs d \<and> index_known m d", OF load]]])
      (auto intro: index_batches_known)
  have sets: "rg sha (\<lambda>d. snapshot_known sha s d \<and> sn_in_flight s = bs) (fold_act load_path_set bs s)
      (\<lambda>s' d. snapshot_known sha s' d \<and> sn_in_flight s' = bs)" for bs s
    by (rule lifecycle.triple_fold_act, rule lifecycle.triple_pure,
        rule lifecycle.triple_conseq [OF triple_load_path_set]) auto
  show ?thesis
    unfolding read_snapshot_def
    by (rule lifecycle.triple_bind [OF lifecycle.triple_map_err [OF list]], rule lifecycle.triple_bind [OF deps],
        rule lifecycle.triple_conseq [OF sets])
      (auto simp: snapshot_known_def heads_known_def sets_known_def state_list_defs)
qed

section \<open>Persisting\<close>

lemma triple_persist:
  assumes P: "stable (evolves sha) P" and ex: "\<And>d. P d \<Longrightarrow> ex \<Longrightarrow> derived ps d"
    and fits: "\<And>d. P d \<Longrightarrow> \<exists>b. fits_row sha b ps d"
  shows "rg sha P (persist ps ex) (\<lambda>ps' d. P d \<and> derived ps' d \<and> (\<exists>b. fits_row sha b ps' d) \<and>
    ps_head ps' = ps_head ps)"
proof -
  have fits': "fits_row sha b (ps\<lparr>ps_version := v\<rparr>) d = fits_row sha b ps d" for b v d
    by (simp add: fits_row_def set_fits_def well_formed_set_def)
  let ?new = "ps\<lparr>ps_version := 1\<rparr>" and ?next = "ps\<lparr>ps_version := ps_version ps + 1\<rparr>"
  have create: "rg sha P (path_set_create ?new) (\<lambda>_ d. P d \<and> derived ?new d)"
    unfolding path_set_create_def
  proof (rule triple_require_queue, rule lifecycle.triple_db_op)
    fix d assume Pd: "P d"
    with fits obtain b where b: "fits_row sha b ps d" by blast
    then show step: "evolves sha d (snd (path_set_row_create ?new d))" by (rule path_set_create_evolves)
    fix x assume "fst (path_set_row_create ?new d) = Inr x"
    then have "d_path_sets (snd (path_set_row_create ?new d)) (ps_head ?new) = Some ?new"
      by (cases rule: path_set_table.create_cases [of d ?new]) auto
    then show "P (snd (path_set_row_create ?new d)) \<and> derived ?new (snd (path_set_row_create ?new d))"
      using stableD [OF P Pd step] derived_row by blast
  qed (rule P)
  have update: "rg sha P (path_set_update ps (ps_version ps) (ps_version ps + 1)) (\<lambda>_ d. P d \<and> derived ?next d)"
    if ex
    unfolding path_set_update_def
  proof (rule triple_require_queue, rule lifecycle.triple_db_op)
    fix d assume Pd: "P d"
    with fits obtain b where "fits_row sha b ps d" by blast
    with ex [OF Pd that] show step: "evolves sha d (snd (path_set_row_update ps (ps_version ps) (ps_version ps + 1) d))"
      by (rule path_set_update_evolves) simp
    fix x assume ok: "fst (path_set_row_update ps (ps_version ps) (ps_version ps + 1) d) = Inr x"
    have neq: "ps_version ps \<noteq> ps_version ps + 1" by simp
    from ok have "d_path_sets (snd (path_set_row_update ps (ps_version ps) (ps_version ps + 1) d)) (ps_head ?next) = Some ?next"
      by (cases rule: path_set_table.update_cases [OF neq, of d ps]) auto
    then show "P (snd (path_set_row_update ps (ps_version ps) (ps_version ps + 1) d)) \<and>
        derived ?next (snd (path_set_row_update ps (ps_version ps) (ps_version ps + 1) d))"
      using stableD [OF P Pd step] derived_row by blast
  qed (rule P)
  show ?thesis
  proof (cases ex)
    case False
    show ?thesis
      unfolding persist_def Let_def using False
      by (simp, intro lifecycle.triple_bind [OF lifecycle.triple_attempt [OF create P]] lifecycle.triple_case_sum
          lifecycle.triple_if lifecycle.triple_fail lifecycle.triple_ok)
        (use fits fits' in auto)
  next
    case True
    show ?thesis
      unfolding persist_def Let_def using True
      by (simp, intro lifecycle.triple_bind [OF lifecycle.triple_attempt [OF update [OF True] P]] lifecycle.triple_case_sum
          lifecycle.triple_if lifecycle.triple_fail lifecycle.triple_ok)
        (use fits fits' in auto)
  qed
qed

section \<open>Outcomes\<close>

definition lawful_outcome :: "batch \<Rightarrow> outcome \<Rightarrow> bool" where
  "lawful_outcome b dn \<longleftrightarrow> (\<forall>st. outcome_state dn = Some st \<longrightarrow> batch_edge (b_state b) st)"

lemma keep_apply_outcome:
  assumes P: "stable (evolves sha) P" "\<And>d. P d \<Longrightarrow> known b d" and dn: "lawful_outcome b dn"
  shows "rg sha P (apply_outcome b dn trig) (\<lambda>_. P)"
proof -
  have "rg sha P (transition b st) (\<lambda>_. P)" if "outcome_state dn = Some st" for st
    using triple_transition [OF P, of st] dn that
    by (auto simp: lawful_outcome_def elim!: lifecycle.triple_conseq)
  with P(1) show ?thesis
    unfolding apply_outcome_def by (intro rg_intros)
qed

definition same_heads :: "snapshot \<Rightarrow> snapshot \<Rightarrow> bool" where
  "same_heads s s' \<longleftrightarrow> sn_in_flight s' = sn_in_flight s \<and> sn_speculating s' = sn_speculating s"

lemma same_heads_simps [simp]:
  "same_heads s s"
  "same_heads s (mark_dirty i s') = same_heads s s'"
  "same_heads s (mark_clean i s') = same_heads s s'"
  "same_heads s (record_outcome s' i dn) = same_heads s s'"
  "same_heads s (snd (change_set i change s')) = same_heads s s'"
  by (auto simp: same_heads_def mark_dirty_def mark_clean_def record_outcome_def change_set_def
      split: option.splits prod.splits)

lemma same_heads_trans: "same_heads a b \<Longrightarrow> same_heads b c \<Longrightarrow> same_heads a c"
  by (simp add: same_heads_def)

lemma record_outcome_known:
  assumes "snapshot_known sha s d"
  shows "snapshot_known sha (record_outcome s i dn) d"
proof (cases "terminal_state dn")
  case None
  with assms show ?thesis by (simp add: record_outcome_def)
next
  case (Some st)
  then have "st \<noteq> BatchStateSpeculating" by (cases dn) auto
  with assms Some show ?thesis by (auto simp: record_outcome_def snapshot_known_def index_known_def)
qed

lemma mark_clean_known: "snapshot_known sha s d \<Longrightarrow> snapshot_known sha (mark_clean i s) d"
  by (auto simp: snapshot_known_def mark_clean_def)

text \<open>
  Below, \<open>F\<close> is any stable fact the caller wants to keep.
\<close>

lemma triple_commit_paths:
  assumes F: "stable (evolves sha) F"
  shows "rg sha (\<lambda>d. snapshot_known sha s d \<and> F d) (commit_paths s b)
    (\<lambda>r d. (snapshot_known sha (fst r) d \<and> F d) \<and> same_heads s (fst r))"
proof (cases "is_dirty s (b_id b)")
  case False
  then show ?thesis by (auto simp: commit_paths_def intro: lifecycle.triple_ok)
next
  case True
  let ?ps = "path_set_at s (b_id b)"
  let ?P = "\<lambda>d. snapshot_known sha s d \<and> F d"
  have st: "stable (evolves sha) ?P" by (intro stable_intros F)
  have stored: "sn_path_sets s (b_id b) = Some ?ps" if "snapshot_known sha s d" for d
    using True that by (auto simp: is_dirty_def snapshot_known_def path_set_at_def)
  have head: "ps_head ?ps = b_id b \<and> derived ?ps d \<and> (\<exists>b. fits_row sha b ?ps d)" if "?P d" for d
    using snapshot_known_set stored that by blast
  have "rg sha ?P (persist ?ps (sn_path_sets s (b_id b) \<noteq> None))
      (\<lambda>ps' d. ?P d \<and> derived ps' d \<and> (\<exists>b. fits_row sha b ps' d) \<and> ps_head ps' = ps_head ?ps)"
    by (rule triple_persist [OF st]) (use head in auto)
  note got = lifecycle.triple_attempt [OF this st]
  show ?thesis
    unfolding commit_paths_def if_P [OF True]
  proof (rule lifecycle.triple_bind [OF got], rule lifecycle.triple_case_sum)
    fix r err
    show "rg sha (\<lambda>d. ?P d \<and> (\<forall>ps'. r = Inr ps' \<longrightarrow> ?P d \<and> derived ps' d \<and> (\<exists>b. fits_row sha b ps' d) \<and>
          ps_head ps' = ps_head ?ps))
        (if is_version_mismatch err then ok (mark_clean (b_id b) s, False) else fail (attribute [batch_subject (b_id b)] err))
        (\<lambda>r d. (snapshot_known sha (fst r) d \<and> F d) \<and> same_heads s (fst r))"
      by (rule lifecycle.triple_if, rule lifecycle.triple_ok) (auto intro: mark_clean_known lifecycle.triple_fail)
  next
    fix r :: "goerr + path_set" and ps' assume r: "r = Inr ps'"
    show "rg sha (\<lambda>d. ?P d \<and> (\<forall>ps'. r = Inr ps' \<longrightarrow> ?P d \<and> derived ps' d \<and> (\<exists>b. fits_row sha b ps' d) \<and>
          ps_head ps' = ps_head ?ps))
        (ok (mark_clean (b_id b) (s\<lparr>sn_path_sets := (sn_path_sets s)(b_id b \<mapsto> ps')\<rparr>), True))
        (\<lambda>r d. (snapshot_known sha (fst r) d \<and> F d) \<and> same_heads s (fst r))"
    proof (rule lifecycle.triple_ok)
      fix d assume "?P d \<and> (\<forall>ps'. r = Inr ps' \<longrightarrow> ?P d \<and> derived ps' d \<and> (\<exists>b. fits_row sha b ps' d) \<and> ps_head ps' = ps_head ?ps)"
      with r head obtain c where s: "snapshot_known sha s d" "F d" and ps': "derived ps' d" "fits_row sha c ps' d" "ps_head ps' = b_id b"
        by auto
      have "sets_known sha ((sn_path_sets s)(b_id b \<mapsto> ps')) d"
        by (rule sets_known_update [OF _ ps'(3,1,2)]) (use s(1) in \<open>simp add: snapshot_known_def\<close>)
      with s show "(snapshot_known sha (fst (mark_clean (b_id b) (s\<lparr>sn_path_sets := (sn_path_sets s)(b_id b \<mapsto> ps')\<rparr>), True)) d \<and> F d) \<and>
          same_heads s (fst (mark_clean (b_id b) (s\<lparr>sn_path_sets := (sn_path_sets s)(b_id b \<mapsto> ps')\<rparr>), True))"
        by (auto simp: snapshot_known_def mark_clean_def same_heads_def)
    qed
  qed
qed

lemma triple_commit_outcome:
  assumes F: "stable (evolves sha) F" "\<And>d. F d \<Longrightarrow> known b d" and dn: "lawful_outcome b dn"
  shows "rg sha (\<lambda>d. snapshot_known sha s d \<and> F d) (commit_outcome s b dn)
    (\<lambda>r d. (snapshot_known sha (fst r) d \<and> F d) \<and> same_heads s (fst r))"
proof -
  have rest: "rg sha (\<lambda>d. (snapshot_known sha s1 d \<and> F d) \<and> same_heads s s1)
      (if \<not> stored then ok (s1, False)
       else and_then (map_err (attribute [batch_subject (b_id b)]) (apply_outcome b dn (is_trigger s1 (b_id b))))
         (\<lambda>landed. ok (s1, landed)))
      (\<lambda>r d. (snapshot_known sha (fst r) d \<and> F d) \<and> same_heads s (fst r))" for s1 stored
  proof -
    have st: "stable (evolves sha) (\<lambda>d. (snapshot_known sha s1 d \<and> F d) \<and> same_heads s s1)"
      by (intro stable_intros F(1))
    have app: "rg sha (\<lambda>d. (snapshot_known sha s1 d \<and> F d) \<and> same_heads s s1) (apply_outcome b dn t)
        (\<lambda>_ d. (snapshot_known sha s1 d \<and> F d) \<and> same_heads s s1)" for t
      by (rule keep_apply_outcome [OF st _ dn]) (use F(2) in blast)
    show ?thesis
      by (intro lifecycle.triple_if lifecycle.triple_bind [OF lifecycle.triple_map_err [OF app]] lifecycle.triple_ok) auto
  qed
  show ?thesis
    unfolding commit_outcome_def
    by (rule lifecycle.triple_bind [OF triple_commit_paths [OF F(1)]], rule lifecycle.triple_case_prod)
      (use rest in auto)
qed

section \<open>Finalizing\<close>

lemma triple_finalize_cancellation:
  assumes F: "stable (evolves sha) F" "\<And>d. F d \<Longrightarrow> known b d"
  shows "rg sha (\<lambda>d. snapshot_known sha s d \<and> F d) (finalize_cancellation now b s)
    (\<lambda>s' d. (snapshot_known sha s' d \<and> F d) \<and> same_heads s s')"
proof (cases "b_state b = BatchStateCancelling")
  case False
  then show ?thesis unfolding finalize_cancellation_def by (auto intro: lifecycle.triple_ok)
next
  case True
  then have dn: "lawful_outcome b OutcomeCancel" by (simp add: lawful_outcome_def outcome_state_def batch_edge_def)
  obtain ps s1 where c: "change_set (b_id b) (\<lambda>ps. cancel_all_paths ps now) s = (ps, s1)"
    by (cases "change_set (b_id b) (\<lambda>ps. cancel_all_paths ps now) s")
  then have s1: "s1 = snd (change_set (b_id b) (\<lambda>ps. cancel_all_paths ps now) s)" by simp
  then have heads: "same_heads s s1" by simp
  have pre: "snapshot_known sha s1 d" if "snapshot_known sha s d" for d
    unfolding s1 by (rule change_set_known [OF that]) simp
  note commit = lifecycle.triple_pre [OF triple_commit_outcome [OF F dn, of s1], where P = "\<lambda>d. snapshot_known sha s d \<and> F d"]
  show ?thesis
    unfolding finalize_cancellation_def c prod.case using True
    by (auto intro!: lifecycle.triple_if lifecycle.triple_ok lifecycle.triple_bind [OF commit] pre record_outcome_known
        intro: heads same_heads_trans [OF heads])
qed

lemma triple_finalize_cancellations:
  "rg sha (snapshot_known sha s) (finalize_cancellations now s) (snapshot_known sha)"
proof -
  let ?F = "\<lambda>d. \<forall>b\<in>set (sn_in_flight s). known b d"
  have F: "stable (evolves sha) ?F" by (intro stable_intros)
  let ?I = "\<lambda>s' d. snapshot_known sha s' d \<and> ?F d"
  have "rg sha (?I s') (finalize_cancellation now b s') ?I" if "b \<in> set (sn_in_flight s)" for b s'
    by (rule lifecycle.triple_conseq [OF triple_finalize_cancellation [OF F]]) (use that in auto)
  then have "rg sha (?I s) (finalize_cancellations now s) ?I"
    unfolding finalize_cancellations_def by (rule lifecycle.triple_fold_act)
  then show ?thesis by (rule lifecycle.triple_conseq) (auto simp: snapshot_known_def)
qed

lemma lawful_decision: "b_state b = BatchStateSpeculating \<Longrightarrow> lawful_outcome b (decide b ps s)"
  using decide_never_cancels [of b ps s]
  by (cases "decide b ps s") (auto simp: lawful_outcome_def outcome_state_def batch_edge_def)

text \<open>One head of the fixed-point loop, one pass, and the loop.\<close>

definition loop_known :: "(string \<Rightarrow> string) \<Rightarrow> batch list \<Rightarrow> snapshot \<times> nat \<times> batch list \<Rightarrow> db \<Rightarrow> bool" where
  "loop_known sha heads st d \<longleftrightarrow>
     (snapshot_known sha (fst st) d \<and> heads_known heads d) \<and> set (snd (snd st)) \<subseteq> set heads"

lemma triple_finalize_head:
  assumes b: "b \<in> set heads"
  shows "rg sha (loop_known sha heads st) (finalize_head now b st) (loop_known sha heads)"
proof (cases "b_state b = BatchStateSpeculating")
  case False
  with assms have "\<not> heads_known heads d" for d by (auto simp: heads_known_def)
  then show ?thesis by (simp add: triple_def loop_known_def)
next
  case True
  let ?F = "heads_known heads"
  have F: "stable (evolves sha) ?F" "\<And>d. ?F d \<Longrightarrow> known b d"
    using b by (auto simp: heads_known_def intro: stable_heads_known)
  obtain s n os where st: "st = (s, n, os)" by (cases st)
  obtain ps s1 where c: "change_set (b_id b) (\<lambda>ps. cancel_broken_paths_in_set ps s now) s = (ps, s1)"
    by (cases "change_set (b_id b) (\<lambda>ps. cancel_broken_paths_in_set ps s now) s")
  then have s1: "s1 = snd (change_set (b_id b) (\<lambda>ps. cancel_broken_paths_in_set ps s now) s)" by simp
  have k1: "snapshot_known sha s1 d" if "snapshot_known sha s d" for d
    unfolding s1 by (rule change_set_known [OF that]) simp
  let ?dn = "decide b ps s1"
  define s2 where "s2 = (if ?dn = OutcomeLand
    then snd (change_set (b_id b) (\<lambda>ps'. supersede ps' (e_id (winner_of b ps s1)) now) s1) else s1)"
  have k2: "snapshot_known sha s2 d" if "snapshot_known sha s1 d" for d
    using that by (auto simp: s2_def intro: change_set_known)
  have st1: "stable (evolves sha) (\<lambda>d. snapshot_known sha s1 d \<and> ?F d)" by (intro stable_intros)
  note report = keep_report_speculation [OF st1, of b ps s1 "passed_entry (path_set_at s (b_id b))" ?dn]
  note commit = lifecycle.triple_pre [OF triple_commit_outcome [OF F lawful_decision [OF True], of s2],
      where P = "\<lambda>d. snapshot_known sha s1 d \<and> ?F d"]
  have body: "rg sha (\<lambda>d. snapshot_known sha s1 d \<and> ?F d)
      (and_then (report_speculation b ps s1 (passed_entry (path_set_at s (b_id b))) ?dn) (\<lambda>_.
        if ?dn = OutcomeWait then ok (s1, n, os @ [b])
        else and_then (commit_outcome s2 b ?dn) (\<lambda>(s3, committed).
          if \<not> committed then ok (s3, n, os) else ok (record_outcome s3 (b_id b) ?dn, n + 1, os))))
      (\<lambda>st' d. (snapshot_known sha (fst st') d \<and> ?F d) \<and> set (snd (snd st')) \<subseteq> insert b (set os))"
    by (rule lifecycle.triple_bind [OF report])
      (auto intro!: lifecycle.triple_if lifecycle.triple_ok lifecycle.triple_bind [OF commit] k2 record_outcome_known)
  show ?thesis
    unfolding finalize_head_def st prod.case Let_def c s2_def [symmetric]
  proof (rule lifecycle.triple_pre [OF lifecycle.triple_pure [where c = "set os \<subseteq> set heads"]])
    assume "set os \<subseteq> set heads"
    with b show "rg sha (\<lambda>d. snapshot_known sha s1 d \<and> ?F d)
      (and_then (report_speculation b ps s1 (passed_entry (path_set_at s (b_id b))) ?dn) (\<lambda>_.
        if ?dn = OutcomeWait then ok (s1, n, os @ [b])
        else and_then (commit_outcome s2 b ?dn) (\<lambda>(s3, committed).
          if \<not> committed then ok (s3, n, os) else ok (record_outcome s3 (b_id b) ?dn, n + 1, os))))
      (loop_known sha heads)"
      by (intro lifecycle.triple_conseq [OF body]) (auto simp: loop_known_def)
  qed (auto simp: loop_known_def k1)
qed

lemma triple_finalize_pass:
  "rg sha (\<lambda>d. snapshot_known sha s d \<and> heads_known heads d) (finalize_pass now heads s) (loop_known sha heads)"
  unfolding finalize_pass_def
  by (rule lifecycle.triple_pre [OF lifecycle.triple_fold_act [where P = "loop_known sha heads", OF triple_finalize_head]])
    (auto simp: loop_known_def)

lemma finalize_loop_unfold:
  "finalize_loop now heads s = and_then (finalize_pass now heads s) (\<lambda>(s', decided, still_open).
     if decided = 0 then ok (s', still_open) else finalize_loop now still_open s')"
proof
  fix w
  show "finalize_loop now heads s w = and_then (finalize_pass now heads s) (\<lambda>(s', decided, still_open).
     if decided = 0 then ok (s', still_open) else finalize_loop now still_open s') w"
    by (subst finalize_loop.simps) (auto simp: and_then_apply ok_apply split: prod.split sum.split)
qed

lemma triple_finalize_loop:
  "rg sha (\<lambda>d. snapshot_known sha s d \<and> heads_known heads d) (finalize_loop now heads s)
     (\<lambda>r d. snapshot_known sha (fst r) d \<and> heads_known (snd r) d)"
proof (induction "length heads" arbitrary: heads s rule: less_induct)
  case less
  let ?Q = "\<lambda>r d. snapshot_known sha (fst r) d \<and> heads_known (snd r) d"
  have pass: "rg sha (\<lambda>d. snapshot_known sha s d \<and> heads_known heads d) (finalize_pass now heads s)
      (\<lambda>r d. loop_known sha heads r d \<and> fst (snd r) + length (snd (snd r)) \<le> length heads)"
    by (rule lifecycle.triple_result [OF triple_finalize_pass]) (auto dest: finalize_pass_counts)
  have next_pass: "rg sha (\<lambda>d. loop_known sha heads r d \<and> fst (snd r) + length (snd (snd r)) \<le> length heads)
      (case r of (s', decided, still_open) \<Rightarrow>
         if decided = 0 then ok (s', still_open) else finalize_loop now still_open s') ?Q" for r
  proof -
    obtain s' n os where r: "r = (s', n, os)" by (cases r)
    have shorter: "length os < length heads" if "n + length os \<le> length heads" "n \<noteq> 0" using that by simp
    show ?thesis
      unfolding r prod.case fst_conv snd_conv
    proof (rule lifecycle.triple_pure, rule lifecycle.triple_if)
      show "rg sha (loop_known sha heads (s', n, os)) (ok (s', os)) ?Q"
        by (rule lifecycle.triple_ok) (auto simp: loop_known_def heads_known_def)
      assume "n + length os \<le> length heads" and "n \<noteq> 0"
      from less [OF shorter [OF this]]
      show "rg sha (loop_known sha heads (s', n, os)) (finalize_loop now os s') ?Q"
        by (rule lifecycle.triple_pre) (auto simp: loop_known_def heads_known_def)
    qed
  qed
  show ?case
    unfolding finalize_loop_unfold [of now heads s] by (rule lifecycle.triple_bind [OF pass next_pass])
qed

lemma triple_finalize: "rg sha (snapshot_known sha s) (finalize s) (snapshot_known sha)"
proof -
  have loop: "rg sha (snapshot_known sha s1) (finalize_loop now (sn_speculating s1) s1)
      (\<lambda>r d. snapshot_known sha (fst r) d \<and> heads_known (snd r) d)" for now s1
    by (rule lifecycle.triple_pre [OF triple_finalize_loop]) (simp add: snapshot_known_def)
  have last: "rg sha (\<lambda>d. snapshot_known sha (fst r) d \<and> heads_known (snd r) d)
      (case r of (s, os) \<Rightarrow> ok (s\<lparr>sn_speculating := os\<rparr>)) (snapshot_known sha)" for r
    by (cases r) (auto intro!: lifecycle.triple_ok simp: snapshot_known_def)
  show ?thesis
    unfolding finalize_def
    by (rule lifecycle.triple_bind [OF keep_now], rule lifecycle.triple_bind [OF triple_finalize_cancellations],
        rule lifecycle.triple_bind [OF loop last])
qed

section \<open>Dispatching\<close>

definition accepted_all :: "(string \<Rightarrow> string) \<Rightarrow> snapshot \<Rightarrow> speculation list \<Rightarrow> bool" where
  "accepted_all sha s props \<longleftrightarrow> (\<forall>p\<in>set props. rejection_reason sha p s = None)"

lemma known_same:
  assumes "known b d" and "known c d" and "b_id b = b_id c"
    and "b_state b \<noteq> BatchStateCreating" and "b_state c \<noteq> BatchStateCreating"
  shows "b_deps b = b_deps c"
proof -
  from assms(1-3) obtain r where "evolved b r" "evolved c r" by (auto simp: known_def)
  with evolved_not_creating [of b r] evolved_not_creating [of c r] assms(4,5) show ?thesis by metis
qed

lemma accepted_fits:
  assumes s: "snapshot_known sha s d" and acc: "rejection_reason sha p s = None"
    and b: "known b d" "b_state b \<noteq> BatchStateCreating" "b_id b = p_head (sp_path p)"
  shows "is_well_formed (sp_path p) b"
proof -
  from acc obtain head where head: "map_of (sn_batches s) (p_head (sp_path p)) = Some head"
    "b_state head = BatchStateSpeculating" "is_well_formed (sp_path p) head"
    by (rule accepted_proposal) auto
  with s have "b_id head = p_head (sp_path p)" "known head d" by (auto simp: snapshot_known_def index_known_def)
  with b head have "b_deps b = b_deps head" by (intro known_same) auto
  with head(3) b(3) show ?thesis by (simp add: is_well_formed_iff)
qed

text \<open>The set that \<open>dispatch\<close> would write for a head.\<close>

lemma dispatched_set:
  assumes s: "snapshot_known (x_sha x) s d" and acc: "accepted_all (x_sha x) s props"
    and head: "\<forall>p\<in>set props. p_head (sp_path p) = b_id b" and b: "b \<in> set (sn_in_flight s)"
    and ps: "ps = (case sn_path_sets s (b_id b) of Some ps \<Rightarrow> ps
      | None \<Rightarrow> \<lparr>ps_queue = q, ps_head = b_id b, ps_paths = [], ps_version = 0\<rparr>)"
    and run: "apply_proposals x now props (ps, c) = (ps', c')"
  shows "(sn_path_sets s (b_id b) \<noteq> None \<longrightarrow> derived ps' d) \<and> (\<exists>c. fits_row (x_sha x) c ps' d)"
proof -
  have known: "known b d" "b_state b \<noteq> BatchStateCreating"
    using snapshot_known_in_flight [OF s b] by auto
  obtain e where fits: "fits_row (x_sha x) e ps d" and der: "sn_path_sets s (b_id b) \<noteq> None \<longrightarrow> derived ps d"
    and ph: "ps_head ps = b_id b"
  proof (cases "sn_path_sets s (b_id b)")
    case None
    then have "fits_row (x_sha x) b ps d"
      using known by (simp add: ps fits_row_def set_fits_def well_formed_set_def)
    with None that show ?thesis by (simp add: ps)
  next
    case (Some ps0)
    with snapshot_known_set [OF s Some] that show ?thesis by (auto simp: ps)
  qed
  have op: "open_path (path_id (x_sha x) (sp_path p)) ps \<and> is_well_formed (sp_path p) e" if p: "p \<in> set props" for p
  proof
    have rej: "rejection_reason (x_sha x) p s = None" using acc p by (simp add: accepted_all_def)
    have hd: "p_head (sp_path p) = b_id b" using head p by simp
    show "is_well_formed (sp_path p) e"
      using fits ph hd by (intro accepted_fits [OF s rej]) (auto simp: fits_row_def)
    show "open_path (path_id (x_sha x) (sp_path p)) ps"
    proof (cases "sn_path_sets s (b_id b)")
      case None
      then show ?thesis by (simp add: ps open_path_def)
    next
      case (Some ps0)
      with accepted_open [OF rej, of ps0] hd fits show ?thesis
        by (simp add: ps fits_row_def set_fits_def)
    qed
  qed
  have "set_fits (x_sha x) e ps" using fits by (simp add: fits_row_def)
  from apply_proposals_grow [OF _ this run] op have grown:
    "paths_grow (ps_paths ps) (ps_paths ps')" "set_fits (x_sha x) e ps'" "ps_head ps' = ps_head ps" "ps_version ps' = ps_version ps"
    by auto
  have "fits_row (x_sha x) e ps' d" using fits grown by (simp add: fits_row_def)
  with der grown show ?thesis by (auto intro: derived_grow)
qed

lemma keep_dispatch_head:
  assumes acc: "accepted_all (x_sha x) s kept" and b: "b \<in> set (sn_in_flight s)"
  shows "rg (x_sha x) (snapshot_known (x_sha x) s) (dispatch_head x q s kept now b)
    (\<lambda>_. snapshot_known (x_sha x) s)"
proof -
  let ?ps = "case sn_path_sets s (b_id b) of Some ps \<Rightarrow> ps
    | None \<Rightarrow> \<lparr>ps_queue = q, ps_head = b_id b, ps_paths = [], ps_version = 0\<rparr>"
  let ?props = "filter (\<lambda>p. p_head (sp_path p) = b_id b) kept"
  obtain ps' c' where run: "apply_proposals x now ?props (?ps, is_dirty s (b_id b)) = (ps', c')"
    by (cases "apply_proposals x now ?props (?ps, is_dirty s (b_id b))")
  have acc': "accepted_all (x_sha x) s ?props" using acc by (simp add: accepted_all_def)
  have set: "(sn_path_sets s (b_id b) \<noteq> None \<longrightarrow> derived ps' d) \<and> (\<exists>c. fits_row (x_sha x) c ps' d)"
    if "snapshot_known (x_sha x) s d" for d
    by (rule dispatched_set [OF that acc' _ b refl run]) simp
  have persist: "rg (x_sha x) (snapshot_known (x_sha x) s) (persist ps' (sn_path_sets s (b_id b) \<noteq> None))
      (\<lambda>_. snapshot_known (x_sha x) s)"
    by (rule lifecycle.triple_conseq [OF triple_persist [OF stable_snapshot_known]]) (use set in auto)
  show ?thesis
    unfolding dispatch_head_def Let_def run prod.case
    by (intro rg_intros persist stable_snapshot_known)
qed

lemma keep_dispatch:
  assumes "accepted_all (x_sha x) s kept"
  shows "rg (x_sha x) (snapshot_known (x_sha x) s) (dispatch x q s kept) (\<lambda>_. snapshot_known (x_sha x) s)"
  unfolding dispatch_def
  by (rule lifecycle.triple_bind [OF keep_now], rule lifecycle.triple_for_each, rule keep_dispatch_head [OF assms])

section \<open>The handler\<close>

lemma triple_run: "rg (x_sha x) (consistent (x_sha x)) (run x trigger) (\<lambda>_. consistent (x_sha x))"
proof -
  let ?K = "snapshot_known (x_sha x)"
  have start: "rg (x_sha x) (consistent (x_sha x))
      (and_then (read_snapshot q) (\<lambda>s. admit_created (s\<lparr>sn_trigger := i\<rparr>))) ?K" for q i
    by (rule lifecycle.triple_bind [OF triple_read_snapshot],
        rule lifecycle.triple_pre [OF triple_admit_created]) (simp add: snapshot_known_def)
  have rest: "rg (x_sha x) (?K s) m (\<lambda>_. consistent (x_sha x))"
    if "rg (x_sha x) (?K s) m (\<lambda>_. ?K s)" for s and m :: "unit op"
    by (rule lifecycle.triple_conseq [OF that]) (auto simp: snapshot_known_def)
  show ?thesis
    unfolding run_def and_then_assoc [symmetric]
    by (rule lifecycle.triple_bind, rule lifecycle.triple_bind [OF start triple_finalize], rule rest)
      (intro rg_intros keep_dispatch stable_snapshot_known; simp add: accepted_all_def filter_proposals_eq)
qed

lemma triple_speculate_process:
  "rg (x_sha x) (consistent (x_sha x)) (speculate_process x key dl) (\<lambda>_. consistent (x_sha x))"
proof -
  let ?C = "\<lambda>b d. consistent (x_sha x) d \<and> known b d"
  have st: "stable (evolves (x_sha x)) (?C b)" for b by (intro stable_intros)
  have run: "rg (x_sha x) (?C b) (run x b) (\<lambda>_. consistent (x_sha x))" for b
    by (rule lifecycle.triple_pre [OF triple_run]) simp
  have get: "rg (x_sha x) (consistent (x_sha x)) (batch_get i) ?C" for i
    by (rule lifecycle.triple_conseq [OF triple_batch_get [OF stable_consistent]]) (auto simp: consistent_def)
  have admitted: "rg (x_sha x) (?C b)
      (if b_state b = BatchStateCreated then and_then (admit b) (\<lambda>_. ok ()) else ok ()) (\<lambda>_. ?C b)" for b
    by (rule lifecycle.triple_if, rule lifecycle.triple_bind [OF triple_admit [OF st]])
      (auto intro: lifecycle.triple_ok)
  have landing: "rg (x_sha x) (?C b)
      (if b_state b = BatchStateLanding then map_err (attribute [batch_subject (b_id b)]) (dispatch_land b) else ok ())
      (\<lambda>_. ?C b)" for b
    by (intro rg_intros st)
  show ?thesis
    unfolding speculate_process_def Let_def
    by (rule lifecycle.triple_bind [OF lifecycle.triple_map_err [OF keep_of_sum]], rule lifecycle.triple_case_prod,
        rule lifecycle.triple_bind [OF lifecycle.triple_map_err [OF keep_of_sum]],
        rule lifecycle.triple_bind [OF lifecycle.triple_map_err [OF keep_storage_for]],
        rule lifecycle.triple_bind [OF lifecycle.triple_map_err [OF get]],
        rule lifecycle.triple_if, rule lifecycle.triple_fail, rule lifecycle.triple_if,
        rule lifecycle.triple_bind [OF keep_fanout [OF st] run],
        rule lifecycle.triple_bind [OF admitted], rule lifecycle.triple_bind [OF landing run])
qed

section \<open>Properties\<close>

definition sample_delivery :: "string \<Rightarrow> delivery" where
  "sample_delivery i = \<lparr>dl_message = \<lparr>m_tenant = ''q'', m_topic = ''speculate'', m_id = i, m_partition = ''q'',
     m_payload = PId i ''q'', m_metadata = Map.empty, m_published_at = 0\<rparr>, dl_attempt = 1, dl_metadata = Map.empty,
     dl_failure = None\<rparr>"

text \<open>The sample head with one passed and one failed path, and a first call whose answer is lost.\<close>

definition sample_db :: db where
  "sample_db = empty_db\<lparr>d_batches := [''3'' \<mapsto> sample_head], d_path_sets := [''3'' \<mapsto> sample_set PathPassed PathFailed]\<rparr>"

definition sample_world :: "db \<Rightarrow> event list \<Rightarrow> world" where
  "sample_world d script = \<lparr>w_db = d, w_script = script, w_queue = ''q'', w_registry = (\<lambda>_. Some ''t''), w_nanos = 5000000,
     w_seq = 0, w_calls = []\<rparr>"

definition sample_exts :: exts where
  "sample_exts = \<lparr>x_sha = (\<lambda>t. t), x_speculator_for = (\<lambda>_. Inr (\<lambda>_ _. Inr []))\<rparr>"

definition sample_script :: "event list" where
  "sample_script = [Event id (Some (Applied (Plain ''timeout'')))]"

lemma sample_within: "lawful_script sha (sample_world d sample_script)"
  by (simp add: abides_def sample_world_def sample_script_def evolves_same)

lemma sample_consistent: "consistent (x_sha sample_exts) (w_db (sample_world sample_db sample_script))"
  using sample_well_formed [of PathPassed PathFailed]
  by (simp add: consistent_def keyed_def requests_keyed_def sets_ok_def sample_world_def sample_db_def empty_db_def sample_exts_def
      set_fits_def) (simp add: sample_defs path_text_def)

text \<open>
  C2. Handling one speculate message, whatever the Speculator answers, whichever database calls fail
  before or after they took effect, and whatever the other processes lawfully do in between, moves
  every batch only along the state graph, with its version going up and its identity, members and
  (once created) dependencies unchanged, and only grows the stored path sets; and every stored set
  is still made of well-formed guesses about its batch.
\<close>
theorem speculate_lawful:
  assumes "lawful_script (x_sha x) w" and "consistent (x_sha x) (w_db w)"
  shows "evolves (x_sha x) (w_db w) (w_db (snd (speculate_process x key dl w))) \<and>
    consistent (x_sha x) (w_db (snd (speculate_process x key dl w)))"
  using triple_evolves [OF triple_speculate_process assms, of key dl] assms(2)
    stableD [OF stable_consistent assms(2)] by blast

lemma speculate_lawful_witness:
  "evolves (x_sha sample_exts) sample_db
     (w_db (snd (speculate_process sample_exts TopicKeySpeculate (sample_delivery ''3'') (sample_world sample_db sample_script))))"
  using speculate_lawful [OF sample_within sample_consistent, of TopicKeySpeculate "sample_delivery ''3''"]
  by (simp add: sample_world_def)

text \<open>
  C5. No recorded result is ever lost or replayed: a path entry that was stored as passed, failed or
  cancelled is still stored, unchanged, after any speculate message was handled, under any faults and
  lawful interference; its set's version has not gone down.
\<close>
theorem speculate_keeps_results:
  assumes "lawful_script (x_sha x) w" and "consistent (x_sha x) (w_db w)"
    and "d_path_sets (w_db w) h = Some ps" and "e \<in> set (ps_paths ps)" and "path_status_is_terminal (e_status e)"
  shows "\<exists>ps'. d_path_sets (w_db (snd (speculate_process x key dl w))) h = Some ps' \<and>
    e \<in> set (ps_paths ps') \<and> ps_version ps \<le> ps_version ps'"
proof -
  from evolves_set [OF triple_evolves [OF triple_speculate_process assms(1,2,2)] assms(3)] obtain ps' where
    "d_path_sets (w_db (snd (speculate_process x key dl w))) h = Some ps'" and step: "set_step ps ps'" by blast
  moreover have "e \<in> set (ps_paths ps')" by (rule paths_grow_terminal [OF set_step_grow [OF step] assms(4,5)])
  moreover have "ps_version ps \<le> ps_version ps'" using step by (auto simp: set_step_def)
  ultimately show ?thesis by blast
qed

lemma speculate_keeps_results_witness:
  "\<exists>ps'. d_path_sets (w_db (snd (speculate_process sample_exts TopicKeySpeculate (sample_delivery ''3'')
       (sample_world sample_db sample_script)))) ''3'' = Some ps' \<and>
     sample_entry (sample_path Succeeds Succeeds) PathPassed \<in> set (ps_paths ps') \<and> 1 \<le> ps_version ps'"
  using speculate_keeps_results [OF sample_within sample_consistent, of "''3''" "sample_set PathPassed PathFailed"
      "sample_entry (sample_path Succeeds Succeeds) PathPassed" TopicKeySpeculate "sample_delivery ''3''"]
  by (simp add: sample_world_def sample_db_def) (simp add: sample_set_def sample_entry_def)

text \<open>
  A batch that has reached a terminal state is left exactly as it is by any speculate message, in
  the face of any faults and lawful interference.
\<close>
theorem speculate_terminal_final:
  assumes "lawful_script (x_sha x) w" and "consistent (x_sha x) (w_db w)"
    and "d_batches (w_db w) i = Some b" and "batch_state_is_terminal (b_state b)"
  shows "d_batches (w_db (snd (speculate_process x key dl w))) i = Some b"
  using evolves_terminal [OF triple_evolves [OF triple_speculate_process assms(1,2,2)] assms(3,4)] .

lemma speculate_terminal_final_witness:
  "d_batches (w_db (snd (speculate_process sample_exts TopicKeySpeculate (sample_delivery ''1'')
     (sample_world (empty_db\<lparr>d_batches := [''1'' \<mapsto> sample_batch ''1'' [] BatchStateSucceeded]\<rparr>) sample_script)))) ''1'' =
     Some (sample_batch ''1'' [] BatchStateSucceeded)"
  by (rule speculate_terminal_final [OF sample_within])
    (simp_all add: consistent_def keyed_def requests_keyed_def sets_ok_def sample_world_def empty_db_def sample_batch_def)

end
