(* ===== verification/Controllers.thy ===== *)
theory Controllers
  imports Lifecycle
begin

text \<open>
  What the pipeline controllers of \<open>submitqueue/orchestrator/controller\<close> have in common: the opening of
  a delivery (decode, check its identity, resolve the storage of its queue, fetch the entity it
  names, check the entity's own queue) and the publication of a bare ID.  The extensions a
  controller calls are arguments of its definition.
\<close>

section \<open>Opening a delivery\<close>

definition open_queue :: "message \<Rightarrow> string \<Rightarrow> unit op" where
  "open_queue msg queue =
     and_then (map_err (Wrapped ''invalid message identity'') (of_sum (validate_payload_queue msg queue))) (\<lambda>_.
     map_err (Wrapped ''failed to resolve storage for queue'') (storage_for queue))"

definition receive_batch :: "topic_key \<Rightarrow> delivery \<Rightarrow> batch op" where
  "receive_batch key dl =
     (let msg = dl_message dl in
      and_then (map_err (Wrapped ''failed to deserialize batch ID'')
        (of_sum (unmarshal_batch_id key (m_payload msg)))) (\<lambda>(bid, queue).
      and_then (open_queue msg queue) (\<lambda>_.
      and_then (map_err (Wrapped ''failed to get batch'') (batch_get bid)) (\<lambda>batch.
      if queue \<noteq> [] \<and> queue \<noteq> b_queue batch
      then fail (Plain ''payload queue does not match queue of batch'') else ok batch))))"

definition receive_request :: "topic_key \<Rightarrow> delivery \<Rightarrow> request op" where
  "receive_request key dl =
     (let msg = dl_message dl in
      and_then (map_err (Wrapped ''failed to deserialize request ID'')
        (of_sum (unmarshal_request_id key (m_payload msg)))) (\<lambda>(rid, queue).
      and_then (open_queue msg queue) (\<lambda>_.
      and_then (map_err (Wrapped ''failed to get request'') (request_get rid)) (\<lambda>request.
      if queue \<noteq> [] \<and> queue \<noteq> r_queue request
      then fail (Plain ''payload queue does not match queue of request'') else ok request))))"

section \<open>Publishing an ID\<close>

text \<open>
  \<open>MarshalID\<close> and \<open>publish.Message\<close>.  The controllers differ in the text they wrap the two errors
  with, and some do not wrap the second.
\<close>

definition publish_id ::
  "string \<Rightarrow> (goerr \<Rightarrow> goerr) \<Rightarrow> topic_key \<Rightarrow> string \<Rightarrow> string \<Rightarrow> string \<Rightarrow> string \<Rightarrow> metadata \<Rightarrow> unit op" where
  "publish_id what wrap key msg_id i queue partition_key meta =
     and_then (map_err (Wrapped what) (of_sum (marshal_id key i queue))) (\<lambda>payload.
     map_err wrap (publish_message key \<lparr>mp_tenant = queue, mp_id = msg_id, mp_payload = payload,
       mp_partition = partition_key, mp_metadata = meta\<rparr>))"

text \<open>\<open>err != nil && !errors.Is(err, storage.ErrAlreadyExists)\<close>: a create that a redelivery repeats.\<close>

definition create_once :: "string \<Rightarrow> unit op \<Rightarrow> unit op" where
  "create_once what m = and_then (attempt m) (\<lambda>r. case r of
     Inl e \<Rightarrow> if is_already_exists e then ok () else fail (Wrapped what e)
   | Inr _ \<Rightarrow> ok ())"

section \<open>They keep\<close>

lemma keep_open_queue [rg_intros]: "rg sha P (open_queue msg q) (\<lambda>_. P)"
  unfolding open_queue_def by (intro rg_intros)

lemma keep_publish_id [rg_intros]:
  "stable (evolves sha) P \<Longrightarrow> rg sha P (publish_id what wrap key mid i q pk meta) (\<lambda>_. P)"
  unfolding publish_id_def by (intro rg_intros)

lemma keep_create_once [rg_intros]:
  "rg sha P m (\<lambda>_. P) \<Longrightarrow> stable (evolves sha) P \<Longrightarrow> rg sha P (create_once what m) (\<lambda>_. P)"
  unfolding create_once_def by (intro rg_intros)

text \<open>What an opened delivery hands on is a value its row has or had.\<close>

lemma triple_receive_batch:
  "rg sha (consistent sha) (receive_batch key dl) (\<lambda>b d. consistent sha d \<and> known b d)"
proof -
  have get: "rg sha (consistent sha) (batch_get i) (\<lambda>b d. consistent sha d \<and> known b d)" for i
    by (rule lifecycle.triple_conseq [OF triple_batch_get [OF stable_consistent]]) (auto simp: consistent_def)
  have check: "rg sha (\<lambda>d. consistent sha d \<and> known b d)
      (if c then fail e else ok b) (\<lambda>b d. consistent sha d \<and> known b d)" for b c e
    by (auto intro!: lifecycle.triple_fail lifecycle.triple_ok)
  show ?thesis
    unfolding receive_batch_def Let_def
    by (rule lifecycle.triple_bind [OF lifecycle.triple_map_err [OF keep_of_sum]], rule lifecycle.triple_case_prod,
        rule lifecycle.triple_bind [OF keep_open_queue], rule lifecycle.triple_bind [OF lifecycle.triple_map_err [OF get]],
        rule check)
qed

lemma triple_receive_request:
  "rg sha (consistent sha) (receive_request key dl) (\<lambda>r d. consistent sha d \<and> known_request r d)"
proof -
  have get: "rg sha (consistent sha) (request_get i) (\<lambda>r d. consistent sha d \<and> known_request r d)" for i
    by (rule lifecycle.triple_conseq [OF triple_request_get [OF stable_consistent]]) (auto simp: consistent_def)
  have check: "rg sha (\<lambda>d. consistent sha d \<and> known_request r d)
      (if c then fail e else ok r) (\<lambda>r d. consistent sha d \<and> known_request r d)" for r c e
    by (auto intro!: lifecycle.triple_fail lifecycle.triple_ok)
  show ?thesis
    unfolding receive_request_def Let_def
    by (rule lifecycle.triple_bind [OF lifecycle.triple_map_err [OF keep_of_sum]], rule lifecycle.triple_case_prod,
        rule lifecycle.triple_bind [OF keep_open_queue], rule lifecycle.triple_bind [OF lifecycle.triple_map_err [OF get]],
        rule check)
qed

lemma stable_consistent_batch: "stable (evolves sha) (\<lambda>d. consistent sha d \<and> known b d)"
  by (intro stable_intros)

lemma stable_consistent_request: "stable (evolves sha) (\<lambda>d. consistent sha d \<and> known_request r d)"
  by (intro stable_intros)

text \<open>A handler that is lawful ends where it started: in a consistent database, by lawful changes.\<close>

abbreviation lawful :: "(string \<Rightarrow> string) \<Rightarrow> 'a op \<Rightarrow> bool" where
  "lawful sha m \<equiv> rg sha (consistent sha) m (\<lambda>_. consistent sha)"

lemma lawful_receive_batch:
  assumes "\<And>b. rg sha (\<lambda>d. consistent sha d \<and> known b d) (f b) (\<lambda>_ d. consistent sha d \<and> known b d)"
  shows "lawful sha (and_then (receive_batch key dl) f)"
  by (rule lifecycle.triple_bind [OF triple_receive_batch], rule lifecycle.triple_conseq [OF assms]) auto

lemma lawful_receive_request:
  assumes "\<And>r. rg sha (\<lambda>d. consistent sha d \<and> known_request r d) (f r) (\<lambda>_ d. consistent sha d \<and> known_request r d)"
  shows "lawful sha (and_then (receive_request key dl) f)"
  by (rule lifecycle.triple_bind [OF triple_receive_request], rule lifecycle.triple_conseq [OF assms]) auto

lemma consistent_keyed: "consistent sha d \<Longrightarrow> keyed d \<and> requests_keyed d \<and> sets_ok sha d"
  by (simp add: consistent_def)

end
