(* ===== verification/Intake.thy ===== *)
theory Intake
  imports Controllers
begin

text \<open>
  The request half of the pipeline, in the order a request passes it: \<open>start\<close> stores it, \<open>validate\<close>
  claims its changes and asks Runway whether it merges, \<open>landconflictsignal\<close> takes Runway's answer,
  \<open>batch\<close> mints a batch for it, and \<open>cancel\<close> calls it off at any point.  The change provider, the
  custom validators, the counter factory and Runway are arguments or messages.
\<close>

section \<open>start\<close>

definition start_publish :: "string \<Rightarrow> string \<Rightarrow> unit op" where
  "start_publish request_id queue =
     publish_id ''failed to serialize request ID'' (Wrapped ''failed to publish message'')
       TopicKeyValidate (intent_id request_id []) request_id queue queue Map.empty"

definition start_process :: "delivery \<Rightarrow> unit op" where
  "start_process dl =
     (let msg = dl_message dl in
      and_then (map_err (Wrapped ''failed to deserialize land request'')
        (of_sum (unmarshal_land_request (m_payload msg)))) (\<lambda>lr.
      and_then (open_queue msg (lr_queue lr)) (\<lambda>_.
      let request = \<lparr>r_id = lr_id lr, r_queue = lr_queue lr, r_uris = lr_uris lr,
            r_land_strategy = lr_land_strategy lr, r_state = RequestStateStarted, r_version = 1\<rparr> in
      and_then (create_once ''failed to create request'' (request_create request)) (\<lambda>_.
      and_then get_now_ms (\<lambda>t.
      and_then (map_err (Wrapped ''failed to publish request log'')
        (publish_log (new_request_status_log t (r_queue request) (r_id request) RequestStatusStarted
           (r_version request) [] Map.empty) (r_id request) [])) (\<lambda>_.
      map_err (Wrapped ''failed to publish to validate'') (start_publish (r_id request) (r_queue request))))))))"

section \<open>validate\<close>

text \<open>
  The search for a live request that has claimed one of the URIs.  The loop carries the owners
  already looked at and the duplicate once it is found, after which nothing more is read.
\<close>

definition check_record :: "request \<Rightarrow> change_record \<Rightarrow> string list \<times> string \<Rightarrow> (string list \<times> string) op" where
  "check_record request rec s = (case s of (seen, found) \<Rightarrow>
     if found \<noteq> [] \<or> ch_request rec = r_id request \<or> ch_request rec \<in> set seen then ok (seen, found)
     else
       let seen = ch_request rec # seen in
       and_then (attempt (request_get (ch_request rec))) (\<lambda>owner. case owner of
         Inl e \<Rightarrow>
           if is_not_found e then ok (seen, found)
           else fail (Wrapped ''failed to look up overlapping request'' e)
       | Inr owner \<Rightarrow>
           ok (seen, if is_request_state_terminal (r_state owner) then found else ch_request rec)))"

definition check_uri :: "request \<Rightarrow> string \<Rightarrow> string list \<times> string \<Rightarrow> (string list \<times> string) op" where
  "check_uri request uri s =
     (if snd s \<noteq> [] then ok s
      else and_then (map_err (Wrapped ''failed to query change store for request'') (change_get_by_uri uri)) (\<lambda>records.
        fold_act (check_record request) records s))"

definition check_duplicate :: "request \<Rightarrow> string op" where
  "check_duplicate request =
     and_then (fold_act (check_uri request) (r_uris request) ([], [])) (\<lambda>s. ok (snd s))"

definition claim_change :: "request \<Rightarrow> int \<Rightarrow> change_info \<Rightarrow> unit op" where
  "claim_change request now info =
     map_err (Wrapped ''failed to claim uri for request'')
       (change_create \<lparr>ch_uri = ci_uri info, ch_request = r_id request, ch_queue = r_queue request,
          ch_details = ci_details info, ch_created_at = now, ch_updated_at = now, ch_version = 1\<rparr>)"

definition claim_changes :: "request \<Rightarrow> change_info list \<Rightarrow> unit op" where
  "claim_changes request infos = and_then get_now_ms (\<lambda>now. for_each (claim_change request now) infos)"

definition to_proto_strategy :: "string \<Rightarrow> proto_strategy" where
  "to_proto_strategy s =
     (if s = ''rebase'' then REBASE else if s = ''squash_rebase'' then SQUASH_REBASE
      else if s = ''merge'' then MERGE else if s = ''promote'' then PROMOTE else DEFAULT)"

text \<open>Both publishers of merge requests, the one here and the one of the land controller.\<close>

definition publish_merge_request :: "string \<Rightarrow> topic_key \<Rightarrow> merge_request \<Rightarrow> string \<Rightarrow> unit op" where
  "publish_merge_request what key req partition_key =
     map_err (Wrapped what)
       (publish_message key \<lparr>mp_tenant = mq_queue req, mp_id = intent_id (mq_id req) [],
          mp_payload = PMergeRequest req, mp_partition = partition_key, mp_metadata = Map.empty\<rparr>)"

definition publish_land_conflict_check :: "topic_key \<Rightarrow> merge_request \<Rightarrow> unit op" where
  "publish_land_conflict_check key req =
     publish_merge_request ''failed to publish message'' key req (mq_queue req)"

definition reject :: "string \<Rightarrow> string \<Rightarrow> unit op" where
  "reject request_id reason =
     and_then (map_err (Wrapped ''failed to terminate rejected request'')
       (terminate_request request_id RequestStateError reason Map.empty)) (\<lambda>_. ok ())"

definition err_rejected :: goerr where
  "err_rejected = Plain ''rejected''"

text \<open>
  The extensions: the change provider and the optional validators, each resolved per queue, and
  the text an error shows as (\<open>fmt.Sprintf("%v", err)\<close>), which is kept as a whole in no model
  value.
\<close>

record validate_exts =
  v_provider_for :: "string \<Rightarrow> goerr + (request \<Rightarrow> goerr + change_info list)"
  v_validators :: "(string \<Rightarrow> goerr + (request \<Rightarrow> goerr + unit) option) option"
  v_error_text :: "goerr \<Rightarrow> string"

text \<open>The custom validation: \<open>None\<close> when the request may go on, the reason when it is rejected.\<close>

definition custom_validation :: "validate_exts \<Rightarrow> request \<Rightarrow> string option op" where
  "custom_validation x request = (case v_validators x of
     None \<Rightarrow> ok None
   | Some validator_for \<Rightarrow>
       and_then (map_err (Wrapped ''failed to build validator for request'')
         (of_sum (validator_for (r_queue request)))) (\<lambda>v. case v of
         None \<Rightarrow> ok None
       | Some validate \<Rightarrow> (case validate request of
           Inr _ \<Rightarrow> ok None
         | Inl e \<Rightarrow>
             if \<not> errors_is e err_rejected then fail (Wrapped ''failed to validate request'' e)
             else ok (Some (''custom validation failed: '' @ v_error_text x e)))))"

definition validate_process :: "validate_exts \<Rightarrow> topic_key \<Rightarrow> topic_key \<Rightarrow> delivery \<Rightarrow> unit op" where
  "validate_process x runway_key key dl =
     and_then (receive_request key dl) (\<lambda>request.
     if is_request_state_halted (r_state request) then ok ()
     else
       and_then get_now_ms (\<lambda>t.
       and_then (map_err (Wrapped ''failed to publish request log'')
         (publish_log (new_request_status_log t (r_queue request) (r_id request) RequestStatusValidating 0 [] Map.empty)
           (r_id request) [])) (\<lambda>_.
       and_then (check_duplicate request) (\<lambda>dup.
       if dup \<noteq> [] then
         reject (r_id request) (''request '' @ r_id request @ '' is a duplicate of in-flight request '' @ dup)
       else
         and_then (map_err (Wrapped ''failed to build change provider for queue'')
           (of_sum (v_provider_for x (r_queue request)))) (\<lambda>provider.
         and_then (map_err (Wrapped ''failed to fetch change information for request'') (of_sum (provider request))) (\<lambda>infos.
         and_then (custom_validation x request) (\<lambda>rejected. case rejected of
           Some reason \<Rightarrow> reject (r_id request) reason
         | None \<Rightarrow>
             and_then (map_err (Wrapped ''failed to claim change records for request'') (claim_changes request infos)) (\<lambda>_.
             map_err (Wrapped ''failed to publish to runway merge-conflict-check'')
               (publish_land_conflict_check runway_key
                 \<lparr>mq_id = r_id request, mq_queue = r_queue request,
                  mq_steps = [\<lparr>ms_step = r_id request, ms_uris = r_uris request,
                    ms_strategy = to_proto_strategy (r_land_strategy request)\<rparr>]\<rparr>)))))))))"

section \<open>landconflictsignal\<close>

definition unmarshal_merge_result :: "payload \<Rightarrow> goerr + merge_result" where
  "unmarshal_merge_result p = (case p of PMergeResult r \<Rightarrow> Inr r | _ \<Rightarrow> Inl (Plain ''malformed payload''))"

definition conflict_log :: "request \<Rightarrow> request_status \<Rightarrow> string \<Rightarrow> unit op" where
  "conflict_log request status last_error =
     and_then get_now_ms (\<lambda>t.
     map_err (Wrapped ''failed to publish request log'')
       (publish_log (new_request_status_log t (r_queue request) (r_id request) status (r_version request) last_error Map.empty)
         (r_id request) []))"

definition fail_request :: "request \<Rightarrow> string \<Rightarrow> unit op" where
  "fail_request request reason =
     (if r_state request = RequestStateError then conflict_log request RequestStatusError reason
      else if is_request_state_terminal (r_state request) then ok ()
      else
        let new_version = r_version request + 1; request = request\<lparr>r_state := RequestStateError\<rparr> in
        and_then (map_err (Wrapped ''failed to update request state to error'')
          (request_update request (r_version request) new_version)) (\<lambda>_.
        conflict_log (request\<lparr>r_version := new_version\<rparr>) RequestStatusError reason))"

definition publish_request_id :: "string \<Rightarrow> string \<Rightarrow> unit op" where
  "publish_request_id request_id queue =
     publish_id ''failed to serialize request ID'' (Wrapped ''failed to publish message'')
       TopicKeyBatch (intent_id request_id []) request_id queue queue Map.empty"

definition landconflictsignal_process :: "delivery \<Rightarrow> unit op" where
  "landconflictsignal_process dl =
     (let msg = dl_message dl in
      and_then (map_err (Wrapped ''failed to deserialize land conflict check result'')
        (of_sum (unmarshal_merge_result (m_payload msg)))) (\<lambda>res.
      and_then (open_queue msg (mr_queue res)) (\<lambda>_.
      and_then (map_err (Wrapped ''failed to get request'') (request_get (mr_id res))) (\<lambda>request.
      if is_request_state_halted (r_state request) then ok ()
      else if mr_outcome res \<noteq> OutcomeSucceeded then
        map_err (Wrapped ''failed to fail request'') (fail_request request (mr_reason res))
      else
        let new_version = r_version request + 1; request = request\<lparr>r_state := RequestStateValidated\<rparr> in
        and_then (map_err (Wrapped ''failed to update request state to validated'')
          (request_update request (r_version request) new_version)) (\<lambda>_.
        let request = request\<lparr>r_version := new_version\<rparr> in
        and_then (conflict_log request RequestStatusValidated []) (\<lambda>_.
        map_err (Wrapped ''failed to publish to batch'') (publish_request_id (r_id request) (r_queue request))))))))"

section \<open>batch\<close>

abbreviation counter_domain_batch :: string where
  "counter_domain_batch \<equiv> ''batch''"

definition publish_to_dependency_analysis :: "batch \<Rightarrow> unit op" where
  "publish_to_dependency_analysis b =
     publish_id ''failed to serialize batch ID'' (Wrapped ''failed to publish message'')
       TopicKeyDependencyAnalysis (intent_id (b_id b) []) (b_id b) (b_queue b) (b_queue b) Map.empty"

definition batch_process :: "(string \<Rightarrow> goerr + unit) \<Rightarrow> topic_key \<Rightarrow> delivery \<Rightarrow> unit op" where
  "batch_process counter_for key dl =
     and_then (receive_request key dl) (\<lambda>request.
     if is_request_state_halted (r_state request) then ok ()
     else
       and_then (map_err (Wrapped ''failed to resolve counter for queue'') (of_sum (counter_for (r_queue request)))) (\<lambda>_.
       and_then (map_err (Wrapped ''failed to generate batch ID for queue'') (counter_next counter_domain_batch)) (\<lambda>seq.
       and_then (map_err (Wrapped ''generated invalid batch ID for queue'') (of_sum (from_counter seq))) (\<lambda>batch_id.
       let batch = \<lparr>b_id = batch_id, b_queue = r_queue request, b_contains = [r_id request], b_deps = [],
             b_state = BatchStateCreating, b_version = 1\<rparr> in
       and_then (map_err (Wrapped ''failed to create batch in batch store'') (batch_create batch)) (\<lambda>_.
       and_then get_now_ms (\<lambda>t.
       and_then (map_err (Wrapped ''failed to publish request log for request'')
         (publish_log (new_request_status_log t (r_queue request) (r_id request) RequestStatusBatching
            (r_version request) [] [''batch_id'' \<mapsto> b_id batch]) (r_id request) [])) (\<lambda>_.
       map_err (Wrapped ''failed to publish batch ID to dependency-analysis topic'')
         (publish_to_dependency_analysis batch))))))))"

section \<open>cancel\<close>

definition mark_request_cancelling :: "request \<Rightarrow> request op" where
  "mark_request_cancelling request =
     (if r_state request = RequestStateCancelling then ok request
      else
        let new_version = r_version request + 1; request = request\<lparr>r_state := RequestStateCancelling\<rparr> in
        and_then (map_err (Wrapped ''failed to mark request as cancelling'')
          (request_update request (r_version request) new_version)) (\<lambda>_.
        ok (request\<lparr>r_version := new_version\<rparr>)))"

definition cancel_request_now :: "request \<Rightarrow> string \<Rightarrow> unit op" where
  "cancel_request_now request reason =
     (let meta = (if reason \<noteq> [] then [''reason'' \<mapsto> reason] else Map.empty) in
      and_then (map_err (Wrapped ''failed to cancel request'')
        (terminate_request (r_id request) RequestStateCancelled [] meta)) (\<lambda>res.
      if tr_outcome res = TerminationOutcomeNotFound
      then fail (Wrapped ''request not found during cancel'' ErrNotFound) else ok ()))"

definition cancel_publish_batch_id :: "string \<Rightarrow> string \<Rightarrow> unit op" where
  "cancel_publish_batch_id batch_id queue =
     and_then (unique_id batch_id) (\<lambda>msg_id.
     publish_id ''failed to serialize batch ID'' id TopicKeySpeculate msg_id batch_id queue queue Map.empty)"

definition cancel_batch :: "batch \<Rightarrow> unit op" where
  "cancel_batch b =
     and_then
       (if b_state b \<noteq> BatchStateCancelling
        then map_err (Wrapped ''failed to mark batch as cancelling'') (transition b BatchStateCancelling)
        else and_then (ensure_record b) (\<lambda>_. ok b)) (\<lambda>b.
     map_err (Wrapped ''failed to hand off cancelled batch to speculate'')
       (cancel_publish_batch_id (b_id b) (b_queue b)))"

text \<open>The loop over the batches of the request: the first error, and whether any batch applied.\<close>

definition cancel_one :: "batch \<Rightarrow> goerr option \<times> bool \<Rightarrow> (goerr option \<times> bool) op" where
  "cancel_one b s = (case s of (first_err, found) \<Rightarrow>
     if batch_state_is_cancellable (b_state b) then
       and_then (attempt (cancel_batch b)) (\<lambda>r. case r of
         Inl e \<Rightarrow> ok (if first_err = None then Some e else first_err, True)
       | Inr _ \<Rightarrow> ok (first_err, True))
     else if b_state b = BatchStateLanding then ok (first_err, True)
     else if batch_state_is_terminal (b_state b) then ok (first_err, True)
     else ok (first_err, found))"

definition cancel_process :: "delivery \<Rightarrow> unit op" where
  "cancel_process dl =
     (let msg = dl_message dl in
      and_then (map_err (Wrapped ''failed to deserialize cancel request'')
        (of_sum (unmarshal_cancel_request (m_payload msg)))) (\<lambda>cr.
      and_then (open_queue msg (cr_queue cr)) (\<lambda>_.
      and_then (map_err (Wrapped ''failed to get request'') (request_get (cr_id cr))) (\<lambda>request.
      if cr_queue cr \<noteq> [] \<and> cr_queue cr \<noteq> r_queue request
      then fail (Plain ''payload queue does not match queue of request'')
      else if is_request_state_terminal (r_state request) then ok ()
      else
        and_then (mark_request_cancelling request) (\<lambda>request.
        and_then (find_by_request_id (r_id request)) (\<lambda>(batches, stale).
        and_then (fold_act cancel_one batches (None, False)) (\<lambda>(first_err, found).
        if \<not> found then cancel_request_now request (cr_reason cr)
        else (case first_err of Some e \<Rightarrow> fail e | None \<Rightarrow> ok ()))))))))"

end
