(* ===== verification/IntakeSafe.thy ===== *)
theory IntakeSafe
  imports Intake
begin

text \<open>
  The request half of the pipeline keeps the contract of \<open>Lifecycle\<close>: under any faults and any lawful
  interference each handler only moves requests and batches along their graphs.  In particular a
  request that has ended is never touched again.
\<close>

section \<open>Every handler is lawful\<close>

lemma keep_check_record [rg_intros]:
  "stable (evolves sha) P \<Longrightarrow> rg sha P (check_record r rec s) (\<lambda>_. P)"
  unfolding check_record_def Let_def by (intro rg_intros)

lemma keep_check_uri [rg_intros]: "stable (evolves sha) P \<Longrightarrow> rg sha P (check_uri r u s) (\<lambda>_. P)"
  unfolding check_uri_def by (intro rg_intros)

lemma keep_check_duplicate [rg_intros]: "stable (evolves sha) P \<Longrightarrow> rg sha P (check_duplicate r) (\<lambda>_. P)"
  unfolding check_duplicate_def by (intro rg_intros)

lemma keep_claim_changes [rg_intros]: "stable (evolves sha) P \<Longrightarrow> rg sha P (claim_changes r is) (\<lambda>_. P)"
  unfolding claim_changes_def claim_change_def by (intro rg_intros)

lemma keep_publish_merge_request [rg_intros]:
  "stable (evolves sha) P \<Longrightarrow> rg sha P (publish_merge_request what key req pk) (\<lambda>_. P)"
  unfolding publish_merge_request_def by (intro rg_intros)

lemma keep_custom_validation [rg_intros]: "rg sha P (custom_validation x r) (\<lambda>_. P)"
  unfolding custom_validation_def by (intro rg_intros)

lemma keep_reject [rg_intros]:
  "stable (evolves sha) P \<Longrightarrow> (\<And>d. P d \<Longrightarrow> requests_keyed d) \<Longrightarrow> rg sha P (reject i reason) (\<lambda>_. P)"
  unfolding reject_def by (intro rg_intros)

lemma lawful_start: "lawful sha (start_process dl)"
  unfolding start_process_def start_publish_def Let_def by (intro rg_intros stable_consistent)

lemma lawful_validate: "lawful sha (validate_process x rk key dl)"
  unfolding validate_process_def publish_land_conflict_check_def
  by (rule lawful_receive_request) (intro rg_intros stable_consistent_request; auto dest: consistent_keyed)

lemma lawful_batch: "lawful sha (batch_process cf key dl)"
  unfolding batch_process_def publish_to_dependency_analysis_def Let_def
  by (rule lawful_receive_request) (intro rg_intros stable_consistent_request)

text \<open>The controllers that move a request they read.\<close>

lemma request_edges:
  "\<not> is_request_state_halted s \<Longrightarrow> request_edge s RequestStateValidated"
  "\<not> is_request_state_halted s \<Longrightarrow> request_edge s RequestStateBatched"
  "\<not> is_request_state_terminal s \<Longrightarrow> request_edge s RequestStateError"
  "\<not> is_request_state_terminal s \<Longrightarrow> s \<noteq> RequestStateCancelling \<Longrightarrow> request_edge s RequestStateCancelling"
  by (auto simp: request_edge_def state_defs)

lemma keep_conflict_log [rg_intros]:
  "stable (evolves sha) P \<Longrightarrow> rg sha P (conflict_log r st e) (\<lambda>_. P)"
  unfolding conflict_log_def by (intro rg_intros)

lemma keep_fail_request:
  "rg sha (\<lambda>d. consistent sha d \<and> known_request r d) (fail_request r reason)
     (\<lambda>_ d. consistent sha d \<and> known_request r d)"
proof -
  have upd: "rg sha (\<lambda>d. consistent sha d \<and> known_request r d)
      (request_update (r\<lparr>r_state := RequestStateError\<rparr>) (r_version r) (r_version r + 1))
      (\<lambda>_ d. consistent sha d \<and> known_request r d)" if "\<not> is_request_state_terminal (r_state r)"
    by (rule triple_request_move [OF stable_consistent_request]) (use that in \<open>auto intro: request_edges\<close>)
  show ?thesis
    unfolding fail_request_def Let_def
    by (intro rg_intros stable_consistent_request) (use upd in simp)
qed

lemma lawful_landconflictsignal: "lawful sha (landconflictsignal_process dl)"
proof -
  have get: "rg sha (consistent sha) (request_get i) (\<lambda>r d. consistent sha d \<and> known_request r d)" for i
    by (rule lifecycle.triple_conseq [OF triple_request_get [OF stable_consistent]]) (auto simp: consistent_def)
  have upd: "rg sha (\<lambda>d. consistent sha d \<and> known_request r d)
      (request_update (r\<lparr>r_state := RequestStateValidated\<rparr>) (r_version r) (r_version r + 1))
      (\<lambda>_ d. consistent sha d \<and> known_request r d)" if "\<not> is_request_state_halted (r_state r)" for r
    by (rule triple_request_move [OF stable_consistent_request]) (use that in \<open>auto intro: request_edges\<close>)
  let ?body = "\<lambda>res request.
      if is_request_state_halted (r_state request) then ok ()
      else if mr_outcome res \<noteq> OutcomeSucceeded then
        map_err (Wrapped ''failed to fail request'') (fail_request request (mr_reason res))
      else
        let new_version = r_version request + 1; request = request\<lparr>r_state := RequestStateValidated\<rparr> in
        and_then (map_err (Wrapped ''failed to update request state to validated'')
          (request_update request (r_version request) new_version)) (\<lambda>_.
        let request = request\<lparr>r_version := new_version\<rparr> in
        and_then (conflict_log request RequestStatusValidated []) (\<lambda>_.
        map_err (Wrapped ''failed to publish to batch'') (publish_request_id (r_id request) (r_queue request))))"
  have body: "rg sha (\<lambda>d. consistent sha d \<and> known_request r d) (?body res r)
      (\<lambda>_ d. consistent sha d \<and> known_request r d)" for res r
    unfolding Let_def publish_request_id_def
    by (intro rg_intros stable_consistent_request keep_fail_request) (use upd [of r] in simp)
  have final: "rg sha (\<lambda>d. consistent sha d \<and> known_request r d) (?body res r) (\<lambda>_. consistent sha)" for res r
    by (rule lifecycle.triple_conseq [OF body]) auto
  show ?thesis
    unfolding landconflictsignal_process_def Let_def [of "dl_message dl"]
    by (rule keep_bind [OF lifecycle.triple_map_err [OF keep_of_sum]], rule keep_bind [OF keep_open_queue],
        rule lifecycle.triple_bind [OF lifecycle.triple_map_err [OF get]], rule final)
qed

section \<open>cancel\<close>

lemma keep_find_association [rg_intros]:
  "stable (evolves sha) P \<Longrightarrow> rg sha P (find_association a s) (\<lambda>_. P)"
  unfolding find_association_def by (intro rg_intros)

text \<open>The batches found are values their rows have or had.\<close>

lemma triple_find_by_request_id:
  assumes "stable (evolves sha) P" and "\<And>d. P d \<Longrightarrow> keyed d"
  shows "rg sha P (find_by_request_id i) (\<lambda>(bs, stale) d. P d \<and> (\<forall>b\<in>set bs. known b d))"
proof -
  have st: "stable (evolves sha) (\<lambda>d. P d \<and> (\<forall>b\<in>set bs. known b d))" for bs
    by (intro stable_intros assms(1))
  have step: "rg sha (\<lambda>d. P d \<and> (\<forall>b\<in>set (fst s). known b d)) (find_association a s)
      (\<lambda>s' d. P d \<and> (\<forall>b\<in>set (fst s'). known b d))" for a s
  proof (cases s)
    case (Pair bs n)
    have get: "rg sha (\<lambda>d. P d \<and> (\<forall>b\<in>set bs. known b d)) (attempt (batch_get (rb_batch a)))
        (\<lambda>r d. (P d \<and> (\<forall>b\<in>set bs. known b d)) \<and> (\<forall>b. r = Inr b \<longrightarrow> (P d \<and> (\<forall>b\<in>set bs. known b d)) \<and> known b d \<and> b_id b = rb_batch a))"
      by (rule lifecycle.triple_attempt [OF triple_batch_get [OF st] st]) (use assms(2) in blast)
    show ?thesis
      unfolding find_association_def Pair prod.case fst_conv
    proof (rule lifecycle.triple_bind [OF get])
      fix r
      show "rg sha
          (\<lambda>d. (P d \<and> (\<forall>b\<in>set bs. known b d)) \<and> (\<forall>b. r = Inr b \<longrightarrow> (P d \<and> (\<forall>b\<in>set bs. known b d)) \<and> known b d \<and> b_id b = rb_batch a))
          (case r of Inl e \<Rightarrow> if is_not_found e then ok (bs, n + 1) else fail (Wrapped ''failed to get associated batch'' e)
           | Inr b \<Rightarrow> ok (bs @ [b], n)) (\<lambda>s' d. P d \<and> (\<forall>b\<in>set (fst s'). known b d))"
        by (cases r) (auto intro!: lifecycle.triple_ok lifecycle.triple_if lifecycle.triple_fail)
    qed
  qed
  have loop: "rg sha P (fold_act find_association as ([], 0)) (\<lambda>s d. P d \<and> (\<forall>b\<in>set (fst s). known b d))" for as
    using lifecycle.triple_fold_act [where P = "\<lambda>s d. P d \<and> (\<forall>b\<in>set (fst s). known b d)" and xs = as and s = "([], 0)", OF step]
    by simp
  show ?thesis
    unfolding find_by_request_id_def
  proof (rule lifecycle.triple_bind [OF lifecycle.triple_map_err [OF keep_stores(3) [OF assms(1)]]],
      rule lifecycle.triple_bind [OF loop])
    show "rg sha (\<lambda>d. P d \<and> (\<forall>b\<in>set (fst s). known b d))
        (case s of (batches, stale) \<Rightarrow> ok (sort_key b_id batches, stale))
        (\<lambda>(bs, stale) d. P d \<and> (\<forall>b\<in>set bs. known b d))" for s
      by (cases s) (auto intro!: lifecycle.triple_ok)
  qed
qed

lemma cancellable_edge:
  "batch_state_is_cancellable s \<Longrightarrow> s \<noteq> BatchStateCancelling \<Longrightarrow> batch_edge s BatchStateCancelling"
  by (cases s) (simp_all add: batch_edge_def state_defs)

lemma keep_cancel_batch:
  assumes "batch_state_is_cancellable (b_state b)"
  shows "rg sha (\<lambda>d. consistent sha d \<and> known b d) (cancel_batch b) (\<lambda>_ d. consistent sha d \<and> known b d)"
proof -
  have move: "rg sha (\<lambda>d. consistent sha d \<and> known b d) (transition b BatchStateCancelling)
      (\<lambda>_ d. consistent sha d \<and> known b d)" if "b_state b \<noteq> BatchStateCancelling"
    by (rule lifecycle.triple_conseq [OF triple_transition [OF stable_consistent_batch _ cancellable_edge [OF assms that]]]) auto
  show ?thesis
    unfolding cancel_batch_def cancel_publish_batch_id_def
    by (intro rg_intros stable_consistent_batch) (use move in simp)
qed

lemma keep_cancel_one:
  "rg sha (\<lambda>d. consistent sha d \<and> known b d) (cancel_one b s) (\<lambda>_. consistent sha)"
proof -
  have "rg sha (\<lambda>d. consistent sha d \<and> known b d) (cancel_one b s) (\<lambda>_ d. consistent sha d \<and> known b d)"
    unfolding cancel_one_def
    by (intro rg_intros stable_consistent_batch) (use keep_cancel_batch in simp)
  then show ?thesis by (rule lifecycle.triple_conseq) auto
qed

lemma triple_mark_request_cancelling:
  assumes "\<not> is_request_state_terminal (r_state r)"
  shows "rg sha (\<lambda>d. consistent sha d \<and> known_request r d) (mark_request_cancelling r) (\<lambda>_. consistent sha)"
proof (cases "r_state r = RequestStateCancelling")
  case True
  then show ?thesis by (auto simp: mark_request_cancelling_def intro!: lifecycle.triple_ok)
next
  case False
  with assms have "request_edge (r_state r) RequestStateCancelling" by (rule request_edges)
  from triple_request_move [OF stable_consistent_request _ this]
  have upd: "rg sha (\<lambda>d. consistent sha d \<and> known_request r d)
      (request_update (r\<lparr>r_state := RequestStateCancelling\<rparr>) (r_version r) (r_version r + 1))
      (\<lambda>_ d. consistent sha d \<and> known_request r d)" by blast
  have "rg sha (\<lambda>d. consistent sha d \<and> known_request r d) (mark_request_cancelling r)
      (\<lambda>_ d. consistent sha d \<and> known_request r d)"
    unfolding mark_request_cancelling_def Let_def
    by (intro rg_intros) (use upd in simp)
  then show ?thesis by (rule lifecycle.triple_conseq) auto
qed

lemma keep_cancel_request_now: "lawful sha (cancel_request_now r reason)"
  unfolding cancel_request_now_def Let_def by (intro rg_intros stable_consistent; simp add: consistent_keyed)

lemma lawful_cancel: "lawful sha (cancel_process dl)"
proof -
  have get: "rg sha (consistent sha) (request_get i) (\<lambda>r d. consistent sha d \<and> known_request r d)" for i
    by (rule lifecycle.triple_conseq [OF triple_request_get [OF stable_consistent]]) (auto simp: consistent_def)
  have find: "rg sha (consistent sha) (find_by_request_id i) (\<lambda>s d. consistent sha d \<and> (\<forall>b\<in>set (fst s). known b d))" for i
    by (rule lifecycle.triple_conseq [OF triple_find_by_request_id [OF stable_consistent]]) (auto simp: consistent_def)
  have loop: "rg sha (\<lambda>d. consistent sha d \<and> (\<forall>b\<in>set bs. known b d)) (fold_act cancel_one bs s) (\<lambda>_. consistent sha)" for bs s
  proof (induction bs arbitrary: s)
    case Nil
    show ?case by (auto intro!: lifecycle.triple_ok)
  next
    case (Cons b bs)
    have st: "stable (evolves sha) (\<lambda>d. \<forall>b\<in>set bs. known b d)" by (intro stable_intros)
    have first: "rg sha (\<lambda>d. consistent sha d \<and> (\<forall>b\<in>set (b # bs). known b d)) (cancel_one b s)
        (\<lambda>_ d. consistent sha d \<and> (\<forall>b\<in>set bs. known b d))"
      by (rule lifecycle.triple_conseq [OF lifecycle.triple_frame [OF keep_cancel_one [of sha b s] st]]) auto
    show ?case
      unfolding fold_act.simps by (rule lifecycle.triple_bind [OF first Cons.IH])
  qed
  have after: "rg sha (\<lambda>d. consistent sha d \<and> (\<forall>b\<in>set (fst s). known b d))
      (case s of (batches, stale) \<Rightarrow> and_then (fold_act cancel_one batches (None, False)) (\<lambda>(first_err, found).
         if \<not> found then cancel_request_now r reason
         else (case first_err of Some e \<Rightarrow> fail e | None \<Rightarrow> ok ()))) (\<lambda>_. consistent sha)" for s r reason
    by (cases s) (auto intro!: lifecycle.triple_bind [OF loop] lifecycle.triple_if lifecycle.triple_case_option
        keep_cancel_request_now lifecycle.triple_fail lifecycle.triple_ok)
  have body: "rg sha (\<lambda>d. consistent sha d \<and> known_request r d)
      (if c then fail e else if is_request_state_terminal (r_state r) then ok () else
        and_then (mark_request_cancelling r) (\<lambda>request.
        and_then (find_by_request_id (r_id request)) (\<lambda>(batches, stale).
        and_then (fold_act cancel_one batches (None, False)) (\<lambda>(first_err, found).
        if \<not> found then cancel_request_now request reason
        else (case first_err of Some e \<Rightarrow> fail e | None \<Rightarrow> ok ()))))) (\<lambda>_. consistent sha)" for c e r reason
    by (intro lifecycle.triple_if lifecycle.triple_fail lifecycle.triple_ok
        lifecycle.triple_bind [OF triple_mark_request_cancelling] lifecycle.triple_bind [OF find] after) auto
  show ?thesis
    unfolding cancel_process_def Let_def
    by (rule keep_bind [OF lifecycle.triple_map_err [OF keep_of_sum]], rule keep_bind [OF keep_open_queue],
        rule lifecycle.triple_bind [OF lifecycle.triple_map_err [OF get]], rule body)
qed

end
