(* ===== verification/Enroll.thy ===== *)
theory Enroll
  imports IntakeSafe
begin

text \<open>
  The dependency-analysis controller: the stage that decides which of the batches minted for a
  request carries it, asks the conflict analyzer of the queue what the batch must wait for, and
  promotes it out of \<open>Creating\<close>.  The analyzer is an argument.
\<close>

section \<open>The checks before the promotion\<close>

definition enrolled_check :: "batch \<Rightarrow> string \<Rightarrow> bool \<Rightarrow> bool op" where
  "enrolled_check b request_id found =
     (if found then ok True
      else and_then (find_by_request_id request_id) (\<lambda>(existing, stale).
        ok (list_ex (\<lambda>other. \<not> (b_id other = b_id b \<or> b_state other = BatchStateCreating)) existing)))"

definition request_enrolled_in_another_batch :: "batch \<Rightarrow> bool op" where
  "request_enrolled_in_another_batch b = fold_act (enrolled_check b) (b_contains b) False"

definition halted_check :: "string \<Rightarrow> string \<Rightarrow> string op" where
  "halted_check request_id found =
     (if found \<noteq> [] then ok found
      else and_then (map_err (Wrapped ''failed to get request of batch'') (request_get request_id)) (\<lambda>request.
        ok (if is_request_state_halted (r_state request) then request_id else [])))"

definition first_halted_request_id :: "batch \<Rightarrow> string op" where
  "first_halted_request_id b = fold_act halted_check (b_contains b) []"

section \<open>What the batch waits for\<close>

datatype conflict_type = ConflictTypeUnknown | ConflictTypeConservative | ConflictTypeTargetOverlap

record conflict =
  cf_batch :: string
  cf_type :: conflict_type

type_synonym analyzer = "batch \<Rightarrow> batch list \<Rightarrow> goerr + conflict list"

definition resolve_dependencies :: "(string \<Rightarrow> goerr + analyzer) \<Rightarrow> batch \<Rightarrow> string list op" where
  "resolve_dependencies analyzer_for b =
     and_then (map_err (Wrapped ''failed to get active batches for queue'') (list_by_states dependency_batch_states)) (\<lambda>in_flight.
     and_then (map_err (Wrapped ''failed to build conflict analyzer for queue'') (of_sum (analyzer_for (b_queue b)))) (\<lambda>analyze.
     and_then (map_err (Wrapped ''failed to analyze conflicts for batch'') (of_sum (analyze b in_flight))) (\<lambda>conflicts.
     ok (foldl add_candidate [] (map cf_batch conflicts)))))"

definition write_dependent_index :: "batch \<Rightarrow> string \<Rightarrow> unit op" where
  "write_dependent_index b dependency_id =
     and_then (map_err (Wrapped ''failed to get batch dependent'') (dependent_get dependency_id)) (\<lambda>existing.
     if b_id b \<in> set (bd_dependents existing) then ok ()
     else
       map_err (Wrapped ''failed to update batch dependent index'')
         (dependent_update (existing\<lparr>bd_dependents := bd_dependents existing @ [b_id b]\<rparr>)
            (bd_version existing) (bd_version existing + 1)))"

definition write_dependent_indexes :: "batch \<Rightarrow> string list \<Rightarrow> unit op" where
  "write_dependent_indexes b dependencies =
     and_then (create_once ''failed to create batch dependent index for new batch''
       (dependent_create \<lparr>bd_batch = b_id b, bd_dependents = [], bd_version = 1\<rparr>)) (\<lambda>_.
     for_each (write_dependent_index b) dependencies)"

section \<open>The claim\<close>

definition associate_requests_with_batch :: "batch \<Rightarrow> unit op" where
  "associate_requests_with_batch b =
     for_each (\<lambda>request_id. create_once ''failed to associate request with batch''
       (request_batch_create \<lparr>rb_request = request_id, rb_batch = b_id b, rb_version = 1\<rparr>)) (b_contains b)"

definition claim_request :: "string \<Rightarrow> bool \<Rightarrow> bool op" where
  "claim_request request_id claimed =
     (if \<not> claimed then ok False
      else and_then (map_err (Wrapped ''failed to get request of batch'') (request_get request_id)) (\<lambda>request.
        if is_request_state_halted (r_state request) then ok False
        else
          let new_version = r_version request + 1 in
          and_then (attempt (request_update (request\<lparr>r_state := RequestStateBatched\<rparr>) (r_version request) new_version))
            (\<lambda>r. case r of
               Inl e \<Rightarrow> if is_version_mismatch e then ok False else fail (Wrapped ''failed to claim request for batch'' e)
             | Inr _ \<Rightarrow> ok True)))"

definition claim_requests_for_batch :: "batch \<Rightarrow> bool op" where
  "claim_requests_for_batch b = fold_act claim_request (b_contains b) True"

section \<open>The handler\<close>

text \<open>
  The branch of a batch in \<open>Creating\<close>: \<open>None\<close> when it is abandoned there, the promoted batch
  otherwise.
\<close>

definition enroll :: "(string \<Rightarrow> goerr + analyzer) \<Rightarrow> batch \<Rightarrow> batch option op" where
  "enroll analyzer_for b =
     and_then (request_enrolled_in_another_batch b) (\<lambda>enrolled.
     if enrolled then ok None
     else and_then (first_halted_request_id b) (\<lambda>halted.
     if halted \<noteq> [] then ok None
     else and_then (resolve_dependencies analyzer_for b) (\<lambda>dependencies.
     and_then (write_dependent_indexes b dependencies) (\<lambda>_.
     and_then (associate_requests_with_batch b) (\<lambda>_.
     and_then (claim_requests_for_batch b) (\<lambda>claimed.
     if \<not> claimed then ok None
     else and_then (map_err (Wrapped ''failed to mark batch created'')
       (transition (b\<lparr>b_deps := dependencies\<rparr>) BatchStateCreated)) (\<lambda>b'. ok (Some b'))))))))"

definition publish_to_speculate :: "batch \<Rightarrow> unit op" where
  "publish_to_speculate b =
     publish_id ''failed to serialize batch ID'' (Wrapped ''failed to publish batch ID to speculate topic'')
       TopicKeySpeculate (intent_id (b_id b) []) (b_id b) (b_queue b) (b_queue b) Map.empty"

definition dependency_analysis_process :: "(string \<Rightarrow> goerr + analyzer) \<Rightarrow> topic_key \<Rightarrow> delivery \<Rightarrow> unit op" where
  "dependency_analysis_process analyzer_for key dl =
     and_then (receive_batch key dl) (\<lambda>b.
     and_then
       (if is_batch_state_halted (b_state b) then ok None
        else if b_state b = BatchStateCreating then enroll analyzer_for b
        else if b_state b = BatchStateCreated then and_then (ensure_record b) (\<lambda>_. ok (Some b))
        else ok None) (\<lambda>announced. case announced of
       None \<Rightarrow> ok ()
     | Some b \<Rightarrow>
         and_then (map_err (Wrapped ''failed to publish request logs for batch'')
           (publish_batch_logs (b_queue b) (b_contains b) RequestStatusBatched [] [''batch_id'' \<mapsto> b_id b])) (\<lambda>_.
         publish_to_speculate b)))"

section \<open>It is lawful\<close>

lemma keep_find_by_request_id [rg_intros]:
  "stable (evolves sha) P \<Longrightarrow> rg sha P (find_by_request_id i) (\<lambda>_. P)"
  unfolding find_by_request_id_def by (intro rg_intros)

lemma keep_list_bucket [rg_intros]: "stable (evolves sha) P \<Longrightarrow> rg sha P (list_bucket st s) (\<lambda>_. P)"
  unfolding list_bucket_def by (intro rg_intros)

lemma keep_hydrate [rg_intros]: "stable (evolves sha) P \<Longrightarrow> rg sha P (hydrate i acc) (\<lambda>_. P)"
  unfolding hydrate_def by (intro rg_intros)

lemma keep_list_by_states [rg_intros]: "stable (evolves sha) P \<Longrightarrow> rg sha P (list_by_states sts) (\<lambda>_. P)"
  unfolding list_by_states_def by (intro rg_intros)

lemma keep_enrolled [rg_intros]:
  "stable (evolves sha) P \<Longrightarrow> rg sha P (request_enrolled_in_another_batch b) (\<lambda>_. P)"
  unfolding request_enrolled_in_another_batch_def enrolled_check_def by (intro rg_intros)

lemma keep_first_halted [rg_intros]:
  "stable (evolves sha) P \<Longrightarrow> rg sha P (first_halted_request_id b) (\<lambda>_. P)"
  unfolding first_halted_request_id_def halted_check_def by (intro rg_intros)

lemma keep_resolve_dependencies [rg_intros]:
  "stable (evolves sha) P \<Longrightarrow> rg sha P (resolve_dependencies af b) (\<lambda>_. P)"
  unfolding resolve_dependencies_def by (intro rg_intros)

lemma keep_write_dependent_indexes [rg_intros]:
  "stable (evolves sha) P \<Longrightarrow> rg sha P (write_dependent_indexes b deps) (\<lambda>_. P)"
  unfolding write_dependent_indexes_def write_dependent_index_def by (intro rg_intros)

lemma keep_associate [rg_intros]:
  "stable (evolves sha) P \<Longrightarrow> rg sha P (associate_requests_with_batch b) (\<lambda>_. P)"
  unfolding associate_requests_with_batch_def by (intro rg_intros)

lemma keep_claim_request:
  assumes "stable (evolves sha) P" and "\<And>d. P d \<Longrightarrow> requests_keyed d"
  shows "rg sha P (claim_request i claimed) (\<lambda>_. P)"
proof -
  have st: "stable (evolves sha) (\<lambda>d. P d \<and> known_request r d)" for r by (intro stable_intros assms(1))
  have get: "rg sha P (request_get i) (\<lambda>r d. P d \<and> known_request r d)"
    by (rule lifecycle.triple_conseq [OF triple_request_get [OF assms]]) auto
  have upd: "rg sha (\<lambda>d. P d \<and> known_request r d)
      (attempt (request_update (r\<lparr>r_state := RequestStateBatched\<rparr>) (r_version r) (r_version r + 1))) (\<lambda>_. P)"
    if "\<not> is_request_state_halted (r_state r)" for r
    by (rule lifecycle.triple_conseq [OF keep_attempt [OF triple_request_move [OF st]]])
      (use that st in \<open>auto intro: request_edges\<close>)
  have pure: "rg sha (\<lambda>d. P d \<and> known_request r d) (ok x) (\<lambda>_. P)" for r and x :: bool
    by (auto intro!: lifecycle.triple_ok)
  show ?thesis
    unfolding claim_request_def Let_def
    by (rule lifecycle.triple_if, rule keep_ok, rule lifecycle.triple_bind [OF lifecycle.triple_map_err [OF get]],
        rule lifecycle.triple_if, rule pure, rule lifecycle.triple_bind [OF upd], assumption)
      (intro rg_intros)
qed

lemma keep_claim_requests [rg_intros]:
  "stable (evolves sha) P \<Longrightarrow> (\<And>d. P d \<Longrightarrow> requests_keyed d) \<Longrightarrow>
   rg sha P (claim_requests_for_batch b) (\<lambda>_. P)"
  unfolding claim_requests_for_batch_def by (intro keep_fold_act keep_claim_request)

lemma keep_publish_to_speculate [rg_intros]:
  "stable (evolves sha) P \<Longrightarrow> rg sha P (publish_to_speculate b) (\<lambda>_. P)"
  unfolding publish_to_speculate_def by (intro rg_intros)

lemma keep_enroll:
  assumes "b_state b = BatchStateCreating"
  shows "rg sha (\<lambda>d. consistent sha d \<and> known b d) (enroll af b) (\<lambda>_ d. consistent sha d \<and> known b d)"
proof -
  have edge: "evolved b (moved (b\<lparr>b_deps := deps\<rparr>) BatchStateCreated)" for deps
    using assms by (auto simp: evolved_def moved_def batch_edge_def)
  have move: "rg sha (\<lambda>d. consistent sha d \<and> known b d) (transition (b\<lparr>b_deps := deps\<rparr>) BatchStateCreated)
      (\<lambda>_ d. consistent sha d \<and> known b d)" for deps
    by (rule lifecycle.triple_conseq [OF triple_transition_from [OF stable_consistent_batch _ _ _ edge]]) auto
  show ?thesis
    unfolding enroll_def
    by (intro rg_intros stable_consistent_batch move) (auto dest: consistent_keyed)
qed

lemma lawful_dependency_analysis: "lawful sha (dependency_analysis_process af key dl)"
  unfolding dependency_analysis_process_def
  by (rule lawful_receive_batch) (intro rg_intros stable_consistent_batch keep_enroll)

end
