(* ===== verification/Landing.thy ===== *)
theory Landing
  imports Enroll
begin

text \<open>
  The end of a batch: \<open>land\<close> asks Runway to merge it, \<open>landsignal\<close> takes Runway's answer and ends the
  batch, \<open>conclude\<close> ends its requests.
\<close>

section \<open>land\<close>

definition land_step :: "string \<Rightarrow> merge_step list \<Rightarrow> merge_step list op" where
  "land_step request_id steps =
     and_then (map_err (Wrapped ''failed to get request'') (request_get request_id)) (\<lambda>request.
     ok (steps @ [\<lparr>ms_step = r_id request, ms_uris = r_uris request,
       ms_strategy = to_proto_strategy (r_land_strategy request)\<rparr>]))"

definition build_land_request :: "batch \<Rightarrow> merge_request op" where
  "build_land_request b =
     and_then (fold_act land_step (b_contains b) []) (\<lambda>steps.
     ok \<lparr>mq_id = b_id b, mq_queue = b_queue b, mq_steps = steps\<rparr>)"

definition land_process :: "topic_key \<Rightarrow> topic_key \<Rightarrow> delivery \<Rightarrow> unit op" where
  "land_process runway_key key dl =
     and_then (receive_batch key dl) (\<lambda>b.
     if is_batch_state_halted (b_state b) then ok ()
     else
       and_then (map_err (Wrapped ''failed to build land request for batch'') (build_land_request b)) (\<lambda>req.
       and_then (map_err (Wrapped ''failed to publish request log for batch'')
         (publish_batch_logs (b_queue b) (b_contains b) RequestStatusLanding (b_id b) [''batch_id'' \<mapsto> b_id b])) (\<lambda>_.
       map_err (Wrapped ''failed to publish to runway merge'')
         (publish_merge_request ''failed to publish message'' runway_key req (b_queue b)))))"

section \<open>landsignal\<close>

abbreviation metadata_key_failure_reason :: string where
  "metadata_key_failure_reason \<equiv> ''failure_reason''"

definition landsignal_publish :: "topic_key \<Rightarrow> string \<Rightarrow> string \<Rightarrow> string \<Rightarrow> metadata \<Rightarrow> unit op" where
  "landsignal_publish key msg_id batch_id queue meta =
     publish_id ''failed to serialize batch ID'' (Wrapped ''failed to publish message'')
       key msg_id batch_id queue queue meta"

definition landsignal_fanout :: "string \<Rightarrow> string \<Rightarrow> string \<Rightarrow> unit op" where
  "landsignal_fanout batch_id queue failure_reason =
     (let conclude_meta = (if failure_reason \<noteq> [] then [metadata_key_failure_reason \<mapsto> failure_reason] else Map.empty) in
      and_then (map_err (Wrapped ''failed to publish to conclude'')
        (landsignal_publish TopicKeyConclude (intent_id batch_id [''conclude'', ''landed'']) batch_id queue conclude_meta)) (\<lambda>_.
      map_err (Wrapped ''failed to publish to speculate'')
        (landsignal_publish TopicKeySpeculate (intent_id batch_id [''landed'']) batch_id queue Map.empty)))"

definition land_failure_reason :: "merge_result \<Rightarrow> string" where
  "land_failure_reason res =
     (if mr_outcome res \<noteq> OutcomeSucceeded
      then if mr_reason res = [] then ''land failed'' else mr_reason res
      else [])"

definition landsignal_process :: "delivery \<Rightarrow> unit op" where
  "landsignal_process dl =
     (let msg = dl_message dl in
      and_then (map_err (Wrapped ''failed to deserialize land result'')
        (of_sum (unmarshal_merge_result (m_payload msg)))) (\<lambda>res.
      and_then (open_queue msg (mr_queue res)) (\<lambda>_.
      and_then (map_err (Wrapped ''failed to get batch'') (batch_get (mr_id res))) (\<lambda>b.
      if b_state b = BatchStateCancelling then ok ()
      else
        let failure_reason = land_failure_reason res in
        if batch_state_is_terminal (b_state b) then
          and_then (ensure_record b) (\<lambda>_. landsignal_fanout (b_id b) (b_queue b) failure_reason)
        else
          let new_state = (if mr_outcome res = OutcomeSucceeded then BatchStateSucceeded else BatchStateFailed) in
          and_then (transition b new_state) (\<lambda>b.
          landsignal_fanout (b_id b) (b_queue b) failure_reason)))))"

section \<open>conclude\<close>

fun batch_state_to_request_state :: "batch_state \<Rightarrow> goerr + request_state" where
  "batch_state_to_request_state BatchStateSucceeded = Inr RequestStateLanded"
| "batch_state_to_request_state BatchStateFailed = Inr RequestStateError"
| "batch_state_to_request_state BatchStateCancelled = Inr RequestStateCancelled"
| "batch_state_to_request_state _ = Inl (Plain ''non-terminal batch state'')"

definition conclude_request :: "batch \<Rightarrow> request_state \<Rightarrow> string \<Rightarrow> string \<Rightarrow> unit op" where
  "conclude_request b request_state failure_reason request_id =
     and_then (map_err (Wrapped ''failed to terminate request for batch'')
       (terminate_request request_id request_state failure_reason [''batch_id'' \<mapsto> b_id b])) (\<lambda>res.
     if tr_outcome res = TerminationOutcomeNotFound
     then fail (Wrapped ''failed to get request for batch'' ErrNotFound) else ok ())"

definition conclude_process :: "topic_key \<Rightarrow> delivery \<Rightarrow> unit op" where
  "conclude_process key dl =
     and_then (receive_batch key dl) (\<lambda>b.
     and_then (map_err (Wrapped ''unexpected batch state for batch'')
       (of_sum (batch_state_to_request_state (b_state b)))) (\<lambda>request_state.
     for_each (conclude_request b request_state
         (metadata_get (m_metadata (dl_message dl)) metadata_key_failure_reason)) (b_contains b)))"

section \<open>They are lawful\<close>

lemma keep_build_land_request [rg_intros]:
  "stable (evolves sha) P \<Longrightarrow> rg sha P (build_land_request b) (\<lambda>_. P)"
  unfolding build_land_request_def land_step_def by (intro rg_intros)

lemma lawful_land: "lawful sha (land_process rk key dl)"
  unfolding land_process_def by (rule lawful_receive_batch) (intro rg_intros stable_consistent_batch)

lemma keep_landsignal_fanout [rg_intros]:
  "stable (evolves sha) P \<Longrightarrow> rg sha P (landsignal_fanout b q reason) (\<lambda>_. P)"
  unfolding landsignal_fanout_def landsignal_publish_def Let_def by (intro rg_intros)

lemma ending_edges:
  "\<not> batch_state_is_terminal s \<Longrightarrow> s \<noteq> BatchStateCancelling \<Longrightarrow> batch_edge s BatchStateSucceeded"
  "\<not> batch_state_is_terminal s \<Longrightarrow> batch_edge s BatchStateFailed"
  by (simp_all add: batch_edge_def)

lemma lawful_landsignal: "lawful sha (landsignal_process dl)"
proof -
  have get: "rg sha (consistent sha) (batch_get i) (\<lambda>b d. consistent sha d \<and> known b d)" for i
    by (rule lifecycle.triple_conseq [OF triple_batch_get [OF stable_consistent]]) (auto simp: consistent_def)
  have move: "rg sha (\<lambda>d. consistent sha d \<and> known b d)
      (transition b (if c then BatchStateSucceeded else BatchStateFailed)) (\<lambda>_ d. consistent sha d \<and> known b d)"
    if "b_state b \<noteq> BatchStateCancelling" and "\<not> batch_state_is_terminal (b_state b)" for b c
    by (rule lifecycle.triple_conseq [OF triple_transition [OF stable_consistent_batch]])
      (use that ending_edges in auto)
  have body: "rg sha (\<lambda>d. consistent sha d \<and> known b d)
      (if b_state b = BatchStateCancelling then ok ()
       else if batch_state_is_terminal (b_state b) then
          and_then (ensure_record b) (\<lambda>_. landsignal_fanout (b_id b) (b_queue b) reason)
        else and_then (transition b (if c then BatchStateSucceeded else BatchStateFailed)) (\<lambda>b.
          landsignal_fanout (b_id b) (b_queue b) reason)) (\<lambda>_ d. consistent sha d \<and> known b d)" for b reason c
    by (intro rg_intros stable_consistent_batch move)
  show ?thesis
    unfolding landsignal_process_def Let_def
    by (rule keep_bind [OF lifecycle.triple_map_err [OF keep_of_sum]], rule keep_bind [OF keep_open_queue],
        rule lifecycle.triple_bind [OF lifecycle.triple_map_err [OF get]], rule lifecycle.triple_conseq [OF body]) auto
qed

lemma lawful_conclude: "lawful sha (conclude_process key dl)"
  unfolding conclude_process_def conclude_request_def
  by (rule lawful_receive_batch) (intro rg_intros stable_consistent_batch; auto dest: consistent_keyed)

end
