(* ===== verification/Building.thy ===== *)
theory Building
  imports Landing
begin

text \<open>
  The builds of speculation paths: \<open>build\<close> starts a build for every pending path of a head, \<open>buildsignal\<close>
  polls one build, stops it when nothing wants it any more, and records its status.  The build
  runner is an argument; its answers may depend on anything in the world, and what it is asked is
  recorded in the order of the calls.
\<close>

section \<open>The build runner\<close>

record runner =
  rn_trigger :: "world \<Rightarrow> batch list \<Rightarrow> batch \<Rightarrow> goerr + string"
  rn_status :: "world \<Rightarrow> string \<Rightarrow> goerr + build_status \<times> metadata"
  rn_cancel :: "world \<Rightarrow> string \<Rightarrow> goerr + unit"

definition runner_trigger :: "runner \<Rightarrow> batch list \<Rightarrow> batch \<Rightarrow> string op" where
  "runner_trigger rn base head = (\<lambda>w.
     (rn_trigger rn w base head, w\<lparr>w_calls := w_calls w @ [Triggered (map b_id base) (b_id head)]\<rparr>))"

definition runner_status :: "runner \<Rightarrow> string \<Rightarrow> (build_status \<times> metadata) op" where
  "runner_status rn i = (\<lambda>w. (rn_status rn w i, w))"

definition runner_cancel :: "runner \<Rightarrow> string \<Rightarrow> unit op" where
  "runner_cancel rn i = (\<lambda>w. (rn_cancel rn w i, w\<lparr>w_calls := w_calls w @ [CancelRequested i]\<rparr>))"

section \<open>build\<close>

definition publish_build_signal :: "string \<Rightarrow> string \<Rightarrow> unit op" where
  "publish_build_signal build_id queue =
     publish_id ''failed to serialize build ID'' (Wrapped ''failed to publish to buildsignal'')
       TopicKeyBuildSignal (intent_id build_id []) build_id queue build_id Map.empty"

definition load_base_batch :: "string \<Rightarrow> batch list \<Rightarrow> batch list op" where
  "load_base_batch dep_id base =
     and_then (map_err (Wrapped ''failed to get dependency batch of path'') (batch_get dep_id)) (\<lambda>b. ok (base @ [b]))"

definition load_base :: "path \<Rightarrow> batch list op" where
  "load_base p = fold_act load_base_batch (path_base p) []"

text \<open>The end of \<open>startPath\<close>: the link of the attempt is written, first insert wins, and the signal sent.\<close>

definition link_build :: "batch \<Rightarrow> path_entry \<Rightarrow> string \<Rightarrow> unit op" where
  "link_build b entry build_id =
     and_then (attempt (path_build_create
       \<lparr>pb_queue = b_queue b, pb_path = e_id entry, pb_attempt = e_attempt entry, pb_build = build_id\<rparr>)) (\<lambda>r. case r of
       Inl e \<Rightarrow>
         if is_already_exists e then
           and_then (publish_build_signal build_id (b_queue b)) (\<lambda>_.
           and_then (map_err (Wrapped ''failed to look up the winning build for path'')
             (path_build_get (e_id entry) (e_attempt entry))) (\<lambda>winner.
           publish_build_signal (pb_build winner) (b_queue b)))
         else fail (Wrapped ''failed to link path to build'' e)
     | Inr _ \<Rightarrow> publish_build_signal build_id (b_queue b))"

definition start_path :: "(string \<Rightarrow> goerr + runner) \<Rightarrow> batch \<Rightarrow> path_entry \<Rightarrow> unit op" where
  "start_path runner_for b entry =
     and_then (attempt (path_build_get (e_id entry) (e_attempt entry))) (\<lambda>existing. case existing of
       Inr link \<Rightarrow> publish_build_signal (pb_build link) (b_queue b)
     | Inl e \<Rightarrow>
         if \<not> is_not_found e then fail (Wrapped ''failed to look up build for path'' e)
         else
           and_then (load_base (e_path entry)) (\<lambda>base.
           and_then (map_err (Wrapped ''failed to build runner for batch'') (of_sum (runner_for (b_queue b)))) (\<lambda>rn.
           and_then (map_err (Wrapped ''failed to trigger build for path'') (runner_trigger rn base b)) (\<lambda>build_id.
           and_then (create_once ''failed to record build'' (build_create
             \<lparr>bl_id = build_id, bl_batch = b_id b, bl_path = e_id entry, bl_attempt = e_attempt entry,
              bl_status = BuildAccepted\<rparr>)) (\<lambda>_.
           link_build b entry build_id)))))"

definition ensure_signal :: "batch \<Rightarrow> path_entry \<Rightarrow> unit op" where
  "ensure_signal b entry =
     and_then (attempt (path_build_get (e_id entry) (e_attempt entry))) (\<lambda>link. case link of
       Inl e \<Rightarrow> if is_not_found e then ok () else fail (Wrapped ''failed to look up build for path'' e)
     | Inr link \<Rightarrow> publish_build_signal (pb_build link) (b_queue b))"

definition build_entry :: "(string \<Rightarrow> goerr + runner) \<Rightarrow> batch \<Rightarrow> bool \<Rightarrow> path_entry \<Rightarrow> unit op" where
  "build_entry runner_for b recovering entry =
     (if path_status_is_terminal (e_status entry) then ok ()
      else if e_status entry = PathPending \<and> \<not> is_batch_state_halted (b_state b) then start_path runner_for b entry
      else if recovering then ensure_signal b entry else ok ())"

definition build_process :: "(string \<Rightarrow> goerr + runner) \<Rightarrow> topic_key \<Rightarrow> delivery \<Rightarrow> unit op" where
  "build_process runner_for key dl =
     and_then (receive_batch key dl) (\<lambda>b.
     and_then (attempt (path_set_get (b_id b))) (\<lambda>r. case r of
       Inl e \<Rightarrow> if is_not_found e then ok () else fail (Wrapped ''failed to get path set for batch'' e)
     | Inr ps \<Rightarrow> for_each (build_entry runner_for b (dl_attempt dl > 1)) (ps_paths ps)))"

section \<open>buildsignal\<close>

definition find_entry :: "path_set \<Rightarrow> string \<Rightarrow> path_entry option" where
  "find_entry ps pid = find_first (\<lambda>e. e_id e = pid) (ps_paths ps)"

definition unwanted :: "batch \<Rightarrow> build \<Rightarrow> bool op" where
  "unwanted b bl =
     (if is_batch_state_halted (b_state b) then ok True
      else if bl_path bl = [] then ok False
      else and_then (attempt (path_set_get (b_id b))) (\<lambda>r. case r of
        Inl e \<Rightarrow> if is_not_found e then ok False else fail (Wrapped ''failed to get path set for batch'' e)
      | Inr ps \<Rightarrow> (case find_entry ps (bl_path bl) of
          None \<Rightarrow> ok False
        | Some entry \<Rightarrow>
            if e_status entry = PathCancelling \<or> e_status entry = PathCancelled then ok True
            else if e_attempt entry \<noteq> bl_attempt bl then ok True
            else and_then (attempt (path_build_get (bl_path bl) (bl_attempt bl))) (\<lambda>link. case link of
              Inl e \<Rightarrow> if is_not_found e then ok False else fail (Wrapped ''failed to look up build for path'' e)
            | Inr link \<Rightarrow> ok (pb_build link \<noteq> bl_id bl)))))"

fun poll_delay :: "build_status \<Rightarrow> int" where
  "poll_delay BuildRunning = 2000"
| "poll_delay _ = 5000"

definition itoa :: "int \<Rightarrow> string" where
  "itoa n = (if n < 0 then ''-'' @ dec (nat (- n)) else dec (nat n))"

definition build_log_meta :: "batch \<Rightarrow> build \<Rightarrow> metadata \<Rightarrow> metadata" where
  "build_log_meta b bl build_meta =
     (let m = [''batch_id'' \<mapsto> b_id b, ''build_id'' \<mapsto> bl_id bl, ''path_id'' \<mapsto> bl_path bl,
        ''attempt'' \<mapsto> itoa (bl_attempt bl)];
          url = metadata_get build_meta ''url'' in
      if url \<noteq> [] then m(''build_url'' \<mapsto> url) else m)"

definition publish_build_logs :: "batch \<Rightarrow> build \<Rightarrow> build_status \<Rightarrow> metadata \<Rightarrow> unit op" where
  "publish_build_logs b bl status build_meta =
     (let log_meta = build_log_meta b bl build_meta in
      and_then (publish_batch_events (b_queue b) (b_contains b) RequestEventBuilding (bl_id bl) log_meta) (\<lambda>_.
      if status \<noteq> BuildSucceeded then ok ()
      else publish_batch_events (b_queue b) (b_contains b) RequestEventBuilt (bl_id bl) log_meta))"

text \<open>The stop of an unwanted build is best effort: its error is dropped.\<close>

definition stop_unwanted :: "runner \<Rightarrow> batch \<Rightarrow> build \<Rightarrow> build_status \<Rightarrow> unit op" where
  "stop_unwanted rn b bl status =
     (if build_status_is_terminal status then ok ()
      else and_then (unwanted b bl) (\<lambda>stop.
        if stop then and_then (attempt (runner_cancel rn (bl_id bl))) (\<lambda>_. ok ()) else ok ()))"

definition record_status :: "batch \<Rightarrow> build \<Rightarrow> build_status \<Rightarrow> metadata \<Rightarrow> unit op" where
  "record_status b bl status build_meta =
     (if status = bl_status bl then ok ()
      else
        and_then (map_err (Wrapped ''failed to publish request logs for build'') (publish_build_logs b bl status build_meta)) (\<lambda>_.
        map_err (Wrapped ''failed to update status for build'') (build_update (bl\<lparr>bl_status := status\<rparr>))))"

text \<open>The result is the delay of the hold, none when the poll loop ends.\<close>

definition buildsignal_process :: "(string \<Rightarrow> goerr + runner) \<Rightarrow> topic_key \<Rightarrow> delivery \<Rightarrow> int option op" where
  "buildsignal_process runner_for key dl =
     (let msg = dl_message dl in
      and_then (map_err (Wrapped ''failed to deserialize build ID'')
        (of_sum (unmarshal_build_id key (m_payload msg)))) (\<lambda>(build_id, queue).
      and_then (open_queue msg queue) (\<lambda>_.
      and_then (map_err (Wrapped ''failed to get build'') (build_get build_id)) (\<lambda>bl.
      and_then (map_err (Wrapped ''failed to get batch'') (batch_get (bl_batch bl))) (\<lambda>b.
      if queue \<noteq> [] \<and> queue \<noteq> b_queue b
      then fail (Plain ''payload queue does not match queue of batch'')
      else
        and_then (map_err (Wrapped ''failed to build runner for batch'') (of_sum (runner_for (b_queue b)))) (\<lambda>rn.
        and_then (map_err (Wrapped ''failed to get status for build'') (runner_status rn build_id)) (\<lambda>(status, build_meta).
        and_then (stop_unwanted rn b bl status) (\<lambda>_.
        and_then (record_status b bl status build_meta) (\<lambda>_.
        and_then (map_err (Wrapped ''failed to publish to speculate'')
          (publish_id ''failed to serialize batch ID'' id TopicKeySpeculate
             (intent_id (b_id b) [''build-signal'', bl_id bl, build_status_string status])
             (b_id b) (b_queue b) (b_queue b) Map.empty)) (\<lambda>_.
        ok (if build_status_is_terminal status then None else Some (poll_delay status))))))))))))"

section \<open>They are lawful\<close>

lemma keep_runner [rg_intros]:
  "rg sha P (runner_trigger rn base b) (\<lambda>_. P)"
  "rg sha P (runner_status rn i) (\<lambda>_. P)"
  "rg sha P (runner_cancel rn i) (\<lambda>_. P)"
  by (auto simp: triple_def runner_trigger_def runner_status_def runner_cancel_def abides_def intro: evolves_same)

lemma keep_start_path [rg_intros]: "stable (evolves sha) P \<Longrightarrow> rg sha P (start_path rf b e) (\<lambda>_. P)"
  unfolding start_path_def link_build_def publish_build_signal_def load_base_def load_base_batch_def
  by (intro rg_intros)

lemma keep_build_entry [rg_intros]: "stable (evolves sha) P \<Longrightarrow> rg sha P (build_entry rf b rec e) (\<lambda>_. P)"
  unfolding build_entry_def ensure_signal_def publish_build_signal_def by (intro rg_intros)

lemma lawful_build: "lawful sha (build_process rf key dl)"
  unfolding build_process_def by (rule lawful_receive_batch) (intro rg_intros stable_consistent_batch)

lemma keep_buildsignal_steps [rg_intros]:
  assumes "stable (evolves sha) P"
  shows "rg sha P (stop_unwanted rn b bl st) (\<lambda>_. P)"
    and "rg sha P (record_status b bl st meta) (\<lambda>_. P)"
  unfolding stop_unwanted_def unwanted_def record_status_def publish_build_logs_def Let_def
  by (intro rg_intros assms)+

lemma lawful_buildsignal: "lawful sha (buildsignal_process rf key dl)"
  unfolding buildsignal_process_def Let_def by (intro rg_intros stable_consistent)

end
