(* ===== verification/DetailText.thy ===== *)
theory DetailText
  imports Detail Ids "HOL-Library.Char_ord" "HOL-Library.List_Lexorder"
begin

text \<open>The text \<open>fmt\<close> prints for \<open>%v\<close> of the values of \<open>Detail\<close>, for the dead-letter reconcilers.\<close>

section \<open>Numbers\<close>

text \<open>
  The fewest decimal digits that round to the number, the nearest of them where there are several: an
  integer and the power of ten it is taken of.
\<close>

definition decimal_candidates :: "rat \<Rightarrow> nat \<Rightarrow> (int \<times> int) list" where
  "decimal_candidates x n = (let u = leading_exponent 10 x - int (n - 1); m = floor (x / 10 powi u) in
     filter (\<lambda>(k, u). f64 (of_int k * 10 powi u) = x) (sort_key (\<lambda>(k, u). \<bar>x - of_int k * 10 powi u\<bar>) [(m, u), (m + 1, u)]))"

definition shortest_decimal :: "rat \<Rightarrow> int \<times> int" where
  "shortest_decimal x = (case concat (map (decimal_candidates x) [1..<18]) of [] \<Rightarrow> (0, 0) | d # ds \<Rightarrow> d)"

text \<open>\<open>strconv\<close>'s shortest \<open>%g\<close>.\<close>

definition zeros :: "nat \<Rightarrow> string" where
  "zeros n = replicate n (CHR ''0'')"

definition exponent_text :: "int \<Rightarrow> string" where
  "exponent_text e = (let s = dec (nat \<bar>e\<bar>) in (if e < 0 then ''e-'' else ''e+'') @ zeros (2 - length s) @ s)"

definition positive_text :: "rat \<Rightarrow> string" where
  "positive_text x = (case shortest_decimal x of (k, u) \<Rightarrow>
     let s = dec (nat k); point = int (length s) + u; e = point - 1; digits = rev (dropWhile (\<lambda>c. c = CHR ''0'') (rev s)); n = length digits in
     if e < - 4 \<or> 6 \<le> e then take 1 digits @ (if n \<le> 1 then [] else ''.'' @ drop 1 digits) @ exponent_text e
     else if point \<le> 0 then ''0.'' @ zeros (nat (- point)) @ digits
     else take (nat point) digits @ zeros (nat point - n) @ (if int n \<le> point then [] else ''.'' @ drop (nat point) digits))"

definition float_text :: "flt \<Rightarrow> string" where
  "float_text f = (case f of NaN \<Rightarrow> ''NaN'' | NegInf \<Rightarrow> ''-Inf'' | PosInf \<Rightarrow> ''+Inf''
     | Fin x \<Rightarrow> if x = 0 then ''0'' else if x < 0 then ''-'' @ positive_text (- x) else positive_text x)"

fun spaced :: "string list \<Rightarrow> string" where
  "spaced [] = []"
| "spaced [s] = s"
| "spaced (s # ss) = s @ '' '' @ spaced ss"

section \<open>Values\<close>

text \<open>\<open>%v\<close>; the entries of a map are printed by key.\<close>

fun value_text :: "detail \<Rightarrow> string" where
  "value_text (Leaf s) = s"
| "value_text (Flag b) = (if b then ''true'' else ''false'')"
| "value_text Null = ''<nil>''"
| "value_text (Whole i) = (if i < 0 then ''-'' @ dec (nat (- i)) else dec (nat i))"
| "value_text (Float f) = float_text f"
| "value_text (Items vs) = ''['' @ spaced (map value_text vs) @ '']''"
| "value_text (Node kvs) = ''map['' @ spaced (map (\<lambda>(k, t). k @ '':'' @ t) (sort_key fst (map (\<lambda>(k, v). (k, value_text v)) kvs))) @ '']''"

end
