(* ===== verification/DeadLetters.thy ===== *)
theory DeadLetters
  imports Building DetailText
begin

text \<open>
  The dead-letter reconcilers of \<open>controller/dlq\<close>: a message no controller could process drives the
  entities it is about to a terminal state.  A reconciler subscribes to the dead-letter topic of a
  primary topic and decodes with the primary key, which is its argument here.
\<close>

section \<open>What the queue recorded about the failure\<close>

fun flatten_detail :: "string \<Rightarrow> (string \<times> detail) list \<Rightarrow> metadata \<Rightarrow> metadata" where
  "flatten_detail prefix [] out = out"
| "flatten_detail prefix ((k, Node sub) # rest) out =
     flatten_detail prefix rest (flatten_detail (prefix @ ''.'' @ k) sub out)"
| "flatten_detail prefix ((k, v) # rest) out = flatten_detail prefix rest (out(prefix @ ''.'' @ k \<mapsto> value_text v))"

definition queue_facts :: "metadata \<Rightarrow> metadata" where
  "queue_facts dmeta = foldl (\<lambda>m k. if metadata_get dmeta k \<noteq> [] then m(k \<mapsto> metadata_get dmeta k) else m)
     Map.empty [''dlq.original_topic'', ''dlq.failure_count'', ''dlq.failed_at'']"

definition subject_facts :: "subject list \<Rightarrow> metadata \<Rightarrow> metadata" where
  "subject_facts ss m = foldl (\<lambda>m s. m(''dlq.subject.'' @ subject_type s \<mapsto>
     strings_join '','' (ids_of_type ss (subject_type s)))) m ss"

definition failure_context :: "delivery \<Rightarrow> string \<times> metadata" where
  "failure_context dl =
     (let dmeta = dl_metadata dl; m = queue_facts dmeta; last_error = metadata_get dmeta ''dlq.last_error'' in
      case dl_failure dl of
        None \<Rightarrow> (last_error, m)
      | Some f \<Rightarrow>
          (if f_message f \<noteq> [] then f_message f else last_error,
           flatten_detail ''dlq.detail'' (f_detail f) (subject_facts (f_subjects f) m)))"

section \<open>Failing a request and failing a batch\<close>

definition dlq_fail_request :: "string \<Rightarrow> string \<Rightarrow> metadata \<Rightarrow> unit op" where
  "dlq_fail_request request_id last_error meta =
     and_then (map_err (Wrapped ''dlq reconcile request failed'')
       (terminate_request request_id RequestStateError last_error meta)) (\<lambda>_. ok ())"

definition fail_members :: "batch \<Rightarrow> string \<Rightarrow> metadata \<Rightarrow> unit op" where
  "fail_members b last_error meta =
     for_each (\<lambda>i. map_err (Wrapped ''fan-out for batch'') (dlq_fail_request i last_error meta)) (b_contains b)"

text \<open>The result tells whether this call transitioned the batch.\<close>

definition fail_batch :: "string \<Rightarrow> string \<Rightarrow> metadata \<Rightarrow> bool op" where
  "fail_batch batch_id last_error meta =
     and_then (attempt (batch_get batch_id)) (\<lambda>r. case r of
       Inl e \<Rightarrow> if is_not_found e then ok False else fail (Wrapped ''failed to get batch'' e)
     | Inr b \<Rightarrow>
         if b_state b = BatchStateFailed then
           and_then (ensure_record b) (\<lambda>_. and_then (fail_members b last_error meta) (\<lambda>_. ok False))
         else if b_state b = BatchStateSucceeded \<or> b_state b = BatchStateCancelled then ok False
         else
           and_then (transition b BatchStateFailed) (\<lambda>b.
           and_then (fail_members b last_error meta) (\<lambda>_. ok True)))"

section \<open>The reconcilers\<close>

text \<open>
  A delivery whose payload and tenant disagree is dropped: \<open>return nil\<close>.  The rest of a handler
  runs when they agree.
\<close>

definition dlq_open :: "message \<Rightarrow> string \<Rightarrow> unit op \<Rightarrow> unit op" where
  "dlq_open msg queue body =
     (case validate_payload_queue msg queue of
        Inl _ \<Rightarrow> ok ()
      | Inr _ \<Rightarrow> body)"

definition dlq_storage :: "string \<Rightarrow> unit op" where
  "dlq_storage queue = map_err (Wrapped ''failed to resolve storage for queue'') (storage_for queue)"

definition dlq_batch_process :: "topic_key \<Rightarrow> delivery \<Rightarrow> unit op" where
  "dlq_batch_process key dl =
     (let msg = dl_message dl in
      and_then (map_err (Wrapped ''failed to decode batch id from dlq payload'')
        (of_sum (unmarshal_batch_id key (m_payload msg)))) (\<lambda>(bid, queue).
      dlq_open msg queue
        (if bid = [] then fail (Plain ''dlq payload decoded to empty batch id'')
         else and_then (dlq_storage queue) (\<lambda>_.
           case failure_context dl of (last_error, meta) \<Rightarrow>
             and_then (fail_batch bid last_error meta) (\<lambda>_. ok ())))))"

definition dlq_buildsignal_process :: "topic_key \<Rightarrow> delivery \<Rightarrow> unit op" where
  "dlq_buildsignal_process key dl =
     (let msg = dl_message dl in
      and_then (map_err (Wrapped ''failed to decode build id from dlq payload'')
        (of_sum (unmarshal_build_id key (m_payload msg)))) (\<lambda>(build_id, queue).
      dlq_open msg queue
        (if build_id = [] then fail (Plain ''dlq payload decoded to empty build id'')
         else and_then (dlq_storage queue) (\<lambda>_.
           case failure_context dl of (last_error, meta) \<Rightarrow>
             and_then (attempt (build_get build_id)) (\<lambda>r. case r of
               Inl e \<Rightarrow> if is_not_found e then ok () else fail (Wrapped ''failed to get build'' e)
             | Inr bl \<Rightarrow>
                 if bl_batch bl = [] then ok ()
                 else and_then (fail_batch (bl_batch bl) last_error meta) (\<lambda>_. ok ()))))))"

definition dlq_landsignal_process :: "delivery \<Rightarrow> unit op" where
  "dlq_landsignal_process dl =
     (let msg = dl_message dl in
      and_then (map_err (Wrapped ''failed to decode land result from dlq payload'')
        (of_sum (unmarshal_merge_result (m_payload msg)))) (\<lambda>res.
      dlq_open msg (mr_queue res)
        (and_then (dlq_storage (mr_queue res)) (\<lambda>_.
           case failure_context dl of (last_error, meta) \<Rightarrow>
             and_then (fail_batch (mr_id res) last_error meta) (\<lambda>_. ok ())))))"

definition dlq_landconflictsignal_process :: "delivery \<Rightarrow> unit op" where
  "dlq_landconflictsignal_process dl =
     (let msg = dl_message dl in
      and_then (map_err (Wrapped ''failed to decode land conflict check result from dlq payload'')
        (of_sum (unmarshal_merge_result (m_payload msg)))) (\<lambda>res.
      dlq_open msg (mr_queue res)
        (and_then (dlq_storage (mr_queue res)) (\<lambda>_.
           case failure_context dl of (last_error, meta) \<Rightarrow> dlq_fail_request (mr_id res) last_error meta))))"

definition dlq_log_process :: "delivery \<Rightarrow> unit op" where
  "dlq_log_process dl = ok ()"

section \<open>Request-scoped dead letters\<close>

definition decode_land_request_id :: "payload \<Rightarrow> goerr + string \<times> string" where
  "decode_land_request_id p = (case unmarshal_land_request p of Inl e \<Rightarrow> Inl e | Inr lr \<Rightarrow> Inr (lr_id lr, lr_queue lr))"

definition decode_cancel_request_id :: "payload \<Rightarrow> goerr + string \<times> string" where
  "decode_cancel_request_id p = (case unmarshal_cancel_request p of Inl e \<Rightarrow> Inl e | Inr cr \<Rightarrow> Inr (cr_id cr, cr_queue cr))"

definition decode_request_id :: "topic_key \<Rightarrow> payload \<Rightarrow> goerr + string \<times> string" where
  "decode_request_id primary p = unmarshal_request_id primary p"

text \<open>
  The loop of \<open>owningBatch\<close>: the first batch past \<open>Creating\<close> that has not ended, and the first in
  \<open>Creating\<close> before it.
\<close>

fun scan_owner :: "batch list \<Rightarrow> string \<Rightarrow> string option \<times> string" where
  "scan_owner [] creating = (None, creating)"
| "scan_owner (b # bs) creating =
     (if batch_state_is_terminal (b_state b) then scan_owner bs creating
      else if b_state b \<noteq> BatchStateCreating then (Some (b_id b), creating)
      else scan_owner bs (if creating = [] then b_id b else creating))"

definition owning_batch :: "string \<Rightarrow> string op" where
  "owning_batch request_id =
     and_then (find_by_request_id request_id) (\<lambda>(batches, stale).
     case scan_owner batches [] of
       (Some i, creating) \<Rightarrow> ok i
     | (None, creating) \<Rightarrow>
         if creating = [] then ok []
         else and_then (attempt (request_get request_id)) (\<lambda>r. case r of
           Inl e \<Rightarrow> if is_not_found e then ok [] else fail e
         | Inr request \<Rightarrow> ok (if r_state request \<noteq> RequestStateBatched then [] else creating)))"

definition dlq_request_process :: "(payload \<Rightarrow> goerr + string \<times> string) \<Rightarrow> delivery \<Rightarrow> unit op" where
  "dlq_request_process decode dl =
     (let msg = dl_message dl in
      and_then (map_err (Wrapped ''failed to decode dlq payload'') (of_sum (decode (m_payload msg)))) (\<lambda>(rid, queue).
      dlq_open msg queue
        (if rid = [] then fail (Plain ''dlq payload decoded to empty request id'')
         else and_then (dlq_storage queue) (\<lambda>_.
           case failure_context dl of (last_error, meta) \<Rightarrow>
             and_then (owning_batch rid) (\<lambda>owner.
             if owner \<noteq> [] then ok () else dlq_fail_request rid last_error meta)))))"

section \<open>Speculate's dead letters\<close>

definition blame :: "delivery \<Rightarrow> string \<Rightarrow> string list \<times> string" where
  "blame dl payload_batch_id =
     (case dl_failure dl of
        None \<Rightarrow> ([payload_batch_id], ''unattributed'')
      | Some f \<Rightarrow>
          let batches = ids_of_type (f_subjects f) ''batch'' in
          if batches \<noteq> [] then (batches, ''batch'')
          else if ids_of_type (f_subjects f) ''queue'' \<noteq> [] then ([payload_batch_id], ''queue'')
          else ([payload_batch_id], ''unattributed''))"

definition smallest_id :: "batch list \<Rightarrow> string" where
  "smallest_id live = foldl (\<lambda>next b. if b_id b < next then b_id b else next) (b_id (hd live)) (tl live)"

definition retrigger :: "string \<Rightarrow> unit op" where
  "retrigger queue =
     and_then (map_err (Wrapped ''failed to list live batches of queue'') (list_by_states active_batch_states)) (\<lambda>live.
     if live = [] then ok ()
     else
       let next = smallest_id live in
       and_then (map_err (Wrapped ''failed to serialize batch ID'') (of_sum (marshal_id TopicKeySpeculate next queue))) (\<lambda>payload.
       and_then (unique_id next) (\<lambda>msg_id.
       map_err (Wrapped ''failed to re-trigger speculation for queue'')
         (publish_message TopicKeySpeculate \<lparr>mp_tenant = queue, mp_id = msg_id, mp_payload = payload,
            mp_partition = queue, mp_metadata = Map.empty\<rparr>))))"

definition fail_culprit :: "string \<Rightarrow> metadata \<Rightarrow> string \<Rightarrow> bool \<Rightarrow> bool op" where
  "fail_culprit last_error meta batch_id progressed =
     and_then (fail_batch batch_id last_error meta) (\<lambda>transitioned. ok (progressed \<or> transitioned))"

definition dlq_speculate_process :: "topic_key \<Rightarrow> delivery \<Rightarrow> unit op" where
  "dlq_speculate_process key dl =
     (let msg = dl_message dl in
      and_then (map_err (Wrapped ''failed to decode batch id from dlq payload'')
        (of_sum (unmarshal_batch_id key (m_payload msg)))) (\<lambda>(bid, queue).
      dlq_open msg queue
        (if bid = [] then fail (Plain ''dlq payload decoded to empty batch id'')
         else and_then (dlq_storage queue) (\<lambda>_.
           case failure_context dl of (last_error, meta) \<Rightarrow>
           case blame dl bid of (culprits, why) \<Rightarrow>
             let meta = meta(''dlq.attribution'' \<mapsto> why) in
             and_then (fold_act (fail_culprit last_error meta) culprits False) (\<lambda>progressed.
             if \<not> progressed then ok () else retrigger queue)))))"

section \<open>They are lawful\<close>

lemma keep_dlq_fail_request [rg_intros]:
  "stable (evolves sha) P \<Longrightarrow> (\<And>d. P d \<Longrightarrow> requests_keyed d) \<Longrightarrow>
   rg sha P (dlq_fail_request i err meta) (\<lambda>_. P)"
  unfolding dlq_fail_request_def by (intro rg_intros)

lemma keep_fail_members [rg_intros]:
  "stable (evolves sha) P \<Longrightarrow> (\<And>d. P d \<Longrightarrow> requests_keyed d) \<Longrightarrow>
   rg sha P (fail_members b err meta) (\<lambda>_. P)"
  unfolding fail_members_def by (intro rg_intros)

lemma lawful_fail_batch: "lawful sha (fail_batch i err meta)"
proof -
  have get: "rg sha (consistent sha) (attempt (batch_get i))
      (\<lambda>r d. consistent sha d \<and> (\<forall>b. r = Inr b \<longrightarrow> consistent sha d \<and> known b d \<and> b_id b = i))"
    by (rule lifecycle.triple_attempt [OF triple_batch_get [OF stable_consistent] stable_consistent])
      (auto simp: consistent_def)
  have move: "rg sha (\<lambda>d. consistent sha d \<and> known b d)
      (transition b BatchStateFailed) (\<lambda>_ d. consistent sha d \<and> known b d)"
    if "\<not> batch_state_is_terminal (b_state b)" for b
    by (rule lifecycle.triple_conseq [OF triple_transition [OF stable_consistent_batch _ ending_edges(2) [OF that]]]) auto
  have body: "rg sha (\<lambda>d. consistent sha d \<and> known b d)
      (if b_state b = BatchStateFailed then
           and_then (ensure_record b) (\<lambda>_. and_then (fail_members b err meta) (\<lambda>_. ok False))
         else if b_state b = BatchStateSucceeded \<or> b_state b = BatchStateCancelled then ok False
         else
           and_then (transition b BatchStateFailed) (\<lambda>b.
           and_then (fail_members b err meta) (\<lambda>_. ok True))) (\<lambda>_ d. consistent sha d \<and> known b d)" for b
    by (intro rg_intros stable_consistent_batch move)
      (auto dest: consistent_keyed simp: batch_state_is_terminal_iff)
  show ?thesis
    unfolding fail_batch_def
  proof (rule lifecycle.triple_bind [OF get])
    fix r
    show "rg sha (\<lambda>d. consistent sha d \<and> (\<forall>b. r = Inr b \<longrightarrow> consistent sha d \<and> known b d \<and> b_id b = i))
      (case r of
         Inl e \<Rightarrow> if is_not_found e then ok False else fail (Wrapped ''failed to get batch'' e)
       | Inr b \<Rightarrow> if b_state b = BatchStateFailed then
             and_then (ensure_record b) (\<lambda>_. and_then (fail_members b err meta) (\<lambda>_. ok False))
           else if b_state b = BatchStateSucceeded \<or> b_state b = BatchStateCancelled then ok False
           else
             and_then (transition b BatchStateFailed) (\<lambda>b.
             and_then (fail_members b err meta) (\<lambda>_. ok True))) (\<lambda>_. consistent sha)"
    proof (cases r)
      case (Inl e)
      then show ?thesis by (auto intro!: lifecycle.triple_ok lifecycle.triple_if lifecycle.triple_fail)
    next
      case (Inr b)
      show ?thesis
        unfolding Inr sum.case by (rule lifecycle.triple_conseq [OF body]) auto
    qed
  qed
qed

lemma lawful_dlq_open: "lawful sha m \<Longrightarrow> lawful sha (dlq_open msg q m)"
  by (auto simp: dlq_open_def intro: rg_intros split: sum.split)

lemma keep_dlq_storage [rg_intros]: "rg sha P (dlq_storage q) (\<lambda>_. P)"
  unfolding dlq_storage_def by (intro rg_intros)

lemma keep_owning_batch [rg_intros]:
  "stable (evolves sha) P \<Longrightarrow> rg sha P (owning_batch i) (\<lambda>_. P)"
  unfolding owning_batch_def by (intro rg_intros)

lemma keep_retrigger [rg_intros]: "stable (evolves sha) P \<Longrightarrow> rg sha P (retrigger q) (\<lambda>_. P)"
  unfolding retrigger_def Let_def by (intro rg_intros)

lemmas lawful_dlq_intros = rg_intros stable_consistent lawful_dlq_open lawful_fail_batch

lemma lawful_dlq_batch: "lawful sha (dlq_batch_process key dl)"
  unfolding dlq_batch_process_def Let_def by (intro lawful_dlq_intros)

lemma lawful_dlq_buildsignal: "lawful sha (dlq_buildsignal_process key dl)"
  unfolding dlq_buildsignal_process_def Let_def by (intro lawful_dlq_intros)

lemma lawful_dlq_landsignal: "lawful sha (dlq_landsignal_process dl)"
  unfolding dlq_landsignal_process_def Let_def by (intro lawful_dlq_intros)

lemma lawful_dlq_landconflictsignal: "lawful sha (dlq_landconflictsignal_process dl)"
  unfolding dlq_landconflictsignal_process_def Let_def by (intro lawful_dlq_intros; auto dest: consistent_keyed)

lemma lawful_dlq_request: "lawful sha (dlq_request_process dec' dl)"
  unfolding dlq_request_process_def Let_def by (intro lawful_dlq_intros; auto dest: consistent_keyed)

lemma lawful_dlq_speculate: "lawful sha (dlq_speculate_process key dl)"
  unfolding dlq_speculate_process_def fail_culprit_def Let_def by (intro lawful_dlq_intros)

lemma lawful_dlq_log: "lawful sha (dlq_log_process dl)"
  unfolding dlq_log_process_def by (rule keep_ok)

end
