(* ===== verification/Pipeline.thy ===== *)
theory Pipeline
  imports SpecSafe DeadLetters
begin

text \<open>
  The orchestrator as a whole (\<open>submitqueue/orchestrator/pipeline.go\<close>): the table of stages, each with
  its controller and its dead-letter reconciler, and what holds of a queue's database whatever the
  stages do to it, in any order, at the same time, and with any calls failing.
\<close>

section \<open>The table of stages\<close>

text \<open>What the deployer supplies.  The hook stage, which writes nothing, is left out.\<close>

record deps =
  dp_counter :: "string \<Rightarrow> goerr + unit"
  dp_runner :: "string \<Rightarrow> goerr + runner"
  dp_validate :: validate_exts
  dp_analyzer :: "string \<Rightarrow> goerr + analyzer"
  dp_speculate :: exts

datatype stage =
    StageStart | StageCancel | StageValidate | StageMergeConflictCheckSignal | StageBatch
  | StageDependencyAnalysis | StageSpeculate | StageBuild | StageBuildSignal | StageLand
  | StageMergeSignal | StageConclude

definition stage_process :: "deps \<Rightarrow> stage \<Rightarrow> delivery \<Rightarrow> unit op" where
  "stage_process p st dl = (case st of
     StageStart \<Rightarrow> start_process dl
   | StageCancel \<Rightarrow> cancel_process dl
   | StageValidate \<Rightarrow> validate_process (dp_validate p) TopicKeyMergeConflictCheck TopicKeyValidate dl
   | StageMergeConflictCheckSignal \<Rightarrow> landconflictsignal_process dl
   | StageBatch \<Rightarrow> batch_process (dp_counter p) TopicKeyBatch dl
   | StageDependencyAnalysis \<Rightarrow> dependency_analysis_process (dp_analyzer p) TopicKeyDependencyAnalysis dl
   | StageSpeculate \<Rightarrow> speculate_process (dp_speculate p) TopicKeySpeculate dl
   | StageBuild \<Rightarrow> build_process (dp_runner p) TopicKeyBuild dl
   | StageBuildSignal \<Rightarrow> and_then (buildsignal_process (dp_runner p) TopicKeyBuildSignal dl) (\<lambda>_. ok ())
   | StageLand \<Rightarrow> land_process TopicKeyMerge TopicKeyLand dl
   | StageMergeSignal \<Rightarrow> landsignal_process dl
   | StageConclude \<Rightarrow> conclude_process TopicKeyConclude dl)"

definition stage_dlq :: "stage \<Rightarrow> delivery \<Rightarrow> unit op" where
  "stage_dlq st dl = (case st of
     StageStart \<Rightarrow> dlq_request_process decode_land_request_id dl
   | StageCancel \<Rightarrow> dlq_request_process decode_cancel_request_id dl
   | StageValidate \<Rightarrow> dlq_request_process (decode_request_id TopicKeyValidate) dl
   | StageMergeConflictCheckSignal \<Rightarrow> dlq_landconflictsignal_process dl
   | StageBatch \<Rightarrow> dlq_request_process (decode_request_id TopicKeyBatch) dl
   | StageDependencyAnalysis \<Rightarrow> dlq_batch_process TopicKeyDependencyAnalysis dl
   | StageSpeculate \<Rightarrow> dlq_speculate_process TopicKeySpeculate dl
   | StageBuild \<Rightarrow> dlq_batch_process TopicKeyBuild dl
   | StageBuildSignal \<Rightarrow> dlq_buildsignal_process TopicKeyBuildSignal dl
   | StageLand \<Rightarrow> dlq_batch_process TopicKeyLand dl
   | StageMergeSignal \<Rightarrow> dlq_landsignal_process dl
   | StageConclude \<Rightarrow> dlq_batch_process TopicKeyConclude dl)"

datatype job = Live stage delivery | Dead stage delivery

definition run_job :: "deps \<Rightarrow> job \<Rightarrow> unit op" where
  "run_job p j = (case j of Live st dl \<Rightarrow> stage_process p st dl | Dead st dl \<Rightarrow> stage_dlq st dl)"

abbreviation sha_of :: "deps \<Rightarrow> string \<Rightarrow> string" where
  "sha_of p \<equiv> x_sha (dp_speculate p)"

section \<open>Every stage is lawful\<close>

lemma lawful_stage: "lawful (sha_of p) (stage_process p st dl)"
proof (cases st)
  case StageBuildSignal
  then show ?thesis
    by (simp add: stage_process_def) (rule keep_bind [OF lawful_buildsignal keep_ok])
qed (simp_all add: stage_process_def lawful_start lawful_cancel lawful_validate lawful_landconflictsignal
    lawful_batch lawful_dependency_analysis triple_speculate_process lawful_build lawful_land
    lawful_landsignal lawful_conclude)

lemma lawful_stage_dlq: "lawful sha (stage_dlq st dl)"
  by (cases st) (simp_all add: stage_dlq_def lawful_dlq_request lawful_dlq_landconflictsignal lawful_dlq_batch
      lawful_dlq_speculate lawful_dlq_buildsignal lawful_dlq_landsignal)

lemma lawful_job: "lawful (sha_of p) (run_job p j)"
  by (cases j) (simp_all add: run_job_def lawful_stage lawful_stage_dlq)

text \<open>
  What other processes can do between two calls of a handler: nothing, a job of their own (whose
  calls may fail and be interleaved in turn), or several.
\<close>

inductive interferes :: "deps \<Rightarrow> (db \<Rightarrow> db) \<Rightarrow> bool" for p where
  idle: "interferes p (\<lambda>d. d)"
| job: "(\<And>ev. ev \<in> set (w_script w) \<Longrightarrow> interferes p (ev_other ev)) \<Longrightarrow>
    interferes p (\<lambda>d. w_db (snd (run_job p j (w\<lparr>w_db := d\<rparr>))))"
| several: "interferes p f \<Longrightarrow> interferes p g \<Longrightarrow> interferes p (\<lambda>d. g (f d))"

lemma consistent_evolves: "consistent sha d \<Longrightarrow> evolves sha d d' \<Longrightarrow> consistent sha d'"
  by (rule stableD [OF stable_consistent])

lemma interferes_lawful: "interferes p f \<Longrightarrow> consistent (sha_of p) d \<Longrightarrow> evolves (sha_of p) d (f d)"
proof (induction arbitrary: d rule: interferes.induct)
  case idle
  show ?case by (simp add: evolves_same)
next
  case (job w j)
  then have "lawful_script (sha_of p) (w\<lparr>w_db := d\<rparr>)" by (simp add: abides_def)
  from triple_evolves [OF lawful_job this] job.prems show ?case by simp
next
  case (several f g)
  then show ?case by (meson consistent_evolves evolves_transitive)
qed

section \<open>Histories of a queue\<close>

text \<open>
  \<open>history p d d'\<close>: the database went from \<open>d\<close> to \<open>d'\<close> by jobs of the pipeline.
\<close>

inductive history :: "deps \<Rightarrow> db \<Rightarrow> db \<Rightarrow> bool" for p where
  start: "history p d d"
| deliver: "history p d (w_db w) \<Longrightarrow> (\<And>ev. ev \<in> set (w_script w) \<Longrightarrow> interferes p (ev_other ev)) \<Longrightarrow>
    history p d (w_db (snd (run_job p j w)))"

lemma history_lawful: "history p d d' \<Longrightarrow> consistent (sha_of p) d \<Longrightarrow> evolves (sha_of p) d d'"
proof (induction rule: history.induct)
  case (start d)
  show ?case by (simp add: evolves_same)
next
  case (deliver d w j)
  then have step: "evolves (sha_of p) d (w_db w)" by blast
  with deliver.prems have "consistent (sha_of p) (w_db w)" by (rule consistent_evolves)
  moreover have "lawful_script (sha_of p) w"
    using deliver.hyps(2) by (auto simp: abides_def intro: interferes_lawful)
  ultimately have "evolves (sha_of p) (w_db w) (w_db (snd (run_job p j w)))"
    by (intro triple_evolves [OF lawful_job])
  with step show ?case by (rule evolves_transitive)
qed

lemma consistent_empty: "consistent sha empty_db"
  by (simp add: consistent_def keyed_def requests_keyed_def sets_ok_def empty_db_def)

section \<open>What every history keeps\<close>

text \<open>Sample deployment: no builds, no conflicts, no proposals.\<close>

definition sample_runner :: runner where
  "sample_runner = \<lparr>rn_trigger = (\<lambda>w base head. Inr (''build-'' @ b_id head)),
     rn_status = (\<lambda>w i. Inr (BuildRunning, Map.empty)), rn_cancel = (\<lambda>w i. Inr ())\<rparr>"

definition sample_deps :: deps where
  "sample_deps = \<lparr>dp_counter = (\<lambda>_. Inr ()), dp_runner = (\<lambda>_. Inr sample_runner),
     dp_validate = \<lparr>v_provider_for = (\<lambda>_. Inr (\<lambda>_. Inr [])), v_validators = None, v_error_text = (\<lambda>_. [])\<rparr>,
     dp_analyzer = (\<lambda>_. Inr (\<lambda>_ _. Inr [])), dp_speculate = sample_exts\<rparr>"

definition sample_request :: "string \<Rightarrow> request_state \<Rightarrow> request" where
  "sample_request i st = \<lparr>r_id = i, r_queue = ''q'', r_uris = [''u''], r_land_strategy = ''rebase'',
     r_state = st, r_version = 2\<rparr>"

definition sample_ended :: db where
  "sample_ended = empty_db\<lparr>
     d_requests := [''r1'' \<mapsto> sample_request ''r1'' RequestStateLanded],
     d_batches := [''1'' \<mapsto> sample_batch ''1'' [] BatchStateSucceeded],
     d_path_builds := [(''p'', 1) \<mapsto> \<lparr>pb_queue = ''q'', pb_path = ''p'', pb_attempt = 1, pb_build = ''build-1''\<rparr>]\<rparr>"

lemma sample_ended_consistent: "consistent (sha_of sample_deps) sample_ended"
  by (simp add: sample_ended_def consistent_def keyed_def requests_keyed_def sets_ok_def empty_db_def
      sample_request_def sample_batch_def)

lemma sample_history:
  "history sample_deps sample_ended
     (w_db (snd (run_job sample_deps (Dead StageBuild (sample_delivery ''1'')) (sample_world sample_ended []))))"
  by (rule history.deliver) (simp_all add: sample_world_def history.start)

text \<open>
  C6. However the stages of the orchestrator and their dead-letter reconcilers are run on a queue, one
  within another, with any database call failing before or after it took effect, the database that
  started empty keeps the rows under their own keys, and every stored path set is about a batch
  past its creation and made of well-formed guesses about that batch's dependencies.
\<close>
theorem pipeline_invariant:
  assumes "history p empty_db d"
  shows "consistent (sha_of p) d"
  by (rule consistent_evolves [OF consistent_empty history_lawful [OF assms consistent_empty]])

lemma pipeline_invariant_witness:
  "consistent (sha_of sample_deps) (w_db (snd (run_job sample_deps (Live StageSpeculate (sample_delivery ''1''))
     (sample_world empty_db []))))"
  by (rule pipeline_invariant, rule history.deliver) (simp_all add: sample_world_def history.start)

text \<open>
  C7. A batch that has reached a terminal state is never changed again by any stage or reconciler.
\<close>
theorem pipeline_batch_final:
  assumes "history p d d'" and "consistent (sha_of p) d"
    and "d_batches d i = Some b" and "batch_state_is_terminal (b_state b)"
  shows "d_batches d' i = Some b"
  by (rule evolves_terminal [OF history_lawful [OF assms(1,2)] assms(3,4)])

lemma pipeline_batch_final_witness:
  "d_batches (w_db (snd (run_job sample_deps (Dead StageBuild (sample_delivery ''1'')) (sample_world sample_ended [])))) ''1''
     = Some (sample_batch ''1'' [] BatchStateSucceeded)"
  by (rule pipeline_batch_final [OF sample_history sample_ended_consistent])
    (simp_all add: sample_ended_def sample_batch_def)

text \<open>
  C8. A request that has landed, failed or been cancelled is never changed again by any stage or
  reconciler, and its row is never lost.
\<close>
theorem pipeline_request_final:
  assumes "history p d d'" and "consistent (sha_of p) d"
    and "d_requests d i = Some r" and "is_request_state_terminal (r_state r)"
  shows "d_requests d' i = Some r"
  by (rule evolves_request_terminal [OF history_lawful [OF assms(1,2)] assms(3,4)])

lemma pipeline_request_final_witness:
  "d_requests (w_db (snd (run_job sample_deps (Dead StageBuild (sample_delivery ''1'')) (sample_world sample_ended [])))) ''r1''
     = Some (sample_request ''r1'' RequestStateLanded)"
  by (rule pipeline_request_final [OF sample_history sample_ended_consistent])
    (simp_all add: sample_ended_def sample_request_def is_request_state_terminal_def)

text \<open>
  The build that a path attempt was linked to is its build for ever: a second dispatch of the
  attempt never replaces the link.
\<close>
theorem pipeline_link_final:
  assumes "history p d d'" and "consistent (sha_of p) d" and "d_path_builds d k = Some link"
  shows "d_path_builds d' k = Some link"
  using history_lawful [OF assms(1,2)] assms(3) by (metis domI evolves_def links_grow_def map_le_def)

lemma pipeline_link_final_witness:
  "d_path_builds (w_db (snd (run_job sample_deps (Dead StageBuild (sample_delivery ''1'')) (sample_world sample_ended []))))
     (''p'', 1) = Some \<lparr>pb_queue = ''q'', pb_path = ''p'', pb_attempt = 1, pb_build = ''build-1''\<rparr>"
  by (rule pipeline_link_final [OF sample_history sample_ended_consistent]) (simp add: sample_ended_def)

text \<open>
  C9. Between any two points of a history a request that was being cancelled is either as it was or
  has ended: no stage puts a request back to work once its cancellation is recorded.
\<close>
theorem pipeline_cancelling_only_ends:
  assumes "history p d d'" and "consistent (sha_of p) d"
    and "d_requests d i = Some r" and "r_state r = RequestStateCancelling"
  shows "\<exists>r'. d_requests d' i = Some r' \<and> (r' = r \<or> is_request_state_terminal (r_state r') \<and> r_version r < r_version r')"
  using evolves_request [OF history_lawful [OF assms(1,2)] assms(3)] assms(4)
  by (auto simp: request_evolved_def request_edge_def)

lemma pipeline_cancelling_only_ends_witness:
  "\<exists>r'. d_requests (w_db (snd (run_job sample_deps (Live StageBatch (sample_delivery ''1''))
      (sample_world (empty_db\<lparr>d_requests := [''r'' \<mapsto> sample_request ''r'' RequestStateCancelling]\<rparr>) [])))) ''r'' = Some r' \<and>
     (r' = sample_request ''r'' RequestStateCancelling \<or>
      is_request_state_terminal (r_state r') \<and> r_version (sample_request ''r'' RequestStateCancelling) < r_version r')"
  by (rule pipeline_cancelling_only_ends
      [of sample_deps "empty_db\<lparr>d_requests := [''r'' \<mapsto> sample_request ''r'' RequestStateCancelling]\<rparr>"], rule history.deliver)
    (simp_all add: sample_world_def history.start consistent_def keyed_def requests_keyed_def sets_ok_def empty_db_def
      sample_request_def)

end
