(* ===== verification/Races.thy ===== *)
theory Races
  imports Pipeline
begin

text \<open>
  What the contract does not promise: concrete schedules of the stages, within it, whose outcome
  the code's own comments rule out.  Each is a run of the handlers on one small database.
\<close>

section \<open>Schedules\<close>

definition sample_message :: "payload \<Rightarrow> delivery" where
  "sample_message p = \<lparr>dl_message = \<lparr>m_tenant = ''q'', m_topic = ''t'', m_id = ''m'', m_partition = ''q'',
     m_payload = p, m_metadata = Map.empty, m_published_at = 0\<rparr>, dl_attempt = 1, dl_metadata = Map.empty,
     dl_failure = None\<rparr>"

text \<open>A call without interference or fault, a call before which something happens, a call that is lost.\<close>

definition calm :: event where
  "calm = Event (\<lambda>d. d) None"

definition meanwhile :: "(db \<Rightarrow> db) \<Rightarrow> event" where
  "meanwhile f = Event f None"

definition lost :: event where
  "lost = Event (\<lambda>d. d) (Some (Lost (Plain ''connection reset'')))"

fun topic_name :: "topic_key \<Rightarrow> string" where
  "topic_name TopicKeyStart = ''start''"
| "topic_name TopicKeyCancel = ''cancel''"
| "topic_name TopicKeyValidate = ''validate''"
| "topic_name TopicKeyBatch = ''batch''"
| "topic_name TopicKeyDependencyAnalysis = ''dependency-analysis''"
| "topic_name TopicKeySpeculate = ''speculate''"
| "topic_name TopicKeyBuild = ''build''"
| "topic_name TopicKeyBuildSignal = ''buildsignal''"
| "topic_name TopicKeyLand = ''submitqueue-land''"
| "topic_name TopicKeyConclude = ''conclude''"
| "topic_name TopicKeyLog = ''log''"
| "topic_name TopicKeyMergeConflictCheck = ''merge-conflict-check''"
| "topic_name TopicKeyMerge = ''runway-merge''"

definition queue_world :: "db \<Rightarrow> event list \<Rightarrow> world" where
  "queue_world d script = \<lparr>w_db = d, w_script = script, w_queue = ''q'', w_registry = (\<lambda>k. Some (topic_name k)), w_nanos = 0,
     w_seq = 0, w_calls = []\<rparr>"

text \<open>The database after a job on a quiet world.\<close>

definition after :: "job \<Rightarrow> db \<Rightarrow> db" where
  "after j d = w_db (snd (run_job sample_deps j (queue_world d [])))"

text \<open>What was sent: the statuses of a request log, and the IDs published on a topic.\<close>

definition statuses_sent :: "db \<Rightarrow> request_status list" where
  "statuses_sent d = List.map_filter (\<lambda>m. case m_payload m of PLog l \<Rightarrow> Some (rl_status l) | _ \<Rightarrow> None) (d_messages d)"

definition ids_sent :: "topic_key \<Rightarrow> db \<Rightarrow> string list" where
  "ids_sent k d = map m_id (filter (\<lambda>m. m_topic m = topic_name k) (d_messages d))"

definition state_of_request :: "string \<Rightarrow> db \<Rightarrow> request_state option" where
  "state_of_request i d = map_option r_state (d_requests d i)"

definition state_of_batch :: "string \<Rightarrow> db \<Rightarrow> batch_state option" where
  "state_of_batch i d = map_option b_state (d_batches d i)"

section \<open>The start of every schedule\<close>

definition open_request :: "request_state \<Rightarrow> db" where
  "open_request st = empty_db\<lparr>d_requests := [''r1'' \<mapsto> sample_request ''r1'' st]\<rparr>"

definition cancel_job :: job where
  "cancel_job = Live StageCancel (sample_message (PCancel \<lparr>cr_id = ''r1'', cr_queue = ''q'', cr_reason = []\<rparr>))"

definition signal_job :: "merge_outcome \<Rightarrow> job" where
  "signal_job out = Live StageMergeConflictCheckSignal
     (sample_message (PMergeResult \<lparr>mr_id = ''r1'', mr_queue = ''q'', mr_outcome = out, mr_reason = ''conflict''\<rparr>))"

definition id_job :: "stage \<Rightarrow> string \<Rightarrow> job" where
  "id_job st i = Live st (sample_message (PId i ''q''))"

text \<open>One call of a schedule: what happens before it is worked out first, and once.\<close>

lemma db_op_idle: "w_script w = [] \<Longrightarrow> f (w_db w) = (r, d) \<Longrightarrow> db_op f w = (r, w\<lparr>w_db := d\<rparr>)"
  by (simp add: db_op_def)

lemma db_op_calm:
  "w_script w = calm # es \<Longrightarrow> f (w_db w) = (r, d) \<Longrightarrow> db_op f w = (r, w\<lparr>w_db := d, w_script := es\<rparr>)"
  by (simp add: db_op_def calm_def)

lemma db_op_meanwhile:
  "w_script w = meanwhile g # es \<Longrightarrow> g (w_db w) = d0 \<Longrightarrow> f d0 = (r, d) \<Longrightarrow> db_op f w = (r, w\<lparr>w_db := d, w_script := es\<rparr>)"
  by (simp add: db_op_def meanwhile_def Let_def)

lemma db_op_lost:
  "w_script w = lost # es \<Longrightarrow> db_op f w = (Inl (Plain ''connection reset''), w\<lparr>w_script := es\<rparr>)"
  by (simp add: db_op_def lost_def Let_def)

text \<open>The code after a call is left alone until the call has returned.\<close>

lemma and_then_weak_cong: "m = m' \<Longrightarrow> and_then m f = and_then m' f"
  by simp

lemmas run_defs =
  run_job_def stage_process_def stage_dlq_def sample_deps_def queue_world_def sample_message_def
  after_def open_queue_def validate_payload_queue_def validate_tenant_metadata_def metadata_get_def
  storage_for_def db_op_idle db_op_calm db_op_meanwhile db_op_lost require_queue_def Let_def get_now_ms_def now_ms_def

lemmas store_defs =
  request_get_def request_update_def request_create_def batch_get_def batch_update_def batch_create_def
  get_by_request_id_def request_batch_create_def request_batch_row_create_def dependent_get_def dependent_create_def
  dependent_update_def state_put_def state_row_put_def state_delete_def state_row_delete_def state_list_def
  row_defs counter_next_def empty_db_def open_request_def sample_request_def state_defs

lemmas publish_defs =
  publish_id_def marshal_id_def carries_id_def publish_message_def publisher_publish_def validate_ascii_identifier_def
  validate_text_identifier_def intent_id_def publish_log_def publish_batch_logs_def new_request_status_log_def log_value_def
  message_row_insert_def same_message_key_def unique_id_def

lemmas core_defs =
  find_by_request_id_def find_association_def terminate_request_def terminate_read_def terminate_publish_def
  transition_def ensure_record_def list_by_states_def list_bucket_def hydrate_def state_list_defs

lemmas cancel_defs =
  cancel_process_def unmarshal_cancel_request_def mark_request_cancelling_def cancel_request_now_def
  cancel_one_def cancel_batch_def cancel_publish_batch_id_def

lemmas signal_defs =
  landconflictsignal_process_def unmarshal_merge_result_def conflict_log_def fail_request_def publish_request_id_def

lemmas enroll_defs =
  dependency_analysis_process_def receive_batch_def unmarshal_batch_id_def unmarshal_id_def enroll_def
  request_enrolled_in_another_batch_def enrolled_check_def first_halted_request_id_def halted_check_def
  resolve_dependencies_def write_dependent_indexes_def write_dependent_index_def create_once_def
  associate_requests_with_batch_def claim_requests_for_batch_def claim_request_def publish_to_speculate_def

lemmas sent_defs = statuses_sent_def ids_sent_def state_of_request_def state_of_batch_def List.map_filter_def

section \<open>A terminal log entry that is never sent\<close>

text \<open>The first delivery loses the publish of its log entry; the second finds the request ended.\<close>

definition lost_cancel :: world where
  "lost_cancel = snd (run_job sample_deps cancel_job
     (queue_world (open_request RequestStateStarted) [calm, calm, calm, calm, calm, lost]))"

text \<open>
  When a cancellation has written the request's end but the publish of its log entry failed, the
  redelivery of the cancel message acknowledges without sending it: the request is cancelled, the
  message is gone, and no cancelled entry is ever published.
\<close>
theorem cancel_log_lost:
  "case run_job sample_deps cancel_job (queue_world (w_db lost_cancel) []) of (r, w) \<Rightarrow>
     state_of_request ''r1'' (w_db lost_cancel) = Some RequestStateCancelled \<and> r = Inr () \<and> statuses_sent (w_db w) = []"
  unfolding lost_cancel_def cancel_job_def
  by (simp add: run_defs store_defs publish_defs core_defs cancel_defs sent_defs act_simps cong: and_then_weak_cong)

definition lost_conflict :: world where
  "lost_conflict = snd (run_job sample_deps (signal_job OutcomeFailed)
     (queue_world (open_request RequestStateStarted) [calm, calm, lost]))"

text \<open>
  When Runway finds a request not mergeable and the publish of the error entry fails, the redelivered
  signal acknowledges without sending it: the repair that \<open>failRequest\<close> makes for a request already in
  error is never reached, because the handler returns on a halted request first.
\<close>
theorem conflict_log_lost:
  "case run_job sample_deps (signal_job OutcomeFailed) (queue_world (w_db lost_conflict) []) of (r, w) \<Rightarrow>
     state_of_request ''r1'' (w_db lost_conflict) = Some RequestStateError \<and> r = Inr () \<and> statuses_sent (w_db w) = []"
  unfolding lost_conflict_def signal_job_def
  by (simp add: run_defs store_defs publish_defs core_defs signal_defs sent_defs act_simps cong: and_then_weak_cong)

section \<open>A cancelled request in a live batch\<close>

text \<open>The request has been batched, and its batch waits for dependency analysis.\<close>

definition minted :: db where
  "minted = (open_request RequestStateValidated)\<lparr>d_batches := [''1'' \<mapsto>
     \<lparr>b_id = ''1'', b_queue = ''q'', b_contains = [''r1''], b_deps = [], b_state = BatchStateCreating, b_version = 1\<rparr>]\<rparr>"

definition raced_cancel :: "(goerr + unit) \<times> world" where
  "raced_cancel = run_job sample_deps (id_job StageDependencyAnalysis ''1'')
     (queue_world minted [calm, calm, calm, calm, calm, calm, calm, calm, calm, calm, meanwhile (after cancel_job)])"

text \<open>
  A cancellation that runs between the claim of a request and the promotion of its batch finds the
  batch still in \<open>Creating\<close>, takes it for no batch at all and ends the request as cancelled; the analysis
  then promotes the batch and announces it: a cancelled request goes on to be built and landed.
\<close>
theorem cancelled_request_enrolled:
  "case raced_cancel of (r, w) \<Rightarrow> r = Inr () \<and>
     state_of_request ''r1'' (w_db w) = Some RequestStateCancelled \<and>
     state_of_batch ''1'' (w_db w) = Some BatchStateCreated \<and>
     ids_sent TopicKeySpeculate (w_db w) = [''1'']"
  unfolding raced_cancel_def id_job_def cancel_job_def minted_def
  by (simp add: run_defs store_defs publish_defs core_defs cancel_defs enroll_defs sent_defs act_simps
      batch_state_is_cancellable_def non_cancellable_batch_states_def cong: and_then_weak_cong)

section \<open>A claim lost to a redelivery\<close>

text \<open>The request was validated and handed to \<open>batch\<close>, which minted its batch; the queue still holds the hand-over.\<close>

definition handed_on :: db where
  "handed_on = minted\<lparr>d_messages := [\<lparr>m_tenant = ''q'', m_topic = ''batch'', m_id = ''r1'', m_partition = ''q'',
     m_payload = PId ''r1'' ''q'', m_metadata = [''queue_name'' \<mapsto> ''q''], m_published_at = 0\<rparr>]\<rparr>"

definition raced_signal :: "(goerr + unit) \<times> world" where
  "raced_signal = run_job sample_deps (id_job StageDependencyAnalysis ''1'')
     (queue_world handed_on [calm, calm, calm, calm, calm, calm, calm, calm, calm, meanwhile (after (signal_job OutcomeSucceeded))])"

text \<open>
  A redelivered conflict-check signal that runs between the read and the write of the claim makes the
  claim lose its compare-and-swap; the analysis takes that for a cancellation, acknowledges and
  abandons the batch.  The repeated hand-over to \<open>batch\<close> is a duplicate of the one already sent, so the
  request is left validated with no live batch and no message that would make it one.
\<close>
theorem claim_lost_to_redelivery:
  "case raced_signal of (r, w) \<Rightarrow> r = Inr () \<and>
     state_of_request ''r1'' (w_db w) = Some RequestStateValidated \<and>
     state_of_batch ''1'' (w_db w) = Some BatchStateCreating \<and>
     ids_sent TopicKeyBatch (w_db w) = [''r1''] \<and> ids_sent TopicKeySpeculate (w_db w) = []"
  unfolding raced_signal_def handed_on_def minted_def id_job_def signal_job_def
  by (simp add: run_defs store_defs publish_defs core_defs signal_defs enroll_defs sent_defs act_simps cong: and_then_weak_cong)

section \<open>The dead letter of a redundant batch\<close>

text \<open>Batch 1 carries the request and speculates; batch 2 was minted for it by a redelivery.\<close>

definition redundant :: db where
  "redundant = (open_request RequestStateBatched)\<lparr>
     d_batches := [
       ''1'' \<mapsto> \<lparr>b_id = ''1'', b_queue = ''q'', b_contains = [''r1''], b_deps = [], b_state = BatchStateSpeculating, b_version = 3\<rparr>,
       ''2'' \<mapsto> \<lparr>b_id = ''2'', b_queue = ''q'', b_contains = [''r1''], b_deps = [], b_state = BatchStateCreating, b_version = 1\<rparr>],
     d_request_batches := [\<lparr>rb_request = ''r1'', rb_batch = ''1'', rb_version = 1\<rparr>]\<rparr>"

definition dead_analysis :: job where
  "dead_analysis = Dead StageDependencyAnalysis (sample_message (PId ''2'' ''q''))"

text \<open>
  The dead letter of a redundant batch ends the request that another, live batch carries: the
  reconciler of dependency analysis fails the members of its batch without the check for an owner
  that the reconciler of the batch stage makes for exactly this case.
\<close>
theorem dead_letter_fails_owned_request:
  "state_of_request ''r1'' (after dead_analysis redundant) = Some RequestStateError \<and>
   state_of_batch ''1'' (after dead_analysis redundant) = Some BatchStateSpeculating \<and>
   state_of_request ''r1'' (after (Dead StageBatch (sample_message (PId ''r1'' ''q''))) redundant) = Some RequestStateBatched"
  unfolding dead_analysis_def redundant_def
  by (simp add: run_defs store_defs publish_defs core_defs sent_defs act_simps
      dlq_batch_process_def dlq_open_def dlq_storage_def fail_batch_def fail_members_def dlq_fail_request_def
      failure_context_def queue_facts_def unmarshal_batch_id_def unmarshal_id_def unmarshal_request_id_def
      dlq_request_process_def decode_request_id_def owning_batch_def cong: and_then_weak_cong)

end
