(* ===== verification/Ranking.thy ===== *)
theory Ranking
  imports Detail "HOL-Library.Multiset"
begin

text \<open>
  What the path generator and the scorers use of Go's standard library: the \<open>float64\<close> values of \<open>Detail\<close> with
  the comparisons of IEEE 754, the rounded sum and \<open>math.Log\<close>, and the priority queue of
  \<open>container/heap\<close>.  A finite \<open>float64\<close> is a rational number; the rounding of an exact sum
  and the logarithm are arguments of the definitions, with their laws collected in
  \<open>float_laws\<close>.
\<close>

section \<open>Floating-point numbers\<close>

record float_ops =
  fo_round :: "rat \<Rightarrow> flt"
  fo_log :: "rat \<Rightarrow> flt"

fun flt_lt :: "flt \<Rightarrow> flt \<Rightarrow> bool" where
  "flt_lt (Fin x) (Fin y) = (x < y)"
| "flt_lt NegInf (Fin y) = True"
| "flt_lt NegInf PosInf = True"
| "flt_lt (Fin x) PosInf = True"
| "flt_lt _ _ = False"

definition flt_eq :: "flt \<Rightarrow> flt \<Rightarrow> bool" where
  "flt_eq a b \<longleftrightarrow> a = b \<and> a \<noteq> NaN"

definition flt_le :: "flt \<Rightarrow> flt \<Rightarrow> bool" where
  "flt_le a b \<longleftrightarrow> flt_lt a b \<or> flt_eq a b"

fun flt_neg :: "flt \<Rightarrow> flt" where
  "flt_neg NaN = NaN"
| "flt_neg NegInf = PosInf"
| "flt_neg (Fin x) = Fin (- x)"
| "flt_neg PosInf = NegInf"

fun flt_add :: "float_ops \<Rightarrow> flt \<Rightarrow> flt \<Rightarrow> flt" where
  "flt_add ops NaN b = NaN"
| "flt_add ops a NaN = NaN"
| "flt_add ops (Fin x) (Fin y) = fo_round ops (x + y)"
| "flt_add ops NegInf PosInf = NaN"
| "flt_add ops PosInf NegInf = NaN"
| "flt_add ops NegInf b = NegInf"
| "flt_add ops PosInf b = PosInf"
| "flt_add ops a NegInf = NegInf"
| "flt_add ops a PosInf = PosInf"

definition flt_sub :: "float_ops \<Rightarrow> flt \<Rightarrow> flt \<Rightarrow> flt" where
  "flt_sub ops a b = flt_add ops a (flt_neg b)"

text \<open>\<open>math.Max\<close>, \<open>math.Min\<close> and \<open>math.Log\<close>.\<close>

definition flt_max :: "flt \<Rightarrow> flt \<Rightarrow> flt" where
  "flt_max a b = (if a = PosInf \<or> b = PosInf then PosInf else if a = NaN \<or> b = NaN then NaN
     else if flt_lt a b then b else a)"

definition flt_min :: "flt \<Rightarrow> flt \<Rightarrow> flt" where
  "flt_min a b = (if a = NegInf \<or> b = NegInf then NegInf else if a = NaN \<or> b = NaN then NaN
     else if flt_lt b a then b else a)"

fun flt_log :: "float_ops \<Rightarrow> flt \<Rightarrow> flt" where
  "flt_log ops (Fin x) = (if x < 0 then NaN else if x = 0 then NegInf else fo_log ops x)"
| "flt_log ops PosInf = PosInf"
| "flt_log ops _ = NaN"

text \<open>
  The laws: rounding is monotone, keeps the numbers it yields and the constants 0, 1/2 and 1;
  the logarithm is monotone, a \<open>float64\<close> itself, finite on positive finite arguments and 0 at 1.
\<close>

definition float_laws :: "float_ops \<Rightarrow> bool" where
  "float_laws ops \<longleftrightarrow>
     (\<forall>x y. x \<le> y \<longrightarrow> flt_le (fo_round ops x) (fo_round ops y)) \<and>
     (\<forall>x y. fo_round ops x = Fin y \<longrightarrow> fo_round ops y = Fin y) \<and>
     fo_round ops 0 = Fin 0 \<and> fo_round ops (1/2) = Fin (1/2) \<and> fo_round ops 1 = Fin 1 \<and>
     (\<forall>x y. 0 < x \<longrightarrow> x \<le> y \<longrightarrow> flt_le (fo_log ops x) (fo_log ops y)) \<and>
     (\<forall>x. 0 < x \<longrightarrow> (\<exists>y. fo_log ops x = Fin y \<and> fo_round ops y = Fin y)) \<and>
     fo_log ops 1 = Fin 0"

lemma flt_lt_irrefl [simp]: "\<not> flt_lt a a"
  by (cases a) simp_all

lemma flt_lt_NaN [simp]: "\<not> flt_lt NaN b" "\<not> flt_lt a NaN"
  by (cases a; cases b; simp)+

lemma flt_lt_asym: "flt_lt a b \<Longrightarrow> \<not> flt_lt b a"
  by (cases a; cases b) simp_all

lemma flt_lt_trans: "flt_lt a b \<Longrightarrow> flt_lt b c \<Longrightarrow> flt_lt a c"
  by (cases a; cases b; cases c) simp_all

lemma flt_lt_total: "a \<noteq> NaN \<Longrightarrow> b \<noteq> NaN \<Longrightarrow> a \<noteq> b \<Longrightarrow> flt_lt a b \<or> flt_lt b a"
  by (cases a; cases b) auto

lemma flt_le_refl: "a \<noteq> NaN \<Longrightarrow> flt_le a a"
  by (simp add: flt_le_def flt_eq_def)

lemma flt_le_trans: "flt_le a b \<Longrightarrow> flt_le b c \<Longrightarrow> flt_le a c"
  by (auto simp: flt_le_def flt_eq_def dest: flt_lt_trans)

lemma flt_le_not_lt: "a \<noteq> NaN \<Longrightarrow> b \<noteq> NaN \<Longrightarrow> flt_le a b \<longleftrightarrow> \<not> flt_lt b a"
  by (auto simp: flt_le_def flt_eq_def dest: flt_lt_total flt_lt_asym)

lemma flt_le_Fin [simp]: "flt_le (Fin x) (Fin y) \<longleftrightarrow> x \<le> y"
  by (auto simp: flt_le_def flt_eq_def)

lemma flt_le_NegInf [simp]: "flt_le NegInf b \<longleftrightarrow> b \<noteq> NaN" "flt_le a NegInf \<longleftrightarrow> a = NegInf"
  by (cases b; simp add: flt_le_def flt_eq_def) (cases a; simp add: flt_le_def flt_eq_def)

lemma flt_le_not_NaN: "flt_le a b \<Longrightarrow> a \<noteq> NaN \<and> b \<noteq> NaN"
  by (auto simp: flt_le_def flt_eq_def)

text \<open>Exact arithmetic keeps the laws.\<close>

definition exact_ops :: float_ops where
  "exact_ops = \<lparr>fo_round = Fin, fo_log = (\<lambda>x. Fin (x - 1))\<rparr>"

lemma exact_ops_laws: "float_laws exact_ops"
  by (auto simp: float_laws_def exact_ops_def)

section \<open>Scores\<close>

text \<open>
  Sums of logarithms of probabilities: not positive, representable, possibly minus infinity.
\<close>

definition is_score :: "float_ops \<Rightarrow> flt \<Rightarrow> bool" where
  "is_score ops s \<longleftrightarrow> s = NegInf \<or> (\<exists>x\<le>0. s = Fin x \<and> fo_round ops x = Fin x)"

definition is_probability :: "flt \<Rightarrow> bool" where
  "is_probability p \<longleftrightarrow> flt_le (Fin 0) p \<and> flt_le p (Fin 1)"

lemma is_score_not_NaN: "is_score ops s \<Longrightarrow> s \<noteq> NaN"
  by (auto simp: is_score_def)

lemma is_score_NegInf [simp]: "is_score ops NegInf"
  by (simp add: is_score_def)

lemma round_mono: "float_laws ops \<Longrightarrow> x \<le> y \<Longrightarrow> flt_le (fo_round ops x) (fo_round ops y)"
  by (simp add: float_laws_def)

lemma round_score:
  assumes laws: "float_laws ops" and "x \<le> 0"
  shows "is_score ops (fo_round ops x)"
proof -
  have "flt_le (fo_round ops x) (Fin 0)"
    using assms round_mono [of ops x 0] by (simp add: float_laws_def)
  then show ?thesis
    using laws by (cases "fo_round ops x") (auto simp: float_laws_def is_score_def flt_le_def flt_eq_def)
qed

lemma score_cases:
  assumes "is_score ops s"
  obtains (neg_inf) "s = NegInf" | (finite) x where "s = Fin x" "x \<le> 0" "fo_round ops x = Fin x"
  using assms by (auto simp: is_score_def)

lemma flt_add_NegInf:
  "is_score ops a \<Longrightarrow> flt_add ops a NegInf = NegInf" "is_score ops a \<Longrightarrow> flt_add ops NegInf a = NegInf"
  by (erule score_cases; simp)+

lemma flt_add_score:
  assumes "float_laws ops" and "is_score ops a" and "is_score ops b"
  shows "is_score ops (flt_add ops a b)"
  using assms(2)
proof (cases rule: score_cases)
  case neg_inf
  with assms(3) show ?thesis by (simp add: flt_add_NegInf)
next
  case (finite x)
  from assms(3) show ?thesis
    by (cases rule: score_cases) (use finite assms(1,2) in \<open>simp_all add: flt_add_NegInf round_score\<close>)
qed

lemma flt_add_le:
  assumes "float_laws ops" and "is_score ops a" and "is_score ops b"
  shows "flt_le (flt_add ops a b) a"
  using assms(2)
proof (cases rule: score_cases)
  case neg_inf
  with assms(3) show ?thesis by (simp add: flt_add_NegInf)
next
  case (finite x)
  from assms(3) show ?thesis
  proof (cases rule: score_cases)
    case neg_inf
    with finite show ?thesis by simp
  next
    case (finite y)
    with \<open>a = Fin x\<close> \<open>fo_round ops x = Fin x\<close> round_mono [OF assms(1), of "x + y" x]
    show ?thesis by simp
  qed
qed

lemma flt_add_mono:
  assumes laws: "float_laws ops" and a: "is_score ops a" and b: "is_score ops b" and c: "is_score ops c"
    and le: "flt_le b c"
  shows "flt_le (flt_add ops a b) (flt_add ops a c)"
proof (cases "a = NegInf \<or> b = NegInf")
  case True
  have "flt_add ops a c \<noteq> NaN"
    using flt_add_score [OF laws a c] by (rule is_score_not_NaN)
  with True b a show ?thesis by (auto simp: flt_add_NegInf)
next
  case False
  then obtain x y where "a = Fin x" and "b = Fin y" using a b by (auto simp: is_score_def)
  moreover from this le c obtain z where "c = Fin z" and "y \<le> z" by (auto simp: is_score_def)
  ultimately show ?thesis using round_mono [OF laws] by simp
qed

text \<open>The likelier side of a probability and the penalty of the other one.\<close>

lemma likelier_side:
  assumes laws: "float_laws ops" and p: "is_probability p"
  defines "pref \<equiv> flt_max p (flt_sub ops (Fin 1) p)" and "opp \<equiv> flt_min p (flt_sub ops (Fin 1) p)"
  shows "is_score ops (flt_log ops pref)"
    and "is_score ops (flt_sub ops (flt_log ops opp) (flt_log ops pref))"
proof -
  obtain x where x: "p = Fin x" "0 \<le> x" "x \<le> 1"
    using p by (cases p) (auto simp: is_probability_def flt_le_def flt_eq_def)
  have r: "flt_le (Fin 0) (fo_round ops (1 - x))" "flt_le (fo_round ops (1 - x)) (Fin 1)"
    "x < 1/2 \<Longrightarrow> flt_le (Fin (1/2)) (fo_round ops (1 - x))"
    using round_mono [OF laws, of 0 "1 - x"] round_mono [OF laws, of "1 - x" 1]
      round_mono [OF laws, of "1/2" "1 - x"] x laws by (auto simp: float_laws_def)
  then obtain y where y: "fo_round ops (1 - x) = Fin y"
    by (cases "fo_round ops (1 - x)") (auto simp: flt_le_def flt_eq_def)
  have y': "0 \<le> y" "y \<le> 1" "x < 1/2 \<longrightarrow> 1/2 \<le> y"
    using r unfolding y flt_le_Fin by simp_all
  define hi lo where "hi = (if x < y then y else x)" and "lo = (if y < x then y else x)"
  have hl: "pref = Fin hi" "opp = Fin lo" "0 < hi" "hi \<le> 1" "0 \<le> lo" "lo \<le> hi"
    using x y y' by (auto simp: pref_def opp_def flt_sub_def flt_max_def flt_min_def hi_def lo_def)
  obtain a where a: "fo_log ops hi = Fin a" "fo_round ops a = Fin a"
    using laws hl by (auto simp: float_laws_def)
  have "flt_le (Fin a) (Fin 0)"
    using laws hl(3,4) a by (metis (no_types, opaque_lifting) float_laws_def)
  then show "is_score ops (flt_log ops pref)" using a hl by (auto simp: is_score_def)
  show "is_score ops (flt_sub ops (flt_log ops opp) (flt_log ops pref))"
  proof (cases "lo = 0")
    case True
    then show ?thesis using a hl by (auto simp: flt_sub_def)
  next
    case False
    then obtain b where b: "fo_log ops lo = Fin b"
      using laws hl by (auto simp: float_laws_def order_le_less)
    have "flt_le (fo_log ops lo) (fo_log ops hi)"
      using laws hl False by (auto simp: float_laws_def order_le_less)
    then show ?thesis using a b hl False laws by (auto simp: flt_sub_def intro: round_score)
  qed
qed

section \<open>The priority queue\<close>

text \<open>
  \<open>heap.Pop\<close> returns and removes an element no other comes before; \<open>heap.Push\<close> and
  \<open>heap.Init\<close> keep the elements.  The queue is the list of its elements; where \<open>Less\<close>
  leaves no ties the popped element does not depend on the order of the list.
\<close>

definition least_of :: "('a \<Rightarrow> 'a \<Rightarrow> bool) \<Rightarrow> 'a \<Rightarrow> 'a list \<Rightarrow> 'a" where
  "least_of before x xs = foldl (\<lambda>m y. if before y m then y else m) x xs"

fun heap_pop :: "('a \<Rightarrow> 'a \<Rightarrow> bool) \<Rightarrow> 'a list \<Rightarrow> ('a \<times> 'a list) option" where
  "heap_pop before [] = None"
| "heap_pop before (x # xs) = (let m = least_of before x xs in Some (m, remove1 m (x # xs)))"

lemma least_of_mem: "least_of before x xs \<in> set (x # xs)"
  by (induction xs arbitrary: x) (auto simp: least_of_def)

lemma heap_pop_None [simp]: "heap_pop before xs = None \<longleftrightarrow> xs = []"
  by (cases xs) (auto simp: Let_def)

lemma heap_pop_Some:
  assumes "heap_pop before xs = Some (m, rest)"
  shows "m \<in> set xs" and "rest = remove1 m xs"
  using assms least_of_mem [of before] by (cases xs; auto simp: Let_def)+

lemma heap_pop_mset: "heap_pop before xs = Some (m, rest) \<Longrightarrow> mset xs = add_mset m (mset rest)"
  using heap_pop_Some [of before xs m rest] by simp

locale priority =
  fixes before :: "'a \<Rightarrow> 'a \<Rightarrow> bool" and valid :: "'a \<Rightarrow> bool" and key :: "'a \<Rightarrow> 'k"
  assumes asym: "before x y \<Longrightarrow> \<not> before y x"
    and cotrans: "valid x \<Longrightarrow> valid y \<Longrightarrow> valid z \<Longrightarrow> before x z \<Longrightarrow> before x y \<or> before y z"
    and ties: "valid x \<Longrightarrow> valid y \<Longrightarrow> \<not> before x y \<Longrightarrow> \<not> before y x \<Longrightarrow> key x = key y"
begin

lemma least_of_least:
  "\<forall>y\<in>set (x # xs). valid y \<Longrightarrow> y \<in> set (x # xs) \<Longrightarrow> \<not> before y (least_of before x xs)"
proof (induction xs arbitrary: x y)
  case Nil
  then show ?case using asym [of x x] by (auto simp: least_of_def)
next
  case (Cons z xs)
  let ?m = "if before z x then z else x"
  have eq: "least_of before x (z # xs) = least_of before ?m xs" by (simp add: least_of_def)
  have valid: "\<forall>y\<in>set (?m # xs). valid y" using Cons.prems(1) by auto
  have ih: "\<not> before u (least_of before ?m xs)" if "u \<in> set (?m # xs)" for u
    using Cons.IH [OF valid that] .
  have ok: "valid (least_of before ?m xs)" using least_of_mem [of before ?m xs] valid by blast
  show ?case
  proof
    assume lt: "before y (least_of before x (z # xs))"
    have "before y ?m \<or> before ?m (least_of before ?m xs)"
      using cotrans [of y ?m "least_of before ?m xs"] lt Cons.prems ok valid eq by auto
    then have "before y ?m" using ih [of ?m] by simp
    moreover have "y \<notin> set (?m # xs)" using ih [of y] lt eq by auto
    ultimately show False using Cons.prems(2) asym by (auto split: if_splits)
  qed
qed

lemma pop_least:
  assumes "heap_pop before xs = Some (m, rest)" and "\<forall>y\<in>set xs. valid y" and "y \<in> set xs"
  shows "\<not> before y m"
  using assms least_of_least by (cases xs) (auto simp: Let_def)

text \<open>Where the keys tell the elements apart, the popped element is the only least one.\<close>

lemma pop_unique:
  assumes "heap_pop before xs = Some (m, rest)" and "\<forall>y\<in>set xs. valid y" and "inj_on key (set xs)"
    and "m' \<in> set xs" and "\<forall>y\<in>set xs. \<not> before y m'"
  shows "m' = m"
proof -
  have "m \<in> set xs" using assms(1) by (rule heap_pop_Some)
  with assms pop_least [OF assms(1,2,4)] ties [of m' m] show ?thesis by (auto dest: inj_onD)
qed

lemma pop_order_irrelevant:
  assumes "mset xs = mset ys" and "\<forall>y\<in>set xs. valid y" and "inj_on key (set xs)"
    and "heap_pop before xs = Some (m, rest)" and "heap_pop before ys = Some (m', rest')"
  shows "m' = m"
proof (rule pop_unique [OF assms(4,2,3)])
  have set: "set xs = set ys" using assms(1) by (rule mset_eq_setD)
  then show "m' \<in> set xs" using heap_pop_Some(1) [OF assms(5)] by simp
  show "\<forall>y\<in>set xs. \<not> before y m'" using pop_least [OF assms(5)] assms(2) set by auto
qed

end

end
