(* ===== verification/BestFirst.thy ===== *)
theory BestFirst
  imports Ranking Entity "HOL-Library.Char_ord" "HOL-Library.List_Lexorder"
begin

text \<open>
  The best-first path generator
  (\<open>submitqueue/extension/speculation/generator/bestfirst/bestfirst.go\<close>): the definitions.  The
  scorer and \<open>ctx.Err\<close> are actions on a state of the caller's choosing (\<open>scorer\<close>, \<open>poll\<close>); a
  stream and the iterator are values handed back changed where the code mutates them through
  a pointer, which nothing else holds.
\<close>

section \<open>Probabilities of the unresolved dependencies\<close>

fun resolved_assumption :: "batch_state \<Rightarrow> assumption option" where
  "resolved_assumption BatchStateSucceeded = Some Succeeds"
| "resolved_assumption BatchStateFailed = Some Fails"
| "resolved_assumption BatchStateCancelled = Some Fails"
| "resolved_assumption _ = None"

definition batch_by_id :: "batch list \<Rightarrow> string \<Rightarrow> batch option" where
  "batch_by_id batches = foldl (\<lambda>m b. m(b_id b \<mapsto> b)) Map.empty batches"

definition paths_by_head :: "path_set list \<Rightarrow> string \<Rightarrow> path_set option" where
  "paths_by_head sets = foldl (\<lambda>m ps. m(ps_head ps \<mapsto> ps)) Map.empty sets"

definition known_batch :: "(string \<Rightarrow> batch option) \<Rightarrow> string \<Rightarrow> batch" where
  "known_batch by_id i = (case by_id i of None \<Rightarrow> zero_batch | Some b \<Rightarrow> b)"

definition resolved_dep :: "(string \<Rightarrow> batch option) \<Rightarrow> string \<Rightarrow> assumption option" where
  "resolved_dep by_id i = resolved_assumption (b_state (known_batch by_id i))"

definition speculating_heads :: "batch list \<Rightarrow> (string \<Rightarrow> batch option) \<Rightarrow> batch list \<times> string list" where
  "speculating_heads batches by_id =
     (let heads = filter (\<lambda>b. b_state b = BatchStateSpeculating) batches in
      (heads, sort (remdups (filter (\<lambda>i. resolved_dep by_id i = None) (concat (map b_deps heads))))))"

definition default_probability :: "float_ops \<Rightarrow> flt" where
  "default_probability ops = fo_round ops (95/100)"

definition as_probability :: "float_ops \<Rightarrow> flt \<Rightarrow> flt" where
  "as_probability ops score =
     (if flt_le (Fin 0) score \<and> flt_le score (Fin 1) then score else default_probability ops)"

type_synonym 'w scorer = "batch \<Rightarrow> path_set \<Rightarrow> ('w, goerr, flt) act"

fun score_all ::
  "float_ops \<Rightarrow> ('w, goerr, unit) act \<Rightarrow> 'w scorer \<Rightarrow> (string \<Rightarrow> batch option) \<Rightarrow> (string \<Rightarrow> path_set option) \<Rightarrow>
   string list \<Rightarrow> (string \<Rightarrow> flt) \<Rightarrow> ('w, goerr, string \<Rightarrow> flt) act" where
  "score_all ops poll scorer by_id sets [] probs = ok probs"
| "score_all ops poll scorer by_id sets (i # is) probs =
     and_then poll (\<lambda>_.
     case by_id i of
       None \<Rightarrow> score_all ops poll scorer by_id sets is (probs(i := default_probability ops))
     | Some b \<Rightarrow>
         and_then (attempt (scorer b (case sets i of None \<Rightarrow> zero_set | Some ps \<Rightarrow> ps))) (\<lambda>r.
         case r of
           Inl e \<Rightarrow> and_then poll (\<lambda>_. score_all ops poll scorer by_id sets is
             (probs(i := as_probability ops (default_probability ops))))
         | Inr p \<Rightarrow> score_all ops poll scorer by_id sets is (probs(i := as_probability ops p))))"

section \<open>The paths of one head\<close>

record dependency_variable =
  dv_index :: nat
  dv_flip_cost :: flt

record flip_entry =
  fe_flipped :: "nat list"
  fe_score :: flt

record path_stream =
  st_head :: string
  st_base :: "path_dependency list"
  st_variables :: "dependency_variable list"
  st_best_score :: flt
  st_prepared :: bool
  st_subsets :: "flip_entry list"

definition preferred_probability :: "float_ops \<Rightarrow> flt \<Rightarrow> flt" where
  "preferred_probability ops p = flt_max p (flt_sub ops (Fin 1) p)"

definition opposite_probability :: "float_ops \<Rightarrow> flt \<Rightarrow> flt" where
  "opposite_probability ops p = flt_min p (flt_sub ops (Fin 1) p)"

definition preferred_side :: "flt \<Rightarrow> assumption" where
  "preferred_side p = (if flt_le (Fin (1/2)) p then Succeeds else Fails)"

definition flip_penalty :: "float_ops \<Rightarrow> flt \<Rightarrow> flt" where
  "flip_penalty ops p =
     flt_sub ops (flt_log ops (opposite_probability ops p)) (flt_log ops (preferred_probability ops p))"

text \<open>One turn of the loop of \<open>newPathStream\<close> over the head's dependencies.\<close>

definition add_dependency ::
  "float_ops \<Rightarrow> (string \<Rightarrow> batch option) \<Rightarrow> (string \<Rightarrow> flt) \<Rightarrow> path_stream \<Rightarrow> nat \<times> string \<Rightarrow> path_stream" where
  "add_dependency ops by_id probs st idep = (case idep of (i, d) \<Rightarrow>
     (case resolved_dep by_id d of
        Some a \<Rightarrow> st\<lparr>st_base := st_base st @ [\<lparr>pd_batch = d, pd_assumption = a\<rparr>]\<rparr>
      | None \<Rightarrow> st\<lparr>st_base := st_base st @ [\<lparr>pd_batch = d, pd_assumption = preferred_side (probs d)\<rparr>],
            st_best_score := flt_add ops (st_best_score st) (flt_log ops (preferred_probability ops (probs d))),
            st_variables := st_variables st @ [\<lparr>dv_index = i, dv_flip_cost = flip_penalty ops (probs d)\<rparr>]\<rparr>))"

definition new_path_stream ::
  "float_ops \<Rightarrow> batch \<Rightarrow> (string \<Rightarrow> batch option) \<Rightarrow> (string \<Rightarrow> flt) \<Rightarrow> path_stream" where
  "new_path_stream ops head by_id probs =
     foldl (add_dependency ops by_id probs)
       \<lparr>st_head = b_id head, st_base = [], st_variables = [], st_best_score = Fin 0, st_prepared = False, st_subsets = []\<rparr>
       (enumerate 0 (b_deps head))"

text \<open>The comparison of \<open>slices.SortFunc\<close>; an insertion sort stands for the sort.\<close>

definition cheaper :: "dependency_variable \<Rightarrow> dependency_variable \<Rightarrow> bool" where
  "cheaper l r = (if \<not> flt_eq (dv_flip_cost l) (dv_flip_cost r) then flt_lt (dv_flip_cost r) (dv_flip_cost l)
     else dv_index l < dv_index r)"

fun insert_variable :: "dependency_variable \<Rightarrow> dependency_variable list \<Rightarrow> dependency_variable list" where
  "insert_variable v [] = [v]"
| "insert_variable v (u # us) = (if cheaper u v then u # insert_variable v us else v # u # us)"

definition sort_variables :: "dependency_variable list \<Rightarrow> dependency_variable list" where
  "sort_variables vs = foldr insert_variable vs []"

definition score_for :: "float_ops \<Rightarrow> path_stream \<Rightarrow> nat list \<Rightarrow> flt" where
  "score_for ops st flipped =
     foldl (\<lambda>s i. flt_add ops s (dv_flip_cost (st_variables st ! i))) (st_best_score st) flipped"

definition stream_push :: "float_ops \<Rightarrow> path_stream \<Rightarrow> nat list \<Rightarrow> path_stream" where
  "stream_push ops st flipped =
     st\<lparr>st_subsets := \<lparr>fe_flipped = flipped, fe_score = score_for ops st flipped\<rparr> # st_subsets st\<rparr>"

definition prepare :: "float_ops \<Rightarrow> path_stream \<Rightarrow> path_stream" where
  "prepare ops st =
     (if st_prepared st then st
      else let st1 = st\<lparr>st_variables := sort_variables (st_variables st), st_prepared := True\<rparr> in
        if st_variables st1 \<noteq> [] then stream_push ops st1 [0] else st1)"

definition flip_less :: "flip_entry \<Rightarrow> flip_entry \<Rightarrow> bool" where
  "flip_less l r =
     (if \<not> flt_eq (fe_score l) (fe_score r) then flt_lt (fe_score r) (fe_score l)
      else if length (fe_flipped l) \<noteq> length (fe_flipped r) then length (fe_flipped l) < length (fe_flipped r)
      else fe_flipped l < fe_flipped r)"

text \<open>\<open>replaceLastCopy\<close>; it would panic on an empty subset, which is never pushed.\<close>

definition replace_last :: "nat list \<Rightarrow> nat \<Rightarrow> nat list" where
  "replace_last xs x = butlast xs @ [x]"

definition stream_next :: "float_ops \<Rightarrow> path_stream \<Rightarrow> (flip_entry option) \<times> path_stream" where
  "stream_next ops st0 =
     (let st = prepare ops st0 in
      case heap_pop flip_less (st_subsets st) of
        None \<Rightarrow> (None, st)
      | Some (e, rest) \<Rightarrow>
          let st1 = st\<lparr>st_subsets := rest\<rparr>; j = last (fe_flipped e) in
          (Some e,
           if j + 1 < length (st_variables st1)
           then stream_push ops (stream_push ops st1 (fe_flipped e @ [j + 1])) (replace_last (fe_flipped e) (j + 1))
           else st1))"

fun opposite :: "assumption \<Rightarrow> assumption" where
  "opposite Succeeds = Fails"
| "opposite _ = Succeeds"

definition flip_at :: "nat \<Rightarrow> path_dependency list \<Rightarrow> path_dependency list" where
  "flip_at i deps = deps[i := (deps ! i)\<lparr>pd_assumption := opposite (pd_assumption (deps ! i))\<rparr>]"

definition build_path :: "path_stream \<Rightarrow> nat list \<Rightarrow> path" where
  "build_path st flipped =
     \<lparr>p_head = st_head st, p_deps = foldl (\<lambda>deps i. flip_at (dv_index (st_variables st ! i)) deps) (st_base st) flipped\<rparr>"

section \<open>The iterator over all heads\<close>

record candidate_path =
  cp_path :: path
  cp_score :: flt

record candidate_item =
  it_stream :: path_stream
  it_flipped :: "nat list"
  it_score :: flt

definition candidate_less :: "candidate_item \<Rightarrow> candidate_item \<Rightarrow> bool" where
  "candidate_less l r =
     (if \<not> flt_eq (it_score l) (it_score r) then flt_lt (it_score r) (it_score l)
      else if length (it_flipped l) \<noteq> length (it_flipped r) then length (it_flipped l) < length (it_flipped r)
      else st_head (it_stream l) < st_head (it_stream r))"

type_synonym iter = "candidate_item list"

definition iter_pop :: "float_ops \<Rightarrow> iter \<Rightarrow> (candidate_path \<times> iter) option" where
  "iter_pop ops its =
     (case heap_pop candidate_less its of
        None \<Rightarrow> None
      | Some (it, rest) \<Rightarrow>
          (case stream_next ops (it_stream it) of
             (None, st) \<Rightarrow> Some (\<lparr>cp_path = build_path st (it_flipped it), cp_score = it_score it\<rparr>, rest)
           | (Some e, st) \<Rightarrow> Some (\<lparr>cp_path = build_path st (it_flipped it), cp_score = it_score it\<rparr>,
               \<lparr>it_stream = st, it_flipped = fe_flipped e, it_score = fe_score e\<rparr> # rest)))"

definition iter_next ::
  "float_ops \<Rightarrow> ('w, goerr, unit) act \<Rightarrow> iter \<Rightarrow> ('w, goerr, (candidate_path \<times> iter) option) act" where
  "iter_next ops poll its = and_then poll (\<lambda>_. ok (iter_pop ops its))"

definition first_item :: "path_stream \<Rightarrow> candidate_item" where
  "first_item st = \<lparr>it_stream = st, it_flipped = [], it_score = st_best_score st\<rparr>"

definition generate ::
  "float_ops \<Rightarrow> ('w, goerr, unit) act \<Rightarrow> 'w scorer \<Rightarrow> batch list \<Rightarrow> path_set list \<Rightarrow> ('w, goerr, iter) act" where
  "generate ops poll scorer batches sets =
     and_then poll (\<lambda>_.
     let by_id = batch_by_id batches in
     case speculating_heads batches by_id of (heads, unresolved) \<Rightarrow>
     and_then (score_all ops poll scorer by_id (paths_by_head sets) unresolved (\<lambda>_. Fin 0)) (\<lambda>probs.
     ok (map (\<lambda>head. first_item (new_path_stream ops head by_id probs)) heads)))"

section \<open>Draining the iterator\<close>

text \<open>What is left of a subset whose last flip is \<open>j\<close> among \<open>n\<close> variables, itself included.\<close>

definition flip_weight :: "nat \<Rightarrow> nat \<Rightarrow> nat" where
  "flip_weight n j = max 1 (2 ^ (n - j) - 1)"

definition stream_weight :: "float_ops \<Rightarrow> path_stream \<Rightarrow> nat" where
  "stream_weight ops st = (let st' = prepare ops st in
     \<Sum>e\<leftarrow>st_subsets st'. flip_weight (length (st_variables st')) (last (fe_flipped e)))"

definition iter_weight :: "float_ops \<Rightarrow> iter \<Rightarrow> nat" where
  "iter_weight ops its = (\<Sum>it\<leftarrow>its. Suc (stream_weight ops (it_stream it)))"

lemma flip_weight_succ:
  assumes "j + 1 < n"
  shows "flip_weight n j = Suc (2 * flip_weight n (Suc j))"
proof -
  obtain k where k: "n - j = Suc k" "n - Suc j = k" "0 < k"
    using assms by (metis Suc_diff_Suc Suc_eq_plus1 Suc_lessD zero_less_diff)
  have two: "2 \<le> (2 :: nat) ^ k" using \<open>0 < k\<close> by (cases k) auto
  define m where "m = (2 :: nat) ^ k - 1"
  have "(2 :: nat) ^ k = Suc m" and "1 \<le> m" using two by (simp_all add: m_def)
  then show ?thesis using k by (simp add: flip_weight_def)
qed

lemma flip_weight_pos: "0 < flip_weight n j"
  by (simp add: flip_weight_def)

lemma sum_list_remove1:
  fixes f :: "'a \<Rightarrow> nat"
  assumes "x \<in> set xs"
  shows "sum_list (map f xs) = f x + sum_list (map f (remove1 x xs))"
  using assms by (induction xs) auto

lemma push_simps [simp]:
  "st_variables (stream_push ops st f) = st_variables st"
  "st_prepared (stream_push ops st f) = st_prepared st"
  "st_head (stream_push ops st f) = st_head st" "st_base (stream_push ops st f) = st_base st"
  "st_best_score (stream_push ops st f) = st_best_score st"
  "st_subsets (stream_push ops st f) = \<lparr>fe_flipped = f, fe_score = score_for ops st f\<rparr> # st_subsets st"
  by (simp_all add: stream_push_def)

lemma prepared_prepare [simp]: "st_prepared (prepare ops st)"
  by (simp add: prepare_def Let_def)

lemma prepare_prepared [simp]: "st_prepared st \<Longrightarrow> prepare ops st = st"
  by (simp add: prepare_def)

lemma last_replace_last [simp]: "last (replace_last f x) = x"
  by (simp add: replace_last_def)

lemma stream_next_weight:
  assumes "stream_next ops st = (Some e, st')"
  shows "stream_weight ops st' < stream_weight ops st"
proof -
  let ?st = "prepare ops st" let ?n = "length (st_variables ?st)"
  let ?w = "\<lambda>e. flip_weight ?n (last (fe_flipped e))"
  obtain rest where pop: "heap_pop flip_less (st_subsets ?st) = Some (e, rest)"
    using assms by (auto simp: stream_next_def Let_def split: option.splits prod.splits)
  have sum: "(\<Sum>e\<leftarrow>st_subsets ?st. ?w e) = ?w e + (\<Sum>e\<leftarrow>rest. ?w e)"
    using heap_pop_Some [OF pop] sum_list_remove1 [of e "st_subsets ?st" ?w] by simp
  have prep: "st_prepared st'"
    using assms pop by (auto simp: stream_next_def Let_def split: if_splits)
  show ?thesis
  proof (cases "last (fe_flipped e) + 1 < ?n")
    case True
    then show ?thesis
      using assms pop sum prep flip_weight_succ [OF True]
      by (auto simp: stream_next_def Let_def stream_weight_def)
  next
    case False
    then show ?thesis
      using assms pop sum prep flip_weight_pos [of ?n "last (fe_flipped e)"]
      by (auto simp: stream_next_def Let_def stream_weight_def)
  qed
qed

lemma iter_pop_weight:
  assumes "iter_pop ops its = Some (c, its')"
  shows "iter_weight ops its' < iter_weight ops its"
proof -
  obtain it rest where pop: "heap_pop candidate_less its = Some (it, rest)"
    using assms by (auto simp: iter_pop_def split: option.splits prod.splits)
  let ?w = "\<lambda>it. Suc (stream_weight ops (it_stream it))"
  have sum: "(\<Sum>it\<leftarrow>its. ?w it) = ?w it + (\<Sum>it\<leftarrow>rest. ?w it)"
    using heap_pop_Some [OF pop] sum_list_remove1 [of it its ?w] by simp
  obtain r st where nx: "stream_next ops (it_stream it) = (r, st)" by fastforce
  show ?thesis
    using assms pop nx sum stream_next_weight [of ops "it_stream it"]
    by (cases r) (auto simp: iter_pop_def iter_weight_def)
qed

text \<open>The candidates an iterator has left, in the order \<open>Next\<close> returns them.\<close>

function drain :: "float_ops \<Rightarrow> iter \<Rightarrow> candidate_path list" where
  "drain ops its = (case iter_pop ops its of None \<Rightarrow> [] | Some (c, its') \<Rightarrow> c # drain ops its')"
  by pat_completeness auto

termination drain
  by (relation "measure (\<lambda>(ops, its). iter_weight ops its)") (auto simp: iter_pop_weight)

declare drain.simps [simp del]

end
