(* ===== verification/BestFacts.thy ===== *)
theory BestFacts
  imports BestFirst
begin

text \<open>
  The facts about the best-first generator: the extend/swap tree reaches every subset of flips
  once, no successor outscores its parent, and so the iterator yields every coherent path of
  every speculating head exactly once, best first.
\<close>

section \<open>Subsets of flips\<close>

text \<open>The non-empty subsets of \<open>{j..<n}\<close>, as ascending lists.\<close>

function subs :: "nat \<Rightarrow> nat \<Rightarrow> nat list list" where
  "subs j n = (if j < n then [j] # map ((#) j) (subs (Suc j) n) @ subs (Suc j) n else [])"
  by pat_completeness auto

termination subs
  by (relation "measure (\<lambda>(j, n). n - j)") auto

declare subs.simps [simp del]

lemma subs_step: "j < n \<Longrightarrow> subs j n = [j] # map ((#) j) (subs (Suc j) n) @ subs (Suc j) n"
  by (simp add: subs.simps)

lemma subs_empty [simp]: "n \<le> j \<Longrightarrow> subs j n = []"
  by (simp add: subs.simps)

lemma subs_mem: "f \<in> set (subs j n) \<longleftrightarrow> f \<noteq> [] \<and> sorted_wrt (<) f \<and> set f \<subseteq> {j..<n}"
proof (induction j n arbitrary: f rule: subs.induct)
  case (1 j n)
  show ?case
  proof (cases "j < n")
    case False
    then show ?thesis by (cases f) auto
  next
    case True
    show ?thesis
    proof (cases f)
      case Nil
      then show ?thesis using True 1 [OF True] by (auto simp: subs_step)
    next
      case (Cons a g)
      have mem: "f \<in> set (subs j n) \<longleftrightarrow> (a = j \<and> (g = [] \<or> g \<in> set (subs (Suc j) n))) \<or> f \<in> set (subs (Suc j) n)"
        unfolding subs_step [OF True] Cons by auto
      have above: "sorted_wrt (<) f \<and> set f \<subseteq> {j..<n} \<longleftrightarrow>
          (a = j \<and> sorted_wrt (<) g \<and> set g \<subseteq> {Suc j..<n}) \<or> (sorted_wrt (<) f \<and> set f \<subseteq> {Suc j..<n})"
      proof (cases "a = j")
        case True
        then show ?thesis using \<open>j < n\<close> unfolding Cons by (auto simp: Suc_le_eq subset_iff)
      next
        case False
        have "j < x" if "sorted_wrt (<) f" and "set f \<subseteq> {j..<n}" and "x \<in> set f" for x
        proof -
          from that Cons have "j \<le> a" and "x = a \<or> a < x" by auto
          with False show ?thesis by linarith
        qed
        then show ?thesis
          using False by (auto simp: subset_iff Suc_le_eq less_imp_le simp del: sorted_wrt.simps)
      qed
      have "f \<noteq> []" and "g = [] \<Longrightarrow> sorted_wrt (<) g \<and> set g \<subseteq> {Suc j..<n}" by (simp_all add: Cons)
      with above show ?thesis unfolding mem 1 [OF True] by blast
    qed
  qed
qed

lemma distinct_subs: "distinct (subs j n)"
proof (induction j n rule: subs.induct)
  case (1 j n)
  then show ?case by (cases "j < n") (auto simp: subs_step distinct_map subs_mem)
qed

definition reach :: "nat \<Rightarrow> nat list \<Rightarrow> nat list multiset" where
  "reach n f = image_mset ((@) (butlast f)) (mset (subs (last f) n))"

lemma reach_step:
  assumes "f \<noteq> []" and "last f < n"
  shows "reach n f = add_mset f (if last f + 1 < n
      then reach n (f @ [last f + 1]) + reach n (replace_last f (last f + 1)) else {#})"
proof -
  have [simp]: "butlast f @ last f # g = f @ g" for g
    using assms(1) by (metis append.assoc append_Cons append_Nil append_butlast_last_id)
  then have step: "reach n f = add_mset f (image_mset ((@) f) (mset (subs (Suc (last f)) n)) +
      image_mset ((@) (butlast f)) (mset (subs (Suc (last f)) n)))"
    using assms by (simp add: reach_def subs_step multiset.map_comp comp_def [abs_def])
  show ?thesis
    by (simp add: step) (simp add: reach_def replace_last_def)
qed

section \<open>Scores of one stream\<close>

interpretation flips: priority flip_less "\<lambda>e. fe_score e \<noteq> NaN" fe_flipped
proof
  show "flip_less x y \<Longrightarrow> \<not> flip_less y x" for x y
    by (auto simp: flip_less_def flt_eq_def dest: flt_lt_asym split: if_splits)
  show "flip_less x y \<or> flip_less y z"
    if "fe_score x \<noteq> NaN" "fe_score y \<noteq> NaN" "fe_score z \<noteq> NaN" "flip_less x z" for x y z
    using that flt_lt_total [of "fe_score x" "fe_score y"] flt_lt_total [of "fe_score y" "fe_score z"]
      flt_lt_trans [of "fe_score x" "fe_score y" "fe_score z"]
      flt_lt_trans [of "fe_score y" "fe_score z" "fe_score x"]
    by (auto simp: flip_less_def flt_eq_def dest: flt_lt_asym split: if_splits)
  show "fe_flipped x = fe_flipped y"
    if "fe_score x \<noteq> NaN" "fe_score y \<noteq> NaN" "\<not> flip_less x y" "\<not> flip_less y x" for x y
    using that flt_lt_total [of "fe_score x" "fe_score y"]
    by (auto simp: flip_less_def flt_eq_def split: if_splits)
qed

interpretation heads: priority candidate_less "\<lambda>it. it_score it \<noteq> NaN" "\<lambda>it. st_head (it_stream it)"
proof
  show "candidate_less x y \<Longrightarrow> \<not> candidate_less y x" for x y
    by (auto simp: candidate_less_def flt_eq_def dest: flt_lt_asym split: if_splits)
  show "candidate_less x y \<or> candidate_less y z"
    if "it_score x \<noteq> NaN" "it_score y \<noteq> NaN" "it_score z \<noteq> NaN" "candidate_less x z" for x y z
    using that flt_lt_total [of "it_score x" "it_score y"] flt_lt_total [of "it_score y" "it_score z"]
      flt_lt_trans [of "it_score x" "it_score y" "it_score z"]
      flt_lt_trans [of "it_score y" "it_score z" "it_score x"]
    by (auto simp: candidate_less_def flt_eq_def dest: flt_lt_asym split: if_splits)
  show "st_head (it_stream x) = st_head (it_stream y)"
    if "it_score x \<noteq> NaN" "it_score y \<noteq> NaN" "\<not> candidate_less x y" "\<not> candidate_less y x" for x y
    using that flt_lt_total [of "it_score x" "it_score y"]
    by (auto simp: candidate_less_def flt_eq_def split: if_splits)
qed

definition flips_ok :: "path_stream \<Rightarrow> nat list \<Rightarrow> bool" where
  "flips_ok st f \<longleftrightarrow> (\<forall>i\<in>set f. i < length (st_variables st))"

definition costs_ok :: "float_ops \<Rightarrow> path_stream \<Rightarrow> bool" where
  "costs_ok ops st \<longleftrightarrow> is_score ops (st_best_score st) \<and> (\<forall>v\<in>set (st_variables st). is_score ops (dv_flip_cost v))"

definition stream_valid :: "float_ops \<Rightarrow> path_stream \<Rightarrow> bool" where
  "stream_valid ops st \<longleftrightarrow> costs_ok ops st \<and>
     (if st_prepared st
      then sorted_wrt (\<lambda>u v. flt_le (dv_flip_cost v) (dv_flip_cost u)) (st_variables st) \<and>
        (\<forall>e\<in>set (st_subsets st). fe_flipped e \<noteq> [] \<and> flips_ok st (fe_flipped e) \<and> fe_score e = score_for ops st (fe_flipped e))
      else st_subsets st = [])"

lemma insert_variable_set [simp]: "mset (insert_variable v vs) = add_mset v (mset vs)"
  by (induction vs) auto

lemma sort_variables_mset [simp]: "mset (sort_variables vs) = mset vs"
  by (induction vs) (auto simp: sort_variables_def)

lemma sort_variables_set [simp]: "set (sort_variables vs) = set vs"
  by (metis set_mset_mset sort_variables_mset)

lemma sort_variables_Nil [simp]: "sort_variables vs = [] \<longleftrightarrow> vs = []"
  by (metis mset_zero_iff_right sort_variables_mset)

lemma sort_variables_length [simp]: "length (sort_variables vs) = length vs"
  by (metis size_mset sort_variables_mset)

lemma insert_variable_sorted:
  assumes "\<forall>u\<in>set (v # vs). dv_flip_cost u \<noteq> NaN"
    and "sorted_wrt (\<lambda>u v. flt_le (dv_flip_cost v) (dv_flip_cost u)) vs"
  shows "sorted_wrt (\<lambda>u v. flt_le (dv_flip_cost v) (dv_flip_cost u)) (insert_variable v vs)"
  using assms
proof (induction vs)
  case (Cons u us)
  have "set (insert_variable v us) = insert v (set us)"
    by (metis insert_variable_set set_mset_add_mset_insert set_mset_mset)
  moreover have "cheaper u v \<Longrightarrow> flt_le (dv_flip_cost v) (dv_flip_cost u)"
    using Cons.prems(1) by (auto simp: cheaper_def flt_le_def flt_eq_def split: if_splits)
  moreover have "\<not> cheaper u v \<Longrightarrow> flt_le (dv_flip_cost u) (dv_flip_cost v)"
    using Cons.prems(1) flt_lt_total [of "dv_flip_cost u" "dv_flip_cost v"]
    by (auto simp: cheaper_def flt_le_def flt_eq_def split: if_splits)
  ultimately show ?case using Cons by (auto intro: flt_le_trans)
qed simp

lemma sort_variables_sorted:
  "\<forall>u\<in>set vs. dv_flip_cost u \<noteq> NaN \<Longrightarrow>
   sorted_wrt (\<lambda>u v. flt_le (dv_flip_cost v) (dv_flip_cost u)) (sort_variables vs)"
proof (induction vs)
  case (Cons v vs)
  then have "\<forall>u\<in>set (v # sort_variables vs). dv_flip_cost u \<noteq> NaN" by simp
  from insert_variable_sorted [OF this] Cons show ?case by (simp add: sort_variables_def)
qed (simp add: sort_variables_def)

lemma score_for_push [simp]: "score_for ops (stream_push ops st g) f = score_for ops st f"
  by (simp add: score_for_def)

lemma score_for_subsets [simp]: "score_for ops (st\<lparr>st_subsets := xs\<rparr>) f = score_for ops st f"
  by (simp add: score_for_def)

lemma score_for_score:
  "float_laws ops \<Longrightarrow> costs_ok ops st \<Longrightarrow> flips_ok st f \<Longrightarrow> is_score ops (score_for ops st f)"
  by (induction f rule: rev_induct)
    (auto simp: score_for_def costs_ok_def flips_ok_def intro!: flt_add_score)

lemma score_for_extend:
  assumes "float_laws ops" and "costs_ok ops st" and "flips_ok st (f @ [i])"
  shows "flt_le (score_for ops st (f @ [i])) (score_for ops st f)"
  using assms score_for_score [of ops st f]
  by (auto simp: score_for_def costs_ok_def flips_ok_def intro!: flt_add_le)

lemma score_for_swap:
  assumes "float_laws ops" and "costs_ok ops st" and "flips_ok st (f @ [i])" and "flips_ok st (f @ [j])"
    and "flt_le (dv_flip_cost (st_variables st ! j)) (dv_flip_cost (st_variables st ! i))"
  shows "flt_le (score_for ops st (f @ [j])) (score_for ops st (f @ [i]))"
  using assms score_for_score [of ops st f]
  by (auto simp: score_for_def costs_ok_def flips_ok_def intro!: flt_add_mono)


lemma prepare_valid:
  assumes "stream_valid ops st"
  shows "stream_valid ops (prepare ops st)"
proof (cases "st_prepared st")
  case True
  with assms show ?thesis by simp
next
  case False
  have "\<forall>u\<in>set (st_variables st). dv_flip_cost u \<noteq> NaN"
    using assms by (auto simp: stream_valid_def costs_ok_def dest: is_score_not_NaN)
  with False assms sort_variables_sorted show ?thesis
    by (auto simp: stream_valid_def costs_ok_def prepare_def Let_def flips_ok_def)
qed

text \<open>What a stream has yet to hand out.\<close>

definition pending :: "float_ops \<Rightarrow> path_stream \<Rightarrow> nat list multiset" where
  "pending ops st = (let st' = prepare ops st in
     \<Sum>e\<in>#mset (st_subsets st'). reach (length (st_variables st')) (fe_flipped e))"

lemma stream_next_None:
  "stream_next ops st = (None, st') \<Longrightarrow> st' = prepare ops st \<and> st_subsets st' = [] \<and> pending ops st = {#}"
  by (auto simp: stream_next_def Let_def pending_def split: option.splits prod.splits)

lemma stream_next_Some:
  assumes laws: "float_laws ops" and valid: "stream_valid ops st" and nx: "stream_next ops st = (Some e, st')"
  shows "e \<in> set (st_subsets (prepare ops st))"
    and "stream_valid ops st'" and "st_prepared st'"
    and "st_head st' = st_head st" and "st_base st' = st_base st"
    and "st_variables st' = st_variables (prepare ops st)"
    and "pending ops st = add_mset (fe_flipped e) (pending ops st')"
    and "\<forall>e'\<in>set (st_subsets st'). flt_le (fe_score e') (fe_score e)"
    and "is_score ops (fe_score e)"
proof -
  let ?st = "prepare ops st" let ?n = "length (st_variables ?st)"
  have v: "stream_valid ops ?st" using valid by (rule prepare_valid)
  obtain rest where pop: "heap_pop flip_less (st_subsets ?st) = Some (e, rest)"
    using nx by (auto simp: stream_next_def Let_def split: option.splits prod.splits)
  let ?st1 = "?st\<lparr>st_subsets := rest\<rparr>" let ?j = "last (fe_flipped e)"
  have st': "st' = (if ?j + 1 < ?n
      then stream_push ops (stream_push ops ?st1 (fe_flipped e @ [?j + 1])) (replace_last (fe_flipped e) (?j + 1))
      else ?st1)"
    using nx pop by (auto simp: stream_next_def Let_def)
  show mem: "e \<in> set (st_subsets ?st)" using pop by (rule heap_pop_Some)
  have rest: "set rest \<subseteq> set (st_subsets ?st)"
    using heap_pop_Some(2) [OF pop] set_remove1_subset by simp
  have e: "fe_flipped e \<noteq> []" "flips_ok ?st (fe_flipped e)" "fe_score e = score_for ops ?st (fe_flipped e)"
    and costs: "costs_ok ops ?st"
    and sorted: "sorted_wrt (\<lambda>u v. flt_le (dv_flip_cost v) (dv_flip_cost u)) (st_variables ?st)"
    using v mem by (auto simp: stream_valid_def)
  obtain g where g: "fe_flipped e = g @ [?j]" using e(1) by (metis append_butlast_last_id)
  have ok: "flips_ok ?st (g @ [?j])" "?j < ?n"
    using e(1,2) g last_in_set [OF e(1)] by (auto simp: flips_ok_def)
  show prep: "st_prepared st'" and "st_head st' = st_head st" and "st_base st' = st_base st"
    and vars: "st_variables st' = st_variables ?st"
    by (auto simp: st' prepare_def Let_def)
  show "stream_valid ops st'"
    unfolding stream_valid_def costs_ok_def
    using v rest ok e by (auto simp: st' stream_valid_def costs_ok_def flips_ok_def replace_last_def score_for_def subset_iff
        dest!: in_set_butlastD)
  show score: "is_score ops (fe_score e)"
    using score_for_score [OF laws costs e(2)] e(3) by simp
  have "reach ?n (fe_flipped e) = add_mset (fe_flipped e) (if ?j + 1 < ?n
      then reach ?n (fe_flipped e @ [?j + 1]) + reach ?n (replace_last (fe_flipped e) (?j + 1)) else {#})"
    using e(1) ok(2) by (rule reach_step)
  then show "pending ops st = add_mset (fe_flipped e) (pending ops st')"
    using heap_pop_mset [OF pop] prep vars by (simp add: pending_def st' Let_def)
  have "flt_le (fe_score e') (fe_score e)" if "e' \<in> set rest" for e'
  proof -
    have "\<forall>y\<in>set (st_subsets ?st). fe_score y \<noteq> NaN"
      using v laws by (auto simp: stream_valid_def dest!: score_for_score is_score_not_NaN)
    moreover from flips.pop_least [OF pop this, of e'] that rest have "\<not> flip_less e' e" by auto
    ultimately show ?thesis using that rest mem
      by (auto simp: flip_less_def flt_le_not_lt flt_eq_def subset_iff split: if_splits)
  qed
  moreover have "flt_le (score_for ops ?st (fe_flipped e @ [?j + 1])) (fe_score e)"
    and "flt_le (score_for ops ?st (replace_last (fe_flipped e) (?j + 1))) (fe_score e)"
    if next_var: "?j + 1 < ?n"
  proof -
    have ext: "flips_ok ?st (fe_flipped e @ [?j + 1])" and sw: "flips_ok ?st (g @ [?j + 1])"
      using ok next_var e(2) by (auto simp: flips_ok_def)
    show "flt_le (score_for ops ?st (fe_flipped e @ [?j + 1])) (fe_score e)"
      unfolding e(3) using score_for_extend [OF laws costs ext] .
    have "flt_le (dv_flip_cost (st_variables ?st ! (?j + 1))) (dv_flip_cost (st_variables ?st ! ?j))"
      using sorted next_var by (simp add: sorted_wrt_iff_nth_less)
    from score_for_swap [OF laws costs ok(1) sw this]
    show "flt_le (score_for ops ?st (replace_last (fe_flipped e) (?j + 1))) (fe_score e)"
      unfolding e(3) replace_last_def using g by (metis butlast_snoc)
  qed
  ultimately show "\<forall>e'\<in>set (st_subsets st'). flt_le (fe_score e') (fe_score e)"
    by (auto simp: st' score_for_def)
qed


section \<open>The iterator\<close>

definition item_valid :: "float_ops \<Rightarrow> candidate_item \<Rightarrow> bool" where
  "item_valid ops it \<longleftrightarrow> stream_valid ops (it_stream it) \<and> is_score ops (it_score it) \<and>
     (st_prepared (it_stream it) \<or> it_flipped it = []) \<and>
     (\<forall>e\<in>set (st_subsets (prepare ops (it_stream it))). flt_le (fe_score e) (it_score it))"

definition paths_left :: "float_ops \<Rightarrow> candidate_item \<Rightarrow> path multiset" where
  "paths_left ops it =
     image_mset (build_path (prepare ops (it_stream it))) (add_mset (it_flipped it) (pending ops (it_stream it)))"

lemma prepare_fields [simp]:
  "st_head (prepare ops st) = st_head st" "st_base (prepare ops st) = st_base st"
  "st_best_score (prepare ops st) = st_best_score st"
  by (simp_all add: prepare_def Let_def)

lemma build_path_cong:
  "st_head st = st_head st' \<Longrightarrow> st_base st = st_base st' \<Longrightarrow> st_variables st = st_variables st' \<Longrightarrow>
   build_path st = build_path st'"
  by (simp add: build_path_def fun_eq_iff)

lemma iter_pop_Some:
  assumes laws: "float_laws ops" and valid: "\<forall>it\<in>set its. item_valid ops it"
    and pop: "iter_pop ops its = Some (c, its')"
  shows "\<forall>it\<in>set its'. item_valid ops it"
    and "\<forall>it\<in>set its'. flt_le (it_score it) (cp_score c)"
    and "\<exists>it\<in>set its. cp_score c = it_score it"
    and "(\<Sum>it\<in>#mset its. paths_left ops it) = add_mset (cp_path c) (\<Sum>it\<in>#mset its'. paths_left ops it)"
proof -
  obtain it rest where heap: "heap_pop candidate_less its = Some (it, rest)"
    using pop by (auto simp: iter_pop_def split: option.splits prod.splits)
  have mem: "it \<in> set its" using heap by (rule heap_pop_Some)
  have rest: "set rest \<subseteq> set its" using heap_pop_Some(2) [OF heap] set_remove1_subset by simp
  have it: "item_valid ops it" using valid mem by blast
  obtain r st where nx: "stream_next ops (it_stream it) = (r, st)" by fastforce
  have c: "c = \<lparr>cp_path = build_path st (it_flipped it), cp_score = it_score it\<rparr>"
    and its': "its' = (case r of None \<Rightarrow> rest | Some e \<Rightarrow> \<lparr>it_stream = st, it_flipped = fe_flipped e, it_score = fe_score e\<rparr> # rest)"
    using pop heap nx by (auto simp: iter_pop_def split: option.splits)
  show "\<exists>it\<in>set its. cp_score c = it_score it" using mem c by auto
  have lower: "flt_le (it_score y) (it_score it)" if "y \<in> set rest" for y
  proof -
    have "\<forall>y\<in>set its. it_score y \<noteq> NaN"
      using valid by (auto simp: item_valid_def dest: is_score_not_NaN)
    moreover from heads.pop_least [OF heap this, of y] that rest have "\<not> candidate_less y it" by auto
    ultimately show ?thesis using that rest mem
      by (auto simp: candidate_less_def flt_le_not_lt flt_eq_def subset_iff split: if_splits)
  qed
  have sum: "(\<Sum>it\<in>#mset its. paths_left ops it) = paths_left ops it + (\<Sum>it\<in>#mset rest. paths_left ops it)"
    using heap_pop_mset [OF heap] by simp
  let ?P = "(\<forall>it\<in>set its'. item_valid ops it) \<and> (\<forall>it\<in>set its'. flt_le (it_score it) (cp_score c)) \<and>
    paths_left ops it + (\<Sum>it\<in>#mset rest. paths_left ops it) = add_mset (cp_path c) (\<Sum>it\<in>#mset its'. paths_left ops it)"
  have ?P
  proof (cases r)
    case None
    with stream_next_None [of ops "it_stream it" st] nx
    have "st = prepare ops (it_stream it)" and "pending ops (it_stream it) = {#}" by auto
    then show ?thesis using None lower valid rest by (auto simp: its' c paths_left_def)
  next
    case (Some e)
    have v: "stream_valid ops (it_stream it)" using it by (simp add: item_valid_def)
    note step = stream_next_Some [OF laws v nx [unfolded Some]]
    have build: "build_path st = build_path (prepare ops (it_stream it))"
      using step by (intro build_path_cong) simp_all
    have "flt_le (fe_score e) (it_score it)" using it step(1) by (auto simp: item_valid_def)
    then show ?thesis
      using Some step lower valid rest by (auto simp: its' c paths_left_def item_valid_def build)
  qed
  then show "\<forall>it\<in>set its'. item_valid ops it" and "\<forall>it\<in>set its'. flt_le (it_score it) (cp_score c)"
    and "(\<Sum>it\<in>#mset its. paths_left ops it) = add_mset (cp_path c) (\<Sum>it\<in>#mset its'. paths_left ops it)"
    using sum by auto
qed

lemma iter_pop_None: "iter_pop ops its = None \<longleftrightarrow> its = []"
  by (auto simp: iter_pop_def split: option.splits prod.splits)

lemma drain_paths:
  "float_laws ops \<Longrightarrow> \<forall>it\<in>set its. item_valid ops it \<Longrightarrow>
   mset (map cp_path (drain ops its)) = (\<Sum>it\<in>#mset its. paths_left ops it)"
proof (induction ops its rule: drain.induct)
  case (1 ops its)
  show ?case
  proof (cases "iter_pop ops its")
    case None
    then show ?thesis using iter_pop_None [of ops its] by (simp add: drain.simps)
  next
    case (Some r)
    then obtain c its' where pop: "iter_pop ops its = Some (c, its')" by (cases r) auto
    show ?thesis
      using 1 iter_pop_Some [OF 1(2,3) pop] pop by (subst drain.simps) simp
  qed
qed

lemma drain_scores:
  "float_laws ops \<Longrightarrow> \<forall>it\<in>set its. item_valid ops it \<Longrightarrow>
   sorted_wrt (\<lambda>a b. flt_le (cp_score b) (cp_score a)) (drain ops its) \<and>
   (\<forall>c\<in>set (drain ops its). \<exists>it\<in>set its. flt_le (cp_score c) (it_score it))"
proof (induction ops its rule: drain.induct)
  case (1 ops its)
  show ?case
  proof (cases "iter_pop ops its")
    case None
    then show ?thesis by (simp add: drain.simps)
  next
    case (Some r)
    then obtain c its' where pop: "iter_pop ops its = Some (c, its')" by (cases r) auto
    note step = iter_pop_Some [OF 1(2,3) pop]
    have ih: "sorted_wrt (\<lambda>a b. flt_le (cp_score b) (cp_score a)) (drain ops its')"
      "\<forall>d\<in>set (drain ops its'). \<exists>it\<in>set its'. flt_le (cp_score d) (it_score it)"
      using 1(1) [OF pop refl 1(2) step(1)] by auto
    obtain it where it: "it \<in> set its" "cp_score c = it_score it" using step(3) by blast
    have "flt_le (cp_score d) (cp_score c)" if "d \<in> set (drain ops its')" for d
      using ih(2) that step(2) by (meson flt_le_trans)
    moreover have "flt_le (cp_score c) (it_score it)"
      using 1(3) it by (auto simp: item_valid_def dest: is_score_not_NaN intro: flt_le_refl)
    ultimately show ?thesis
      using ih(1) it pop by (subst (1 2) drain.simps) (auto intro: flt_le_trans)
  qed
qed

end
