(* ===== verification/BestPaths.thy ===== *)
theory BestPaths
  imports BestFacts
begin

text \<open>
  From the streams to the paths of the queue: what \<open>newPathStream\<close> prepares, what the flips of a
  stream build, and the three properties of \<open>Generate\<close>: the candidates are exactly the coherent
  paths, each once, in descending score, \<open>2 ^ k\<close> of them for a head with \<open>k\<close> unresolved
  dependencies.
\<close>

section \<open>A new stream\<close>

text \<open>The paths a head can still take: one side per dependency, the settled ones fixed.\<close>

definition side_open :: "assumption option \<Rightarrow> assumption \<Rightarrow> bool" where
  "side_open known a \<longleftrightarrow> (case known of Some b \<Rightarrow> a = b | None \<Rightarrow> a \<noteq> AssumptionUnknown)"

definition coherent :: "(string \<Rightarrow> batch option) \<Rightarrow> batch \<Rightarrow> path \<Rightarrow> bool" where
  "coherent by_id head p \<longleftrightarrow> p_head p = b_id head \<and> map pd_batch (p_deps p) = b_deps head \<and>
     (\<forall>d\<in>set (p_deps p). side_open (resolved_dep by_id (pd_batch d)) (pd_assumption d))"

definition unresolved_positions :: "(string \<Rightarrow> batch option) \<Rightarrow> batch \<Rightarrow> nat list" where
  "unresolved_positions by_id head =
     filter (\<lambda>i. resolved_dep by_id (b_deps head ! i) = None) [0..<length (b_deps head)]"

definition base_of :: "(string \<Rightarrow> batch option) \<Rightarrow> (string \<Rightarrow> flt) \<Rightarrow> string \<Rightarrow> path_dependency" where
  "base_of by_id probs d = \<lparr>pd_batch = d, pd_assumption =
     (case resolved_dep by_id d of Some a \<Rightarrow> a | None \<Rightarrow> preferred_side (probs d))\<rparr>"

definition variable_of :: "float_ops \<Rightarrow> (string \<Rightarrow> flt) \<Rightarrow> string list \<Rightarrow> nat \<Rightarrow> dependency_variable" where
  "variable_of ops probs deps i = \<lparr>dv_index = i, dv_flip_cost = flip_penalty ops (probs (deps ! i))\<rparr>"

lemma fold_dependencies:
  fixes by_id probs ops
  defines "step \<equiv> add_dependency ops by_id probs"
  assumes start: "st_base st0 = []" "st_variables st0 = []"
  shows "st_base (foldl step st0 (enumerate 0 deps)) = map (base_of by_id probs) deps"
    and "st_variables (foldl step st0 (enumerate 0 deps)) =
      map (variable_of ops probs deps) (filter (\<lambda>i. resolved_dep by_id (deps ! i) = None) [0..<length deps])"
    and "st_head (foldl step st0 (enumerate 0 deps)) = st_head st0"
    and "st_prepared (foldl step st0 (enumerate 0 deps)) = st_prepared st0"
    and "st_subsets (foldl step st0 (enumerate 0 deps)) = st_subsets st0"
proof (induction deps rule: rev_induct)
  case Nil
  { case 1 show ?case using start by simp next case 2 show ?case using start by simp
  next case 3 show ?case by simp next case 4 show ?case by simp next case 5 show ?case by simp }
next
  case (snoc d deps)
  note defs = step_def add_dependency_def enumerate_append_eq base_of_def variable_of_def
  have old: "filter (\<lambda>i. resolved_dep by_id ((deps @ [d]) ! i) = None) [0..<length deps] =
      filter (\<lambda>i. resolved_dep by_id (deps ! i) = None) [0..<length deps]"
    by (rule filter_cong) (auto simp: nth_append)
  have old': "map (variable_of ops probs (deps @ [d])) (filter Q [0..<length deps]) =
      map (variable_of ops probs deps) (filter Q [0..<length deps])" for Q
    by (auto simp: variable_of_def nth_append)
  { case 1 show ?case using snoc(1) by (auto simp: defs split: option.splits)
  next case 2 show ?case using snoc(2) old old' by (auto simp: defs split: option.splits)
  next case 3 show ?case using snoc(3) by (auto simp: defs split: option.splits)
  next case 4 show ?case using snoc(4) by (auto simp: defs split: option.splits)
  next case 5 show ?case using snoc(5) by (auto simp: defs split: option.splits) }
qed


lemma penalty_score:
  assumes "float_laws ops" and "is_probability p"
  shows "is_score ops (flip_penalty ops p)" and "is_score ops (flt_log ops (preferred_probability ops p))"
  using likelier_side [OF assms]
  by (simp_all add: flip_penalty_def preferred_probability_def opposite_probability_def)

lemma best_score_score:
  assumes "float_laws ops" and "\<forall>d. is_probability (probs d)" and "is_score ops (st_best_score st0)"
  shows "is_score ops (st_best_score (foldl (add_dependency ops by_id probs) st0 ideps))"
  using assms
  by (induction ideps rule: rev_induct)
    (auto simp: add_dependency_def intro!: flt_add_score penalty_score split: option.splits prod.splits)

lemma zero_score: "float_laws ops \<Longrightarrow> is_score ops (Fin 0)"
  by (simp add: float_laws_def is_score_def)

lemma new_stream_fields:
  "st_head (new_path_stream ops head by_id probs) = b_id head"
  "st_base (new_path_stream ops head by_id probs) = map (base_of by_id probs) (b_deps head)"
  "st_variables (new_path_stream ops head by_id probs) =
     map (variable_of ops probs (b_deps head)) (unresolved_positions by_id head)"
  "\<not> st_prepared (new_path_stream ops head by_id probs)"
  "st_subsets (new_path_stream ops head by_id probs) = []"
  by (simp_all add: new_path_stream_def fold_dependencies unresolved_positions_def)

lemma new_stream_valid:
  assumes "float_laws ops" and "\<forall>d. is_probability (probs d)"
  shows "stream_valid ops (new_path_stream ops head by_id probs)"
    and "is_score ops (st_best_score (new_path_stream ops head by_id probs))"
proof -
  show best: "is_score ops (st_best_score (new_path_stream ops head by_id probs))"
    unfolding new_path_stream_def by (rule best_score_score) (use assms in \<open>simp_all add: zero_score\<close>)
  have "is_score ops (dv_flip_cost v)" if "v \<in> set (st_variables (new_path_stream ops head by_id probs))" for v
    using that assms penalty_score by (auto simp: new_stream_fields variable_of_def)
  with best show "stream_valid ops (new_path_stream ops head by_id probs)"
    by (simp add: stream_valid_def costs_ok_def new_stream_fields(4,5))
qed

lemma first_item_valid:
  assumes laws: "float_laws ops" and probs: "\<forall>d. is_probability (probs d)"
  shows "item_valid ops (first_item (new_path_stream ops head by_id probs))"
proof -
  let ?st = "new_path_stream ops head by_id probs"
  have "stream_valid ops (prepare ops ?st)"
    using new_stream_valid(1) [OF assms] by (rule prepare_valid)
  then have costs: "costs_ok ops (prepare ops ?st)" by (simp add: stream_valid_def)
  have "flt_le (fe_score e) (st_best_score ?st)" if e: "e \<in> set (st_subsets (prepare ops ?st))" for e
  proof -
    from e have "fe_score e = score_for ops (prepare ops ?st) [0]" and "flips_ok (prepare ops ?st) [0]"
      using new_stream_fields(4,5) [of ops head by_id probs]
      by (auto simp: prepare_def Let_def flips_ok_def score_for_def split: if_splits)
    then show ?thesis
      using score_for_extend [OF laws costs, of "[]" 0] by (simp add: score_for_def)
  qed
  then show ?thesis
    using new_stream_valid [OF assms] by (auto simp: item_valid_def first_item_def)
qed

lemma pending_new:
  "pending ops (new_path_stream ops head by_id probs) = mset (subs 0 (length (unresolved_positions by_id head)))"
proof -
  have "(@) [] = (\<lambda>f :: nat list. f)" by (simp add: fun_eq_iff)
  then have "reach n [0] = mset (subs 0 n)" for n by (simp add: reach_def)
  then show ?thesis
    using new_stream_fields [of ops head by_id probs]
    by (auto simp: pending_def prepare_def Let_def)
qed

section \<open>What flips build\<close>

lemma length_flip_at [simp]: "length (flip_at i deps) = length deps"
  by (simp add: flip_at_def)

lemma flip_at_nth:
  "k < length deps \<Longrightarrow> flip_at i deps ! k =
     (if k = i then (deps ! k)\<lparr>pd_assumption := opposite (pd_assumption (deps ! k))\<rparr> else deps ! k)"
  by (simp add: flip_at_def nth_list_update)

lemma flips_nth:
  assumes "distinct (map ix f)" and "k < length deps"
  shows "foldl (\<lambda>deps i. flip_at (ix i) deps) deps f ! k =
     (if k \<in> ix ` set f then (deps ! k)\<lparr>pd_assumption := opposite (pd_assumption (deps ! k))\<rparr> else deps ! k)"
  using assms
proof (induction f arbitrary: deps)
  case (Cons i f)
  then show ?case by (auto simp: flip_at_nth)
qed simp

lemma flips_length [simp]: "length (foldl (\<lambda>deps i. flip_at (ix i) deps) deps f) = length deps"
  by (induction f arbitrary: deps) auto

lemma opposite_neq: "a \<noteq> AssumptionUnknown \<Longrightarrow> opposite a \<noteq> a"
  by (cases a) auto

lemma two_sides: "a \<noteq> AssumptionUnknown \<Longrightarrow> b \<noteq> AssumptionUnknown \<Longrightarrow> a \<noteq> b \<Longrightarrow> a = opposite b"
  by (cases a; cases b) auto

lemma preferred_side_known [simp]: "preferred_side p \<noteq> AssumptionUnknown"
  by (simp add: preferred_side_def)

text \<open>
  The path a head's prepared stream builds, \<open>ix\<close> naming the dependency each sorted variable
  stands for; and the ascending subsets of \<open>n\<close> variables.
\<close>

definition flip_build ::
  "(string \<Rightarrow> batch option) \<Rightarrow> (string \<Rightarrow> flt) \<Rightarrow> batch \<Rightarrow> (nat \<Rightarrow> nat) \<Rightarrow> nat list \<Rightarrow> path" where
  "flip_build by_id probs head ix f = \<lparr>p_head = b_id head,
     p_deps = foldl (\<lambda>deps i. flip_at (ix i) deps) (map (base_of by_id probs) (b_deps head)) f\<rparr>"

definition ascending :: "nat \<Rightarrow> nat list \<Rightarrow> bool" where
  "ascending n f \<longleftrightarrow> sorted_wrt (<) f \<and> set f \<subseteq> {..<n}"

abbreviation numbers_unresolved :: "(string \<Rightarrow> batch option) \<Rightarrow> batch \<Rightarrow> (nat \<Rightarrow> nat) \<Rightarrow> nat \<Rightarrow> bool" where
  "numbers_unresolved by_id head ix n \<equiv> bij_betw ix {..<n} (set (unresolved_positions by_id head))"

lemma ascending_subs: "set ([] # subs 0 n) = Collect (ascending n)"
  by (auto simp: subs_mem ascending_def atLeast0LessThan)

lemma ascending_unique: "ascending n f \<Longrightarrow> ascending n g \<Longrightarrow> set f = set g \<Longrightarrow> f = g"
  using sorted_distinct_set_unique [of f g] by (simp add: ascending_def strict_sorted_iff)

lemma ascending_image:
  "numbers_unresolved by_id head ix n \<Longrightarrow> ascending n f \<Longrightarrow> ix ` set f \<subseteq> set (unresolved_positions by_id head)"
  by (auto simp: bij_betw_def ascending_def)

lemma flip_build_fields [simp]:
  "p_head (flip_build by_id probs head ix f) = b_id head"
  "length (p_deps (flip_build by_id probs head ix f)) = length (b_deps head)"
  by (simp_all add: flip_build_def)

lemma flip_build_nth:
  assumes "numbers_unresolved by_id head ix n" and "ascending n f" and "k < length (b_deps head)"
  shows "p_deps (flip_build by_id probs head ix f) ! k = (let d = base_of by_id probs (b_deps head ! k) in
     if k \<in> ix ` set f then d\<lparr>pd_assumption := opposite (pd_assumption d)\<rparr> else d)"
proof -
  have "distinct (map ix f)"
    using assms(1,2) strict_sorted_iff [of f]
    by (auto simp: distinct_map ascending_def bij_betw_def intro: inj_on_subset)
  then show ?thesis using assms(3) by (simp add: flip_build_def flips_nth Let_def)
qed

lemma base_of_known:
  "k \<in> set (unresolved_positions by_id head) \<Longrightarrow> pd_assumption (base_of by_id probs (b_deps head ! k)) \<noteq> AssumptionUnknown"
  by (auto simp: unresolved_positions_def base_of_def)

lemma flip_build_differs:
  assumes "numbers_unresolved by_id head ix n" and "ascending n f" and "k \<in> set (unresolved_positions by_id head)"
  shows "k \<in> ix ` set f \<longleftrightarrow>
    pd_assumption (p_deps (flip_build by_id probs head ix f) ! k) \<noteq> pd_assumption (base_of by_id probs (b_deps head ! k))"
proof -
  have "k < length (b_deps head)" using assms(3) by (simp add: unresolved_positions_def)
  from flip_build_nth [OF assms(1,2) this] base_of_known [OF assms(3)]
  show ?thesis by (simp add: Let_def opposite_neq)
qed

lemma flip_build_inj:
  assumes ix: "numbers_unresolved by_id head ix n" and f: "ascending n f" and g: "ascending n g"
    and eq: "flip_build by_id probs head ix f = flip_build by_id probs head ix g"
  shows "f = g"
proof (rule ascending_unique [OF f g])
  have "ix ` set f = ix ` set g"
  proof (rule set_eqI)
    fix k
    show "k \<in> ix ` set f \<longleftrightarrow> k \<in> ix ` set g"
    proof (cases "k \<in> set (unresolved_positions by_id head)")
      case True
      from flip_build_differs [OF ix f True, of probs] flip_build_differs [OF ix g True, of probs] eq
      show ?thesis by simp
    next
      case False
      with ascending_image [OF ix f] ascending_image [OF ix g] show ?thesis by blast
    qed
  qed
  then show "set f = set g"
    using ix f g inj_on_image_eq_iff [of ix "{..<n}" "set f" "set g"] by (simp add: bij_betw_def ascending_def)
qed

lemma coherent_nth:
  "coherent by_id head p \<longleftrightarrow> p_head p = b_id head \<and> length (p_deps p) = length (b_deps head) \<and>
     (\<forall>k<length (b_deps head). pd_batch (p_deps p ! k) = b_deps head ! k \<and>
       side_open (resolved_dep by_id (b_deps head ! k)) (pd_assumption (p_deps p ! k)))"
  unfolding coherent_def list_eq_iff_nth_eq [of "map pd_batch (p_deps p)"] by (auto simp: all_set_conv_all_nth)

lemma flip_build_coherent:
  assumes ix: "numbers_unresolved by_id head ix n" and f: "ascending n f"
  shows "coherent by_id head (flip_build by_id probs head ix f)"
proof -
  have "k \<notin> ix ` set f" if "resolved_dep by_id (b_deps head ! k) \<noteq> None" for k
    using that ascending_image [OF ix f] by (auto simp: unresolved_positions_def)
  moreover have "opposite a \<noteq> AssumptionUnknown" for a by (cases a) auto
  ultimately show ?thesis
    using flip_build_nth [OF ix f] by (auto simp: coherent_nth Let_def base_of_def side_open_def split: option.splits)
qed

lemma flip_build_reaches:
  assumes ix: "numbers_unresolved by_id head ix n" and p: "coherent by_id head p"
  shows "\<exists>f. ascending n f \<and> flip_build by_id probs head ix f = p"
proof -
  let ?base = "\<lambda>k. base_of by_id probs (b_deps head ! k)"
  define f where "f = filter (\<lambda>i. pd_assumption (p_deps p ! ix i) \<noteq> pd_assumption (?base (ix i))) [0..<n]"
  have f: "ascending n f" by (auto simp: f_def ascending_def sorted_wrt_filter)
  have "p_deps (flip_build by_id probs head ix f) ! k = p_deps p ! k" if k: "k < length (b_deps head)" for k
  proof (cases "resolved_dep by_id (b_deps head ! k)")
    case (Some a)
    then have "k \<notin> ix ` set f" using ascending_image [OF ix f] by (auto simp: unresolved_positions_def)
    then show ?thesis
      using Some p k flip_build_nth [OF ix f k, of probs] by (auto simp: coherent_nth side_open_def base_of_def Let_def intro!: path_dependency.equality)
  next
    case None
    then have open_k: "k \<in> set (unresolved_positions by_id head)" using k by (simp add: unresolved_positions_def)
    then obtain i where i: "i < n" "k = ix i" using ix by (auto simp: bij_betw_def)
    have mem: "k \<in> ix ` set f \<longleftrightarrow> pd_assumption (p_deps p ! k) \<noteq> pd_assumption (?base k)"
      using i ix by (auto simp: f_def bij_betw_def dest: inj_onD)
    have "pd_assumption (p_deps p ! k) \<noteq> AssumptionUnknown" and "pd_batch (p_deps p ! k) = pd_batch (?base k)"
      using None p k by (auto simp: coherent_nth side_open_def base_of_def)
    then show ?thesis
      using mem flip_build_nth [OF ix f k, of probs] two_sides base_of_known [OF open_k, of probs]
      by (auto simp: Let_def)
  qed
  then have "p_deps (flip_build by_id probs head ix f) = p_deps p"
    using p by (auto simp: coherent_nth intro!: nth_equalityI)
  then show ?thesis using f p by (auto simp: coherent_def intro!: exI [of _ f])
qed

lemma builds_coherent:
  assumes "numbers_unresolved by_id head ix n"
  shows "set (map (flip_build by_id probs head ix) ([] # subs 0 n)) = Collect (coherent by_id head)"
    and "distinct (map (flip_build by_id probs head ix) ([] # subs 0 n))"
proof -
  show "set (map (flip_build by_id probs head ix) ([] # subs 0 n)) = Collect (coherent by_id head)"
    unfolding set_map ascending_subs
    using flip_build_coherent [OF assms] flip_build_reaches [OF assms] by (auto simp: image_def) metis
  have "inj_on (flip_build by_id probs head ix) (set ([] # subs 0 n))"
    unfolding ascending_subs using flip_build_inj [OF assms] by (auto simp: inj_on_def)
  moreover have "distinct ([] # subs 0 n)" by (simp add: distinct_subs subs_mem)
  ultimately show "distinct (map (flip_build by_id probs head ix) ([] # subs 0 n))" by (simp only: distinct_map)
qed


section \<open>The stream of a head\<close>

lemma length_subs: "Suc (length (subs j n)) = 2 ^ (n - j)"
proof (induction j n rule: subs.induct)
  case (1 j n)
  show ?case
  proof (cases "j < n")
    case True
    then obtain m where "n - j = Suc m" and "n - Suc j = m" by (metis Suc_diff_Suc)
    with True 1 show ?thesis by (simp add: subs_step)
  qed simp
qed

lemma nth_bij: "distinct xs \<Longrightarrow> bij_betw (\<lambda>i. xs ! i) {..<length xs} (set xs)"
  by (auto simp: bij_betw_def inj_on_def nth_eq_iff_index_eq in_set_conv_nth)

lemma first_item_paths:
  fixes ops head by_id probs
  defines "st \<equiv> new_path_stream ops head by_id probs"
  obtains ix where "numbers_unresolved by_id head ix (length (unresolved_positions by_id head))"
    and "paths_left ops (first_item st) =
      mset (map (flip_build by_id probs head ix) ([] # subs 0 (length (unresolved_positions by_id head))))"
proof
  let ?vs = "st_variables (prepare ops st)"
  define ix where "ix = (\<lambda>i. map dv_index ?vs ! i)"
  have sorted: "mset ?vs = mset (map (variable_of ops probs (b_deps head)) (unresolved_positions by_id head))"
    using new_stream_fields [of ops head by_id probs] by (simp add: st_def prepare_def Let_def)
  have "mset (map dv_index ?vs) =
      image_mset dv_index (mset (map (variable_of ops probs (b_deps head)) (unresolved_positions by_id head)))"
    unfolding sorted [symmetric] by simp
  then have index: "mset (map dv_index ?vs) = mset (unresolved_positions by_id head)"
    by (simp add: multiset.map_comp comp_def variable_of_def)
  then have "distinct (map dv_index ?vs)" and "set (map dv_index ?vs) = set (unresolved_positions by_id head)"
    and len: "length ?vs = length (unresolved_positions by_id head)"
    by (metis distinct_filter distinct_upt mset_eq_imp_distinct_iff unresolved_positions_def,
        metis set_mset_mset, metis length_map size_mset)
  then show num: "numbers_unresolved by_id head ix (length (unresolved_positions by_id head))"
    using nth_bij [of "map dv_index ?vs"] by (simp add: ix_def)
  have "build_path (prepare ops st) f = flip_build by_id probs head ix f" if "ascending (length ?vs) f" for f
  proof -
    have "foldl (\<lambda>deps i. flip_at (dv_index (?vs ! i)) deps) base f = foldl (\<lambda>deps i. flip_at (ix i) deps) base f" for base
      by (rule foldl_cong) (use that in \<open>auto simp: ix_def ascending_def\<close>)
    then show ?thesis using new_stream_fields [of ops head by_id probs] by (simp add: build_path_def flip_build_def st_def)
  qed
  then have "map (build_path (prepare ops st)) ([] # subs 0 (length ?vs)) =
      map (flip_build by_id probs head ix) ([] # subs 0 (length ?vs))"
    using ascending_subs [of "length ?vs"] by (intro map_cong refl) auto
  then have "mset (map (build_path (prepare ops st)) ([] # subs 0 (length ?vs))) =
      mset (map (flip_build by_id probs head ix) ([] # subs 0 (length ?vs)))" by (rule arg_cong)
  then show "paths_left ops (first_item st) =
      mset (map (flip_build by_id probs head ix) ([] # subs 0 (length (unresolved_positions by_id head))))"
    unfolding len by (simp add: paths_left_def first_item_def st_def pending_new)
qed

lemma first_item_set:
  "set_mset (paths_left ops (first_item (new_path_stream ops head by_id probs))) = Collect (coherent by_id head)"
  "p \<in># paths_left ops (first_item (new_path_stream ops head by_id probs)) \<Longrightarrow>
   count (paths_left ops (first_item (new_path_stream ops head by_id probs))) p = 1"
  "size (paths_left ops (first_item (new_path_stream ops head by_id probs))) =
   2 ^ length (unresolved_positions by_id head)"
proof -
  obtain ix where ix: "numbers_unresolved by_id head ix (length (unresolved_positions by_id head))"
    and left: "paths_left ops (first_item (new_path_stream ops head by_id probs)) =
      mset (map (flip_build by_id probs head ix) ([] # subs 0 (length (unresolved_positions by_id head))))"
    by (rule first_item_paths)
  note all = builds_coherent [OF ix, of probs]
  show "set_mset (paths_left ops (first_item (new_path_stream ops head by_id probs))) = Collect (coherent by_id head)"
    unfolding left set_mset_mset by (rule all)
  show "p \<in># paths_left ops (first_item (new_path_stream ops head by_id probs)) \<Longrightarrow>
     count (paths_left ops (first_item (new_path_stream ops head by_id probs))) p = 1"
    unfolding left using all(2) by (simp only: distinct_count_atmost_1 set_mset_mset if_True)
  show "size (paths_left ops (first_item (new_path_stream ops head by_id probs))) = 2 ^ length (unresolved_positions by_id head)"
    unfolding left using length_subs [of 0 "length (unresolved_positions by_id head)"] by simp
qed

section \<open>Generate\<close>

lemma default_is_probability: "float_laws ops \<Longrightarrow> is_probability (default_probability ops)"
  using round_mono [of ops 0 "95/100"] round_mono [of ops "95/100" 1]
  by (auto simp: is_probability_def default_probability_def float_laws_def)

lemma as_probability_is_probability: "float_laws ops \<Longrightarrow> is_probability (as_probability ops s)"
  using default_is_probability [of ops] by (auto simp: as_probability_def is_probability_def)

lemma score_all_probabilities:
  "float_laws ops \<Longrightarrow> \<forall>d. is_probability (probs d) \<Longrightarrow>
   score_all ops poll scorer by_id sets is probs w = (Inr probs', w') \<Longrightarrow> is_probability (probs' d)"
proof (induction "is" arbitrary: probs w)
  case Nil
  then show ?case by (simp add: act_simps)
next
  case (Cons i "is")
  have step: "is_probability (probs' d)"
    if "is_probability x" and "score_all ops poll scorer by_id sets is (probs(i := x)) w1 = (Inr probs', w')" for x w1
    using Cons.IH [OF Cons.prems(1) _ that(2)] Cons.prems(2) that(1) by simp
  from Cons.prems(3) show ?case
    using Cons.prems(1)
    by (auto simp: act_simps split: prod.splits sum.splits option.splits
        intro: step [OF default_is_probability] step [OF as_probability_is_probability])
qed

lemma generate_items:
  assumes laws: "float_laws ops" and run: "generate ops poll scorer batches sets w = (Inr its, w')"
  obtains probs where "\<forall>d. is_probability (probs d)"
    and "its = map (\<lambda>head. first_item (new_path_stream ops head (batch_by_id batches) probs))
      (filter (\<lambda>b. b_state b = BatchStateSpeculating) batches)"
proof -
  from run obtain probs w1 w2 where
    s: "score_all ops poll scorer (batch_by_id batches) (paths_by_head sets)
        (snd (speculating_heads batches (batch_by_id batches))) (\<lambda>_. Fin 0) w1 = (Inr probs, w2)"
    and its: "its = map (\<lambda>head. first_item (new_path_stream ops head (batch_by_id batches) probs))
      (fst (speculating_heads batches (batch_by_id batches)))"
    by (auto simp: generate_def Let_def act_simps split: prod.splits sum.splits)
  have "is_probability (Fin 0)" by (simp add: is_probability_def)
  with score_all_probabilities [OF laws _ s] have "\<forall>d. is_probability (probs d)" by simp
  with its that show thesis by (simp add: speculating_heads_def Let_def)
qed

lemma generated_valid:
  assumes "float_laws ops" and "generate ops poll scorer batches sets w = (Inr its, w')"
  shows "\<forall>it\<in>set its. item_valid ops it"
  using generate_items [OF assms] first_item_valid [OF assms(1)] by (metis (no_types, lifting) ex_map_conv)

lemma sum_count_disjoint:
  assumes "distinct (map key hs)" and "\<And>h p. h \<in> set hs \<Longrightarrow> p \<in># M h \<Longrightarrow> tag p = key h \<and> count (M h) p = 1"
    and "p \<in># (\<Sum>h\<in>#mset hs. M h)"
  shows "count (\<Sum>h\<in>#mset hs. M h) p = 1"
  using assms
proof (induction hs)
  case (Cons h hs)
  show ?case
  proof (cases "p \<in># M h")
    case True
    then have "p \<notin># (\<Sum>h\<in>#mset hs. M h)"
      using Cons.prems(1,2) by (auto simp: image_iff) metis
    then have "count (\<Sum>h\<in>#mset hs. M h) p = 0" unfolding not_in_iff .
    then show ?thesis using True Cons.prems(2) by simp
  next
    case False
    then show ?thesis using Cons by (auto simp: not_in_iff)
  qed
qed simp


lemma drain_heads:
  assumes "float_laws ops" and "generate ops poll scorer batches sets w = (Inr its, w')"
  obtains probs where "mset (map cp_path (drain ops its)) =
    (\<Sum>head\<in>#mset (filter (\<lambda>b. b_state b = BatchStateSpeculating) batches).
      paths_left ops (first_item (new_path_stream ops head (batch_by_id batches) probs)))"
proof -
  obtain probs where "its = map (\<lambda>head. first_item (new_path_stream ops head (batch_by_id batches) probs))
      (filter (\<lambda>b. b_state b = BatchStateSpeculating) batches)"
    using generate_items [OF assms] by metis
  with that drain_paths [OF assms(1) generated_valid [OF assms]] show thesis
    by (simp add: multiset.map_comp comp_def)
qed

lemma drain_set:
  assumes "float_laws ops" and "generate ops poll scorer batches sets w = (Inr its, w')"
  shows "p \<in> set (map cp_path (drain ops its)) \<longleftrightarrow>
    (\<exists>head\<in>set batches. b_state head = BatchStateSpeculating \<and> coherent (batch_by_id batches) head p)"
proof -
  obtain probs where all: "mset (map cp_path (drain ops its)) =
      (\<Sum>head\<in>#mset (filter (\<lambda>b. b_state b = BatchStateSpeculating) batches).
        paths_left ops (first_item (new_path_stream ops head (batch_by_id batches) probs)))"
    by (rule drain_heads [OF assms])
  have "p \<in> set (map cp_path (drain ops its)) \<longleftrightarrow> p \<in># mset (map cp_path (drain ops its))" by simp
  then show ?thesis unfolding all by (auto simp: first_item_set(1))
qed

lemma drain_distinct:
  assumes "float_laws ops" and "generate ops poll scorer batches sets w = (Inr its, w')"
    and "distinct (map b_id (filter (\<lambda>b. b_state b = BatchStateSpeculating) batches))"
  shows "distinct (map cp_path (drain ops its))"
proof -
  obtain probs where all: "mset (map cp_path (drain ops its)) =
      (\<Sum>head\<in>#mset (filter (\<lambda>b. b_state b = BatchStateSpeculating) batches).
        paths_left ops (first_item (new_path_stream ops head (batch_by_id batches) probs)))"
    by (rule drain_heads [OF assms(1,2)])
  let ?M = "\<lambda>head. paths_left ops (first_item (new_path_stream ops head (batch_by_id batches) probs))"
  have tag: "p_head p = b_id head \<and> count (?M head) p = 1" if "p \<in># ?M head" for p head
    using that first_item_set(1,2) by (fastforce simp: coherent_def)
  have "count (mset (map cp_path (drain ops its))) p = 1" if "p \<in> set (map cp_path (drain ops its))" for p
  proof -
    from that have "p \<in># mset (map cp_path (drain ops its))" by simp
    from sum_count_disjoint [OF assms(3) tag this [unfolded all]] show ?thesis unfolding all .
  qed
  then show ?thesis unfolding distinct_count_atmost_1 by (auto simp: not_in_iff [symmetric])
qed

text \<open>
  C11. Once \<open>Generate\<close> has returned an iterator, pulling it to its end yields exactly the paths that
  give each dependency of a Speculating head one side and take every settled dependency as it
  ended - each of them once, none missing and none contradicting a fact - whatever the scorer
  answered or failed to answer.
\<close>

theorem generate_exhaustive:
  assumes "float_laws ops"
    and "generate ops poll scorer batches sets w = (Inr its, w')"
    and "distinct (map b_id (filter (\<lambda>b. b_state b = BatchStateSpeculating) batches))"
  shows "distinct (map cp_path (drain ops its)) \<and>
    (p \<in> set (map cp_path (drain ops its)) \<longleftrightarrow>
      (\<exists>head\<in>set batches. b_state head = BatchStateSpeculating \<and> coherent (batch_by_id batches) head p))"
  using drain_set [OF assms(1,2)] drain_distinct [OF assms] by simp

text \<open>
  C12. The iterator yields its candidates best first: no candidate ranks above one returned before
  it, in the scores the code computes in floating point.
\<close>

theorem generate_best_first:
  assumes "float_laws ops"
    and "generate ops poll scorer batches sets w = (Inr its, w')"
    and "i < j" and "j < length (drain ops its)"
  shows "flt_le (cp_score (drain ops its ! j)) (cp_score (drain ops its ! i))"
  using drain_scores [OF assms(1) generated_valid [OF assms(1,2)]] assms(3,4)
  by (auto simp: sorted_wrt_iff_nth_less)

lemma drain_length:
  assumes "float_laws ops" and "generate ops poll scorer batches sets w = (Inr its, w')"
  shows "length (drain ops its) = (\<Sum>head\<leftarrow>filter (\<lambda>b. b_state b = BatchStateSpeculating) batches.
    2 ^ length (unresolved_positions (batch_by_id batches) head))"
proof -
  let ?heads = "filter (\<lambda>b. b_state b = BatchStateSpeculating) batches"
  obtain probs where its: "its = map (\<lambda>head. first_item (new_path_stream ops head (batch_by_id batches) probs)) ?heads"
    using generate_items [OF assms] by metis
  have "length (drain ops its) = size (mset (map cp_path (drain ops its)))" by simp
  also have "\<dots> = size (\<Sum>it\<in>#mset its. paths_left ops it)"
    using drain_paths [OF assms(1) generated_valid [OF assms]] by simp
  also have "\<dots> = (\<Sum>it\<leftarrow>its. size (paths_left ops it))"
    by (induction its) auto
  finally show ?thesis by (simp add: its comp_def first_item_set(3))
qed

text \<open>
  The iterator ends after \<open>2 ^ k\<close> candidates for each Speculating head, \<open>k\<close> being the number of
  its dependencies that have not ended.
\<close>

theorem generate_count:
  assumes "float_laws ops"
    and "generate ops poll scorer batches sets w = (Inr its, w')"
  shows "length (drain ops its) = (\<Sum>head\<leftarrow>filter (\<lambda>b. b_state b = BatchStateSpeculating) batches.
    2 ^ length (unresolved_positions (batch_by_id batches) head))"
  by (rule drain_length [OF assms])

section \<open>Witnesses\<close>

definition sample_batches :: "batch list" where
  "sample_batches =
     [\<lparr>b_id = ''1'', b_queue = ''q'', b_contains = [], b_deps = [], b_state = BatchStateSucceeded, b_version = 1\<rparr>,
      \<lparr>b_id = ''2'', b_queue = ''q'', b_contains = [], b_deps = [], b_state = BatchStateSpeculating, b_version = 1\<rparr>,
      \<lparr>b_id = ''3'', b_queue = ''q'', b_contains = [], b_deps = [''1'', ''2''], b_state = BatchStateSpeculating, b_version = 1\<rparr>]"

definition sample_iter :: iter where
  "sample_iter = (case generate exact_ops (ok ()) (\<lambda>_ _. ok (Fin (3/4))) sample_batches [] () of
     (Inr its, _) \<Rightarrow> its | _ \<Rightarrow> [])"

lemma sample_run:
  "generate exact_ops (ok ()) (\<lambda>_ _. ok (Fin (3/4))) sample_batches [] () = (Inr sample_iter, ())"
  by (simp add: sample_iter_def generate_def act_simps score_all.simps speculating_heads_def sample_batches_def
      batch_by_id_def resolved_dep_def known_batch_def Let_def as_probability_def)

lemma generate_exhaustive_witness:
  "\<lparr>p_head = ''3'', p_deps = [\<lparr>pd_batch = ''1'', pd_assumption = Succeeds\<rparr>, \<lparr>pd_batch = ''2'', pd_assumption = Fails\<rparr>]\<rparr>
     \<in> set (map cp_path (drain exact_ops sample_iter))"
proof -
  let ?p = "\<lparr>p_head = ''3'', p_deps = [\<lparr>pd_batch = ''1'', pd_assumption = Succeeds\<rparr>,
    \<lparr>pd_batch = ''2'', pd_assumption = Fails\<rparr>]\<rparr>"
  have "distinct (map b_id (filter (\<lambda>b. b_state b = BatchStateSpeculating) sample_batches))"
    by (simp add: sample_batches_def)
  from generate_exhaustive [OF exact_ops_laws sample_run this, of ?p]
  show ?thesis
    by (simp add: sample_batches_def coherent_def batch_by_id_def resolved_dep_def known_batch_def side_open_def)
qed

lemma sample_heads:
  "(\<Sum>head\<leftarrow>filter (\<lambda>b. b_state b = BatchStateSpeculating) sample_batches.
     2 ^ length (unresolved_positions (batch_by_id sample_batches) head)) = (3 :: nat)"
  by (simp add: sample_batches_def unresolved_positions_def batch_by_id_def resolved_dep_def known_batch_def)

lemma generate_count_witness: "length (drain exact_ops sample_iter) = 3"
  using generate_count [OF exact_ops_laws sample_run] unfolding sample_heads .

lemma generate_best_first_witness:
  "flt_le (cp_score (drain exact_ops sample_iter ! 2)) (cp_score (drain exact_ops sample_iter ! 0))"
  by (rule generate_best_first [OF exact_ops_laws sample_run]) (simp_all add: drain_length [OF exact_ops_laws sample_run, unfolded sample_heads])

end
