(* ===== verification/Allocate.thy ===== *)
theory Allocate
  imports BestPaths
begin

text \<open>
  The sticky allocator (\<open>submitqueue/extension/speculation/allocator/sticky/sticky.go\<close>) and the
  standard speculator (\<open>speculator/standard/standard.go\<close>) that runs it over the best-first
  generator.  The loop of \<open>Allocate\<close> ends only when the iterator does, so it is a partial
  function, \<open>None\<close> standing for a run that never returns.
\<close>

section \<open>The slots already taken\<close>

text \<open>The two Go sets are lists without repetition.\<close>

fun scan_entries :: "path_entry list \<Rightarrow> string list \<times> string list \<Rightarrow> goerr + string list \<times> string list" where
  "scan_entries [] (funded, terminal) = Inr (funded, terminal)"
| "scan_entries (e # es) (funded, terminal) =
     (if e_status e = PathUnknown then Inl (Plain ''speculation path has no status'')
      else if path_status_is_terminal (e_status e) then scan_entries es (funded, List.insert (e_id e) terminal)
      else scan_entries es (List.insert (e_id e) funded, terminal))"

fun scan_sets :: "path_set list \<Rightarrow> string list \<times> string list \<Rightarrow> goerr + string list \<times> string list" where
  "scan_sets [] ft = Inr ft"
| "scan_sets (ps # sets) ft =
     (case scan_entries (ps_paths ps) ft of Inl e \<Rightarrow> Inl e | Inr ft' \<Rightarrow> scan_sets sets ft')"

section \<open>Spending the budget\<close>

type_synonym ('w, 'i) candidate_next = "'i \<Rightarrow> ('w, goerr, (candidate_path \<times> 'i) option) act"

partial_function (option) allocate_loop ::
  "('w, goerr, unit) act \<Rightarrow> ('w, 'i) candidate_next \<Rightarrow> (string \<Rightarrow> string) \<Rightarrow> string list \<Rightarrow> string list \<Rightarrow>
   int \<Rightarrow> string list \<Rightarrow> speculation list \<Rightarrow> 'i \<Rightarrow> 'w \<Rightarrow> ((goerr + speculation list) \<times> 'w) option" where
  "allocate_loop poll next sha funded terminal free proposed out it w =
     (if free \<le> 0 then Some (Inr out, w)
      else case poll w of
        (Inl e, w1) \<Rightarrow> Some (Inl e, w1)
      | (Inr _, w1) \<Rightarrow>
          (case next it w1 of
             (Inl e, w2) \<Rightarrow> Some (Inl e, w2)
           | (Inr None, w2) \<Rightarrow> Some (Inr out, w2)
           | (Inr (Some (c, it')), w2) \<Rightarrow>
               (if path_id sha (cp_path c) \<in> set terminal then
                  allocate_loop poll next sha funded terminal free proposed out it' w2
                else if path_id sha (cp_path c) \<in> set funded \<or> path_id sha (cp_path c) \<in> set proposed then
                  allocate_loop poll next sha funded terminal free proposed out it' w2
                else allocate_loop poll next sha funded terminal (free - 1)
                  (List.insert (path_id sha (cp_path c)) proposed)
                  (out @ [\<lparr>sp_path = cp_path c, sp_action = PathActionBuild\<rparr>]) it' w2)))"

definition allocate ::
  "('w, goerr, unit) act \<Rightarrow> ('w, 'i) candidate_next \<Rightarrow> (string \<Rightarrow> string) \<Rightarrow> int \<Rightarrow> path_set list \<Rightarrow> 'i \<Rightarrow> 'w \<Rightarrow>
   ((goerr + speculation list) \<times> 'w) option" where
  "allocate poll next sha budget sets it w =
     (case poll w of
        (Inl e, w1) \<Rightarrow> Some (Inl e, w1)
      | (Inr _, w1) \<Rightarrow>
          (case scan_sets sets ([], []) of
             Inl e \<Rightarrow> Some (Inl e, w1)
           | Inr (funded, terminal) \<Rightarrow>
               allocate_loop poll next sha funded terminal (budget - int (length funded)) [] [] it w1))"

definition standard_speculate ::
  "float_ops \<Rightarrow> ('w, goerr, unit) act \<Rightarrow> 'w scorer \<Rightarrow> (string \<Rightarrow> string) \<Rightarrow> int \<Rightarrow> batch list \<Rightarrow> path_set list \<Rightarrow> 'w \<Rightarrow>
   ((goerr + speculation list) \<times> 'w) option" where
  "standard_speculate ops poll scorer sha budget batches sets w =
     (case generate ops poll scorer batches sets w of
        (Inl e, w1) \<Rightarrow> Some (Inl e, w1)
      | (Inr its, w1) \<Rightarrow> allocate poll (iter_next ops poll) sha budget sets its w1)"

section \<open>The candidates worth a build\<close>

text \<open>The paths of a candidate sequence whose ID is neither barred nor a repetition.\<close>

fun fresh_paths :: "(string \<Rightarrow> string) \<Rightarrow> string set \<Rightarrow> candidate_path list \<Rightarrow> path list" where
  "fresh_paths sha barred [] = []"
| "fresh_paths sha barred (c # cs) =
     (if path_id sha (cp_path c) \<in> barred then fresh_paths sha barred cs
      else cp_path c # fresh_paths sha (insert (path_id sha (cp_path c)) barred) cs)"

definition build_of :: "path \<Rightarrow> speculation" where
  "build_of p = \<lparr>sp_path = p, sp_action = PathActionBuild\<rparr>"

lemma fresh_paths_subset: "p \<in> set (fresh_paths sha barred cs) \<Longrightarrow> p \<in> cp_path ` set cs"
  by (induction cs arbitrary: barred) (auto split: if_splits)

lemma fresh_paths_barred: "p \<in> set (fresh_paths sha barred cs) \<Longrightarrow> path_id sha p \<notin> barred"
  by (induction cs arbitrary: barred) (auto split: if_splits)

lemma fresh_paths_distinct: "distinct (map (path_id sha) (fresh_paths sha barred cs))"
proof (induction cs arbitrary: barred)
  case (Cons c cs)
  have "path_id sha (cp_path c) \<notin> set (map (path_id sha) (fresh_paths sha (insert (path_id sha (cp_path c)) barred) cs))"
    by (auto dest: fresh_paths_barred)
  with Cons show ?case by (simp del: set_map)
qed simp

text \<open>Where distinct candidates have distinct IDs, no candidate is passed over but the barred.\<close>

lemma fresh_paths_filter:
  "distinct (map (path_id sha) (map cp_path cs)) \<Longrightarrow>
   fresh_paths sha barred cs = filter (\<lambda>p. path_id sha p \<notin> barred) (map cp_path cs)"
proof (induction cs arbitrary: barred)
  case (Cons c cs)
  have "filter (\<lambda>p. path_id sha p \<notin> insert (path_id sha (cp_path c)) barred) (map cp_path cs) =
      filter (\<lambda>p. path_id sha p \<notin> barred) (map cp_path cs)"
    by (rule filter_cong) (use Cons.prems in \<open>auto simp: image_iff\<close>)
  with Cons show ?case by simp
qed simp

locale candidate_source =
  fixes next_candidate :: "('w, 'i) candidate_next" and rest :: "'i \<Rightarrow> candidate_path list"
  assumes next_Some: "next_candidate i w = (Inr (Some (c, i')), w') \<Longrightarrow> rest i = c # rest i'"
    and next_None: "next_candidate i w = (Inr None, w') \<Longrightarrow> rest i = []"
begin

lemma allocate_loop_returns:
  "\<exists>r w'. allocate_loop poll next_candidate sha funded terminal free proposed out i w = Some (r, w') \<and>
     (\<forall>result. r = Inr result \<longrightarrow> result = out @ map build_of
        (take (nat free) (fresh_paths sha (set terminal \<union> set funded \<union> set proposed) (rest i))))"
proof (induction "rest i" arbitrary: i free proposed out w)
  case Nil
  have stuck: "next_candidate i w1 \<noteq> (Inr (Some (c, i')), w2)" for w1 c i' w2
    using next_Some [of i w1 c i' w2] Nil by auto
  show ?case
    by (subst allocate_loop.simps) (use Nil stuck in \<open>auto split: prod.splits sum.splits option.splits\<close>)
next
  case (Cons c cs)
  let ?barred = "set terminal \<union> set funded \<union> set proposed" let ?id = "path_id sha (cp_path c)"
  show ?case
  proof (cases "free \<le> 0")
    case True
    then show ?thesis by (subst allocate_loop.simps) simp
  next
    case False
    obtain r1 w1 where p: "poll w = (r1, w1)" by fastforce
    obtain r2 w2 where n: "next_candidate i w1 = (r2, w2)" by fastforce
    show ?thesis
    proof (cases "\<exists>u c' i'. r1 = Inr u \<and> r2 = Inr (Some (c', i'))")
      case False
      then show ?thesis
        using p n Cons(2) next_None [of i w1 w2] \<open>\<not> free \<le> 0\<close>
        by (subst allocate_loop.simps) (auto split: sum.splits option.splits)
    next
      case True
      then obtain u c' i' where r: "r1 = Inr u" "r2 = Inr (Some (c', i'))" by blast
      with n have "rest i = c' # rest i'" by (auto intro: next_Some)
      with Cons(2) have c: "c' = c" "cs = rest i'" by auto
      note ih = Cons(1) [OF c(2)]
      have "insert ?id (set terminal \<union> set funded \<union> set proposed) =
          set terminal \<union> set funded \<union> set (List.insert ?id proposed)" by auto
      moreover have "nat free = Suc (nat (free - 1))" using \<open>\<not> free \<le> 0\<close> by simp
      ultimately show ?thesis
        using p n r \<open>\<not> free \<le> 0\<close> c ih [of free proposed out w2]
          ih [of "free - 1" "List.insert ?id proposed" "out @ [build_of (cp_path c)]" w2]
        by (subst allocate_loop.simps) (auto simp: Cons(2) [symmetric] build_of_def)
    qed
  qed
qed

end

interpretation best: candidate_source "iter_next ops poll" "drain ops" for ops poll
proof
  show "drain ops i = c # drain ops i'" if "iter_next ops poll i w = (Inr (Some (c, i')), w')" for i w c i' w'
    using that by (subst drain.simps) (auto simp: iter_next_def act_simps split: prod.splits sum.splits)
  show "drain ops i = []" if "iter_next ops poll i w = (Inr None, w')" for i w w'
    using that by (subst drain.simps) (auto simp: iter_next_def act_simps split: prod.splits sum.splits)
qed


section \<open>What a run proposes\<close>

lemma scan_entries_ids:
  "scan_entries es (funded, terminal) = Inr (f, t) \<Longrightarrow>
   set f = set funded \<union> {e_id e |e. e \<in> set es \<and> \<not> path_status_is_terminal (e_status e)} \<and>
   set t = set terminal \<union> {e_id e |e. e \<in> set es \<and> path_status_is_terminal (e_status e)} \<and>
   (distinct funded \<longrightarrow> distinct f)"
proof (induction es arbitrary: funded terminal)
  case (Cons e es)
  then show ?case by (fastforce split: if_splits)
qed simp

lemma scan_sets_ids:
  "scan_sets sets ft = Inr (f, t) \<Longrightarrow>
   set f = set (fst ft) \<union> {e_id e |ps e. ps \<in> set sets \<and> e \<in> set (ps_paths ps) \<and> \<not> path_status_is_terminal (e_status e)} \<and>
   set t = set (snd ft) \<union> {e_id e |ps e. ps \<in> set sets \<and> e \<in> set (ps_paths ps) \<and> path_status_is_terminal (e_status e)} \<and>
   (distinct (fst ft) \<longrightarrow> distinct f)"
proof (induction sets arbitrary: ft)
  case (Cons ps sets)
  then obtain ft' where "scan_entries (ps_paths ps) ft = Inr ft'" and "scan_sets sets ft' = Inr (f, t)"
    by (auto split: sum.splits)
  with Cons.IH [of ft'] scan_entries_ids [of "ps_paths ps" "fst ft" "snd ft" "fst ft'" "snd ft'"]
  show ?case by (auto 4 4)
qed auto

text \<open>The IDs that hold a build slot, and all IDs on record.\<close>

definition held_ids :: "path_set list \<Rightarrow> string set" where
  "held_ids sets = (\<Union>ps\<in>set sets. e_id ` {e \<in> set (ps_paths ps). \<not> path_status_is_terminal (e_status e)})"

definition recorded_ids :: "path_set list \<Rightarrow> string set" where
  "recorded_ids sets = (\<Union>ps\<in>set sets. e_id ` set (ps_paths ps))"

lemma scan_sets_facts:
  assumes "scan_sets sets ([], []) = Inr (f, t)"
  shows "int (length f) = int (card (held_ids sets))" and "set t \<union> set f = recorded_ids sets"
proof -
  note ids = scan_sets_ids [OF assms]
  have "set f = held_ids sets" using ids by (auto simp: held_ids_def)
  then show "int (length f) = int (card (held_ids sets))" using ids distinct_card [of f] by simp
  show "set t \<union> set f = recorded_ids sets" using ids by (simp add: recorded_ids_def) blast
qed

lemma standard_speculate_runs:
  "\<exists>r w'. standard_speculate ops poll scorer sha budget batches sets w = Some (r, w') \<and>
     (\<forall>out. r = Inr out \<longrightarrow> (\<exists>its w1. generate ops poll scorer batches sets w = (Inr its, w1) \<and>
        out = map build_of (take (nat (budget - int (card (held_ids sets))))
          (fresh_paths sha (recorded_ids sets) (drain ops its)))))"
proof -
  obtain g w1 where g: "generate ops poll scorer batches sets w = (g, w1)" by fastforce
  obtain p w2 where p: "poll w1 = (p, w2)" by fastforce
  show ?thesis
  proof (cases "\<exists>its u f t. g = Inr its \<and> p = Inr u \<and> scan_sets sets ([], []) = Inr (f, t)")
    case False
    then show ?thesis using g p
      by (cases g; cases p; cases "scan_sets sets ([], [])") (auto simp: standard_speculate_def allocate_def)
  next
    case True
    then obtain its u f t where eqs: "g = Inr its" "p = Inr u" and scan: "scan_sets sets ([], []) = Inr (f, t)" by blast
    from best.allocate_loop_returns [of poll ops poll sha f t "budget - int (length f)" "[]" "[]" its w2]
    show ?thesis using g p eqs scan scan_sets_facts [OF scan]
      by (auto simp: standard_speculate_def allocate_def)
  qed
qed


text \<open>
  C13. The standard speculator always returns: whatever the scorer answers and whenever the context
  is cancelled, the allocator's loop ends, because the iterator does.
\<close>

theorem standard_speculate_returns:
  "\<exists>r w'. standard_speculate ops poll scorer sha budget batches sets w = Some (r, w')"
  using standard_speculate_runs by metis

text \<open>
  What it proposes is a build for each of the first so many candidates of the generator, in the
  generator's order, that no path set records yet; so many being the budget less the paths that
  hold a slot.
\<close>

theorem standard_speculate_picks:
  assumes "standard_speculate ops poll scorer sha budget batches sets w = Some (Inr out, w')"
  shows "\<exists>its w1. generate ops poll scorer batches sets w = (Inr its, w1) \<and>
    out = map build_of (take (nat (budget - int (card (held_ids sets))))
      (fresh_paths sha (recorded_ids sets) (drain ops its)))"
  using standard_speculate_runs [of ops poll scorer sha budget batches sets w] assms by auto

text \<open>
  C14. The budget holds: the proposals never take more slots than are free, none of them repeats a
  path on record or another proposal, and nothing is ever cancelled.
\<close>

theorem standard_speculate_budget:
  assumes "standard_speculate ops poll scorer sha budget batches sets w = Some (Inr out, w')"
  shows "int (length out) \<le> max 0 (budget - int (card (held_ids sets))) \<and>
    distinct (map (path_id sha \<circ> sp_path) out) \<and>
    (\<forall>p\<in>set out. sp_action p = PathActionBuild \<and> path_id sha (sp_path p) \<notin> recorded_ids sets)"
proof -
  obtain its where out: "out = map build_of (take (nat (budget - int (card (held_ids sets))))
      (fresh_paths sha (recorded_ids sets) (drain ops its)))"
    using standard_speculate_runs [of ops poll scorer sha budget batches sets w] assms by auto
  have "distinct (map (path_id sha) (take n (fresh_paths sha (recorded_ids sets) (drain ops its))))" for n
    using fresh_paths_distinct [of sha "recorded_ids sets" "drain ops its"] by (metis distinct_take take_map)
  then show ?thesis
    unfolding out by (auto simp: build_of_def comp_def dest!: in_set_takeD fresh_paths_barred)
qed

section \<open>Witnesses\<close>

definition sample_sets :: "path_set list" where
  "sample_sets = [\<lparr>ps_queue = ''q'', ps_head = ''2'', ps_paths = [\<lparr>e_id = ''2'', e_path = \<lparr>p_head = ''2'', p_deps = []\<rparr>,
     e_status = PathBuilding, e_attempt = 1, e_version = 1, e_created_at = 0, e_updated_at = 0\<rparr>], ps_version = 1\<rparr>]"

lemmas sample_defs = sample_batches_def batch_by_id_def resolved_dep_def known_batch_def
lemmas stream_defs = new_path_stream_def add_dependency_def first_item_def preferred_side_def flip_penalty_def
  preferred_probability_def opposite_probability_def flt_max_def flt_min_def flt_sub_def flt_le_def flt_eq_def
  exact_ops_def sample_defs as_probability_def Let_def
lemmas pull_defs = iter_next_def act_simps iter_pop_def candidate_less_def least_of_def stream_next_def prepare_def
  flt_eq_def path_id_def path_text_def build_path_def sort_variables_def stream_push_def score_for_def exact_ops_def Let_def

definition sample_proposal :: speculation where
  "sample_proposal = \<lparr>sp_path = \<lparr>p_head = ''3'', p_deps = [\<lparr>pd_batch = ''1'', pd_assumption = Succeeds\<rparr>,
     \<lparr>pd_batch = ''2'', pd_assumption = Succeeds\<rparr>]\<rparr>, sp_action = PathActionBuild\<rparr>"

lemma sample_speculate:
  "standard_speculate exact_ops (ok ()) (\<lambda>_ _. ok (Fin (3/4))) id 2 sample_batches sample_sets () = Some (Inr [sample_proposal], ())"
  apply (simp add: standard_speculate_def generate_def act_simps score_all.simps speculating_heads_def stream_defs allocate_def sample_sets_def)
  apply (subst allocate_loop.simps, simp add: pull_defs)
  apply (subst allocate_loop.simps, simp add: pull_defs)
  apply (subst allocate_loop.simps, simp add: pull_defs sample_proposal_def)
  done

lemma standard_speculate_picks_witness:
  "\<exists>its w1. generate exact_ops (ok ()) (\<lambda>_ _. ok (Fin (3/4))) sample_batches sample_sets () = (Inr its, w1) \<and>
    [sample_proposal] = map build_of (take (nat (2 - int (card (held_ids sample_sets))))
      (fresh_paths id (recorded_ids sample_sets) (drain exact_ops its)))"
  by (rule standard_speculate_picks [OF sample_speculate])

lemma standard_speculate_budget_witness:
  "path_id id (sp_path sample_proposal) \<notin> recorded_ids sample_sets"
  using standard_speculate_budget [OF sample_speculate] by simp

end
