(* ===== verification/Proposals.thy ===== *)
theory Proposals
  imports Allocate SpecSafe
begin

text \<open>
  The standard speculator inside the speculate controller: the snapshot a run asks about is in
  order, and on such a snapshot every proposal of the standard speculator passes the controller's
  check, so none is dropped.
\<close>

section \<open>The snapshot a run asks about\<close>

definition index_shaped :: "(string \<times> batch) list \<Rightarrow> bool" where
  "index_shaped m \<longleftrightarrow> distinct (map fst m) \<and> (\<forall>i b. map_of m i = Some b \<longrightarrow> b_id b = i)"

definition snapshot_shaped :: "snapshot \<Rightarrow> bool" where
  "snapshot_shaped s \<longleftrightarrow> index_shaped (sn_batches s) \<and>
     (\<forall>b\<in>set (sn_in_flight s) \<union> set (sn_speculating s). map_of (sn_batches s) (b_id b) \<noteq> None) \<and>
     (\<forall>i. sn_path_sets s i \<noteq> None \<longrightarrow> i \<in> b_id ` set (sn_in_flight s)) \<and>
     (\<forall>i. sn_dirty s i \<longrightarrow> sn_path_sets s i \<noteq> None)"

lemma index_shaped_update: "index_shaped m \<Longrightarrow> b_id b = i \<Longrightarrow> index_shaped (AList.update i b m)"
  by (auto simp: index_shaped_def distinct_keys_update)

lemma fold_act_keeps:
  assumes "fold_act body xs s w = (Inr s', w')" and "P s"
    and "\<And>x s w s' w'. x \<in> set xs \<Longrightarrow> P s \<Longrightarrow> body x s w = (Inr s', w') \<Longrightarrow> P s'"
  shows "P s'"
  using assms
proof (induction xs arbitrary: s w)
  case Nil
  then show ?case by (simp add: act_simps)
next
  case (Cons x xs)
  from Cons.prems(1) obtain s1 w1 where "body x s w = (Inr s1, w1)" and "fold_act body xs s1 w1 = (Inr s', w')"
    by (auto elim: and_then_Inr)
  with Cons show ?case by (metis list.set_intros)
qed

lemma transition_id: "transition b st w = (Inr b', w') \<Longrightarrow> b_id b' = b_id b"
  by (auto simp: transition_def Let_def map_err_def ok_apply split: prod.splits sum.splits if_splits elim!: and_then_Inr)

lemma admit_id: "admit b w = (Inr b', w') \<Longrightarrow> b_id b' = b_id b"
  by (auto simp: admit_def map_err_def split: prod.splits sum.splits elim!: and_then_Inr dest: transition_id)

lemma admit_created_one_shaped:
  assumes "admit_created_one i s w = (Inr s', w')" and "snapshot_shaped s" and "i < length (sn_in_flight s)"
  shows "snapshot_shaped s' \<and> length (sn_in_flight s') = length (sn_in_flight s)"
proof (cases "s' = s")
  case False
  let ?b = "sn_in_flight s ! i"
  from False assms(1) obtain u w1 w2 where u: "admit ?b w1 = (Inr u, w2)"
    and s': "s' = s\<lparr>sn_batches := AList.update (b_id u) u (sn_batches s),
      sn_in_flight := (sn_in_flight s)[i := u], sn_speculating := sn_speculating s @ [u]\<rparr>"
    by (auto simp: admit_created_one_def Let_def attempt_def ok_apply split: if_splits prod.splits sum.splits elim!: and_then_Inr)
  have "map b_id ((sn_in_flight s)[i := u]) = map b_id (sn_in_flight s)"
    using admit_id [OF u] assms(3) by (metis list_update_id map_update nth_map)
  then have ids: "b_id ` set ((sn_in_flight s)[i := u]) = b_id ` set (sn_in_flight s)" by (metis list.set_map)
  have "map_of (AList.update (b_id u) u (sn_batches s)) (b_id b) \<noteq> None"
    if "b \<in> set ((sn_in_flight s)[i := u]) \<union> set (sn_speculating s @ [u])" for b
  proof -
    have "b \<in> set (sn_in_flight s) \<union> set (sn_speculating s) \<or> b = u"
      using that set_update_subset_insert [of "sn_in_flight s" i u] by auto
    then show ?thesis using assms(2) by (auto simp: snapshot_shaped_def)
  qed
  then show ?thesis
    using assms(2) ids by (simp add: s' snapshot_shaped_def index_shaped_update)
qed (use assms in simp)

lemma admit_created_shaped:
  assumes "admit_created s w = (Inr s', w')" and "snapshot_shaped s"
  shows "snapshot_shaped s'"
proof -
  let ?P = "\<lambda>t. snapshot_shaped t \<and> length (sn_in_flight t) = length (sn_in_flight s)"
  have "?P s'"
    using assms(1) [unfolded admit_created_def]
    by (rule fold_act_keeps) (use assms(2) in \<open>auto dest: admit_created_one_shaped\<close>)
  then show ?thesis by simp
qed

definition shape_kept :: "snapshot \<Rightarrow> snapshot \<Rightarrow> bool" where
  "shape_kept s s' \<longleftrightarrow> sn_in_flight s' = sn_in_flight s \<and> sn_speculating s' = sn_speculating s \<and>
     dom (map_of (sn_batches s)) \<subseteq> dom (map_of (sn_batches s')) \<and> (snapshot_shaped s \<longrightarrow> snapshot_shaped s')"

lemma shape_kept_refl [simp]: "shape_kept s s"
  by (simp add: shape_kept_def)

lemma shape_kept_trans: "shape_kept s t \<Longrightarrow> shape_kept t u \<Longrightarrow> shape_kept s u"
  by (auto simp: shape_kept_def)

lemma change_set_shaped: "shape_kept s (snd (change_set i change s))"
  by (auto simp: change_set_def shape_kept_def snapshot_shaped_def mark_dirty_def split: option.splits prod.splits)

lemma commit_paths_shaped:
  assumes "commit_paths s b w = (Inr (s', c), w')"
  shows "shape_kept s s'"
proof -
  from assms have "s' = s \<or> (sn_dirty s (b_id b) \<and> (s' = mark_clean (b_id b) s \<or>
      (\<exists>ps. s' = mark_clean (b_id b) (s\<lparr>sn_path_sets := (sn_path_sets s)(b_id b \<mapsto> ps)\<rparr>))))"
    by (auto simp: commit_paths_def is_dirty_def attempt_def ok_apply fail_apply
        split: if_splits prod.splits sum.splits elim!: and_then_Inr)
  then show ?thesis unfolding shape_kept_def snapshot_shaped_def mark_clean_def
    by (elim disjE conjE exE) simp_all
qed

lemma commit_outcome_shaped:
  assumes "commit_outcome s b decision w = (Inr (s', c), w')"
  shows "shape_kept s s'"
proof -
  from assms obtain stored w1 where "commit_paths s b w = (Inr (s', stored), w1)"
    unfolding commit_outcome_def
    by (auto simp: ok_apply split: if_splits elim!: and_then_Inr)
  then show ?thesis by (rule commit_paths_shaped)
qed

lemma record_outcome_shaped:
  "i \<in> dom (map_of (sn_batches s)) \<Longrightarrow> shape_kept s (record_outcome s i decision)"
  by (auto simp: record_outcome_def shape_kept_def snapshot_shaped_def batch_at_def index_shaped_def
      intro!: index_shaped_update [unfolded index_shaped_def, rule_format] distinct_keys_update split: option.splits)


lemma finalize_cancellation_shaped:
  assumes run: "finalize_cancellation now b s w = (Inr s', w')" and b: "b_id b \<in> dom (map_of (sn_batches s))"
  shows "shape_kept s s'"
proof -
  let ?s1 = "snd (change_set (b_id b) (\<lambda>ps. cancel_all_paths ps now) s)"
  have s1: "shape_kept s ?s1" by (rule change_set_shaped)
  from run consider "s' = s" | "s' = ?s1"
    | s2 c w1 w2 where "commit_outcome ?s1 b OutcomeCancel w1 = (Inr (s2, c), w2)"
        "s' = (if c then record_outcome s2 (b_id b) OutcomeCancel else s2)"
    by (auto simp: finalize_cancellation_def ok_apply split: if_splits prod.splits elim!: and_then_Inr)
  then show ?thesis
  proof cases
    case 3
    have s2: "shape_kept s s2" using shape_kept_trans [OF s1 commit_outcome_shaped [OF 3(1)]] .
    with b have "b_id b \<in> dom (map_of (sn_batches s2))" by (auto simp: shape_kept_def)
    with 3(2) s2 show ?thesis by (auto intro: shape_kept_trans [OF _ record_outcome_shaped])
  qed (simp_all add: s1)
qed

lemma finalize_cancellations_shaped:
  assumes "finalize_cancellations now s w = (Inr s', w')" and "snapshot_shaped s"
  shows "shape_kept s s'"
  using assms(1) unfolding finalize_cancellations_def
proof (rule fold_act_keeps)
  fix b s1 w1 s2 w2
  assume b: "b \<in> set (sn_in_flight s)" and s1: "shape_kept s s1"
    and run: "finalize_cancellation now b s1 w1 = (Inr s2, w2)"
  have "b_id b \<in> dom (map_of (sn_batches s1))"
    using b s1 assms(2) by (auto simp: shape_kept_def snapshot_shaped_def)
  from shape_kept_trans [OF s1 finalize_cancellation_shaped [OF run this]] show "shape_kept s s2" .
qed simp

definition heads_listed :: "batch list \<Rightarrow> snapshot \<Rightarrow> bool" where
  "heads_listed bs s \<longleftrightarrow> (\<forall>b\<in>set bs. b_id b \<in> dom (map_of (sn_batches s)))"

lemma heads_listed_kept: "heads_listed bs s \<Longrightarrow> shape_kept s s' \<Longrightarrow> heads_listed bs s'"
  by (auto simp: heads_listed_def shape_kept_def)

lemma finalize_head_shaped:
  assumes run: "finalize_head now b (s, n, os) w = (Inr (s', n', os'), w')" and b: "b_id b \<in> dom (map_of (sn_batches s))"
  shows "shape_kept s s' \<and> set os' \<subseteq> insert b (set os)"
proof -
  let ?c = "change_set (b_id b) (\<lambda>ps. cancel_broken_paths_in_set ps s now) s"
  let ?ps = "fst ?c" let ?s1 = "snd ?c" let ?d = "decide b ?ps ?s1"
  let ?s2 = "if ?d = OutcomeLand
    then snd (change_set (b_id b) (\<lambda>ps'. supersede ps' (e_id (winner_of b ?ps ?s1)) now) ?s1) else ?s1"
  have s1: "shape_kept s ?s1" by (rule change_set_shaped)
  have s2: "shape_kept s ?s2" using shape_kept_trans [OF s1 change_set_shaped] s1 by simp
  from run consider "s' = ?s1" "os' = os @ [b]"
    | s3 c w1 w2 where "commit_outcome ?s2 b ?d w1 = (Inr (s3, c), w2)"
        "s' = (if c then record_outcome s3 (b_id b) ?d else s3)" "os' = os"
    by (auto simp: finalize_head_def ok_apply Let_def split: if_splits prod.splits elim!: and_then_Inr)
  then show ?thesis
  proof cases
    case 2
    have s3: "shape_kept s s3" using shape_kept_trans [OF s2 commit_outcome_shaped [OF 2(1)]] .
    with b have "b_id b \<in> dom (map_of (sn_batches s3))" by (auto simp: shape_kept_def)
    with 2(2,3) s3 show ?thesis by (auto intro: shape_kept_trans [OF _ record_outcome_shaped])
  qed (simp add: s1)
qed

lemma finalize_pass_shaped:
  assumes run: "finalize_pass now heads s w = (Inr (s', n, os), w')" and heads: "heads_listed heads s"
  shows "shape_kept s s' \<and> set os \<subseteq> set heads"
proof -
  let ?P = "\<lambda>(t, n :: nat, os). shape_kept s t \<and> set os \<subseteq> set heads"
  have "?P (s', n, os)"
    using run unfolding finalize_pass_def
  proof (rule fold_act_keeps)
    fix b st w1 st' w2
    assume b: "b \<in> set heads" and st: "?P st" and step: "finalize_head now b st w1 = (Inr st', w2)"
    obtain t m os t' m' os' where eqs: "st = (t, m, os)" "st' = (t', m', os')" by (metis prod_cases3)
    have "b_id b \<in> dom (map_of (sn_batches t))"
      using heads_listed_kept [OF heads, of t] st b by (auto simp: eqs heads_listed_def)
    from finalize_head_shaped [OF step [unfolded eqs] this] st b show "?P st'"
      by (auto simp: eqs intro: shape_kept_trans)
  qed simp
  then show ?thesis by simp
qed

lemma finalize_loop_shaped:
  "finalize_loop now heads s w = (Inr (s', os), w') \<Longrightarrow> heads_listed heads s \<Longrightarrow> shape_kept s s' \<and> set os \<subseteq> set heads"
proof (induction now heads s w rule: finalize_loop.induct)
  case (1 now heads s w)
  from 1(2) obtain s1 n os1 w1 where pass: "finalize_pass now heads s w = (Inr (s1, n, os1), w1)"
    by (subst (asm) finalize_loop.simps) (auto split: prod.splits sum.splits)
  note kept = finalize_pass_shaped [OF pass 1(3)]
  show ?case
  proof (cases "n = 0")
    case True
    with 1(2) pass kept show ?thesis by (subst (asm) finalize_loop.simps) simp
  next
    case False
    with 1(2) pass have "finalize_loop now os1 s1 w1 = (Inr (s', os), w')"
      by (subst (asm) finalize_loop.simps) simp
    moreover have "heads_listed os1 s1"
      using heads_listed_kept [OF 1(3)] kept by (auto simp: heads_listed_def)
    ultimately have "shape_kept s1 s' \<and> set os \<subseteq> set os1"
      using 1(1) [OF pass [symmetric] refl refl refl False] by simp
    with kept show ?thesis by (auto intro: shape_kept_trans)
  qed
qed

lemma finalize_shaped:
  assumes "finalize s w = (Inr s', w')" and s: "snapshot_shaped s"
  shows "snapshot_shaped s'"
proof -
  from assms(1) obtain now s1 w1 w2 s2 os w3 w4 where
    c: "finalize_cancellations now s w1 = (Inr s1, w2)"
    and l: "finalize_loop now (sn_speculating s1) s1 w2 = (Inr (s2, os), w3)"
    and s': "s' = s2\<lparr>sn_speculating := os\<rparr>"
    by (auto simp: finalize_def ok_apply elim!: and_then_Inr)
  have s1: "snapshot_shaped s1" using finalize_cancellations_shaped [OF c s] s by (simp add: shape_kept_def)
  then have "heads_listed (sn_speculating s1) s1" by (auto simp: heads_listed_def snapshot_shaped_def)
  from finalize_loop_shaped [OF l this] s1 have s2: "snapshot_shaped s2" "set os \<subseteq> set (sn_speculating s2)"
    by (auto simp: shape_kept_def)
  then show ?thesis by (auto simp: s' snapshot_shaped_def)
qed


section \<open>Reading a snapshot in order\<close>

lemma index_batches_shaped: "index_shaped (index_batches bs) \<and> (\<forall>b\<in>set bs. map_of (index_batches bs) (b_id b) \<noteq> None)"
proof (induction bs rule: rev_induct)
  case (snoc b bs)
  then show ?case by (auto simp: index_batches_def index_shaped_update)
qed (simp add: index_batches_def index_shaped_def)

lemma load_dependency_shaped:
  "rg sha (\<lambda>d. consistent sha d \<and> index_shaped m \<and> (\<forall>b\<in>set bs. map_of m (b_id b) \<noteq> None)) (load_dependency i m)
     (\<lambda>m' d. consistent sha d \<and> index_shaped m' \<and> (\<forall>b\<in>set bs. map_of m' (b_id b) \<noteq> None))"
proof -
  let ?P = "\<lambda>d. consistent sha d \<and> index_shaped m \<and> (\<forall>b\<in>set bs. map_of m (b_id b) \<noteq> None)"
  have st: "stable (evolves sha) ?P" by (intro stable_intros)
  show ?thesis
    unfolding load_dependency_def
    by (rule lifecycle.triple_if, rule lifecycle.triple_ok, simp,
        rule lifecycle.triple_bind [OF lifecycle.triple_map_err [OF triple_batch_get [OF st]]],
        simp add: consistent_def, rule lifecycle.triple_ok) (auto simp: index_shaped_update)
qed

lemma load_path_set_shaped:
  assumes "load_path_set b s w = (Inr s', w')" and "b \<in> set (sn_in_flight s)" and "snapshot_shaped s"
  shows "snapshot_shaped s' \<and> sn_in_flight s' = sn_in_flight s"
  using assms by (auto simp: load_path_set_def Let_def attempt_def ok_apply fail_apply mark_dirty_def snapshot_shaped_def
      split: if_splits prod.splits sum.splits elim!: and_then_Inr)

lemma load_path_sets_shaped:
  assumes "fold_act load_path_set (sn_in_flight s) s w = (Inr s', w')" and "snapshot_shaped s"
  shows "snapshot_shaped s'"
proof -
  have "snapshot_shaped s' \<and> sn_in_flight s' = sn_in_flight s"
    using assms(1) by (rule fold_act_keeps) (use assms(2) load_path_set_shaped in auto)
  then show ?thesis by simp
qed

lemma triple_conj:
  "rg sha P m Q \<Longrightarrow> rg sha P m Q' \<Longrightarrow> rg sha P m (\<lambda>x d. Q x d \<and> Q' x d)"
  unfolding triple_def by blast

lemma triple_read_shaped:
  "rg sha (consistent sha) (read_snapshot q) (\<lambda>s d. snapshot_known sha s d \<and> snapshot_shaped s)"
proof -
  let ?L = "\<lambda>bs d. consistent sha d \<and> (\<forall>b\<in>set bs. known b d \<and> b_state b \<in> set active_batch_states)"
  let ?S = "\<lambda>bs m. index_shaped m \<and> (\<forall>b\<in>set bs. map_of m (b_id b) \<noteq> None)"
  let ?M = "\<lambda>bs m d. (?L bs d \<and> index_known m d) \<and> consistent sha d \<and> ?S bs m"
  have list: "rg sha (consistent sha) (list_by_states active_batch_states) ?L"
    by (rule triple_list_by_states [OF stable_consistent]) (simp add: consistent_def)
  have st: "stable (evolves sha) (?L bs)" for bs by (intro stable_intros)
  have load: "rg sha (?M bs m) (load_dependency i m) (?M bs)" for bs i m
    by (rule triple_conj, rule lifecycle.triple_pre [OF triple_load_dependency [OF st]], simp add: consistent_def, simp,
        rule lifecycle.triple_pre [OF load_dependency_shaped]) simp
  have deps: "rg sha (?L bs) (fold_act (\<lambda>b m. fold_act load_dependency (b_deps b) m) bs (index_batches bs)) (?M bs)" for bs
    by (rule lifecycle.triple_pre [OF lifecycle.triple_fold_act [where P = "?M bs",
          OF lifecycle.triple_fold_act [where P = "?M bs", OF load]]])
      (use index_batches_shaped in \<open>auto intro: index_batches_known\<close>)
  have sets: "rg sha (\<lambda>d. snapshot_known sha s d \<and> snapshot_shaped s) (fold_act load_path_set (sn_in_flight s) s)
      (\<lambda>s' d. snapshot_known sha s' d \<and> snapshot_shaped s')" for s
  proof (rule lifecycle.triple_pure)
    assume s: "snapshot_shaped s"
    have "rg sha (\<lambda>d. snapshot_known sha s d \<and> sn_in_flight s = sn_in_flight s) (fold_act load_path_set (sn_in_flight s) s)
        (\<lambda>s' d. snapshot_known sha s' d \<and> sn_in_flight s' = sn_in_flight s)"
      by (rule lifecycle.triple_fold_act, rule lifecycle.triple_pure,
          rule lifecycle.triple_conseq [OF triple_load_path_set]) auto
    from lifecycle.triple_result [OF this load_path_sets_shaped [OF _ s]]
    show "rg sha (snapshot_known sha s) (fold_act load_path_set (sn_in_flight s) s)
        (\<lambda>s' d. snapshot_known sha s' d \<and> snapshot_shaped s')"
      by (rule lifecycle.triple_conseq) auto
  qed
  have start: "snapshot_known sha \<lparr>sn_batches = m, sn_in_flight = bs, sn_trigger = [],
        sn_speculating = filter (\<lambda>b. b_state b = BatchStateSpeculating) bs, sn_path_sets = Map.empty, sn_dirty = (\<lambda>_. False)\<rparr> d \<and>
      snapshot_shaped \<lparr>sn_batches = m, sn_in_flight = bs, sn_trigger = [],
        sn_speculating = filter (\<lambda>b. b_state b = BatchStateSpeculating) bs, sn_path_sets = Map.empty, sn_dirty = (\<lambda>_. False)\<rparr>"
    if "?M bs m d" for bs m d
    using that by (auto simp: snapshot_known_def heads_known_def sets_known_def state_list_defs snapshot_shaped_def)
  show ?thesis
    unfolding read_snapshot_def
    by (rule lifecycle.triple_bind [OF lifecycle.triple_map_err [OF list]], rule lifecycle.triple_bind [OF deps])
      (use lifecycle.triple_pre [OF sets start] in simp)
qed

text \<open>
  C15. The snapshot a run asks its speculator about is in order, under any faults and lawful
  interference: it names each batch once and under its own ID, every batch in flight and every open
  head is in it, and only batches in flight have a path set, dirty or not.
\<close>

theorem asked_snapshot_shaped:
  "rg sha (consistent sha)
     (and_then (read_snapshot q) (\<lambda>s. and_then (admit_created (s\<lparr>sn_trigger := i\<rparr>)) finalize))
     (\<lambda>s d. snapshot_shaped s)"
proof -
  have known: "snapshot_known sha (s\<lparr>sn_trigger := i\<rparr>) d = snapshot_known sha s d"
    and shaped: "snapshot_shaped (s\<lparr>sn_trigger := i\<rparr>) = snapshot_shaped s" for s d
    by (simp_all add: snapshot_known_def snapshot_shaped_def)
  have admit: "rg sha (\<lambda>d. snapshot_known sha s d \<and> snapshot_shaped s) (admit_created (s\<lparr>sn_trigger := i\<rparr>))
      (\<lambda>s d. snapshot_known sha s d \<and> snapshot_shaped s)" for s
    by (rule lifecycle.triple_pure, rule lifecycle.triple_pre [OF lifecycle.triple_result [OF triple_admit_created, where F = snapshot_shaped]])
      (auto simp: known shaped dest: admit_created_shaped)
  have fin: "rg sha (\<lambda>d. snapshot_known sha s d \<and> snapshot_shaped s) (finalize s) (\<lambda>s d. snapshot_shaped s)" for s
    by (rule lifecycle.triple_pure, rule lifecycle.triple_conseq [OF lifecycle.triple_result [OF triple_finalize, where F = snapshot_shaped]])
      (auto dest: finalize_shaped)
  show ?thesis
    by (rule lifecycle.triple_bind [OF triple_read_shaped], rule lifecycle.triple_bind [OF admit fin])
qed

section \<open>Every proposal passes the check\<close>

lemma fold_by_id:
  assumes "distinct (map fst m)" and "\<forall>kv\<in>set m. b_id (snd kv) = fst kv"
  shows "foldl (\<lambda>m b. m(b_id b \<mapsto> b)) g (map snd m) = g ++ map_of m"
  using assms
proof (induction m arbitrary: g)
  case (Cons kv m)
  then have "map_of m (fst kv) = None" by (simp add: map_of_eq_None_iff)
  moreover have "foldl (\<lambda>m b. m(b_id b \<mapsto> b)) (g(fst kv \<mapsto> snd kv)) (map snd m) = g(fst kv \<mapsto> snd kv) ++ map_of m"
    by (rule Cons.IH) (use Cons.prems in simp_all)
  moreover have "g(fst kv \<mapsto> snd kv) ++ map_of m = g ++ map_of (kv # m)" if "map_of m (fst kv) = None"
    using that by (cases kv) (auto simp: map_add_def fun_eq_iff split: option.splits)
  moreover have "b_id (snd kv) = fst kv" using Cons.prems(2) by simp
  ultimately show ?case by (simp only: list.map foldl_Cons)
qed simp

lemma batch_by_id_values:
  assumes "index_shaped m"
  shows "batch_by_id (map_values m) i = map_of m i"
proof -
  have "\<forall>kv\<in>set m. b_id (snd kv) = fst kv"
    using assms by (auto simp: index_shaped_def)
  then show ?thesis
    using assms by (simp add: batch_by_id_def map_values_def index_shaped_def fold_by_id)
qed

lemma resolved_known: "resolved_assumption st = Some a \<Longrightarrow> a \<noteq> AssumptionUnknown"
  by (cases st) auto

lemma coherent_accepted:
  assumes m: "index_shaped (sn_batches s)" and p: "coherent (batch_by_id (map_values (sn_batches s))) head p"
  shows "is_well_formed p head" and "\<not> assumption_broken p s"
proof -
  have state: "resolved_dep (batch_by_id (map_values (sn_batches s))) i = resolved_assumption (state_in s i)" for i
    by (simp add: resolved_dep_def known_batch_def batch_by_id_values [OF m] state_in_def batch_at_def)
  have side: "side_open (resolved_assumption (state_in s (pd_batch d))) (pd_assumption d)" if "d \<in> set (p_deps p)" for d
    using p that by (simp add: coherent_def state)
  have "pd_assumption d \<noteq> AssumptionUnknown" if "d \<in> set (p_deps p)" for d
    using side [OF that] by (auto simp: side_open_def dest: resolved_known split: option.splits)
  then show "is_well_formed p head"
    using p by (auto simp: is_well_formed_def deps_match_iff coherent_def dest: arg_cong [of _ _ length])
  show "\<not> assumption_broken p s"
  proof
    assume "assumption_broken p s"
    then obtain d where d: "d \<in> set (p_deps p)" "batch_state_is_terminal (state_in s (pd_batch d))"
      "case pd_assumption d of Succeeds \<Rightarrow> state_in s (pd_batch d) \<noteq> BatchStateSucceeded
        | Fails \<Rightarrow> state_in s (pd_batch d) = BatchStateSucceeded | AssumptionUnknown \<Rightarrow> False"
      by (auto simp: assumption_broken_def list_ex_iff Let_def split: if_splits)
    with side [OF d(1)] show False
      by (cases "state_in s (pd_batch d)") (auto simp: side_open_def)
  qed
qed

lemma find_path_recorded:
  assumes "snapshot_shaped s" and "find_path (path_set_at s i) pid = Some e"
  shows "pid \<in> recorded_ids (List.map_filter (\<lambda>b. sn_path_sets s (b_id b)) (sn_in_flight s))"
proof -
  have e: "e \<in> set (ps_paths (path_set_at s i))" "e_id e = pid"
    using find_first_Some [OF assms(2) [unfolded find_path_def]] by simp_all
  then obtain ps where ps: "sn_path_sets s i = Some ps" "e \<in> set (ps_paths ps)"
    by (auto simp: path_set_at_def zero_set_def split: option.splits)
  then obtain b where "b \<in> set (sn_in_flight s)" "b_id b = i"
    using assms(1) by (force simp: snapshot_shaped_def)
  with ps e have "ps \<in> set (List.map_filter (\<lambda>b. sn_path_sets s (b_id b)) (sn_in_flight s))"
    by (force simp: List.map_filter_def)
  with ps e show ?thesis by (auto simp: recorded_ids_def)
qed

lemma filter_all_accepted:
  "(\<forall>p\<in>set props. rejection_reason sha p s = None) \<Longrightarrow> filter_proposals sha props s = (props, [])"
  by (induction props) auto

text \<open>
  C16. On such a snapshot the controller's check drops nothing the standard speculator proposes: its
  heads are known and open, its paths well formed, true to what has ended, and none on record.
\<close>

theorem standard_proposals_accepted:
  assumes "float_laws ops" and "snapshot_shaped s"
    and "standard_speculate ops poll scorer sha budget (map_values (sn_batches s))
      (List.map_filter (\<lambda>b. sn_path_sets s (b_id b)) (sn_in_flight s)) w = Some (Inr out, w')"
  shows "filter_proposals sha out s = (out, [])"
proof (rule filter_all_accepted, rule ballI)
  fix pr assume pr: "pr \<in> set out"
  let ?sets = "List.map_filter (\<lambda>b. sn_path_sets s (b_id b)) (sn_in_flight s)"
  have m: "index_shaped (sn_batches s)" using assms(2) by (simp add: snapshot_shaped_def)
  obtain its w1 n where g: "generate ops poll scorer (map_values (sn_batches s)) ?sets w = (Inr its, w1)"
    and out: "out = map build_of (take n (fresh_paths sha (recorded_ids ?sets) (drain ops its)))"
    using standard_speculate_runs [of ops poll scorer sha budget "map_values (sn_batches s)" ?sets w] assms(3) by auto
  from pr obtain p where p: "pr = build_of p" "p \<in> set (fresh_paths sha (recorded_ids ?sets) (drain ops its))"
    unfolding out by (auto dest: in_set_takeD)
  have new: "path_id sha p \<notin> recorded_ids ?sets" using p(2) by (rule fresh_paths_barred)
  have "p \<in> set (map cp_path (drain ops its))" using fresh_paths_subset [OF p(2)] by simp
  then obtain head where head: "head \<in> set (map_values (sn_batches s))" "b_state head = BatchStateSpeculating"
    and coh: "coherent (batch_by_id (map_values (sn_batches s))) head p"
    unfolding drain_set [OF assms(1) g] by blast
  obtain i where "map_of (sn_batches s) i = Some head"
    using head(1) m by (auto simp: map_values_def index_shaped_def)
  with m have known: "map_of (sn_batches s) (b_id head) = Some head" by (auto simp: index_shaped_def)
  have "find_path (path_set_at s (b_id head)) (path_id sha p) = None"
    using find_path_recorded [OF assms(2)] new by (cases "find_path (path_set_at s (b_id head)) (path_id sha p)") blast+
  then show "rejection_reason sha pr s = None"
    using known head(2) coherent_accepted [OF m coh] coh
    by (simp add: rejection_reason_def p(1) build_of_def coherent_def)
qed


section \<open>Witness\<close>

definition sample_asked :: snapshot where
  "sample_asked = \<lparr>sn_batches = map (\<lambda>b. (b_id b, b)) sample_batches, sn_in_flight = tl sample_batches,
     sn_trigger = ''3'', sn_speculating = tl sample_batches, sn_path_sets = [''2'' \<mapsto> hd sample_sets], sn_dirty = (\<lambda>_. False)\<rparr>"

lemma sample_asked_values: "map_values (sn_batches sample_asked) = sample_batches"
  by (simp add: sample_asked_def map_values_def comp_def)

lemma sample_asked_sets: "List.map_filter (\<lambda>b. sn_path_sets sample_asked (b_id b)) (sn_in_flight sample_asked) = sample_sets"
  by (simp add: sample_asked_def sample_batches_def sample_sets_def List.map_filter_def)

lemma standard_proposals_accepted_witness:
  "filter_proposals id [sample_proposal] sample_asked = ([sample_proposal], [])"
proof (rule standard_proposals_accepted [OF exact_ops_laws])
  show "snapshot_shaped sample_asked"
    by (auto simp: snapshot_shaped_def index_shaped_def sample_asked_def sample_batches_def split: if_splits)
  show "standard_speculate exact_ops (ok ()) (\<lambda>_ _. ok (Fin (3/4))) id 2 (map_values (sn_batches sample_asked))
      (List.map_filter (\<lambda>b. sn_path_sets sample_asked (b_id b)) (sn_in_flight sample_asked)) () =
    Some (Inr [sample_proposal], ())"
    unfolding sample_asked_values sample_asked_sets by (rule sample_speculate)
qed

end
