(* ===== verification/Scorers.thy ===== *)
theory Scorers
  imports BestPaths
begin

text \<open>
  The scorers that price a dependency (\<open>submitqueue/extension/speculation/scorer\<close>): the heuristic
  one (\<open>heuristic/scorer.go\<close>), the composite one (\<open>composite/scorer.go\<close>) and the evidence one
  (\<open>evidence/evidence.go\<close>), which revises another's price by what its builds have shown.  The
  resolver and the value function of the heuristic scorer are arguments; a Go map of scorers is
  the list of its values in the order the code visits them.
\<close>

section \<open>Products and quotients\<close>

definition signed_inf :: "rat \<Rightarrow> flt" where
  "signed_inf s = (if s < 0 then NegInf else if s = 0 then NaN else PosInf)"

fun flt_mul :: "float_ops \<Rightarrow> flt \<Rightarrow> flt \<Rightarrow> flt" where
  "flt_mul ops (Fin x) (Fin y) = fo_round ops (x * y)"
| "flt_mul ops NaN b = NaN"
| "flt_mul ops a NaN = NaN"
| "flt_mul ops (Fin x) PosInf = signed_inf x"
| "flt_mul ops (Fin x) NegInf = signed_inf (- x)"
| "flt_mul ops PosInf (Fin y) = signed_inf y"
| "flt_mul ops NegInf (Fin y) = signed_inf (- y)"
| "flt_mul ops PosInf b = b"
| "flt_mul ops NegInf b = flt_neg b"

fun flt_div :: "float_ops \<Rightarrow> flt \<Rightarrow> flt \<Rightarrow> flt" where
  "flt_div ops (Fin x) (Fin y) = (if y = 0 then signed_inf x else fo_round ops (x / y))"
| "flt_div ops NaN b = NaN"
| "flt_div ops a NaN = NaN"
| "flt_div ops (Fin x) b = Fin 0"
| "flt_div ops a (Fin y) = (if y < 0 then flt_neg a else a)"
| "flt_div ops a b = NaN"

section \<open>The heuristic scorer\<close>

record bucket =
  bk_min :: int
  bk_max :: int
  bk_score :: flt

definition heuristic_score ::
  "(batch \<Rightarrow> ('w, goerr, 'c) act) \<Rightarrow> ('c \<Rightarrow> ('w, goerr, int) act) \<Rightarrow> bucket list \<Rightarrow> 'w scorer" where
  "heuristic_score resolve value_of buckets b paths =
     and_then (resolve b) (\<lambda>changes.
     and_then (value_of changes) (\<lambda>v.
     case find_first (\<lambda>bk. bk_min bk \<le> v \<and> v \<le> bk_max bk) buckets of
       Some bk \<Rightarrow> ok (bk_score bk)
     | None \<Rightarrow> fail (Plain ''no bucket matches value'')))"

section \<open>The composite scorer\<close>

definition min_score :: "flt list \<Rightarrow> flt" where
  "min_score vs = (case vs of [] \<Rightarrow> Fin 0 | v # vs \<Rightarrow> foldl (\<lambda>m v. if flt_lt v m then v else m) v vs)"

definition max_score :: "flt list \<Rightarrow> flt" where
  "max_score vs = (case vs of [] \<Rightarrow> Fin 0 | v # vs \<Rightarrow> foldl (\<lambda>m v. if flt_lt m v then v else m) v vs)"

definition avg_score :: "float_ops \<Rightarrow> flt list \<Rightarrow> flt" where
  "avg_score ops vs = flt_div ops (foldl (flt_add ops) (Fin 0) vs) (Fin (of_nat (length vs)))"

definition composite_score :: "'w scorer list \<Rightarrow> (flt list \<Rightarrow> flt) \<Rightarrow> 'w scorer" where
  "composite_score scorers reduce b paths =
     and_then (fold_act (\<lambda>s scores. and_then (s b paths) (\<lambda>v. ok (scores @ [v]))) scorers []) (\<lambda>scores.
     ok (reduce scores))"

section \<open>The evidence scorer\<close>

record factors =
  fa_path_passed :: flt
  fa_path_failed :: flt
  fa_landing :: flt
  fa_cancelling :: flt

definition factor_ok :: "flt \<Rightarrow> bool" where
  "factor_ok f \<longleftrightarrow> flt_lt (Fin 0) f \<and> f \<noteq> PosInf"

text \<open>The check \<open>New\<close> makes of its factors.\<close>

definition new_evidence :: "factors \<Rightarrow> goerr + factors" where
  "new_evidence fs =
     (if list_all factor_ok [fa_path_passed fs, fa_path_failed fs, fa_landing fs, fa_cancelling fs] then Inr fs
      else Inl (Plain ''factor must be finite and positive''))"

definition epsilon :: "float_ops \<Rightarrow> flt" where
  "epsilon ops = fo_round ops (1/1000000)"

definition one_less_epsilon :: "float_ops \<Rightarrow> flt" where
  "one_less_epsilon ops = fo_round ops (999999/1000000)"

definition clamp :: "float_ops \<Rightarrow> flt \<Rightarrow> flt" where
  "clamp ops v = flt_min (flt_max v (epsilon ops)) (one_less_epsilon ops)"

definition revise :: "float_ops \<Rightarrow> flt \<Rightarrow> flt \<Rightarrow> flt" where
  "revise ops price factor =
     (if factor = PosInf then one_less_epsilon ops
      else clamp ops (flt_div ops (flt_mul ops price factor)
        (flt_add ops (flt_sub ops (Fin 1) price) (flt_mul ops price factor))))"

definition assumes_all_succeed :: "path \<Rightarrow> bool" where
  "assumes_all_succeed p = list_all (\<lambda>d. pd_assumption d = Succeeds) (p_deps p)"

definition has_passed_all_succeed_path :: "path_set \<Rightarrow> bool" where
  "has_passed_all_succeed_path ps = list_ex (\<lambda>e. e_status e = PathPassed \<and> assumes_all_succeed (e_path e)) (ps_paths ps)"

definition has_failed_all_succeed_path :: "path_set \<Rightarrow> bool" where
  "has_failed_all_succeed_path ps = list_ex (\<lambda>e. e_status e = PathFailed \<and> assumes_all_succeed (e_path e)) (ps_paths ps)"

definition combined_factor :: "float_ops \<Rightarrow> factors \<Rightarrow> batch \<Rightarrow> path_set \<Rightarrow> flt" where
  "combined_factor ops fs b paths =
     (let f = Fin 1;
          f = (if has_passed_all_succeed_path paths then flt_mul ops f (fa_path_passed fs) else f);
          f = (if has_failed_all_succeed_path paths then flt_mul ops f (fa_path_failed fs) else f)
      in case b_state b of
           BatchStateLanding \<Rightarrow> flt_mul ops f (fa_landing fs)
         | BatchStateCancelling \<Rightarrow> flt_mul ops f (fa_cancelling fs)
         | _ \<Rightarrow> f)"

definition evidence_score :: "float_ops \<Rightarrow> 'w scorer \<Rightarrow> factors \<Rightarrow> 'w scorer" where
  "evidence_score ops base fs b paths =
     and_then (base b paths) (\<lambda>price.
     if \<not> (flt_le (Fin 0) price \<and> flt_le price (Fin 1)) then fail (Plain ''base score is not a probability'')
     else let factor = combined_factor ops fs b paths in
       if flt_eq factor (Fin 1) then ok price else ok (revise ops (clamp ops price) factor))"

section \<open>Prices stay probabilities\<close>

lemma epsilons:
  assumes "float_laws ops"
  obtains e f where "epsilon ops = Fin e" "one_less_epsilon ops = Fin f" "0 \<le> e" "e \<le> 1/2" "1/2 \<le> f" "f \<le> 1"
proof -
  have "flt_le (Fin 0) (epsilon ops)" "flt_le (epsilon ops) (Fin (1/2))"
    "flt_le (Fin (1/2)) (one_less_epsilon ops)" "flt_le (one_less_epsilon ops) (Fin 1)"
    using round_mono [OF assms, of 0 "1/1000000"] round_mono [OF assms, of "1/1000000" "1/2"]
      round_mono [OF assms, of "1/2" "999999/1000000"] round_mono [OF assms, of "999999/1000000" 1] assms
    by (simp_all add: epsilon_def one_less_epsilon_def float_laws_def)
  then show thesis
    using that by (cases "epsilon ops"; cases "one_less_epsilon ops") (auto simp: flt_le_def flt_eq_def)
qed

lemma clamp_probability:
  assumes "float_laws ops" and "v \<noteq> NaN"
  shows "is_probability (clamp ops v)"
proof -
  obtain e f where "epsilon ops = Fin e" "one_less_epsilon ops = Fin f" "0 \<le> e" "e \<le> 1/2" "1/2 \<le> f" "f \<le> 1"
    by (rule epsilons [OF assms(1)])
  then show ?thesis
    using assms(2) by (cases v) (auto simp: clamp_def flt_max_def flt_min_def is_probability_def)
qed

lemma probability_cases: "is_probability p \<Longrightarrow> \<exists>x. p = Fin x \<and> 0 \<le> x \<and> x \<le> 1"
  by (cases p) (auto simp: is_probability_def flt_le_def flt_eq_def)

lemma factor_round: "float_laws ops \<Longrightarrow> 0 \<le> x \<Longrightarrow> fo_round ops x = PosInf \<or> (\<exists>y\<ge>0. fo_round ops x = Fin y)"
  using round_mono [of ops 0 x] by (cases "fo_round ops x") (auto simp: float_laws_def flt_le_def flt_eq_def)

text \<open>
  A factor is zero, positive or plus infinity; sub-normal products round to zero.  The clamped price
  stays off 1 because \<open>2 ^ -20\<close> and its complement are themselves \<open>float64\<close> values.
\<close>

definition is_float :: "float_ops \<Rightarrow> flt \<Rightarrow> bool" where
  "is_float ops f \<longleftrightarrow> (case f of Fin y \<Rightarrow> fo_round ops y = Fin y | _ \<Rightarrow> True)"

definition fine_rounding :: "float_ops \<Rightarrow> bool" where
  "fine_rounding ops \<longleftrightarrow> fo_round ops (1/1048576) = Fin (1/1048576) \<and> fo_round ops (1048575/1048576) = Fin (1048575/1048576)"

definition floats_in :: "float_ops \<Rightarrow> factors \<Rightarrow> bool" where
  "floats_in ops fs \<longleftrightarrow> list_all (is_float ops) [fa_path_passed fs, fa_path_failed fs, fa_landing fs, fa_cancelling fs]"

definition factor_range :: "float_ops \<Rightarrow> flt \<Rightarrow> bool" where
  "factor_range ops f \<longleftrightarrow> f = PosInf \<or> (\<exists>y\<ge>0. f = Fin y \<and> fo_round ops y = Fin y)"

lemma round_range: "float_laws ops \<Longrightarrow> 0 \<le> x \<Longrightarrow> factor_range ops (fo_round ops x)"
  using factor_round [of ops x] by (auto simp: factor_range_def float_laws_def)

lemma factor_range_mul:
  assumes "float_laws ops" and "factor_range ops f" and "factor_ok g" and "is_float ops g"
  shows "factor_range ops (flt_mul ops f g)"
proof -
  obtain y where g: "g = Fin y" "0 < y" using assms(3) by (cases g) (auto simp: factor_ok_def)
  from assms(2) consider "f = PosInf" | x where "f = Fin x" "0 \<le> x" by (auto simp: factor_range_def)
  then show ?thesis
  proof cases
    case 1
    with g show ?thesis by (simp add: factor_range_def signed_inf_def)
  next
    case 2
    with g round_range [OF assms(1), of "x * y"] show ?thesis by simp
  qed
qed

lemma combined_factor_range:
  assumes "float_laws ops" and "new_evidence fs0 = Inr fs" and "floats_in ops fs"
  shows "factor_range ops (combined_factor ops fs b paths)"
proof -
  have ok: "factor_ok (fa_path_passed fs)" "factor_ok (fa_path_failed fs)" "factor_ok (fa_landing fs)" "factor_ok (fa_cancelling fs)"
    using assms(2) by (auto simp: new_evidence_def split: if_splits)
  have one: "factor_range ops (Fin 1)" using assms(1) by (auto simp: factor_range_def float_laws_def)
  show ?thesis
    using ok one assms(3) factor_range_mul [OF assms(1)]
    by (auto simp: combined_factor_def Let_def floats_in_def split: batch_state.splits)
qed

lemma revise_finite:
  assumes laws: "float_laws ops" and fine: "fine_rounding ops" and p: "is_probability price" and f: "factor_range ops factor"
    and finite: "factor \<noteq> PosInf"
  shows "is_probability (revise ops (clamp ops price) factor)"
proof -
  obtain e f where eps: "epsilon ops = Fin e" "one_less_epsilon ops = Fin f" "0 \<le> e" "e \<le> 1/2" "1/2 \<le> f" "f \<le> 1"
    by (rule epsilons [OF laws])
  obtain y where y: "factor = Fin y" "0 \<le> y" "fo_round ops y = Fin y" using \<open>factor_range ops factor\<close> finite by (auto simp: factor_range_def)
  obtain v where v: "price = Fin v" "0 \<le> v" "v \<le> 1" using probability_cases [OF p] by blast
  obtain x where x: "clamp ops price = Fin x" "0 \<le> x" "x \<le> 1"
    using probability_cases [OF clamp_probability [OF laws, of price]] v by auto
  have "flt_le (one_less_epsilon ops) (Fin (1048575/1048576))"
    using round_mono [OF laws, of "999999/1000000" "1048575/1048576"] fine by (simp add: one_less_epsilon_def fine_rounding_def)
  moreover have "flt_le (clamp ops price) (one_less_epsilon ops)"
    using eps v by (auto simp: clamp_def flt_max_def flt_min_def)
  ultimately have "flt_le (Fin x) (Fin (1048575/1048576))" using x(1) flt_le_trans by metis
  then have "x \<le> 1048575/1048576" by simp
  then have "flt_le (Fin (1/1048576)) (fo_round ops (1 - x))"
    using round_mono [OF laws, of "1/1048576" "1 - x"] fine by (simp add: fine_rounding_def)
  moreover have "flt_le (fo_round ops (1 - x)) (Fin 1)"
    using round_mono [OF laws, of "1 - x" 1] x laws by (simp add: float_laws_def)
  ultimately obtain q where q: "fo_round ops (1 - x) = Fin q" "0 < q"
    by (cases "fo_round ops (1 - x)") (auto simp: flt_le_def flt_eq_def)
  have "x * y \<le> y" using x y by (simp add: mult_left_le_one_le)
  then have "flt_le (fo_round ops (x * y)) (Fin y)" using round_mono [OF laws, of "x * y" y] y by simp
  with factor_round [OF laws, of "x * y"] x y obtain m where m: "fo_round ops (x * y) = Fin m" "0 \<le> m"
    by (auto simp: flt_le_def flt_eq_def)
  have "fo_round ops q = Fin q" using q laws by (auto simp: float_laws_def)
  with round_mono [OF laws, of q "q + m"] m have "flt_le (Fin q) (fo_round ops (q + m))" by simp
  with factor_round [OF laws, of "q + m"] q m
  consider "fo_round ops (q + m) = PosInf" | d where "fo_round ops (q + m) = Fin d" "0 < d" by auto
  then have "flt_div ops (Fin m) (fo_round ops (q + m)) \<noteq> NaN"
  proof cases
    case (2 d)
    with factor_round [OF laws, of "m / d"] m show ?thesis by auto
  qed simp
  with clamp_probability [OF laws] x y q m show ?thesis by (simp add: revise_def flt_sub_def)
qed

lemma revise_probability:
  assumes laws: "float_laws ops" and fine: "fine_rounding ops" and p: "is_probability price" and f: "factor_range ops factor"
  shows "is_probability (revise ops (clamp ops price) factor)"
proof -
  obtain e f where eps: "epsilon ops = Fin e" "one_less_epsilon ops = Fin f" "0 \<le> e" "e \<le> 1/2" "1/2 \<le> f" "f \<le> 1"
    by (rule epsilons [OF laws])
  show ?thesis
  proof (cases "factor = PosInf")
    case True
    with eps show ?thesis by (simp add: revise_def is_probability_def)
  next
    case False
    from revise_finite [OF laws fine p f this] show ?thesis .
  qed
qed
text \<open>
  C17. The price an evidence scorer returns is a probability, whatever the base price it revises and
  however its factors combine - overflow and underflow of the product included.
\<close>

theorem evidence_score_probability:
  assumes "float_laws ops" and "fine_rounding ops" and "new_evidence fs0 = Inr fs" and "floats_in ops fs"
    and "evidence_score ops base fs b paths w = (Inr p, w')"
  shows "is_probability p"
proof -
  from assms(5) obtain price where "is_probability price"
    and "p = price \<or> p = revise ops (clamp ops price) (combined_factor ops fs b paths)"
    by (auto simp: evidence_score_def Let_def ok_apply fail_apply is_probability_def split: if_splits elim!: and_then_Inr)
  with revise_probability [OF assms(1,2) _ combined_factor_range [OF assms(1,3,4)]] show ?thesis by auto
qed

definition sample_factors :: factors where
  "sample_factors = \<lparr>fa_path_passed = Fin 4, fa_path_failed = Fin (1/4), fa_landing = Fin 2, fa_cancelling = Fin (1/8)\<rparr>"

lemma evidence_score_probability_witness:
  "is_probability (revise exact_ops (clamp exact_ops (Fin (3/4))) (Fin 2))"
proof (rule evidence_score_probability [OF exact_ops_laws])
  show "fine_rounding exact_ops" by (simp add: fine_rounding_def exact_ops_def)
  show "new_evidence sample_factors = Inr sample_factors"
    by (simp add: new_evidence_def sample_factors_def factor_ok_def)
  show "floats_in exact_ops sample_factors"
    by (simp add: floats_in_def sample_factors_def is_float_def exact_ops_def)
  show "evidence_score exact_ops (\<lambda>_ _. ok (Fin (3/4))) sample_factors (zero_batch\<lparr>b_state := BatchStateLanding\<rparr>) zero_set ()
      = (Inr (revise exact_ops (clamp exact_ops (Fin (3/4))) (Fin 2)), ())"
    by (simp add: evidence_score_def ok_apply combined_factor_def has_passed_all_succeed_path_def
        has_failed_all_succeed_path_def zero_set_def sample_factors_def flt_eq_def Let_def exact_ops_def)
qed

end
