(* ===== verification/QueueStore.thy ===== *)
theory QueueStore
  imports Publish "HOL-Library.Char_ord" "HOL-Library.List_Lexorder" "HOL-Library.Product_Lexorder"
begin

text \<open>
  The tables of the message queue (\<open>platform/extension/messagequeue/mysql\<close>) and the statements its
  five stores send: \<open>message_store.go\<close>, \<open>offset_store.go\<close>, \<open>delivery_state_store.go\<close>,
  \<open>partition_lease_store.go\<close>, \<open>subscriber_heartbeat_store.go\<close>.  Each statement is one atomic
  function on the tables and one call of a subscriber's process.  A row that a transaction has
  inserted and not committed is in \<open>q_uncommitted\<close>: it has its AUTO_INCREMENT offset, no query sees
  it, and an insert of its key by another transaction waits for it, until the wait times out.
  JSON columns hold the values they encode, timestamps and offsets are unbounded.
\<close>

section \<open>Tables\<close>

record part =
  pt_tenant :: string
  pt_topic :: string
  pt_key :: string

type_synonym failure_columns = "subject list \<times> (string \<times> detail) list"

record message_row =
  mr_part :: part
  mr_offset :: nat
  mr_msg_id :: string
  mr_payload :: payload
  mr_metadata :: metadata
  mr_created_at :: int
  mr_published_at :: int
  mr_failed_at :: int
  mr_failure_count :: int
  mr_last_error :: string
  mr_original_topic :: string
  mr_failure_detail :: "failure_columns option"

record delivery_state =
  ds_acked :: bool
  ds_invisible_until :: int
  ds_retry_count :: int
  ds_postponed :: bool

record offset_row =
  of_part :: part
  of_group :: string
  of_acked :: nat

record lease_row =
  le_part :: part
  le_group :: string
  le_by :: string
  le_at :: int
  le_renewed_at :: int

record heartbeat_row =
  hb_tenant :: string
  hb_group :: string
  hb_topic :: string
  hb_name :: string
  hb_at :: int
  hb_deregistered_at :: int

type_synonym delivery_key = "string \<times> part \<times> nat"

record qdb =
  q_rows :: "message_row list"
  q_uncommitted :: "(nat \<times> message_row) list"
  q_next_offset :: nat
  q_next_tx :: nat
  q_delivery :: "delivery_key \<rightharpoonup> delivery_state"
  q_offsets :: "offset_row list"
  q_leases :: "lease_row list"
  q_heartbeats :: "heartbeat_row list"
  q_acks :: "delivery_key set"
  q_dead :: "(part \<times> string) set"

text \<open>
  \<open>q_acks\<close> and \<open>q_dead\<close> are auxiliary variables of the proofs, no column holds them and no statement
  reads them: the deliveries some group has acknowledged so far, and the messages copied to a
  dead-letter topic so far.  The tables forget both.
\<close>

text \<open>A process of the queue: the shared tables, its clock, and what it handed to its consumer.\<close>

record qworld = "qdb store_world" +
  qw_clock :: "nat \<Rightarrow> int"
  qw_ticks :: nat

type_synonym ('m, 'a) qop = "('m qworld_scheme, goerr, 'a) act"

definition q_now :: "('m, int) qop" where
  "q_now w = (Inr (qw_clock w (qw_ticks w)), w\<lparr>qw_ticks := Suc (qw_ticks w)\<rparr>)"

text \<open>A call that changes and returns nothing, such as opening a transaction on a quiet server.\<close>

definition ping :: "('m, unit) qop" where
  "ping = db_op (\<lambda>d. (Inr (), d))"

section \<open>Messages\<close>

definition same_row_key :: "part \<Rightarrow> string \<Rightarrow> message_row \<Rightarrow> bool" where
  "same_row_key p i m \<longleftrightarrow> mr_part m = p \<and> mr_msg_id m = i"

definition begin_tx :: "qdb \<Rightarrow> (goerr + nat) \<times> qdb" where
  "begin_tx d = (Inr (q_next_tx d), d\<lparr>q_next_tx := Suc (q_next_tx d)\<rparr>)"

text \<open>
  \<open>INSERT ... ON DUPLICATE KEY UPDATE topic = topic\<close> inside transaction \<open>tx\<close>.  The offset is taken
  whether or not the row turns out to be a duplicate.
\<close>

definition insert_stmt :: "nat \<Rightarrow> message_row \<Rightarrow> qdb \<Rightarrow> (goerr + unit) \<times> qdb" where
  "insert_stmt tx m d =
     (let d' = d\<lparr>q_next_offset := Suc (q_next_offset d)\<rparr>;
          same = same_row_key (mr_part m) (mr_msg_id m) in
      if list_ex (\<lambda>(t, r). t \<noteq> tx \<and> same r) (q_uncommitted d) then (Inl (Plain ''lock wait timeout exceeded''), d')
      else if list_ex same (q_rows d) \<or> list_ex (\<lambda>(t, r). same r) (q_uncommitted d) then (Inr (), d')
      else (Inr (), d'\<lparr>q_uncommitted := q_uncommitted d @ [(tx, m\<lparr>mr_offset := q_next_offset d\<rparr>)]\<rparr>))"

definition commit_tx :: "nat \<Rightarrow> qdb \<Rightarrow> (goerr + unit) \<times> qdb" where
  "commit_tx tx d = (Inr (), d\<lparr>q_rows := q_rows d @ map snd (filter (\<lambda>(t, r). t = tx) (q_uncommitted d)),
     q_uncommitted := filter (\<lambda>(t, r). t \<noteq> tx) (q_uncommitted d)\<rparr>)"

definition rollback_tx :: "nat \<Rightarrow> qdb \<Rightarrow> qdb" where
  "rollback_tx tx d = d\<lparr>q_uncommitted := filter (\<lambda>(t, r). t \<noteq> tx) (q_uncommitted d)\<rparr>"

text \<open>The row an accepted message becomes; its offset is assigned by the statement.\<close>

definition row_of :: "string \<Rightarrow> string \<Rightarrow> message \<Rightarrow> int \<Rightarrow> message_row" where
  "row_of tenant topic m now = \<lparr>mr_part = \<lparr>pt_tenant = tenant, pt_topic = topic, pt_key = m_partition m\<rparr>, mr_offset = 0,
     mr_msg_id = m_id m, mr_payload = m_payload m, mr_metadata = m_metadata m, mr_created_at = now,
     mr_published_at = m_published_at m, mr_failed_at = 0, mr_failure_count = 0, mr_last_error = [],
     mr_original_topic = [], mr_failure_detail = None\<rparr>"

definition insert_one :: "nat \<Rightarrow> string \<Rightarrow> string \<Rightarrow> int \<Rightarrow> message \<Rightarrow> ('m, unit) qop" where
  "insert_one tx tenant topic now m =
     (let row_tenant = (if tenant = [] then m_tenant m else tenant) in
      if row_tenant = [] then fail (Plain ''tenant is required'')
      else if m_tenant m \<noteq> [] \<and> m_tenant m \<noteq> row_tenant then fail (Plain ''message tenant does not match'')
      else and_then (map_err (Wrapped ''insert message'') (of_sum (validate_tenant_metadata (m\<lparr>m_tenant := row_tenant\<rparr>)))) (\<lambda>_.
        map_err (Wrapped ''insert message'') (db_op (insert_stmt tx (row_of row_tenant topic m now)))))"

text \<open>The deferred \<open>tx.Rollback()\<close>: the server drops what an ended transaction left behind.\<close>

definition rolled_back :: "nat \<Rightarrow> ('m, 'a) qop \<Rightarrow> ('m, 'a) qop" where
  "rolled_back tx m = (\<lambda>w. case m w of (r, w') \<Rightarrow> (r, w'\<lparr>w_db := rollback_tx tx (w_db w')\<rparr>))"

definition message_insert :: "string \<Rightarrow> string \<Rightarrow> message list \<Rightarrow> ('m, unit) qop" where
  "message_insert tenant topic msgs =
     (if msgs = [] then ok ()
      else and_then (map_err (Wrapped ''begin transaction'') (db_op begin_tx)) (\<lambda>tx.
        rolled_back tx (and_then (map_err (Wrapped ''prepare statement'') ping) (\<lambda>_.
        and_then q_now (\<lambda>now.
        and_then (for_each (insert_one tx tenant topic now) msgs) (\<lambda>_.
        map_err (Wrapped ''commit transaction'') (db_op (commit_tx tx))))))))"

definition rows_above :: "part \<Rightarrow> nat \<Rightarrow> nat \<Rightarrow> qdb \<Rightarrow> message_row list" where
  "rows_above p cur limit d = take limit (sort_key mr_offset (filter (\<lambda>m. mr_part m = p \<and> mr_offset m > cur) (q_rows d)))"

definition fetch_by_offset :: "part \<Rightarrow> nat \<Rightarrow> nat \<Rightarrow> ('m, message_row list) qop" where
  "fetch_by_offset p cur limit = map_err (Wrapped ''query messages'') (db_op (\<lambda>d. (Inr (rows_above p cur limit d), d)))"

definition get_offsets_above :: "part \<Rightarrow> nat \<Rightarrow> nat \<Rightarrow> ('m, nat list) qop" where
  "get_offsets_above p after limit =
     map_err (Wrapped ''query offsets'') (db_op (\<lambda>d. (Inr (map mr_offset (rows_above p after limit d)), d)))"

definition gc_stmt :: "part \<Rightarrow> nat \<Rightarrow> qdb \<Rightarrow> (goerr + unit) \<times> qdb" where
  "gc_stmt p most d = (Inr (), d\<lparr>q_rows := filter (\<lambda>m. \<not> (mr_part m = p \<and> mr_offset m \<le> most)) (q_rows d)\<rparr>)"

definition message_gc :: "part \<Rightarrow> nat \<Rightarrow> ('m, unit) qop" where
  "message_gc p min_acked =
     (if min_acked = 0 then ok () else map_err (Wrapped ''garbage collect messages'') (db_op (gc_stmt p min_acked)))"

text \<open>
  \<open>MoveToDLQ\<close>: \<open>failure.Encode\<close> keeps no structure when there is none and fails on a detail JSON cannot
  write; \<open>failure.Decode\<close> reads the numbers of a detail as \<open>float64\<close>.  The insert has no duplicate
  clause; insert, delete and commit are one step, since nothing sees them before the commit.
\<close>

definition encode_failure :: "failure \<Rightarrow> goerr + failure_columns option" where
  "encode_failure f =
     (if f_subjects f = [] \<and> f_detail f = [] then Inr None
      else if \<not> json_writes (Node (f_detail f)) then Inl (Plain ''json: unsupported value'')
      else Inr (Some (f_subjects f, f_detail f)))"

definition decode_failure :: "failure_columns option \<Rightarrow> string \<Rightarrow> failure" where
  "decode_failure c message = (case c of
     None \<Rightarrow> \<lparr>f_message = message, f_subjects = [], f_detail = []\<rparr>
   | Some (ss, det) \<Rightarrow> \<lparr>f_message = message, f_subjects = ss, f_detail = json_map det\<rparr>)"

definition dlq_row :: "message_row \<Rightarrow> nat \<Rightarrow> int \<Rightarrow> int \<Rightarrow> string \<Rightarrow> failure_columns option \<Rightarrow> string \<Rightarrow> message_row" where
  "dlq_row m off now fails text columns suffix = m\<lparr>mr_part := (mr_part m)\<lparr>pt_topic := pt_topic (mr_part m) @ suffix\<rparr>, mr_offset := off,
     mr_failed_at := now, mr_failure_count := fails, mr_last_error := text,
     mr_original_topic := pt_topic (mr_part m), mr_failure_detail := columns\<rparr>"

definition find_message :: "part \<Rightarrow> string \<Rightarrow> qdb \<Rightarrow> message_row option" where
  "find_message p i d = find_first (same_row_key p i) (q_rows d)"

definition dlq_stmt :: "message_row \<Rightarrow> int \<Rightarrow> int \<Rightarrow> string \<Rightarrow> failure_columns option \<Rightarrow> string \<Rightarrow> qdb \<Rightarrow> (goerr + unit) \<times> qdb" where
  "dlq_stmt m now fails text columns suffix d =
     (let r = dlq_row m (q_next_offset d) now fails text columns suffix; d' = d\<lparr>q_next_offset := Suc (q_next_offset d)\<rparr> in
      if list_ex (same_row_key (mr_part r) (mr_msg_id r)) (q_rows d @ map snd (q_uncommitted d)) then (Inl ErrAlreadyExists, d')
      else (Inr (), d'\<lparr>q_rows := filter (\<lambda>x. \<not> same_row_key (mr_part m) (mr_msg_id m) x) (q_rows d) @ [r],
        q_dead := insert (mr_part m, mr_msg_id m) (q_dead d)\<rparr>))"

definition move_to_dlq :: "part \<Rightarrow> string \<Rightarrow> int \<Rightarrow> failure \<Rightarrow> string \<Rightarrow> ('m, unit) qop" where
  "move_to_dlq p i fails f suffix =
     and_then (map_err (Wrapped ''encode failure detail'') (of_sum (encode_failure f))) (\<lambda>columns.
     and_then (map_err (Wrapped ''begin transaction'') ping) (\<lambda>_.
     and_then (map_err (Wrapped ''fetch message for DLQ'') (db_op (\<lambda>d. (Inr (find_message p i d), d)))) (\<lambda>found.
     case found of
       None \<Rightarrow> ok ()
     | Some m \<Rightarrow>
         and_then q_now (\<lambda>now.
         map_err (Wrapped ''insert into DLQ'') (db_op (dlq_stmt m now fails (f_message f) columns suffix))))))"

section \<open>Offsets\<close>

definition offset_of :: "part \<Rightarrow> string \<Rightarrow> qdb \<Rightarrow> nat option" where
  "offset_of p g d = map_option of_acked (find_first (\<lambda>r. of_part r = p \<and> of_group r = g) (q_offsets d))"

definition offset_init_stmt :: "part \<Rightarrow> string \<Rightarrow> qdb \<Rightarrow> (goerr + unit) \<times> qdb" where
  "offset_init_stmt p g d = (Inr (), if offset_of p g d \<noteq> None then d
     else d\<lparr>q_offsets := q_offsets d @ [\<lparr>of_part = p, of_group = g, of_acked = 0\<rparr>]\<rparr>)"

definition offset_initialize :: "part \<Rightarrow> string \<Rightarrow> ('m, unit) qop" where
  "offset_initialize p g = map_err (Wrapped ''initialize offset'') (db_op (offset_init_stmt p g))"

definition get_acked_offset :: "part \<Rightarrow> string \<Rightarrow> ('m, nat) qop" where
  "get_acked_offset p g = map_err (Wrapped ''get acked offset'')
     (db_op (\<lambda>d. (Inr (case offset_of p g d of None \<Rightarrow> 0 | Some n \<Rightarrow> n), d)))"

definition offset_update_stmt :: "part \<Rightarrow> string \<Rightarrow> nat \<Rightarrow> qdb \<Rightarrow> (goerr + unit) \<times> qdb" where
  "offset_update_stmt p g n d = (Inr (), d\<lparr>q_offsets :=
     map (\<lambda>r. if of_part r = p \<and> of_group r = g \<and> of_acked r < n then r\<lparr>of_acked := n\<rparr> else r) (q_offsets d)\<rparr>)"

definition update_acked_offset :: "part \<Rightarrow> string \<Rightarrow> nat \<Rightarrow> ('m, unit) qop" where
  "update_acked_offset p g n = map_err (Wrapped ''update acked offset'') (db_op (offset_update_stmt p g n))"

text \<open>\<open>COALESCE(MIN(offset_acked), 0)\<close>, 0 read as not found.\<close>

definition min_acked :: "part \<Rightarrow> qdb \<Rightarrow> nat" where
  "min_acked p d = (case map of_acked (filter (\<lambda>r. of_part r = p) (q_offsets d)) of
     [] \<Rightarrow> 0 | n # ns \<Rightarrow> foldl min n ns)"

definition get_min_acked_offset :: "part \<Rightarrow> ('m, nat option) qop" where
  "get_min_acked_offset p = map_err (Wrapped ''query min acked offset'')
     (db_op (\<lambda>d. (Inr (let n = min_acked p d in if n = 0 then None else Some n), d)))"

definition offset_delete_stmt :: "part \<Rightarrow> string \<Rightarrow> qdb \<Rightarrow> (goerr + unit) \<times> qdb" where
  "offset_delete_stmt p g d =
     (Inr (), d\<lparr>q_offsets := filter (\<lambda>r. \<not> (of_part r = p \<and> of_group r = g)) (q_offsets d)\<rparr>)"

definition delete_offset :: "part \<Rightarrow> string \<Rightarrow> ('m, unit) qop" where
  "delete_offset p g = map_err (Wrapped ''delete offset'') (db_op (offset_delete_stmt p g))"

section \<open>Delivery state\<close>

definition mark_delivered_stmt :: "delivery_key \<Rightarrow> int \<Rightarrow> qdb \<Rightarrow> (goerr + unit) \<times> qdb" where
  "mark_delivered_stmt k invisible d = (Inr (), d\<lparr>q_delivery := (q_delivery d)(k \<mapsto>
     (case q_delivery d k of
        None \<Rightarrow> \<lparr>ds_acked = False, ds_invisible_until = invisible, ds_retry_count = 0, ds_postponed = False\<rparr>
      | Some s \<Rightarrow> if ds_acked s then s
          else s\<lparr>ds_invisible_until := invisible,
            ds_retry_count := (if ds_postponed s then ds_retry_count s else ds_retry_count s + 1),
            ds_postponed := False\<rparr>))\<rparr>)"

definition retry_count_stmt :: "delivery_key \<Rightarrow> qdb \<Rightarrow> (goerr + int) \<times> qdb" where
  "retry_count_stmt k d = (case q_delivery d k of None \<Rightarrow> Inl ErrNotFound | Some s \<Rightarrow> Inr (ds_retry_count s), d)"

definition mark_delivered :: "delivery_key \<Rightarrow> int \<Rightarrow> ('m, int) qop" where
  "mark_delivered k timeout =
     and_then q_now (\<lambda>now.
     and_then (map_err (Wrapped ''mark delivered'') (db_op (mark_delivered_stmt k (now + timeout)))) (\<lambda>_.
     map_err (Wrapped ''get retry count after mark delivered'') (db_op (retry_count_stmt k))))"

definition extend_stmt :: "delivery_key \<Rightarrow> int \<Rightarrow> qdb \<Rightarrow> (goerr + unit) \<times> qdb" where
  "extend_stmt k invisible d = (Inr (), case q_delivery d k of
     None \<Rightarrow> d
   | Some s \<Rightarrow> if ds_acked s then d else d\<lparr>q_delivery := (q_delivery d)(k \<mapsto> s\<lparr>ds_invisible_until := invisible\<rparr>)\<rparr>)"

definition extend_visibility :: "delivery_key \<Rightarrow> int \<Rightarrow> ('m, unit) qop" where
  "extend_visibility k timeout =
     and_then q_now (\<lambda>now. map_err (Wrapped ''extend visibility'') (db_op (extend_stmt k (now + timeout))))"

definition mark_acked_stmt :: "delivery_key \<Rightarrow> qdb \<Rightarrow> (goerr + unit) \<times> qdb" where
  "mark_acked_stmt k d = (Inr (), d\<lparr>q_delivery := (q_delivery d)(k \<mapsto>
     (case q_delivery d k of
        None \<Rightarrow> \<lparr>ds_acked = True, ds_invisible_until = 0, ds_retry_count = 0, ds_postponed = False\<rparr>
      | Some s \<Rightarrow> s\<lparr>ds_acked := True\<rparr>)), q_acks := insert k (q_acks d)\<rparr>)"

definition mark_acked :: "delivery_key \<Rightarrow> ('m, unit) qop" where
  "mark_acked k = map_err (Wrapped ''mark acked'') (db_op (mark_acked_stmt k))"

definition max_retry_backoff_ms :: int where
  "max_retry_backoff_ms = 60000"

definition mark_nacked_stmt :: "delivery_key \<Rightarrow> int \<Rightarrow> qdb \<Rightarrow> (goerr + unit) \<times> qdb" where
  "mark_nacked_stmt k invisible d = (Inr (), d\<lparr>q_delivery := (q_delivery d)(k \<mapsto>
     (case q_delivery d k of
        None \<Rightarrow> \<lparr>ds_acked = False, ds_invisible_until = invisible, ds_retry_count = 0, ds_postponed = False\<rparr>
      | Some s \<Rightarrow> if ds_acked s then s else s\<lparr>ds_invisible_until := invisible\<rparr>))\<rparr>)"

definition mark_nacked :: "delivery_key \<Rightarrow> int \<Rightarrow> ('m, unit) qop" where
  "mark_nacked k delay =
     (if delay < 0 \<or> delay > max_retry_backoff_ms then fail (Plain ''mark nacked: retry delay is out of range'')
      else and_then q_now (\<lambda>now. map_err (Wrapped ''mark nacked'') (db_op (mark_nacked_stmt k (now + delay)))))"

definition mark_postponed_stmt :: "delivery_key \<Rightarrow> int \<Rightarrow> qdb \<Rightarrow> (goerr + unit) \<times> qdb" where
  "mark_postponed_stmt k invisible d = (Inr (), d\<lparr>q_delivery := (q_delivery d)(k \<mapsto>
     (case q_delivery d k of
        None \<Rightarrow> \<lparr>ds_acked = False, ds_invisible_until = invisible, ds_retry_count = 0, ds_postponed = True\<rparr>
      | Some s \<Rightarrow> if ds_acked s then s
          else s\<lparr>ds_invisible_until := invisible, ds_retry_count := 0, ds_postponed := True\<rparr>))\<rparr>)"

definition mark_postponed :: "delivery_key \<Rightarrow> int \<Rightarrow> ('m, unit) qop" where
  "mark_postponed k delay =
     and_then q_now (\<lambda>now. map_err (Wrapped ''mark postponed'') (db_op (mark_postponed_stmt k (now + delay))))"

definition get_delivery_state :: "delivery_key \<Rightarrow> ('m, delivery_state option) qop" where
  "get_delivery_state k = map_err (Wrapped ''get delivery state'') (db_op (\<lambda>d. (Inr (q_delivery d k), d)))"

text \<open>
  \<open>AdvanceWatermark\<close>: the acked flags of the given offsets are read at once, the walk stops at the
  first offset not acked, and a failed cleanup is only logged.
\<close>

fun walk_acked :: "(nat \<Rightarrow> bool option) \<Rightarrow> nat list \<Rightarrow> nat \<Rightarrow> nat" where
  "walk_acked acked [] w = w"
| "walk_acked acked (o' # os) w = (case acked o' of Some True \<Rightarrow> walk_acked acked os o' | _ \<Rightarrow> w)"

definition acked_flags :: "string \<Rightarrow> part \<Rightarrow> nat list \<Rightarrow> qdb \<Rightarrow> nat \<Rightarrow> bool option" where
  "acked_flags g p os d o' = (if o' \<in> set os then map_option ds_acked (q_delivery d (g, p, o')) else None)"

definition cleanup_stmt :: "string \<Rightarrow> part \<Rightarrow> nat \<Rightarrow> qdb \<Rightarrow> (goerr + unit) \<times> qdb" where
  "cleanup_stmt g p w d = (Inr (), d\<lparr>q_delivery :=
     (\<lambda>(g', p', o'). if g' = g \<and> p' = p \<and> o' \<le> w then None else q_delivery d (g', p', o'))\<rparr>)"

definition store_advance_watermark :: "string \<Rightarrow> part \<Rightarrow> nat \<Rightarrow> nat list \<Rightarrow> ('m, nat) qop" where
  "store_advance_watermark g p cur os =
     (if os = [] then ok cur
      else and_then (map_err (Wrapped ''query delivery state for watermark'') (db_op (\<lambda>d. (Inr (acked_flags g p os d), d)))) (\<lambda>acked.
        let w = walk_acked acked os cur in
        if w > cur then and_then (attempt (db_op (cleanup_stmt g p w))) (\<lambda>_. ok w) else ok w))"

section \<open>Leases\<close>

definition lease_of :: "part \<Rightarrow> string \<Rightarrow> qdb \<Rightarrow> lease_row option" where
  "lease_of p g d = find_first (\<lambda>l. le_part l = p \<and> le_group l = g) (q_leases d)"

definition acquire_stmt :: "part \<Rightarrow> string \<Rightarrow> string \<Rightarrow> int \<Rightarrow> int \<Rightarrow> qdb \<Rightarrow> (goerr + unit) \<times> qdb" where
  "acquire_stmt p g name now stale d = (Inr (),
     (case lease_of p g d of
        None \<Rightarrow> d\<lparr>q_leases := q_leases d @ [\<lparr>le_part = p, le_group = g, le_by = name, le_at = now, le_renewed_at = now\<rparr>]\<rparr>
      | Some _ \<Rightarrow> d\<lparr>q_leases := map (\<lambda>l. if le_part l = p \<and> le_group l = g \<and> le_renewed_at l < stale
            then l\<lparr>le_by := name, le_at := now, le_renewed_at := now\<rparr> else l) (q_leases d)\<rparr>))"

definition try_acquire_lease :: "part \<Rightarrow> string \<Rightarrow> string \<Rightarrow> int \<Rightarrow> ('m, bool) qop" where
  "try_acquire_lease p name g duration =
     and_then q_now (\<lambda>now.
     and_then (map_err (Wrapped ''acquire lease'') (db_op (acquire_stmt p g name now (now - duration)))) (\<lambda>_.
     and_then (map_err (Wrapped ''check lease ownership'') (db_op (\<lambda>d.
       (case lease_of p g d of None \<Rightarrow> Inl ErrNotFound | Some l \<Rightarrow> Inr (le_by l), d)))) (\<lambda>holder.
     ok (holder = name))))"

definition release_stmt :: "(lease_row \<Rightarrow> bool) \<Rightarrow> qdb \<Rightarrow> (goerr + nat) \<times> qdb" where
  "release_stmt doomed d = (Inr (length (filter doomed (q_leases d))),
     d\<lparr>q_leases := filter (\<lambda>l. \<not> doomed l) (q_leases d)\<rparr>)"

definition release_lease :: "part \<Rightarrow> string \<Rightarrow> string \<Rightarrow> ('m, nat) qop" where
  "release_lease p name g = map_err (Wrapped ''release lease'')
     (db_op (release_stmt (\<lambda>l. le_part l = p \<and> le_group l = g \<and> le_by l = name)))"

definition of_tenants :: "string list \<Rightarrow> string \<Rightarrow> string \<Rightarrow> lease_row \<Rightarrow> bool" where
  "of_tenants tenants topic g l \<longleftrightarrow> pt_tenant (le_part l) \<in> set tenants \<and> le_group l = g \<and> pt_topic (le_part l) = topic"

text \<open>The queries by tenant return rows; the Go maps from tenant to rows are read by filtering.\<close>

definition get_leased_partitions :: "string list \<Rightarrow> string \<Rightarrow> string \<Rightarrow> string \<Rightarrow> ('m, part list) qop" where
  "get_leased_partitions tenants topic name g =
     (if tenants = [] then ok []
      else map_err (Wrapped ''get leased partitions'') (db_op (\<lambda>d.
        (Inr (map le_part (filter (\<lambda>l. of_tenants tenants topic g l \<and> le_by l = name) (q_leases d))), d))))"

definition get_all_leases :: "string list \<Rightarrow> string \<Rightarrow> string \<Rightarrow> ('m, lease_row list) qop" where
  "get_all_leases tenants topic g =
     (if tenants = [] then ok []
      else map_err (Wrapped ''get all leases'') (db_op (\<lambda>d. (Inr (filter (of_tenants tenants topic g) (q_leases d)), d))))"

definition renew_stmt :: "string list \<Rightarrow> string \<Rightarrow> string \<Rightarrow> string \<Rightarrow> int \<Rightarrow> qdb \<Rightarrow> (goerr + unit) \<times> qdb" where
  "renew_stmt tenants topic name g now d = (Inr (), d\<lparr>q_leases :=
     map (\<lambda>l. if of_tenants tenants topic g l \<and> le_by l = name then l\<lparr>le_renewed_at := now\<rparr> else l) (q_leases d)\<rparr>)"

definition renew_owned_leases :: "string list \<Rightarrow> string \<Rightarrow> string \<Rightarrow> string \<Rightarrow> ('m, unit) qop" where
  "renew_owned_leases tenants topic name g =
     (if tenants = [] then ok ()
      else and_then q_now (\<lambda>now. map_err (Wrapped ''renew owned leases'') (db_op (renew_stmt tenants topic name g now))))"

definition release_owned_leases :: "string list \<Rightarrow> string \<Rightarrow> string \<Rightarrow> string \<Rightarrow> ('m, nat) qop" where
  "release_owned_leases tenants topic name g =
     (if tenants = [] then ok 0
      else map_err (Wrapped ''release owned leases'')
        (db_op (release_stmt (\<lambda>l. of_tenants tenants topic g l \<and> le_by l = name))))"

definition purge_stale_leases :: "string list \<Rightarrow> string \<Rightarrow> string \<Rightarrow> int \<Rightarrow> ('m, unit) qop" where
  "purge_stale_leases tenants topic g older =
     (if tenants = [] then ok ()
      else and_then q_now (\<lambda>now.
        and_then (map_err (Wrapped ''failed to purge stale leases'')
          (db_op (release_stmt (\<lambda>l. of_tenants tenants topic g l \<and> le_renewed_at l < now - older)))) (\<lambda>_. ok ())))"

text \<open>\<open>SELECT DISTINCT ... ORDER BY tenant, partition_key\<close>.\<close>

definition discovered :: "string list \<Rightarrow> string \<Rightarrow> qdb \<Rightarrow> part list" where
  "discovered tenants topic d = sort_key (\<lambda>p. (pt_tenant p, pt_key p))
     (remdups (filter (\<lambda>p. pt_tenant p \<in> set tenants \<and> pt_topic p = topic) (map mr_part (q_rows d))))"

definition discover_partitions :: "string list \<Rightarrow> string \<Rightarrow> ('m, part list) qop" where
  "discover_partitions tenants topic =
     (if tenants = [] then ok []
      else map_err (Wrapped ''discover partitions'') (db_op (\<lambda>d. (Inr (discovered tenants topic d), d))))"

section \<open>Heartbeats\<close>

definition same_beat :: "string \<Rightarrow> string \<Rightarrow> string \<Rightarrow> string \<Rightarrow> heartbeat_row \<Rightarrow> bool" where
  "same_beat tenant g topic name h \<longleftrightarrow>
     hb_tenant h = tenant \<and> hb_group h = g \<and> hb_topic h = topic \<and> hb_name h = name"

definition beat_one :: "string \<Rightarrow> string \<Rightarrow> string \<Rightarrow> int \<Rightarrow> heartbeat_row list \<Rightarrow> string \<Rightarrow> heartbeat_row list" where
  "beat_one topic name g now hs tenant =
     (if list_ex (same_beat tenant g topic name) hs
      then map (\<lambda>h. if same_beat tenant g topic name h then h\<lparr>hb_at := now, hb_deregistered_at := 0\<rparr> else h) hs
      else hs @ [\<lparr>hb_tenant = tenant, hb_group = g, hb_topic = topic, hb_name = name, hb_at = now, hb_deregistered_at = 0\<rparr>])"

definition heartbeat :: "string list \<Rightarrow> string \<Rightarrow> string \<Rightarrow> string \<Rightarrow> ('m, unit) qop" where
  "heartbeat tenants topic name g =
     (if tenants = [] then ok ()
      else and_then q_now (\<lambda>now. map_err (Wrapped ''failed to send heartbeat'') (db_op (\<lambda>d.
        (Inr (), d\<lparr>q_heartbeats := foldl (beat_one topic name g now) (q_heartbeats d) tenants\<rparr>)))))"

definition group_beat :: "string list \<Rightarrow> string \<Rightarrow> string \<Rightarrow> heartbeat_row \<Rightarrow> bool" where
  "group_beat tenants topic g h \<longleftrightarrow> hb_tenant h \<in> set tenants \<and> hb_group h = g \<and> hb_topic h = topic"

text \<open>The active subscribers of every tenant; \<open>active_of\<close> picks the names of one.\<close>

definition active_subscribers :: "string list \<Rightarrow> string \<Rightarrow> string \<Rightarrow> int \<Rightarrow> ('m, (string \<times> string) list) qop" where
  "active_subscribers tenants topic g stale =
     (if tenants = [] then ok []
      else and_then q_now (\<lambda>now. map_err (Wrapped ''failed to query active subscribers'') (db_op (\<lambda>d.
        (Inr (map (\<lambda>h. (hb_tenant h, hb_name h))
           (filter (\<lambda>h. group_beat tenants topic g h \<and> hb_at h \<ge> now - stale \<and> hb_deregistered_at h = 0) (q_heartbeats d))), d)))))"

definition active_of :: "string \<Rightarrow> (string \<times> string) list \<Rightarrow> string list" where
  "active_of tenant pairs = map snd (filter (\<lambda>(t, n). t = tenant) pairs)"

definition deregister :: "string list \<Rightarrow> string \<Rightarrow> string \<Rightarrow> string \<Rightarrow> ('m, unit) qop" where
  "deregister tenants topic name g =
     (if tenants = [] then ok ()
      else map_err (Wrapped ''failed to deregister subscriber'') (db_op (\<lambda>d.
        (Inr (), d\<lparr>q_heartbeats := filter (\<lambda>h. \<not> (group_beat tenants topic g h \<and> hb_name h = name)) (q_heartbeats d)\<rparr>))))"

definition purge_stale_heartbeats :: "string list \<Rightarrow> string \<Rightarrow> string \<Rightarrow> int \<Rightarrow> ('m, unit) qop" where
  "purge_stale_heartbeats tenants topic g older =
     (if tenants = [] then ok ()
      else and_then q_now (\<lambda>now. map_err (Wrapped ''failed to purge stale heartbeats'') (db_op (\<lambda>d.
        (Inr (), d\<lparr>q_heartbeats := filter (\<lambda>h. \<not> (group_beat tenants topic g h \<and> hb_at h < now - older)) (q_heartbeats d)\<rparr>)))))"

end
