(* ===== verification/QueuePoll.thy ===== *)
theory QueuePoll
  imports QueueStore Ranking
begin

text \<open>
  The partition worker of \<open>platform/extension/messagequeue/mysql/subscriber.go\<close> and the deliveries it
  hands out: one poll (fetch, skip or stop or deliver each row, advance the watermark, collect
  garbage), and what a consumer may do with a delivery.  The configuration is
  \<open>subscription_config.go\<close>'s.  The channel to the consumer is the list of what was sent; a send that
  finds the worker's context cancelled instead ends the poll, as \<open>wk_accepts\<close> decides.
\<close>

section \<open>Configuration\<close>

record retry_config =
  rc_max_attempts :: int
  rc_initial_backoff :: int
  rc_max_backoff :: int
  rc_multiplier :: flt

record dlq_config =
  dq_enabled :: bool
  dq_suffix :: string

record subscription_config =
  sc_name :: string
  sc_group :: string
  sc_poll_interval :: int
  sc_discovery_interval :: int
  sc_batch :: nat
  sc_visibility :: int
  sc_renewal_interval :: int
  sc_lease_duration :: int
  sc_retry :: retry_config
  sc_dlq :: dlq_config

definition default_subscription_config :: "string \<Rightarrow> string \<Rightarrow> subscription_config" where
  "default_subscription_config name grp = \<lparr>sc_name = name, sc_group = grp, sc_poll_interval = 100,
     sc_discovery_interval = 1000, sc_batch = 10, sc_visibility = 60000, sc_renewal_interval = 10000,
     sc_lease_duration = 30000,
     sc_retry = \<lparr>rc_max_attempts = 3, rc_initial_backoff = 1000, rc_max_backoff = 30000, rc_multiplier = Fin 2\<rparr>,
     sc_dlq = \<lparr>dq_enabled = True, dq_suffix = ''_dlq''\<rparr>\<rparr>"

definition dlq_subscription_config :: "string \<Rightarrow> string \<Rightarrow> subscription_config" where
  "dlq_subscription_config name grp = (let c = default_subscription_config name grp in
     c\<lparr>sc_dlq := (sc_dlq c)\<lparr>dq_enabled := False\<rparr>, sc_retry := (sc_retry c)\<lparr>rc_max_attempts := 0\<rparr>\<rparr>)"

definition extended_subscription_config :: "string \<Rightarrow> string \<Rightarrow> subscription_config" where
  "extended_subscription_config name grp = (let c = default_subscription_config name grp in
     c\<lparr>sc_retry := (sc_retry c)\<lparr>rc_max_attempts := 10, rc_initial_backoff := 5000, rc_max_backoff := 60000\<rparr>\<rparr>)"

definition single_message_subscription_config :: "string \<Rightarrow> string \<Rightarrow> subscription_config" where
  "single_message_subscription_config name grp = (extended_subscription_config name grp)\<lparr>sc_batch := 1\<rparr>"

section \<open>Retries\<close>

definition retry_budget_exhausted :: "int \<Rightarrow> int \<Rightarrow> bool" where
  "retry_budget_exhausted max_attempts attempts \<longleftrightarrow> max_attempts > 0 \<and> attempts \<ge> max_attempts"

text \<open>
  \<open>math.Pow\<close> on an integer exponent and the product after it are each the exact value rounded; the
  power of an infinite multiplier is infinite.  \<open>int64(x)\<close> drops the fraction of a finite value in
  range; it is not reached on any other.
\<close>

fun flt_pow :: "float_ops \<Rightarrow> flt \<Rightarrow> nat \<Rightarrow> flt" where
  "flt_pow ops (Fin x) n = fo_round ops (x ^ n)"
| "flt_pow ops PosInf n = (if n = 0 then Fin 1 else PosInf)"
| "flt_pow ops NegInf n = (if n = 0 then Fin 1 else if even n then PosInf else NegInf)"
| "flt_pow ops NaN n = (if n = 0 then Fin 1 else NaN)"

fun flt_scale :: "float_ops \<Rightarrow> int \<Rightarrow> flt \<Rightarrow> flt" where
  "flt_scale ops k (Fin x) = fo_round ops (of_int k * x)"
| "flt_scale ops k PosInf = (if k > 0 then PosInf else if k < 0 then NegInf else NaN)"
| "flt_scale ops k NegInf = (if k > 0 then NegInf else if k < 0 then PosInf else NaN)"
| "flt_scale ops k NaN = NaN"

fun flt_trunc :: "flt \<Rightarrow> int" where
  "flt_trunc (Fin x) = (if x < 0 then \<lceil>x\<rceil> else \<lfloor>x\<rfloor>)"
| "flt_trunc _ = 0"

definition retry_backoff_ms :: "float_ops \<Rightarrow> retry_config \<Rightarrow> int \<Rightarrow> int" where
  "retry_backoff_ms ops retry tries =
     (let backoff = rc_initial_backoff retry in
      if backoff \<le> 0 then 0
      else
        let top = (if rc_max_backoff retry \<le> 0 \<or> rc_max_backoff retry > max_retry_backoff_ms
                   then max_retry_backoff_ms else rc_max_backoff retry) in
        if backoff \<ge> top then top
        else if flt_le (rc_multiplier retry) (Fin 1) \<or> rc_multiplier retry = NaN \<or> tries \<le> 1 then backoff
        else
          let grown = flt_scale ops backoff (flt_pow ops (rc_multiplier retry) (nat (tries - 1))) in
          if flt_le (Fin (of_int top)) grown then top else flt_trunc grown)"

definition validate_retry_config :: "retry_config \<Rightarrow> goerr + unit" where
  "validate_retry_config retry =
     (if rc_max_attempts retry < 0 then Inl (Plain ''retry MaxAttempts must be non-negative'')
      else if rc_initial_backoff retry < 0 then Inl (Plain ''retry InitialBackoffMs must be non-negative'')
      else if rc_max_backoff retry < 0 then Inl (Plain ''retry MaxBackoffMs must be non-negative'')
      else if rc_initial_backoff retry > max_retry_backoff_ms then Inl (Plain ''retry InitialBackoffMs must not exceed the maximum'')
      else if rc_max_backoff retry > max_retry_backoff_ms then Inl (Plain ''retry MaxBackoffMs must not exceed the maximum'')
      else if rc_max_backoff retry > 0 \<and> rc_initial_backoff retry > rc_max_backoff retry
        then Inl (Plain ''retry InitialBackoffMs must not exceed MaxBackoffMs'')
      else if flt_lt (rc_multiplier retry) (Fin 0) \<or> rc_multiplier retry \<in> {NaN, PosInf, NegInf}
        then Inl (Plain ''retry BackoffMultiplier must be finite and non-negative'')
      else Inr ())"

section \<open>Deliveries\<close>

record sql_delivery =
  sd_message :: message
  sd_attempt :: int
  sd_received_at :: int
  sd_metadata :: metadata
  sd_part :: part
  sd_offset :: nat
  sd_message_id :: string
  sd_group :: string
  sd_dlq :: dlq_config
  sd_retry :: retry_config
  sd_failure :: "failure option"
  sd_acknowledged :: bool

text \<open>What the interface \<open>extqueue.Delivery\<close> shows of it to a controller.\<close>

definition delivery_of :: "sql_delivery \<Rightarrow> delivery" where
  "delivery_of h = \<lparr>dl_message = sd_message h, dl_attempt = nat (sd_attempt h), dl_metadata = sd_metadata h,
     dl_failure = sd_failure h\<rparr>"

definition delivery_key_of :: "sql_delivery \<Rightarrow> delivery_key" where
  "delivery_key_of h = (sd_group h, sd_part h, sd_offset h)"

definition already_acknowledged :: goerr where
  "already_acknowledged = Plain ''delivery already acknowledged or nacked''"

text \<open>
  A method returns the delivery as it leaves it.  On an error nothing of the delivery has changed.
\<close>

definition settled :: "sql_delivery \<Rightarrow> ('m, unit) qop \<Rightarrow> ('m, sql_delivery) qop" where
  "settled h m = and_then m (\<lambda>_. ok (h\<lparr>sd_acknowledged := True\<rparr>))"

definition delivery_ack :: "sql_delivery \<Rightarrow> ('m, sql_delivery) qop" where
  "delivery_ack h = (if sd_acknowledged h then fail already_acknowledged
     else settled h (mark_acked (delivery_key_of h)))"

definition dead_letter :: "sql_delivery \<Rightarrow> failure \<Rightarrow> ('m, sql_delivery) qop" where
  "dead_letter h f = settled h (and_then
     (if dq_enabled (sd_dlq h)
      then map_err (Wrapped ''failed to move message to DLQ'')
        (move_to_dlq (sd_part h) (sd_message_id h) (sd_attempt h) f (dq_suffix (sd_dlq h)))
      else ok ())
     (\<lambda>_. map_err (Wrapped ''mark acked after DLQ move'') (mark_acked (delivery_key_of h))))"

definition delivery_nack :: "float_ops \<Rightarrow> sql_delivery \<Rightarrow> failure \<Rightarrow> ('m, sql_delivery) qop" where
  "delivery_nack ops h f = (if sd_acknowledged h then fail already_acknowledged
     else if retry_budget_exhausted (rc_max_attempts (sd_retry h)) (sd_attempt h) then dead_letter h f
     else settled h (mark_nacked (delivery_key_of h) (retry_backoff_ms ops (sd_retry h) (sd_attempt h))))"

definition delivery_postpone :: "sql_delivery \<Rightarrow> int \<Rightarrow> ('m, sql_delivery) qop" where
  "delivery_postpone h delay = (if sd_acknowledged h then fail already_acknowledged
     else settled h (mark_postponed (delivery_key_of h) delay))"

definition delivery_reject :: "sql_delivery \<Rightarrow> failure \<Rightarrow> ('m, sql_delivery) qop" where
  "delivery_reject h f = (if sd_acknowledged h then fail already_acknowledged else dead_letter h f)"

definition delivery_extend :: "sql_delivery \<Rightarrow> int \<Rightarrow> ('m, unit) qop" where
  "delivery_extend h duration =
     (if sd_acknowledged h then fail (Plain ''delivery already acknowledged, cannot extend visibility timeout'')
      else extend_visibility (delivery_key_of h) duration)"

section \<open>The partition worker\<close>

record worker = qworld +
  wk_initialized :: bool
  wk_gc_counter :: nat
  wk_sent :: "sql_delivery list"
  wk_accepts :: "nat \<Rightarrow> bool"

type_synonym 'a wop = "(worker, goerr, 'a) act"

definition gc_tick_interval :: nat where
  "gc_tick_interval = 100"

definition watermark_advancement_limit :: nat where
  "watermark_advancement_limit = 1000"

text \<open>The \<open>select\<close> on the channel and the context: whether the delivery went out.\<close>

definition send :: "sql_delivery \<Rightarrow> bool wop" where
  "send h w = (if wk_accepts w (length (wk_sent w)) then (Inr True, w\<lparr>wk_sent := wk_sent w @ [h]\<rparr>)
     else (Inr False, w))"

definition advance_watermark :: "string \<Rightarrow> part \<Rightarrow> ('m, unit) qop" where
  "advance_watermark g p =
     and_then (map_err (Wrapped ''get acked offset for watermark advance'') (get_acked_offset p g)) (\<lambda>cur.
     and_then (map_err (Wrapped ''get message offsets for watermark advance'')
       (get_offsets_above p cur watermark_advancement_limit)) (\<lambda>os.
     and_then (map_err (Wrapped ''advance watermark'') (store_advance_watermark g p cur os)) (\<lambda>n.
     if n > cur
     then map_err (Wrapped ''update acked offset after watermark advance'') (update_acked_offset p g n)
     else ok ())))"

definition garbage_collect :: "part \<Rightarrow> ('m, unit) qop" where
  "garbage_collect p =
     and_then (map_err (Wrapped ''get min acked offset'') (get_min_acked_offset p)) (\<lambda>found.
     case found of None \<Rightarrow> ok () | Some n \<Rightarrow> map_err (Wrapped ''delete messages'') (message_gc p n))"

definition row_metadata :: "subscription_config \<Rightarrow> part \<Rightarrow> message_row \<Rightarrow> metadata" where
  "row_metadata cfg p m =
     (let base = [''topic'' \<mapsto> pt_topic p, ''partition_key'' \<mapsto> pt_key p, ''offset'' \<mapsto> dec (mr_offset m),
            ''leased_by'' \<mapsto> sc_name cfg, ''consumer_group'' \<mapsto> sc_group cfg];
          failed = (if mr_failed_at m > 0 then base(''dlq.failed_at'' \<mapsto> dec (nat (mr_failed_at m))) else base);
          counted = (if mr_failure_count m > 0 then failed(''dlq.failure_count'' \<mapsto> dec (nat (mr_failure_count m))) else failed);
          explained = (if mr_last_error m \<noteq> [] then counted(''dlq.last_error'' \<mapsto> mr_last_error m) else counted) in
      if mr_original_topic m \<noteq> [] then explained(''dlq.original_topic'' \<mapsto> mr_original_topic m) else explained)"

definition row_failure :: "message_row \<Rightarrow> failure option" where
  "row_failure m = (if mr_failed_at m > 0 then Some (decode_failure (mr_failure_detail m) (mr_last_error m)) else None)"

definition row_message :: "part \<Rightarrow> message_row \<Rightarrow> message" where
  "row_message p m = \<lparr>m_tenant = pt_tenant (mr_part m), m_topic = pt_topic p, m_id = mr_msg_id m,
     m_partition = pt_key (mr_part m), m_payload = mr_payload m, m_metadata = mr_metadata m,
     m_published_at = mr_published_at m\<rparr>"

definition new_sql_delivery :: "subscription_config \<Rightarrow> part \<Rightarrow> message_row \<Rightarrow> int \<Rightarrow> int \<Rightarrow> sql_delivery" where
  "new_sql_delivery cfg p m attempts received = \<lparr>sd_message = row_message p m, sd_attempt = attempts,
     sd_received_at = received, sd_metadata = row_metadata cfg p m, sd_part = p, sd_offset = mr_offset m,
     sd_message_id = mr_msg_id m, sd_group = sc_group cfg, sd_dlq = sc_dlq cfg, sd_retry = sc_retry cfg,
     sd_failure = row_failure m, sd_acknowledged = False\<rparr>"

datatype row_fate = Deliver | Skip | Halt

definition row_verdict :: "delivery_state option \<Rightarrow> int \<Rightarrow> row_fate" where
  "row_verdict state now = (case state of
     None \<Rightarrow> Deliver
   | Some s \<Rightarrow>
       if ds_acked s \<or> ds_invisible_until s > now
       then (if \<not> ds_acked s \<and> ds_postponed s then Halt else Skip)
       else Deliver)"

text \<open>What is done with a row that is due: whether the loop goes on.\<close>

definition deliver_row :: "subscription_config \<Rightarrow> part \<Rightarrow> message_row \<Rightarrow> bool wop" where
  "deliver_row cfg p m =
     (let k = (sc_group cfg, p, mr_offset m) in
      and_then (map_err (Wrapped ''mark delivered'') (mark_delivered k (sc_visibility cfg))) (\<lambda>retries.
      if retry_budget_exhausted (rc_max_attempts (sc_retry cfg)) retries
      then
        and_then (if dq_enabled (sc_dlq cfg)
          then map_err (Wrapped ''move to DLQ'') (move_to_dlq p (mr_msg_id m) retries
            \<lparr>f_message = ''exceeded retry limit'', f_subjects = [], f_detail = []\<rparr> (dq_suffix (sc_dlq cfg)))
          else ok ()) (\<lambda>_.
        and_then (map_err (Wrapped ''mark acked after retry limit'') (mark_acked k)) (\<lambda>_. ok True))
      else and_then q_now (\<lambda>received. send (new_sql_delivery cfg p m (retries + 1) received))))"

fun deliver_rows :: "subscription_config \<Rightarrow> part \<Rightarrow> message_row list \<Rightarrow> bool wop" where
  "deliver_rows cfg p [] = ok True"
| "deliver_rows cfg p (m # ms) =
     and_then (map_err (Wrapped ''get delivery state'') (get_delivery_state (sc_group cfg, p, mr_offset m))) (\<lambda>state.
     and_then q_now (\<lambda>now.
     case row_verdict state now of
       Halt \<Rightarrow> ok True
     | Skip \<Rightarrow> deliver_rows cfg p ms
     | Deliver \<Rightarrow> and_then (deliver_row cfg p m) (\<lambda>go. if go then deliver_rows cfg p ms else ok False)))"

definition ensure_offset :: "subscription_config \<Rightarrow> part \<Rightarrow> unit wop" where
  "ensure_offset cfg p w = (if wk_initialized w then (Inr (), w)
     else and_then (map_err (Wrapped ''initialize offset'') (offset_initialize p (sc_group cfg)))
       (\<lambda>_ w'. (Inr (), w'\<lparr>wk_initialized := True\<rparr>)) w)"

definition gc_tick :: "part \<Rightarrow> unit wop" where
  "gc_tick p w =
     (let n = Suc (wk_gc_counter w) in
      if n \<ge> gc_tick_interval
      then map_err (Wrapped ''garbage collect'') (garbage_collect p) (w\<lparr>wk_gc_counter := 0\<rparr>)
      else (Inr (), w\<lparr>wk_gc_counter := n\<rparr>))"

definition poll_and_deliver :: "subscription_config \<Rightarrow> part \<Rightarrow> unit wop" where
  "poll_and_deliver cfg p =
     and_then (ensure_offset cfg p) (\<lambda>_.
     and_then (map_err (Wrapped ''get acked offset'') (get_acked_offset p (sc_group cfg))) (\<lambda>cur.
     and_then (map_err (Wrapped ''fetch messages'') (fetch_by_offset p cur (sc_batch cfg))) (\<lambda>rows.
     and_then (deliver_rows cfg p rows) (\<lambda>through.
     if \<not> through then ok ()
     else and_then (attempt (advance_watermark (sc_group cfg) p)) (\<lambda>_. gc_tick p)))))"

end
