(* ===== verification/QueueSafe.thy ===== *)
theory QueueSafe
  imports QueuePoll
begin

text \<open>
  No message is lost: what every statement of the queue keeps, and so every poll and every method of
  a delivery, whatever the other processes do and wherever it fails.  \<open>K\<close> is the set of subscriptions
  - partition and consumer group - the argument is about.  It assumes that their offset rows stay and
  that transactions commit the rows of a partition in the order in which they took their offsets.
\<close>

section \<open>The invariant\<close>

definition covered :: "(part \<times> string) set \<Rightarrow> part \<Rightarrow> bool" where
  "covered K p \<longleftrightarrow> (\<exists>g. (p, g) \<in> K)"

text \<open>Group \<open>g\<close> needs nothing at or below offset \<open>n\<close> of \<open>p\<close> any more.\<close>

definition passed :: "part \<Rightarrow> string \<Rightarrow> nat \<Rightarrow> qdb \<Rightarrow> bool" where
  "passed p g n d \<longleftrightarrow> n < q_next_offset d \<and>
     (\<forall>m\<in>set (q_rows d). mr_part m = p \<longrightarrow> mr_offset m \<le> n \<longrightarrow> (g, p, mr_offset m) \<in> q_acks d) \<and>
     (\<forall>e\<in>set (q_uncommitted d). mr_part (snd e) = p \<longrightarrow> n < mr_offset (snd e))"

definition numbered :: "qdb \<Rightarrow> bool" where
  "numbered d \<longleftrightarrow> 0 < q_next_offset d \<and>
     (\<forall>m\<in>set (q_rows d). 0 < mr_offset m \<and> mr_offset m < q_next_offset d) \<and>
     (\<forall>e\<in>set (q_uncommitted d). 0 < mr_offset (snd e) \<and> mr_offset (snd e) < q_next_offset d)"

definition committed_in_order :: "(part \<times> string) set \<Rightarrow> qdb \<Rightarrow> bool" where
  "committed_in_order K d \<longleftrightarrow> (\<forall>m\<in>set (q_rows d). \<forall>e\<in>set (q_uncommitted d).
     covered K (mr_part m) \<longrightarrow> mr_part (snd e) = mr_part m \<longrightarrow> mr_offset m < mr_offset (snd e))"

definition acks_logged :: "qdb \<Rightarrow> bool" where
  "acks_logged d \<longleftrightarrow> (\<forall>k s. q_delivery d k = Some s \<longrightarrow> ds_acked s \<longrightarrow> k \<in> q_acks d)"

definition watermarks_passed :: "(part \<times> string) set \<Rightarrow> qdb \<Rightarrow> bool" where
  "watermarks_passed K d \<longleftrightarrow>
     (\<forall>r\<in>set (q_offsets d). (of_part r, of_group r) \<in> K \<longrightarrow> passed (of_part r) (of_group r) (of_acked r) d)"

definition established :: "(part \<times> string) set \<Rightarrow> qdb \<Rightarrow> bool" where
  "established K d \<longleftrightarrow> (\<forall>(p, g)\<in>K. \<exists>r\<in>set (q_offsets d). of_part r = p \<and> of_group r = g)"

definition orderly :: "(part \<times> string) set \<Rightarrow> qdb \<Rightarrow> bool" where
  "orderly K d \<longleftrightarrow> numbered d \<and> committed_in_order K d \<and> acks_logged d \<and> watermarks_passed K d \<and> established K d"

section \<open>What may happen to the tables\<close>

text \<open>A row goes only to the dead-letter topic or when every group of \<open>K\<close> has acknowledged it.\<close>

definition no_message_lost :: "(part \<times> string) set \<Rightarrow> qdb \<Rightarrow> qdb \<Rightarrow> bool" where
  "no_message_lost K d d' \<longleftrightarrow> (\<forall>m\<in>set (q_rows d). covered K (mr_part m) \<longrightarrow>
     m \<in> set (q_rows d') \<or> (mr_part m, mr_msg_id m) \<in> q_dead d' \<or>
     (\<forall>g. (mr_part m, g) \<in> K \<longrightarrow> (g, mr_part m, mr_offset m) \<in> q_acks d'))"

definition reached :: "part \<Rightarrow> string \<Rightarrow> nat \<Rightarrow> qdb \<Rightarrow> bool" where
  "reached p g n d \<longleftrightarrow> (\<forall>r\<in>set (q_offsets d). of_part r = p \<longrightarrow> of_group r = g \<longrightarrow> n \<le> of_acked r)"

definition only_fresh :: "(part \<times> string) set \<Rightarrow> qdb \<Rightarrow> qdb \<Rightarrow> bool" where
  "only_fresh K d d' \<longleftrightarrow>
     (\<forall>e\<in>set (q_uncommitted d'). covered K (mr_part (snd e)) \<longrightarrow>
        e \<in> set (q_uncommitted d) \<or> q_next_offset d \<le> mr_offset (snd e)) \<and>
     (\<forall>m\<in>set (q_rows d'). covered K (mr_part m) \<longrightarrow>
        m \<in> set (q_rows d) \<or> m \<in> snd ` set (q_uncommitted d) \<or> q_next_offset d \<le> mr_offset m)"

definition evolves :: "(part \<times> string) set \<Rightarrow> qdb \<Rightarrow> qdb \<Rightarrow> bool" where
  "evolves K d d' \<longleftrightarrow> (orderly K d \<longrightarrow> orderly K d') \<and>
     q_acks d \<subseteq> q_acks d' \<and> q_dead d \<subseteq> q_dead d' \<and> q_next_offset d \<le> q_next_offset d' \<and>
     (orderly K d \<longrightarrow> (\<forall>p g n. (p, g) \<in> K \<longrightarrow> reached p g n d \<longrightarrow> reached p g n d')) \<and>
     no_message_lost K d d' \<and> only_fresh K d d'"

lemma no_message_lost_trans:
  assumes "no_message_lost K d d'" and "no_message_lost K d' d''"
    and "q_acks d' \<subseteq> q_acks d''" and "q_dead d' \<subseteq> q_dead d''"
  shows "no_message_lost K d d''"
  unfolding no_message_lost_def
proof (intro ballI impI)
  fix m assume m: "m \<in> set (q_rows d)" "covered K (mr_part m)"
  with assms(1) consider "m \<in> set (q_rows d')" | "(mr_part m, mr_msg_id m) \<in> q_dead d'"
    | "\<forall>g. (mr_part m, g) \<in> K \<longrightarrow> (g, mr_part m, mr_offset m) \<in> q_acks d'"
    unfolding no_message_lost_def by blast
  then show "m \<in> set (q_rows d'') \<or> (mr_part m, mr_msg_id m) \<in> q_dead d'' \<or>
     (\<forall>g. (mr_part m, g) \<in> K \<longrightarrow> (g, mr_part m, mr_offset m) \<in> q_acks d'')"
  proof cases
    case 1
    with m(2) assms(2) show ?thesis unfolding no_message_lost_def by blast
  qed (use assms(3,4) in blast)+
qed

lemma only_fresh_trans:
  assumes "only_fresh K d d'" and "only_fresh K d' d''" and "q_next_offset d \<le> q_next_offset d'"
  shows "only_fresh K d d''"
proof -
  have entries: "e \<in> set (q_uncommitted d) \<or> q_next_offset d \<le> mr_offset (snd e)"
    if "e \<in> set (q_uncommitted d')" "covered K (mr_part (snd e))" for e
    using that assms(1) unfolding only_fresh_def by blast
  have rows: "m \<in> set (q_rows d) \<or> m \<in> snd ` set (q_uncommitted d) \<or> q_next_offset d \<le> mr_offset m"
    if "m \<in> set (q_rows d')" "covered K (mr_part m)" for m
    using that assms(1) unfolding only_fresh_def by blast
  have "e \<in> set (q_uncommitted d) \<or> q_next_offset d \<le> mr_offset (snd e)"
    if e: "e \<in> set (q_uncommitted d'')" "covered K (mr_part (snd e))" for e
  proof -
    from e assms(2) have "e \<in> set (q_uncommitted d') \<or> q_next_offset d' \<le> mr_offset (snd e)"
      unfolding only_fresh_def by blast
    with entries [OF _ e(2)] assms(3) show ?thesis by linarith
  qed
  moreover have "m \<in> set (q_rows d) \<or> m \<in> snd ` set (q_uncommitted d) \<or> q_next_offset d \<le> mr_offset m"
    if m: "m \<in> set (q_rows d'')" "covered K (mr_part m)" for m
  proof -
    from m assms(2) consider "m \<in> set (q_rows d')" | e where "e \<in> set (q_uncommitted d')" "m = snd e"
      | "q_next_offset d' \<le> mr_offset m"
      unfolding only_fresh_def by blast
    then show ?thesis
    proof cases
      case 1
      with rows m(2) show ?thesis by blast
    next
      case 2
      with entries [of e] m(2) show ?thesis by blast
    next
      case 3
      with assms(3) show ?thesis by linarith
    qed
  qed
  ultimately show ?thesis unfolding only_fresh_def by blast
qed

lemma evolves_refl: "evolves K d d"
  unfolding evolves_def no_message_lost_def only_fresh_def by blast

lemma evolves_trans:
  assumes "evolves K d d'" and "evolves K d' d''"
  shows "evolves K d d''"
proof -
  note 1 = assms(1) [unfolded evolves_def] and 2 = assms(2) [unfolded evolves_def]
  have "no_message_lost K d d''" using 1 2 no_message_lost_trans [of K d d' d''] by simp
  moreover have "only_fresh K d d''" using 1 2 only_fresh_trans [of K d d' d''] by simp
  moreover have "q_acks d \<subseteq> q_acks d''" "q_dead d \<subseteq> q_dead d''" "q_next_offset d \<le> q_next_offset d''"
    using 1 2 by auto
  ultimately show ?thesis using 1 2 by (simp add: evolves_def)
qed

interpretation queue: evolution "orderly K" "evolves K" for K
proof unfold_locales
  show "evolves K d d" for d by (rule evolves_refl)
  show "evolves K d d' \<Longrightarrow> evolves K d' d'' \<Longrightarrow> evolves K d d''" for d d' d'' by (rule evolves_trans)
  show "orderly K d \<Longrightarrow> evolves K d d' \<Longrightarrow> orderly K d'" for d d' by (simp add: evolves_def)
qed

lemma passed_evolves:
  assumes "passed p g n d" and "evolves K d d'" and "covered K p"
  shows "passed p g n d'"
proof -
  from assms(1) have n: "n < q_next_offset d"
    and rows: "\<And>m. m \<in> set (q_rows d) \<Longrightarrow> mr_part m = p \<Longrightarrow> mr_offset m \<le> n \<Longrightarrow> (g, p, mr_offset m) \<in> q_acks d"
    and entries: "\<And>e. e \<in> set (q_uncommitted d) \<Longrightarrow> mr_part (snd e) = p \<Longrightarrow> n < mr_offset (snd e)"
    unfolding passed_def by blast+
  from assms(2) have mono: "q_acks d \<subseteq> q_acks d'" "q_next_offset d \<le> q_next_offset d'" and fresh: "only_fresh K d d'"
    unfolding evolves_def by blast+
  have "(g, p, mr_offset m) \<in> q_acks d'" if m: "m \<in> set (q_rows d')" "mr_part m = p" "mr_offset m \<le> n" for m
  proof -
    from fresh m(1,2) assms(3) consider "m \<in> set (q_rows d)" | e where "e \<in> set (q_uncommitted d)" "m = snd e"
      | "q_next_offset d \<le> mr_offset m"
      unfolding only_fresh_def by blast
    then show ?thesis
    proof cases
      case 1
      with rows m mono(1) show ?thesis by blast
    next
      case 2
      with entries [of e] m show ?thesis by simp
    next
      case 3
      with n m(3) show ?thesis by linarith
    qed
  qed
  moreover have "n < mr_offset (snd e)" if e: "e \<in> set (q_uncommitted d')" "mr_part (snd e) = p" for e
  proof -
    from fresh e assms(3) have "e \<in> set (q_uncommitted d) \<or> q_next_offset d \<le> mr_offset (snd e)"
      unfolding only_fresh_def by blast
    with entries [OF _ e(2)] n show ?thesis by linarith
  qed
  ultimately show ?thesis using n mono(2) unfolding passed_def by auto
qed

section \<open>The statements\<close>

lemmas orderly_defs = orderly_def numbered_def committed_in_order_def acks_logged_def watermarks_passed_def
  established_def passed_def

lemma orderly_row:
  assumes "orderly K d" and "(p, g) \<in> K"
  obtains r where "r \<in> set (q_offsets d)" "of_part r = p" "of_group r = g"
proof -
  from assms(1) have "established K d" by (simp add: orderly_def)
  with assms(2) have "\<exists>r\<in>set (q_offsets d). of_part r = p \<and> of_group r = g"
    by (auto simp: established_def)
  with that show thesis by blast
qed

lemma orderly_passed:
  assumes "orderly K d" and "(p, g) \<in> K" and "reached p g n d"
  shows "\<exists>w\<ge>n. passed p g w d"
proof -
  from assms(1,2) obtain r where r: "r \<in> set (q_offsets d)" "of_part r = p" "of_group r = g"
    by (rule orderly_row)
  with assms(3) have "n \<le> of_acked r" by (simp add: reached_def)
  moreover have "passed p g (of_acked r) d"
    using assms(1,2) r by (auto simp: orderly_def watermarks_passed_def)
  ultimately show ?thesis by blast
qed

text \<open>Leases, heartbeats and transaction numbers do not matter.\<close>

lemma evolves_unrelated:
  assumes "q_rows d' = q_rows d" "q_uncommitted d' = q_uncommitted d" "q_next_offset d' = q_next_offset d"
    "q_delivery d' = q_delivery d" "q_offsets d' = q_offsets d" "q_acks d' = q_acks d" "q_dead d' = q_dead d"
  shows "evolves K d d'"
proof -
  have "passed p g n d' = passed p g n d" for p g n
    unfolding passed_def assms ..
  then have "orderly K d' = orderly K d"
    unfolding orderly_def numbered_def committed_in_order_def acks_logged_def watermarks_passed_def
      established_def assms by simp
  moreover have "no_message_lost K d d'" "only_fresh K d d'"
    unfolding no_message_lost_def only_fresh_def assms by blast+
  moreover have "reached p g n d' = reached p g n d" for p g n
    unfolding reached_def assms ..
  ultimately show ?thesis
    unfolding evolves_def assms by simp
qed

text \<open>Nor does the delivery state, as long as it claims no ack that was not given.\<close>

lemma evolves_ledger:
  assumes "q_acks d \<subseteq> A" and "acks_logged d \<Longrightarrow> acks_logged (d\<lparr>q_delivery := f, q_acks := A\<rparr>)"
  shows "evolves K d (d\<lparr>q_delivery := f, q_acks := A\<rparr>)"
proof -
  let ?d = "d\<lparr>q_delivery := f, q_acks := A\<rparr>"
  have passed: "passed p g n d \<Longrightarrow> passed p g n ?d" for p g n
    using assms(1) by (auto simp: passed_def)
  have "orderly K ?d" if "orderly K d"
    using that assms(2) passed
    unfolding orderly_def numbered_def committed_in_order_def watermarks_passed_def established_def by simp
  moreover have "no_message_lost K d ?d" "only_fresh K d ?d"
    unfolding no_message_lost_def only_fresh_def by simp_all
  ultimately show ?thesis
    using assms(1) by (simp add: evolves_def reached_def)
qed

lemma evolves_delivery:
  assumes "\<And>k s. f k = Some s \<Longrightarrow> ds_acked s \<Longrightarrow> \<exists>s'. q_delivery d k = Some s' \<and> ds_acked s'"
  shows "evolves K d (d\<lparr>q_delivery := f\<rparr>)"
proof -
  have "evolves K d (d\<lparr>q_delivery := f, q_acks := q_acks d\<rparr>)"
    by (rule evolves_ledger) (use assms in \<open>fastforce simp: acks_logged_def\<close>)+
  then show ?thesis by simp
qed

lemma evolves_mark_delivered: "evolves K d (snd (mark_delivered_stmt k i d))"
  unfolding mark_delivered_stmt_def snd_conv
  by (rule evolves_delivery) (auto split: if_splits option.splits)

lemma evolves_extend: "evolves K d (snd (extend_stmt k i d))"
proof (cases "q_delivery d k")
  case None
  then show ?thesis by (simp add: extend_stmt_def evolves_refl)
next
  case (Some s)
  have "evolves K d (d\<lparr>q_delivery := (q_delivery d)(k \<mapsto> s\<lparr>ds_invisible_until := i\<rparr>)\<rparr>)"
    by (rule evolves_delivery) (use Some in \<open>auto split: if_splits\<close>)
  with Some show ?thesis by (simp add: extend_stmt_def evolves_refl)
qed

lemma evolves_mark_acked: "evolves K d (snd (mark_acked_stmt k d))"
  unfolding mark_acked_stmt_def snd_conv
  by (rule evolves_ledger) (auto simp: acks_logged_def split: if_splits)

lemma evolves_mark_nacked: "evolves K d (snd (mark_nacked_stmt k i d))"
  unfolding mark_nacked_stmt_def snd_conv
  by (rule evolves_delivery) (auto split: if_splits option.splits)

lemma evolves_mark_postponed: "evolves K d (snd (mark_postponed_stmt k i d))"
  unfolding mark_postponed_stmt_def snd_conv
  by (rule evolves_delivery) (auto split: if_splits option.splits)

lemma evolves_cleanup: "evolves K d (snd (cleanup_stmt g p w d))"
  unfolding cleanup_stmt_def snd_conv
  by (rule evolves_delivery) (auto split: if_splits)

lemma evolves_offset_init: "evolves K d (snd (offset_init_stmt p g d))"
proof (cases "offset_of p g d")
  case (Some n)
  then show ?thesis by (simp add: offset_init_stmt_def evolves_refl)
next
  case None
  let ?r = "\<lparr>of_part = p, of_group = g, of_acked = 0\<rparr>"
  let ?d = "d\<lparr>q_offsets := q_offsets d @ [?r]\<rparr>"
  from None have absent: "\<not> (of_part r = p \<and> of_group r = g)" if "r \<in> set (q_offsets d)" for r
    using that by (auto simp: offset_of_def find_first_None_iff)
  have passed: "passed p' g' n ?d = passed p' g' n d" for p' g' n
    by (simp add: passed_def)
  have orderly: "orderly K ?d" if o: "orderly K d"
  proof -
    from o absent have "(p, g) \<notin> K" by (metis orderly_row)
    with o have "watermarks_passed K ?d" by (simp add: orderly_def watermarks_passed_def passed)
    moreover have "established K ?d" using o by (auto simp: orderly_def established_def)
    ultimately show ?thesis using o
      by (simp add: orderly_def numbered_def committed_in_order_def acks_logged_def)
  qed
  have "reached p' g' n ?d" if "reached p' g' n d" "(p', g') \<in> K" "orderly K d" for p' g' n
  proof -
    from that(3) absent have "(p, g) \<notin> K" by (metis orderly_row)
    with that show ?thesis by (auto simp: reached_def)
  qed
  moreover have "no_message_lost K d ?d" "only_fresh K d ?d"
    unfolding no_message_lost_def only_fresh_def by simp_all
  ultimately show ?thesis
    using orderly None by (simp add: offset_init_stmt_def evolves_def)
qed

text \<open>The watermark moves to a point the group has passed.\<close>

lemma evolves_offset_update:
  assumes "(p, g) \<in> K \<Longrightarrow> passed p g n d"
  shows "evolves K d (snd (offset_update_stmt p g n d))"
proof -
  let ?f = "\<lambda>r. if of_part r = p \<and> of_group r = g \<and> of_acked r < n then r\<lparr>of_acked := n\<rparr> else r"
  let ?d = "d\<lparr>q_offsets := map ?f (q_offsets d)\<rparr>"
  have passed: "passed p' g' n' ?d = passed p' g' n' d" for p' g' n'
    by (simp add: passed_def)
  have f: "of_part (?f r) = of_part r" "of_group (?f r) = of_group r" "of_acked r \<le> of_acked (?f r)" for r
    by simp_all
  have "orderly K ?d" if o: "orderly K d"
  proof -
    have "passed (of_part (?f r)) (of_group (?f r)) (of_acked (?f r)) d"
      if r: "r \<in> set (q_offsets d)" "(of_part r, of_group r) \<in> K" for r
    proof -
      from o r have "passed (of_part r) (of_group r) (of_acked r) d"
        by (auto simp: orderly_def watermarks_passed_def)
      with assms r(2) show ?thesis by auto
    qed
    then have "\<forall>r\<in>?f ` set (q_offsets d). (of_part r, of_group r) \<in> K \<longrightarrow> passed (of_part r) (of_group r) (of_acked r) d"
      unfolding ball_simps f by blast
    then have "watermarks_passed K ?d" by (simp add: watermarks_passed_def passed)
    moreover have "established K ?d"
      unfolding established_def
    proof safe
      fix p' g' assume "(p', g') \<in> K"
      with o obtain r where "r \<in> set (q_offsets d)" "of_part r = p'" "of_group r = g'" by (rule orderly_row)
      then have "?f r \<in> set (q_offsets ?d)" "of_part (?f r) = p'" "of_group (?f r) = g'" by auto
      then show "\<exists>r\<in>set (q_offsets ?d). of_part r = p' \<and> of_group r = g'" by blast
    qed
    ultimately show ?thesis using o
      by (simp add: orderly_def numbered_def committed_in_order_def acks_logged_def)
  qed
  moreover have "reached p' g' n' ?d" if "reached p' g' n' d" for p' g' n'
    using that f(3) unfolding reached_def by (auto intro: order_trans less_imp_le)
  moreover have "no_message_lost K d ?d" "only_fresh K d ?d"
    unfolding no_message_lost_def only_fresh_def by simp_all
  ultimately show ?thesis by (simp add: offset_update_stmt_def evolves_def)
qed

text \<open>A change of the rows: what is left to check.\<close>

lemma evolves_rows:
  assumes "only_fresh K d d'" and "no_message_lost K d d'" and "q_next_offset d \<le> q_next_offset d'"
    and "numbered d \<Longrightarrow> numbered d'"
    and "numbered d \<Longrightarrow> committed_in_order K d \<Longrightarrow> committed_in_order K d'"
    and same: "q_delivery d' = q_delivery d" "q_offsets d' = q_offsets d" "q_acks d' = q_acks d"
    and "q_dead d \<subseteq> q_dead d'"
  shows "evolves K d d'"
proof -
  have passed: "passed p g n d'" if "passed p g n d" "(p, g) \<in> K" for p g n
  proof -
    from that(2) have p: "covered K p" by (auto simp: covered_def)
    from that(1) have n: "n < q_next_offset d" by (simp add: passed_def)
    have "(g, p, mr_offset m) \<in> q_acks d'" if m: "m \<in> set (q_rows d')" "mr_part m = p" "mr_offset m \<le> n" for m
    proof -
      from m p assms(1) consider "m \<in> set (q_rows d)" | e where "e \<in> set (q_uncommitted d)" "m = snd e"
        | "q_next_offset d \<le> mr_offset m"
        unfolding only_fresh_def by blast
      then show ?thesis
      proof cases
        case 1
        with m \<open>passed p g n d\<close> show ?thesis by (simp add: passed_def same)
      next
        case 2
        with m \<open>passed p g n d\<close> show ?thesis by (auto simp: passed_def)
      next
        case 3
        with n m(3) show ?thesis by linarith
      qed
    qed
    moreover have "n < mr_offset (snd e)" if e: "e \<in> set (q_uncommitted d')" "mr_part (snd e) = p" for e
    proof -
      from e p assms(1) consider "e \<in> set (q_uncommitted d)" | "q_next_offset d \<le> mr_offset (snd e)"
        unfolding only_fresh_def by blast
      then show ?thesis
      proof cases
        case 1
        with e(2) \<open>passed p g n d\<close> show ?thesis by (simp add: passed_def)
      next
        case 2
        with n show ?thesis by linarith
      qed
    qed
    ultimately show ?thesis using n assms(3) by (simp add: passed_def)
  qed
  have "orderly K d'" if "orderly K d"
    using that assms(4,5) passed by (simp add: orderly_def acks_logged_def watermarks_passed_def established_def same)
  then show ?thesis
    using assms(1-3,9) by (simp add: evolves_def reached_def same)
qed

lemma evolves_gc:
  assumes "orderly K d" and "\<And>g. (p, g) \<in> K \<Longrightarrow> reached p g n d"
  shows "evolves K d (snd (gc_stmt p n d))"
proof -
  let ?d = "d\<lparr>q_rows := filter (\<lambda>m. \<not> (mr_part m = p \<and> mr_offset m \<le> n)) (q_rows d)\<rparr>"
  have acked: "(g, p, mr_offset m) \<in> q_acks d"
    if m: "m \<in> set (q_rows d)" "mr_part m = p" "mr_offset m \<le> n" and g: "(p, g) \<in> K" for m g
  proof -
    from orderly_passed [OF assms(1) g assms(2) [OF g]] obtain w where "n \<le> w" "passed p g w d" by blast
    with m show ?thesis by (simp add: passed_def)
  qed
  have "evolves K d ?d"
  proof (rule evolves_rows)
    show "no_message_lost K d ?d" unfolding no_message_lost_def
    proof (intro ballI impI)
      fix m assume m: "m \<in> set (q_rows d)" "covered K (mr_part m)"
      show "m \<in> set (q_rows ?d) \<or> (mr_part m, mr_msg_id m) \<in> q_dead ?d \<or>
          (\<forall>g. (mr_part m, g) \<in> K \<longrightarrow> (g, mr_part m, mr_offset m) \<in> q_acks ?d)"
      proof (cases "mr_part m = p \<and> mr_offset m \<le> n")
        case True
        with acked m(1) show ?thesis by auto
      next
        case False
        with m(1) show ?thesis by simp
      qed
    qed
  qed (auto simp: only_fresh_def numbered_def committed_in_order_def)
  then show ?thesis by (simp add: gc_stmt_def)
qed

lemma evolves_dlq:
  assumes "\<not> covered K ((mr_part m)\<lparr>pt_topic := pt_topic (mr_part m) @ suffix\<rparr>)"
  shows "evolves K d (snd (dlq_stmt m now fails txt columns suffix d))"
proof -
  let ?r = "dlq_row m (q_next_offset d) now fails txt columns suffix"
  let ?same = "same_row_key (mr_part m) (mr_msg_id m)"
  let ?d = "d\<lparr>q_next_offset := Suc (q_next_offset d)\<rparr>"
  have r: "mr_offset ?r = q_next_offset d" "\<not> covered K (mr_part ?r)"
    using assms by (simp_all add: dlq_row_def)
  have taken: "evolves K d ?d"
    by (rule evolves_rows) (auto simp: only_fresh_def no_message_lost_def numbered_def committed_in_order_def)
  have moved: "evolves K d (?d\<lparr>q_rows := filter (\<lambda>x. \<not> ?same x) (q_rows d) @ [?r],
      q_dead := insert (mr_part m, mr_msg_id m) (q_dead d)\<rparr>)" (is "evolves K d ?d'")
  proof (rule evolves_rows)
    show "only_fresh K d ?d'" using r(2) by (auto simp: only_fresh_def)
    show "no_message_lost K d ?d'" by (auto simp: no_message_lost_def same_row_key_def)
    show "numbered d \<Longrightarrow> numbered ?d'" using r(1) by (auto simp: numbered_def)
    show "committed_in_order K d \<Longrightarrow> committed_in_order K ?d'"
      using r(2) by (auto simp: committed_in_order_def)
  qed auto
  show ?thesis
    unfolding dlq_stmt_def Let_def using taken moved by simp
qed

text \<open>A transaction: it takes offsets, and commits when nothing older in a partition is still open.\<close>

lemma evolves_begin: "evolves K d (snd (begin_tx d))"
  by (rule evolves_unrelated) (simp_all add: begin_tx_def)

lemma evolves_insert: "evolves K d (snd (insert_stmt tx m d))"
proof -
  let ?d = "d\<lparr>q_next_offset := Suc (q_next_offset d)\<rparr>"
  have taken: "evolves K d ?d"
    by (rule evolves_rows) (auto simp: only_fresh_def no_message_lost_def numbered_def committed_in_order_def)
  have "evolves K d (?d\<lparr>q_uncommitted := q_uncommitted d @ [(tx, m\<lparr>mr_offset := q_next_offset d\<rparr>)]\<rparr>)"
    by (rule evolves_rows) (auto simp: only_fresh_def no_message_lost_def numbered_def committed_in_order_def)
  with taken show ?thesis by (simp add: insert_stmt_def Let_def)
qed

lemma evolves_rollback: "evolves K d (rollback_tx tx d)"
  unfolding rollback_tx_def
  by (rule evolves_rows) (auto simp: only_fresh_def no_message_lost_def numbered_def committed_in_order_def)

lemma evolves_commit:
  assumes "\<And>e e'. e \<in> set (q_uncommitted d) \<Longrightarrow> fst e = tx \<Longrightarrow> e' \<in> set (q_uncommitted d) \<Longrightarrow> fst e' \<noteq> tx \<Longrightarrow>
    mr_part (snd e) = mr_part (snd e') \<Longrightarrow> covered K (mr_part (snd e)) \<Longrightarrow> mr_offset (snd e) < mr_offset (snd e')"
  shows "evolves K d (snd (commit_tx tx d))"
  unfolding commit_tx_def snd_conv
proof (rule evolves_rows)
  let ?d = "d\<lparr>q_rows := q_rows d @ map snd (filter (\<lambda>(t, r). t = tx) (q_uncommitted d)),
     q_uncommitted := filter (\<lambda>(t, r). t \<noteq> tx) (q_uncommitted d)\<rparr>"
  show "only_fresh K d ?d" by (force simp: only_fresh_def)
  show "no_message_lost K d ?d" by (auto simp: no_message_lost_def)
  show "numbered d \<Longrightarrow> numbered ?d" by (auto simp: numbered_def)
  show "committed_in_order K d \<Longrightarrow> committed_in_order K ?d"
    using assms by (fastforce simp: committed_in_order_def)
qed simp_all

end
