(* ===== verification/QueueTriples.thy ===== *)
theory QueueTriples
  imports QueueSafe
begin

text \<open>
  The rely/guarantee triples of the queue's operations, from single statements up to a poll and to
  what a consumer does with a delivery, and the property they add up to: no message is lost.
\<close>

abbreviation safe :: "(part \<times> string) set \<Rightarrow> ((qdb, 'm) store_world_scheme, goerr, 'a) act \<Rightarrow> bool" where
  "safe K m \<equiv> triple (orderly K) (evolves K) (\<lambda>_. True) m (\<lambda>_ _. True)"

abbreviation ready :: "(part \<times> string) set \<Rightarrow> part \<Rightarrow> string \<Rightarrow> nat \<Rightarrow> qdb \<Rightarrow> bool" where
  "ready K p g n d \<equiv> (p, g) \<in> K \<longrightarrow> passed p g n d"

section \<open>Stable facts\<close>

lemma coveredI: "(p, g) \<in> K \<Longrightarrow> covered K p"
  by (auto simp: covered_def)

lemma stable_orderly [stable_intros]: "stable (evolves K) (orderly K)"
  by (rule stableI) (simp add: evolves_def)

lemma stable_ready [stable_intros]: "stable (evolves K) (ready K p g n)"
  by (rule stableI) (use passed_evolves coveredI in blast)

lemma stable_reached [stable_intros]:
  "stable (evolves K) (\<lambda>d. orderly K d \<and> (\<forall>g. (p, g) \<in> K \<longrightarrow> reached p g n d))"
  by (rule stableI) (simp add: evolves_def)

lemma stable_acked [stable_intros]: "stable (evolves K) (\<lambda>d. k \<in> q_acks d)"
  by (rule stableI) (auto simp: evolves_def)

text \<open>The offsets \<open>os\<close> above \<open>cur\<close> leave out no row that lies before their last, now or later.\<close>

definition gapless :: "part \<Rightarrow> nat \<Rightarrow> nat list \<Rightarrow> qdb \<Rightarrow> bool" where
  "gapless p cur os d \<longleftrightarrow> (\<forall>n\<in>set os. n < q_next_offset d \<and>
     (\<forall>e\<in>set (q_uncommitted d). mr_part (snd e) = p \<longrightarrow> n < mr_offset (snd e)) \<and>
     (\<forall>m\<in>set (q_rows d). mr_part m = p \<longrightarrow> cur < mr_offset m \<longrightarrow> mr_offset m \<le> n \<longrightarrow> mr_offset m \<in> set os))"

lemma gapless_evolves:
  assumes "gapless p cur os d" and "evolves K d d'" and "covered K p"
  shows "gapless p cur os d'"
  unfolding gapless_def
proof (intro ballI conjI impI)
  fix n assume n: "n \<in> set os"
  from assms(1) n have old: "n < q_next_offset d"
    "\<And>e. e \<in> set (q_uncommitted d) \<Longrightarrow> mr_part (snd e) = p \<Longrightarrow> n < mr_offset (snd e)"
    "\<And>m. m \<in> set (q_rows d) \<Longrightarrow> mr_part m = p \<Longrightarrow> cur < mr_offset m \<Longrightarrow> mr_offset m \<le> n \<Longrightarrow> mr_offset m \<in> set os"
    unfolding gapless_def by blast+
  from assms(2) have mono: "q_next_offset d \<le> q_next_offset d'" and fresh: "only_fresh K d d'"
    unfolding evolves_def by blast+
  from old(1) mono show "n < q_next_offset d'" by simp
  show "n < mr_offset (snd e)" if e: "e \<in> set (q_uncommitted d')" "mr_part (snd e) = p" for e
  proof -
    from fresh e assms(3) have "e \<in> set (q_uncommitted d) \<or> q_next_offset d \<le> mr_offset (snd e)"
      unfolding only_fresh_def by blast
    with old(2) [OF _ e(2)] old(1) show ?thesis by linarith
  qed
  show "mr_offset m \<in> set os" if m: "m \<in> set (q_rows d')" "mr_part m = p" "cur < mr_offset m" "mr_offset m \<le> n" for m
  proof -
    from fresh m(1,2) assms(3) consider "m \<in> set (q_rows d)" | e where "e \<in> set (q_uncommitted d)" "m = snd e"
      | "q_next_offset d \<le> mr_offset m"
      unfolding only_fresh_def by blast
    then show ?thesis
    proof cases
      case 1
      with old(3) m show ?thesis by blast
    next
      case 2
      with old(2) [of e] m show ?thesis by simp
    next
      case 3
      with old(1) m(4) show ?thesis by linarith
    qed
  qed
qed

lemma stable_gapless [stable_intros]: "stable (evolves K) (\<lambda>d. (p, g) \<in> K \<longrightarrow> gapless p cur os d)"
  by (rule stableI) (use gapless_evolves coveredI in blast)

section \<open>Statements and simple operations\<close>

lemma safe_bind: "safe K m \<Longrightarrow> (\<And>x. safe K (f x)) \<Longrightarrow> safe K (and_then m f)"
  by (rule queue.triple_bind)

lemma safe_stmt: "(\<And>d. evolves K d (snd (f d))) \<Longrightarrow> safe K (db_op f)"
  by (rule queue.triple_db_op) (auto intro: stable_intros)

lemma safe_read: "(\<And>d. snd (f d) = d) \<Longrightarrow> safe K (db_op f)"
  by (rule safe_stmt) (simp add: evolves_refl)

lemma safe_local: "(\<And>w. w_db (snd (m w)) = w_db w \<and> w_script (snd (m w)) = w_script w) \<Longrightarrow> safe K m"
  by (rule queue.triple_conseq [OF queue.triple_local]) auto

lemma safe_now: "safe K q_now"
  by (rule safe_local) (simp add: q_now_def)

lemma safe_ok: "safe K (ok x)"
  by (rule queue.triple_ok) simp

lemma safe_fail: "safe K (fail e)"
  by (rule queue.triple_fail)

lemma safe_of_sum: "safe K (of_sum r)"
  by (rule queue.triple_of_sum) simp

lemma safe_attempt: "safe K m \<Longrightarrow> safe K (attempt m)"
  by (rule queue.triple_conseq [OF queue.triple_attempt]) (auto intro: stable_intros)

lemma safe_choice:
  assumes "safe K m" and "safe K n"
  shows "safe K (\<lambda>w. if b w then m w else n w)"
  unfolding triple_def
proof (intro allI impI)
  fix w r w'
  assume w: "abides (orderly K) (evolves K) w" "orderly K (w_db w)" and run: "(if b w then m w else n w) = (r, w')"
  show "abides (orderly K) (evolves K) w' \<and> evolves K (w_db w) (w_db w') \<and> (\<forall>x. r = Inr x \<longrightarrow> True)"
  proof (cases "b w")
    case True
    with run have "m w = (r, w')" by simp
    with w assms(1) show ?thesis unfolding triple_def by blast
  next
    case False
    with run have "n w = (r, w')" by simp
    with w assms(2) show ?thesis unfolding triple_def by blast
  qed
qed

lemmas safe_intros =
  safe_bind safe_ok safe_fail safe_now safe_of_sum safe_attempt queue.triple_map_err queue.triple_if

lemma safe_mark_delivered: "safe K (mark_delivered k t)"
  unfolding mark_delivered_def
  by (intro safe_intros safe_stmt evolves_mark_delivered) (simp add: retry_count_stmt_def evolves_refl split: option.splits)

lemma safe_extend: "safe K (extend_visibility k t)"
  unfolding extend_visibility_def by (intro safe_intros safe_stmt evolves_extend)

lemma safe_mark_acked: "safe K (mark_acked k)"
  unfolding mark_acked_def by (intro safe_intros safe_stmt evolves_mark_acked)

lemma safe_mark_nacked: "safe K (mark_nacked k t)"
  unfolding mark_nacked_def by (intro safe_intros safe_stmt evolves_mark_nacked)

lemma safe_mark_postponed: "safe K (mark_postponed k t)"
  unfolding mark_postponed_def by (intro safe_intros safe_stmt evolves_mark_postponed)

lemma safe_get_delivery_state: "safe K (get_delivery_state k)"
  unfolding get_delivery_state_def by (intro safe_intros safe_read) simp

lemma safe_fetch: "safe K (fetch_by_offset p cur n)"
  unfolding fetch_by_offset_def by (intro safe_intros safe_read) simp

lemma safe_initialize: "safe K (offset_initialize p g)"
  unfolding offset_initialize_def by (intro safe_intros safe_stmt evolves_offset_init)

text \<open>Moving a row to a dead-letter topic that is not itself among the partitions of \<open>K\<close>.\<close>

definition dlq_part :: "part \<Rightarrow> string \<Rightarrow> part" where
  "dlq_part p suffix = p\<lparr>pt_topic := pt_topic p @ suffix\<rparr>"

lemma safe_move_to_dlq:
  assumes "\<not> covered K (dlq_part p suffix)"
  shows "safe K (move_to_dlq p i n f suffix)"
  unfolding move_to_dlq_def
proof (rule safe_bind, intro safe_intros, rule safe_bind)
  show "safe K (map_err (Wrapped ''begin transaction'') ping)"
    unfolding ping_def by (intro safe_intros safe_read) simp
next
  fix columns
  have found: "triple (orderly K) (evolves K) (\<lambda>_. True) (db_op (\<lambda>d. (Inr (find_message p i d), d)))
      (\<lambda>r _. \<forall>m. r = Some m \<longrightarrow> mr_part m = p)"
    by (rule queue.triple_db_read)
      (auto simp: find_message_def same_row_key_def dest: find_first_Some intro: stable_intros)
  show "safe K (and_then (map_err (Wrapped ''fetch message for DLQ'') (db_op (\<lambda>d. (Inr (find_message p i d), d))))
      (\<lambda>r. case r of None \<Rightarrow> ok ()
        | Some m \<Rightarrow> and_then q_now (\<lambda>now. map_err (Wrapped ''insert into DLQ'') (db_op (dlq_stmt m now n (f_message f) columns suffix)))))"
  proof (rule queue.triple_bind [OF queue.triple_map_err [OF found]])
    fix r
    show "triple (orderly K) (evolves K) (\<lambda>_. \<forall>m. r = Some m \<longrightarrow> mr_part m = p)
        (case r of None \<Rightarrow> ok ()
          | Some m \<Rightarrow> and_then q_now (\<lambda>now. map_err (Wrapped ''insert into DLQ'') (db_op (dlq_stmt m now n (f_message f) columns suffix))))
        (\<lambda>_ _. True)"
    proof (cases r)
      case None
      then show ?thesis by (auto intro: queue.triple_ok)
    next
      case (Some m)
      have "safe K (and_then q_now (\<lambda>now. map_err (Wrapped ''insert into DLQ'') (db_op (dlq_stmt m now n (f_message f) columns suffix))))"
        if "mr_part m = p"
        using assms that by (intro safe_intros safe_stmt evolves_dlq) (simp add: dlq_part_def)
      with Some show ?thesis
        by (cases "mr_part m = p") (simp_all add: triple_def)
    qed
  qed
qed

section \<open>The watermark\<close>

lemma get_acked_offset_ready:
  "triple (orderly K) (evolves K) (\<lambda>_. True) (get_acked_offset p g) (\<lambda>cur. ready K p g cur)"
  unfolding get_acked_offset_def
proof (rule queue.triple_map_err, rule queue.triple_inv, rule queue.triple_db_read)
  fix d cur
  assume o: "True \<and> orderly K d"
    and r: "fst (Inr (case offset_of p g d of None \<Rightarrow> 0 | Some n \<Rightarrow> n), d) = Inr cur"
  show "ready K p g cur d"
  proof
    assume K: "(p, g) \<in> K"
    with o obtain r0 where r0: "r0 \<in> set (q_offsets d)" "of_part r0 = p" "of_group r0 = g"
      by (auto elim: orderly_row)
    then have "offset_of p g d \<noteq> None" by (auto simp: offset_of_def find_first_None_iff)
    with r obtain r' where "find_first (\<lambda>r. of_part r = p \<and> of_group r = g) (q_offsets d) = Some r'" "cur = of_acked r'"
      by (auto simp: offset_of_def)
    with o K show "passed p g cur d"
      by (auto simp: orderly_def watermarks_passed_def dest!: find_first_Some)
  qed
qed (auto intro: stable_intros)

lemma walk_acked_spec:
  assumes "sorted os" and "\<forall>n\<in>set os. c \<le> n"
  shows "(walk_acked acked os c = c \<or> walk_acked acked os c \<in> set os) \<and>
    (\<forall>n\<in>set os. n \<le> walk_acked acked os c \<longrightarrow> n = c \<or> acked n = Some True)"
  using assms
proof (induction os arbitrary: c)
  case Nil
  then show ?case by simp
next
  case (Cons n os)
  show ?case
  proof (cases "acked n = Some True")
    case True
    with Cons.IH [of n] Cons.prems show ?thesis by auto
  next
    case False
    then have "walk_acked acked (n # os) c = c" by (auto split: option.splits bool.splits)
    with Cons.prems show ?thesis by force
  qed
qed

lemma sorted_rows_above: "sorted (map mr_offset (rows_above p cur n d))"
proof -
  let ?xs = "sort_key mr_offset (filter (\<lambda>m. mr_part m = p \<and> mr_offset m > cur) (q_rows d))"
  have "sorted (take n (map mr_offset ?xs))" by (rule sorted_wrt_take) simp
  then show ?thesis by (simp add: rows_above_def take_map)
qed

lemma take_sorted_prefix:
  assumes "sorted xs" and "x \<in> set xs" and "y \<in> set (take k xs)" and "x \<le> y"
  shows "x \<in> set (take k xs)"
proof -
  from assms(3) obtain i where i: "i < length (take k xs)" "take k xs ! i = y" by (metis in_set_conv_nth)
  from assms(2) obtain j where j: "j < length xs" "xs ! j = x" by (metis in_set_conv_nth)
  show ?thesis
  proof (cases "j < k")
    case True
    with j have "j < length (take k xs)" "take k xs ! j = x" by simp_all
    then show ?thesis by (metis nth_mem)
  next
    case False
    with i j(1) have "xs ! i \<le> xs ! j" by (intro sorted_nth_mono [OF assms(1)]) auto
    with i j assms(4) have "y = x" by simp
    with assms(3) show ?thesis by simp
  qed
qed

lemma rows_above_prefix:
  assumes "m \<in> set (q_rows d)" "mr_part m = p" "cur < mr_offset m"
    and "n \<in> set (map mr_offset (rows_above p cur k d))" "mr_offset m \<le> n"
  shows "mr_offset m \<in> set (map mr_offset (rows_above p cur k d))"
proof -
  let ?xs = "map mr_offset (sort_key mr_offset (filter (\<lambda>m. mr_part m = p \<and> mr_offset m > cur) (q_rows d)))"
  have taken: "map mr_offset (rows_above p cur k d) = take k ?xs" by (simp add: rows_above_def take_map)
  have "sorted ?xs" by simp
  moreover have "mr_offset m \<in> set ?xs" using assms(1-3) by simp
  ultimately show ?thesis using assms(4,5) unfolding taken by (rule take_sorted_prefix)
qed

lemma get_offsets_above_gapless:
  "triple (orderly K) (evolves K) (ready K p g cur) (get_offsets_above p cur k)
     (\<lambda>os d. ready K p g cur d \<and> sorted os \<and> (\<forall>n\<in>set os. cur < n) \<and> ((p, g) \<in> K \<longrightarrow> gapless p cur os d))"
  unfolding get_offsets_above_def
proof (rule queue.triple_map_err, rule queue.triple_inv, rule queue.triple_db_read)
  show "stable (evolves K) (\<lambda>d. ready K p g cur d \<and> orderly K d)" by (intro stable_intros)
  fix d os
  assume d: "ready K p g cur d \<and> orderly K d"
    and "fst (Inr (map mr_offset (rows_above p cur k d)), d) = Inr os"
  then have os: "os = map mr_offset (rows_above p cur k d)" by simp
  have from_row: "\<exists>m\<in>set (q_rows d). mr_part m = p \<and> cur < mr_offset m \<and> mr_offset m = n" if "n \<in> set os" for n
  proof -
    from that obtain m where m: "m \<in> set (rows_above p cur k d)" "mr_offset m = n" unfolding os by auto
    from m(1) have "m \<in> set (sort_key mr_offset (filter (\<lambda>m. mr_part m = p \<and> mr_offset m > cur) (q_rows d)))"
      unfolding rows_above_def by (rule in_set_takeD)
    with m(2) show ?thesis by auto
  qed
  have "gapless p cur os d" if K: "(p, g) \<in> K"
    unfolding gapless_def
  proof (intro ballI conjI impI)
    fix n assume n: "n \<in> set os"
    from from_row [OF n] obtain m where m: "m \<in> set (q_rows d)" "mr_part m = p" "mr_offset m = n" by blast
    with d show "n < q_next_offset d" by (auto simp: orderly_def numbered_def)
    show "n < mr_offset (snd e)" if "e \<in> set (q_uncommitted d)" "mr_part (snd e) = p" for e
      using d m that K by (auto simp: orderly_def committed_in_order_def covered_def)
    show "mr_offset x \<in> set os" if "x \<in> set (q_rows d)" "mr_part x = p" "cur < mr_offset x" "mr_offset x \<le> n" for x
      using rows_above_prefix [OF that(1-3) n [unfolded os] that(4)] by (simp add: os)
  qed
  moreover have "sorted os" unfolding os by (rule sorted_rows_above)
  ultimately show "ready K p g cur d \<and> sorted os \<and> (\<forall>n\<in>set os. cur < n) \<and> ((p, g) \<in> K \<longrightarrow> gapless p cur os d)"
    using d from_row by blast
qed simp

lemma acked_flags_logged:
  "triple (orderly K) (evolves K) P (db_op (\<lambda>d. (Inr (acked_flags g p os d), d)))
     (\<lambda>acked d. P d \<and> (\<forall>n\<in>set os. acked n = Some True \<longrightarrow> (g, p, n) \<in> q_acks d))"
  if "stable (evolves K) P"
proof (rule queue.triple_inv, rule queue.triple_db_read)
  show "stable (evolves K) (\<lambda>d. P d \<and> orderly K d)" using that by (intro stable_intros)
  fix d acked
  assume d: "P d \<and> orderly K d" and "fst (Inr (acked_flags g p os d), d) = Inr acked"
  then have acked: "acked = acked_flags g p os d" by simp
  from d have "acks_logged d" by (simp add: orderly_def)
  then have "(g, p, n) \<in> q_acks d" if "n \<in> set os" "acked n = Some True" for n
    using that by (auto simp: acked acked_flags_def acks_logged_def)
  with d show "P d \<and> (\<forall>n\<in>set os. acked n = Some True \<longrightarrow> (g, p, n) \<in> q_acks d)" by blast
qed simp

lemma passed_walk:
  assumes "passed p g cur d" and "sorted os" and "\<forall>n\<in>set os. cur < n" and "gapless p cur os d"
    and "\<forall>n\<in>set os. acked n = Some True \<longrightarrow> (g, p, n) \<in> q_acks d"
  shows "passed p g (walk_acked acked os cur) d"
proof -
  let ?w = "walk_acked acked os cur"
  from assms(3) have "\<forall>n\<in>set os. cur \<le> n" by auto
  with assms(2) have at: "?w = cur \<or> ?w \<in> set os"
    and before: "\<forall>n\<in>set os. n \<le> ?w \<longrightarrow> n = cur \<or> acked n = Some True"
    using walk_acked_spec by blast+
  show ?thesis
  proof (cases "?w = cur")
    case True
    with assms(1) show ?thesis by simp
  next
    case False
    with at have w: "?w \<in> set os" by simp
    with assms(4) have next_offset: "?w < q_next_offset d"
      and entries: "\<forall>e\<in>set (q_uncommitted d). mr_part (snd e) = p \<longrightarrow> ?w < mr_offset (snd e)"
      and rows: "\<forall>m\<in>set (q_rows d). mr_part m = p \<longrightarrow> cur < mr_offset m \<longrightarrow> mr_offset m \<le> ?w \<longrightarrow> mr_offset m \<in> set os"
      unfolding gapless_def by blast+
    have "(g, p, mr_offset m) \<in> q_acks d" if m: "m \<in> set (q_rows d)" "mr_part m = p" "mr_offset m \<le> ?w" for m
    proof (cases "mr_offset m \<le> cur")
      case True
      with m assms(1) show ?thesis by (simp add: passed_def)
    next
      case False
      with m rows have "mr_offset m \<in> set os" by simp
      with m(3) before False assms(5) show ?thesis by auto
    qed
    with next_offset entries show ?thesis by (simp add: passed_def)
  qed
qed

lemma store_advance_ready:
  "triple (orderly K) (evolves K)
     (\<lambda>d. ready K p g cur d \<and> sorted os \<and> (\<forall>n\<in>set os. cur < n) \<and> ((p, g) \<in> K \<longrightarrow> gapless p cur os d))
     (store_advance_watermark g p cur os) (\<lambda>w. ready K p g w)"
    (is "triple _ _ ?P _ _")
proof -
  have stable: "stable (evolves K) ?P" by (intro stable_intros)
  let ?acked = "\<lambda>acked d. \<forall>n\<in>set os. acked n = Some True \<longrightarrow> (g, p, n) \<in> q_acks d"
  have clean: "triple (orderly K) (evolves K) (ready K p g w) (attempt (db_op (cleanup_stmt g p w))) (\<lambda>_. ready K p g w)" for w
  proof -
    have "safe K (attempt (db_op (cleanup_stmt g p w)))" by (intro safe_attempt safe_stmt evolves_cleanup)
    then have "triple (orderly K) (evolves K) (ready K p g w) (attempt (db_op (cleanup_stmt g p w))) (\<lambda>_ _. True)"
      by (rule queue.triple_pre) simp
    from queue.triple_keep [OF this stable_ready] show ?thesis by (rule queue.triple_conseq) auto
  qed
  have walk: "triple (orderly K) (evolves K) (\<lambda>d. ?P d \<and> ?acked acked d)
      (let w = walk_acked acked os cur in
       if w > cur then and_then (attempt (db_op (cleanup_stmt g p w))) (\<lambda>_. ok w) else ok w)
      (\<lambda>w. ready K p g w)" for acked
    unfolding Let_def
  proof (rule queue.triple_pre [where P' = "ready K p g (walk_acked acked os cur)"], rule queue.triple_if)
    show "triple (orderly K) (evolves K) (ready K p g (walk_acked acked os cur))
        (and_then (attempt (db_op (cleanup_stmt g p (walk_acked acked os cur)))) (\<lambda>_. ok (walk_acked acked os cur)))
        (\<lambda>w. ready K p g w)"
      by (rule queue.triple_bind [OF clean]) (rule queue.triple_ok)
    show "triple (orderly K) (evolves K) (ready K p g (walk_acked acked os cur)) (ok (walk_acked acked os cur))
        (\<lambda>w. ready K p g w)"
      by (rule queue.triple_ok)
    show "ready K p g (walk_acked acked os cur) d" if "?P d \<and> ?acked acked d" for d
      using that passed_walk by blast
  qed
  show ?thesis
  proof (cases "os = []")
    case True
    then show ?thesis by (auto simp: store_advance_watermark_def intro: queue.triple_ok)
  next
    case False
    then show ?thesis
      unfolding store_advance_watermark_def
      by (auto intro: queue.triple_bind [OF queue.triple_map_err [OF acked_flags_logged [OF stable]] walk])
  qed
qed

lemma safe_update_acked_offset:
  "triple (orderly K) (evolves K) (ready K p g n) (update_acked_offset p g n) (\<lambda>_ _. True)"
  unfolding update_acked_offset_def
  by (rule queue.triple_map_err, rule queue.triple_db_op)
    (auto intro: stable_intros evolves_offset_update)

lemma safe_advance_watermark: "safe K (advance_watermark g p)"
  unfolding advance_watermark_def
proof (rule queue.triple_bind [OF queue.triple_map_err [OF get_acked_offset_ready]],
    rule queue.triple_bind [OF queue.triple_map_err [OF get_offsets_above_gapless]],
    rule queue.triple_bind [OF queue.triple_map_err [OF store_advance_ready]])
  fix cur os n
  show "triple (orderly K) (evolves K) (ready K p g n)
      (if cur < n then map_err (Wrapped ''update acked offset after watermark advance'') (update_acked_offset p g n) else ok ())
      (\<lambda>_ _. True)"
    by (intro queue.triple_if queue.triple_map_err safe_update_acked_offset queue.triple_ok) simp
qed

section \<open>Garbage\<close>

lemma foldl_min_le: "foldl min (n::nat) ns \<le> n \<and> (\<forall>x\<in>set ns. foldl min n ns \<le> x)"
proof (induction ns arbitrary: n)
  case Nil
  then show ?case by simp
next
  case (Cons a ns)
  from Cons.IH [of "min n a"] show ?case by auto
qed

lemma min_acked_le: "r \<in> set (q_offsets d) \<Longrightarrow> of_part r = p \<Longrightarrow> min_acked p d \<le> of_acked r"
proof -
  assume "r \<in> set (q_offsets d)" "of_part r = p"
  then have "of_acked r \<in> set (map of_acked (filter (\<lambda>r. of_part r = p) (q_offsets d)))" by auto
  then show ?thesis
    unfolding min_acked_def by (cases "map of_acked (filter (\<lambda>r. of_part r = p) (q_offsets d))")
      (use foldl_min_le in \<open>auto simp del: set_map set_filter\<close>)
qed

lemma get_min_acked_offset_reached:
  "triple (orderly K) (evolves K) (\<lambda>_. True) (get_min_acked_offset p)
     (\<lambda>found d. \<forall>n. found = Some n \<longrightarrow> orderly K d \<and> (\<forall>g. (p, g) \<in> K \<longrightarrow> reached p g n d))"
  unfolding get_min_acked_offset_def
  by (rule queue.triple_map_err, rule queue.triple_inv, rule queue.triple_db_read)
    (auto intro: stable_intros simp: Let_def reached_def min_acked_le split: if_splits)

lemma safe_garbage_collect: "safe K (garbage_collect p)"
  unfolding garbage_collect_def
proof (rule queue.triple_bind [OF queue.triple_map_err [OF get_min_acked_offset_reached]])
  fix found
  have "triple (orderly K) (evolves K) (\<lambda>d. orderly K d \<and> (\<forall>g. (p, g) \<in> K \<longrightarrow> reached p g n d))
      (message_gc p n) (\<lambda>_ _. True)" for n
    unfolding message_gc_def
    by (intro queue.triple_if queue.triple_map_err queue.triple_ok queue.triple_db_op stable_reached)
      (auto intro: evolves_gc)
  then show "triple (orderly K) (evolves K)
      (\<lambda>d. \<forall>n. found = Some n \<longrightarrow> orderly K d \<and> (\<forall>g. (p, g) \<in> K \<longrightarrow> reached p g n d))
      (case found of None \<Rightarrow> ok () | Some n \<Rightarrow> map_err (Wrapped ''delete messages'') (message_gc p n)) (\<lambda>_ _. True)"
    by (cases found) (auto intro: queue.triple_ok queue.triple_map_err)
qed

section \<open>Polls and deliveries\<close>

definition dead_letters_aside :: "(part \<times> string) set \<Rightarrow> dlq_config \<Rightarrow> part \<Rightarrow> bool" where
  "dead_letters_aside K c p \<longleftrightarrow> (dq_enabled c \<longrightarrow> \<not> covered K (dlq_part p (dq_suffix c)))"

lemma safe_deliver_row:
  "dead_letters_aside K (sc_dlq cfg) p \<Longrightarrow> safe K (deliver_row cfg p m)"
  unfolding deliver_row_def Let_def
  by (intro safe_intros safe_mark_delivered safe_mark_acked safe_move_to_dlq safe_local)
    (auto simp: dead_letters_aside_def send_def)

lemma safe_deliver_rows:
  "dead_letters_aside K (sc_dlq cfg) p \<Longrightarrow> safe K (deliver_rows cfg p ms)"
proof (induction ms)
  case Nil
  then show ?case by (simp add: safe_ok)
next
  case (Cons m ms)
  have "safe K (case row_verdict state now of Halt \<Rightarrow> ok True | Skip \<Rightarrow> deliver_rows cfg p ms
      | Deliver \<Rightarrow> and_then (deliver_row cfg p m) (\<lambda>go. if go then deliver_rows cfg p ms else ok False))" for state now
    using Cons by (cases "row_verdict state now") (auto intro!: safe_intros safe_deliver_row)
  then show ?case
    unfolding deliver_rows.simps by (intro safe_intros safe_get_delivery_state)
qed

lemma safe_ensure_offset: "safe K (ensure_offset cfg p)"
proof -
  have "safe K (\<lambda>w'. (Inr (), w'\<lparr>wk_initialized := True\<rparr>))" by (rule safe_local) simp
  then have "safe K (and_then (map_err (Wrapped ''initialize offset'') (offset_initialize p (sc_group cfg)))
       (\<lambda>_ w'. (Inr (), w'\<lparr>wk_initialized := True\<rparr>)))"
    by (intro safe_bind queue.triple_map_err safe_initialize)
  then show ?thesis
    unfolding triple_def ensure_offset_def by (auto simp: evolves_refl)
qed

lemma safe_gc_tick: "safe K (gc_tick p)"
proof -
  have reset: "safe K (\<lambda>w. (Inr (), w\<lparr>wk_gc_counter := n w\<rparr>))" for n by (rule safe_local) simp
  have "safe K (and_then (\<lambda>w. (Inr (), w\<lparr>wk_gc_counter := 0\<rparr>)) (\<lambda>_. map_err (Wrapped ''garbage collect'') (garbage_collect p)))"
    by (intro safe_bind queue.triple_map_err safe_garbage_collect reset)
  then have "safe K
      (\<lambda>w. map_err (Wrapped ''garbage collect'') (garbage_collect p) (w\<lparr>wk_gc_counter := 0\<rparr>))"
    by (simp add: and_then_def)
  from safe_choice [OF this reset [of "\<lambda>w. Suc (wk_gc_counter w)"]] show ?thesis
    by (simp add: gc_tick_def [abs_def] Let_def)
qed

lemma safe_poll:
  "dead_letters_aside K (sc_dlq cfg) p \<Longrightarrow> safe K (poll_and_deliver cfg p)"
  unfolding poll_and_deliver_def
  by (intro safe_intros safe_ensure_offset safe_fetch safe_deliver_rows safe_advance_watermark safe_gc_tick
      queue.triple_conseq [OF get_acked_offset_ready]) simp_all

lemma safe_settled: "safe K m \<Longrightarrow> safe K (settled h m)"
  unfolding settled_def by (intro safe_intros)

lemma safe_dead_letter: "dead_letters_aside K (sd_dlq h) (sd_part h) \<Longrightarrow> safe K (dead_letter h f)"
  unfolding dead_letter_def
  by (intro safe_settled safe_intros safe_mark_acked safe_move_to_dlq) (simp add: dead_letters_aside_def)

lemma safe_delivery_methods:
  "safe K (delivery_ack h)"
  "dead_letters_aside K (sd_dlq h) (sd_part h) \<Longrightarrow> safe K (delivery_nack ops h f)"
  "safe K (delivery_postpone h delay)"
  "dead_letters_aside K (sd_dlq h) (sd_part h) \<Longrightarrow> safe K (delivery_reject h f)"
  "safe K (delivery_extend h delay)"
  unfolding delivery_ack_def delivery_nack_def delivery_postpone_def delivery_reject_def delivery_extend_def
  by (intro safe_intros safe_settled safe_dead_letter safe_mark_acked safe_mark_nacked safe_mark_postponed safe_extend; assumption)+

end
