(* ===== verification/QueueLease.thy ===== *)
theory QueueLease
  imports QueuePoll
begin

text \<open>
  The supervisor of a subscription (\<open>platform/extension/messagequeue/mysql/subscriber.go\<close>): which
  partitions a subscriber discovers, leases, keeps and gives up, and the workers that follow.  A
  worker is its partition here, what it does is in QueuePoll.  A tick's timeout is one more way for
  its calls to fail.  Times are the milliseconds of the clock.
\<close>

section \<open>State\<close>

record manager = qworld +
  mg_discovered :: "part list"
  mg_drained :: "part \<rightharpoonup> int"
  mg_workers :: "part list"
  mg_last_sweep :: int

type_synonym 'a mop = "(manager, goerr, 'a) act"

record subscription =
  su_tenants :: "string list"
  su_topic :: string
  su_config :: subscription_config

definition part_of :: "subscription \<Rightarrow> string \<Rightarrow> string \<Rightarrow> part" where
  "part_of sub tenant k = \<lparr>pt_tenant = tenant, pt_topic = su_topic sub, pt_key = k\<rparr>"

definition partition_keys_for_tenant :: "part list \<Rightarrow> string \<Rightarrow> string list" where
  "partition_keys_for_tenant ps tenant = map pt_key (filter (\<lambda>p. pt_tenant p = tenant) ps)"

definition sort_partition_identities :: "part list \<Rightarrow> part list" where
  "sort_partition_identities = sort_key (\<lambda>p. (pt_tenant p, pt_key p))"

section \<open>Fair shares\<close>

fun rank_of :: "string \<Rightarrow> string list \<Rightarrow> nat option" where
  "rank_of name [] = None"
| "rank_of name (x # xs) = (if x = name then Some 0 else map_option Suc (rank_of name xs))"

definition fair_share_cap :: "string \<Rightarrow> string list \<Rightarrow> string list \<Rightarrow> string list \<Rightarrow> nat" where
  "fair_share_cap name owned known active =
     (if length active \<le> 1 then 0
      else
        let total = length (remdups (owned @ known)); n = length active;
            share = (case rank_of name (sort active) of
              None \<Rightarrow> (total + n) div (n + 1)
            | Some r \<Rightarrow> total div n + (if r < total mod n then 1 else 0)) in
        if share < 1 then 1 else share)"

section \<open>Workers\<close>

definition start_partition_worker :: "part \<Rightarrow> unit mop" where
  "start_partition_worker p w = (Inr (), w\<lparr>mg_workers := List.insert p (mg_workers w)\<rparr>)"

definition stop_partition_worker :: "part \<Rightarrow> unit mop" where
  "stop_partition_worker p w = (Inr (), w\<lparr>mg_workers := filter (\<lambda>q. q \<noteq> p) (mg_workers w)\<rparr>)"

definition stop_all_workers :: "unit mop" where
  "stop_all_workers = (\<lambda>w. for_each stop_partition_worker (mg_workers w) w)"

definition reconcile_partition_workers :: "part list \<Rightarrow> unit mop" where
  "reconcile_partition_workers leases = (\<lambda>w.
     let doomed = filter (\<lambda>p. p \<notin> set leases) (mg_workers w);
         fresh = filter (\<lambda>p. p \<notin> set (mg_workers w)) leases in
     and_then (for_each stop_partition_worker doomed) (\<lambda>_. for_each start_partition_worker fresh) w)"

section \<open>Acquisition\<close>

definition partition_of :: "lease_row \<Rightarrow> string" where
  "partition_of l = pt_key (le_part l)"

fun acquire_loop :: "subscription \<Rightarrow> string \<Rightarrow> (string \<Rightarrow> bool) \<Rightarrow> nat \<Rightarrow> string list \<Rightarrow> nat \<Rightarrow> string list \<Rightarrow>
    ('m, string list) qop" where
  "acquire_loop sub tenant taken most [] owned acquired = ok acquired"
| "acquire_loop sub tenant taken most (k # ks) owned acquired =
     (if taken k then acquire_loop sub tenant taken most ks owned acquired
      else if most > 0 \<and> owned \<ge> most then ok acquired
      else and_then (attempt (try_acquire_lease (part_of sub tenant k) (sc_name (su_config sub)) (sc_group (su_config sub))
          (sc_lease_duration (su_config sub)))) (\<lambda>r.
        if r = Inr True then acquire_loop sub tenant taken most ks (owned + 1) (acquired @ [k])
        else acquire_loop sub tenant taken most ks owned acquired))"

definition acquire_unowned_partitions ::
  "subscription \<Rightarrow> string \<Rightarrow> string list \<Rightarrow> lease_row list \<Rightarrow> nat \<Rightarrow> ('m, string list) qop" where
  "acquire_unowned_partitions sub tenant known leases most =
     and_then q_now (\<lambda>now.
     let stale = now - sc_lease_duration (su_config sub);
         own = filter (\<lambda>l. le_by l = sc_name (su_config sub)) leases;
         held = filter (\<lambda>l. le_by l \<noteq> sc_name (su_config sub) \<and> le_renewed_at l \<ge> stale) leases in
     acquire_loop sub tenant (\<lambda>k. k \<in> partition_of ` set own \<or> k \<in> partition_of ` set held) most known (length own) [])"

text \<open>
  The partitions a tenant has leased after this tick's acquisitions; the Go map from tenant to keys
  is a function here.
\<close>

definition acquire_for_tenant ::
  "subscription \<Rightarrow> bool \<Rightarrow> part list \<Rightarrow> lease_row list \<Rightarrow> (string \<times> string) list \<Rightarrow>
   string \<Rightarrow> (string \<Rightarrow> string list) \<Rightarrow> ('m, string \<Rightarrow> string list) qop" where
  "acquire_for_tenant sub uncapped known leases active tenant leased =
     (let mine = partition_keys_for_tenant known tenant;
          most = (if uncapped then 0
            else fair_share_cap (sc_name (su_config sub)) (leased tenant) mine (active_of tenant active)) in
      and_then (acquire_unowned_partitions sub tenant mine (filter (\<lambda>l. pt_tenant (le_part l) = tenant) leases) most)
        (\<lambda>acquired. ok (leased(tenant := leased tenant @ acquired))))"

section \<open>Drained partitions\<close>

definition update_drained_tracking ::
  "(part \<rightharpoonup> int) \<Rightarrow> part list \<Rightarrow> part list \<Rightarrow> int \<Rightarrow> int \<Rightarrow> (part \<rightharpoonup> int) \<times> part list" where
  "update_drained_tracking prev owned known grace now =
     (let idle = filter (\<lambda>p. p \<notin> set known) owned;
          since = (\<lambda>p. case prev p of None \<Rightarrow> now | Some t \<Rightarrow> t) in
      (\<lambda>p. if p \<in> set idle then Some (since p) else None,
       sort_partition_identities (filter (\<lambda>p. now - since p \<ge> grace) idle)))"

text \<open>The loop over the drained partitions whose grace is over: which of them were released.\<close>

definition release_drained :: "subscription \<Rightarrow> part \<Rightarrow> part list \<Rightarrow> part list mop" where
  "release_drained sub p released =
     and_then (attempt (release_lease p (sc_name (su_config sub)) (sc_group (su_config sub)))) (\<lambda>r.
     case r of
       Inl _ \<Rightarrow> ok released
     | Inr _ \<Rightarrow>
         and_then (stop_partition_worker p) (\<lambda>_.
         and_then (attempt (delete_offset p (sc_group (su_config sub)))) (\<lambda>r'.
         case r' of
           Inl _ \<Rightarrow> ok (released @ [p])
         | Inr _ \<Rightarrow> (\<lambda>w. (Inr (released @ [p]), w\<lparr>mg_drained := (mg_drained w)(p := None)\<rparr>)))))"

section \<open>Discovery\<close>

definition parts_of :: "subscription \<Rightarrow> (string \<Rightarrow> string list) \<Rightarrow> part list" where
  "parts_of sub keys = concat (map (\<lambda>t. map (part_of sub t) (keys t)) (su_tenants sub))"

definition settle_leases :: "subscription \<Rightarrow> part list \<Rightarrow> (string \<Rightarrow> string list) \<Rightarrow> unit mop" where
  "settle_leases sub known leased =
     and_then q_now (\<lambda>now w.
     let owned = parts_of sub leased; seen = parts_of sub (partition_keys_for_tenant known);
         grace = 2 * sc_lease_duration (su_config sub);
         (tracked, expired) = update_drained_tracking (mg_drained w) owned seen grace now in
     and_then (fold_act (release_drained sub) expired [])
       (\<lambda>released. reconcile_partition_workers (filter (\<lambda>p. p \<notin> set released) owned))
       (w\<lparr>mg_discovered := seen, mg_drained := tracked\<rparr>))"

definition discover_and_reconcile_workers :: "subscription \<Rightarrow> bool \<Rightarrow> unit mop" where
  "discover_and_reconcile_workers sub uncapped =
     (let tenants = su_tenants sub; cfg = su_config sub; topic = su_topic sub in
      if tenants = [] then ok ()
      else and_then (attempt (discover_partitions tenants topic)) (\<lambda>found.
        case found of
          Inl e \<Rightarrow> and_then (reconcile_partition_workers []) (\<lambda>_. fail (Wrapped ''discover partitions'' e))
        | Inr known \<Rightarrow>
            and_then (attempt (get_leased_partitions tenants topic (sc_name cfg) (sc_group cfg))) (\<lambda>read.
            case read of
              Inl e \<Rightarrow> and_then (reconcile_partition_workers []) (\<lambda>_. fail (Wrapped ''get leased partitions'' e))
            | Inr mine \<Rightarrow>
                and_then (attempt (map_err (Wrapped ''get all leases'') (get_all_leases tenants topic (sc_group cfg)))) (\<lambda>leases.
                and_then (case leases of
                    Inl e \<Rightarrow> ok (Inl e)
                  | Inr _ \<Rightarrow> if uncapped then ok (Inr [])
                      else attempt (map_err (Wrapped ''active subscribers'')
                        (active_subscribers tenants topic (sc_group cfg) (sc_lease_duration cfg)))) (\<lambda>active.
                and_then (case (leases, active) of
                    (Inr ls, Inr as) \<Rightarrow> fold_act (acquire_for_tenant sub uncapped known ls as) tenants (partition_keys_for_tenant mine)
                  | _ \<Rightarrow> ok (partition_keys_for_tenant mine)) (\<lambda>leased.
                and_then (settle_leases sub known leased) (\<lambda>_.
                case active of Inl e \<Rightarrow> fail e | Inr _ \<Rightarrow> ok ())))))))"

text \<open>The discovery tick: every two lease durations acquisition is not capped.\<close>

definition discovery_tick :: "subscription \<Rightarrow> unit mop" where
  "discovery_tick sub =
     and_then q_now (\<lambda>now w.
     if now - mg_last_sweep w \<ge> 2 * sc_lease_duration (su_config sub)
     then and_then q_now (\<lambda>swept w'. and_then (attempt (discover_and_reconcile_workers sub True)) (\<lambda>_. ok ())
            (w'\<lparr>mg_last_sweep := swept\<rparr>)) w
     else and_then (attempt (discover_and_reconcile_workers sub False)) (\<lambda>_. ok ()) w)"

section \<open>The lease tick\<close>

definition release_extra :: "subscription \<Rightarrow> string \<Rightarrow> string \<Rightarrow> unit mop" where
  "release_extra sub tenant k =
     and_then (map_err (Wrapped ''release partition during rebalance'')
       (release_lease (part_of sub tenant k) (sc_name (su_config sub)) (sc_group (su_config sub)))) (\<lambda>_.
     stop_partition_worker (part_of sub tenant k))"

definition rebalance :: "subscription \<Rightarrow> string \<Rightarrow> string list \<Rightarrow> string list \<Rightarrow> unit mop" where
  "rebalance sub tenant owned active = (\<lambda>w.
     let most = fair_share_cap (sc_name (su_config sub)) owned (partition_keys_for_tenant (mg_discovered w) tenant) active in
     if most = 0 \<or> length owned \<le> most then (Inr (), w)
     else for_each (release_extra sub tenant) (drop most (sort owned)) w)"

definition send_heartbeats :: "subscription \<Rightarrow> ('m, unit) qop" where
  "send_heartbeats sub = map_err (Wrapped ''heartbeat'')
     (heartbeat (su_tenants sub) (su_topic sub) (sc_name (su_config sub)) (sc_group (su_config sub)))"

definition deregister_heartbeat :: "subscription \<Rightarrow> ('m, unit) qop" where
  "deregister_heartbeat sub = map_err (Wrapped ''deregister heartbeat'')
     (deregister (su_tenants sub) (su_topic sub) (sc_name (su_config sub)) (sc_group (su_config sub)))"

definition run_lease_tick :: "subscription \<Rightarrow> unit mop" where
  "run_lease_tick sub =
     (let tenants = su_tenants sub; cfg = su_config sub; topic = su_topic sub in
      and_then (attempt (get_leased_partitions tenants topic (sc_name cfg) (sc_group cfg))) (\<lambda>read.
      and_then (case read of
          Inl _ \<Rightarrow> ok ()
        | Inr mine \<Rightarrow>
            and_then (attempt (active_subscribers tenants topic (sc_group cfg) (sc_lease_duration cfg))) (\<lambda>active.
            case active of
              Inl _ \<Rightarrow> ok ()
            | Inr as \<Rightarrow> for_each (\<lambda>t. and_then (attempt (rebalance sub t (partition_keys_for_tenant mine t) (active_of t as))) (\<lambda>_. ok ())) tenants)) (\<lambda>_.
      and_then (attempt (renew_owned_leases tenants topic (sc_name cfg) (sc_group cfg))) (\<lambda>_.
      and_then (attempt (send_heartbeats sub)) (\<lambda>_.
      and_then (attempt (purge_stale_heartbeats tenants topic (sc_group cfg) (10 * sc_lease_duration cfg))) (\<lambda>_.
      and_then (attempt (purge_stale_leases tenants topic (sc_group cfg) (10 * sc_lease_duration cfg))) (\<lambda>_. ok ())))))))"

section \<open>Start and shutdown\<close>

fun release_tenants :: "subscription \<Rightarrow> string list \<Rightarrow> goerr option \<Rightarrow> ('m, unit) qop" where
  "release_tenants sub [] err = (case err of None \<Rightarrow> ok () | Some e \<Rightarrow> fail e)"
| "release_tenants sub (t # ts) err =
     and_then (attempt (release_owned_leases [t] (su_topic sub) (sc_name (su_config sub)) (sc_group (su_config sub)))) (\<lambda>r.
     case r of
       Inl e \<Rightarrow> release_tenants sub ts (if err = None then Some (Wrapped ''release owned leases'' e) else err)
     | Inr _ \<Rightarrow> release_tenants sub ts err)"

definition release_all_leases :: "subscription \<Rightarrow> ('m, unit) qop" where
  "release_all_leases sub = release_tenants sub (su_tenants sub) None"

definition manage_start :: "subscription \<Rightarrow> unit mop" where
  "manage_start sub = and_then q_now (\<lambda>now w.
     and_then (attempt (send_heartbeats sub)) (\<lambda>_. ok ()) (w\<lparr>mg_last_sweep := now\<rparr>))"

definition manage_stop :: "subscription \<Rightarrow> unit mop" where
  "manage_stop sub =
     and_then stop_all_workers (\<lambda>_.
     and_then (attempt (release_all_leases sub)) (\<lambda>_.
     and_then (attempt (deregister_heartbeat sub)) (\<lambda>_. ok ())))"

section \<open>Subscribing\<close>

text \<open>
  A subscriber's live subscriptions by topic and group; a subscription is the number of its channel,
  and \<open>sb_ended\<close> are the channels whose supervisor has exited and closed them.
\<close>

record subscriber =
  sb_tenants :: "string list"
  sb_closed :: bool
  sb_subscriptions :: "string \<rightharpoonup> nat"
  sb_ended :: "nat set"
  sb_next :: nat

definition invalid_config :: goerr where
  "invalid_config = Plain ''invalid subscription config''"

definition subscriber_closed :: goerr where
  "subscriber_closed = Plain ''subscriber is closed''"

fun valid_tenants :: "string list \<Rightarrow> bool" where
  "valid_tenants [] = True"
| "valid_tenants (t # ts) = (case validate_ascii_identifier ''tenant'' t of Inl _ \<Rightarrow> False | Inr _ \<Rightarrow> valid_tenants ts)"

definition subscribe :: "string \<Rightarrow> subscription_config \<Rightarrow> subscriber \<Rightarrow> (goerr + nat) \<times> subscriber" where
  "subscribe topic cfg s =
     (case validate_ascii_identifier ''topic'' topic of
       Inl _ \<Rightarrow> (Inl (Wrapped ''subscribe'' invalid_config), s)
     | Inr _ \<Rightarrow> (case validate_ascii_identifier ''consumer group'' (sc_group cfg) of
       Inl _ \<Rightarrow> (Inl (Wrapped ''subscribe'' invalid_config), s)
     | Inr _ \<Rightarrow> (case validate_ascii_identifier ''subscriber name'' (sc_name cfg) of
       Inl _ \<Rightarrow> (Inl (Wrapped ''subscribe'' invalid_config), s)
     | Inr _ \<Rightarrow> (case validate_retry_config (sc_retry cfg) of
       Inl _ \<Rightarrow> (Inl (Wrapped ''subscribe'' invalid_config), s)
     | Inr _ \<Rightarrow>
         if sb_closed s then (Inl subscriber_closed, s)
         else if sb_tenants s = [] then (Inl (Wrapped ''no tenants configured'' invalid_config), s)
         else if \<not> valid_tenants (sb_tenants s) then (Inl (Wrapped ''subscribe'' invalid_config), s)
         else
           let key = topic @ '':'' @ sc_group cfg;
               fresh = (Inr (sb_next s), s\<lparr>sb_subscriptions := (sb_subscriptions s)(key \<mapsto> sb_next s), sb_next := Suc (sb_next s)\<rparr>) in
           (case sb_subscriptions s key of
              None \<Rightarrow> fresh
            | Some c \<Rightarrow> if c \<in> sb_ended s then fresh else (Inr c, s))))))"

text \<open>\<open>Close\<close> cancels every subscription; those that have shut down in time are in \<open>ended\<close>.\<close>

definition close_subscriber :: "nat set \<Rightarrow> subscriber \<Rightarrow> (goerr + unit) \<times> subscriber" where
  "close_subscriber ended s =
     (if sb_closed s then (Inr (), s)
      else (if ran (sb_subscriptions s) \<subseteq> sb_ended s \<union> ended then Inr () else Inl (Plain ''subscription shutdown timed out''),
        s\<lparr>sb_closed := True, sb_subscriptions := Map.empty, sb_ended := sb_ended s \<union> ended\<rparr>))"

end
