(* ===== verification/Consumer.thy ===== *)
theory Consumer
  imports QueueTriples QueueLease
begin

text \<open>
  The consumer framework (\<open>platform/consumer\<close>): the topic registry, the life cycle of the
  consumer, what it does with a delivery - the gate, the controller, and exactly one of ack, nack,
  reject and postpone - and the loop that keeps the deliveries of a partition in order.  Controllers,
  the error processor and the gate are arguments; a controller returns its error, if any, and the
  wrapper with the holds it recorded.  The subscriptions below it are those of QueueLease.
\<close>

section \<open>Topic registry\<close>

type_synonym topic_name = string

record topic_config =
  tg_key :: string
  tg_name :: topic_name
  tg_queue :: nat
  tg_subscription :: "subscription_config option"

record topic_registry =
  tr_queues :: "string \<rightharpoonup> nat"
  tr_names :: "string \<rightharpoonup> topic_name"
  tr_subscriptions :: "string \<times> string \<rightharpoonup> subscription_config"

definition topic_char :: "char \<Rightarrow> bool" where
  "topic_char c \<longleftrightarrow> c \<in> set ''abcdefghijklmnopqrstuvwxyz0123456789_-''"

definition validate_topic_name :: "topic_name \<Rightarrow> goerr + unit" where
  "validate_topic_name n =
     (if n = [] then Inl (Plain ''topic name cannot be empty'')
      else if length n > 255 then Inl (Plain ''topic name too long (max 255 characters)'')
      else if \<not> list_all topic_char n
        then Inl (Plain ''topic name must contain only lowercase letters, numbers, underscores, and hyphens'')
      else Inr ())"

text \<open>
  A configuration whose subscription has no consumer group is a publish-only topic; it is \<open>None\<close> or
  has an empty group here.
\<close>

fun register_topics :: "topic_config list \<Rightarrow> topic_registry \<Rightarrow> goerr + topic_registry" where
  "register_topics [] r = Inr r"
| "register_topics (c # cs) r = (case validate_topic_name (tg_name c) of
     Inl e \<Rightarrow> Inl (Wrapped ''invalid topic name for key'' e)
   | Inr _ \<Rightarrow>
       if tr_names r (tg_key c) \<noteq> None then Inl (Plain ''duplicate topic key'')
       else register_topics cs
         (r\<lparr>tr_queues := (tr_queues r)(tg_key c \<mapsto> tg_queue c), tr_names := (tr_names r)(tg_key c \<mapsto> tg_name c),
            tr_subscriptions := (case tg_subscription c of
                None \<Rightarrow> tr_subscriptions r
              | Some s \<Rightarrow> if sc_group s = [] then tr_subscriptions r
                  else (tr_subscriptions r)((tg_key c, sc_group s) \<mapsto> s))\<rparr>))"

definition new_topic_registry :: "topic_config list \<Rightarrow> goerr + topic_registry" where
  "new_topic_registry cs = register_topics cs \<lparr>tr_queues = Map.empty, tr_names = Map.empty, tr_subscriptions = Map.empty\<rparr>"

definition registry_queue :: "topic_registry \<Rightarrow> string \<Rightarrow> nat option" where
  "registry_queue r key = tr_queues r key"

definition registry_topic_name :: "topic_registry \<Rightarrow> string \<Rightarrow> topic_name option" where
  "registry_topic_name r key = tr_names r key"

definition registry_subscription :: "topic_registry \<Rightarrow> string \<Rightarrow> string \<Rightarrow> subscription_config option" where
  "registry_subscription r key grp = tr_subscriptions r (key, grp)"

section \<open>Life cycle\<close>

text \<open>
  What the consumer knows of a controller, and its active subscriptions with the channel each reads.
  The subscribers of the queue backends live outside it.
\<close>

record controller_info =
  ct_name :: string
  ct_key :: string
  ct_group :: string

record consumer =
  cn_registry :: topic_registry
  cn_stopped :: bool
  cn_controllers :: "controller_info list"
  cn_subscriptions :: "string \<rightharpoonup> controller_info \<times> nat \<times> nat"
  cn_subscribers :: "nat \<Rightarrow> subscriber"

definition new_consumer :: "topic_registry \<Rightarrow> (nat \<Rightarrow> subscriber) \<Rightarrow> consumer" where
  "new_consumer r subs = \<lparr>cn_registry = r, cn_stopped = False, cn_controllers = [], cn_subscriptions = Map.empty,
     cn_subscribers = subs\<rparr>"

definition register :: "controller_info \<Rightarrow> consumer \<Rightarrow> (goerr + unit) \<times> consumer" where
  "register c m =
     (if cn_stopped m then (Inl (Plain ''consumer is stopped''), m)
      else if list_ex (\<lambda>c'. ct_key c' = ct_key c) (cn_controllers m)
        then (Inl (Plain ''controller for topic key already registered''), m)
      else (Inr (), m\<lparr>cn_controllers := cn_controllers m @ [c]\<rparr>))"

definition consumer_subscribe :: "controller_info \<Rightarrow> (consumer, goerr, unit) act" where
  "consumer_subscribe c m =
     (case registry_subscription (cn_registry m) (ct_key c) (ct_group c) of
        None \<Rightarrow> (Inl (Plain ''no subscription config for topic key''), m)
      | Some cfg \<Rightarrow> (case registry_queue (cn_registry m) (ct_key c) of
          None \<Rightarrow> (Inl (Plain ''no queue registered for topic key''), m)
        | Some q \<Rightarrow> (case registry_topic_name (cn_registry m) (ct_key c) of
            None \<Rightarrow> (Inl (Plain ''no topic name registered for topic key''), m)
          | Some n \<Rightarrow> (case subscribe n cfg (cn_subscribers m q) of
              (Inl e, s) \<Rightarrow> (Inl (Wrapped ''subscribe failed'' e), m\<lparr>cn_subscribers := (cn_subscribers m)(q := s)\<rparr>)
            | (Inr ch, s) \<Rightarrow> (Inr (), m\<lparr>cn_subscribers := (cn_subscribers m)(q := s),
                cn_subscriptions := (cn_subscriptions m)(ct_key c \<mapsto> (c, q, ch))\<rparr>)))))"

text \<open>\<open>slow\<close> are the topic keys whose consume loop does not end within the shared timeout.\<close>

definition unsubscribe_all :: "string set \<Rightarrow> (consumer, goerr, unit) act" where
  "unsubscribe_all slow m =
     (if dom (cn_subscriptions m) \<inter> slow = {} then Inr () else Inl (Plain ''timeout waiting for controllers to stop''),
      m\<lparr>cn_subscriptions := Map.empty\<rparr>)"

text \<open>\<open>errors.Join\<close> of the start error and the cleanup's keeps the first here.\<close>

fun start_controllers :: "string set \<Rightarrow> controller_info list \<Rightarrow> (consumer, goerr, unit) act" where
  "start_controllers slow [] = ok ()"
| "start_controllers slow (c # cs) = and_then (attempt (consumer_subscribe c)) (\<lambda>r. case r of
     Inl e \<Rightarrow> and_then (attempt (unsubscribe_all slow)) (\<lambda>_. fail (Wrapped ''failed to start controller'' e))
   | Inr _ \<Rightarrow> start_controllers slow cs)"

definition consumer_start :: "string set \<Rightarrow> (consumer, goerr, unit) act" where
  "consumer_start slow m =
     (if cn_stopped m then (Inl (Plain ''consumer is stopped''), m)
      else if cn_controllers m = [] then (Inl (Plain ''no controllers registered''), m)
      else start_controllers slow (cn_controllers m) m)"

definition consumer_stop :: "string set \<Rightarrow> (consumer, goerr, unit) act" where
  "consumer_stop slow m = unsubscribe_all slow (m\<lparr>cn_stopped := True\<rparr>)"

section \<open>The failure of an error\<close>

definition new_failure :: "string \<Rightarrow> failure" where
  "new_failure m = \<lparr>f_message = m, f_subjects = [], f_detail = []\<rparr>"

definition attributed_failure :: "goerr \<Rightarrow> failure" where
  "attributed_failure e = \<lparr>f_message = error_text e, f_subjects = attribution e, f_detail = attributed_detail e\<rparr>"

section \<open>Deliveries as controllers see them\<close>

record delivery_wrapper =
  dw_delivery :: sql_delivery
  dw_held :: bool
  dw_hold_delay :: int

definition wrap_delivery :: "sql_delivery \<Rightarrow> delivery_wrapper" where
  "wrap_delivery h = \<lparr>dw_delivery = h, dw_held = False, dw_hold_delay = 0\<rparr>"

definition hold :: "int \<Rightarrow> delivery_wrapper \<Rightarrow> delivery_wrapper" where
  "hold delay dw = dw\<lparr>dw_held := True, dw_hold_delay := (if delay < 0 then 0 else delay)\<rparr>"

definition wrapper_extend :: "delivery_wrapper \<Rightarrow> int \<Rightarrow> ('m, unit) qop" where
  "wrapper_extend dw duration = delivery_extend (dw_delivery dw) duration"

definition wrapper_view :: "delivery_wrapper \<Rightarrow> delivery" where
  "wrapper_view dw = delivery_of (dw_delivery dw)"

type_synonym 'w process = "delivery_wrapper \<Rightarrow> 'w \<Rightarrow> (goerr option \<times> delivery_wrapper) \<times> 'w"

definition run_process :: "'w process \<Rightarrow> delivery_wrapper \<Rightarrow> ('w, goerr, goerr option \<times> delivery_wrapper) act" where
  "run_process p dw = (\<lambda>w. case p dw w of (r, w') \<Rightarrow> (Inr r, w'))"

section \<open>The gate\<close>

record gate_key =
  gk_group :: string
  gk_tenant :: string
  gk_partition :: string

record gate_descriptor =
  gd_topic :: string
  gd_message_id :: string
  gd_payload :: payload
  gd_attempt :: int

text \<open>\<open>Enter\<close> returns whether the entry is blocked; \<open>Park\<close> and \<open>Unpark\<close> are the entry's.\<close>

record 'w gate =
  ga_enter :: "gate_key \<Rightarrow> ('w, goerr, bool) act"
  ga_park :: "gate_key \<Rightarrow> gate_descriptor \<Rightarrow> ('w, goerr, unit) act"
  ga_unpark :: "gate_key \<Rightarrow> gate_descriptor \<Rightarrow> ('w, goerr, unit) act"

definition noop_gate :: "'w gate" where
  "noop_gate = \<lparr>ga_enter = (\<lambda>_. ok False), ga_park = (\<lambda>_ _. ok ()), ga_unpark = (\<lambda>_ _. ok ())\<rparr>"

definition context_canceled :: goerr where
  "context_canceled = Plain ''context canceled''"

definition gate_recheck_delay_ms :: int where
  "gate_recheck_delay_ms = 1000"

text \<open>An outcome whose error is only logged.\<close>

definition logged :: "('w, goerr, 'a) act \<Rightarrow> ('w, goerr, unit) act" where
  "logged m = and_then (attempt m) (\<lambda>_. ok ())"

definition gate_key_of :: "controller_info \<Rightarrow> message \<Rightarrow> gate_key" where
  "gate_key_of c m = \<lparr>gk_group = ct_group c, gk_tenant = m_tenant m, gk_partition = m_partition m\<rparr>"

definition check_gate :: "'m qworld_scheme gate \<Rightarrow> controller_info \<Rightarrow> sql_delivery \<Rightarrow> ('m, bool) qop" where
  "check_gate gate c h =
     (let msg = sd_message h; key = gate_key_of c msg;
          descriptor = \<lparr>gd_topic = ct_key c, gd_message_id = m_id msg, gd_payload = m_payload msg, gd_attempt = sd_attempt h\<rparr> in
      and_then (attempt (ga_enter gate key)) (\<lambda>entered.
      case entered of
        Inl e \<Rightarrow> ok (\<not> errors_is e context_canceled)
      | Inr False \<Rightarrow> and_then (logged (ga_unpark gate key descriptor)) (\<lambda>_. ok True)
      | Inr True \<Rightarrow>
          and_then (logged (ga_park gate key descriptor)) (\<lambda>_.
          and_then (logged (delivery_postpone h gate_recheck_delay_ms)) (\<lambda>_. ok False))))"

section \<open>Processing a delivery\<close>

definition process_delivery ::
  "float_ops \<Rightarrow> 'm qworld_scheme gate \<Rightarrow> (goerr option \<Rightarrow> goerr option) \<Rightarrow> controller_info \<Rightarrow> 'm qworld_scheme process \<Rightarrow> sql_delivery \<Rightarrow> ('m, unit) qop" where
  "process_delivery ops gate processor c process h =
     and_then (check_gate gate c h) (\<lambda>admitted.
     if \<not> admitted then ok ()
     else and_then (run_process process (wrap_delivery h)) (\<lambda>(err, dw).
       case (case err of None \<Rightarrow> None | Some _ \<Rightarrow> processor err) of
         Some e \<Rightarrow>
           if \<not> is_retryable e then logged (delivery_reject h (attributed_failure e))
           else logged (delivery_nack ops h (attributed_failure e))
       | None \<Rightarrow>
           if dw_held dw then logged (delivery_postpone h (dw_hold_delay dw)) else logged (delivery_ack h)))"

definition reject_delivery_with_invalid_tenant :: "sql_delivery \<Rightarrow> ('m, bool) qop" where
  "reject_delivery_with_invalid_tenant h = (case validate_tenant_metadata (sd_message h) of
     Inl e \<Rightarrow> and_then (logged (delivery_reject h (new_failure (error_text e)))) (\<lambda>_. ok True)
   | Inr _ \<Rightarrow> ok False)"

section \<open>The consume loop\<close>

text \<open>
  One loop's goroutines: the deliveries waiting in the channel of each tenant-scoped partition, and
  what the loop has taken from the subscriber and the partitions have begun, oldest first.  A step is
  one goroutine's: a receive and its hand-over, one delivery processed, or the end of the context,
  after which a partition drops what is left in its channel.
\<close>

type_synonym identity = "string \<times> string"

definition partition_identity :: "sql_delivery \<Rightarrow> identity" where
  "partition_identity h = (m_tenant (sd_message h), m_partition (sd_message h))"

record consume_loop =
  cl_channels :: "identity \<Rightarrow> sql_delivery list"
  cl_cancelled :: bool
  cl_received :: "sql_delivery list"
  cl_begun :: "sql_delivery list"

datatype loop_step = Receive sql_delivery | Work identity | Cancel | Drop identity

definition has_room :: "nat \<Rightarrow> sql_delivery list \<Rightarrow> bool" where
  "has_room cap ch \<longleftrightarrow> length ch < max 1 cap"

text \<open>\<open>None\<close> is a step that cannot be taken now: the goroutine waits.\<close>

definition loop_step_run ::
  "(sql_delivery \<Rightarrow> ('m, unit) qop) \<Rightarrow> nat \<Rightarrow> loop_step \<Rightarrow> consume_loop \<times> 'm qworld_scheme \<Rightarrow>
   (consume_loop \<times> 'm qworld_scheme) option" where
  "loop_step_run work cap s = (\<lambda>(l, w). case s of
     Receive h \<Rightarrow>
       (case reject_delivery_with_invalid_tenant h w of
          (Inr False, w') \<Rightarrow>
            let p = partition_identity h in
            if has_room cap (cl_channels l p)
            then Some (l\<lparr>cl_channels := (cl_channels l)(p := cl_channels l p @ [h]), cl_received := cl_received l @ [h]\<rparr>, w')
            else None
        | (_, w') \<Rightarrow> Some (l, w'))
   | Work p \<Rightarrow> (case cl_channels l p of
       [] \<Rightarrow> None
     | h # hs \<Rightarrow>
         if cl_cancelled l then None
         else Some (l\<lparr>cl_channels := (cl_channels l)(p := hs), cl_begun := cl_begun l @ [h]\<rparr>, snd (work h w)))
   | Cancel \<Rightarrow> Some (l\<lparr>cl_cancelled := True\<rparr>, w)
   | Drop p \<Rightarrow> if cl_cancelled l then Some (l\<lparr>cl_channels := (cl_channels l)(p := [])\<rparr>, w) else None)"

inductive loop_run for work :: "sql_delivery \<Rightarrow> ('m, unit) qop" and cap :: nat where
  opened: "loop_run work cap (\<lparr>cl_channels = (\<lambda>_. []), cl_cancelled = False, cl_received = [], cl_begun = []\<rparr>, w)"
| step: "loop_run work cap x \<Longrightarrow> loop_step_run work cap s x = Some y \<Longrightarrow> loop_run work cap y"

section \<open>What it does to the queue\<close>

lemma safe_logged: "safe K m \<Longrightarrow> safe K (logged m)"
  unfolding logged_def by (intro safe_intros)

definition safe_gate :: "(part \<times> string) set \<Rightarrow> 'm qworld_scheme gate \<Rightarrow> bool" where
  "safe_gate K gate \<longleftrightarrow> (\<forall>k d. safe K (ga_enter gate k) \<and> safe K (ga_park gate k d) \<and> safe K (ga_unpark gate k d))"

lemma safe_noop_gate: "safe_gate K noop_gate"
  by (simp add: safe_gate_def noop_gate_def safe_ok)

lemma safe_check_gate: "safe_gate K gate \<Longrightarrow> safe K (check_gate gate c h)"
  unfolding check_gate_def Let_def
  by (intro safe_bind safe_attempt queue.triple_case_sum queue.triple_if safe_logged safe_ok safe_delivery_methods)
    (auto simp: safe_gate_def intro!: safe_bind safe_logged safe_ok safe_delivery_methods split: bool.split)

lemma safe_process_delivery:
  assumes "dead_letters_aside K (sd_dlq h) (sd_part h)" and "safe_gate K gate" and "safe K (run_process process (wrap_delivery h))"
  shows "safe K (process_delivery ops gate processor c process h)"
  unfolding process_delivery_def
  by (intro safe_bind safe_check_gate queue.triple_if safe_ok assms queue.triple_case_prod queue.triple_case_option
      safe_logged safe_delivery_methods)

end
