(* ===== verification/QueueHistory.thy ===== *)
theory QueueHistory
  imports Consumer
begin

text \<open>
  Histories of the message queue: any number of workers polling and of consumers processing and
  settling their deliveries, one within another, any of their calls failing before or after it took effect, with
  publishers' transactions in between.  What is assumed is that offset rows of the subscriptions
  \<open>K\<close> are not deleted and that the rows of a partition are committed in the order of their offsets.
\<close>

datatype queue_job =
    Poll subscription_config part
  | Ack sql_delivery
  | Nack sql_delivery failure
  | Postpone sql_delivery int
  | Reject sql_delivery failure
  | Extend sql_delivery int
  | Process "worker gate" "goerr option \<Rightarrow> goerr option" controller_info "worker process" sql_delivery

definition run_queue_job :: "float_ops \<Rightarrow> queue_job \<Rightarrow> worker \<Rightarrow> worker" where
  "run_queue_job ops j w = (case j of
     Poll cfg p \<Rightarrow> snd (poll_and_deliver cfg p w)
   | Ack h \<Rightarrow> snd (delivery_ack h w)
   | Nack h f \<Rightarrow> snd (delivery_nack ops h f w)
   | Postpone h delay \<Rightarrow> snd (delivery_postpone h delay w)
   | Reject h f \<Rightarrow> snd (delivery_reject h f w)
   | Extend h delay \<Rightarrow> snd (delivery_extend h delay w)
   | Process gate processor c process h \<Rightarrow> snd (process_delivery ops gate processor c process h w))"

text \<open>A job dead-letters only to partitions outside \<open>K\<close>, and what a controller does keeps the contract.\<close>

definition job_aside :: "(part \<times> string) set \<Rightarrow> queue_job \<Rightarrow> bool" where
  "job_aside K j \<longleftrightarrow> (case j of
     Poll cfg p \<Rightarrow> dead_letters_aside K (sc_dlq cfg) p
   | Nack h f \<Rightarrow> dead_letters_aside K (sd_dlq h) (sd_part h)
   | Reject h f \<Rightarrow> dead_letters_aside K (sd_dlq h) (sd_part h)
   | Process gate processor c process h \<Rightarrow> dead_letters_aside K (sd_dlq h) (sd_part h) \<and> safe_gate K gate \<and>
       safe K (run_process process (wrap_delivery h))
   | _ \<Rightarrow> True)"

text \<open>Transaction \<open>tx\<close> may commit: nothing older is still open in its partitions.\<close>

definition commit_in_order :: "(part \<times> string) set \<Rightarrow> nat \<Rightarrow> qdb \<Rightarrow> bool" where
  "commit_in_order K tx d \<longleftrightarrow> (\<forall>e\<in>set (q_uncommitted d). \<forall>e'\<in>set (q_uncommitted d).
     fst e = tx \<longrightarrow> fst e' \<noteq> tx \<longrightarrow> mr_part (snd e) = mr_part (snd e') \<longrightarrow> covered K (mr_part (snd e)) \<longrightarrow>
     mr_offset (snd e) < mr_offset (snd e'))"

inductive queue_interferes :: "(part \<times> string) set \<Rightarrow> float_ops \<Rightarrow> (qdb \<Rightarrow> qdb) \<Rightarrow> bool" for K ops where
  idle: "queue_interferes K ops (\<lambda>d. d)"
| job: "job_aside K j \<Longrightarrow> (\<And>ev. ev \<in> set (w_script w) \<Longrightarrow> queue_interferes K ops (ev_other ev)) \<Longrightarrow>
    queue_interferes K ops (\<lambda>d. w_db (run_queue_job ops j (w\<lparr>w_db := d\<rparr>)))"
| begun: "queue_interferes K ops (\<lambda>d. snd (begin_tx d))"
| inserted: "queue_interferes K ops (\<lambda>d. snd (insert_stmt tx m d))"
| committed: "queue_interferes K ops (\<lambda>d. if commit_in_order K tx d then snd (commit_tx tx d) else d)"
| rolled_back: "queue_interferes K ops (rollback_tx tx)"
| leased: "queue_interferes K ops (\<lambda>d. d\<lparr>q_leases := ls d, q_heartbeats := hs d\<rparr>)"
| several: "queue_interferes K ops f \<Longrightarrow> queue_interferes K ops g \<Longrightarrow> queue_interferes K ops (\<lambda>d. g (f d))"

inductive queue_history :: "(part \<times> string) set \<Rightarrow> float_ops \<Rightarrow> qdb \<Rightarrow> qdb \<Rightarrow> bool" for K ops where
  start: "queue_history K ops d d"
| worked: "queue_history K ops d (w_db w) \<Longrightarrow> job_aside K j \<Longrightarrow>
    (\<And>ev. ev \<in> set (w_script w) \<Longrightarrow> queue_interferes K ops (ev_other ev)) \<Longrightarrow>
    queue_history K ops d (w_db (run_queue_job ops j w))"
| others: "queue_history K ops d d' \<Longrightarrow> queue_interferes K ops f \<Longrightarrow> queue_history K ops d (f d')"

lemma job_evolves:
  assumes "job_aside K j" and "abides (orderly K) (evolves K) w" and "orderly K (w_db w)"
  shows "evolves K (w_db w) (w_db (run_queue_job ops j w))"
proof (cases j)
  case (Poll cfg p)
  with assms(1) have "safe K (poll_and_deliver cfg p)" by (intro safe_poll) (simp add: job_aside_def)
  from triple_evolves [OF this assms(2,3)] Poll show ?thesis by (simp add: run_queue_job_def)
next
  case (Ack h)
  from triple_evolves [OF safe_delivery_methods(1) assms(2,3)] Ack show ?thesis by (simp add: run_queue_job_def)
next
  case (Nack h f)
  with assms(1) have "safe K (delivery_nack ops h f)" by (intro safe_delivery_methods(2)) (simp add: job_aside_def)
  from triple_evolves [OF this assms(2,3)] Nack show ?thesis by (simp add: run_queue_job_def)
next
  case (Postpone h delay)
  from triple_evolves [OF safe_delivery_methods(3) assms(2,3)] Postpone show ?thesis by (simp add: run_queue_job_def)
next
  case (Reject h f)
  with assms(1) have "safe K (delivery_reject h f)" by (intro safe_delivery_methods(4)) (simp add: job_aside_def)
  from triple_evolves [OF this assms(2,3)] Reject show ?thesis by (simp add: run_queue_job_def)
next
  case (Extend h delay)
  from triple_evolves [OF safe_delivery_methods(5) assms(2,3)] Extend show ?thesis by (simp add: run_queue_job_def)
next
  case (Process gate processor c process h)
  with assms(1) have "safe K (process_delivery ops gate processor c process h)"
    by (intro safe_process_delivery) (simp_all add: job_aside_def)
  from triple_evolves [OF this assms(2,3)] Process show ?thesis by (simp add: run_queue_job_def)
qed

lemma interference_evolves: "queue_interferes K ops f \<Longrightarrow> orderly K d \<Longrightarrow> evolves K d (f d)"
proof (induction arbitrary: d rule: queue_interferes.induct)
  case idle
  show ?case by (rule evolves_refl)
next
  case (job j w)
  then have "abides (orderly K) (evolves K) (w\<lparr>w_db := d\<rparr>)" by (simp add: abides_def)
  from job_evolves [OF job.hyps(1) this] job.prems show ?case by simp
next
  case (committed tx)
  have "evolves K d (snd (commit_tx tx d))" if "commit_in_order K tx d"
    by (rule evolves_commit) (use that in \<open>simp add: commit_in_order_def\<close>)
  then show ?case by (simp add: evolves_refl)
next
  case (leased ls hs)
  show ?case by (rule evolves_unrelated) simp_all
next
  case (several f g)
  from several.IH(1) [OF several.prems] have step: "evolves K d (f d)" .
  with several.prems have "orderly K (f d)" by (simp add: evolves_def)
  from evolves_trans [OF step several.IH(2) [OF this]] show ?case .
qed (rule evolves_begin evolves_insert evolves_rollback)+

lemma history_evolves: "queue_history K ops d d' \<Longrightarrow> orderly K d \<Longrightarrow> evolves K d d'"
proof (induction rule: queue_history.induct)
  case (start d)
  show ?case by (rule evolves_refl)
next
  case (worked d w j)
  from worked.IH [OF worked.prems] have step: "evolves K d (w_db w)" .
  with worked.prems have ok: "orderly K (w_db w)" by (simp add: evolves_def)
  have "abides (orderly K) (evolves K) w"
    using worked.hyps(3) by (auto simp: abides_def intro: interference_evolves)
  from evolves_trans [OF step job_evolves [OF worked.hyps(2) this ok]] show ?case .
next
  case (others d d' f)
  from others.IH [OF others.prems] have step: "evolves K d d'" .
  with others.prems have "orderly K d'" by (simp add: evolves_def)
  from evolves_trans [OF step interference_evolves [OF others.hyps(2) this]] show ?case .
qed

section \<open>What every history keeps\<close>

definition empty_queue :: "offset_row list \<Rightarrow> qdb" where
  "empty_queue os = \<lparr>q_rows = [], q_uncommitted = [], q_next_offset = 1, q_next_tx = 0, q_delivery = Map.empty,
     q_offsets = os, q_leases = [], q_heartbeats = [], q_acks = {}, q_dead = {}\<rparr>"

definition sample_part :: part where
  "sample_part = \<lparr>pt_tenant = ''t'', pt_topic = ''build'', pt_key = ''q''\<rparr>"

definition sample_row :: "nat \<Rightarrow> message_row" where
  "sample_row n = \<lparr>mr_part = sample_part, mr_offset = n, mr_msg_id = ''m'', mr_payload = PId ''b'' ''q'', mr_metadata = Map.empty,
     mr_created_at = 0, mr_published_at = 0, mr_failed_at = 0, mr_failure_count = 0, mr_last_error = [],
     mr_original_topic = [], mr_failure_detail = None\<rparr>"

text \<open>
  One message, acknowledged by its group, whose watermark is still before it; the worker's next poll
  is the one that collects garbage.
\<close>

definition sample_queue :: qdb where
  "sample_queue = (empty_queue [\<lparr>of_part = sample_part, of_group = ''g'', of_acked = 0\<rparr>])
     \<lparr>q_rows := [sample_row 1], q_next_offset := 2, q_acks := {(''g'', sample_part, 1)},
      q_delivery := [(''g'', sample_part, 1) \<mapsto>
        \<lparr>ds_acked = True, ds_invisible_until = 0, ds_retry_count = 0, ds_postponed = False\<rparr>]\<rparr>"

definition sample_worker :: worker where
  "sample_worker = \<lparr>w_db = sample_queue, w_script = [], qw_clock = (\<lambda>_. 1000), qw_ticks = 0, wk_initialized = True,
     wk_gc_counter = 99, wk_sent = [], wk_accepts = (\<lambda>_. True)\<rparr>"

abbreviation sample_subscriptions :: "(part \<times> string) set" where
  "sample_subscriptions \<equiv> {(sample_part, ''g'')}"

lemma sample_queue_orderly: "orderly sample_subscriptions sample_queue"
  by (simp add: orderly_def numbered_def committed_in_order_def acks_logged_def watermarks_passed_def established_def
      passed_def sample_queue_def empty_queue_def sample_row_def)

lemma sample_poll_history:
  "queue_history sample_subscriptions ops sample_queue
     (w_db (run_queue_job ops (Poll (dlq_subscription_config ''n'' ''g'') sample_part) sample_worker))"
  by (rule queue_history.worked)
    (simp_all add: sample_worker_def queue_history.start job_aside_def dead_letters_aside_def
      dlq_subscription_config_def default_subscription_config_def Let_def)

lemmas poll_defs = run_queue_job_def poll_and_deliver_def ensure_offset_def get_acked_offset_def offset_of_def
  fetch_by_offset_def rows_above_def get_delivery_state_def q_now_def row_verdict_def db_op_def
  advance_watermark_def get_offsets_above_def watermark_advancement_limit_def store_advance_watermark_def
  acked_flags_def cleanup_stmt_def update_acked_offset_def offset_update_stmt_def gc_tick_def
  gc_tick_interval_def garbage_collect_def get_min_acked_offset_def min_acked_def message_gc_def gc_stmt_def

lemma sample_poll:
  "w_db (run_queue_job ops (Poll (dlq_subscription_config ''n'' ''g'') sample_part) sample_worker) =
     sample_queue\<lparr>q_rows := [], q_offsets := [\<lparr>of_part = sample_part, of_group = ''g'', of_acked = 1\<rparr>],
       q_delivery := Map.empty\<rparr>"
  by (simp add: poll_defs act_simps Let_def fun_eq_iff sample_worker_def sample_queue_def empty_queue_def
      sample_row_def dlq_subscription_config_def default_subscription_config_def)

text \<open>
  C18. No message is lost.  Whatever polls, acknowledgements, retries, postponements, dead-letterings and
  publications happen to a queue whose commits are in order, nested in one another and with failing calls,
  a stored message is still there, or every established consumer group has acknowledged it, or the rejection
  of one group has moved it to the dead-letter topic - which takes the shared row from all groups, also
  from those that did neither.
\<close>
theorem queue_loses_nothing:
  assumes "queue_history K ops d d'" and "orderly K d" and "m \<in> set (q_rows d)" and "covered K (mr_part m)"
  shows "m \<in> set (q_rows d') \<or> (mr_part m, mr_msg_id m) \<in> q_dead d' \<or>
    (\<forall>g. (mr_part m, g) \<in> K \<longrightarrow> (g, mr_part m, mr_offset m) \<in> q_acks d')"
proof -
  from history_evolves [OF assms(1,2)] have "no_message_lost K d d'" by (simp add: evolves_def)
  with assms(3,4) show ?thesis unfolding no_message_lost_def by blast
qed

lemma queue_loses_nothing_witness:
  "\<forall>ops. (''g'', sample_part, 1) \<in>
     q_acks (w_db (run_queue_job ops (Poll (dlq_subscription_config ''n'' ''g'') sample_part) sample_worker))"
proof
  fix ops
  from queue_loses_nothing [OF sample_poll_history [of ops] sample_queue_orderly, of "sample_row 1"]
  show "(''g'', sample_part, 1) \<in>
     q_acks (w_db (run_queue_job ops (Poll (dlq_subscription_config ''n'' ''g'') sample_part) sample_worker))"
    unfolding sample_poll by (simp add: sample_queue_def empty_queue_def sample_row_def covered_def)
qed

text \<open>
  A consumer group's watermark passes a message only after the group has acknowledged it, or the
  message has gone to its dead-letter topic.
\<close>
theorem watermark_passes_acked:
  assumes "queue_history K ops d d'" and "orderly K d" and "m \<in> set (q_rows d)" and "(mr_part m, g) \<in> K"
    and "offset_of (mr_part m) g d' = Some n" and "mr_offset m \<le> n"
  shows "(g, mr_part m, mr_offset m) \<in> q_acks d' \<or> (mr_part m, mr_msg_id m) \<in> q_dead d'"
proof -
  from history_evolves [OF assms(1,2)] assms(2) have ok: "orderly K d'" and kept: "no_message_lost K d d'"
    by (simp_all add: evolves_def)
  from assms(5) obtain r where "find_first (\<lambda>r. of_part r = mr_part m \<and> of_group r = g) (q_offsets d') = Some r"
    and n: "n = of_acked r" by (auto simp: offset_of_def)
  then have "r \<in> set (q_offsets d')" "of_part r = mr_part m" "of_group r = g"
    using find_first_Some by fastforce+
  with ok assms(4) n have passed: "passed (mr_part m) g n d'"
    by (auto simp: orderly_def watermarks_passed_def)
  from kept assms(3) coveredI [OF assms(4)] consider "m \<in> set (q_rows d')" | "(mr_part m, mr_msg_id m) \<in> q_dead d'"
    | "\<forall>g. (mr_part m, g) \<in> K \<longrightarrow> (g, mr_part m, mr_offset m) \<in> q_acks d'"
    unfolding no_message_lost_def by blast
  then show ?thesis
  proof cases
    case 1
    with passed assms(6) show ?thesis by (auto simp: passed_def)
  qed (use assms(4) in blast)+
qed

lemma watermark_passes_acked_witness:
  "\<forall>ops. (''g'', sample_part, 1) \<in>
     q_acks (w_db (run_queue_job ops (Poll (dlq_subscription_config ''n'' ''g'') sample_part) sample_worker))"
proof
  fix ops
  from watermark_passes_acked [OF sample_poll_history [of ops] sample_queue_orderly, of "sample_row 1" "''g''" 1]
  show "(''g'', sample_part, 1) \<in>
     q_acks (w_db (run_queue_job ops (Poll (dlq_subscription_config ''n'' ''g'') sample_part) sample_worker))"
    unfolding sample_poll
    by (simp add: sample_queue_def empty_queue_def sample_row_def covered_def offset_of_def)
qed

end
