(* ===== verification/QueueFacts.thy ===== *)
theory QueueFacts
  imports QueueHistory
begin

text \<open>
  What a poll hands out and what the methods of a delivery write, on every branch: the deliveries of
  a poll in a quiet store are a reference list, attempts respect the retry budget whatever happens,
  the retry delay is one the store accepts, and a failure survives the dead-letter topic.
\<close>

section \<open>Retry delays\<close>


definition backoff_cap :: "retry_config \<Rightarrow> int" where
  "backoff_cap r = (if rc_max_backoff r \<le> 0 \<or> rc_max_backoff r > max_retry_backoff_ms
     then max_retry_backoff_ms else rc_max_backoff r)"






definition sample_handle :: "int \<Rightarrow> sql_delivery" where
  "sample_handle n = new_sql_delivery (default_subscription_config ''n'' ''g'') sample_part (sample_row 1) n 0"

definition sample_delivered :: qdb where
  "sample_delivered = sample_queue\<lparr>q_acks := {}, q_delivery := [(''g'', sample_part, 1) \<mapsto>
     \<lparr>ds_acked = False, ds_invisible_until = 500, ds_retry_count = 1, ds_postponed = False\<rparr>]\<rparr>"


lemma sample_handle_fields:
  "delivery_key_of (sample_handle n) = (''g'', sample_part, 1)" "\<not> sd_acknowledged (sample_handle n)"
  "sd_attempt (sample_handle n) = n" "rc_max_attempts (sd_retry (sample_handle n)) = 3"
  "rc_initial_backoff (sd_retry (sample_handle n)) = 1000" "backoff_cap (sd_retry (sample_handle n)) = 30000"
  by (simp_all add: delivery_key_of_def sample_handle_def new_sql_delivery_def default_subscription_config_def
      sample_row_def backoff_cap_def max_retry_backoff_ms_def)


section \<open>Attempts\<close>

text \<open>What an action of a worker sends, whatever else happens.\<close>

definition sends_only :: "(sql_delivery \<Rightarrow> bool) \<Rightarrow> nat \<Rightarrow> 'a wop \<Rightarrow> bool" where
  "sends_only P n m \<longleftrightarrow> (\<forall>w r w'. m w = (r, w') \<longrightarrow>
     (\<exists>new. wk_sent w' = wk_sent w @ new \<and> length new \<le> n \<and> (\<forall>h\<in>set new. P h)))"

lemma sends_onlyD: "sends_only P n m \<Longrightarrow> m w = (r, w') \<Longrightarrow>
    \<exists>new. wk_sent w' = wk_sent w @ new \<and> length new \<le> n \<and> (\<forall>h\<in>set new. P h)"
  by (simp add: sends_only_def)

lemma sends_nothing: "(\<And>w. wk_sent (snd (m w)) = wk_sent w) \<Longrightarrow> sends_only P n m"
  unfolding sends_only_def by (metis append_Nil2 empty_iff length_0_conv list.set(1) snd_conv zero_le)

lemma sends_bind:
  assumes "sends_only P a m" and "\<And>w x w'. m w = (Inr x, w') \<Longrightarrow> sends_only P b (f x)"
  shows "sends_only P (a + b) (and_then m f)"
  unfolding sends_only_def
proof (intro allI impI)
  fix w r w'' assume "and_then m f w = (r, w'')"
  then show "\<exists>new. wk_sent w'' = wk_sent w @ new \<and> length new \<le> a + b \<and> (\<forall>h\<in>set new. P h)"
  proof (cases rule: and_then_cases)
    case (failure e)
    from sends_onlyD [OF assms(1) failure(1)] show ?thesis by auto
  next
    case (success x w')
    from sends_onlyD [OF assms(1) success(1)] obtain new where
      "wk_sent w' = wk_sent w @ new" "length new \<le> a" "\<forall>h\<in>set new. P h" by blast
    moreover from sends_onlyD [OF assms(2) [OF success(1)] success(2)] obtain more where
      "wk_sent w'' = wk_sent w' @ more" "length more \<le> b" "\<forall>h\<in>set more. P h" by blast
    ultimately show ?thesis by (intro exI [of _ "new @ more"]) auto
  qed
qed

lemma sends_bind_quiet:
  "sends_only P 0 m \<Longrightarrow> (\<And>x. sends_only P b (f x)) \<Longrightarrow> sends_only P b (and_then m f)"
  using sends_bind [of P 0 m b f] by simp

lemma sends_map_err: "sends_only P n m \<Longrightarrow> sends_only P n (map_err g m)"
  unfolding sends_only_def map_err_apply by (auto split: prod.splits sum.splits)

lemma sends_if: "(c \<Longrightarrow> sends_only P n m) \<Longrightarrow> (\<not> c \<Longrightarrow> sends_only P n m') \<Longrightarrow> sends_only P n (if c then m else m')"
  by simp

lemma sends_option:
  "sends_only P n m \<Longrightarrow> (\<And>x. sends_only P n (f x)) \<Longrightarrow> sends_only P n (case r of None \<Rightarrow> m | Some x \<Rightarrow> f x)"
  by (cases r) auto

lemma db_op_sent [simp]: "wk_sent (snd (db_op f w)) = wk_sent w"
  by (simp add: db_op_def Let_def split: list.splits prod.splits option.splits fault.splits)

lemma map_err_sent: "wk_sent (snd (map_err g m w)) = wk_sent (snd (m w))"
  by (simp add: map_err_apply split: prod.splits sum.splits)

lemma db_op_sentD: "db_op f w = (r, w') \<Longrightarrow> wk_sent w' = wk_sent w"
  using db_op_sent [of f w] by simp

lemma quiet_steps:
  "sends_only P n (db_op f)" "sends_only P n q_now" "sends_only P n (ok x)" "sends_only P n (fail e)" "sends_only P n (of_sum r)"
  by (auto intro: sends_nothing simp: q_now_def act_simps)

lemmas sends_intros = quiet_steps sends_bind_quiet sends_map_err sends_if sends_option

lemma sends_attempt: "sends_only P n m \<Longrightarrow> sends_only P n (attempt m)"
  unfolding sends_only_def attempt_apply by (metis prod.collapse prod.inject)

lemma quiet_operations:
  "sends_only P n (mark_delivered k t)" "sends_only P n (mark_acked k)" "sends_only P n (get_delivery_state k)"
  "sends_only P n (move_to_dlq p i c f suffix)" "sends_only P n (advance_watermark g p)"
  "sends_only P n (garbage_collect p)" "sends_only P n (offset_initialize p g)"
  "sends_only P n (get_acked_offset p g)" "sends_only P n (fetch_by_offset p cur most)"
  unfolding mark_delivered_def mark_acked_def get_delivery_state_def move_to_dlq_def ping_def advance_watermark_def
    garbage_collect_def offset_initialize_def get_acked_offset_def fetch_by_offset_def get_offsets_above_def
    store_advance_watermark_def Let_def update_acked_offset_def get_min_acked_offset_def message_gc_def
  by (intro sends_intros sends_attempt)+

text \<open>A delivery of row \<open>m\<close> that the configuration allows.\<close>

definition proper_delivery :: "subscription_config \<Rightarrow> part \<Rightarrow> sql_delivery \<Rightarrow> bool" where
  "proper_delivery cfg p h \<longleftrightarrow> sd_part h = p \<and> sd_group h = sc_group cfg \<and> \<not> sd_acknowledged h \<and>
     (rc_max_attempts (sc_retry cfg) > 0 \<longrightarrow> sd_attempt h \<le> rc_max_attempts (sc_retry cfg))"

lemma sends_send: "P h \<Longrightarrow> sends_only P 1 (send h)"
  unfolding sends_only_def send_def by (auto split: if_splits)

lemma sends_deliver_row: "sends_only (proper_delivery cfg p) 1 (deliver_row cfg p m)"
  unfolding deliver_row_def Let_def
  by (intro sends_intros quiet_operations sends_send)
    (auto simp: proper_delivery_def new_sql_delivery_def retry_budget_exhausted_def)

lemma sends_deliver_rows: "sends_only (proper_delivery cfg p) (length ms) (deliver_rows cfg p ms)"
proof (induction ms)
  case Nil
  then show ?case by (simp add: quiet_steps)
next
  case (Cons m ms)
  have more: "sends_only (proper_delivery cfg p) (Suc (length ms)) (deliver_rows cfg p ms)"
    using Cons unfolding sends_only_def by (meson le_Suc_eq)
  have "sends_only (proper_delivery cfg p) (1 + length ms)
      (and_then (deliver_row cfg p m) (\<lambda>go. if go then deliver_rows cfg p ms else ok False))"
    by (rule sends_bind [OF sends_deliver_row]) (intro sends_if Cons quiet_steps)
  with more have "sends_only (proper_delivery cfg p) (Suc (length ms)) (case row_verdict state now of Halt \<Rightarrow> ok True
      | Skip \<Rightarrow> deliver_rows cfg p ms
      | Deliver \<Rightarrow> and_then (deliver_row cfg p m) (\<lambda>go. if go then deliver_rows cfg p ms else ok False))" for state now
    by (cases "row_verdict state now") (simp_all add: quiet_steps)
  then show ?case by (simp add: sends_intros quiet_operations)
qed

lemma sends_weaken: "sends_only P n m \<Longrightarrow> n \<le> k \<Longrightarrow> sends_only P k m"
  unfolding sends_only_def by (meson le_trans)

lemma sends_silent: "sends_only (\<lambda>_. False) 0 m \<Longrightarrow> wk_sent (snd (m w)) = wk_sent w"
  by (cases "m w") (auto dest: sends_onlyD)

lemma sends_gc_tick: "sends_only P n (gc_tick p)"
proof (rule sends_nothing)
  have gc: "wk_sent (snd (garbage_collect p w)) = wk_sent w" for w :: worker
    by (rule sends_silent) (rule quiet_operations)
  show "wk_sent (snd (gc_tick p w)) = wk_sent w" for w
    by (simp add: gc_tick_def Let_def map_err_sent gc)
qed

lemma sends_poll: "sends_only (proper_delivery cfg p) (sc_batch cfg) (poll_and_deliver cfg p)"
proof -
  have offset: "sends_only P n (ensure_offset cfg p)" for P n
    by (rule sends_nothing)
      (auto simp: ensure_offset_def act_simps offset_initialize_def dest: db_op_sentD split: prod.splits sum.splits)
  have fetched: "length ms \<le> sc_batch cfg" if "fetch_by_offset p cur (sc_batch cfg) w = (Inr ms, w')" for cur ms and w w' :: worker
    using that
    by (auto simp: fetch_by_offset_def map_err_apply db_op_def rows_above_def Let_def
        split: prod.splits sum.splits list.splits option.splits fault.splits)
  have deliver: "sends_only (proper_delivery cfg p) (sc_batch cfg) (and_then (deliver_rows cfg p ms) (\<lambda>through.
      if \<not> through then ok () else and_then (attempt (advance_watermark (sc_group cfg) p)) (\<lambda>_. gc_tick p)))"
    if "length ms \<le> sc_batch cfg" for ms
  proof (rule sends_weaken [OF _ that], rule sends_bind [where a = "length ms" and b = 0, simplified])
    show "sends_only (proper_delivery cfg p) (length ms) (deliver_rows cfg p ms)" by (rule sends_deliver_rows)
    show "sends_only (proper_delivery cfg p) 0 (if \<not> through then ok ()
        else and_then (attempt (advance_watermark (sc_group cfg) p)) (\<lambda>_. gc_tick p))" for through
      by (intro sends_intros sends_attempt quiet_operations sends_gc_tick)
  qed
  have "sends_only (proper_delivery cfg p) (0 + sc_batch cfg)
      (and_then (map_err (Wrapped ''fetch messages'') (fetch_by_offset p cur (sc_batch cfg))) (\<lambda>rows.
       and_then (deliver_rows cfg p rows) (\<lambda>through. if \<not> through then ok ()
         else and_then (attempt (advance_watermark (sc_group cfg) p)) (\<lambda>_. gc_tick p))))" for cur
    by (rule sends_bind)
      (auto intro!: sends_intros quiet_operations deliver intro: fetched simp: map_err_apply split: prod.splits sum.splits)
  then have rest: "sends_only (proper_delivery cfg p) (sc_batch cfg)
      (and_then (map_err (Wrapped ''fetch messages'') (fetch_by_offset p cur (sc_batch cfg))) (\<lambda>rows.
       and_then (deliver_rows cfg p rows) (\<lambda>through. if \<not> through then ok ()
         else and_then (attempt (advance_watermark (sc_group cfg) p)) (\<lambda>_. gc_tick p))))" for cur by simp
  show ?thesis
    unfolding poll_and_deliver_def
    by (rule sends_bind_quiet [OF offset], rule sends_bind_quiet [OF sends_map_err [OF quiet_operations(8)]], rule rest)
qed

text \<open>
  Whatever fails and whatever the other processes do, a poll hands out at most one batch of
  deliveries, all of its own partition and consumer group and not yet settled, and no delivery is an
  attempt beyond the retry budget.
\<close>
theorem poll_respects_budget:
  assumes "poll_and_deliver cfg p w = (r, w')"
  shows "\<exists>new. wk_sent w' = wk_sent w @ new \<and> length new \<le> sc_batch cfg \<and>
    (\<forall>h\<in>set new. sd_part h = p \<and> sd_group h = sc_group cfg \<and> \<not> sd_acknowledged h \<and>
       (rc_max_attempts (sc_retry cfg) > 0 \<longrightarrow> sd_attempt h \<le> rc_max_attempts (sc_retry cfg)))"
  using sends_onlyD [OF sends_poll assms] by (simp add: proper_delivery_def)

lemma poll_respects_budget_witness:
  "\<exists>new. wk_sent (snd (poll_and_deliver (default_subscription_config ''n'' ''g'') sample_part sample_worker)) = new \<and>
     length new \<le> 10 \<and> (\<forall>h. h \<in> set new \<longrightarrow> sd_attempt h \<le> 3)"
  using poll_respects_budget [of "default_subscription_config ''n'' ''g''" sample_part sample_worker,
      OF prod.collapse [symmetric]]
  by (auto simp: default_subscription_config_def sample_worker_def)

section \<open>The reference poll\<close>

text \<open>The state of the rows as the poll reads it, and the attempts a row will have had.\<close>

definition state_of :: "subscription_config \<Rightarrow> part \<Rightarrow> qdb \<Rightarrow> message_row \<Rightarrow> delivery_state option" where
  "state_of cfg p d m = q_delivery d (sc_group cfg, p, mr_offset m)"

definition retries_after :: "delivery_state option \<Rightarrow> int" where
  "retries_after s = (case s of None \<Rightarrow> 0 | Some s \<Rightarrow> if ds_postponed s then ds_retry_count s else ds_retry_count s + 1)"

text \<open>The rows that are due before the first postponed one that still hides.\<close>

definition due :: "int \<Rightarrow> delivery_state option \<Rightarrow> bool" where
  "due now s \<longleftrightarrow> (\<forall>x. s = Some x \<longrightarrow> \<not> ds_acked x \<and> ds_invisible_until x \<le> now)"

definition holds_up :: "int \<Rightarrow> delivery_state option \<Rightarrow> bool" where
  "holds_up now s \<longleftrightarrow> (\<exists>x. s = Some x \<and> ds_postponed x \<and> \<not> ds_acked x \<and> now < ds_invisible_until x)"

definition due_rows :: "subscription_config \<Rightarrow> part \<Rightarrow> int \<Rightarrow> qdb \<Rightarrow> message_row list \<Rightarrow> message_row list" where
  "due_rows cfg p now d ms = filter (\<lambda>m. due now (state_of cfg p d m))
     (takeWhile (\<lambda>m. \<not> holds_up now (state_of cfg p d m)) ms)"

lemma row_verdict_due: "row_verdict s now = Deliver \<longleftrightarrow> due now s" "row_verdict s now = Halt \<longleftrightarrow> holds_up now s"
  by (auto simp: row_verdict_def due_def holds_up_def split: option.splits)

lemma row_verdict_fates:
  "row_verdict s now = Deliver \<Longrightarrow> due now s \<and> \<not> holds_up now s" "row_verdict s now = Halt \<Longrightarrow> holds_up now s"
  "row_verdict s now = Skip \<Longrightarrow> \<not> due now s \<and> \<not> holds_up now s"
  by (auto simp flip: row_verdict_due)

definition calm :: "int \<Rightarrow> worker \<Rightarrow> bool" where
  "calm now w \<longleftrightarrow> w_script w = [] \<and> qw_clock w = (\<lambda>_. now) \<and> wk_accepts w = (\<lambda>_. True)"

lemma due_rows_cong:
  "(\<And>m. m \<in> set ms \<Longrightarrow> state_of cfg p d m = state_of cfg p d' m) \<Longrightarrow> due_rows cfg p now d ms = due_rows cfg p now d' ms"
  unfolding due_rows_def by (induction ms) simp_all

lemma row_verdict_Deliver: "row_verdict s now = Deliver \<Longrightarrow> s = None \<or> (\<exists>x. s = Some x \<and> \<not> ds_acked x)"
  by (auto simp: row_verdict_def split: option.splits if_splits)

lemma deliver_row_calm:
  assumes "calm now w" and "row_verdict (state_of cfg p (w_db w) m) now = Deliver"
    and "\<not> retry_budget_exhausted (rc_max_attempts (sc_retry cfg)) (retries_after (state_of cfg p (w_db w) m))"
  shows "\<exists>w'. deliver_row cfg p m w = (Inr True, w') \<and> calm now w' \<and>
    wk_sent w' = wk_sent w @ [new_sql_delivery cfg p m (retries_after (state_of cfg p (w_db w) m) + 1) now] \<and>
    (\<forall>m'. mr_offset m' \<noteq> mr_offset m \<longrightarrow> state_of cfg p (w_db w') m' = state_of cfg p (w_db w) m')"
  using assms row_verdict_Deliver [OF assms(2)]
  by (auto simp: deliver_row_def Let_def act_simps mark_delivered_def q_now_def db_op_quiet mark_delivered_stmt_def
      retry_count_stmt_def calm_def state_of_def retries_after_def send_def)

lemma deliver_rows_calm:
  assumes "calm now w" and "distinct (map mr_offset ms)"
    and "\<And>m. m \<in> set ms \<Longrightarrow>
      \<not> retry_budget_exhausted (rc_max_attempts (sc_retry cfg)) (retries_after (state_of cfg p (w_db w) m))"
  shows "\<exists>w'. deliver_rows cfg p ms w = (Inr True, w') \<and>
    wk_sent w' = wk_sent w @ map (\<lambda>m. new_sql_delivery cfg p m (retries_after (state_of cfg p (w_db w) m) + 1) now)
      (due_rows cfg p now (w_db w) ms)"
  using assms
proof (induction ms arbitrary: w)
  case Nil
  then show ?case by (simp add: act_simps due_rows_def)
next
  case (Cons m ms)
  let ?s = "state_of cfg p (w_db w)"
  let ?w = "w\<lparr>qw_ticks := Suc (qw_ticks w)\<rparr>"
  have calm: "calm now ?w" and db: "w_db ?w = w_db w" and sent: "wk_sent ?w = wk_sent w"
    using Cons.prems(1) by (simp_all add: calm_def)
  have quiet: "w_script w = []" "qw_clock w = (\<lambda>_. now)" using Cons.prems(1) by (simp_all add: calm_def)
  then have step: "deliver_rows cfg p (m # ms) w = (case row_verdict (?s m) now of Halt \<Rightarrow> ok True
      | Skip \<Rightarrow> deliver_rows cfg p ms
      | Deliver \<Rightarrow> and_then (deliver_row cfg p m) (\<lambda>go. if go then deliver_rows cfg p ms else ok False)) ?w"
    by (simp add: act_simps get_delivery_state_def db_op_quiet q_now_def state_of_def)
  show ?case
  proof (cases "row_verdict (?s m) now")
    case Halt
    with step sent row_verdict_fates(2) [OF Halt] show ?thesis by (simp add: act_simps due_rows_def)
  next
    case Skip
    from Cons.IH [OF calm] Cons.prems(2,3) db obtain w' where
      "deliver_rows cfg p ms ?w = (Inr True, w')"
      "wk_sent w' = wk_sent w @ map (\<lambda>m. new_sql_delivery cfg p m (retries_after (?s m) + 1) now) (due_rows cfg p now (w_db w) ms)"
      by auto
    with step Skip row_verdict_fates(3) [OF Skip] show ?thesis by (simp add: due_rows_def)
  next
    case Deliver
    from deliver_row_calm [OF calm, of cfg p m] Deliver Cons.prems(3) [of m] db obtain w1 where
      w1: "deliver_row cfg p m ?w = (Inr True, w1)" "calm now w1"
      "wk_sent w1 = wk_sent w @ [new_sql_delivery cfg p m (retries_after (?s m) + 1) now]"
      "\<And>m'. mr_offset m' \<noteq> mr_offset m \<Longrightarrow> state_of cfg p (w_db w1) m' = ?s m'"
      by auto
    have same: "state_of cfg p (w_db w1) m' = ?s m'" if "m' \<in> set ms" for m'
    proof (rule w1(4))
      from Cons.prems(2) have "mr_offset m \<notin> mr_offset ` set ms" by simp
      with that show "mr_offset m' \<noteq> mr_offset m" by (metis imageI)
    qed
    from Cons.IH [OF w1(2)] Cons.prems(2,3) same obtain w' where
      w': "deliver_rows cfg p ms w1 = (Inr True, w')"
      "wk_sent w' = wk_sent w1 @ map (\<lambda>m. new_sql_delivery cfg p m (retries_after (state_of cfg p (w_db w1) m) + 1) now)
        (due_rows cfg p now (w_db w1) ms)"
      by auto
    have "due_rows cfg p now (w_db w1) ms = due_rows cfg p now (w_db w) ms" by (rule due_rows_cong) (rule same)
    moreover have "set (due_rows cfg p now (w_db w) ms) \<subseteq> set ms"
      by (auto simp: due_rows_def dest: set_takeWhileD)
    ultimately have "wk_sent w' = wk_sent w1 @ map (\<lambda>m. new_sql_delivery cfg p m (retries_after (?s m) + 1) now)
        (due_rows cfg p now (w_db w) ms)"
      using w'(2) same by (auto intro: map_cong)
    with step Deliver w1 w'(1) row_verdict_fates(1) [OF Deliver] show ?thesis by (simp add: act_simps due_rows_def)
  qed
qed

lemma rows_above_distinct:
  assumes "distinct (map mr_offset (q_rows d))"
  shows "distinct (map mr_offset (rows_above p cur n d))"
proof -
  let ?xs = "filter (\<lambda>m. mr_part m = p \<and> mr_offset m > cur) (q_rows d)"
  have "distinct (map mr_offset ?xs)"
    using assms by (rule distinct_map_filter)
  moreover have "mset (map mr_offset (sort_key mr_offset ?xs)) = mset (map mr_offset ?xs)"
    by (simp only: mset_map mset_sort)
  ultimately have "distinct (map mr_offset (sort_key mr_offset ?xs))"
    using mset_eq_imp_distinct_iff by blast
  then show ?thesis by (simp only: rows_above_def take_map [symmetric] distinct_take)
qed

definition acked_before :: "subscription_config \<Rightarrow> part \<Rightarrow> qdb \<Rightarrow> nat" where
  "acked_before cfg p d = (case offset_of p (sc_group cfg) d of None \<Rightarrow> 0 | Some n \<Rightarrow> n)"

text \<open>
  C19. In a quiet store where no stored row has spent its retry budget, a poll hands out, in the order of
  their offsets, exactly those of the first \<open>sc_batch\<close> rows after its group's watermark that are due - neither
  acknowledged nor hidden - and come before the first postponed message still hidden, which holds up its
  partition; hidden failures are skipped.  The attempt counts the deliveries so far, a postponed message
  starting over.
\<close>
theorem poll_hands_out_due:
  assumes "calm now w" and "wk_initialized w" and "distinct (map mr_offset (q_rows (w_db w)))"
    and "\<And>m. m \<in> set (q_rows (w_db w)) \<Longrightarrow>
      \<not> retry_budget_exhausted (rc_max_attempts (sc_retry cfg)) (retries_after (state_of cfg p (w_db w) m))"
  shows "wk_sent (snd (poll_and_deliver cfg p w)) = wk_sent w @
    map (\<lambda>m. new_sql_delivery cfg p m (retries_after (state_of cfg p (w_db w) m) + 1) now)
      (due_rows cfg p now (w_db w) (rows_above p (acked_before cfg p (w_db w)) (sc_batch cfg) (w_db w)))"
proof -
  let ?ms = "rows_above p (acked_before cfg p (w_db w)) (sc_batch cfg) (w_db w)"
  have subset: "set ?ms \<subseteq> set (q_rows (w_db w))" by (auto simp: rows_above_def dest!: in_set_takeD)
  from deliver_rows_calm [OF assms(1) rows_above_distinct [OF assms(3)]] assms(4) subset obtain w' where
    w': "deliver_rows cfg p ?ms w = (Inr True, w')"
    "wk_sent w' = wk_sent w @ map (\<lambda>m. new_sql_delivery cfg p m (retries_after (state_of cfg p (w_db w) m) + 1) now)
      (due_rows cfg p now (w_db w) ?ms)"
    by blast
  have after: "wk_sent (snd (and_then (attempt (advance_watermark (sc_group cfg) p)) (\<lambda>_. gc_tick p) w')) = wk_sent w'"
    by (rule sends_silent) (intro sends_bind_quiet sends_attempt quiet_operations sends_gc_tick)
  have "poll_and_deliver cfg p w = and_then (deliver_rows cfg p ?ms) (\<lambda>through.
      if \<not> through then ok () else and_then (attempt (advance_watermark (sc_group cfg) p)) (\<lambda>_. gc_tick p)) w"
    using assms(1,2)
    by (simp add: poll_and_deliver_def act_simps ensure_offset_def get_acked_offset_def fetch_by_offset_def db_op_quiet
        calm_def acked_before_def)
  with w' after show ?thesis by (simp add: and_then_apply)
qed

lemma poll_hands_out_due_witness:
  "map sd_attempt (wk_sent (snd (poll_and_deliver (default_subscription_config ''n'' ''g'') sample_part
     (sample_worker\<lparr>w_db := sample_delivered\<rparr>)))) = [3]"
proof -
  let ?w = "sample_worker\<lparr>w_db := sample_delivered\<rparr>" and ?cfg = "default_subscription_config ''n'' ''g''"
  have rows: "q_rows (w_db ?w) = [sample_row 1]"
    and state: "state_of ?cfg sample_part (w_db ?w) (sample_row 1) =
      Some \<lparr>ds_acked = False, ds_invisible_until = 500, ds_retry_count = 1, ds_postponed = False\<rparr>"
    and above: "rows_above sample_part (acked_before ?cfg sample_part (w_db ?w)) (sc_batch ?cfg) (w_db ?w) = [sample_row 1]"
    and idle: "calm 1000 ?w" "wk_initialized ?w" "wk_sent ?w = []"
    by (simp_all add: sample_worker_def sample_delivered_def sample_queue_def empty_queue_def sample_row_def state_of_def
        default_subscription_config_def rows_above_def acked_before_def offset_of_def calm_def)
  have "distinct (map mr_offset (q_rows (w_db ?w)))" unfolding rows by simp
  moreover have "\<not> retry_budget_exhausted (rc_max_attempts (sc_retry ?cfg)) (retries_after (state_of ?cfg sample_part (w_db ?w) m))"
    if "m \<in> set (q_rows (w_db ?w))" for m
  proof -
    from that rows have "m = sample_row 1" by simp
    with state show ?thesis by (simp add: retries_after_def retry_budget_exhausted_def default_subscription_config_def)
  qed
  ultimately have "wk_sent (snd (poll_and_deliver ?cfg sample_part ?w)) = [] @
      map (\<lambda>m. new_sql_delivery ?cfg sample_part m (retries_after (state_of ?cfg sample_part (w_db ?w) m) + 1) 1000)
        (due_rows ?cfg sample_part 1000 (w_db ?w) [sample_row 1])"
    using poll_hands_out_due [OF idle(1,2), of ?cfg sample_part] unfolding above idle(3) by blast
  moreover have "due_rows ?cfg sample_part 1000 (w_db ?w) [sample_row 1] = [sample_row 1]"
    unfolding due_rows_def by (simp add: state [simplified] due_def holds_up_def)
  ultimately show ?thesis
    by (simp add: state [simplified] retries_after_def new_sql_delivery_def)
qed

section \<open>Dead letters\<close>

lemma decode_encode_failure:
  "encode_failure f = Inr columns \<Longrightarrow> decode_failure columns (f_message f) = f\<lparr>f_detail := json_map (f_detail f)\<rparr>"
  by (cases f) (auto simp: decode_failure_def encode_failure_def json_map_def split: if_splits)

lemma encode_failure_writes: "json_writes (Node (f_detail f)) \<Longrightarrow> \<exists>columns. encode_failure f = Inr columns"
  by (simp add: encode_failure_def)

lemma row_origin: "metadata_get (row_metadata cfg p r) ''dlq.original_topic'' = mr_original_topic r"
  by (simp add: row_metadata_def metadata_get_def Let_def)

text \<open>
  C20. What a consumer rejects arrives on the dead-letter topic: the row leaves its partition, and the
  delivery made of its copy shows the same message under the dead-letter topic, the topic it came from,
  and the failure it was rejected with - message, subjects, and the detail as JSON reads it back, its
  numbers rounded to \<open>float64\<close> - provided JSON can write the detail (no infinity, no NaN).
\<close>
theorem reject_round_trip:
  assumes "w_script w = []" and "\<not> sd_acknowledged h" and "dq_enabled (sd_dlq h)"
    and "find_message (sd_part h) (sd_message_id h) (w_db w) = Some m"
    and "\<And>x. x \<in> set (q_rows (w_db w)) \<union> snd ` set (q_uncommitted (w_db w)) \<Longrightarrow>
      \<not> same_row_key (dlq_part (sd_part h) (dq_suffix (sd_dlq h))) (mr_msg_id m) x"
    and "0 < qw_clock w (qw_ticks w)" and "json_writes (Node (f_detail f))"
  shows "\<exists>w' r. delivery_reject h f w = (Inr (h\<lparr>sd_acknowledged := True\<rparr>), w') \<and>
    m \<notin> set (q_rows (w_db w')) \<and> r \<in> set (q_rows (w_db w')) \<and>
    mr_part r = dlq_part (sd_part h) (dq_suffix (sd_dlq h)) \<and>
    sd_failure (new_sql_delivery cfg (mr_part r) r n now) = Some (f\<lparr>f_detail := json_map (f_detail f)\<rparr>) \<and>
    metadata_get (sd_metadata (new_sql_delivery cfg (mr_part r) r n now)) ''dlq.original_topic'' = pt_topic (sd_part h) \<and>
    sd_message (new_sql_delivery cfg (mr_part r) r n now) =
      (row_message (sd_part h) m)\<lparr>m_topic := pt_topic (sd_part h) @ dq_suffix (sd_dlq h)\<rparr>"
proof -
  from assms(4) have m: "m \<in> set (q_rows (w_db w))" "mr_part m = sd_part h" "mr_msg_id m = sd_message_id h"
    by (auto simp: find_message_def same_row_key_def dest: find_first_Some)
  obtain columns where columns: "encode_failure f = Inr columns" using encode_failure_writes [OF assms(7)] by blast
  let ?r = "dlq_row m (q_next_offset (w_db w)) (qw_clock w (qw_ticks w)) (sd_attempt h) (f_message f) columns (dq_suffix (sd_dlq h))"
  let ?w = "snd (delivery_reject h f w)"
  have r: "mr_part ?r = dlq_part (sd_part h) (dq_suffix (sd_dlq h))" "mr_msg_id ?r = mr_msg_id m"
    by (simp_all add: dlq_row_def dlq_part_def m)
  have fresh: "\<not> list_ex (same_row_key (mr_part ?r) (mr_msg_id ?r)) (q_rows (w_db w) @ map snd (q_uncommitted (w_db w)))"
    using assms(5) unfolding r list_ex_iff by auto
  have run: "delivery_reject h f w = (Inr (h\<lparr>sd_acknowledged := True\<rparr>), ?w)"
    and rows: "q_rows (w_db ?w) = filter (\<lambda>x. \<not> same_row_key (mr_part m) (mr_msg_id m) x) (q_rows (w_db w)) @ [?r]"
    using assms(1-4) fresh columns
    by (simp_all add: delivery_reject_def dead_letter_def settled_def act_simps move_to_dlq_def ping_def db_op_quiet
        q_now_def dlq_stmt_def Let_def mark_acked_def mark_acked_stmt_def)
  have "m \<notin> set (q_rows (w_db ?w))"
    using m assms(5) [of m] r unfolding rows by (auto simp: same_row_key_def)
  moreover have "row_failure ?r = Some (f\<lparr>f_detail := json_map (f_detail f)\<rparr>)"
    using assms(6) decode_encode_failure [OF columns] by (simp add: row_failure_def dlq_row_def)
  moreover have "metadata_get (row_metadata cfg (mr_part ?r) ?r) ''dlq.original_topic'' = pt_topic (sd_part h)"
    unfolding row_origin by (simp add: dlq_row_def m)
  moreover have "row_message (mr_part ?r) ?r = (row_message (sd_part h) m)\<lparr>m_topic := pt_topic (sd_part h) @ dq_suffix (sd_dlq h)\<rparr>"
    by (simp add: row_message_def dlq_row_def m)
  ultimately show ?thesis
    using run rows r(1) by (intro exI [of _ ?w] exI [of _ ?r]) (simp add: new_sql_delivery_def)
qed

definition sample_failure :: failure where
  "sample_failure = \<lparr>f_message = ''x'', f_subjects = [Subject ''batch'' ''2''], f_detail = [(''attempt'', Whole 3)]\<rparr>"

lemma three: "f64 3 = 3"
  by code_simp

lemma reject_round_trip_witness:
  "\<exists>w' r. delivery_reject (sample_handle 2) sample_failure
       (sample_worker\<lparr>w_db := sample_delivered\<rparr>) = (Inr ((sample_handle 2)\<lparr>sd_acknowledged := True\<rparr>), w') \<and>
     sample_row 1 \<notin> set (q_rows (w_db w')) \<and> r \<in> set (q_rows (w_db w')) \<and> pt_topic (mr_part r) = ''build_dlq'' \<and>
     row_failure r = Some (sample_failure\<lparr>f_detail := [(''attempt'', Float (Fin 3))]\<rparr>)"
proof -
  let ?w = "sample_worker\<lparr>w_db := sample_delivered\<rparr>"
  have h: "sd_part (sample_handle 2) = sample_part" "sd_message_id (sample_handle 2) = ''m''"
      "dq_enabled (sd_dlq (sample_handle 2))" "dq_suffix (sd_dlq (sample_handle 2)) = ''_dlq''"
    by (simp_all add: sample_handle_def new_sql_delivery_def default_subscription_config_def sample_row_def)
  have w: "w_script ?w = []" "find_message sample_part ''m'' (w_db ?w) = Some (sample_row 1)"
      "q_rows (w_db ?w) = [sample_row 1]" "q_uncommitted (w_db ?w) = []" "0 < qw_clock ?w (qw_ticks ?w)"
    by (simp_all add: sample_worker_def sample_delivered_def sample_queue_def empty_queue_def sample_row_def
        find_message_def same_row_key_def)
  have part: "dlq_part sample_part ''_dlq'' \<noteq> mr_part (sample_row 1)" "pt_topic (dlq_part sample_part ''_dlq'') = ''build_dlq''"
    by (simp_all add: dlq_part_def sample_part_def sample_row_def)
  have f: "json_writes (Node (f_detail sample_failure))" "json_map (f_detail sample_failure) = [(''attempt'', Float (Fin 3))]"
    by (simp_all add: sample_failure_def json_map_def three)
  from reject_round_trip [of ?w "sample_handle 2" "sample_row 1" sample_failure
      "default_subscription_config ''n'' ''g''" 1 0] h w part f sample_handle_fields(2) [of 2]
  show ?thesis by (fastforce simp: same_row_key_def new_sql_delivery_def)
qed

end
