(* ===== verification/QueueShare.thy ===== *)
theory QueueShare
  imports QueueLease QueueHistory
begin

text \<open>
  What the supervisors' rules amount to: shares that add up, leases that change hands only when they
  are stale, channels that are open when they are handed out.
\<close>

section \<open>Fair shares\<close>

lemma rank_of_nth: "distinct xs \<Longrightarrow> i < length xs \<Longrightarrow> rank_of (xs ! i) xs = Some i"
proof (induction xs arbitrary: i)
  case Nil
  then show ?case by simp
next
  case (Cons x xs)
  then show ?case by (cases i) auto
qed

definition share_of_rank :: "nat \<Rightarrow> nat \<Rightarrow> nat \<Rightarrow> nat" where
  "share_of_rank P n r = max 1 (P div n + (if r < P mod n then 1 else 0))"

lemma fair_share_cap_rank:
  assumes "distinct active" and "2 \<le> length active" and "i < length active"
    and "card (set owned \<union> set known) = P"
  shows "fair_share_cap (sort active ! i) owned known active = share_of_rank P (length active) i"
proof -
  have "rank_of (sort active ! i) (sort active) = Some i" using assms(1,3) by (intro rank_of_nth) simp_all
  moreover have "length (remdups (owned @ known)) = P" using assms(4) by (simp add: length_remdups_card_conv)
  ultimately show ?thesis using assms(2) by (simp add: fair_share_cap_def share_of_rank_def Let_def)
qed

lemma sum_share_of_rank:
  assumes "0 < n"
  shows "(\<Sum>i<n. share_of_rank P n i) = max P n"
proof (cases "n \<le> P")
  case True
  then have "1 \<le> P div n" using assms by (simp add: div_greater_zero_iff Suc_le_eq)
  then have "share_of_rank P n i = P div n + (if i < P mod n then 1 else 0)" for i by (simp add: share_of_rank_def)
  then have "(\<Sum>i<n. share_of_rank P n i) = n * (P div n) + (\<Sum>i<n. if i < P mod n then 1 else 0)"
    by (simp add: sum.distrib)
  also have "(\<Sum>i<n. if i < P mod n then 1 else 0) = P mod n"
  proof -
    have "{i. i < n \<and> i < P mod n} = {..<P mod n}" using assms by (auto intro: less_trans)
    then show ?thesis by (simp add: sum.If_cases lessThan_def Collect_conj_eq [symmetric])
  qed
  finally show ?thesis using True by simp
next
  case False
  then have "share_of_rank P n i = 1" for i by (simp add: share_of_rank_def)
  with False show ?thesis by simp
qed

lemma sum_caps:
  assumes "distinct active" and "2 \<le> length active"
    and "\<And>s. s \<in> set active \<Longrightarrow> card (set (owned s) \<union> set known) = P"
  shows "(\<Sum>s\<in>set active. fair_share_cap s (owned s) known active) = max P (length active)"
proof -
  let ?xs = "sort active" and ?n = "length active"
  let ?cap = "\<lambda>s. fair_share_cap s (owned s) known active"
  have "(\<Sum>s\<in>set active. ?cap s) = (\<Sum>s\<leftarrow>?xs. ?cap s)"
    using assms(1) sum.distinct_set_conv_list [of ?xs ?cap] by simp
  also have "\<dots> = (\<Sum>i<?n. ?cap (?xs ! i))"
    by (simp add: sum_list_sum_nth atLeast0LessThan)
  also have "\<dots> = (\<Sum>i<?n. share_of_rank P ?n i)"
  proof (rule sum.cong)
    fix i assume "i \<in> {..<?n}"
    then have i: "i < ?n" by simp
    then have "?xs ! i \<in> set active" by (metis length_sort nth_mem set_sort)
    from fair_share_cap_rank [OF assms(1,2) i assms(3) [OF this]]
    show "?cap (?xs ! i) = share_of_rank P ?n i" .
  qed simp
  also have "\<dots> = max P ?n" by (rule sum_share_of_rank) (use assms(2) in linarith)
  finally show ?thesis .
qed

text \<open>
  C21. Subscribers that see the same live group and the same partitions derive caps that add up to the
  number of partitions, or to one each when there are fewer partitions than subscribers; so if one
  of them holds more than its cap, another holds less than its own, and no subscriber starves
  beside one that may keep what it has.
\<close>
theorem fair_shares_balance:
  assumes "distinct active" and "2 \<le> length active"
    and "\<And>s. s \<in> set active \<Longrightarrow> distinct (owned s) \<and> set (owned s) \<union> set known = U"
    and "\<And>s s'. s \<in> set active \<Longrightarrow> s' \<in> set active \<Longrightarrow> s \<noteq> s' \<Longrightarrow> set (owned s) \<inter> set (owned s') = {}"
  shows "(\<Sum>s\<in>set active. fair_share_cap s (owned s) known active) = max (card U) (length active) \<and>
    (\<forall>s\<in>set active. fair_share_cap s (owned s) known active < length (owned s) \<longrightarrow>
      (\<exists>s'\<in>set active. length (owned s') < fair_share_cap s' (owned s') known active))"
proof -
  let ?cap = "\<lambda>s. fair_share_cap s (owned s) known active"
  have sum: "(\<Sum>s\<in>set active. ?cap s) = max (card U) (length active)"
    using assms(3) by (intro sum_caps assms(1,2)) auto
  have "\<exists>s'\<in>set active. length (owned s') < ?cap s'" if s: "s \<in> set active" "?cap s < length (owned s)" for s
  proof (rule ccontr)
    assume "\<not> (\<exists>s'\<in>set active. length (owned s') < ?cap s')"
    then have "(\<Sum>s\<in>set active. ?cap s) < (\<Sum>s\<in>set active. length (owned s))"
      using s by (intro sum_strict_mono_ex1) (auto simp: not_less)
    also have "\<dots> = (\<Sum>s\<in>set active. card (set (owned s)))"
      using assms(3) by (intro sum.cong) (auto simp: distinct_card)
    also have "\<dots> = card (\<Union>s\<in>set active. set (owned s))"
      using assms(4) by (intro card_UN_disjoint [symmetric]) auto
    also have "\<dots> \<le> card U"
    proof (rule card_mono)
      from assms(3) [OF s(1)] show "finite U" by (metis List.finite_set finite_UnI)
      show "(\<Union>s\<in>set active. set (owned s)) \<subseteq> U" using assms(3) by blast
    qed
    finally show False using sum by simp
  qed
  with sum show ?thesis by blast
qed

lemma fair_shares_balance_witness:
  "fair_share_cap ''a'' [''p'', ''q'', ''r''] [''p'', ''q'', ''r''] [''b'', ''a''] +
     fair_share_cap ''b'' [] [''p'', ''q'', ''r''] [''b'', ''a''] = 3"
proof -
  let ?owned = "\<lambda>s. if s = ''a'' then [''p'', ''q'', ''r''] else []" and ?U = "{''p'', ''q'', ''r''}"
  have "(\<Sum>s\<in>set [''b'', ''a'']. fair_share_cap s (?owned s) [''p'', ''q'', ''r''] [''b'', ''a'']) =
      max (card ?U) (length [''b'', ''a''])"
    by (rule fair_shares_balance [THEN conjunct1]) auto
  then show ?thesis by simp
qed

section \<open>Leases\<close>

lemma lease_of_acquired:
  "lease_of p' g' (snd (acquire_stmt p g name now stale d)) =
     (if p' = p \<and> g' = g then (case lease_of p g d of
        None \<Rightarrow> Some \<lparr>le_part = p, le_group = g, le_by = name, le_at = now, le_renewed_at = now\<rparr>
      | Some l \<Rightarrow> Some (if le_renewed_at l < stale then l\<lparr>le_by := name, le_at := now, le_renewed_at := now\<rparr> else l))
      else lease_of p' g' d)"
proof (cases "lease_of p g d")
  case None
  then show ?thesis by (auto simp: acquire_stmt_def lease_of_def find_first_append split: option.splits)
next
  case (Some l)
  let ?f = "\<lambda>l. if le_part l = p \<and> le_group l = g \<and> le_renewed_at l < stale
    then l\<lparr>le_by := name, le_at := now, le_renewed_at := now\<rparr> else l"
  have "lease_of p' g' (snd (acquire_stmt p g name now stale d)) = map_option ?f (lease_of p' g' d)"
    using Some by (simp add: acquire_stmt_def lease_of_def find_first_map)
  moreover have "?f x = x" if "lease_of p' g' d = Some x" "\<not> (p' = p \<and> g' = g)" for x
    using find_first_Some [OF that(1) [unfolded lease_of_def]] that(2) by auto
  moreover have "le_part l = p \<and> le_group l = g" using find_first_Some [OF Some [unfolded lease_of_def]] by simp
  ultimately show ?thesis using Some by (cases "lease_of p' g' d") auto
qed

text \<open>
  In a quiet store a subscriber that asks for a partition gets it exactly when nobody has it, it
  has it already, or the lease was not renewed for a lease duration.  A live lease of another is left
  as it is, a stale one changes hands and counts from now, and no other lease is touched.
\<close>
theorem lease_changes_hands_when_stale:
  assumes "w_script w = []" and "now = qw_clock w (qw_ticks w)"
  shows "\<exists>w'. try_acquire_lease p name g duration w =
      (Inr (case lease_of p g (w_db w) of None \<Rightarrow> True | Some l \<Rightarrow> le_by l = name \<or> le_renewed_at l < now - duration), w') \<and>
    lease_of p g (w_db w') = (case lease_of p g (w_db w) of
        None \<Rightarrow> Some \<lparr>le_part = p, le_group = g, le_by = name, le_at = now, le_renewed_at = now\<rparr>
      | Some l \<Rightarrow> Some (if le_renewed_at l < now - duration then l\<lparr>le_by := name, le_at := now, le_renewed_at := now\<rparr> else l)) \<and>
    (\<forall>p' g'. (p', g') \<noteq> (p, g) \<longrightarrow> lease_of p' g' (w_db w') = lease_of p' g' (w_db w))"
proof -
  let ?d = "snd (acquire_stmt p g name now (now - duration) (w_db w))"
  let ?w = "w\<lparr>qw_ticks := Suc (qw_ticks w), w_db := ?d\<rparr>"
  have stmt: "fst (acquire_stmt p g name now (now - duration) (w_db w)) = Inr ()"
    by (simp add: acquire_stmt_def)
  have "try_acquire_lease p name g duration w =
      (case lease_of p g ?d of None \<Rightarrow> (Inl (Wrapped ''check lease ownership'' ErrNotFound), ?w)
       | Some l \<Rightarrow> (Inr (le_by l = name), ?w))"
    using assms stmt
    by (auto simp: try_acquire_lease_def act_simps q_now_def db_op_quiet split: option.splits)
  then show ?thesis
    unfolding lease_of_acquired by (intro exI [of _ ?w]) (auto simp: lease_of_acquired split: option.splits)
qed

definition sample_lease :: lease_row where
  "sample_lease = \<lparr>le_part = sample_part, le_group = ''g'', le_by = ''a'', le_at = 0, le_renewed_at = 950\<rparr>"

lemma lease_changes_hands_when_stale_witness:
  "\<exists>w'. try_acquire_lease sample_part ''b'' ''g'' 100 (sample_worker\<lparr>w_db := sample_queue\<lparr>q_leases := [sample_lease]\<rparr>\<rparr>) =
     (Inr False, w') \<and> lease_of sample_part ''g'' (w_db w') = Some sample_lease"
proof -
  let ?w = "sample_worker\<lparr>w_db := sample_queue\<lparr>q_leases := [sample_lease]\<rparr>\<rparr>"
  have "w_script ?w = []" "1000 = qw_clock ?w (qw_ticks ?w)" "lease_of sample_part ''g'' (w_db ?w) = Some sample_lease"
    by (simp_all add: sample_worker_def lease_of_def sample_lease_def)
  moreover have "le_by sample_lease = ''a''" "le_renewed_at sample_lease = 950"
    by (simp_all add: sample_lease_def)
  ultimately show ?thesis
    using lease_changes_hands_when_stale [of ?w 1000 sample_part "''b''" "''g''" 100] by auto
qed

section \<open>Subscriptions\<close>

definition channels_numbered :: "subscriber \<Rightarrow> bool" where
  "channels_numbered s \<longleftrightarrow> (\<forall>c\<in>sb_ended s. c < sb_next s)"

text \<open>
  A subscription that is handed out is open, registered under its topic and group, and made of valid
  settings by a subscriber that was not closed; in particular the channel of a supervisor that has
  exited is never given to the next caller.
\<close>

lemma subscribe_open:
  assumes "subscribe topic cfg s = (r, s')" and "channels_numbered s"
  shows "channels_numbered s' \<and> sb_ended s' = sb_ended s"
    and "r = Inr c \<Longrightarrow> c \<notin> sb_ended s' \<and> sb_subscriptions s' (topic @ '':'' @ sc_group cfg) = Some c \<and> \<not> sb_closed s"
  using assms
  by (auto simp: subscribe_def Let_def channels_numbered_def less_SucI split: sum.splits if_splits option.splits)

end
