(* ===== verification/QueueGaps.thy ===== *)
theory QueueGaps
  imports QueueShare
begin

text \<open>
  What the assumptions of QueueHistory exclude, and the code does not: two schedules after which a
  published message is gone although a consumer group has neither acknowledged nor rejected it.
\<close>

section \<open>Steps of the schedules\<close>

definition fresh_worker :: "nat \<Rightarrow> qdb \<Rightarrow> worker" where
  "fresh_worker n d = \<lparr>w_db = d, w_script = [], qw_clock = (\<lambda>_. 1000), qw_ticks = 0, wk_initialized = True,
     wk_gc_counter = n, wk_sent = [], wk_accepts = (\<lambda>_. True)\<rparr>"

definition sample_message :: "string \<Rightarrow> message" where
  "sample_message i = \<lparr>m_tenant = ''t'', m_topic = ''build'', m_id = i, m_partition = ''q'', m_payload = PId i ''q'',
     m_metadata = Map.empty, m_published_at = 7\<rparr>"

definition stored_message :: "string \<Rightarrow> nat \<Rightarrow> message_row" where
  "stored_message i n = (row_of ''t'' ''build'' (sample_message i) 1000)\<lparr>mr_offset := n\<rparr>"

text \<open>A quiet publication of one message, and a group that polls, acknowledges what it got and polls again.\<close>

definition publish_one :: "string \<Rightarrow> qdb \<Rightarrow> qdb" where
  "publish_one i d = w_db (snd (message_insert ''t'' ''build'' [sample_message i] (fresh_worker 0 d)))"

definition consume :: "string \<Rightarrow> qdb \<Rightarrow> qdb" where
  "consume g d =
     (let w = snd (poll_and_deliver (default_subscription_config ''n'' g) sample_part (fresh_worker 0 d));
          acked = foldl (\<lambda>w h. snd (delivery_ack h w)) w (wk_sent w) in
      w_db (snd (poll_and_deliver (default_subscription_config ''n'' g) sample_part acked)))"

definition collect :: "string \<Rightarrow> qdb \<Rightarrow> qdb" where
  "collect g d = w_db (snd (poll_and_deliver (default_subscription_config ''n'' g) sample_part (fresh_worker 99 d)))"

lemmas publish_defs = message_insert_def insert_one_def rolled_back_def ping_def q_now_def begin_tx_def insert_stmt_def
  commit_tx_def rollback_tx_def row_of_def same_row_key_def

lemma publish_one_simp:
  assumes "\<And>t r. (t, r) \<in> set (q_uncommitted d) \<Longrightarrow> t \<noteq> q_next_tx d \<and> mr_msg_id r \<noteq> i"
    and "\<And>m. m \<in> set (q_rows d) \<Longrightarrow> mr_msg_id m \<noteq> i"
  shows "publish_one i d = d\<lparr>q_rows := q_rows d @ [stored_message i (q_next_offset d)],
    q_next_offset := Suc (q_next_offset d), q_next_tx := Suc (q_next_tx d)\<rparr>"
proof -
  have kept: "filter (\<lambda>(t, r). t \<noteq> q_next_tx d) (q_uncommitted d) = q_uncommitted d"
    and gone: "filter (\<lambda>(t, r). t = q_next_tx d) (q_uncommitted d) = []"
    using assms(1) by (auto simp: filter_id_conv filter_empty_conv)
  show ?thesis
    using assms kept gone
    by (auto simp: publish_one_def publish_defs act_simps db_op_quiet Let_def sample_message_def stored_message_def
        fresh_worker_def validate_tenant_metadata_def metadata_get_def list_ex_iff)
qed

lemmas delivery_defs = default_subscription_config_def deliver_row_def mark_delivered_def mark_delivered_stmt_def
  retry_count_stmt_def retry_budget_exhausted_def send_def new_sql_delivery_def delivery_ack_def settled_def
  mark_acked_def mark_acked_stmt_def delivery_key_of_def

definition gap_start :: qdb where
  "gap_start = empty_queue [\<lparr>of_part = sample_part, of_group = ''g'', of_acked = 0\<rparr>]"

definition gap_overtaken :: qdb where
  "gap_overtaken = gap_start\<lparr>q_rows := [stored_message ''b'' 2], q_uncommitted := [(0, stored_message ''a'' 1)],
     q_next_offset := 3, q_next_tx := 2\<rparr>"

lemma gap_consumed:
  "consume ''g'' gap_overtaken = gap_overtaken\<lparr>q_offsets := [\<lparr>of_part = sample_part, of_group = ''g'', of_acked = 2\<rparr>],
     q_acks := {(''g'', sample_part, 2)}\<rparr>"
  by (simp add: consume_def poll_defs delivery_defs act_simps Let_def fun_eq_iff gap_overtaken_def gap_start_def empty_queue_def
      fresh_worker_def stored_message_def row_of_def sample_message_def sample_part_def)

section \<open>A slow commit is overtaken\<close>

text \<open>
  Before the commit of message \<open>a\<close>, which holds offset 1, message \<open>b\<close> is published with offset 2,
  delivered and acknowledged, and the watermark goes to 2.
\<close>

definition overtaken_publisher :: worker where
  "overtaken_publisher = (fresh_worker 0 gap_start)\<lparr>w_script :=
     [Event (\<lambda>d. d) None, Event (\<lambda>d. d) None, Event (\<lambda>d. d) None, Event (\<lambda>d. consume ''g'' (publish_one ''b'' d)) None]\<rparr>"

lemma gap_published:
  "publish_one ''b'' (gap_start\<lparr>q_next_tx := Suc 0, q_next_offset := Suc (Suc 0), q_uncommitted := [(0, stored_message ''a'' (Suc 0))]\<rparr>) = gap_overtaken"
proof -
  let ?d = "gap_start\<lparr>q_next_tx := Suc 0, q_next_offset := Suc (Suc 0), q_uncommitted := [(0, stored_message ''a'' (Suc 0))]\<rparr>"
  have "publish_one ''b'' ?d = ?d\<lparr>q_rows := q_rows ?d @ [stored_message ''b'' (q_next_offset ?d)],
      q_next_offset := Suc (q_next_offset ?d), q_next_tx := Suc (q_next_tx ?d)\<rparr>"
    by (rule publish_one_simp)
      (auto simp: gap_start_def empty_queue_def stored_message_def row_of_def sample_message_def)
  also have "\<dots> = gap_overtaken"
    by (simp add: gap_start_def gap_overtaken_def empty_queue_def numeral_2_eq_2 numeral_3_eq_3)
  finally show ?thesis .
qed

lemma gap_start_fields:
  "q_rows gap_start = []" "q_uncommitted gap_start = []" "q_next_offset gap_start = 1" "q_next_tx gap_start = 0"
  "q_rows gap_overtaken = [stored_message ''b'' 2]" "q_uncommitted gap_overtaken = [(0, stored_message ''a'' 1)]"
  by (simp_all add: gap_start_def gap_overtaken_def empty_queue_def)

lemma stored_message_row: "(row_of ''t'' ''build'' (sample_message i) 1000)\<lparr>mr_offset := n\<rparr> = stored_message i n"
  by (simp add: stored_message_def)

lemma overtaken_publication:
  "\<exists>w'. message_insert ''t'' ''build'' [sample_message ''a''] overtaken_publisher = (Inr (), w') \<and>
     w_db w' = (consume ''g'' gap_overtaken)\<lparr>q_rows := [stored_message ''b'' 2, stored_message ''a'' 1], q_uncommitted := []\<rparr>"
proof -
  have [simp]: "m_metadata (sample_message i) = Map.empty" "m_topic (sample_message i) = ''build''"
    "m_tenant (sample_message i) = ''t''" for i by (simp_all add: sample_message_def)
  show ?thesis
    by (simp add: overtaken_publisher_def message_insert_def insert_one_def rolled_back_def ping_def q_now_def begin_tx_def
        insert_stmt_def commit_tx_def act_simps db_op_def Let_def fresh_worker_def gap_start_fields gap_consumed
        validate_tenant_metadata_def metadata_get_def stored_message_row gap_published rollback_tx_def)
qed

text \<open>
  A published message can be passed over: a publisher whose transaction took its offset first and
  commits last is told that its message is stored, the group's watermark is already past it, no
  poll delivers it, and the next collection deletes it - never acknowledged, never dead-lettered.
\<close>
theorem slow_commit_lost:
  "\<exists>w'. message_insert ''t'' ''build'' [sample_message ''a''] overtaken_publisher = (Inr (), w') \<and>
     stored_message ''a'' 1 \<in> set (q_rows (w_db w')) \<and>
     wk_sent (snd (poll_and_deliver (default_subscription_config ''n'' ''g'') sample_part (fresh_worker 99 (w_db w')))) = [] \<and>
     stored_message ''a'' 1 \<notin> set (q_rows (collect ''g'' (w_db w'))) \<and>
     (''g'', sample_part, 1) \<notin> q_acks (collect ''g'' (w_db w')) \<and> q_dead (collect ''g'' (w_db w')) = {}"
proof -
  from overtaken_publication obtain w' where
    run: "message_insert ''t'' ''build'' [sample_message ''a''] overtaken_publisher = (Inr (), w')" and
    db: "w_db w' = (consume ''g'' gap_overtaken)\<lparr>q_rows := [stored_message ''b'' 2, stored_message ''a'' 1], q_uncommitted := []\<rparr>"
    by blast
  have "wk_sent (snd (poll_and_deliver (default_subscription_config ''n'' ''g'') sample_part (fresh_worker 99 (w_db w')))) = []"
    and "collect ''g'' (w_db w') = (w_db w')\<lparr>q_rows := []\<rparr>"
    unfolding db gap_consumed collect_def
    by (simp_all add: poll_defs delivery_defs act_simps Let_def fun_eq_iff gap_overtaken_def gap_start_def empty_queue_def
        fresh_worker_def stored_message_def row_of_def sample_message_def sample_part_def)
  moreover have "stored_message ''a'' 1 \<in> set (q_rows (w_db w'))" "(''g'', sample_part, 1) \<notin> q_acks (w_db w')" "q_dead (w_db w') = {}"
    unfolding db gap_consumed by (simp_all add: gap_overtaken_def gap_start_def empty_queue_def)
  ultimately show ?thesis using run by (intro exI [of _ w']) simp
qed

section \<open>An idle subscription is forgotten\<close>

text \<open>
  Groups \<open>a\<close> and \<open>b\<close> have consumed the partition up to offset 5.  Its supervisor for \<open>a\<close> finds it
  drained for the whole grace period; before it deletes the offset row a message is published, which
  \<open>b\<close> consumes.
\<close>

definition idle_start :: qdb where
  "idle_start = (empty_queue [\<lparr>of_part = sample_part, of_group = ''a'', of_acked = 5\<rparr>, \<lparr>of_part = sample_part, of_group = ''b'', of_acked = 5\<rparr>])
     \<lparr>q_next_offset := 6, q_leases := [\<lparr>le_part = sample_part, le_group = ''a'', le_by = ''n'', le_at = 0, le_renewed_at = 900\<rparr>]\<rparr>"

definition idle_subscription :: subscription where
  "idle_subscription = \<lparr>su_tenants = [''t''], su_topic = ''build'',
     su_config = (default_subscription_config ''n'' ''a'')\<lparr>sc_lease_duration := 100\<rparr>\<rparr>"

definition idle_manager :: manager where
  "idle_manager = \<lparr>w_db = idle_start, w_script =
       [Event (\<lambda>d. d) None, Event (\<lambda>d. d) None, Event (\<lambda>d. d) None, Event (\<lambda>d. d) None,
        Event (\<lambda>d. consume ''b'' (publish_one ''m'' d)) None],
     qw_clock = (\<lambda>_. 1000), qw_ticks = 0, mg_discovered = [], mg_drained = [sample_part \<mapsto> 500],
     mg_workers = [sample_part], mg_last_sweep = 0\<rparr>"

lemma idle_published:
  "publish_one ''m'' (idle_start\<lparr>q_leases := []\<rparr>) =
     idle_start\<lparr>q_leases := [], q_rows := [stored_message ''m'' 6], q_next_offset := 7, q_next_tx := Suc 0\<rparr>"
proof -
  let ?d = "idle_start\<lparr>q_leases := []\<rparr>"
  have "publish_one ''m'' ?d = ?d\<lparr>q_rows := q_rows ?d @ [stored_message ''m'' (q_next_offset ?d)],
      q_next_offset := Suc (q_next_offset ?d), q_next_tx := Suc (q_next_tx ?d)\<rparr>"
    by (rule publish_one_simp) (auto simp: idle_start_def empty_queue_def)
  also have "\<dots> = idle_start\<lparr>q_leases := [], q_rows := [stored_message ''m'' 6], q_next_offset := 7, q_next_tx := Suc 0\<rparr>"
    by (simp add: idle_start_def empty_queue_def)
  finally show ?thesis .
qed

lemma idle_consumed:
  "consume ''b'' (idle_start\<lparr>q_leases := [], q_rows := [stored_message ''m'' 6], q_next_offset := 7, q_next_tx := Suc 0\<rparr>) =
     idle_start\<lparr>q_leases := [], q_rows := [stored_message ''m'' 6], q_next_offset := 7, q_next_tx := Suc 0,
       q_offsets := [\<lparr>of_part = sample_part, of_group = ''a'', of_acked = 5\<rparr>, \<lparr>of_part = sample_part, of_group = ''b'', of_acked = 6\<rparr>],
       q_acks := {(''b'', sample_part, 6)}\<rparr>"
  by (simp add: consume_def poll_defs delivery_defs act_simps Let_def fun_eq_iff idle_start_def empty_queue_def
      fresh_worker_def stored_message_def row_of_def sample_message_def sample_part_def)

definition idle_end :: qdb where
  "idle_end = idle_start\<lparr>q_leases := [], q_rows := [stored_message ''m'' 6], q_next_offset := 7, q_next_tx := Suc 0,
     q_offsets := [\<lparr>of_part = sample_part, of_group = ''b'', of_acked = 6\<rparr>], q_acks := {(''b'', sample_part, 6)}\<rparr>"

lemma idle_start_fields:
  "q_rows idle_start = []" "q_uncommitted idle_start = []" "q_next_offset idle_start = 6" "q_next_tx idle_start = 0"
  "q_offsets idle_start = [\<lparr>of_part = sample_part, of_group = ''a'', of_acked = 5\<rparr>, \<lparr>of_part = sample_part, of_group = ''b'', of_acked = 5\<rparr>]"
  "q_leases idle_start = [\<lparr>le_part = sample_part, le_group = ''a'', le_by = ''n'', le_at = 0, le_renewed_at = 900\<rparr>]"
  by (simp_all add: idle_start_def empty_queue_def)

lemmas lease_defs = discover_partitions_def discovered_def get_leased_partitions_def of_tenants_def get_all_leases_def
  acquire_for_tenant_def acquire_unowned_partitions_def partition_keys_for_tenant_def partition_of_def settle_leases_def
  parts_of_def part_of_def update_drained_tracking_def sort_partition_identities_def release_drained_def release_lease_def
  release_stmt_def stop_partition_worker_def delete_offset_def offset_delete_stmt_def reconcile_partition_workers_def

lemma idle_release:
  "\<exists>w'. discover_and_reconcile_workers idle_subscription True idle_manager = (Inr (), w') \<and> w_db w' = idle_end"
  by (simp add: discover_and_reconcile_workers_def lease_defs q_now_def act_simps db_op_def Let_def idle_manager_def
      idle_subscription_def default_subscription_config_def idle_start_fields idle_published idle_consumed idle_end_def
      sample_part_def)

text \<open>
  Releasing an idle lease can lose a message: the supervisor's discovery tick deletes its group's
  offset row after a new message has arrived, and the garbage collection of another group, which no
  longer sees that row, deletes the message before the group could poll it.
\<close>
theorem idle_release_loses:
  "\<exists>w'. discover_and_reconcile_workers idle_subscription True idle_manager = (Inr (), w') \<and>
     stored_message ''m'' 6 \<in> set (q_rows (w_db w')) \<and>
     q_rows (collect ''b'' (w_db w')) = [] \<and>
     (''a'', sample_part, 6) \<notin> q_acks (collect ''b'' (w_db w')) \<and> q_dead (collect ''b'' (w_db w')) = {}"
proof -
  from idle_release obtain w' where
    run: "discover_and_reconcile_workers idle_subscription True idle_manager = (Inr (), w')" and db: "w_db w' = idle_end"
    by blast
  have "collect ''b'' idle_end = idle_end\<lparr>q_rows := []\<rparr>"
    by (simp add: collect_def poll_defs delivery_defs act_simps Let_def fun_eq_iff idle_end_def idle_start_def empty_queue_def
        fresh_worker_def stored_message_def row_of_def sample_message_def sample_part_def)
  then show ?thesis
    using run by (intro exI [of _ w']) (simp add: db, simp add: idle_end_def idle_start_def empty_queue_def)
qed

end
