(* ===== verification/ConsumerFacts.thy ===== *)
theory ConsumerFacts
  imports QueueShare
begin

text \<open>
  What the consumer framework guarantees: partitions are worked off in the order of their deliveries,
  a delivery is acknowledged only for a reason its controller gave, and a start that fails leaves no
  subscription behind.
\<close>

section \<open>Order\<close>

definition of_identity :: "identity \<Rightarrow> sql_delivery list \<Rightarrow> sql_delivery list" where
  "of_identity p hs = filter (\<lambda>h. partition_identity h = p) hs"

text \<open>What a partition has received is what it has begun, what it dropped and what waits in its channel.\<close>

definition in_order :: "nat \<Rightarrow> consume_loop \<Rightarrow> identity \<Rightarrow> bool" where
  "in_order cap l p \<longleftrightarrow> length (cl_channels l p) \<le> max 1 cap \<and> (\<forall>h\<in>set (cl_channels l p). partition_identity h = p) \<and>
     (\<exists>dropped. of_identity p (cl_received l) = of_identity p (cl_begun l) @ dropped @ cl_channels l p \<and>
        (\<not> cl_cancelled l \<longrightarrow> dropped = []))"

lemma loop_step_order:
  assumes "loop_step_run work cap s (l, w) = Some (l', w')" and "\<And>q. in_order cap l q"
  shows "in_order cap l' p"
proof (cases s)
  case (Receive h)
  let ?q = "partition_identity h"
  from assms(1) Receive consider "l' = l"
    | "l' = l\<lparr>cl_channels := (cl_channels l)(?q := cl_channels l ?q @ [h]), cl_received := cl_received l @ [h]\<rparr>"
      "has_room cap (cl_channels l ?q)"
    by (auto simp: loop_step_run_def Let_def split: prod.splits sum.splits bool.splits if_splits)
  then show ?thesis
  proof cases
    case 2
    with assms(2) [of p] show ?thesis by (cases "p = ?q") (auto simp: in_order_def of_identity_def has_room_def)
  qed (use assms(2) in simp)
next
  case (Work q)
  with assms(1) obtain h hs where ch: "cl_channels l q = h # hs" "\<not> cl_cancelled l"
    and l': "l' = l\<lparr>cl_channels := (cl_channels l)(q := hs), cl_begun := cl_begun l @ [h]\<rparr>"
    by (auto simp: loop_step_run_def split: list.splits if_splits)
  have "partition_identity h = q" using assms(2) [of q] ch(1) by (simp add: in_order_def)
  then show ?thesis
    using assms(2) [of p] ch by (cases "p = q") (auto simp: l' in_order_def of_identity_def)
next
  case Cancel
  with assms(1) have "l' = l\<lparr>cl_cancelled := True\<rparr>" by (simp add: loop_step_run_def)
  with assms(2) [of p] show ?thesis by (auto simp: in_order_def)
next
  case (Drop q)
  with assms(1) have "l' = l\<lparr>cl_channels := (cl_channels l)(q := [])\<rparr>" "cl_cancelled l"
    by (auto simp: loop_step_run_def split: if_splits)
  with assms(2) [of p] show ?thesis by (auto simp: in_order_def)
qed

lemma loop_run_order: "loop_run work cap x \<Longrightarrow> in_order cap (fst x) p"
proof (induction arbitrary: p rule: loop_run.induct)
  case opened
  show ?case by (simp add: in_order_def of_identity_def)
next
  case step
  from step.hyps(2) step.IH show ?case by (metis loop_step_order prod.collapse)
qed

text \<open>
  C24. Whatever the interleaving of the goroutines, each tenant-scoped partition begins the deliveries
  it was handed in the order in which they came, without a gap and each once, and no channel grows
  beyond its capacity.
\<close>
theorem partition_order:
  assumes "loop_run work cap (l, w)"
  shows "length (cl_channels l p) \<le> max 1 cap \<and>
    (\<exists>rest. of_identity p (cl_received l) = of_identity p (cl_begun l) @ rest \<and>
      (\<not> cl_cancelled l \<longrightarrow> rest = cl_channels l p))"
proof -
  from loop_run_order [OF assms] have "in_order cap l p" by simp
  then show ?thesis unfolding in_order_def by (metis append_Nil)
qed

definition sample_delivery :: sql_delivery where
  "sample_delivery = new_sql_delivery (default_subscription_config ''n'' ''g'') sample_part (sample_row 1) 1 1000"

lemma partition_order_witness:
  "\<exists>l w. loop_run (\<lambda>_. ok ()) 10 (l, w :: worker) \<and> cl_begun l = [sample_delivery] \<and>
     of_identity (partition_identity sample_delivery) (cl_received l) = [sample_delivery] @ cl_channels l (partition_identity sample_delivery)"
proof -
  let ?p = "partition_identity sample_delivery" and ?h = sample_delivery
  let ?l0 = "\<lparr>cl_channels = (\<lambda>_. []), cl_cancelled = False, cl_received = [], cl_begun = []\<rparr>"
  let ?l1 = "\<lparr>cl_channels = (\<lambda>_. [])(?p := [?h]), cl_cancelled = False, cl_received = [?h], cl_begun = []\<rparr>"
  let ?l2 = "\<lparr>cl_channels = (\<lambda>_. [])(?p := [?h, ?h]), cl_cancelled = False, cl_received = [?h, ?h], cl_begun = []\<rparr>"
  let ?l3 = "\<lparr>cl_channels = (\<lambda>_. [])(?p := [?h]), cl_cancelled = False, cl_received = [?h, ?h], cl_begun = [?h]\<rparr>"
  let ?run = "loop_run (\<lambda>_. ok ()) 10" and ?step = "loop_step_run (\<lambda>_. ok ()) 10"
  have valid: "reject_delivery_with_invalid_tenant ?h w = (Inr False, w)" for w :: worker
    by (simp add: reject_delivery_with_invalid_tenant_def validate_tenant_metadata_def metadata_get_def act_simps
        sample_delivery_def new_sql_delivery_def row_message_def sample_row_def sample_part_def)
  have steps: "?step (Receive ?h) (?l0, sample_worker) = Some (?l1, sample_worker)"
    "?step (Receive ?h) (?l1, sample_worker) = Some (?l2, sample_worker)"
    "?step (Work ?p) (?l2, sample_worker) = Some (?l3, sample_worker)"
    by (simp_all add: loop_step_run_def valid Let_def has_room_def act_simps)
  have run: "?run (?l3, sample_worker)"
    using loop_run.step [OF loop_run.step [OF loop_run.step [OF loop_run.opened steps(1)] steps(2)] steps(3)] .
  from partition_order [OF run, of ?p] have
    "of_identity ?p [?h, ?h] = of_identity ?p (cl_begun ?l3) @ cl_channels ?l3 ?p" by simp
  with run show ?thesis by (intro exI [of _ ?l3] exI [of _ sample_worker]) (simp add: of_identity_def)
qed

section \<open>Acknowledgements\<close>

text \<open>A change of the queue after which delivery \<open>k\<close> is acknowledged only if it was before.\<close>

definition leaves_unacked :: "delivery_key \<Rightarrow> qdb \<Rightarrow> qdb \<Rightarrow> bool" where
  "leaves_unacked k d d' \<longleftrightarrow> (k \<in> q_acks d' \<longrightarrow> k \<in> q_acks d)"

interpretation unacked: evolution "\<lambda>_. True" "leaves_unacked k"
  by unfold_locales (auto simp: leaves_unacked_def)

abbreviation silent :: "delivery_key \<Rightarrow> ((qdb, 'm) store_world_scheme, goerr, 'a) act \<Rightarrow> bool" where
  "silent k m \<equiv> triple (\<lambda>_. True) (leaves_unacked k) (\<lambda>_. True) m (\<lambda>_ _. True)"

lemma silent_bind: "silent k m \<Longrightarrow> (\<And>x. silent k (f x)) \<Longrightarrow> silent k (and_then m f)"
  by (rule unacked.triple_bind)

lemma silent_ok: "silent k (ok x)"
  by (rule unacked.triple_ok) simp

lemma silent_stmt: "(\<And>d. leaves_unacked k d (snd (f d))) \<Longrightarrow> silent k (db_op f)"
  by (rule unacked.triple_db_op) (auto intro: stable_intros)

lemma silent_attempt: "silent k m \<Longrightarrow> silent k (attempt m)"
  by (rule unacked.triple_conseq [OF unacked.triple_attempt]) (auto intro: stable_intros)

lemma silent_logged: "silent k m \<Longrightarrow> silent k (logged m)"
  unfolding logged_def by (intro silent_bind silent_attempt silent_ok)

lemma silent_now: "silent k q_now"
  by (rule unacked.triple_conseq [OF unacked.triple_local]) (auto simp: q_now_def)

lemma silent_postpone: "silent k (delivery_postpone h delay)"
  unfolding delivery_postpone_def settled_def mark_postponed_def
  by (intro unacked.triple_if unacked.triple_fail silent_bind silent_ok unacked.triple_map_err silent_stmt silent_now)
    (auto simp: leaves_unacked_def mark_postponed_stmt_def split: option.splits)

lemma silent_nack:
  assumes "\<not> retry_budget_exhausted (rc_max_attempts (sd_retry h)) (sd_attempt h)"
  shows "silent k (delivery_nack ops h f)"
  unfolding delivery_nack_def settled_def mark_nacked_def if_not_P [OF assms]
  by (intro unacked.triple_if unacked.triple_fail silent_bind silent_ok unacked.triple_map_err silent_stmt silent_now)
    (auto simp: leaves_unacked_def mark_nacked_stmt_def split: option.splits)

definition silent_gate :: "delivery_key \<Rightarrow> 'm qworld_scheme gate \<Rightarrow> bool" where
  "silent_gate k gate \<longleftrightarrow> (\<forall>g d. silent k (ga_enter gate g) \<and> silent k (ga_park gate g d) \<and> silent k (ga_unpark gate g d))"

lemma silent_check_gate: "silent_gate k gate \<Longrightarrow> silent k (check_gate gate c h)"
  unfolding check_gate_def Let_def
  by (intro silent_bind silent_attempt unacked.triple_case_sum)
    (auto simp: silent_gate_def intro!: silent_bind silent_logged silent_ok silent_postpone split: bool.split)

lemma silentD:
  assumes "silent k m" and "abides (\<lambda>_. True) (leaves_unacked k) w" and "m w = (r, w')"
  shows "abides (\<lambda>_. True) (leaves_unacked k) w' \<and> leaves_unacked k (w_db w) (w_db w')"
  using assms unfolding triple_def by blast

text \<open>What the controller's answer says of a delivery: that it is done with.\<close>

definition done_with :: "(goerr option \<Rightarrow> goerr option) \<Rightarrow> sql_delivery \<Rightarrow> goerr option \<times> delivery_wrapper \<Rightarrow> bool" where
  "done_with processor h answer = (case fst answer of
     None \<Rightarrow> \<not> dw_held (snd answer)
   | Some err \<Rightarrow> (case processor (Some err) of
       None \<Rightarrow> \<not> dw_held (snd answer)
     | Some e \<Rightarrow> \<not> is_retryable e \<or> retry_budget_exhausted (rc_max_attempts (sd_retry h)) (sd_attempt h)))"

lemma silent_process_delivery:
  assumes "silent_gate k gate" and "silent k (run_process process (wrap_delivery h))"
    and "\<And>w. \<not> done_with processor h (fst (process (wrap_delivery h) w))"
  shows "silent k (process_delivery ops gate processor c process h)"
  unfolding process_delivery_def
proof (rule silent_bind [OF silent_check_gate [OF assms(1)]], rule unacked.triple_if [OF silent_ok])
  let ?run = "run_process process (wrap_delivery h)"
  have answer: "triple (\<lambda>_. True) (leaves_unacked k) (\<lambda>_. True) ?run (\<lambda>x d. True \<and> \<not> done_with processor h x)"
  proof (rule unacked.triple_result [OF assms(2)])
    fix w x w' assume "?run w = (Inr x, w')"
    with assms(3) [of w] show "\<not> done_with processor h x" by (auto simp: run_process_def split: prod.splits)
  qed
  show "silent k (and_then ?run (\<lambda>(err, dw). case (case err of None \<Rightarrow> None | Some _ \<Rightarrow> processor err) of
         Some e \<Rightarrow>
           if \<not> is_retryable e then logged (delivery_reject h (attributed_failure e))
           else logged (delivery_nack ops h (attributed_failure e))
       | None \<Rightarrow>
           if dw_held dw then logged (delivery_postpone h (dw_hold_delay dw)) else logged (delivery_ack h)))"
  proof (rule unacked.triple_bind [OF answer])
    fix x :: "goerr option \<times> delivery_wrapper"
    show "triple (\<lambda>_. True) (leaves_unacked k) (\<lambda>d. True \<and> \<not> done_with processor h x)
      (case x of (err, dw) \<Rightarrow> case (case err of None \<Rightarrow> None | Some _ \<Rightarrow> processor err) of
         Some e \<Rightarrow>
           if \<not> is_retryable e then logged (delivery_reject h (attributed_failure e))
           else logged (delivery_nack ops h (attributed_failure e))
       | None \<Rightarrow>
           if dw_held dw then logged (delivery_postpone h (dw_hold_delay dw)) else logged (delivery_ack h)) (\<lambda>_ _. True)"
      by (rule unacked.triple_pure, cases x)
        (auto simp: done_with_def intro!: silent_logged silent_postpone silent_nack split: option.splits)
  qed
qed

text \<open>
  C23. At least once.  Whatever fails, whatever other processes and the controller itself do to other
  deliveries, processing a delivery acknowledges it only if some run of its controller was done with
  it: it returned no error and held nothing, or an error the processor calls permanent, or a transient
  one on the last attempt.
\<close>
theorem acknowledged_only_when_done:
  assumes "process_delivery ops gate processor c process h w = (r, w')" and "delivery_key_of h = k"
    and "abides (\<lambda>_. True) (leaves_unacked k) w" and "silent_gate k gate"
    and "silent k (run_process process (wrap_delivery h))"
    and "k \<notin> q_acks (w_db w)" and "k \<in> q_acks (w_db w')"
  shows "\<exists>w1. done_with processor h (fst (process (wrap_delivery h) w1))"
proof (rule ccontr)
  assume "\<nexists>w1. done_with processor h (fst (process (wrap_delivery h) w1))"
  then have "silent k (process_delivery ops gate processor c process h)"
    by (intro silent_process_delivery assms(4,5)) blast
  from silentD [OF this assms(3,1)] assms(6,7) show False by (simp add: leaves_unacked_def)
qed

definition sample_controller :: "worker process" where
  "sample_controller dw w = ((None, dw), w)"

lemma acknowledged_only_when_done_witness:
  "\<exists>w1. done_with (classifier_process []) sample_delivery (fst (sample_controller (wrap_delivery sample_delivery) w1))"
proof -
  let ?c = "\<lparr>ct_name = ''c'', ct_key = ''build'', ct_group = ''g''\<rparr>" and ?k = "(''g'', sample_part, 1 :: nat)"
  let ?d = "sample_queue\<lparr>q_acks := {}, q_delivery := [?k \<mapsto>
    \<lparr>ds_acked = False, ds_invisible_until = 0, ds_retry_count = 0, ds_postponed = False\<rparr>]\<rparr>"
  let ?w = "sample_worker\<lparr>w_db := ?d\<rparr>"
  let ?w' = "snd (process_delivery undefined noop_gate (classifier_process []) ?c sample_controller sample_delivery ?w)"
  have key: "delivery_key_of sample_delivery = ?k"
    by (simp add: sample_delivery_def delivery_key_of_def new_sql_delivery_def sample_row_def default_subscription_config_def)
  have acked: "?k \<in> q_acks (w_db ?w')"
    by (simp add: process_delivery_def check_gate_def noop_gate_def logged_def run_process_def sample_controller_def
        wrap_delivery_def delivery_ack_def settled_def mark_acked_def mark_acked_stmt_def act_simps key [simplified]
        sample_worker_def Let_def)
      (simp add: sample_delivery_def new_sql_delivery_def)
  show ?thesis
  proof (rule acknowledged_only_when_done [OF prod.collapse [symmetric] key])
    show "abides (\<lambda>_. True) (leaves_unacked ?k) ?w" by (simp add: abides_def sample_worker_def)
    show "silent_gate ?k (noop_gate :: worker gate)" by (simp add: silent_gate_def noop_gate_def silent_ok)
    show "silent ?k (run_process sample_controller (wrap_delivery sample_delivery))"
      by (rule unacked.triple_conseq [OF unacked.triple_local]) (auto simp: run_process_def sample_controller_def)
    show "?k \<notin> q_acks (w_db ?w)" by simp
    show "?k \<in> q_acks (w_db ?w')" by (rule acked)
  qed
qed

section \<open>Start\<close>

text \<open>Every active subscription belongs to a registered controller and reads a channel that is open.\<close>

definition subscribed_well :: "consumer \<Rightarrow> bool" where
  "subscribed_well m \<longleftrightarrow> (\<forall>q. channels_numbered (cn_subscribers m q)) \<and>
     (\<forall>key c q ch. cn_subscriptions m key = Some (c, q, ch) \<longrightarrow>
        c \<in> set (cn_controllers m) \<and> ct_key c = key \<and> ch \<notin> sb_ended (cn_subscribers m q))"

lemma consumer_subscribe_well:
  assumes "consumer_subscribe c m = (r, m')" and "subscribed_well m" and "c \<in> set (cn_controllers m)"
  shows "subscribed_well m' \<and> cn_controllers m' = cn_controllers m \<and>
    (r = Inr () \<longrightarrow> dom (cn_subscriptions m') = insert (ct_key c) (dom (cn_subscriptions m)))"
proof (cases "\<exists>cfg q n. registry_subscription (cn_registry m) (ct_key c) (ct_group c) = Some cfg \<and>
    registry_queue (cn_registry m) (ct_key c) = Some q \<and> registry_topic_name (cn_registry m) (ct_key c) = Some n")
  case True
  then obtain cfg q n where found: "registry_subscription (cn_registry m) (ct_key c) (ct_group c) = Some cfg"
    "registry_queue (cn_registry m) (ct_key c) = Some q" "registry_topic_name (cn_registry m) (ct_key c) = Some n" by blast
  obtain r' s where sub: "subscribe n cfg (cn_subscribers m q) = (r', s)" by (cases "subscribe n cfg (cn_subscribers m q)")
  have numbered: "channels_numbered (cn_subscribers m q)" using assms(2) by (simp add: subscribed_well_def)
  note kept = subscribe_open(1) [OF sub numbered] and opened = subscribe_open(2) [OF sub numbered]
  show ?thesis
  proof (cases r')
    case (Inl e)
    with assms(1) found sub have "m' = m\<lparr>cn_subscribers := (cn_subscribers m)(q := s)\<rparr>" "r \<noteq> Inr ()"
      by (auto simp: consumer_subscribe_def)
    with assms(2) kept show ?thesis by (auto simp: subscribed_well_def)
  next
    case (Inr ch)
    with assms(1) found sub have "m' = m\<lparr>cn_subscribers := (cn_subscribers m)(q := s),
        cn_subscriptions := (cn_subscriptions m)(ct_key c \<mapsto> (c, q, ch))\<rparr>"
      by (auto simp: consumer_subscribe_def)
    with assms(2,3) kept opened [OF Inr] show ?thesis by (auto simp: subscribed_well_def)
  qed
next
  case False
  with assms(1) have "m' = m" "r \<noteq> Inr ()" by (auto simp: consumer_subscribe_def split: option.splits)
  with assms(2) show ?thesis by simp
qed

lemma start_controllers_well:
  assumes "start_controllers slow cs m = (r, m')" and "subscribed_well m" and "set cs \<subseteq> set (cn_controllers m)"
  shows "subscribed_well m' \<and> cn_controllers m' = cn_controllers m \<and>
    (if r = Inr () then dom (cn_subscriptions m') = dom (cn_subscriptions m) \<union> ct_key ` set cs
     else cn_subscriptions m' = Map.empty)"
  using assms
proof (induction cs arbitrary: m)
  case Nil
  then show ?case by (auto simp: act_simps)
next
  case (Cons c cs)
  obtain r1 m1 where first: "consumer_subscribe c m = (r1, m1)" by (cases "consumer_subscribe c m")
  have well: "subscribed_well m1" "cn_controllers m1 = cn_controllers m"
    "r1 = Inr () \<Longrightarrow> dom (cn_subscriptions m1) = insert (ct_key c) (dom (cn_subscriptions m))"
    using consumer_subscribe_well [OF first Cons.prems(2)] Cons.prems(3) by auto
  show ?case
  proof (cases r1)
    case (Inl e)
    with Cons.prems(1) first have "r \<noteq> Inr ()" "m' = m1\<lparr>cn_subscriptions := Map.empty\<rparr>"
      by (auto simp: act_simps unsubscribe_all_def)
    with well show ?thesis by (auto simp: subscribed_well_def)
  next
    case (Inr u)
    with Cons.prems(1) first have rest: "start_controllers slow cs m1 = (r, m')" by (simp add: act_simps)
    have "subscribed_well m' \<and> cn_controllers m' = cn_controllers m1 \<and>
        (if r = Inr () then dom (cn_subscriptions m') = dom (cn_subscriptions m1) \<union> ct_key ` set cs
         else cn_subscriptions m' = Map.empty)"
      using Cons.prems(3) well(2) by (intro Cons.IH [OF rest well(1)]) simp
    with well(2,3) Inr show ?thesis by auto
  qed
qed

text \<open>
  The start of a consumer is all or nothing: either every registered controller reads a channel of
  its own topic whose supervisor still runs, or the start reports an error and no subscription of
  the consumer is active.
\<close>
theorem start_all_or_nothing:
  assumes "consumer_start slow m = (r, m')" and "subscribed_well m" and "cn_subscriptions m = Map.empty"
  shows "subscribed_well m' \<and> cn_controllers m' = cn_controllers m \<and>
    (if r = Inr () then dom (cn_subscriptions m') = ct_key ` set (cn_controllers m) else cn_subscriptions m' = Map.empty)"
proof (cases "cn_stopped m \<or> cn_controllers m = []")
  case True
  with assms show ?thesis by (auto simp: consumer_start_def split: if_splits)
next
  case False
  with assms(1) have run: "start_controllers slow (cn_controllers m) m = (r, m')" by (simp add: consumer_start_def)
  from start_controllers_well [OF run assms(2)] assms(3) show ?thesis by simp
qed

definition sample_consumer :: consumer where
  "sample_consumer =
     (let sub = default_subscription_config ''n'' ''g'';
          registry = new_topic_registry [\<lparr>tg_key = ''build'', tg_name = ''build'', tg_queue = 0, tg_subscription = Some sub\<rparr>];
          backend = \<lparr>sb_tenants = [''t''], sb_closed = False, sb_subscriptions = [''build:g'' \<mapsto> 0], sb_ended = {0}, sb_next = 1\<rparr> in
      case registry of
        Inr r \<Rightarrow> snd (register \<lparr>ct_name = ''c'', ct_key = ''build'', ct_group = ''g''\<rparr> (new_consumer r (\<lambda>_. backend)))
      | Inl e \<Rightarrow> undefined)"

lemma start_all_or_nothing_witness:
  "fst (consumer_start {} sample_consumer) = Inr () \<and> dom (cn_subscriptions (snd (consumer_start {} sample_consumer))) = {''build''}"
proof -
  let ?c = "\<lparr>ct_name = ''c'', ct_key = ''build'', ct_group = ''g''\<rparr>"
  have fields: "cn_controllers sample_consumer = [?c]" "cn_subscriptions sample_consumer = Map.empty"
    "\<not> cn_stopped sample_consumer"
    "cn_subscribers sample_consumer = (\<lambda>_. \<lparr>sb_tenants = [''t''], sb_closed = False, sb_subscriptions = [''build:g'' \<mapsto> 0],
       sb_ended = {0}, sb_next = 1\<rparr>)"
    "registry_subscription (cn_registry sample_consumer) ''build'' ''g'' = Some (default_subscription_config ''n'' ''g'')"
    "registry_queue (cn_registry sample_consumer) ''build'' = Some 0"
    "registry_topic_name (cn_registry sample_consumer) ''build'' = Some ''build''"
    by (simp_all add: sample_consumer_def Let_def new_topic_registry_def validate_topic_name_def topic_char_def register_def
        new_consumer_def default_subscription_config_def registry_subscription_def registry_queue_def registry_topic_name_def)
  have well: "subscribed_well sample_consumer" by (simp add: subscribed_well_def fields channels_numbered_def)
  have ran: "fst (consumer_start {} sample_consumer) = Inr ()"
    by (simp add: consumer_start_def fields act_simps consumer_subscribe_def subscribe_def default_subscription_config_def
        validate_ascii_identifier_def validate_retry_config_def max_retry_backoff_ms_def)
  from start_all_or_nothing [OF prod.collapse [symmetric] well fields(2), of "{}"] ran fields(1) show ?thesis by simp
qed

end
