(* ===== verification/GatewayStore.thy ===== *)
theory GatewayStore
  imports Storage Publish "HOL-Library.List_Lexorder" "HOL-Library.Product_Lexorder" "HOL-Library.Char_ord"
begin

text \<open>
  The gateway's own tables (\<open>submitqueue/gateway/extension/storage/mysql\<close>) and the materializer that
  projects request logs onto them (\<open>submitqueue/gateway/core/request\<close>).  As for the orchestrator the
  database is the slice of one queue; a method is the statement it sends.  The change URIs and the
  metadata are kept decoded.
\<close>

section \<open>Entities\<close>

record request_summary =
  sm_request :: string
  sm_queue :: string
  sm_uris :: "string list"
  sm_received :: int
  sm_status :: request_status
  sm_request_version :: int
  sm_status_at :: int
  sm_version :: int
  sm_last_error :: string
  sm_metadata :: metadata

record request_uri =
  ru_uri :: string
  ru_queue :: string
  ru_received :: int
  ru_request :: string

record request_receipt =
  rc_queue :: string
  rc_received :: int
  rc_request :: string

section \<open>The database and its processes\<close>

text \<open>
  A log row carries the random salt of its primary key; a clash of two salts, which would fail the
  insert, is one of the call's failures.
\<close>

record gateway_db =
  g_summaries :: "request_summary list"
  g_uris :: "request_uri list"
  g_receipts :: "request_receipt list"
  g_logs :: "(request_log \<times> int) list"
  g_counter :: int
  g_messages :: "message list"

record gateway = "gateway_db store_world" +
  gw_queue :: string
  gw_registry :: "topic_key \<rightharpoonup> string"
  gw_clock :: "nat \<Rightarrow> int"
  gw_ticks :: nat
  gw_salts :: "nat \<Rightarrow> int"

type_synonym 'a gop = "(gateway, goerr, 'a) act"

definition gw_now :: "int gop" where
  "gw_now w = (Inr (gw_clock w (gw_ticks w)), w\<lparr>gw_ticks := Suc (gw_ticks w)\<rparr>)"

definition gateway_storage_for :: "string \<Rightarrow> unit gop" where
  "gateway_storage_for q w =
     (if q = [] then (Inl (Plain ''queue name must not be empty''), w)
      else if q \<noteq> gw_queue w then (Inl (Plain ''no backend is configured for the queue''), w)
      else (Inr (), w))"

section \<open>Request summaries\<close>

definition queue_bound :: "string \<Rightarrow> 'a gop \<Rightarrow> 'a gop" where
  "queue_bound q m w = (if q \<noteq> gw_queue w then (Inl (Plain ''queue does not match the bound queue of the store''), w) else m w)"

definition summary_row :: "string \<Rightarrow> gateway_db \<Rightarrow> request_summary option" where
  "summary_row i d = find_first (\<lambda>s. sm_request s = i) (g_summaries d)"

definition summary_insert_stmt :: "request_summary \<Rightarrow> gateway_db \<Rightarrow> (goerr + unit) \<times> gateway_db" where
  "summary_insert_stmt s d =
     (if summary_row (sm_request s) d \<noteq> None then (Inl (Wrapped ''request summary'' ErrAlreadyExists), d)
      else (Inr (), d\<lparr>g_summaries := g_summaries d @ [s]\<rparr>))"

definition summary_create :: "request_summary \<Rightarrow> unit gop" where
  "summary_create s = queue_bound (sm_queue s) (db_op (summary_insert_stmt s))"

definition summary_get :: "string \<Rightarrow> request_summary gop" where
  "summary_get i = db_op (\<lambda>d. (case summary_row i d of None \<Rightarrow> Inl (Wrapped ''no rows'' ErrNotFound) | Some s \<Rightarrow> Inr s, d))"

definition summary_update_stmt :: "request_summary \<Rightarrow> int \<Rightarrow> int \<Rightarrow> gateway_db \<Rightarrow> (goerr + unit) \<times> gateway_db" where
  "summary_update_stmt s old new d =
     (let hit = (\<lambda>row. sm_request row = sm_request s \<and> sm_version row = old) in
      if list_ex hit (g_summaries d)
      then (Inr (), d\<lparr>g_summaries := map (\<lambda>row. if hit row then s\<lparr>sm_version := new\<rparr> else row) (g_summaries d)\<rparr>)
      else (Inl (Wrapped ''request summary'' err_version_mismatch), d))"

definition summary_update :: "request_summary \<Rightarrow> int \<Rightarrow> int \<Rightarrow> unit gop" where
  "summary_update s old new = queue_bound (sm_queue s) (db_op (summary_update_stmt s old new))"

section \<open>Change URIs and receipts\<close>

definition uri_insert_stmt :: "request_uri \<Rightarrow> gateway_db \<Rightarrow> (goerr + unit) \<times> gateway_db" where
  "uri_insert_stmt u d =
     (if u \<in> set (g_uris d) then (Inl (Wrapped ''request URI'' ErrAlreadyExists), d)
      else (Inr (), d\<lparr>g_uris := g_uris d @ [u]\<rparr>))"

definition uri_create :: "request_uri \<Rightarrow> unit gop" where
  "uri_create u = queue_bound (ru_queue u) (db_op (uri_insert_stmt u))"

definition uri_list :: "string \<Rightarrow> nat \<Rightarrow> request_uri list gop" where
  "uri_list u limit = db_op (\<lambda>d. (Inr (take limit (rev (sort_key (\<lambda>x. (ru_received x, ru_request x))
     (filter (\<lambda>x. ru_uri x = u) (g_uris d))))), d))"

definition receipt_insert_stmt :: "request_receipt \<Rightarrow> gateway_db \<Rightarrow> (goerr + unit) \<times> gateway_db" where
  "receipt_insert_stmt r d =
     (if r \<in> set (g_receipts d) then (Inl (Wrapped ''request receipt'' ErrAlreadyExists), d)
      else (Inr (), d\<lparr>g_receipts := g_receipts d @ [r]\<rparr>))"

definition receipt_create :: "request_receipt \<Rightarrow> unit gop" where
  "receipt_create r = queue_bound (rc_queue r)
     (if rc_received r \<le> 0 \<or> rc_request r = [] then fail (Plain ''request receipt requires a positive timestamp and nonempty request ID'')
      else db_op (receipt_insert_stmt r))"

record receipt_range =
  rr_from :: int
  rr_before :: int
  rr_cursor_at :: int
  rr_cursor_id :: string
  rr_limit :: nat

definition validate_receipt_range :: "receipt_range \<Rightarrow> goerr + unit" where
  "validate_receipt_range b =
     (if rr_before b \<le> rr_from b \<or> rr_limit b = 0 then Inl (Plain ''request receipt range requires ordered bounds and a positive limit'')
      else if rr_cursor_at b < 0 \<or> (rr_cursor_at b = 0) \<noteq> (rr_cursor_id b = [])
        then Inl (Plain ''request receipt cursor requires a positive timestamp and nonempty request ID, or the zero value'')
      else Inr ())"

definition receipt_key :: "request_receipt \<Rightarrow> int \<times> string" where
  "receipt_key r = (rc_received r, rc_request r)"

definition in_range :: "receipt_range \<Rightarrow> request_receipt \<Rightarrow> bool" where
  "in_range b r \<longleftrightarrow> rr_from b \<le> rc_received r \<and> rc_received r < rr_before b \<and>
     (rr_cursor_at b = 0 \<or> rc_received r < rr_cursor_at b \<or> rc_received r = rr_cursor_at b \<and> rc_request r < rr_cursor_id b)"

definition receipt_rows :: "receipt_range \<Rightarrow> gateway_db \<Rightarrow> request_receipt list" where
  "receipt_rows b d = take (rr_limit b) (rev (sort_key receipt_key (filter (in_range b) (g_receipts d))))"

definition receipt_list :: "receipt_range \<Rightarrow> request_receipt list gop" where
  "receipt_list b = and_then (of_sum (validate_receipt_range b)) (\<lambda>_. db_op (\<lambda>d. (Inr (receipt_rows b d), d)))"

section \<open>Request logs\<close>

definition log_insert_stmt :: "request_log \<Rightarrow> int \<Rightarrow> gateway_db \<Rightarrow> (goerr + unit) \<times> gateway_db" where
  "log_insert_stmt l salt d = (Inr (), d\<lparr>g_logs := g_logs d @ [(l, salt)]\<rparr>)"

definition log_insert :: "request_log \<Rightarrow> unit gop" where
  "log_insert l w = queue_bound (rl_queue l) (db_op (log_insert_stmt l (gw_salts w (gw_ticks w)))) w"

definition log_rows :: "string \<Rightarrow> gateway_db \<Rightarrow> request_log list" where
  "log_rows i d = map fst (sort_key (\<lambda>(l, salt). (rl_timestamp l, salt)) (filter (\<lambda>(l, _). rl_request l = i) (g_logs d)))"

definition log_list :: "string \<Rightarrow> request_log list gop" where
  "log_list i = db_op (\<lambda>d. (case log_rows i d of [] \<Rightarrow> Inl (Wrapped ''no request log records'' ErrNotFound) | ls \<Rightarrow> Inr ls, d))"

section \<open>The materializer\<close>

definition is_terminal_status :: "request_status \<Rightarrow> bool" where
  "is_terminal_status s \<longleftrightarrow> s = RequestStatusLanded \<or> s = RequestStatusError \<or> s = RequestStatusCancelled"

definition is_versioned_terminal :: "request_log \<Rightarrow> bool" where
  "is_versioned_terminal l \<longleftrightarrow> rl_version l > 0 \<and> is_terminal_status (rl_status l)"

definition is_versioned_terminal_summary :: "request_summary \<Rightarrow> bool" where
  "is_versioned_terminal_summary s \<longleftrightarrow> sm_request_version s > 0 \<and> is_terminal_status (sm_status s)"

definition log_wins :: "request_log \<Rightarrow> request_summary \<Rightarrow> bool" where
  "log_wins l s =
     (if rl_type l \<noteq> RequestLogTypeStatus then False
      else if sm_status s = RequestStatusAccepting then rl_status l \<noteq> RequestStatusAccepting
      else if rl_status l = RequestStatusAccepting then False
      else if rl_status l = RequestStatusAccepted \<and> sm_status s \<noteq> RequestStatusAccepted then False
      else let incoming = is_versioned_terminal l; current = is_versioned_terminal_summary s in
        if incoming \<noteq> current then incoming
        else if incoming \<and> rl_version l \<noteq> sm_request_version s then rl_version l > sm_request_version s
        else rl_timestamp l > sm_status_at s)"

definition apply_log :: "request_log \<Rightarrow> request_summary \<Rightarrow> request_summary" where
  "apply_log l s = s\<lparr>sm_status := rl_status l, sm_request_version := rl_version l, sm_status_at := rl_timestamp l,
     sm_last_error := rl_last_error l, sm_metadata := rl_metadata l\<rparr>"

definition unless_exists :: "string \<Rightarrow> unit gop \<Rightarrow> unit gop" where
  "unless_exists what m = and_then (attempt m) (\<lambda>r. case r of
     Inl e \<Rightarrow> if is_already_exists e then ok () else fail (Wrapped what e)
   | Inr _ \<Rightarrow> ok ())"

definition ensure_request_uri_mappings :: "request_summary \<Rightarrow> unit gop" where
  "ensure_request_uri_mappings s = for_each (\<lambda>u. unless_exists ''failed to create request URI mapping''
     (uri_create \<lparr>ru_uri = u, ru_queue = sm_queue s, ru_received = sm_received s, ru_request = sm_request s\<rparr>)) (sm_uris s)"

definition ensure_request_receipt_mapping :: "request_summary \<Rightarrow> unit gop" where
  "ensure_request_receipt_mapping s = unless_exists ''failed to ensure request receipt mapping''
     (receipt_create \<lparr>rc_queue = sm_queue s, rc_received = sm_received s, rc_request = sm_request s\<rparr>)"

definition ensure_mappings :: "request_summary \<Rightarrow> unit gop" where
  "ensure_mappings s =
     (if sm_status s = RequestStatusAccepting then ok ()
      else and_then (ensure_request_uri_mappings s) (\<lambda>_. ensure_request_receipt_mapping s))"

text \<open>
  The loop of \<open>PersistLog\<close>.  A version mismatch takes another process's write or a failed call, so
  every round consumes events of the script and the loop ends.
\<close>

function (sequential) persist_loop :: "request_log \<Rightarrow> gateway \<Rightarrow> (goerr + unit) \<times> gateway" where
  "persist_loop l w = (case summary_get (rl_request l) w of
     (Inl e, w1) \<Rightarrow> (Inl (Wrapped ''failed to get request summary'' e), w1)
   | (Inr s, w1) \<Rightarrow>
       if log_wins l s
       then (case summary_update (apply_log l s) (sm_version s) (sm_version s + 1) w1 of
           (Inl e, w2) \<Rightarrow>
             if is_version_mismatch e then persist_loop l w2
             else (Inl (Wrapped ''failed to update request summary'' e), w2)
         | (Inr _, w2) \<Rightarrow> ensure_mappings ((apply_log l s)\<lparr>sm_version := sm_version s + 1\<rparr>) w2)
       else ensure_mappings s w1)"
  by pat_completeness auto


lemma persist_step:
  assumes "summary_get (rl_request l) w = (Inr s, w1)"
    and "summary_update (apply_log l s) (sm_version s) v w1 = (Inl e, w2)" and "is_version_mismatch e"
  shows "length (w_script w2) < length (w_script w)"
proof (cases "w_script w")
  case Nil
  with assms(1) have s: "summary_row (rl_request l) (w_db w) = Some s" and w1: "w_db w1 = w_db w" "w_script w1 = []"
    by (auto simp: summary_get_def db_op_quiet split: option.splits)
  then have "list_ex (\<lambda>row. sm_request row = sm_request s \<and> sm_version row = sm_version s) (g_summaries (w_db w1))"
    by (auto simp: summary_row_def list_ex_iff dest: find_first_Some)
  with assms(2,3) w1 show ?thesis
    by (auto simp: summary_update_def queue_bound_def db_op_quiet summary_update_stmt_def apply_log_def split: if_splits)
next
  case (Cons ev es)
  have "length (w_script w2) \<le> length (w_script w1)"
    using assms(2) by (auto simp: summary_update_def queue_bound_def dest!: db_op_script split: if_splits)
  moreover have "w_script w1 = es" using assms(1) Cons by (auto simp: summary_get_def dest!: db_op_script)
  ultimately show ?thesis using Cons by simp
qed

termination persist_loop
  by (relation "measure (\<lambda>(l, w). length (w_script w))") (auto intro: persist_step [OF sym sym])

definition persist_log :: "request_log \<Rightarrow> unit gop" where
  "persist_log l =
     and_then (map_err (Wrapped ''failed to resolve storage for queue'') (gateway_storage_for (rl_queue l))) (\<lambda>_.
     and_then (map_err (Wrapped ''failed to insert request log'') (log_insert l)) (\<lambda>_. persist_loop l))"

text \<open>\<open>GetCurrentStateFromRequestLog\<close>: the winner among the records of a request, which are listed by their time.\<close>

record current_state =
  cs_status :: request_status
  cs_last_error :: string
  cs_metadata :: metadata

definition later_terminal :: "request_log option \<Rightarrow> request_log \<Rightarrow> bool" where
  "later_terminal best l = (case best of None \<Rightarrow> True
     | Some b \<Rightarrow> rl_version l > rl_version b \<or> rl_version l = rl_version b \<and> rl_timestamp l > rl_timestamp b)"

definition later :: "request_log option \<Rightarrow> request_log \<Rightarrow> bool" where
  "later best l = (case best of None \<Rightarrow> True | Some b \<Rightarrow> rl_timestamp l > rl_timestamp b)"

fun best_logs :: "request_log list \<Rightarrow> request_log option \<Rightarrow> request_log option \<Rightarrow> request_log option \<times> request_log option" where
  "best_logs [] terminal latest = (terminal, latest)"
| "best_logs (l # ls) terminal latest =
     (if rl_type l \<noteq> RequestLogTypeStatus then best_logs ls terminal latest
      else best_logs ls
        (if is_versioned_terminal l \<and> later_terminal terminal l then Some l else terminal)
        (if later latest l then Some l else latest))"

definition get_current_state_from_request_log :: "string \<Rightarrow> current_state gop" where
  "get_current_state_from_request_log i =
     and_then (map_err (Wrapped ''failed to list request logs'') (log_list i)) (\<lambda>ls.
     let (terminal, latest) = best_logs ls None None in
     case (case terminal of Some t \<Rightarrow> Some t | None \<Rightarrow> latest) of
       None \<Rightarrow> fail (Wrapped ''no request status recorded'' ErrNotFound)
     | Some l \<Rightarrow> ok \<lparr>cs_status = rl_status l, cs_last_error = rl_last_error l, cs_metadata = rl_metadata l\<rparr>)"

end
