(* ===== verification/Gateway.thy ===== *)
theory Gateway
  imports GatewayStore
begin

text \<open>
  The gateway's controllers (\<open>submitqueue/gateway/controller\<close>): land, cancel, the lookups of
  summaries and histories, the paged list of a queue's requests, and the consumer of the log topic.
  The queue configuration and the pause switches are arguments.
\<close>

section \<open>Errors and validation\<close>

definition err_invalid_request :: goerr where
  "err_invalid_request = new_user_error (Plain ''invalid request'')"

definition config_not_found :: goerr where
  "config_not_found = Plain ''queue config not found''"

definition unrecognized_queue :: "string \<Rightarrow> goerr" where
  "unrecognized_queue q = Plain (''unrecognized queue '' @ q)"

definition queue_paused :: "string \<Rightarrow> string \<Rightarrow> goerr" where
  "queue_paused q reason = Plain (''queue '' @ q @ '' is paused and not accepting land requests'' @ (if reason \<noteq> [] then '': '' @ reason else []))"

definition request_not_found :: "string \<Rightarrow> string \<Rightarrow> goerr" where
  "request_not_found sqid uri =
     Plain (if sqid \<noteq> [] then ''request not found for sqid '' @ sqid else ''request not found for change URI '' @ uri)"

definition too_many_change_requests :: "string \<Rightarrow> goerr" where
  "too_many_change_requests uri = Plain (''change URI '' @ uri @ '' matched more requests than the limit'')"

definition internal_consistency :: "string \<Rightarrow> goerr" where
  "internal_consistency m = Plain (''internal consistency: '' @ m)"

definition max_change_request_results :: nat where
  "max_change_request_results = 100"

definition validate_queue_identifier :: "string \<Rightarrow> goerr + unit" where
  "validate_queue_identifier q =
     (if q = [] then Inl (Wrapped ''queue must be non-empty'' err_invalid_request)
      else if length q > 235 then Inl (Wrapped ''queue exceeds 235 bytes'' err_invalid_request)
      else Inr ())"

definition validate_stored_identifier :: "string \<Rightarrow> string \<Rightarrow> goerr + unit" where
  "validate_stored_identifier name v =
     (if v = [] then Inl (Wrapped (name @ '' must be non-empty'') err_invalid_request)
      else if length v > 255 then Inl (Wrapped (name @ '' exceeds 255 bytes'') err_invalid_request)
      else Inr ())"

definition validate_sqid :: "string \<Rightarrow> goerr + unit" where
  "validate_sqid v = (case validate_id v of Inl _ \<Rightarrow> Inl (Wrapped ''invalid sqid'' err_invalid_request) | Inr _ \<Rightarrow> Inr ())"

fun validate_each_uri :: "string list \<Rightarrow> string set \<Rightarrow> goerr + unit" where
  "validate_each_uri [] seen = Inr ()"
| "validate_each_uri (u # us) seen = (case validate_stored_identifier ''change URI'' u of
     Inl e \<Rightarrow> Inl e
   | Inr _ \<Rightarrow> if u \<in> seen then Inl (Wrapped ''duplicate change URI'' err_invalid_request) else validate_each_uri us (insert u seen))"

definition validate_change_uris :: "string list \<Rightarrow> goerr + unit" where
  "validate_change_uris us =
     (if us = [] then Inl (Wrapped ''at least one change URI is required'' err_invalid_request) else validate_each_uri us {})"

section \<open>Publishing\<close>

text \<open>
  The checks of Publish (\<open>published_checked\<close>) and its deduplicating insert on the gateway's database.
\<close>

definition message_stmt :: "message \<Rightarrow> gateway_db \<Rightarrow> (goerr + unit) \<times> gateway_db" where
  "message_stmt m d =
     (Inr (), if list_ex (same_message_key m) (g_messages d) then d else d\<lparr>g_messages := g_messages d @ [m]\<rparr>)"

definition gateway_publish :: "topic_key \<Rightarrow> message_params \<Rightarrow> unit gop" where
  "gateway_publish key p w =
     (if mp_tenant p = [] then (Inl (Plain ''tenant is required''), w)
      else case gw_registry w key of
        None \<Rightarrow> (Inl (Plain ''no queue registered for topic key''), w)
      | Some topic \<Rightarrow>
          if mp_metadata p metadata_key_queue_name \<notin> {None, Some (mp_tenant p)}
          then (Inl (Plain ''queue-name metadata does not match tenant''), w)
          else and_then gw_now (\<lambda>now.
            let m = \<lparr>m_tenant = mp_tenant p, m_topic = topic, m_id = mp_id p, m_partition = mp_partition p,
                 m_payload = mp_payload p, m_metadata = (mp_metadata p)(metadata_key_queue_name \<mapsto> mp_tenant p),
                 m_published_at = now\<rparr> in
            and_then (of_sum (check_message m)) (\<lambda>_.
            map_err (Wrapped ''publish message store insert error'') (db_op (message_stmt m)))) w)"

section \<open>Land\<close>

record queue_config =
  qc_name :: string

record queue_pause =
  qp_reject_lands :: bool
  qp_freeze_processing :: bool
  qp_reason :: string

definition counter_stmt :: "gateway_db \<Rightarrow> (goerr + int) \<times> gateway_db" where
  "counter_stmt d = (let v = g_counter d + 1; d' = d\<lparr>g_counter := v\<rparr> in
     if v \<le> 0 then (Inl (Plain ''counter returned non-positive value''), d') else (Inr v, d'))"

definition land_publish_to_queue :: "land_request \<Rightarrow> unit gop" where
  "land_publish_to_queue r = map_err (Wrapped ''failed to publish land request message'')
     (gateway_publish TopicKeyStart \<lparr>mp_tenant = lr_queue r, mp_id = intent_id (lr_id r) [], mp_payload = PStart r,
       mp_partition = lr_queue r, mp_metadata = Map.empty\<rparr>)"

definition known_queue :: "(string \<Rightarrow> goerr + queue_config) \<Rightarrow> string \<Rightarrow> goerr + unit" where
  "known_queue configs q = (case configs q of
     Inl e \<Rightarrow> Inl (if errors_is e config_not_found then new_user_error (unrecognized_queue q) else Wrapped ''failed to look up queue'' e)
   | Inr _ \<Rightarrow> Inr ())"

definition land :: "(string \<Rightarrow> goerr + queue_config) \<Rightarrow> (string \<Rightarrow> goerr + queue_pause) \<Rightarrow> land_request \<Rightarrow> string gop" where
  "land configs pauses r =
     and_then (map_err (Wrapped ''invalid queue'') (of_sum (validate_queue_identifier (lr_queue r)))) (\<lambda>_.
     and_then (map_err (Wrapped ''invalid change URIs'') (of_sum (validate_change_uris (lr_uris r)))) (\<lambda>_.
     and_then (of_sum (known_queue configs (lr_queue r))) (\<lambda>_.
     and_then (map_err (Wrapped ''failed to read pause state'') (of_sum (pauses (lr_queue r)))) (\<lambda>pause.
     if qp_reject_lands pause then fail (new_user_error (queue_paused (lr_queue r) (qp_reason pause)))
     else
     and_then (map_err (Wrapped ''failed to resolve storage for queue'') (gateway_storage_for (lr_queue r))) (\<lambda>_.
     and_then (map_err (Wrapped ''failed to generate request ID for queue'') (db_op counter_stmt)) (\<lambda>seq.
     and_then (map_err (Wrapped ''generated invalid request ID for queue'') (of_sum (from_counter seq))) (\<lambda>i.
     and_then gw_now (\<lambda>received.
     and_then (map_err (Wrapped ''failed to create request receipt'') (summary_create
        \<lparr>sm_request = i, sm_queue = lr_queue r, sm_uris = lr_uris r, sm_received = received, sm_status = RequestStatusAccepting,
         sm_request_version = 0, sm_status_at = received, sm_version = 1, sm_last_error = [], sm_metadata = Map.empty\<rparr>)) (\<lambda>_.
     and_then (map_err (Wrapped ''failed to publish request to queue'') (land_publish_to_queue (r\<lparr>lr_id := i\<rparr>))) (\<lambda>_.
     and_then (attempt (persist_log (new_request_status_log received (lr_queue r) i RequestStatusAccepted 0 [] Map.empty)))
       (\<lambda>_. ok i)))))))))))"

section \<open>Cancel\<close>

definition cancel_publish_to_queue :: "cancel_request \<Rightarrow> unit gop" where
  "cancel_publish_to_queue r = map_err (Wrapped ''failed to publish cancel request message'')
     (gateway_publish TopicKeyCancel \<lparr>mp_tenant = cr_queue r, mp_id = intent_id (cr_id r) [], mp_payload = PCancel r,
       mp_partition = cr_id r, mp_metadata = Map.empty\<rparr>)"

definition found_or :: "goerr \<Rightarrow> string \<Rightarrow> 'a gop \<Rightarrow> 'a gop" where
  "found_or missing what m = map_err (\<lambda>e. if is_not_found e then missing else Wrapped what e) m"

definition cancel :: "cancel_request \<Rightarrow> unit gop" where
  "cancel r =
     and_then (map_err (Wrapped ''Cancel invalid sqid'') (of_sum (validate_sqid (cr_id r)))) (\<lambda>_.
     and_then (map_err (Wrapped ''Cancel invalid queue'') (of_sum (validate_queue_identifier (cr_queue r)))) (\<lambda>_.
     and_then (map_err (Wrapped ''failed to resolve storage for queue'') (gateway_storage_for (cr_queue r))) (\<lambda>_.
     and_then (found_or (new_user_error (request_not_found (cr_id r) [])) ''failed to look up request summary'' (summary_get (cr_id r))) (\<lambda>_.
     and_then gw_now (\<lambda>now.
     and_then (map_err (Wrapped ''failed to insert cancelling log'') (persist_log
        (new_request_status_log now (cr_queue r) (cr_id r) RequestStatusCancelling 0 []
          (if cr_reason r \<noteq> [] then [''reason'' \<mapsto> cr_reason r] else Map.empty)))) (\<lambda>_.
     map_err (Wrapped ''failed to publish cancel request to queue'') (cancel_publish_to_queue r)))))))"

section \<open>Lookups\<close>

definition get_request_summary_by_id :: "string \<Rightarrow> string \<Rightarrow> request_summary gop" where
  "get_request_summary_by_id i q =
     and_then (map_err (Wrapped ''invalid request'') (of_sum (validate_sqid i))) (\<lambda>_.
     and_then (map_err (Wrapped ''invalid queue'') (of_sum (validate_queue_identifier q))) (\<lambda>_.
     and_then (map_err (Wrapped ''failed to resolve storage for queue'') (gateway_storage_for q)) (\<lambda>_.
     and_then (found_or (new_user_error (request_not_found i [])) ''failed to get request summary'' (summary_get i)) (\<lambda>s.
     if sm_status s = RequestStatusAccepting then fail (new_user_error (request_not_found i [])) else ok s))))"

definition mapped_requests :: "string \<Rightarrow> string \<Rightarrow> request_uri list gop" where
  "mapped_requests uri q =
     and_then (map_err (Wrapped ''invalid request'') (of_sum (validate_stored_identifier ''change URI'' uri))) (\<lambda>_.
     and_then (map_err (Wrapped ''invalid queue'') (of_sum (validate_queue_identifier q))) (\<lambda>_.
     and_then (map_err (Wrapped ''failed to resolve storage for queue'') (gateway_storage_for q)) (\<lambda>_.
     and_then (map_err (Wrapped ''failed to list request mappings'') (uri_list uri (max_change_request_results + 1))) (\<lambda>ms.
     if ms = [] then fail (new_user_error (request_not_found [] uri))
     else if length ms > max_change_request_results then fail (new_user_error (too_many_change_requests uri))
     else ok ms))))"

definition get_request_summary_by_change_uri :: "string \<Rightarrow> string \<Rightarrow> request_summary list gop" where
  "get_request_summary_by_change_uri uri q =
     and_then (mapped_requests uri q) (\<lambda>ms. fold_act (\<lambda>m acc.
       and_then (found_or (internal_consistency ''request summary missing for mapped change URI'') ''failed to get request summary''
         (summary_get (ru_request m))) (\<lambda>s. ok (acc @ [s]))) ms [])"

record request_history =
  rh_request :: string
  rh_events :: "request_log list"

definition get_request_history_by_id :: "string \<Rightarrow> string \<Rightarrow> request_log list gop" where
  "get_request_history_by_id i q =
     and_then (map_err (Wrapped ''invalid request'') (of_sum (validate_sqid i))) (\<lambda>_.
     and_then (map_err (Wrapped ''invalid queue'') (of_sum (validate_queue_identifier q))) (\<lambda>_.
     and_then (map_err (Wrapped ''failed to resolve storage for queue'') (gateway_storage_for q)) (\<lambda>_.
     found_or (new_user_error (request_not_found i [])) ''failed to list request logs'' (log_list i))))"

definition history_of :: "request_uri \<Rightarrow> request_history list \<Rightarrow> request_history list gop" where
  "history_of m acc = (case validate_id (ru_request m) of
     Inl _ \<Rightarrow> fail (internal_consistency ''invalid mapped sqid'')
   | Inr _ \<Rightarrow> and_then (attempt (log_list (ru_request m))) (\<lambda>r. case r of
       Inl e \<Rightarrow> if is_not_found e then ok acc else fail (Wrapped ''failed to list request logs'' e)
     | Inr ls \<Rightarrow> ok (acc @ [\<lparr>rh_request = ru_request m, rh_events = ls\<rparr>])))"

text \<open>\<open>sort.Slice\<close> with \<open>id.Compare\<close>; the IDs have been validated, and equal ones do not occur.\<close>

definition numeric_id :: "string \<Rightarrow> int" where
  "numeric_id i = (case parse_int i of None \<Rightarrow> 0 | Some v \<Rightarrow> v)"

definition get_request_history_by_change_uri :: "string \<Rightarrow> string \<Rightarrow> request_history list gop" where
  "get_request_history_by_change_uri uri q =
     and_then (mapped_requests uri q) (\<lambda>ms.
     and_then (fold_act history_of ms []) (\<lambda>hs.
     if hs = [] then fail (new_user_error (request_not_found [] uri))
     else ok (sort_key (\<lambda>h. numeric_id (rh_request h)) hs)))"

definition list_queues :: "(goerr + queue_config list) \<Rightarrow> goerr + queue_config list" where
  "list_queues configured = (case configured of
     Inl e \<Rightarrow> Inl (Wrapped ''failed to list configured queues'' e) | Inr qs \<Rightarrow> Inr (sort_key qc_name qs))"

section \<open>The paged list\<close>

text \<open>
  A page token by its content: the versioned JSON form, the older query-string form, or a text that
  does not decode.  Statuses are the strings of the request and the token.
\<close>

record list_page_token =
  pg_version :: int
  pg_queue :: string
  pg_from :: int
  pg_before :: int
  pg_last_at :: int
  pg_last_id :: string
  pg_statuses :: "string list"

datatype page_token = NoToken | VersionedToken list_page_token | QueryToken list_page_token | MalformedToken

record list_request =
  ls_queue :: string
  ls_from :: "int option"
  ls_before :: "int option"
  ls_page_size :: int
  ls_token :: page_token
  ls_statuses :: "string list"

record list_result =
  lt_requests :: "request_summary list"
  lt_from :: int
  lt_before :: int
  lt_token :: page_token

definition default_list_page_size :: nat where "default_list_page_size = 50"

definition max_list_page_size :: nat where "max_list_page_size = 200"

definition max_list_statuses :: nat where "max_list_statuses = 32"

definition max_filtered_list_receipts :: nat where "max_filtered_list_receipts = 500"

definition list_page_token_version :: int where "list_page_token_version = 1"

definition canonical_list_statuses :: "string list \<Rightarrow> string list option" where
  "canonical_list_statuses ss =
     (if length ss > max_list_statuses \<or> [] \<in> set ss then None else Some (remdups_adj (sort ss)))"

definition parse_list_page_token :: "page_token \<Rightarrow> list_page_token option" where
  "parse_list_page_token t = (case t of
     VersionedToken p \<Rightarrow> if pg_version p \<noteq> list_page_token_version then None else Some p
   | QueryToken p \<Rightarrow> Some (p\<lparr>pg_version := 0, pg_statuses := []\<rparr>)
   | _ \<Rightarrow> None)"

definition decode_list_page_token :: "page_token \<Rightarrow> list_page_token option" where
  "decode_list_page_token t = (case parse_list_page_token t of
     None \<Rightarrow> None
   | Some p \<Rightarrow>
       if pg_queue p = [] \<or> pg_last_id p = [] \<or> pg_last_at p \<le> 0 \<or> pg_from p \<ge> pg_before p \<or>
          pg_last_at p < pg_from p \<or> pg_last_at p \<ge> pg_before p
       then None else Some p)"

definition resolve_list_range :: "list_request \<Rightarrow> goerr + receipt_range \<times> string list" where
  "resolve_list_range r = (case canonical_list_statuses (ls_statuses r) of
     None \<Rightarrow> Inl (Wrapped ''statuses must be non-empty and at most 32'' err_invalid_request)
   | Some statuses \<Rightarrow>
       if ls_token r \<noteq> NoToken
       then (case decode_list_page_token (ls_token r) of
           None \<Rightarrow> Inl (Wrapped ''invalid page token'' err_invalid_request)
         | Some t \<Rightarrow>
             if canonical_list_statuses (pg_statuses t) \<noteq> Some (pg_statuses t)
             then Inl (Wrapped ''invalid page token'' err_invalid_request)
             else if pg_queue t \<noteq> ls_queue r \<or> ls_from r \<notin> {None, Some (pg_from t)} \<or> ls_before r \<notin> {None, Some (pg_before t)} \<or>
                 (statuses \<noteq> [] \<and> statuses \<noteq> pg_statuses t)
             then Inl (Wrapped ''page token does not match the queue, time bounds, and statuses'' err_invalid_request)
             else Inr (\<lparr>rr_from = pg_from t, rr_before = pg_before t, rr_cursor_at = pg_last_at t, rr_cursor_id = pg_last_id t,
                 rr_limit = 0\<rparr>, pg_statuses t))
       else (case (ls_from r, ls_before r) of
           (Some a, Some b) \<Rightarrow>
             if a \<ge> b then Inl (Wrapped ''first page requires received_at_or_after_ms < received_before_ms'' err_invalid_request)
             else Inr (\<lparr>rr_from = a, rr_before = b, rr_cursor_at = 0, rr_cursor_id = [], rr_limit = 0\<rparr>, statuses)
         | _ \<Rightarrow> Inl (Wrapped ''first page requires received_at_or_after_ms < received_before_ms'' err_invalid_request)))"

definition read_list_summary :: "string \<Rightarrow> request_receipt \<Rightarrow> request_summary gop" where
  "read_list_summary q r =
     (if rc_queue r \<noteq> q \<or> rc_received r \<le> 0 \<or> rc_request r = [] then fail (internal_consistency ''invalid request receipt'')
      else and_then (found_or (internal_consistency ''request summary missing for receipt'') ''failed to read request summary''
          (summary_get (rc_request r))) (\<lambda>s.
        if sm_queue s \<noteq> q \<or> sm_request s \<noteq> rc_request r \<or> sm_received s \<noteq> rc_received r \<or> sm_status s = RequestStatusAccepting
        then fail (internal_consistency ''request receipt disagrees with public summary'') else ok s))"

definition scan_receipt :: "string \<Rightarrow> string list \<Rightarrow> request_receipt \<Rightarrow> request_summary list \<Rightarrow> request_summary list gop" where
  "scan_receipt q statuses r acc = and_then (read_list_summary q r) (\<lambda>s.
     ok (if statuses = [] \<or> status_string (sm_status s) \<in> set statuses then acc @ [s] else acc))"

text \<open>
  \<open>left\<close> is what remains of the read budget.  A round always wants a receipt, since a full page or a
  spent budget ends the round before.
\<close>

function scan_list_loop ::
  "string \<Rightarrow> string list \<Rightarrow> nat \<Rightarrow> receipt_range \<Rightarrow> nat \<Rightarrow> request_summary list \<Rightarrow> request_receipt option \<Rightarrow>
   (request_summary list \<times> request_receipt option \<times> bool) gop" where
  "scan_list_loop q statuses page_size query left acc final =
     (let want = min (page_size - length acc) left in
      and_then (map_err (Wrapped ''failed to list request receipts'') (receipt_list (query\<lparr>rr_limit := want + 1\<rparr>))) (\<lambda>rows.
      and_then (fold_act (scan_receipt q statuses) (take want rows) acc) (\<lambda>acc'.
      let final' = (if take want rows = [] then final else Some (last (take want rows))) in
      if length rows \<le> want then ok (acc', final', False)
      else if want = 0 \<or> length acc' = page_size \<or> left = want then ok (acc', final', True)
      else (case final' of
          None \<Rightarrow> ok (acc', final', True)
        | Some r \<Rightarrow> scan_list_loop q statuses page_size (query\<lparr>rr_cursor_at := rc_received r, rr_cursor_id := rc_request r\<rparr>)
            (left - want) acc' final'))))"
  by pat_completeness auto
termination
  by (relation "measure (\<lambda>(q, statuses, page_size, query, left, acc, final). left)") auto

declare scan_list_loop.simps [simp del]

definition scan_list_page ::
  "string \<Rightarrow> receipt_range \<Rightarrow> string list \<Rightarrow> nat \<Rightarrow> (request_summary list \<times> request_receipt option \<times> bool) gop" where
  "scan_list_page q query statuses page_size =
     scan_list_loop q statuses page_size query (if statuses \<noteq> [] then max_filtered_list_receipts else page_size) [] None"

definition list_requests :: "(string \<Rightarrow> goerr + queue_config) \<Rightarrow> list_request \<Rightarrow> list_result gop" where
  "list_requests configs r =
     and_then (map_err (Wrapped ''invalid queue'') (of_sum (validate_stored_identifier ''queue'' (ls_queue r)))) (\<lambda>_.
     and_then (of_sum (known_queue configs (ls_queue r))) (\<lambda>_.
     let page_size = (if ls_page_size r = 0 then int default_list_page_size else ls_page_size r) in
     if page_size < 0 \<or> page_size > int max_list_page_size then fail (Wrapped ''page_size must be between 0 and 200'' err_invalid_request)
     else
     and_then (of_sum (resolve_list_range r)) (\<lambda>(query, statuses).
     and_then (map_err (Wrapped ''failed to resolve storage for queue'') (gateway_storage_for (ls_queue r))) (\<lambda>_.
     and_then (scan_list_page (ls_queue r) query statuses (nat page_size)) (\<lambda>(found, final, more).
     ok \<lparr>lt_requests = found, lt_from = rr_from query, lt_before = rr_before query,
         lt_token = (case (more, final) of
             (True, Some x) \<Rightarrow> VersionedToken \<lparr>pg_version = list_page_token_version, pg_queue = ls_queue r, pg_from = rr_from query,
               pg_before = rr_before query, pg_last_at = rc_received x, pg_last_id = rc_request x, pg_statuses = statuses\<rparr>
           | _ \<Rightarrow> NoToken)\<rparr>)))))"

section \<open>The log consumer\<close>

definition log_process :: "message \<Rightarrow> unit gop" where
  "log_process msg = (case m_payload msg of
     PLog l \<Rightarrow> and_then (map_err (Wrapped ''invalid message identity'') (of_sum (validate_payload_queue msg (rl_queue l)))) (\<lambda>_.
       map_err (Wrapped ''failed to persist request log'') (persist_log l))
   | _ \<Rightarrow> fail (Wrapped ''failed to deserialize request log'' (Plain ''malformed payload'')))"

end
