(* ===== verification/GatewayLogs.thy ===== *)
theory GatewayLogs
  imports Gateway
begin

text \<open>
  The materialized summary against the audit log: whatever the order in which the log entries of a
  request arrive, the summary shows the status that the log itself names as current - as long as the
  clocks agree that a request is accepted before anything else happens to it.
\<close>

section \<open>The projection\<close>

definition project :: "request_log list \<Rightarrow> request_summary \<Rightarrow> request_summary" where
  "project ls s = foldl (\<lambda>s l. if log_wins l s then apply_log l s else s) s ls"

definition status_logs :: "request_log list \<Rightarrow> request_log list" where
  "status_logs = filter (\<lambda>l. rl_type l = RequestLogTypeStatus)"

text \<open>The precedence of a log entry: versioned terminal states first, by version, then time.\<close>

definition precedence :: "request_log \<Rightarrow> bool \<times> int \<times> int" where
  "precedence l = (is_versioned_terminal l, if is_versioned_terminal l then rl_version l else 0, rl_timestamp l)"

text \<open>
  No entry says accepting, distinct status entries have distinct times, and an accepted entry is older
  than those that are not.
\<close>

definition clocks_agree :: "request_log list \<Rightarrow> bool" where
  "clocks_agree ls \<longleftrightarrow> (\<forall>l\<in>set (status_logs ls). rl_status l \<noteq> RequestStatusAccepting \<and>
     (\<forall>m\<in>set (status_logs ls). (rl_timestamp l = rl_timestamp m \<longrightarrow> l = m) \<and>
        (rl_status l = RequestStatusAccepted \<longrightarrow> rl_status m \<noteq> RequestStatusAccepted \<longrightarrow> rl_timestamp l < rl_timestamp m)))"

lemma apply_log_fields [simp]:
  "sm_request (apply_log l s) = sm_request s" "sm_queue (apply_log l s) = sm_queue s" "sm_uris (apply_log l s) = sm_uris s"
  "sm_received (apply_log l s) = sm_received s" "sm_version (apply_log l s) = sm_version s"
  "sm_status (apply_log l s) = rl_status l"
  by (simp_all add: apply_log_def)

lemma apply_log_twice [simp]: "apply_log l (apply_log m s) = apply_log l s"
  by (simp add: apply_log_def)

lemma log_wins_precedence:
  assumes "clocks_agree ls" and "l \<in> set (status_logs ls)" and "m \<in> set (status_logs ls)"
  shows "log_wins l (apply_log m s) \<longleftrightarrow> precedence m < precedence l"
proof -
  from assms have agree: "rl_status l \<noteq> RequestStatusAccepting" "rl_status m \<noteq> RequestStatusAccepting"
    "rl_type l = RequestLogTypeStatus"
    "rl_status l = RequestStatusAccepted \<Longrightarrow> rl_status m \<noteq> RequestStatusAccepted \<Longrightarrow> rl_timestamp l < rl_timestamp m"
    unfolding clocks_agree_def by (auto simp: status_logs_def)
  have same: "is_versioned_terminal_summary (apply_log m s) = is_versioned_terminal m"
    by (simp add: is_versioned_terminal_summary_def is_versioned_terminal_def apply_log_def)
  have "\<not> is_versioned_terminal l" if "rl_status l = RequestStatusAccepted"
    using that by (simp add: is_versioned_terminal_def is_terminal_status_def)
  with agree same show ?thesis
    by (auto simp: log_wins_def Let_def precedence_def apply_log_def less_prod_def split: if_splits)
qed

definition wins_over :: "request_log list \<Rightarrow> request_log \<Rightarrow> bool" where
  "wins_over ls m \<longleftrightarrow> m \<in> set (status_logs ls) \<and> (\<forall>l\<in>set (status_logs ls). precedence l \<le> precedence m)"

lemma wins_over_unique:
  assumes "clocks_agree ls" and "wins_over ls m" and "wins_over ls m'"
  shows "m = m'"
proof -
  from assms(2,3) have "precedence m = precedence m'" unfolding wins_over_def by (meson antisym)
  then have "rl_timestamp m = rl_timestamp m'" by (simp add: precedence_def)
  with assms show ?thesis unfolding clocks_agree_def wins_over_def by blast
qed

lemma project_snoc: "project (ls @ [l]) s = (if log_wins l (project ls s) then apply_log l (project ls s) else project ls s)"
  by (simp add: project_def)

lemma clocks_agree_snoc: "clocks_agree (ls @ [l]) \<Longrightarrow> clocks_agree ls"
  unfolding clocks_agree_def status_logs_def by auto

lemma project_winner:
  assumes "clocks_agree ls" and "sm_status s = RequestStatusAccepting"
  shows "if status_logs ls = [] then project ls s = s else \<exists>m. wins_over ls m \<and> project ls s = apply_log m s"
  using assms(1)
proof (induction ls rule: rev_induct)
  case Nil
  show ?case by (simp add: status_logs_def project_def)
next
  case (snoc l ls)
  note IH = snoc.IH [OF clocks_agree_snoc [OF snoc.prems]]
  show ?case
  proof (cases "rl_type l = RequestLogTypeStatus")
    case False
    then have logs: "status_logs (ls @ [l]) = status_logs ls" by (simp add: status_logs_def)
    have "project (ls @ [l]) s = project ls s" using False by (simp add: project_snoc log_wins_def)
    with IH show ?thesis unfolding wins_over_def logs by (auto split: if_splits)
  next
    case status: True
    then have logs: "status_logs (ls @ [l]) = status_logs ls @ [l]" by (simp add: status_logs_def)
    show ?thesis
    proof (cases "status_logs ls = []")
      case True
      with IH have "project ls s = s" by simp
      moreover have "rl_status l \<noteq> RequestStatusAccepting" using snoc.prems logs unfolding clocks_agree_def by auto
      ultimately show ?thesis using True status assms(2) logs by (auto simp: project_snoc log_wins_def wins_over_def)
    next
      case False
      with IH obtain m where m: "wins_over ls m" "project ls s = apply_log m s" by auto
      then have "m \<in> set (status_logs (ls @ [l]))" "l \<in> set (status_logs (ls @ [l]))" by (auto simp: logs wins_over_def)
      note wins = log_wins_precedence [OF snoc.prems this(2,1), of s]
      show ?thesis
      proof (cases "precedence m < precedence l")
        case True
        with m wins logs have "wins_over (ls @ [l]) l \<and> project (ls @ [l]) s = apply_log l s"
          by (auto simp: project_snoc wins_over_def intro: order.trans less_imp_le)
        with logs show ?thesis by auto
      next
        case False
        with m wins logs have "wins_over (ls @ [l]) m \<and> project (ls @ [l]) s = apply_log m s"
          by (auto simp: project_snoc wins_over_def)
        with logs show ?thesis by auto
      qed
    qed
  qed
qed

section \<open>The log's own answer\<close>

definition newest :: "request_log set \<Rightarrow> request_log option \<Rightarrow> bool" where
  "newest L best \<longleftrightarrow> (case best of None \<Rightarrow> L = {}
     | Some b \<Rightarrow> b \<in> L \<and> (\<forall>l\<in>L. rl_timestamp l \<le> rl_timestamp b))"

definition newest_terminal :: "request_log set \<Rightarrow> request_log option \<Rightarrow> bool" where
  "newest_terminal L best \<longleftrightarrow> (case best of None \<Rightarrow> \<forall>l\<in>L. \<not> is_versioned_terminal l
     | Some b \<Rightarrow> b \<in> L \<and> is_versioned_terminal b \<and>
         (\<forall>l\<in>L. is_versioned_terminal l \<longrightarrow> (rl_version l, rl_timestamp l) \<le> (rl_version b, rl_timestamp b)))"

lemma best_logs_newest:
  assumes "newest_terminal L terminal" and "newest L latest"
  shows "newest_terminal (L \<union> set (status_logs ls)) (fst (best_logs ls terminal latest)) \<and>
    newest (L \<union> set (status_logs ls)) (snd (best_logs ls terminal latest))"
  using assms
proof (induction ls arbitrary: L terminal latest)
  case Nil
  then show ?case by (simp add: status_logs_def)
next
  case (Cons l ls)
  show ?case
  proof (cases "rl_type l = RequestLogTypeStatus")
    case False
    then have "status_logs (l # ls) = status_logs ls" by (simp add: status_logs_def)
    with Cons.IH [OF Cons.prems] False show ?thesis by simp
  next
    case True
    then have logs: "L \<union> set (status_logs (l # ls)) = insert l L \<union> set (status_logs ls)" by (simp add: status_logs_def)
    have "newest_terminal (insert l L) (if is_versioned_terminal l \<and> later_terminal terminal l then Some l else terminal)"
      using Cons.prems(1) by (auto simp: newest_terminal_def later_terminal_def split: option.splits)
    moreover have "newest (insert l L) (if later latest l then Some l else latest)"
      using Cons.prems(2) by (auto simp: newest_def later_def split: option.splits)
    ultimately show ?thesis unfolding logs by (simp only: best_logs.simps True simp_thms if_False) (rule Cons.IH)
  qed
qed

lemma best_logs_winner:
  assumes "status_logs ls \<noteq> []" and "best_logs ls None None = (terminal, latest)"
  shows "\<exists>m. (case terminal of Some t \<Rightarrow> Some t | None \<Rightarrow> latest) = Some m \<and> wins_over ls m"
proof -
  have best: "newest_terminal (set (status_logs ls)) terminal" "newest (set (status_logs ls)) latest"
    using best_logs_newest [of "{}" None None ls] assms(2) by (simp_all add: newest_terminal_def newest_def)
  show ?thesis
  proof (cases terminal)
    case None
    with best assms(1) obtain m where "latest = Some m" "m \<in> set (status_logs ls)"
      "\<forall>l\<in>set (status_logs ls). rl_timestamp l \<le> rl_timestamp m" "\<forall>l\<in>set (status_logs ls). \<not> is_versioned_terminal l"
      by (auto simp: newest_def newest_terminal_def split: option.splits)
    with None show ?thesis by (auto simp: wins_over_def precedence_def)
  next
    case (Some t)
    with best(1) show ?thesis by (auto simp: newest_terminal_def wins_over_def precedence_def)
  qed
qed

section \<open>Persisting in a quiet store\<close>

text \<open>An operation that leaves the summaries and the logs of a quiet store alone.\<close>

definition kept_rows :: "gateway \<Rightarrow> gateway \<Rightarrow> bool" where
  "kept_rows w w' \<longleftrightarrow> w_script w' = [] \<and> gw_queue w' = gw_queue w \<and>
     g_summaries (w_db w') = g_summaries (w_db w) \<and> g_logs (w_db w') = g_logs (w_db w)"

definition aside :: "'a gop \<Rightarrow> bool" where
  "aside m \<longleftrightarrow> (\<forall>w. w_script w = [] \<longrightarrow> kept_rows w (snd (m w)))"

lemma asideD: "aside m \<Longrightarrow> w_script w = [] \<Longrightarrow> m w = (r, w') \<Longrightarrow> kept_rows w w'"
  unfolding aside_def by (metis snd_conv)

lemma kept_rows_refl: "w_script w = [] \<Longrightarrow> kept_rows w w"
  by (simp add: kept_rows_def)

lemma kept_rows_trans: "kept_rows w w' \<Longrightarrow> kept_rows w' w'' \<Longrightarrow> kept_rows w w''"
  by (simp add: kept_rows_def)

lemma aside_ok: "aside (ok x)" and aside_fail: "aside (fail e)"
  by (simp_all add: aside_def act_simps kept_rows_refl)

lemma aside_bind:
  assumes "aside m" and "\<And>x. aside (f x)"
  shows "aside (and_then m f)"
  unfolding aside_def
proof (intro allI impI)
  fix w :: gateway assume quiet: "w_script w = []"
  obtain r w' where m: "m w = (r, w')" by (cases "m w")
  have first: "kept_rows w w'" by (rule asideD [OF assms(1) quiet m])
  show "kept_rows w (snd (and_then m f w))"
  proof (cases r)
    case (Inl e)
    with m first show ?thesis by (simp add: act_simps)
  next
    case (Inr x)
    have "kept_rows w' (snd (f x w'))" using assms(2) [of x] first unfolding aside_def by (simp add: kept_rows_def)
    with kept_rows_trans [OF first this] m Inr show ?thesis by (simp add: act_simps)
  qed
qed

lemma aside_attempt: "aside m \<Longrightarrow> aside (attempt m)"
  by (simp add: aside_def act_simps)

lemma aside_queue_bound: "aside m \<Longrightarrow> aside (queue_bound q m)"
  by (simp add: aside_def queue_bound_def kept_rows_refl)

lemma aside_stmt: "(\<And>d. g_summaries (snd (f d)) = g_summaries d \<and> g_logs (snd (f d)) = g_logs d) \<Longrightarrow> aside (db_op f)"
  by (simp add: aside_def db_op_quiet kept_rows_def)

lemma aside_unless_exists: "aside m \<Longrightarrow> aside (unless_exists what m)"
  unfolding unless_exists_def by (intro aside_bind aside_attempt) (auto simp: aside_ok aside_fail split: sum.split)

lemma aside_for_each: "(\<And>x. aside (f x)) \<Longrightarrow> aside (for_each f xs)"
  by (induction xs) (auto intro: aside_ok aside_bind)

lemma aside_ensure_mappings: "aside (ensure_mappings s)"
  unfolding ensure_mappings_def ensure_request_uri_mappings_def ensure_request_receipt_mapping_def uri_create_def receipt_create_def
  by (auto intro!: aside_ok aside_fail aside_bind aside_for_each aside_unless_exists aside_queue_bound aside_stmt
      simp: uri_insert_stmt_def receipt_insert_stmt_def)

definition view :: "request_summary \<Rightarrow> request_summary" where
  "view s = s\<lparr>sm_version := 0\<rparr>"

lemma view_fields:
  assumes "view s = view s'"
  shows "sm_status s = sm_status s'" "sm_last_error s = sm_last_error s'" "sm_metadata s = sm_metadata s'"
  using arg_cong [OF assms, of sm_status] arg_cong [OF assms, of sm_last_error] arg_cong [OF assms, of sm_metadata]
  by (simp_all add: view_def)

lemma view_log_wins: "view s = view s' \<Longrightarrow> log_wins l s = log_wins l s'"
  unfolding view_def log_wins_def is_versioned_terminal_summary_def Let_def by (cases s; cases s') simp

lemma view_apply_log: "view s = view s' \<Longrightarrow> view (apply_log l s\<lparr>sm_version := v\<rparr>) = view (apply_log l s')"
  by (cases s; cases s') (simp add: view_def apply_log_def)

lemma persist_log_quiet:
  assumes "w_script w = []" and "persist_log l w = (Inr (), w')" and "summary_row (rl_request l) (w_db w) = Some s"
  shows "w_script w' = [] \<and> gw_queue w' = gw_queue w \<and> (\<exists>salt. g_logs (w_db w') = g_logs (w_db w) @ [(l, salt)]) \<and>
    (\<exists>s'. summary_row (rl_request l) (w_db w') = Some s' \<and> view s' = view (if log_wins l s then apply_log l s else s))"
proof -
  let ?salt = "gw_salts w (gw_ticks w)"
  let ?d = "(w_db w)\<lparr>g_logs := g_logs (w_db w) @ [(l, ?salt)]\<rparr>"
  let ?w = "w\<lparr>w_db := ?d\<rparr>"
  have s: "sm_request s = rl_request l" "s \<in> set (g_summaries (w_db w))"
    using assms(3) by (auto simp: summary_row_def dest: find_first_Some)
  have run: "persist_loop l ?w = (Inr (), w')"
    using assms(1,2) by (simp add: persist_log_def act_simps gateway_storage_for_def log_insert_def queue_bound_def db_op_quiet
        log_insert_stmt_def split: if_splits)
  have got: "summary_get (rl_request l) ?w = (Inr s, ?w)"
    using assms(1,3) by (simp add: summary_get_def db_op_quiet summary_row_def)
  show ?thesis
  proof (cases "log_wins l s")
    case False
    with run got have "ensure_mappings s ?w = (Inr (), w')" by (simp add: persist_loop.simps)
    from asideD [OF aside_ensure_mappings _ this] assms(1) have "w_script w' = []" "gw_queue w' = gw_queue w"
      "g_summaries (w_db w') = g_summaries (w_db w)" "g_logs (w_db w') = g_logs (w_db w) @ [(l, ?salt)]"
      by (simp_all add: kept_rows_def)
    with assms(3) False show ?thesis by (auto simp: summary_row_def)
  next
    case True
    let ?s = "(apply_log l s)\<lparr>sm_version := sm_version s + 1\<rparr>"
    let ?hit = "\<lambda>row. sm_request row = sm_request s \<and> sm_version row = sm_version s"
    let ?rows = "map (\<lambda>row. if ?hit row then ?s else row) (g_summaries (w_db w))"
    let ?w2 = "?w\<lparr>w_db := ?d\<lparr>g_summaries := ?rows\<rparr>\<rparr>"
    have "summary_update (apply_log l s) (sm_version s) (sm_version s + 1) ?w = (Inr (), ?w2) \<or>
        (\<exists>e. \<not> is_version_mismatch e \<and> summary_update (apply_log l s) (sm_version s) (sm_version s + 1) ?w = (Inl e, ?w))"
      using s assms(1)
      by (auto simp: summary_update_def queue_bound_def db_op_quiet summary_update_stmt_def list_ex_iff Let_def)
    with run got True have "ensure_mappings ?s ?w2 = (Inr (), w')" by (subst (asm) persist_loop.simps) auto
    from asideD [OF aside_ensure_mappings _ this] assms(1) have kept: "w_script w' = []" "gw_queue w' = gw_queue w"
      "g_summaries (w_db w') = ?rows" "g_logs (w_db w') = g_logs (w_db w) @ [(l, ?salt)]"
      by (simp_all add: kept_rows_def)
    have "find_first (\<lambda>x. sm_request x = rl_request l) ?rows = Some ?s"
      using assms(3) s(1) by (subst find_first_map) (auto simp: summary_row_def)
    then have "summary_row (rl_request l) (w_db w') = Some ?s" by (simp add: summary_row_def kept(3))
    moreover have "view ?s = view (apply_log l s)" by (rule view_apply_log) simp
    ultimately show ?thesis using kept True by auto
  qed
qed

lemma project_view: "view s = view s' \<Longrightarrow> view (project ls s) = view (project ls s')"
proof (induction ls rule: rev_induct)
  case Nil
  then show ?case by (simp add: project_def)
next
  case (snoc l ls)
  then have IH: "view (project ls s) = view (project ls s')" by simp
  have "view (apply_log l (project ls s)) = view (apply_log l (project ls s'))"
    using view_apply_log [OF IH, where l = l and v = 0] by (simp add: view_def)
  with IH view_log_wins [OF IH, of l] show ?case by (simp add: project_snoc)
qed

lemma persist_all_quiet:
  assumes "w_script w = []" and "for_each persist_log ls w = (Inr (), w')" and "summary_row i (w_db w) = Some s"
    and "\<forall>l\<in>set ls. rl_request l = i"
  shows "w_script w' = [] \<and> (\<exists>new. g_logs (w_db w') = g_logs (w_db w) @ new \<and> map fst new = ls) \<and>
    (\<exists>s'. summary_row i (w_db w') = Some s' \<and> view s' = view (project ls s))"
  using assms
proof (induction ls arbitrary: w s)
  case Nil
  then show ?case by (simp add: act_simps project_def)
next
  case (Cons l ls)
  from Cons.prems(2) obtain w1 where first: "persist_log l w = (Inr (), w1)" and rest: "for_each persist_log ls w1 = (Inr (), w')"
    by (auto simp: act_simps split: prod.splits sum.splits)
  have req: "rl_request l = i" using Cons.prems(4) by simp
  with persist_log_quiet [OF Cons.prems(1) first, of s] Cons.prems(3) obtain salt s1 where
    w1: "w_script w1 = []" "g_logs (w_db w1) = g_logs (w_db w) @ [(l, salt)]" "summary_row i (w_db w1) = Some s1"
    "view s1 = view (if log_wins l s then apply_log l s else s)"
    by auto
  from Cons.IH [OF w1(1) rest w1(3)] Cons.prems(4) obtain new s' where
    w': "w_script w' = []" "g_logs (w_db w') = g_logs (w_db w1) @ new" "map fst new = ls"
    "summary_row i (w_db w') = Some s'" "view s' = view (project ls s1)" by auto
  have "view (project ls s1) = view (project (l # ls) s)"
    using project_view [OF w1(4), of ls] by (simp add: project_def)
  with w' w1(2) show ?case by (auto intro!: exI [of _ "(l, salt) # new"])
qed

lemma wins_over_set: "set ls = set ls' \<Longrightarrow> wins_over ls = wins_over ls'"
  by (rule ext) (simp add: wins_over_def status_logs_def)

text \<open>
  C26. The materialized view agrees with the audit log when the clocks of its writers do: for entries of one
  request whose distinct status entries have distinct times, an accepted one the earliest, and which a
  quiet store takes in any order and however often, the summary then carries the status, the error and
  the metadata that the reconciliation of the log names as current.
\<close>
theorem summary_agrees_with_log:
  assumes "w_script w = []" and "summary_row i (w_db w) = Some s" and "sm_status s = RequestStatusAccepting"
    and "log_rows i (w_db w) = []" and "\<forall>l\<in>set ls. rl_request l = i" and "clocks_agree ls" and "status_logs ls \<noteq> []"
    and "for_each persist_log ls w = (Inr (), w')"
  shows "\<exists>c s'. fst (get_current_state_from_request_log i w') = Inr c \<and> summary_row i (w_db w') = Some s' \<and>
    sm_status s' = cs_status c \<and> sm_last_error s' = cs_last_error c \<and> sm_metadata s' = cs_metadata c"
proof -
  from persist_all_quiet [OF assms(1,8,2,5)] obtain new s' where
    quiet: "w_script w' = []" and logs: "g_logs (w_db w') = g_logs (w_db w) @ new" "map fst new = ls" and
    row: "summary_row i (w_db w') = Some s'" "view s' = view (project ls s)" by auto
  from project_winner [OF assms(6,3)] assms(7) obtain m where m: "wins_over ls m" "project ls s = apply_log m s" by auto
  let ?rows = "log_rows i (w_db w')"
  have "filter (\<lambda>(l, _). rl_request l = i) (g_logs (w_db w)) = []"
    using assms(4) by (auto simp: log_rows_def) (metis set_empty set_sort)
  then have "set ?rows = set (map fst (filter (\<lambda>(l, _). rl_request l = i) new))"
    by (simp add: log_rows_def logs(1))
  also have "\<dots> = set ls" using logs(2) assms(5) by (force simp flip: logs(2))
  finally have same: "set ?rows = set ls" .
  then have "status_logs ?rows \<noteq> []" using assms(7) unfolding status_logs_def filter_empty_conv by simp
  obtain terminal latest where best: "best_logs ?rows None None = (terminal, latest)" by (cases "best_logs ?rows None None")
  from best_logs_winner [OF \<open>status_logs ?rows \<noteq> []\<close> best] obtain m' where
    m': "(case terminal of Some t \<Rightarrow> Some t | None \<Rightarrow> latest) = Some m'" "wins_over ?rows m'" by blast
  have "m' = m" using wins_over_unique [OF assms(6) _ m(1)] m'(2) wins_over_set [OF same] by simp
  have "?rows \<noteq> []" using \<open>status_logs ?rows \<noteq> []\<close> by (auto simp: status_logs_def)
  then have "log_list i w' = (Inr ?rows, w')"
    using quiet by (auto simp: log_list_def db_op_quiet split: list.split)
  then have "fst (get_current_state_from_request_log i w') =
      Inr \<lparr>cs_status = rl_status m, cs_last_error = rl_last_error m, cs_metadata = rl_metadata m\<rparr>"
    using m'(1) \<open>m' = m\<close> by (simp add: get_current_state_from_request_log_def act_simps best)
  moreover have "sm_status s' = rl_status m \<and> sm_last_error s' = rl_last_error m \<and> sm_metadata s' = rl_metadata m"
    using view_fields [OF row(2)] m(2) by (simp add: apply_log_def)
  ultimately show ?thesis using row(1) by auto
qed

text \<open>A gateway whose request 7 was received at time 10; its entries arrive out of order.\<close>

definition sample_summary :: request_summary where
  "sample_summary = \<lparr>sm_request = ''7'', sm_queue = ''q'', sm_uris = [''u''], sm_received = 10, sm_status = RequestStatusAccepting,
     sm_request_version = 0, sm_status_at = 10, sm_version = 1, sm_last_error = [], sm_metadata = Map.empty\<rparr>"

definition sample_gateway :: gateway where
  "sample_gateway = \<lparr>w_db = \<lparr>g_summaries = [sample_summary], g_uris = [], g_receipts = [], g_logs = [], g_counter = 7, g_messages = []\<rparr>,
     w_script = [], gw_queue = ''q'', gw_registry = (\<lambda>_. None), gw_clock = (\<lambda>n. 100 + int n), gw_ticks = 0, gw_salts = int\<rparr>"

abbreviation sample_log :: "int \<Rightarrow> request_status \<Rightarrow> request_log" where
  "sample_log now status \<equiv> new_request_status_log now ''q'' ''7'' status 0 [] Map.empty"

lemmas gateway_defs = persist_log_def gateway_storage_for_def log_insert_def queue_bound_def log_insert_stmt_def summary_get_def
  summary_row_def summary_update_def summary_update_stmt_def log_wins_def apply_log_def is_versioned_terminal_def
  is_versioned_terminal_summary_def is_terminal_status_def ensure_mappings_def ensure_request_uri_mappings_def
  ensure_request_receipt_mapping_def unless_exists_def uri_create_def uri_insert_stmt_def receipt_create_def receipt_insert_stmt_def
  new_request_status_log_def

lemma sample_persisted:
  "\<exists>w'. for_each persist_log [sample_log 20 RequestStatusStarted, sample_log 10 RequestStatusAccepted] sample_gateway = (Inr (), w') \<and>
     map sm_status (g_summaries (w_db w')) = [RequestStatusStarted]"
  by (simp add: act_simps gateway_defs sample_gateway_def sample_summary_def Let_def persist_loop.simps)

lemma summary_agrees_with_log_witness:
  "\<exists>w'. for_each persist_log [sample_log 20 RequestStatusStarted, sample_log 10 RequestStatusAccepted] sample_gateway = (Inr (), w') \<and>
     map_sum id cs_status (fst (get_current_state_from_request_log ''7'' w')) = Inr RequestStatusStarted"
proof -
  let ?ls = "[sample_log 20 RequestStatusStarted, sample_log 10 RequestStatusAccepted]"
  from sample_persisted obtain w' where run: "for_each persist_log ?ls sample_gateway = (Inr (), w')"
    and rows: "map sm_status (g_summaries (w_db w')) = [RequestStatusStarted]" by (elim exE conjE)
  have "\<exists>c s'. fst (get_current_state_from_request_log ''7'' w') = Inr c \<and> summary_row ''7'' (w_db w') = Some s' \<and>
    sm_status s' = cs_status c \<and> sm_last_error s' = cs_last_error c \<and> sm_metadata s' = cs_metadata c"
  proof (rule summary_agrees_with_log [OF _ _ _ _ _ _ _ run])
    show "w_script sample_gateway = []" by (simp add: sample_gateway_def)
    show "summary_row ''7'' (w_db sample_gateway) = Some sample_summary"
      by (simp add: sample_gateway_def summary_row_def sample_summary_def)
    show "sm_status sample_summary = RequestStatusAccepting" by (simp add: sample_summary_def)
    show "log_rows ''7'' (w_db sample_gateway) = []" by (simp add: sample_gateway_def log_rows_def)
    show "\<forall>l\<in>set ?ls. rl_request l = ''7''" by (simp add: new_request_status_log_def)
    show "clocks_agree ?ls" by (simp add: clocks_agree_def status_logs_def new_request_status_log_def)
    show "status_logs ?ls \<noteq> []" by (simp add: status_logs_def new_request_status_log_def)
  qed
  then obtain c s' where c: "fst (get_current_state_from_request_log ''7'' w') = Inr c"
    and s': "summary_row ''7'' (w_db w') = Some s'" "sm_status s' = cs_status c" by (elim exE conjE)
  have "s' \<in> set (g_summaries (w_db w'))" using s'(1) by (auto simp: summary_row_def dest: find_first_Some)
  then have "sm_status s' \<in> set (map sm_status (g_summaries (w_db w')))" by simp
  with c s'(2) have "map_sum id cs_status (fst (get_current_state_from_request_log ''7'' w')) = Inr RequestStatusStarted"
    by (simp add: rows)
  with run show ?thesis by (intro exI conjI)
qed

text \<open>
  When the clocks do not agree the order of arrival decides: an accepted entry from a clock that runs
  ahead is dropped by the summary that already shows started, and yet is the one the log names.
\<close>
lemma skewed_clock:
  "log_wins (sample_log 30 RequestStatusAccepted) (apply_log (sample_log 20 RequestStatusStarted) sample_summary) = False \<and>
   snd (best_logs [sample_log 20 RequestStatusStarted, sample_log 30 RequestStatusAccepted] None None) = Some (sample_log 30 RequestStatusAccepted) \<and>
   sm_status (project [sample_log 20 RequestStatusStarted, sample_log 30 RequestStatusAccepted] sample_summary) = RequestStatusStarted"
  by (simp add: project_def gateway_defs sample_summary_def later_def Let_def)

text \<open>
  Two replicas of the log, the same entries in the other order: the summary that took accepted first
  keeps it, since started then carries the older time.
\<close>
lemma order_decides:
  "sm_status (project [sample_log 30 RequestStatusAccepted, sample_log 20 RequestStatusStarted] sample_summary) = RequestStatusAccepted"
  by (simp add: project_def gateway_defs sample_summary_def Let_def)

end
