(* ===== verification/GatewayPages.thy ===== *)
theory GatewayPages
  imports GatewayLogs
begin

text \<open>
  The paged list against its specification: the pages that a caller walks, token by token, are the
  public requests of the queue received in the interval, newest first and each once.
\<close>

section \<open>The receipts of a range\<close>

text \<open>The receipts the list reads are those of public requests, and no two have the same key.\<close>

definition readable :: "string \<Rightarrow> gateway_db \<Rightarrow> bool" where
  "readable q d \<longleftrightarrow> distinct (map receipt_key (g_receipts d)) \<and>
     (\<forall>r\<in>set (g_receipts d). rc_queue r = q \<and> 0 < rc_received r \<and> rc_request r \<noteq> [] \<and>
        (\<exists>s. summary_row (rc_request r) d = Some s \<and> sm_queue s = q \<and> sm_received s = rc_received r \<and>
           sm_status s \<noteq> RequestStatusAccepting))"

definition newest_receipts :: "gateway_db \<Rightarrow> request_receipt list" where
  "newest_receipts d = rev (sort_key receipt_key (g_receipts d))"

definition rows_of :: "receipt_range \<Rightarrow> gateway_db \<Rightarrow> request_receipt list" where
  "rows_of b d = filter (in_range b) (newest_receipts d)"

lemma receipt_rows_take: "receipt_rows b d = take (rr_limit b) (rows_of b d)"
  by (simp add: receipt_rows_def rows_of_def newest_receipts_def rev_filter filter_sort [symmetric])

lemma in_range_limit [simp]: "in_range (b\<lparr>rr_limit := n\<rparr>) = in_range b"
  by (rule ext) (simp add: in_range_def)

lemma rows_of_limit [simp]: "rows_of (b\<lparr>rr_limit := n\<rparr>) d = rows_of b d"
  by (simp add: rows_of_def)

lemma in_range_cursor:
  assumes "in_range b x" and "0 < rc_received x"
  shows "in_range (b\<lparr>rr_cursor_at := rc_received x, rr_cursor_id := rc_request x\<rparr>) r \<longleftrightarrow> in_range b r \<and> receipt_key r < receipt_key x"
  using assms by (auto simp: in_range_def receipt_key_def less_prod_def)

abbreviation decreasing :: "request_receipt list \<Rightarrow> bool" where
  "decreasing \<equiv> sorted_wrt (\<lambda>r r'. receipt_key r' < receipt_key r)"

lemma decreasing_newest:
  assumes "distinct (map receipt_key (g_receipts d))"
  shows "decreasing (newest_receipts d)"
proof -
  let ?xs = "sort_key receipt_key (g_receipts d)"
  have "distinct (map receipt_key ?xs)"
    using assms by (simp add: distinct_map)
  then have "sorted_wrt (<) (map receipt_key ?xs)" by (simp add: strict_sorted_iff)
  then show ?thesis by (simp add: newest_receipts_def sorted_wrt_rev sorted_wrt_map)
qed

lemma decreasing_rows: "readable q d \<Longrightarrow> decreasing (rows_of b d)"
  by (simp add: rows_of_def readable_def decreasing_newest sorted_wrt_filter)

lemma filter_below:
  "decreasing xs \<Longrightarrow> k < length xs \<Longrightarrow> filter (\<lambda>r. receipt_key r < receipt_key (xs ! k)) xs = drop (Suc k) xs"
proof (induction xs arbitrary: k)
  case Nil
  then show ?case by simp
next
  case (Cons x xs)
  show ?case
  proof (cases k)
    case 0
    with Cons.prems(1) show ?thesis by (auto simp: filter_id_conv)
  next
    case (Suc j)
    with Cons.prems have "receipt_key (xs ! j) < receipt_key x" by auto
    then have "\<not> receipt_key x < receipt_key (xs ! j)" by (rule less_not_sym)
    with Suc Cons show ?thesis by auto
  qed
qed

lemma rows_of_cursor:
  assumes "readable q d" and "k < length (rows_of b d)" and "x = rows_of b d ! k"
  shows "rows_of (b\<lparr>rr_cursor_at := rc_received x, rr_cursor_id := rc_request x\<rparr>) d = drop (Suc k) (rows_of b d)"
proof -
  have "x \<in> set (rows_of b d)" using assms(2,3) by simp
  then have x: "in_range b x" "x \<in> set (g_receipts d)" by (auto simp: rows_of_def newest_receipts_def)
  with assms(1) have "0 < rc_received x" by (simp add: readable_def)
  note below = in_range_cursor [OF x(1) this]
  have "rows_of (b\<lparr>rr_cursor_at := rc_received x, rr_cursor_id := rc_request x\<rparr>) d =
      filter (\<lambda>r. receipt_key r < receipt_key x) (rows_of b d)"
    unfolding rows_of_def filter_filter by (rule filter_cong) (simp_all add: below)
  with filter_below [OF decreasing_rows [OF assms(1)] assms(2)] assms(3) show ?thesis by simp
qed

section \<open>One page\<close>

definition shown :: "string list \<Rightarrow> gateway_db \<Rightarrow> request_receipt list \<Rightarrow> request_summary list" where
  "shown statuses d rs = filter (\<lambda>s. statuses = [] \<or> status_string (sm_status s) \<in> set statuses)
     (map (\<lambda>r. the (summary_row (rc_request r) d)) rs)"

lemma shown_append: "shown st d (xs @ ys) = shown st d xs @ shown st d ys"
  by (simp add: shown_def)

lemma shown_length: "length (shown st d rs) \<le> length rs"
  unfolding shown_def by (rule order.trans [OF length_filter_le]) simp

lemma rows_of_subset: "set (rows_of b d) \<subseteq> set (g_receipts d)"
  by (auto simp: rows_of_def newest_receipts_def)

lemma scan_receipt_quiet:
  assumes "w_script w = []" and "readable q (w_db w)" and "r \<in> set (g_receipts (w_db w))"
  shows "scan_receipt q st r acc w = (Inr (acc @ shown st (w_db w) [r]), w)"
proof -
  from assms(2,3) obtain s where s: "summary_row (rc_request r) (w_db w) = Some s" "sm_queue s = q"
    "sm_received s = rc_received r" "sm_status s \<noteq> RequestStatusAccepting"
    and r: "rc_queue r = q" "0 < rc_received r" "rc_request r \<noteq> []"
    unfolding readable_def by blast
  from s(1) have "sm_request s = rc_request r" by (auto simp: summary_row_def dest: find_first_Some)
  with s r assms(1) show ?thesis
    by (simp add: scan_receipt_def read_list_summary_def found_or_def act_simps summary_get_def db_op_quiet shown_def)
qed

lemma scan_receipts_quiet:
  assumes "w_script w = []" and "readable q (w_db w)" and "set rs \<subseteq> set (g_receipts (w_db w))"
  shows "fold_act (scan_receipt q st) rs acc w = (Inr (acc @ shown st (w_db w) rs), w)"
  using assms(3)
proof (induction rs arbitrary: acc)
  case Nil
  show ?case by (simp add: act_simps shown_def)
next
  case (Cons r rs)
  then have "scan_receipt q st r acc w = (Inr (acc @ shown st (w_db w) [r]), w)"
    by (intro scan_receipt_quiet [OF assms(1,2)]) simp
  with Cons shown_append [of st "w_db w" "[r]" rs] show ?case by (simp add: act_simps)
qed

definition proper_range :: "receipt_range \<Rightarrow> bool" where
  "proper_range b \<longleftrightarrow> rr_from b < rr_before b \<and> 0 \<le> rr_cursor_at b \<and> (rr_cursor_at b = 0 \<longleftrightarrow> rr_cursor_id b = [])"

lemma receipt_list_quiet:
  assumes "w_script w = []" and "proper_range b"
  shows "receipt_list (b\<lparr>rr_limit := Suc n\<rparr>) w = (Inr (take (Suc n) (rows_of b (w_db w))), w)"
  using assms by (simp add: receipt_list_def act_simps validate_receipt_range_def proper_range_def db_op_quiet receipt_rows_take)

lemma scan_list_loop_quiet:
  assumes "w_script w = []" and "readable q (w_db w)" and "proper_range query" and "length acc < page_size" and "0 < left"
  shows "\<exists>n more. scan_list_loop q st page_size query left acc final w =
      (Inr (acc @ shown st (w_db w) (take n (rows_of query (w_db w))),
        if n = 0 then final else Some (rows_of query (w_db w) ! (n - 1)), more), w) \<and>
      n \<le> length (rows_of query (w_db w)) \<and> (more \<longleftrightarrow> n < length (rows_of query (w_db w))) \<and> (more \<longrightarrow> 0 < n)"
  using assms
proof (induction left arbitrary: query acc final rule: less_induct)
  case (less left)
  note quiet = less.prems(1) and ok = less.prems(2) and proper = less.prems(3)
  let ?d = "w_db w"
  let ?rows = "rows_of query ?d"
  define k where "k = min (page_size - length acc) left"
  let ?acc = "acc @ shown st ?d (take k ?rows)"
  have want: "0 < k" "k \<le> left" using less.prems(4,5) by (auto simp: k_def)
  have taken: "take k (take (Suc k) ?rows) = take k ?rows" by (simp add: min_def)
  have subset: "set (take k ?rows) \<subseteq> set (g_receipts ?d)"
    by (rule order.trans [OF set_take_subset rows_of_subset])
  note scan = scan_receipts_quiet [OF quiet ok subset, of st acc]
  note run = scan_list_loop.simps [of q st page_size query left acc final, folded k_def]
  show ?case
  proof (cases "k < length ?rows")
    case False
    then have short: "length (take (Suc k) ?rows) \<le> k" "take k ?rows = ?rows" by auto
    have "(if ?rows = [] then final else Some (last ?rows)) =
        (if length ?rows = 0 then final else Some (?rows ! (length ?rows - 1)))"
      by (simp add: last_conv_nth)
    with short scan have "scan_list_loop q st page_size query left acc final w =
        (Inr (acc @ shown st ?d ?rows, if length ?rows = 0 then final else Some (?rows ! (length ?rows - 1)), False), w)"
      using want(1) by (simp add: run Let_def act_simps receipt_list_quiet [OF quiet proper] taken last_conv_nth del: length_take)
    then show ?thesis by (intro exI [of _ "length ?rows"] exI [of _ False]) simp
  next
    case True
    let ?x = "?rows ! (k - 1)"
    have long: "\<not> length (take (Suc k) ?rows) \<le> k" using True by simp
    have ne: "take k ?rows \<noteq> []" using True want(1) by auto
    have final: "last (take k ?rows) = ?x"
      using ne True by (simp add: last_conv_nth)
    show ?thesis
    proof (cases "length ?acc = page_size \<or> left = k")
      case stop: True
      have "scan_list_loop q st page_size query left acc final w = (Inr (?acc, Some ?x, True), w)"
        using stop long scan ne final want(1)
        by (simp add: run Let_def act_simps receipt_list_quiet [OF quiet proper] taken del: length_take length_append)
      then show ?thesis using True want(1) by (intro exI [of _ k] exI [of _ True]) simp
    next
      case False
      let ?query = "query\<lparr>rr_cursor_at := rc_received ?x, rr_cursor_id := rc_request ?x\<rparr>"
      have x: "?x \<in> set (g_receipts ?d)" using True want(1) rows_of_subset [of query ?d] by (auto intro!: subsetD [OF _ nth_mem])
      have "Suc (k - 1) = k" using want(1) by simp
      with rows_of_cursor [OF ok, of "k - 1" query ?x] True have rest: "rows_of ?query ?d = drop k ?rows" by simp
      have "length ?acc \<le> length acc + k"
        using shown_length [of st ?d "take k ?rows"] by simp
      then have room: "length ?acc < page_size" using False less.prems(4) by (auto simp: k_def)
      have "proper_range ?query" using proper x ok by (auto simp: proper_range_def readable_def)
      moreover have "left - k < left" "0 < left - k" using want False by auto
      ultimately obtain n more where n:
        "scan_list_loop q st page_size ?query (left - k) ?acc (Some ?x) w =
          (Inr (?acc @ shown st ?d (take n (drop k ?rows)), if n = 0 then Some ?x else Some (drop k ?rows ! (n - 1)), more), w)"
        "n \<le> length (drop k ?rows)" "more \<longleftrightarrow> n < length (drop k ?rows)" "more \<longrightarrow> 0 < n"
        using less.IH [of "left - k" ?query ?acc "Some ?x", OF _ quiet ok _ room] unfolding rest by blast
      have step: "scan_list_loop q st page_size query left acc final w = scan_list_loop q st page_size ?query (left - k) ?acc (Some ?x) w"
        using False long scan ne final want(1)
        by (subst run) (simp add: Let_def act_simps receipt_list_quiet [OF quiet proper] taken del: length_take length_append)
      have "(if n = 0 then Some ?x else Some (drop k ?rows ! (n - 1))) = Some (?rows ! (k + n - 1))"
        using n(2) True want(1) by (auto simp: nth_drop)
      moreover have "?acc @ shown st ?d (take n (drop k ?rows)) = acc @ shown st ?d (take (k + n) ?rows)"
        by (simp add: take_add shown_append)
      ultimately have "scan_list_loop q st page_size query left acc final w =
          (Inr (acc @ shown st ?d (take (k + n) ?rows), if k + n = 0 then final else Some (?rows ! (k + n - 1)), more), w)"
        using step n(1) want(1) by simp
      moreover have "k + n \<le> length ?rows" "more \<longleftrightarrow> k + n < length ?rows" using n(2,3) True by auto
      ultimately show ?thesis using want(1) by (intro exI [of _ "k + n"] exI [of _ more]) blast
    qed
  qed
qed

section \<open>Walking the pages\<close>

fun walk_pages :: "nat \<Rightarrow> (string \<Rightarrow> goerr + queue_config) \<Rightarrow> list_request \<Rightarrow> request_summary list gop" where
  "walk_pages 0 configs r = fail (Plain ''too many pages'')"
| "walk_pages (Suc n) configs r = and_then (list_requests configs r) (\<lambda>page.
     if lt_token page = NoToken then ok (lt_requests page)
     else and_then (walk_pages n configs (r\<lparr>ls_token := lt_token page\<rparr>)) (\<lambda>rest. ok (lt_requests page @ rest)))"

text \<open>What a request asks of the queue as a whole.\<close>

definition all_requests :: "list_request \<Rightarrow> gateway_db \<Rightarrow> request_summary list" where
  "all_requests r d = shown (remdups_adj (sort (ls_statuses r))) d (filter (\<lambda>x. the (ls_from r) \<le> rc_received x \<and> rc_received x < the (ls_before r))
     (newest_receipts d))"

definition wellformed_list :: "(string \<Rightarrow> goerr + queue_config) \<Rightarrow> list_request \<Rightarrow> bool" where
  "wellformed_list configs r \<longleftrightarrow> ls_queue r \<noteq> [] \<and> length (ls_queue r) \<le> 255 \<and> \<not> isl (configs (ls_queue r)) \<and>
     0 \<le> ls_page_size r \<and> ls_page_size r \<le> int max_list_page_size \<and> canonical_list_statuses (ls_statuses r) \<noteq> None \<and>
     (\<exists>a b. ls_from r = Some a \<and> ls_before r = Some b \<and> a < b)"

definition token_at :: "list_request \<Rightarrow> request_receipt \<Rightarrow> page_token" where
  "token_at r x = VersionedToken \<lparr>pg_version = list_page_token_version, pg_queue = ls_queue r, pg_from = the (ls_from r),
     pg_before = the (ls_before r), pg_last_at = rc_received x, pg_last_id = rc_request x,
     pg_statuses = remdups_adj (sort (ls_statuses r))\<rparr>"

definition range_at :: "list_request \<Rightarrow> request_receipt option \<Rightarrow> receipt_range" where
  "range_at r cursor = \<lparr>rr_from = the (ls_from r), rr_before = the (ls_before r),
     rr_cursor_at = (case cursor of None \<Rightarrow> 0 | Some x \<Rightarrow> rc_received x),
     rr_cursor_id = (case cursor of None \<Rightarrow> [] | Some x \<Rightarrow> rc_request x), rr_limit = 0\<rparr>"

lemma range_at_from_before [simp]:
  "rr_from (range_at r c) = the (ls_from r)" "rr_before (range_at r c) = the (ls_before r)"
  by (simp_all add: range_at_def)

lemma canonical_twice:
  "canonical_list_statuses ss = Some st \<Longrightarrow> canonical_list_statuses st = Some st \<and> st = remdups_adj (sort ss)"
proof -
  assume "canonical_list_statuses ss = Some st"
  then have ss: "length ss \<le> max_list_statuses" "[] \<notin> set ss" "st = remdups_adj (sort ss)"
    by (auto simp: canonical_list_statuses_def split: if_splits)
  have "sort st = st" unfolding ss(3) by (rule sorted_sort_id) (simp add: sorted_remdups_adj)
  moreover have "remdups_adj st = st" unfolding ss(3) distinct_adj_altdef [symmetric] by (rule distinct_adj_remdups_adj)
  moreover have "length st \<le> max_list_statuses" using remdups_adj_length [of "sort ss"] ss(1,3) by simp
  ultimately show ?thesis using ss(2,3) by (simp add: canonical_list_statuses_def)
qed

lemma resolve_first:
  assumes "wellformed_list configs r" and "ls_token r = NoToken"
  shows "resolve_list_range r = Inr (range_at r None, remdups_adj (sort (ls_statuses r)))"
  using assms canonical_twice by (auto simp: wellformed_list_def resolve_list_range_def range_at_def)

text \<open>The token of a page resolves, in the request that carries it, to the place after the last receipt.\<close>

lemma resolve_next:
  assumes "wellformed_list configs r" and "0 < rc_received x" and "rc_request x \<noteq> []"
    and "the (ls_from r) \<le> rc_received x" and "rc_received x < the (ls_before r)" and "ls_token r = token_at r x"
  shows "resolve_list_range r = Inr (range_at r (Some x), remdups_adj (sort (ls_statuses r)))"
proof -
  from assms(1) obtain st where st: "canonical_list_statuses (ls_statuses r) = Some st" by (auto simp: wellformed_list_def)
  note st' = canonical_twice [OF st]
  show ?thesis
    using assms st st' by (auto simp: wellformed_list_def resolve_list_range_def range_at_def token_at_def
        decode_list_page_token_def parse_list_page_token_def)
qed

lemma list_requests_quiet:
  assumes "w_script w = []" and "readable (gw_queue w) (w_db w)" and "ls_queue r = gw_queue w" and "wellformed_list configs r"
    and "resolve_list_range r = Inr (range_at r cursor, remdups_adj (sort (ls_statuses r)))"
    and "case cursor of None \<Rightarrow> True | Some x \<Rightarrow> x \<in> set (g_receipts (w_db w))"
  shows "\<exists>n. list_requests configs r w = (Inr \<lparr>lt_requests = shown (remdups_adj (sort (ls_statuses r))) (w_db w) (take n (rows_of (range_at r cursor) (w_db w))),
        lt_from = the (ls_from r), lt_before = the (ls_before r),
        lt_token = (if n < length (rows_of (range_at r cursor) (w_db w)) then token_at r (rows_of (range_at r cursor) (w_db w) ! (n - 1)) else NoToken)\<rparr>, w) \<and>
      (n < length (rows_of (range_at r cursor) (w_db w)) \<longrightarrow> 0 < n)"
proof -
  let ?st = "remdups_adj (sort (ls_statuses r))"
  let ?size = "if ls_page_size r = 0 then int default_list_page_size else ls_page_size r"
  have proper: "proper_range (range_at r cursor)"
    using assms(2,4,6) by (auto simp: proper_range_def range_at_def wellformed_list_def readable_def split: option.splits)
  have size: "0 < ?size" "\<not> (?size < 0 \<or> int max_list_page_size < ?size)"
    using assms(4) by (auto simp: wellformed_list_def default_list_page_size_def max_list_page_size_def)
  then have "0 < (if ?st \<noteq> [] then max_filtered_list_receipts else nat ?size)" by (simp add: max_filtered_list_receipts_def)
  from scan_list_loop_quiet [OF assms(1,2) proper _ this, of "[]" "nat ?size" ?st None] size(1) obtain n more where
    n: "scan_list_page (gw_queue w) (range_at r cursor) ?st (nat ?size) w =
        (Inr (shown ?st (w_db w) (take n (rows_of (range_at r cursor) (w_db w))),
          if n = 0 then None else Some (rows_of (range_at r cursor) (w_db w) ! (n - 1)), more), w)"
      "more \<longleftrightarrow> n < length (rows_of (range_at r cursor) (w_db w))" "more \<longrightarrow> 0 < n"
    unfolding scan_list_page_def by auto
  have known: "validate_stored_identifier ''queue'' (ls_queue r) = Inr ()" "known_queue configs (ls_queue r) = Inr ()"
    using assms(4) by (auto simp: wellformed_list_def validate_stored_identifier_def known_queue_def split: sum.splits)
  have "list_requests configs r w = (Inr \<lparr>lt_requests = shown ?st (w_db w) (take n (rows_of (range_at r cursor) (w_db w))),
        lt_from = the (ls_from r), lt_before = the (ls_before r),
        lt_token = (if more then token_at r (rows_of (range_at r cursor) (w_db w) ! (n - 1)) else NoToken)\<rparr>, w)"
    using size(2) n known assms(3,4,5)
    by (cases more) (simp_all add: list_requests_def act_simps Let_def gateway_storage_for_def wellformed_list_def token_at_def del: of_nat_less_iff)
  with n(2,3) show ?thesis by blast
qed

text \<open>
  C27. Paging is complete: whatever the page size and the statuses asked for, the pages that a caller
  walks by their tokens are together exactly the matching requests received in the interval, newest
  first, none left out and none repeated.
\<close>
theorem pages_refine_list:
  assumes "w_script w = []" and "readable (gw_queue w) (w_db w)" and "ls_queue r = gw_queue w" and "wellformed_list configs r"
    and "ls_token r = NoToken" and "length (g_receipts (w_db w)) < fuel"
  shows "walk_pages fuel configs r w = (Inr (all_requests r (w_db w)), w)"
proof -
  let ?d = "w_db w" and ?st = "remdups_adj (sort (ls_statuses r))"
  have walk: "walk_pages fuel configs (r\<lparr>ls_token := t\<rparr>) w = (Inr (shown ?st ?d (rows_of (range_at r c) ?d)), w)"
    if "resolve_list_range (r\<lparr>ls_token := t\<rparr>) = Inr (range_at r c, ?st)" "case c of None \<Rightarrow> True | Some x \<Rightarrow> x \<in> set (g_receipts ?d)"
      "length (rows_of (range_at r c) ?d) < fuel" for fuel t c
    using that
  proof (induction fuel arbitrary: t c)
    case 0
    then show ?case by simp
  next
    case (Suc fuel)
    let ?r = "r\<lparr>ls_token := t\<rparr>" and ?rows = "rows_of (range_at r c) ?d"
    have same: "range_at ?r c = range_at r c" "token_at ?r x = token_at r x" for x
      by (simp_all add: range_at_def token_at_def)
    have wf: "wellformed_list configs ?r" using assms(4) by (simp add: wellformed_list_def)
    have "ls_queue ?r = gw_queue w" using assms(3) by simp
    note page = list_requests_quiet [OF assms(1,2) this wf, of c, unfolded same, simplified, OF Suc.prems(1,2), unfolded One_nat_def [symmetric]]
    from page obtain n where n: "list_requests configs ?r w = (Inr \<lparr>lt_requests = shown ?st ?d (take n ?rows), lt_from = the (ls_from r),
        lt_before = the (ls_before r), lt_token = (if n < length ?rows then token_at r (?rows ! (n - 1)) else NoToken)\<rparr>, w)"
      "n < length ?rows \<longrightarrow> 0 < n" by (elim exE conjE) (rule that)
    show ?case
    proof (cases "n < length ?rows")
      case False
      then show ?thesis using n(1) by (simp add: act_simps)
    next
      case True
      let ?x = "?rows ! (n - 1)"
      have "0 < n" using n(2) True by simp
      then have "?x \<in> set ?rows" using True by simp
      then have x: "?x \<in> set (g_receipts ?d)" "in_range (range_at r c) ?x" using rows_of_subset by (auto simp: rows_of_def)
      have "resolve_list_range (r\<lparr>ls_token := token_at r ?x\<rparr>) = Inr (range_at r (Some ?x), ?st)"
        using resolve_next [of configs "r\<lparr>ls_token := token_at r ?x\<rparr>" ?x] assms(2,4) x
        by (simp add: wellformed_list_def readable_def in_range_def range_at_def token_at_def)
      moreover have rest: "rows_of (range_at r (Some ?x)) ?d = drop n ?rows"
        using rows_of_cursor [OF assms(2), of "n - 1" "range_at r c" ?x] True \<open>0 < n\<close> by (simp add: range_at_def)
      moreover have "length (drop n ?rows) < fuel" using Suc.prems(3) True \<open>0 < n\<close> by simp
      ultimately have "walk_pages fuel configs (r\<lparr>ls_token := token_at r ?x\<rparr>) w = (Inr (shown ?st ?d (drop n ?rows)), w)"
        using Suc.IH [of "token_at r ?x" "Some ?x"] x(1) by simp
      moreover have "shown ?st ?d (take n ?rows) @ shown ?st ?d (drop n ?rows) = shown ?st ?d ?rows"
        by (simp flip: shown_append)
      moreover have "token_at r ?x \<noteq> NoToken" by (simp add: token_at_def)
      ultimately show ?thesis using n(1) True by (simp add: act_simps)
    qed
  qed
  have "length (rows_of (range_at r None) ?d) < fuel"
    unfolding rows_of_def by (rule le_less_trans [OF length_filter_le]) (simp add: newest_receipts_def assms(6))
  from walk [of NoToken None, OF _ _ this] resolve_first [OF assms(4,5)] assms(5)
  have "walk_pages fuel configs r w = (Inr (shown ?st ?d (rows_of (range_at r None) ?d)), w)"
    by (cases r) simp
  then show ?thesis by (simp add: all_requests_def rows_of_def range_at_def in_range_def [abs_def])
qed

text \<open>Three requests, two of them received at the same time, read in pages of two.\<close>

definition sample_row :: "string \<Rightarrow> int \<Rightarrow> request_status \<Rightarrow> request_summary" where
  "sample_row i received status = sample_summary\<lparr>sm_request := i, sm_received := received, sm_status := status\<rparr>"

definition sample_listed :: gateway where
  "sample_listed = sample_gateway\<lparr>w_db := (w_db sample_gateway)\<lparr>
     g_summaries := [sample_row ''1'' 10 RequestStatusStarted, sample_row ''2'' 20 RequestStatusLanded, sample_row ''3'' 20 RequestStatusStarted],
     g_receipts := [\<lparr>rc_queue = ''q'', rc_received = 10, rc_request = ''1''\<rparr>, \<lparr>rc_queue = ''q'', rc_received = 20, rc_request = ''2''\<rparr>,
       \<lparr>rc_queue = ''q'', rc_received = 20, rc_request = ''3''\<rparr>]\<rparr>\<rparr>"

definition sample_list :: list_request where
  "sample_list = \<lparr>ls_queue = ''q'', ls_from = Some 0, ls_before = Some 100, ls_page_size = 2, ls_token = NoToken, ls_statuses = []\<rparr>"

lemma pages_refine_list_witness:
  "map_sum id (map sm_request) (fst (walk_pages 4 (\<lambda>_. Inr \<lparr>qc_name = ''q''\<rparr>) sample_list sample_listed)) = Inr [''3'', ''2'', ''1'']"
proof -
  have "walk_pages 4 (\<lambda>_. Inr \<lparr>qc_name = ''q''\<rparr>) sample_list sample_listed =
      (Inr (all_requests sample_list (w_db sample_listed)), sample_listed)"
  proof (rule pages_refine_list)
    show "readable (gw_queue sample_listed) (w_db sample_listed)"
      by (simp add: readable_def sample_listed_def sample_gateway_def receipt_key_def summary_row_def sample_row_def sample_summary_def)
  qed (simp_all add: wellformed_list_def sample_list_def sample_listed_def sample_gateway_def max_list_page_size_def
      canonical_list_statuses_def max_list_statuses_def)
  moreover have "newest_receipts (w_db sample_listed) = [\<lparr>rc_queue = ''q'', rc_received = 20, rc_request = ''3''\<rparr>,
      \<lparr>rc_queue = ''q'', rc_received = 20, rc_request = ''2''\<rparr>, \<lparr>rc_queue = ''q'', rc_received = 10, rc_request = ''1''\<rparr>]"
    by (simp add: newest_receipts_def sample_listed_def sample_gateway_def receipt_key_def)
  ultimately show ?thesis
    by (simp add: all_requests_def shown_def sample_list_def) (simp add: sample_listed_def summary_row_def sample_row_def sample_summary_def)
qed

end
