(* ===== verification/GatewaySafe.thy ===== *)
theory GatewaySafe
  imports GatewayPages
begin

text \<open>
  What the processes of the gateway never do to each other: a receipt, which makes a request show up
  in the list of its queue, only ever names a request whose summary is public.  Every operation is a
  triple over the relation of public changes, so it holds under any interleaving and any failures.
\<close>

section \<open>Public changes\<close>

definition public_receipts :: "gateway_db \<Rightarrow> bool" where
  "public_receipts d \<longleftrightarrow> distinct (map sm_request (g_summaries d)) \<and> distinct (g_receipts d) \<and>
     (\<forall>r\<in>set (g_receipts d). 0 < rc_received r \<and> rc_request r \<noteq> [] \<and>
        (\<exists>s. summary_row (rc_request r) d = Some s \<and> sm_queue s = rc_queue r \<and> sm_received s = rc_received r \<and>
           sm_status s \<noteq> RequestStatusAccepting))"

definition same_request :: "request_summary \<Rightarrow> request_summary \<Rightarrow> bool" where
  "same_request s s' \<longleftrightarrow> sm_request s' = sm_request s \<and> sm_queue s' = sm_queue s \<and> sm_uris s' = sm_uris s \<and>
     sm_received s' = sm_received s \<and> (sm_status s \<noteq> RequestStatusAccepting \<longrightarrow> sm_status s' \<noteq> RequestStatusAccepting)"

definition shows_row :: "request_summary \<Rightarrow> gateway_db \<Rightarrow> bool" where
  "shows_row s d \<longleftrightarrow> (\<exists>s'. summary_row (sm_request s) d = Some s' \<and> same_request s s')"

definition public_evolves :: "gateway_db \<Rightarrow> gateway_db \<Rightarrow> bool" where
  "public_evolves d d' \<longleftrightarrow> (public_receipts d \<longrightarrow> public_receipts d') \<and> set (g_receipts d) \<subseteq> set (g_receipts d') \<and>
     (\<forall>i s. summary_row i d = Some s \<longrightarrow> (\<exists>s'. summary_row i d' = Some s' \<and> same_request s s'))"

lemma same_request_refl: "same_request s s"
  by (simp add: same_request_def)

lemma same_request_trans: "same_request s s' \<Longrightarrow> same_request s' s'' \<Longrightarrow> same_request s s''"
  by (simp add: same_request_def)

lemma summary_row_id: "summary_row i d = Some s \<Longrightarrow> sm_request s = i"
  by (auto simp: summary_row_def dest: find_first_Some)

interpretation public: evolution public_receipts public_evolves
proof
  fix d d' d'' :: gateway_db
  show "public_evolves d d" by (simp add: public_evolves_def same_request_refl)
  assume 1: "public_evolves d d'" and 2: "public_evolves d' d''"
  show "public_evolves d d''" unfolding public_evolves_def
  proof (intro conjI allI impI)
    show "public_receipts d''" if "public_receipts d" using that 1 2 by (simp add: public_evolves_def)
    show "set (g_receipts d) \<subseteq> set (g_receipts d'')" using 1 2 by (auto simp: public_evolves_def)
    fix i s assume "summary_row i d = Some s"
    with 1 obtain s' where "summary_row i d' = Some s'" "same_request s s'" unfolding public_evolves_def by blast
    with 2 obtain s'' where "summary_row i d'' = Some s''" "same_request s' s''" unfolding public_evolves_def by blast
    with \<open>same_request s s'\<close> show "\<exists>s'. summary_row i d'' = Some s' \<and> same_request s s'" by (blast intro: same_request_trans)
  qed
next
  fix d d' :: gateway_db
  assume "public_receipts d" "public_evolves d d'"
  then show "public_receipts d'" by (simp add: public_evolves_def)
qed

abbreviation kept :: "(gateway_db \<Rightarrow> bool) \<Rightarrow> 'a gop \<Rightarrow> ('a \<Rightarrow> gateway_db \<Rightarrow> bool) \<Rightarrow> bool" where
  "kept \<equiv> triple public_receipts public_evolves"

abbreviation harmless :: "'a gop \<Rightarrow> bool" where
  "harmless m \<equiv> kept (\<lambda>_. True) m (\<lambda>_ _. True)"

lemma stable_shows_row [stable_intros]: "stable public_evolves (shows_row s)"
proof
  fix d d' assume "shows_row s d" and step: "public_evolves d d'"
  then obtain s' where s': "summary_row (sm_request s) d = Some s'" "same_request s s'" unfolding shows_row_def by blast
  with step obtain s'' where "summary_row (sm_request s) d' = Some s''" "same_request s' s''" unfolding public_evolves_def by blast
  with s'(2) show "shows_row s d'" unfolding shows_row_def by (blast intro: same_request_trans)
qed

lemma kept_queue_bound: "kept P m Q \<Longrightarrow> kept P (queue_bound q m) Q"
proof (rule triple_world)
  fix w :: gateway
  assume m: "kept P m Q"
  show "\<exists>m'. queue_bound q m w = m' w \<and> kept P m' Q"
  proof (cases "q = gw_queue w")
    case True
    with m show ?thesis by (auto simp: queue_bound_def)
  next
    case False
    then have "queue_bound q m w = fail (Plain ''queue does not match the bound queue of the store'') w"
      by (simp add: queue_bound_def fail_apply)
    with public.triple_fail show ?thesis by blast
  qed
qed

section \<open>The stores\<close>

lemma evolves_aside:
  "g_summaries d' = g_summaries d \<Longrightarrow> g_receipts d' = g_receipts d \<Longrightarrow> public_evolves d d'"
  by (simp add: public_evolves_def public_receipts_def summary_row_def same_request_refl)

lemma shows_row_got: "summary_row i d = Some s \<Longrightarrow> shows_row s d \<and> sm_request s = i"
  using summary_row_id [of i d s] by (auto simp: shows_row_def same_request_refl)

lemma kept_summary_get: "kept (\<lambda>_. True) (summary_get i) (\<lambda>s d. shows_row s d \<and> sm_request s = i)"
  unfolding summary_get_def
  by (rule public.triple_db_read) (auto dest: shows_row_got split: option.splits)

lemma summary_create_evolves:
  assumes "summary_row (sm_request s) d = None"
  shows "public_evolves d (d\<lparr>g_summaries := g_summaries d @ [s]\<rparr>)"
proof -
  let ?d = "d\<lparr>g_summaries := g_summaries d @ [s]\<rparr>"
  have row: "summary_row i ?d = (case summary_row i d of None \<Rightarrow> if sm_request s = i then Some s else None | Some s' \<Rightarrow> Some s')" for i
    by (simp add: summary_row_def find_first_append split: option.split)
  have "sm_request s \<notin> sm_request ` set (g_summaries d)"
    using assms by (auto simp: summary_row_def find_first_None_iff)
  then show ?thesis by (auto simp: public_evolves_def public_receipts_def row same_request_refl split: option.splits)
qed

lemma kept_summary_create: "harmless (summary_create s)"
  unfolding summary_create_def
  by (intro kept_queue_bound public.triple_db_op) (auto simp: summary_insert_stmt_def public.evolves_refl intro: summary_create_evolves)

lemma summary_row_update:
  assumes "summary_row (sm_request s) d = Some s'"
  shows "summary_row i (d\<lparr>g_summaries := map (\<lambda>row. if sm_request row = sm_request s \<and> sm_version row = old then s\<lparr>sm_version := new\<rparr> else row)
      (g_summaries d)\<rparr>) = (if i = sm_request s \<and> sm_version s' = old then Some (s\<lparr>sm_version := new\<rparr>) else summary_row i d)"
proof -
  let ?f = "\<lambda>row. if sm_request row = sm_request s \<and> sm_version row = old then s\<lparr>sm_version := new\<rparr> else row"
  have map: "summary_row i (d\<lparr>g_summaries := map ?f (g_summaries d)\<rparr>) = map_option ?f (summary_row i d)"
    unfolding summary_row_def by (simp, rule find_first_map) simp
  show ?thesis
  proof (cases "summary_row i d")
    case None
    with assms show ?thesis by (auto simp: map)
  next
    case (Some t)
    with assms summary_row_id [OF Some] map show ?thesis by (cases "i = sm_request s") simp_all
  qed
qed

lemma hit_is_row:
  assumes "distinct (map sm_request (g_summaries d))" and "row \<in> set (g_summaries d)"
  shows "summary_row (sm_request row) d = Some row"
proof (cases "summary_row (sm_request row) d")
  case None
  with assms(2) show ?thesis by (auto simp: summary_row_def find_first_None_iff)
next
  case (Some s)
  then have "s \<in> set (g_summaries d)" "sm_request s = sm_request row" by (auto simp: summary_row_def dest: find_first_Some)
  with assms Some show ?thesis by (auto simp: distinct_map inj_on_def)
qed

lemma kept_summary_update:
  assumes "log_wins l s"
  shows "kept (shows_row s) (summary_update (apply_log l s) old new) (\<lambda>_ d. shows_row (apply_log l s\<lparr>sm_version := new\<rparr>) d)"
proof -
  let ?s = "apply_log l s"
  have public: "sm_status ?s \<noteq> RequestStatusAccepting" using assms by (auto simp: log_wins_def split: if_splits)
  have changed: "public_evolves d (snd (summary_update_stmt ?s old new d)) \<and>
      (fst (summary_update_stmt ?s old new d) = Inr () \<longrightarrow> public_receipts d \<longrightarrow> shows_row (?s\<lparr>sm_version := new\<rparr>) (snd (summary_update_stmt ?s old new d)))"
    if shown: "shows_row s d" for d
  proof (cases "list_ex (\<lambda>row. sm_request row = sm_request ?s \<and> sm_version row = old) (g_summaries d)")
    case False
    then show ?thesis by (simp add: summary_update_stmt_def Let_def public.evolves_refl)
  next
    case True
    let ?d = "snd (summary_update_stmt ?s old new d)"
    from shown obtain s' where s': "summary_row (sm_request ?s) d = Some s'" "same_request s s'" by (auto simp: shows_row_def)
    have upd: "?d = d\<lparr>g_summaries := map (\<lambda>row. if sm_request row = sm_request ?s \<and> sm_version row = old then ?s\<lparr>sm_version := new\<rparr> else row) (g_summaries d)\<rparr>"
      using True by (simp add: summary_update_stmt_def Let_def)
    note row = summary_row_update [OF s'(1), of _ old new, folded upd]
    have same: "same_request s' (?s\<lparr>sm_version := new\<rparr>)" using s' public by (simp add: same_request_def)
    have rows: "\<exists>t'. summary_row i ?d = Some t' \<and> same_request t t'" if "summary_row i d = Some t" for i t
      using that s'(1) same by (auto simp: row same_request_refl)
    have ids: "map sm_request (g_summaries ?d) = map sm_request (g_summaries d)" "g_receipts ?d = g_receipts d"
      by (simp_all add: upd)
    have "public_receipts ?d" if "public_receipts d"
      unfolding public_receipts_def ids
    proof (intro conjI ballI)
      show "distinct (map sm_request (g_summaries d))" "distinct (g_receipts d)" using that by (simp_all add: public_receipts_def)
      fix r assume "r \<in> set (g_receipts d)"
      with that obtain t where t: "0 < rc_received r" "rc_request r \<noteq> []" "summary_row (rc_request r) d = Some t" "sm_queue t = rc_queue r"
        "sm_received t = rc_received r" "sm_status t \<noteq> RequestStatusAccepting" unfolding public_receipts_def by blast
      show "0 < rc_received r" "rc_request r \<noteq> []" by (fact t)+
      from rows [OF t(3)] t show "\<exists>s. summary_row (rc_request r) ?d = Some s \<and> sm_queue s = rc_queue r \<and> sm_received s = rc_received r \<and>
          sm_status s \<noteq> RequestStatusAccepting" by (auto simp: same_request_def)
    qed
    then have "public_evolves d ?d" using rows ids(2) by (auto simp: public_evolves_def)
    moreover have "shows_row (?s\<lparr>sm_version := new\<rparr>) ?d" if "public_receipts d"
    proof -
      from True obtain hit where hit: "hit \<in> set (g_summaries d)" "sm_request hit = sm_request ?s" "sm_version hit = old"
        by (auto simp: list_ex_iff)
      with hit_is_row [of d hit] that s'(1) have "sm_version s' = old" by (simp add: public_receipts_def)
      then show ?thesis using row [of "sm_request ?s"] by (simp add: shows_row_def same_request_refl)
    qed
    ultimately show ?thesis by blast
  qed
  show ?thesis
    unfolding summary_update_def
  proof (rule kept_queue_bound, rule public.triple_inv, rule public.triple_db_op)
    show "stable public_evolves (\<lambda>d. shows_row s d \<and> public_receipts d)"
      by (intro stable_conj stable_shows_row) (auto intro: public.evolves_keeps)
    fix d assume d: "shows_row s d \<and> public_receipts d"
    with changed [of d] show "public_evolves d (snd (summary_update_stmt ?s old new d))" by simp
    fix x assume "fst (summary_update_stmt ?s old new d) = Inr x"
    with changed [of d] d show "shows_row (?s\<lparr>sm_version := new\<rparr>) (snd (summary_update_stmt ?s old new d))" by simp
  qed
qed

lemma kept_receipt_create:
  assumes "sm_status s \<noteq> RequestStatusAccepting"
  shows "kept (shows_row s) (receipt_create \<lparr>rc_queue = sm_queue s, rc_received = sm_received s, rc_request = sm_request s\<rparr>) (\<lambda>_ _. True)"
proof -
  let ?r = "\<lparr>rc_queue = sm_queue s, rc_received = sm_received s, rc_request = sm_request s\<rparr>"
  have "public_evolves d (snd (receipt_insert_stmt ?r d))" if "shows_row s d" "0 < sm_received s" "sm_request s \<noteq> []" for d
  proof -
    from that(1) obtain s' where s': "summary_row (sm_request s) d = Some s'" "same_request s s'" unfolding shows_row_def by blast
    have "summary_row i (d\<lparr>g_receipts := rs\<rparr>) = summary_row i d" for i rs by (simp add: summary_row_def)
    with s' that assms show ?thesis
      by (auto simp: public_evolves_def public_receipts_def receipt_insert_stmt_def same_request_refl same_request_def)
  qed
  then show ?thesis
    unfolding receipt_create_def
    by (intro kept_queue_bound public.triple_if public.triple_fail public.triple_db_op stable_shows_row) auto
qed

lemma kept_uri_create: "kept (shows_row s) (uri_create u) (\<lambda>_ _. True)"
  unfolding uri_create_def
  by (intro kept_queue_bound public.triple_db_op stable_shows_row) (auto simp: uri_insert_stmt_def intro: evolves_aside)

lemma kept_log_insert: "harmless (log_insert l)"
proof (rule triple_world)
  fix w :: gateway
  have "harmless (queue_bound (rl_queue l) (db_op (log_insert_stmt l (gw_salts w (gw_ticks w)))))"
    by (intro kept_queue_bound public.triple_db_op) (auto simp: log_insert_stmt_def intro: evolves_aside)
  then show "\<exists>m'. log_insert l w = m' w \<and> harmless m'" by (intro exI conjI) (simp_all add: log_insert_def)
qed

lemma kept_local:
  assumes "\<And>w. w_db (snd (m w)) = w_db w \<and> w_script (snd (m w)) = w_script w"
  shows "kept P m (\<lambda>_. P)"
  by (rule public.triple_local [OF assms])

lemma kept_gw_now: "harmless gw_now"
  by (rule kept_local) (simp add: gw_now_def)

lemma kept_storage_for: "harmless (gateway_storage_for q)"
  by (rule kept_local) (simp add: gateway_storage_for_def)

section \<open>The operations\<close>

lemma kept_unless_exists:
  "kept (shows_row s) m (\<lambda>_ _. True) \<Longrightarrow> kept (shows_row s) (unless_exists what m) (\<lambda>_ _. True)"
  unfolding unless_exists_def
  by (rule public.triple_bind [OF public.triple_attempt [OF _ stable_shows_row]])
    (auto intro!: public.triple_ok public.triple_fail split: sum.split)

lemma kept_ensure_mappings: "kept (shows_row s) (ensure_mappings s) (\<lambda>_ _. True)"
proof (cases "sm_status s = RequestStatusAccepting")
  case True
  then show ?thesis by (simp add: ensure_mappings_def public.triple_ok)
next
  case False
  have "kept (shows_row s) (ensure_request_uri_mappings s) (\<lambda>_. shows_row s)"
    unfolding ensure_request_uri_mappings_def
    by (rule public.triple_for_each)
      (rule public.triple_conseq [OF public.triple_keep [OF kept_unless_exists [OF kept_uri_create] stable_shows_row]], auto)
  moreover have "kept (shows_row s) (ensure_request_receipt_mapping s) (\<lambda>_ _. True)"
    unfolding ensure_request_receipt_mapping_def by (rule kept_unless_exists [OF kept_receipt_create [OF False]])
  ultimately show ?thesis using False unfolding ensure_mappings_def by (auto intro: public.triple_bind)
qed

lemma kept_persist_loop: "harmless (persist_loop l)"
  unfolding triple_def
proof (intro allI impI)
  fix w r w'
  assume "abides public_receipts public_evolves w" "public_receipts (w_db w)" "persist_loop l w = (r, w')"
  then show "abides public_receipts public_evolves w' \<and> public_evolves (w_db w) (w_db w') \<and> (\<forall>x. r = Inr x \<longrightarrow> True)"
  proof (induction l w rule: persist_loop.induct)
    case (1 l w)
    obtain r1 w1 where get: "summary_get (rl_request l) w = (r1, w1)" by (cases "summary_get (rl_request l) w")
    from kept_summary_get [unfolded triple_def, rule_format, OF 1(2,3) TrueI get]
    have w1: "abides public_receipts public_evolves w1" "public_evolves (w_db w) (w_db w1)" and
      shown: "r1 = Inr s \<Longrightarrow> shows_row s (w_db w1)" for s by auto
    have I1: "public_receipts (w_db w1)" by (rule public.evolves_keeps [OF 1(3) w1(2)])
    show ?case
    proof (cases r1)
      case (Inl e)
      with 1(4) get w1 show ?thesis by (simp add: persist_loop.simps [of l w])
    next
      case (Inr s)
      show ?thesis
      proof (cases "log_wins l s")
        case False
        with 1(4) get Inr have "ensure_mappings s w1 = (r, w')" by (simp add: persist_loop.simps [of l w])
        from kept_ensure_mappings [unfolded triple_def, rule_format, OF w1(1) I1 shown [OF Inr] this] w1(2)
        show ?thesis by (blast intro: public.evolves_trans)
      next
        case True
        obtain r2 w2 where upd: "summary_update (apply_log l s) (sm_version s) (sm_version s + 1) w1 = (r2, w2)"
          by (cases "summary_update (apply_log l s) (sm_version s) (sm_version s + 1) w1")
        from kept_summary_update [OF True, unfolded triple_def, rule_format, OF w1(1) I1 shown [OF Inr] upd]
        have w2: "abides public_receipts public_evolves w2" "public_evolves (w_db w1) (w_db w2)" and
          shown2: "r2 = Inr u \<Longrightarrow> shows_row (apply_log l s\<lparr>sm_version := sm_version s + 1\<rparr>) (w_db w2)" for u by auto
        have I2: "public_receipts (w_db w2)" by (rule public.evolves_keeps [OF I1 w2(2)])
        have sofar: "public_evolves (w_db w) (w_db w2)" by (rule public.evolves_trans [OF w1(2) w2(2)])
        show ?thesis
        proof (cases r2)
          case (Inr u)
          with 1(4) get \<open>r1 = Inr s\<close> True upd
          have "ensure_mappings (apply_log l s\<lparr>sm_version := sm_version s + 1\<rparr>) w2 = (r, w')"
            by (simp add: persist_loop.simps [of l w])
          from kept_ensure_mappings [unfolded triple_def, rule_format, OF w2(1) I2 shown2 [OF Inr] this] sofar
          show ?thesis by (blast intro: public.evolves_trans)
        next
          case (Inl e)
          show ?thesis
          proof (cases "is_version_mismatch e")
            case False
            with 1(4) get \<open>r1 = Inr s\<close> True upd Inl w2 sofar show ?thesis by (simp add: persist_loop.simps [of l w])
          next
            case mismatch: True
            with 1(4) get \<open>r1 = Inr s\<close> True upd Inl have "persist_loop l w2 = (r, w')"
              by (simp add: persist_loop.simps [of l w])
            from 1(1) [OF get [symmetric] \<open>r1 = Inr s\<close> True upd [symmetric] Inl mismatch w2(1) I2 this] sofar
            show ?thesis by (blast intro: public.evolves_trans)
          qed
        qed
      qed
    qed
  qed
qed

lemma harmless_bind: "harmless m \<Longrightarrow> (\<And>x. harmless (f x)) \<Longrightarrow> harmless (and_then m f)"
  by (rule public.triple_bind)

lemma harmless_attempt: "harmless m \<Longrightarrow> harmless (attempt m)"
  by (rule public.triple_conseq [OF public.triple_attempt]) auto

lemma harmless_read: "(\<And>d. snd (f d) = d) \<Longrightarrow> harmless (db_op f)"
  by (rule public.triple_db_read) auto

lemma harmless_fold_act: "(\<And>x s. harmless (body x s)) \<Longrightarrow> harmless (fold_act body xs s)"
  using public.triple_fold_act [of xs "\<lambda>_ _. True" body s] by simp

lemma harmless_leaf: "harmless (ok x)" "harmless (fail e)" "harmless (of_sum v)"
  by (simp_all add: public.triple_ok public.triple_fail public.triple_of_sum)

lemma harmless_summary_get: "harmless (summary_get i)"
  by (rule public.triple_conseq [OF kept_summary_get]) auto

lemma harmless_reads: "harmless (uri_list u n)" "harmless (log_list i)" "harmless (receipt_list b)"
  unfolding uri_list_def log_list_def receipt_list_def by (auto intro!: harmless_bind harmless_leaf harmless_read)

lemma harmless_persist_log: "harmless (persist_log l)"
  unfolding persist_log_def
  by (intro harmless_bind public.triple_map_err kept_storage_for kept_log_insert kept_persist_loop)

lemma harmless_publish: "harmless (gateway_publish key p)"
proof (rule triple_world)
  fix w :: gateway
  have "harmless (and_then gw_now (\<lambda>now. let m = f now in
      and_then (of_sum (check_message m)) (\<lambda>_. map_err (Wrapped ''publish message store insert error'') (db_op (message_stmt m)))))" for f
    by (auto simp: Let_def message_stmt_def intro!: harmless_bind public.triple_map_err kept_gw_now harmless_leaf public.triple_db_op evolves_aside)
  moreover have "harmless (fail e)" for e by (rule harmless_leaf)
  ultimately show "\<exists>m'. gateway_publish key p w = m' w \<and> harmless m'"
    unfolding gateway_publish_def fail_apply [symmetric] by (auto split: option.split)
qed

lemma harmless_counter: "harmless (db_op counter_stmt)"
  by (rule public.triple_db_op) (auto simp: counter_stmt_def Let_def intro: evolves_aside)

lemma harmless_scan: "harmless (scan_list_loop q statuses page_size query left acc final)"
proof (induction left arbitrary: query acc final rule: less_induct)
  case (less left)
  have "harmless (read_list_summary q r)" for r
    unfolding read_list_summary_def found_or_def
    by (auto intro!: harmless_leaf harmless_bind public.triple_map_err harmless_summary_get)
  then have receipt: "harmless (scan_receipt q statuses r acc)" for r acc
    unfolding scan_receipt_def by (auto intro: harmless_bind harmless_leaf)
  show ?case
    unfolding scan_list_loop.simps [of q statuses page_size query left acc final] Let_def
    by (intro harmless_bind public.triple_map_err harmless_reads harmless_fold_act receipt public.triple_if harmless_leaf
        public.triple_case_option less.IH) auto
qed

section \<open>Every call\<close>

datatype gateway_call =
    Land "string \<Rightarrow> goerr + queue_config" "string \<Rightarrow> goerr + queue_pause" land_request
  | Cancel cancel_request
  | LogMessage message
  | SummaryById string string
  | SummaryByUri string string
  | HistoryById string string
  | HistoryByUri string string
  | ListRequests "string \<Rightarrow> goerr + queue_config" list_request

fun after_call :: "gateway_call \<Rightarrow> gateway \<Rightarrow> gateway" where
  "after_call (Land configs pauses r) w = snd (land configs pauses r w)"
| "after_call (Cancel r) w = snd (cancel r w)"
| "after_call (LogMessage m) w = snd (log_process m w)"
| "after_call (SummaryById i q) w = snd (get_request_summary_by_id i q w)"
| "after_call (SummaryByUri u q) w = snd (get_request_summary_by_change_uri u q w)"
| "after_call (HistoryById i q) w = snd (get_request_history_by_id i q w)"
| "after_call (HistoryByUri u q) w = snd (get_request_history_by_change_uri u q w)"
| "after_call (ListRequests configs r) w = snd (list_requests configs r w)"

lemmas harmless_intros = harmless_leaf harmless_bind harmless_attempt harmless_fold_act public.triple_map_err public.triple_if
  public.triple_case_sum public.triple_case_option public.triple_case_prod public.triple_let kept_storage_for kept_gw_now
  harmless_summary_get harmless_reads harmless_persist_log harmless_publish harmless_counter kept_summary_create harmless_scan

lemma harmless_land: "harmless (land configs pauses r)"
  unfolding land_def land_publish_to_queue_def by (intro harmless_intros)

lemma harmless_cancel: "harmless (cancel r)"
  unfolding cancel_def cancel_publish_to_queue_def found_or_def by (intro harmless_intros)

lemma harmless_log_process: "harmless (log_process m)"
  unfolding log_process_def by (cases "m_payload m") (auto intro!: harmless_intros)

lemma harmless_lookups:
  "harmless (get_request_summary_by_id i q)" "harmless (get_request_summary_by_change_uri u q)"
  "harmless (get_request_history_by_id i q)" "harmless (get_request_history_by_change_uri u q)"
  unfolding get_request_summary_by_id_def get_request_summary_by_change_uri_def get_request_history_by_id_def
    get_request_history_by_change_uri_def mapped_requests_def history_of_def found_or_def Let_def
  by (intro harmless_intros)+

lemma harmless_list: "harmless (list_requests configs r)"
  unfolding list_requests_def scan_list_page_def Let_def by (intro harmless_intros)

text \<open>One process after the other, each with its own script of the others' changes and of failures.\<close>

lemma harmless_call:
  assumes "abides public_receipts public_evolves w" and "public_receipts (w_db w)"
  shows "public_evolves (w_db w) (w_db (after_call c w))"
  by (cases c) (auto intro!: triple_evolves [where I = public_receipts and P = "\<lambda>_. True" and Q = "\<lambda>_ _. True"]
      assms harmless_land harmless_cancel harmless_log_process harmless_lookups harmless_list)

text \<open>
  C25. A listed request is public: whatever the gateway's processes do side by side and whichever of their
  calls fail, a receipt always names a request whose summary exists, agrees with the receipt and is no
  longer hidden, so a page of the list never runs into a receipt it cannot show.
\<close>
theorem receipts_stay_public:
  assumes "abides public_receipts public_evolves w" and "public_receipts (w_db w)" and "r \<in> set (g_receipts (w_db (after_call c w)))"
  shows "\<exists>s. summary_row (rc_request r) (w_db (after_call c w)) = Some s \<and> sm_queue s = rc_queue r \<and> sm_received s = rc_received r \<and>
    sm_status s \<noteq> RequestStatusAccepting"
proof -
  have "public_receipts (w_db (after_call c w))"
    using harmless_call [OF assms(1,2)] assms(2) by (rule public.evolves_keeps [rotated])
  with assms(3) show ?thesis unfolding public_receipts_def by blast
qed

lemma public_readable:
  assumes "public_receipts d" and "\<forall>r\<in>set (g_receipts d). rc_queue r = q"
  shows "readable q d"
proof -
  have "inj_on receipt_key (set (g_receipts d))"
  proof (rule inj_onI)
    fix r r' assume r: "r \<in> set (g_receipts d)" "r' \<in> set (g_receipts d)" and "receipt_key r = receipt_key r'"
    then have "rc_received r = rc_received r'" "rc_request r = rc_request r'" by (simp_all add: receipt_key_def)
    with assms(2) r show "r = r'" by simp
  qed
  with assms show ?thesis unfolding readable_def public_receipts_def by (auto simp: distinct_map)
qed

definition sample_accepted :: message where
  "sample_accepted = \<lparr>m_tenant = ''q'', m_topic = ''log'', m_id = ''m'', m_partition = ''7'', m_payload = PLog (sample_log 10 RequestStatusAccepted),
     m_metadata = [metadata_key_queue_name \<mapsto> ''q''], m_published_at = 10\<rparr>"

lemma sample_receipts: "g_receipts (w_db (after_call (LogMessage sample_accepted) sample_gateway)) = [\<lparr>rc_queue = ''q'', rc_received = 10, rc_request = ''7''\<rparr>]"
  by (simp add: act_simps log_process_def sample_accepted_def validate_payload_queue_def validate_tenant_metadata_def metadata_get_def gateway_defs sample_gateway_def sample_summary_def Let_def
      persist_loop.simps)

lemma receipts_stay_public_witness:
  "\<exists>s. summary_row ''7'' (w_db (after_call (LogMessage sample_accepted) sample_gateway)) = Some s \<and> sm_received s = 10 \<and>
     sm_status s \<noteq> RequestStatusAccepting"
proof -
  have "abides public_receipts public_evolves sample_gateway" by (simp add: abides_def sample_gateway_def)
  moreover have "public_receipts (w_db sample_gateway)" by (simp add: public_receipts_def sample_gateway_def)
  moreover have "\<lparr>rc_queue = ''q'', rc_received = 10, rc_request = ''7''\<rparr> \<in>
      set (g_receipts (w_db (after_call (LogMessage sample_accepted) sample_gateway)))"
    unfolding sample_receipts by simp
  ultimately have "\<exists>s. summary_row (rc_request \<lparr>rc_queue = ''q'', rc_received = 10, rc_request = ''7''\<rparr>)
        (w_db (after_call (LogMessage sample_accepted) sample_gateway)) = Some s \<and>
      sm_queue s = rc_queue \<lparr>rc_queue = ''q'', rc_received = 10, rc_request = ''7''\<rparr> \<and>
      sm_received s = rc_received \<lparr>rc_queue = ''q'', rc_received = 10, rc_request = ''7''\<rparr> \<and> sm_status s \<noteq> RequestStatusAccepting"
    by (rule receipts_stay_public)
  then show ?thesis by auto
qed

text \<open>
  A cancellation shows what a failed land left hidden: the summary of a request that was never published
  is found only after somebody cancels it, and then says cancelling although no stage ever hears of the
  request's start.
\<close>

lemma valid_seven: "validate_id ''7'' = Inr ()"
  by code_simp

lemma hidden_before: "fst (get_request_summary_by_id ''7'' ''q'' sample_gateway) = Inl (new_user_error (request_not_found ''7'' []))"
  by (simp add: act_simps get_request_summary_by_id_def validate_sqid_def valid_seven validate_queue_identifier_def gateway_defs found_or_def
      sample_gateway_def sample_summary_def)

lemma cancel_exposes_unpublished:
  "g_messages (w_db sample_gateway) = [] \<and>
   map sm_status (g_summaries (w_db (after_call (Cancel \<lparr>cr_id = ''7'', cr_queue = ''q'', cr_reason = []\<rparr>) sample_gateway))) = [RequestStatusCancelling]"
  by (simp add: act_simps cancel_def validate_sqid_def valid_seven validate_queue_identifier_def gateway_defs found_or_def gw_now_def
      sample_gateway_def sample_summary_def persist_loop.simps Let_def cancel_publish_to_queue_def gateway_publish_def)

end
