(* ===== verification/StoveStore.thy ===== *)
theory StoveStore
  imports Publish Complex_Main
begin

text \<open>
  The data of Stovepipe, the service that validates a queue's head commits after they landed
  (\<open>stovepipe/entity\<close>), and its stores (\<open>stovepipe/extension/storage/mysql\<close>) as the statements
  they send to the slice of one queue.  The metadata of a log is kept decoded; a degree is a rational
  or not a number, an infinity being a value outside the interval.  The sentinels of
  \<open>stovepipe/extension/storage/storage.go\<close> have the form of those of Errs and share their names here.
\<close>

section \<open>Retries\<close>

text \<open>
  \<open>for { ... continue ... }\<close>: the body says none to go round again.  The bound is the number of
  events left in the script; \<open>retrying\<close> shows that it is never reached by a body that goes round only
  because of another process or a failed call.
\<close>

definition out_of_rounds :: goerr where
  "out_of_rounds = Plain ''out of rounds''"

fun retry :: "nat \<Rightarrow> ('w, goerr, 'a option) act \<Rightarrow> ('w, goerr, 'a) act" where
  "retry 0 body = fail out_of_rounds"
| "retry (Suc n) body = and_then body (\<lambda>r. case r of None \<Rightarrow> retry n body | Some x \<Rightarrow> ok x)"

definition until_settled :: "(('d, 'm) store_world_scheme, goerr, 'a option) act \<Rightarrow> (('d, 'm) store_world_scheme, goerr, 'a) act" where
  "until_settled body = (\<lambda>w. retry (Suc (length (w_script w))) body w)"

locale retrying =
  fixes ready :: "('d, 'm) store_world_scheme \<Rightarrow> bool" and body :: "(('d, 'm) store_world_scheme, goerr, 'a option) act"
  assumes consumes: "ready w \<Longrightarrow> body w = (Inr None, w') \<Longrightarrow> ready w' \<and> length (w_script w') < length (w_script w)"
begin

lemma more_rounds: "ready w \<Longrightarrow> length (w_script w) < n \<Longrightarrow> length (w_script w) < m \<Longrightarrow> retry n body w = retry m body w"
proof (induction n arbitrary: m w)
  case 0
  then show ?case by simp
next
  case (Suc n)
  then obtain k where m: "m = Suc k" by (cases m) auto
  show ?case
  proof (cases "body w")
    case (Pair r w')
    show ?thesis
    proof (cases "r = Inr None")
      case True
      with Pair consumes [OF Suc.prems(1)] have "ready w'" "length (w_script w') < length (w_script w)" by simp_all
      with Suc.prems m have "length (w_script w') < n" "length (w_script w') < k" by simp_all
      from Suc.IH [OF \<open>ready w'\<close> this] Pair True m show ?thesis by (simp add: act_simps)
    next
      case False
      with Pair m show ?thesis by (cases r) (auto simp: act_simps split: option.split)
    qed
  qed
qed

text \<open>The loop unfolds as the code reads: its body, and the loop again.\<close>

lemma until_settled_unfold:
  assumes "ready w"
  shows "until_settled body w = and_then body (\<lambda>r. case r of None \<Rightarrow> until_settled body | Some x \<Rightarrow> ok x) w"
proof (cases "body w")
  case (Pair r w')
  show ?thesis
  proof (cases "r = Inr None")
    case True
    with Pair consumes [OF assms] have "ready w'" "length (w_script w') < length (w_script w)" by simp_all
    from more_rounds [OF this, of "Suc (length (w_script w'))"] Pair True show ?thesis
      by (simp add: until_settled_def act_simps)
  next
    case False
    with Pair show ?thesis by (cases r) (auto simp: until_settled_def act_simps split: option.split)
  qed
qed

text \<open>So it ends as one of its rounds does.\<close>

lemma ends_as_a_round:
  assumes "ready w" and "until_settled body w = (r, w')"
  shows "\<exists>w0 y. ready w0 \<and> body w0 = (y, w') \<and> (case y of Inl e \<Rightarrow> r = Inl e | Inr None \<Rightarrow> False | Inr (Some x) \<Rightarrow> r = Inr x)"
  using assms
proof (induction "length (w_script w)" arbitrary: w rule: less_induct)
  case less
  obtain y w1 where run: "body w = (y, w1)" by (cases "body w")
  show ?case
  proof (cases "y = Inr None")
    case True
    with run consumes [OF less.prems(1)] have w1: "ready w1" "length (w_script w1) < length (w_script w)" by simp_all
    from less.prems run True have "until_settled body w1 = (r, w')" by (simp add: until_settled_unfold act_simps)
    from less.hyps [OF w1(2) w1(1) this] show ?thesis .
  next
    case False
    with less.prems run show ?thesis
      by (intro exI [of _ w] exI [of _ y]) (auto simp: until_settled_unfold act_simps split: sum.splits option.splits)
  qed
qed

corollary error_of_a_round:
  assumes "ready w" and "until_settled body w = (Inl e, w')"
  shows "\<exists>w0. ready w0 \<and> body w0 = (Inl e, w')"
  using ends_as_a_round [OF assms]
proof (elim exE conjE)
  fix w0 y
  assume w0: "ready w0" "body w0 = (y, w')" and y: "case y of Inl e' \<Rightarrow> (Inl e :: goerr + 'a) = Inl e' | Inr None \<Rightarrow> False | Inr (Some x) \<Rightarrow> Inl e = Inr x"
  show ?thesis
  proof (cases y)
    case (Inl e')
    with w0 y show ?thesis by auto
  next
    case (Inr z)
    with y show ?thesis by (cases z) simp_all
  qed
qed

end

text \<open>A loop is safe when its body is, whether it goes round again or not.\<close>

context evolution
begin

lemma triple_until_settled:
  assumes body: "triple I R P body (\<lambda>x d. case x of None \<Rightarrow> P d | Some y \<Rightarrow> Q y d)"
  shows "triple I R P (until_settled body) Q"
proof -
  have "triple I R P (retry n body) Q" for n
  proof (induction n)
    case 0
    then show ?case by (simp add: triple_fail)
  next
    case (Suc n)
    show ?case
      unfolding retry.simps
      by (rule triple_bind [OF body], rule triple_case_option)
        (auto intro: triple_pre [OF Suc.IH] triple_ok)
  qed
  then show ?thesis unfolding until_settled_def by (intro triple_world) blast
qed

end

section \<open>Requests, builds and the queue row\<close>

datatype stove_state = StoveUnknown | StoveAccepted | StoveProcessing | StoveSuperseded | StoveSucceeded | StoveFailed | StoveCancelled

definition stove_terminal :: "stove_state \<Rightarrow> bool" where
  "stove_terminal s \<longleftrightarrow> s \<in> {StoveSuperseded, StoveSucceeded, StoveFailed, StoveCancelled}"

definition has_build_outcome :: "stove_state \<Rightarrow> bool" where
  "has_build_outcome s \<longleftrightarrow> s \<in> {StoveSucceeded, StoveFailed, StoveCancelled}"

datatype build_strategy = StrategyUnknown | StrategyIncrementalSinceGreen | StrategyFull

record validation =
  va_id :: string
  va_queue :: string
  va_uri :: string
  va_strategy :: build_strategy
  va_base :: string
  va_state :: stove_state
  va_build :: string
  va_terminal_build :: string
  va_version :: int

datatype stove_build_status = RunUnknown | RunAccepted | RunRunning | RunSucceeded | RunFailed | RunCancelled

definition run_terminal :: "stove_build_status \<Rightarrow> bool" where
  "run_terminal s \<longleftrightarrow> s \<in> {RunSucceeded, RunFailed, RunCancelled}"

record stove_build =
  sb_id :: string
  sb_request :: string
  sb_status :: stove_build_status
  sb_version :: int

datatype enablement = EnablementUnknown | Enabled | Disabled

record queue_row =
  qr_name :: string
  qr_last_green_uri :: string
  qr_last_green_request :: string
  qr_in_flight :: int
  qr_latest_request :: string
  qr_enablement :: enablement
  qr_enablement_version :: int
  qr_effective_from :: string
  qr_enablement_changed_at :: int
  qr_version :: int

record queue_state =
  qs_queue :: string
  qs_state :: enablement
  qs_effective_from :: string
  qs_changed_at :: int
  qs_version :: int

definition enablement_state :: "queue_row \<Rightarrow> queue_state" where
  "enablement_state q = \<lparr>qs_queue = qr_name q, qs_state = qr_enablement q, qs_effective_from = qr_effective_from q,
     qs_changed_at = qr_enablement_changed_at q, qs_version = qr_enablement_version q\<rparr>"

definition validate_queue_state :: "queue_state \<Rightarrow> goerr + unit" where
  "validate_queue_state s =
     (if qs_queue s = [] \<or> length (qs_queue s) > 255 \<or> qs_version s \<le> 0 \<or> qs_changed_at s \<le> 0
      then Inl (Plain ''invalid queue state identity, version or timestamp'')
      else if qs_state s \<noteq> Enabled \<and> qs_state s \<noteq> Disabled then Inl (Plain ''invalid queue enablement'')
      else if qs_version s = 1
      then if qs_state s \<noteq> Disabled \<or> qs_effective_from s \<noteq> [] then Inl (Plain ''initial queue state must be disabled without a boundary'') else Inr ()
      else if qs_effective_from s = [] \<or> length (qs_effective_from s) > 255 then Inl (Plain ''invalid queue state commit boundary'')
      else Inr ())"

record stove_config =
  sv_name :: string
  sv_max_concurrent :: int
  sv_gate_wait_delay_ms :: int

section \<open>Logs, summaries and facts\<close>

datatype stove_event = NoEvent | BuildTriggered | BuildFinished | ValidationFactRecorded | ProjectFactsRecorded | RecordAbandoned
  | BuildAnalysisAbandoned | BuildAnalysisCompleted | IssuesReconciled | IssueTrackingAbandoned | FixSubmitted
  | FixSubmissionSkipped | FixSubmissionAbandoned

datatype outcome_reason = ReasonUnknown | ReasonBuildSucceeded | ReasonBuildFailed | ReasonBuildCancelled | ReasonProcessingFailed
  | ReasonBuildPollingExhausted | ReasonValidationTimeout | ReasonSupersededByNewerHead

record stove_log =
  sl_id :: string
  sl_queue :: string
  sl_request :: string
  sl_timestamp :: int
  sl_state :: stove_state
  sl_event :: stove_event
  sl_version :: int
  sl_reason :: outcome_reason
  sl_metadata :: "(string \<times> string) list"

definition is_failure_reason :: "outcome_reason \<Rightarrow> bool" where
  "is_failure_reason r \<longleftrightarrow> r \<in> {ReasonBuildFailed, ReasonProcessingFailed, ReasonBuildPollingExhausted, ReasonValidationTimeout}"

definition validate_log_state :: "stove_log \<Rightarrow> goerr + unit" where
  "validate_log_state l =
     (if sl_version l \<le> 0 then Inl (Plain ''state log must have a positive request version'')
      else let bad = (case sl_state l of
          StoveAccepted \<Rightarrow> sl_reason l \<noteq> ReasonUnknown
        | StoveProcessing \<Rightarrow> sl_reason l \<noteq> ReasonUnknown
        | StoveSuperseded \<Rightarrow> sl_reason l \<noteq> ReasonSupersededByNewerHead
        | StoveSucceeded \<Rightarrow> sl_reason l \<noteq> ReasonBuildSucceeded
        | StoveFailed \<Rightarrow> \<not> is_failure_reason (sl_reason l)
        | StoveCancelled \<Rightarrow> sl_reason l \<noteq> ReasonBuildCancelled
        | StoveUnknown \<Rightarrow> True) in
        if bad then Inl (Plain ''state log has invalid outcome context'') else Inr ())"

definition validate_log_event :: "stove_log \<Rightarrow> goerr + unit" where
  "validate_log_event l =
     (if sl_version l \<noteq> 0 \<or> sl_reason l \<noteq> ReasonUnknown then Inl (Plain ''event log must not contain request-state context'')
      else if sl_event l = NoEvent then Inl (Plain ''unknown request event'') else Inr ())"

definition validate_log :: "stove_log \<Rightarrow> goerr + unit" where
  "validate_log l =
     (if sl_id l = [] then Inl (Plain ''request log ID must not be empty'')
      else if sl_queue l = [] then Inl (Plain ''request log queue must not be empty'')
      else if sl_request l = [] then Inl (Plain ''request log request ID must not be empty'')
      else if sl_timestamp l \<le> 0 then Inl (Plain ''request log timestamp must be positive'')
      else if (sl_state l = StoveUnknown) = (sl_event l = NoEvent) then Inl (Plain ''request log must contain exactly one of state and event'')
      else if sl_state l \<noteq> StoveUnknown then validate_log_state l else validate_log_event l)"

record stove_summary =
  su_request :: string
  su_queue :: string
  su_uri :: string
  su_base :: string
  su_state :: stove_state
  su_request_version :: int
  su_state_at :: int
  su_accepted_at :: int
  su_results_completed_at :: int
  su_project_count :: int
  su_broken_project_count :: int
  su_reason :: outcome_reason
  su_version :: int

record acceptance =
  ac_queue :: string
  ac_accepted_at :: int
  ac_request :: string

datatype degree = NotANumber | Degree rat

definition degree_green :: degree where "degree_green = Degree 0"
definition degree_partial :: degree where "degree_partial = Degree (1 / 2)"
definition degree_broken :: degree where "degree_broken = Degree 1"

definition valid_degree :: "degree \<Rightarrow> bool" where
  "valid_degree d \<longleftrightarrow> (case d of NotANumber \<Rightarrow> False | Degree r \<Rightarrow> 0 \<le> r \<and> r \<le> 1)"

record validation_fact =
  vf_uri :: string
  vf_project :: string
  vf_project_type :: string
  vf_degree :: degree
  vf_request :: string
  vf_created_at :: int

definition fact_is_green :: "validation_fact \<Rightarrow> bool" where
  "fact_is_green f \<longleftrightarrow> vf_degree f = degree_green"

record fact_by_degree =
  fd_uri :: string
  fd_degree :: degree
  fd_project :: string

definition new_project_fact_by_degree :: "validation_fact \<Rightarrow> goerr + fact_by_degree" where
  "new_project_fact_by_degree f =
     (if vf_uri f = [] \<or> vf_project f = [] \<or> \<not> valid_degree (vf_degree f)
      then Inl (Plain ''project fact degree lookup requires a URI, project and degree in [0, 1]'')
      else Inr \<lparr>fd_uri = vf_uri f, fd_degree = vf_degree f, fd_project = vf_project f\<rparr>)"

record queue_log =
  ql_id :: string
  ql_queue :: string
  ql_timestamp :: int
  ql_state :: enablement
  ql_version :: int
  ql_effective_from :: string

text \<open>\<open>state/%d\<close>.\<close>

definition int_text :: "int \<Rightarrow> string" where
  "int_text v = (if v < 0 then ''-'' @ dec (nat (- v)) else dec (nat v))"

definition queue_log_id :: "int \<Rightarrow> string" where
  "queue_log_id v = ''state/'' @ int_text v"

definition queue_log_snapshot :: "queue_log \<Rightarrow> queue_state" where
  "queue_log_snapshot l = \<lparr>qs_queue = ql_queue l, qs_state = ql_state l, qs_effective_from = ql_effective_from l,
     qs_changed_at = ql_timestamp l, qs_version = ql_version l\<rparr>"

definition validate_queue_log :: "queue_log \<Rightarrow> goerr + unit" where
  "validate_queue_log l = (if ql_id l \<noteq> queue_log_id (ql_version l) then Inl (Plain ''queue state log identity differs from its state version'')
     else validate_queue_state (queue_log_snapshot l))"

record queue_summary =
  qm_queue :: string
  qm_state :: enablement
  qm_state_version :: int
  qm_effective_from :: string
  qm_state_at :: int
  qm_version :: int

definition queue_summary_snapshot :: "queue_summary \<Rightarrow> queue_state" where
  "queue_summary_snapshot s = \<lparr>qs_queue = qm_queue s, qs_state = qm_state s, qs_effective_from = qm_effective_from s,
     qs_changed_at = qm_state_at s, qs_version = qm_state_version s\<rparr>"

definition validate_queue_summary :: "queue_summary \<Rightarrow> goerr + unit" where
  "validate_queue_summary s = (if qm_version s \<le> 0 then Inl (Plain ''invalid queue summary version'') else validate_queue_state (queue_summary_snapshot s))"

section \<open>Messages and the database slice\<close>

datatype stove_topic = TopicProcess | TopicBuild | TopicBuildSignal | TopicBuildAnalysis | TopicIssueTrack | TopicFix | TopicRecord | TopicHook

record hook_event =
  he_id :: string
  he_source :: string
  he_type :: string
  he_timestamp :: int
  he_queue :: string
  he_request :: string

datatype stove_payload = ById string string | HookPayload hook_event | Undecodable

text \<open>A message: its envelope, whose payload is left empty, and what the payload decodes to.\<close>

record stove_message =
  st_envelope :: message
  st_payload :: stove_payload

record stove_db =
  s_requests :: "string \<rightharpoonup> validation"
  s_uris :: "string \<rightharpoonup> string"
  s_queue_row :: "queue_row option"
  s_builds :: "string \<rightharpoonup> stove_build"
  s_logs :: "string \<times> string \<rightharpoonup> stove_log"
  s_summaries :: "string \<rightharpoonup> stove_summary"
  s_acceptances :: "acceptance list"
  s_facts :: "string \<times> string \<rightharpoonup> validation_fact"
  s_facts_by_degree :: "fact_by_degree list"
  s_queue_logs :: "string \<rightharpoonup> queue_log"
  s_queue_summary :: "queue_summary option"
  s_counter :: int
  s_messages :: "stove_message list"

datatype stove_effect = Triggered_build string string | Promoted string

text \<open>\<open>s_effects\<close>: what the process asked of the build runner and of source control.\<close>

record stove = "stove_db store_world" +
  s_queue :: string
  s_registry :: "stove_topic \<rightharpoonup> string"
  s_clock :: "nat \<Rightarrow> int"
  s_ticks :: nat
  s_effects :: "stove_effect list"

type_synonym 'a sop = "(stove, goerr, 'a) act"

definition stove_now :: "int sop" where
  "stove_now w = (Inr (s_clock w (s_ticks w)), w\<lparr>s_ticks := Suc (s_ticks w)\<rparr>)"

definition stove_storage_for :: "string \<Rightarrow> unit sop" where
  "stove_storage_for q w =
     (if q = [] then (Inl (Plain ''queue name must not be empty''), w)
      else if q \<noteq> s_queue w then (Inl (Plain ''no backend is configured for the queue''), w)
      else (Inr (), w))"

definition bound :: "string \<Rightarrow> 'a sop \<Rightarrow> 'a sop" where
  "bound q m w = (if q \<noteq> s_queue w then (Inl (Plain ''queue does not match the bound queue of the store''), w) else m w)"

section \<open>The stores\<close>

definition validation_row_create :: "validation \<Rightarrow> stove_db \<Rightarrow> (goerr + unit) \<times> stove_db" where
  "validation_row_create r d = (case insert_row (va_id r) r (s_requests d) of
     None \<Rightarrow> (Inl (Wrapped ''request entity'' ErrAlreadyExists), d)
   | Some t \<Rightarrow> (Inr (), d\<lparr>s_requests := t\<rparr>))"

definition validation_row_update :: "validation \<Rightarrow> int \<Rightarrow> int \<Rightarrow> stove_db \<Rightarrow> (goerr + unit) \<times> stove_db" where
  "validation_row_update r old new d =
     (case update_where (\<lambda>s. va_version s = old) (va_id r) (r\<lparr>va_version := new\<rparr>) (s_requests d) of
       (n, t) \<Rightarrow> if n \<noteq> 1 then (Inl (Wrapped ''version mismatch for request update'' err_version_mismatch), d\<lparr>s_requests := t\<rparr>)
         else (Inr (), d\<lparr>s_requests := t\<rparr>))"

definition validation_get :: "string \<Rightarrow> validation sop" where
  "validation_get i = db_op (\<lambda>d. (select_row (s_requests d i), d))"

definition validation_create :: "validation \<Rightarrow> unit sop" where
  "validation_create r = bound (va_queue r) (db_op (validation_row_create r))"

definition validation_update :: "validation \<Rightarrow> int \<Rightarrow> int \<Rightarrow> unit sop" where
  "validation_update r old new = bound (va_queue r) (db_op (validation_row_update r old new))"

definition uri_row_create :: "string \<Rightarrow> string \<Rightarrow> stove_db \<Rightarrow> (goerr + unit) \<times> stove_db" where
  "uri_row_create u i d = (case insert_row u i (s_uris d) of
     None \<Rightarrow> (Inl (Wrapped ''request_uri'' ErrAlreadyExists), d)
   | Some t \<Rightarrow> (Inr (), d\<lparr>s_uris := t\<rparr>))"

definition request_uri_create :: "string \<Rightarrow> string \<Rightarrow> unit sop" where
  "request_uri_create u i = db_op (uri_row_create u i)"

definition get_id_by_uri :: "string \<Rightarrow> string sop" where
  "get_id_by_uri u = db_op (\<lambda>d. (select_row (s_uris d u), d))"

definition queue_row_create :: "queue_row \<Rightarrow> stove_db \<Rightarrow> (goerr + unit) \<times> stove_db" where
  "queue_row_create q d = (case s_queue_row d of
     Some _ \<Rightarrow> (Inl (Wrapped ''queue name'' ErrAlreadyExists), d)
   | None \<Rightarrow> (Inr (), d\<lparr>s_queue_row := Some q\<rparr>))"

definition queue_row_update :: "queue_row \<Rightarrow> int \<Rightarrow> int \<Rightarrow> stove_db \<Rightarrow> (goerr + unit) \<times> stove_db" where
  "queue_row_update q old new d = (case s_queue_row d of
     Some r \<Rightarrow> if qr_version r = old \<and> r \<noteq> q\<lparr>qr_version := new\<rparr> then (Inr (), d\<lparr>s_queue_row := Some (q\<lparr>qr_version := new\<rparr>)\<rparr>)
       else (Inl (Wrapped ''version mismatch for queue update'' err_version_mismatch), d)
   | None \<Rightarrow> (Inl (Wrapped ''version mismatch for queue update'' err_version_mismatch), d))"

definition queue_get :: "string \<Rightarrow> queue_row sop" where
  "queue_get name w = (if name \<noteq> s_queue w then (Inl (Wrapped ''queue row name does not match the bound queue of the store'' ErrNotFound), w)
     else db_op (\<lambda>d. (select_row (s_queue_row d), d)) w)"

definition queue_create :: "queue_row \<Rightarrow> unit sop" where
  "queue_create q = bound (qr_name q) (db_op (queue_row_create q))"

definition queue_update :: "queue_row \<Rightarrow> int \<Rightarrow> int \<Rightarrow> unit sop" where
  "queue_update q old new = bound (qr_name q) (db_op (queue_row_update q old new))"

definition stove_build_row_create :: "stove_build \<Rightarrow> stove_db \<Rightarrow> (goerr + unit) \<times> stove_db" where
  "stove_build_row_create b d = (case insert_row (sb_id b) b (s_builds d) of
     None \<Rightarrow> (Inl (Wrapped ''build entity'' ErrAlreadyExists), d)
   | Some t \<Rightarrow> (Inr (), d\<lparr>s_builds := t\<rparr>))"

definition stove_build_row_update :: "stove_build \<Rightarrow> int \<Rightarrow> int \<Rightarrow> stove_db \<Rightarrow> (goerr + unit) \<times> stove_db" where
  "stove_build_row_update b old new d = (case s_builds d (sb_id b) of
     Some r \<Rightarrow> if sb_version r = old \<and> r \<noteq> r\<lparr>sb_status := sb_status b, sb_version := new\<rparr>
       then (Inr (), d\<lparr>s_builds := (s_builds d)(sb_id b \<mapsto> r\<lparr>sb_status := sb_status b, sb_version := new\<rparr>)\<rparr>)
       else (Inl (Wrapped ''version mismatch for build update'' err_version_mismatch), d)
   | None \<Rightarrow> (Inl (Wrapped ''version mismatch for build update'' err_version_mismatch), d))"

definition stove_build_get :: "string \<Rightarrow> stove_build sop" where
  "stove_build_get i = db_op (\<lambda>d. (select_row (s_builds d i), d))"

definition stove_build_create :: "stove_build \<Rightarrow> unit sop" where
  "stove_build_create b = db_op (stove_build_row_create b)"

definition stove_build_update :: "stove_build \<Rightarrow> int \<Rightarrow> int \<Rightarrow> unit sop" where
  "stove_build_update b old new = db_op (stove_build_row_update b old new)"

definition log_row_create :: "stove_log \<Rightarrow> stove_db \<Rightarrow> (goerr + unit) \<times> stove_db" where
  "log_row_create l d = (case insert_row (sl_request l, sl_id l) l (s_logs d) of
     None \<Rightarrow> (Inl (Wrapped ''request log'' ErrAlreadyExists), d)
   | Some t \<Rightarrow> (Inr (), d\<lparr>s_logs := t\<rparr>))"

definition stove_log_create :: "stove_log \<Rightarrow> unit sop" where
  "stove_log_create l = and_then (map_err (Wrapped ''invalid request log'') (of_sum (validate_log l)))
     (\<lambda>_. bound (sl_queue l) (db_op (log_row_create l)))"

definition stove_log_get :: "string \<Rightarrow> string \<Rightarrow> stove_log sop" where
  "stove_log_get i l = db_op (\<lambda>d. (select_row (s_logs d (i, l)), d))"

definition summary_row_create :: "stove_summary \<Rightarrow> stove_db \<Rightarrow> (goerr + unit) \<times> stove_db" where
  "summary_row_create s d = (case insert_row (su_request s) s (s_summaries d) of
     None \<Rightarrow> (Inl (Wrapped ''request summary'' ErrAlreadyExists), d)
   | Some t \<Rightarrow> (Inr (), d\<lparr>s_summaries := t\<rparr>))"

definition summary_update_row :: "stove_summary \<Rightarrow> int \<Rightarrow> int \<Rightarrow> stove_db \<Rightarrow> (goerr + unit) \<times> stove_db" where
  "summary_update_row s old new d = (case s_summaries d (su_request s) of
     Some r \<Rightarrow> if su_version r = old \<and> r \<noteq> s\<lparr>su_uri := su_uri r, su_version := new\<rparr>
       then (Inr (), d\<lparr>s_summaries := (s_summaries d)(su_request s \<mapsto> s\<lparr>su_uri := su_uri r, su_version := new\<rparr>)\<rparr>)
       else (Inl (Wrapped ''request summary'' err_version_mismatch), d)
   | None \<Rightarrow> (Inl (Wrapped ''request summary'' err_version_mismatch), d))"

definition stove_summary_get :: "string \<Rightarrow> stove_summary sop" where
  "stove_summary_get i = db_op (\<lambda>d. (select_row (s_summaries d i), d))"

definition stove_summary_create :: "stove_summary \<Rightarrow> unit sop" where
  "stove_summary_create s = bound (su_queue s) (db_op (summary_row_create s))"

definition stove_summary_update :: "stove_summary \<Rightarrow> int \<Rightarrow> int \<Rightarrow> unit sop" where
  "stove_summary_update s old new = bound (su_queue s) (db_op (summary_update_row s old new))"

definition acceptance_row_create :: "acceptance \<Rightarrow> stove_db \<Rightarrow> (goerr + unit) \<times> stove_db" where
  "acceptance_row_create a d =
     (if a \<in> set (s_acceptances d) then (Inl (Wrapped ''request acceptance'' ErrAlreadyExists), d)
      else (Inr (), d\<lparr>s_acceptances := s_acceptances d @ [a]\<rparr>))"

definition acceptance_create :: "acceptance \<Rightarrow> unit sop" where
  "acceptance_create a = bound (ac_queue a)
     (if ac_accepted_at a \<le> 0 \<or> ac_request a = [] then fail (Plain ''request acceptance requires a positive timestamp and nonempty request ID'')
      else db_op (acceptance_row_create a))"

definition fact_row_create :: "validation_fact \<Rightarrow> stove_db \<Rightarrow> (goerr + unit) \<times> stove_db" where
  "fact_row_create f d = (case insert_row (vf_uri f, vf_project f) f (s_facts d) of
     None \<Rightarrow> (Inl (Wrapped ''validation_fact'' ErrAlreadyExists), d)
   | Some t \<Rightarrow> (Inr (), d\<lparr>s_facts := t\<rparr>))"

definition fact_create :: "validation_fact \<Rightarrow> unit sop" where
  "fact_create f = db_op (fact_row_create f)"

definition fact_get :: "string \<Rightarrow> string \<Rightarrow> validation_fact sop" where
  "fact_get u p = db_op (\<lambda>d. (select_row (s_facts d (u, p)), d))"

definition by_degree_row_create :: "fact_by_degree \<Rightarrow> stove_db \<Rightarrow> (goerr + unit) \<times> stove_db" where
  "by_degree_row_create e d =
     (if e \<in> set (s_facts_by_degree d) then (Inl (Wrapped ''project fact degree lookup'' ErrAlreadyExists), d)
      else (Inr (), d\<lparr>s_facts_by_degree := s_facts_by_degree d @ [e]\<rparr>))"

definition by_degree_create :: "fact_by_degree \<Rightarrow> unit sop" where
  "by_degree_create e =
     (if fd_uri e = [] \<or> fd_project e = [] \<or> \<not> valid_degree (fd_degree e)
      then fail (Plain ''project fact degree lookup requires a URI, project and degree in [0, 1]'')
      else db_op (by_degree_row_create e))"

definition queue_log_row_create :: "queue_log \<Rightarrow> stove_db \<Rightarrow> (goerr + unit) \<times> stove_db" where
  "queue_log_row_create l d = (case insert_row (ql_id l) l (s_queue_logs d) of
     None \<Rightarrow> (Inl ErrAlreadyExists, d)
   | Some t \<Rightarrow> (Inr (), d\<lparr>s_queue_logs := t\<rparr>))"

definition queue_log_create :: "queue_log \<Rightarrow> unit sop" where
  "queue_log_create l = bound (ql_queue l) (and_then (of_sum (validate_queue_log l)) (\<lambda>_. db_op (queue_log_row_create l)))"

definition queue_log_get :: "string \<Rightarrow> queue_log sop" where
  "queue_log_get i = db_op (\<lambda>d. (select_row (s_queue_logs d i), d))"

definition queue_summary_row_create :: "queue_summary \<Rightarrow> stove_db \<Rightarrow> (goerr + unit) \<times> stove_db" where
  "queue_summary_row_create s d = (case s_queue_summary d of
     Some _ \<Rightarrow> (Inl ErrAlreadyExists, d) | None \<Rightarrow> (Inr (), d\<lparr>s_queue_summary := Some s\<rparr>))"

definition queue_summary_row_update :: "queue_summary \<Rightarrow> int \<Rightarrow> int \<Rightarrow> stove_db \<Rightarrow> (goerr + unit) \<times> stove_db" where
  "queue_summary_row_update s old new d = (case s_queue_summary d of
     Some r \<Rightarrow> if qm_version r = old \<and> r \<noteq> s\<lparr>qm_queue := qm_queue r, qm_version := new\<rparr>
       then (Inr (), d\<lparr>s_queue_summary := Some (s\<lparr>qm_queue := qm_queue r, qm_version := new\<rparr>)\<rparr>)
       else (Inl err_version_mismatch, d)
   | None \<Rightarrow> (Inl err_version_mismatch, d))"

definition queue_summary_get :: "queue_summary sop" where
  "queue_summary_get = db_op (\<lambda>d. (select_row (s_queue_summary d), d))"

definition queue_summary_create :: "queue_summary \<Rightarrow> unit sop" where
  "queue_summary_create s = bound (qm_queue s) (and_then (of_sum (validate_queue_summary s)) (\<lambda>_. db_op (queue_summary_row_create s)))"

definition queue_summary_update :: "queue_summary \<Rightarrow> int \<Rightarrow> int \<Rightarrow> unit sop" where
  "queue_summary_update s old new = bound (qm_queue s)
     (and_then (of_sum (validate_queue_summary (s\<lparr>qm_version := new\<rparr>))) (\<lambda>_. db_op (queue_summary_row_update s old new)))"

section \<open>Publishing\<close>

definition same_stove_key :: "stove_message \<Rightarrow> stove_message \<Rightarrow> bool" where
  "same_stove_key a b \<longleftrightarrow> same_message_key (st_envelope a) (st_envelope b)"

definition stove_message_stmt :: "stove_message \<Rightarrow> stove_db \<Rightarrow> (goerr + unit) \<times> stove_db" where
  "stove_message_stmt m d =
     (Inr (), if list_ex (same_stove_key m) (s_messages d) then d else d\<lparr>s_messages := s_messages d @ [m]\<rparr>)"

definition stove_publish :: "stove_topic \<Rightarrow> string \<Rightarrow> string \<Rightarrow> string \<Rightarrow> stove_payload \<Rightarrow> unit sop" where
  "stove_publish key tenant i pk p w =
     (if tenant = [] then (Inl (Plain ''tenant is required''), w)
      else case s_registry w key of
        None \<Rightarrow> (Inl (Plain ''no queue registered for topic key''), w)
      | Some topic \<Rightarrow> and_then stove_now (\<lambda>now.
          let m = \<lparr>m_tenant = tenant, m_topic = topic, m_id = i, m_partition = pk, m_payload = PBad,
              m_metadata = [metadata_key_queue_name \<mapsto> tenant], m_published_at = now\<rparr> in
          and_then (of_sum (check_message m)) (\<lambda>_.
          map_err (Wrapped ''publish message store insert error'') (db_op (stove_message_stmt \<lparr>st_envelope = m, st_payload = p\<rparr>)))) w)"

end
