(* ===== verification/StoveLogs.thy ===== *)
theory StoveLogs
  imports StoveStore
begin

text \<open>
  The read models of Stovepipe: the request log and the summaries it projects
  (\<open>stovepipe/core/requestlog\<close>), the queue log and its summary (\<open>stovepipe/core/queuelog\<close>), and the
  enablement of a queue (\<open>stovepipe/core/queuestate\<close>).  A cancelled context is a failing call.
\<close>

section \<open>The request log\<close>

definition new_request_state_log :: "validation \<Rightarrow> outcome_reason \<Rightarrow> stove_log" where
  "new_request_state_log r reason =
     \<lparr>sl_id = intent_id ''state'' [int_text (va_version r)], sl_queue = va_queue r, sl_request = va_id r, sl_timestamp = 0,
      sl_state = va_state r, sl_event = NoEvent, sl_version = va_version r, sl_reason = reason,
      sl_metadata = (case va_strategy r of StrategyFull \<Rightarrow> [(''base_uri'', [])]
        | StrategyIncrementalSinceGreen \<Rightarrow> [(''base_uri'', va_base r)] | StrategyUnknown \<Rightarrow> [])\<rparr>"

fun stove_event_string :: "stove_event \<Rightarrow> string" where
  "stove_event_string NoEvent = []"
| "stove_event_string BuildTriggered = ''build_triggered''"
| "stove_event_string BuildFinished = ''build_finished''"
| "stove_event_string ValidationFactRecorded = ''validation_fact_recorded''"
| "stove_event_string ProjectFactsRecorded = ''project_facts_recorded''"
| "stove_event_string RecordAbandoned = ''record_abandoned''"
| "stove_event_string BuildAnalysisAbandoned = ''build_analysis_abandoned''"
| "stove_event_string BuildAnalysisCompleted = ''build_analysis_completed''"
| "stove_event_string IssuesReconciled = ''issues_reconciled''"
| "stove_event_string IssueTrackingAbandoned = ''issue_tracking_abandoned''"
| "stove_event_string FixSubmitted = ''fix_submitted''"
| "stove_event_string FixSubmissionSkipped = ''fix_submission_skipped''"
| "stove_event_string FixSubmissionAbandoned = ''fix_submission_abandoned''"

definition stove_event_log :: "validation \<Rightarrow> stove_event \<Rightarrow> string \<Rightarrow> (string \<times> string) list \<Rightarrow> stove_log" where
  "stove_event_log r event occurrence md =
     \<lparr>sl_id = intent_id ''event'' [stove_event_string event, occurrence], sl_queue = va_queue r, sl_request = va_id r, sl_timestamp = 0,
      sl_state = StoveUnknown, sl_event = event, sl_version = 0, sl_reason = ReasonUnknown, sl_metadata = md\<rparr>"

definition metadata_compatible :: "(string \<times> string) list \<Rightarrow> (string \<times> string) list \<Rightarrow> bool" where
  "metadata_compatible stored candidate \<longleftrightarrow> list_all (\<lambda>(k, v). map_of candidate k \<in> {None, Some v}) stored"

definition same_semantic_occurrence :: "stove_log \<Rightarrow> stove_log \<Rightarrow> bool" where
  "same_semantic_occurrence s c \<longleftrightarrow> sl_id s = sl_id c \<and> sl_queue s = sl_queue c \<and> sl_request s = sl_request c \<and>
     sl_state s = sl_state c \<and> sl_event s = sl_event c \<and> sl_version s = sl_version c \<and> sl_reason s = sl_reason c \<and>
     metadata_compatible (sl_metadata s) (sl_metadata c)"

definition retain_request_log :: "stove_log \<Rightarrow> stove_log sop" where
  "retain_request_log l = and_then (attempt (stove_log_create l)) (\<lambda>r. case r of
     Inr _ \<Rightarrow> ok l
   | Inl e \<Rightarrow> if \<not> is_already_exists e then fail (Wrapped ''failed to create request log'' e)
       else and_then (map_err (Wrapped ''failed to reconcile request log'') (stove_log_get (sl_request l) (sl_id l))) (\<lambda>stored.
         if \<not> same_semantic_occurrence stored l then fail (Plain ''request log conflicts with retained occurrence'') else ok stored))"

definition summary_from_request_and_log :: "validation \<Rightarrow> stove_log \<Rightarrow> stove_summary" where
  "summary_from_request_and_log r l =
     \<lparr>su_request = sl_request l, su_queue = sl_queue l, su_uri = va_uri r,
      su_base = (case map_of (sl_metadata l) ''base_uri'' of None \<Rightarrow> [] | Some b \<Rightarrow> b),
      su_state = sl_state l, su_request_version = sl_version l, su_state_at = sl_timestamp l,
      su_accepted_at = (if sl_state l = StoveAccepted then sl_timestamp l else 0), su_results_completed_at = 0,
      su_project_count = 0, su_broken_project_count = 0, su_reason = sl_reason l, su_version = 0\<rparr>"

definition create_initial_request_summary :: "stove_log \<Rightarrow> stove_summary sop" where
  "create_initial_request_summary l =
     and_then (map_err (Wrapped ''failed to get request for summary'') (validation_get (sl_request l))) (\<lambda>r.
     if va_id r \<noteq> sl_request l \<or> va_queue r \<noteq> sl_queue l then fail (Plain ''request identity conflicts with state log'')
     else if va_uri r = [] then fail (Plain ''request URI is empty for summary'')
     else let s = (summary_from_request_and_log r l)\<lparr>su_version := 1\<rparr> in
       and_then (map_err (Wrapped ''failed to create request summary'') (stove_summary_create s)) (\<lambda>_. ok s))"

definition parse_int32 :: "string \<Rightarrow> int option" where
  "parse_int32 t = (case parse_int t of Some v \<Rightarrow> if - 2147483648 \<le> v \<and> v \<le> 2147483647 then Some v else None | None \<Rightarrow> None)"

definition metadata_text :: "stove_log \<Rightarrow> string \<Rightarrow> string" where
  "metadata_text l k = (case map_of (sl_metadata l) k of None \<Rightarrow> [] | Some v \<Rightarrow> v)"

definition project_project_counts :: "stove_summary \<Rightarrow> stove_log \<Rightarrow> goerr + stove_summary" where
  "project_project_counts s l =
     (case (parse_int32 (metadata_text l ''project_fact_count''), parse_int32 (metadata_text l ''broken_project_fact_count'')) of
        (Some n, Some broken) \<Rightarrow> if n < 0 \<or> broken < 0 \<or> n < broken then Inl (Plain ''invalid project outcome counts in retained log'')
          else Inr (s\<lparr>su_project_count := n, su_broken_project_count := broken\<rparr>)
      | _ \<Rightarrow> Inl (Plain ''invalid project outcome counts in retained log''))"

definition project_request_summary_facts :: "stove_summary \<Rightarrow> stove_log \<Rightarrow> goerr + stove_summary" where
  "project_request_summary_facts s l =
     (if su_request s \<noteq> sl_request l \<or> su_queue s \<noteq> sl_queue l then Inl (Plain ''request summary identity conflicts with state log'')
      else let finish = (\<lambda>s. if sl_state l = StoveAccepted
          then if su_accepted_at s \<noteq> 0 \<and> su_accepted_at s \<noteq> sl_timestamp l
            then Inl (Plain ''request summary acceptance time conflicts with retained log'')
            else Inr (s\<lparr>su_accepted_at := sl_timestamp l\<rparr>)
          else Inr s) in
        if sl_event l = ProjectFactsRecorded \<or> sl_event l = RecordAbandoned
        then if sl_timestamp l \<le> 0 then Inl (Plain ''request summary completion time must be positive'')
          else let s = (if su_results_completed_at s = 0 then s\<lparr>su_results_completed_at := sl_timestamp l\<rparr> else s) in
            if sl_event l = ProjectFactsRecorded then project_project_counts s l else finish s
        else finish s)"

definition summary_state_matches_log :: "stove_summary \<Rightarrow> stove_log \<Rightarrow> bool" where
  "summary_state_matches_log s l \<longleftrightarrow> su_state s = sl_state l \<and> su_state_at s = sl_timestamp l \<and>
     (su_reason s = ReasonUnknown \<or> su_reason s = sl_reason l) \<and>
     (case map_of (sl_metadata l) ''base_uri'' of None \<Rightarrow> True | Some b \<Rightarrow> su_base s = b)"

definition project_request_summary_state :: "stove_summary \<Rightarrow> stove_log \<Rightarrow> goerr + stove_summary" where
  "project_request_summary_state s l =
     (if sl_state l = StoveUnknown then Inr s
      else if sl_version l < su_request_version s then Inr s
      else if sl_version l = su_request_version s
      then if \<not> summary_state_matches_log s l then Inl (Plain ''request summary conflicts with state log'')
        else Inr (s\<lparr>su_reason := sl_reason l\<rparr>)
      else Inr (s\<lparr>su_state := sl_state l, su_request_version := sl_version l, su_state_at := sl_timestamp l, su_reason := sl_reason l,
        su_base := (case map_of (sl_metadata l) ''base_uri'' of None \<Rightarrow> su_base s | Some b \<Rightarrow> b)\<rparr>))"

definition project_request_summary :: "stove_summary \<Rightarrow> stove_log \<Rightarrow> goerr + stove_summary" where
  "project_request_summary s l = (case project_request_summary_facts s l of Inl e \<Rightarrow> Inl e | Inr s' \<Rightarrow> project_request_summary_state s' l)"

definition update_existing_request_summary :: "stove_summary \<Rightarrow> stove_log \<Rightarrow> stove_summary sop" where
  "update_existing_request_summary s l =
     and_then (of_sum (project_request_summary s l)) (\<lambda>s'.
     if s' = s then ok s
     else and_then (map_err (Wrapped ''failed to update request summary'') (stove_summary_update s' (su_version s) (su_version s + 1)))
       (\<lambda>_. ok (s'\<lparr>su_version := su_version s + 1\<rparr>)))"

text \<open>One round of the loop; none after a race with another creator or writer.\<close>

definition again_if :: "(goerr \<Rightarrow> bool) \<Rightarrow> 'a sop \<Rightarrow> 'a option sop" where
  "again_if lost m = and_then (attempt m) (\<lambda>r. case r of
     Inl e \<Rightarrow> if lost e then ok None else fail e | Inr x \<Rightarrow> ok (Some x))"

definition request_summary_round :: "stove_log \<Rightarrow> stove_summary option sop" where
  "request_summary_round l = and_then (attempt (stove_summary_get (sl_request l))) (\<lambda>r. case r of
     Inl e \<Rightarrow> if \<not> is_not_found e then fail (Wrapped ''failed to get request summary'' e)
       else if sl_state l = StoveUnknown then fail (Wrapped ''request summary required to project event'' e)
       else again_if is_already_exists (create_initial_request_summary l)
   | Inr s \<Rightarrow> again_if is_version_mismatch (update_existing_request_summary s l))"

definition materialize_request_summary :: "stove_log \<Rightarrow> stove_summary sop" where
  "materialize_request_summary l = until_settled (request_summary_round l)"

definition ensure_request_acceptance_mapping :: "stove_summary \<Rightarrow> unit sop" where
  "ensure_request_acceptance_mapping s =
     (if su_accepted_at s = 0 then ok ()
      else and_then (attempt (acceptance_create \<lparr>ac_queue = su_queue s, ac_accepted_at = su_accepted_at s, ac_request = su_request s\<rparr>)) (\<lambda>r. case r of
        Inl e \<Rightarrow> if is_already_exists e then ok () else fail (Wrapped ''failed to ensure request acceptance mapping'' e)
      | Inr _ \<Rightarrow> ok ()))"

definition persist_request_log :: "stove_log \<Rightarrow> unit sop" where
  "persist_request_log l0 =
     and_then (if sl_timestamp l0 = 0 then stove_now else ok (sl_timestamp l0)) (\<lambda>now.
     let l = l0\<lparr>sl_timestamp := now\<rparr> in
     and_then (map_err (Wrapped ''invalid request log occurrence'') (of_sum (validate_log l))) (\<lambda>_.
     and_then (retain_request_log l) (\<lambda>retained.
     if sl_state retained = StoveUnknown \<and> sl_event retained \<noteq> ProjectFactsRecorded \<and> sl_event retained \<noteq> RecordAbandoned then ok ()
     else and_then (materialize_request_summary retained) ensure_request_acceptance_mapping)))"

section \<open>The queue log\<close>

definition err_inconsistent_history :: goerr where
  "err_inconsistent_history = Plain ''inconsistent queue history''"

definition new_queue_state_log :: "queue_row \<Rightarrow> queue_log" where
  "new_queue_state_log q = \<lparr>ql_id = queue_log_id (qr_enablement_version q), ql_queue = qr_name q, ql_timestamp = qr_enablement_changed_at q,
     ql_state = qr_enablement q, ql_version = qr_enablement_version q, ql_effective_from = qr_effective_from q\<rparr>"

definition int32_max :: int where "int32_max = 2147483647"

definition queue_summary_round :: "queue_log \<Rightarrow> unit option sop" where
  "queue_summary_round l = and_then (attempt queue_summary_get) (\<lambda>r. case r of
     Inl e \<Rightarrow> if \<not> is_not_found e then fail e
       else again_if is_already_exists (queue_summary_create \<lparr>qm_queue = ql_queue l, qm_state = ql_state l, qm_state_version = ql_version l,
         qm_effective_from = ql_effective_from l, qm_state_at = ql_timestamp l, qm_version = 1\<rparr>)
   | Inr s \<Rightarrow>
       if qm_queue s \<noteq> ql_queue l then fail (Wrapped ''summary belongs to another queue'' err_inconsistent_history)
       else if isl (validate_queue_summary s) then fail (Wrapped ''invalid summary'' err_inconsistent_history)
       else if ql_version l < qm_state_version s then ok (Some ())
       else if ql_version l = qm_state_version s
       then if queue_summary_snapshot s \<noteq> queue_log_snapshot l then fail (Wrapped ''log conflicts with summary'' err_inconsistent_history)
         else ok (Some ())
       else if qm_version s = int64_max then fail (Wrapped ''summary projection version exhausted'' err_inconsistent_history)
       else again_if is_version_mismatch (queue_summary_update (s\<lparr>qm_state := ql_state l, qm_state_version := ql_version l,
         qm_effective_from := ql_effective_from l, qm_state_at := ql_timestamp l\<rparr>) (qm_version s) (qm_version s + 1)))"

definition persist_queue_log :: "queue_log \<Rightarrow> unit sop" where
  "persist_queue_log l =
     and_then (of_sum (case validate_queue_log l of Inl e \<Rightarrow> Inl (Wrapped ''invalid log'' err_inconsistent_history) | Inr _ \<Rightarrow> Inr ())) (\<lambda>_.
     and_then (and_then (attempt (queue_log_create l)) (\<lambda>r. case r of
         Inr _ \<Rightarrow> ok l
       | Inl e \<Rightarrow> if \<not> is_already_exists e then fail (Wrapped ''retain queue log'' e)
           else and_then (map_err (Wrapped ''reconcile queue log'') (queue_log_get (ql_id l))) (\<lambda>retained.
             if retained \<noteq> l then fail (Wrapped ''log conflicts with retained log'' err_inconsistent_history) else ok retained))) (\<lambda>l.
     until_settled (queue_summary_round l)))"

definition load_version :: "string \<Rightarrow> int \<Rightarrow> queue_state sop" where
  "load_version q v = and_then (attempt (queue_log_get (queue_log_id v))) (\<lambda>r. case r of
     Inl e \<Rightarrow> if is_not_found e then fail (Wrapped ''missing log for state version'' err_inconsistent_history) else fail e
   | Inr l \<Rightarrow>
       if ql_queue l \<noteq> q \<or> ql_version l \<noteq> v then fail (Wrapped ''log belongs to another queue'' err_inconsistent_history)
       else if isl (validate_queue_log l) then fail (Wrapped ''invalid log'' err_inconsistent_history)
       else ok (queue_log_snapshot l))"

definition load_summary :: "string \<Rightarrow> queue_state sop" where
  "load_summary q = and_then queue_summary_get (\<lambda>s.
     if qm_queue s \<noteq> q then fail (Wrapped ''summary belongs to another queue'' err_inconsistent_history)
     else if isl (validate_queue_summary s) then fail (Wrapped ''invalid summary'' err_inconsistent_history)
     else and_then (load_version q (qm_state_version s)) (\<lambda>retained.
       if retained \<noteq> queue_summary_snapshot s then fail (Wrapped ''summary conflicts with retained history'' err_inconsistent_history)
       else ok (queue_summary_snapshot s)))"

section \<open>The enablement of a queue\<close>

text \<open>
  What lies outside the service, as answers that may depend on the whole world: source control, the
  build runner, the queue configuration, the resolver of project results, and the texts of a degree and
  of a fact's identity.
\<close>

record project_result =
  pj_name :: string
  pj_type :: string
  pj_degree :: degree

record stove_env =
  se_latest :: "stove \<Rightarrow> goerr + string"
  se_is_ancestor :: "string \<Rightarrow> string \<Rightarrow> stove \<Rightarrow> goerr + bool"
  se_promote :: "string \<Rightarrow> stove \<Rightarrow> goerr + unit"
  se_trigger :: "string \<Rightarrow> string \<Rightarrow> stove \<Rightarrow> goerr + string"
  se_status :: "string \<Rightarrow> stove \<Rightarrow> goerr + stove_build_status"
  se_config :: "string \<Rightarrow> stove \<Rightarrow> goerr + stove_config"
  se_results :: "validation \<Rightarrow> string \<Rightarrow> stove \<Rightarrow> goerr + project_result list"
  se_degree_text :: "degree \<Rightarrow> string"
  se_fact_identity :: "string \<Rightarrow> string \<Rightarrow> string"

definition ask_env :: "(stove \<Rightarrow> goerr + 'a) \<Rightarrow> 'a sop" where
  "ask_env f w = (f w, w)"

definition err_invalid_change :: goerr where
  "err_invalid_change = Plain ''invalid queue state change''"

record prepared_change =
  pc_previous :: queue_state
  pc_next :: queue_state

definition resolve_stores :: "string \<Rightarrow> unit sop" where
  "resolve_stores q = (if q = [] \<or> length q > 255 then fail (Wrapped ''invalid queue name'' err_invalid_change)
     else map_err (Wrapped ''resolve queue state storage'') (stove_storage_for q))"

definition repair_queue_read_models :: "queue_row \<Rightarrow> queue_state sop" where
  "repair_queue_read_models q =
     (if isl (validate_queue_state (enablement_state q)) then fail (Wrapped ''invalid internal enablement'' err_inconsistent_history)
      else and_then (persist_queue_log (new_queue_state_log q)) (\<lambda>_. ok (enablement_state q)))"

definition unregistered :: "queue_row \<Rightarrow> bool" where
  "unregistered q \<longleftrightarrow> qr_enablement_version q = 0 \<and> qr_enablement q = EnablementUnknown \<and> qr_effective_from q = [] \<and> qr_enablement_changed_at q = 0"

definition load_internal_queue :: "string \<Rightarrow> queue_row sop" where
  "load_internal_queue name = and_then (queue_get name) (\<lambda>q.
     if qr_name q \<noteq> name \<or> qr_version q \<le> 0 then fail (Wrapped ''invalid stored queue'' err_inconsistent_history)
     else if unregistered q then fail ErrNotFound
     else and_then (repair_queue_read_models q) (\<lambda>_. ok q))"

definition empty_queue_row :: "string \<Rightarrow> queue_row" where
  "empty_queue_row name = \<lparr>qr_name = name, qr_last_green_uri = [], qr_last_green_request = [], qr_in_flight = 0, qr_latest_request = [],
     qr_enablement = EnablementUnknown, qr_enablement_version = 0, qr_effective_from = [], qr_enablement_changed_at = 0, qr_version = 1\<rparr>"

text \<open>\<open>Initialize\<close>: the row to go on with, or none after a race.\<close>

definition initialize_round :: "string \<Rightarrow> queue_row option sop" where
  "initialize_round name = and_then (attempt (queue_get name)) (\<lambda>r.
     let register = (\<lambda>q write. and_then stove_now (\<lambda>now.
        let updated = q\<lparr>qr_enablement := Disabled, qr_enablement_version := 1, qr_enablement_changed_at := now\<rparr> in
        if isl (validate_queue_state (enablement_state updated)) then fail (Wrapped ''invalid enablement'' err_invalid_change)
        else write updated)) in
     case r of
       Inl e \<Rightarrow> if \<not> is_not_found e then fail e
         else register (empty_queue_row name) (\<lambda>updated. again_if is_already_exists (and_then (queue_create updated) (\<lambda>_. ok updated)))
     | Inr q \<Rightarrow>
         if qr_name q \<noteq> name \<or> qr_version q \<le> 0 then fail (Wrapped ''invalid stored queue'' err_inconsistent_history)
         else if \<not> unregistered q then ok (Some q)
         else register q (\<lambda>updated.
           if qr_version q = int32_max then fail (Wrapped ''row version exhausted'' err_invalid_change)
           else again_if is_version_mismatch (and_then (queue_update updated (qr_version q) (qr_version q + 1))
             (\<lambda>_. ok (updated\<lparr>qr_version := qr_version q + 1\<rparr>)))))"

definition initialize_enablement :: "string \<Rightarrow> queue_state sop" where
  "initialize_enablement name = and_then (resolve_stores name) (\<lambda>_. and_then (until_settled (initialize_round name)) repair_queue_read_models)"

definition includes_boundary :: "stove_env \<Rightarrow> string \<Rightarrow> string \<Rightarrow> unit sop" where
  "includes_boundary env old new =
     (if old = [] then ok ()
      else and_then (ask_env (se_is_ancestor env old new)) (\<lambda>forward.
        if forward then ok () else fail (Wrapped ''boundary does not include previous boundary'' err_invalid_change)))"

definition prepare_change :: "stove_env \<Rightarrow> string \<Rightarrow> enablement \<Rightarrow> string \<Rightarrow> prepared_change sop" where
  "prepare_change env name desired boundary =
     (if desired \<noteq> Enabled \<and> desired \<noteq> Disabled then fail (Wrapped ''unsupported enablement'' err_invalid_change)
      else and_then (resolve_stores name) (\<lambda>_.
      and_then (load_internal_queue name) (\<lambda>internal.
      let current = enablement_state internal in
      if qs_state current = desired then ok \<lparr>pc_previous = current, pc_next = current\<rparr>
      else if qs_version current = int64_max then fail (Wrapped ''enablement version exhausted'' err_invalid_change)
      else if boundary = [] \<or> length boundary > 255 then fail (Wrapped ''invalid boundary URI'' err_invalid_change)
      else and_then (includes_boundary env (qs_effective_from current) boundary) (\<lambda>_.
      and_then stove_now (\<lambda>now.
      if now \<le> 0 then fail (Wrapped ''invalid enablement timestamp'' err_invalid_change)
      else ok \<lparr>pc_previous = current, pc_next = current\<lparr>qs_state := desired, qs_effective_from := boundary, qs_changed_at := now\<rparr>\<rparr>)))))"

definition validate_prepared_boundary :: "stove_env \<Rightarrow> prepared_change \<Rightarrow> unit sop" where
  "validate_prepared_boundary env c =
     and_then (ask_env (se_latest env)) (\<lambda>tip.
     and_then (ask_env (se_is_ancestor env (qs_effective_from (pc_next c)) tip)) (\<lambda>belongs.
     if \<not> belongs then fail (Wrapped ''prepared boundary is not an ancestor of current tip'' err_invalid_change)
     else includes_boundary env (qs_effective_from (pc_previous c)) (qs_effective_from (pc_next c))))"

definition reconcile_change :: "queue_state \<Rightarrow> prepared_change \<Rightarrow> int \<Rightarrow> queue_state sop" where
  "reconcile_change current c v =
     (if qs_version current < v then fail err_version_mismatch
      else and_then (if v < qs_version current then load_version (qs_queue current) v else ok current) (\<lambda>applied.
        if applied\<lparr>qs_version := qs_version (pc_next c)\<rparr> \<noteq> pc_next c then fail err_version_mismatch else ok applied))"

definition apply_round :: "stove_env \<Rightarrow> prepared_change \<Rightarrow> queue_state option sop" where
  "apply_round env c =
     (let some = (\<lambda>m. and_then m (\<lambda>x. ok (Some x))); previous = pc_previous c; v = qs_version previous + 1 in
      and_then (load_internal_queue (qs_queue previous)) (\<lambda>internal.
      let current = enablement_state internal in
      if pc_next c = previous
      then if current = previous then ok (Some current)
        else some (and_then (load_version (qs_queue current) (qs_version previous)) (\<lambda>retained.
          if retained \<noteq> previous then fail err_version_mismatch else ok retained))
      else if qs_version previous = int64_max \<or> qr_version internal = int32_max then fail (Wrapped ''cannot advance enablement version'' err_invalid_change)
      else if qs_version current \<noteq> qs_version previous then some (reconcile_change current c v)
      else if current \<noteq> previous then fail err_version_mismatch
      else and_then (validate_prepared_boundary env c) (\<lambda>_.
      let updated = internal\<lparr>qr_enablement := qs_state (pc_next c), qr_enablement_version := v,
        qr_effective_from := qs_effective_from (pc_next c), qr_enablement_changed_at := qs_changed_at (pc_next c)\<rparr> in
      and_then (attempt (queue_update updated (qr_version internal) (qr_version internal + 1))) (\<lambda>r. case r of
        Inr _ \<Rightarrow> some (repair_queue_read_models (updated\<lparr>qr_version := qr_version internal + 1\<rparr>))
      | Inl e \<Rightarrow> and_then (map_err (\<lambda>e'. GroupedError [e, e']) (load_internal_queue (qs_queue current))) (\<lambda>observed.
          if enablement_state observed = previous \<and> is_version_mismatch e then ok None
          else some (map_err (\<lambda>e'. if is_version_mismatch e' then e else e') (reconcile_change (enablement_state observed) c v)))))))"

definition apply_change :: "stove_env \<Rightarrow> prepared_change \<Rightarrow> queue_state sop" where
  "apply_change env c =
     (if isl (validate_queue_state (pc_previous c)) then fail (Wrapped ''invalid prepared state'' err_invalid_change)
      else and_then (resolve_stores (qs_queue (pc_previous c))) (\<lambda>_. until_settled (apply_round env c)))"

end
