(* ===== verification/Stove.thy ===== *)
theory Stove
  imports StoveLogs
begin

text \<open>
  The stages of Stovepipe (\<open>stovepipe/controller\<close>): ingest, process, build, buildsignal, record and
  their dead-letter reconcilers.  A stage returns whether its delivery is acknowledged or held for a
  number of milliseconds.  Metrics and log lines are left out.
\<close>

datatype stove_outcome = Ack | Hold int

section \<open>Optimistic writes\<close>

text \<open>
  One try of a conditional write: keep the row as it is, refuse, or put a new one; none when another
  writer came first.  The value says whether the row was written.
\<close>

datatype 'r cas = Keep | Refuse goerr | Put 'r

definition try_validation :: "string \<Rightarrow> (validation \<Rightarrow> validation cas) \<Rightarrow> validation \<Rightarrow> (bool \<times> validation) option sop" where
  "try_validation what step r = (case step r of
     Keep \<Rightarrow> ok (Some (False, r))
   | Refuse e \<Rightarrow> fail e
   | Put new \<Rightarrow> and_then (attempt (validation_update new (va_version r) (va_version r + 1))) (\<lambda>u. case u of
       Inr _ \<Rightarrow> ok (Some (True, new\<lparr>va_version := va_version r + 1\<rparr>))
     | Inl e \<Rightarrow> if is_version_mismatch e then ok None else fail (Wrapped what e)))"

definition try_queue :: "string \<Rightarrow> (queue_row \<Rightarrow> queue_row cas) \<Rightarrow> queue_row \<Rightarrow> (bool \<times> queue_row) option sop" where
  "try_queue what step q = (case step q of
     Keep \<Rightarrow> ok (Some (False, q))
   | Refuse e \<Rightarrow> fail e
   | Put new \<Rightarrow> and_then (attempt (queue_update new (qr_version q) (qr_version q + 1))) (\<lambda>u. case u of
       Inr _ \<Rightarrow> ok (Some (True, new\<lparr>qr_version := qr_version q + 1\<rparr>))
     | Inl e \<Rightarrow> if is_version_mismatch e then ok None else fail (Wrapped what e)))"

definition reload_validation :: "string \<Rightarrow> string \<Rightarrow> (validation \<Rightarrow> validation cas) \<Rightarrow> string \<Rightarrow> (bool \<times> validation) option sop" where
  "reload_validation lost what step i =
     and_then (map_err (Wrapped lost) (validation_get i)) (try_validation what step)"

definition reload_queue :: "string \<Rightarrow> string \<Rightarrow> (queue_row \<Rightarrow> queue_row cas) \<Rightarrow> string \<Rightarrow> (bool \<times> queue_row) option sop" where
  "reload_queue lost what step name =
     and_then (map_err (Wrapped lost) (queue_get name)) (try_queue what step)"

text \<open>The loop of the code: try with the row at hand, and after a lost race with the row read again.\<close>

definition settle_validation :: "string \<Rightarrow> string \<Rightarrow> (validation \<Rightarrow> validation cas) \<Rightarrow> validation \<Rightarrow> (bool \<times> validation) sop" where
  "settle_validation lost what step r = and_then (try_validation what step r) (\<lambda>x. case x of
     Some y \<Rightarrow> ok y
   | None \<Rightarrow> until_settled (reload_validation lost what step (va_id r)))"

definition settle_queue :: "string \<Rightarrow> string \<Rightarrow> (queue_row \<Rightarrow> queue_row cas) \<Rightarrow> queue_row \<Rightarrow> (bool \<times> queue_row) sop" where
  "settle_queue lost what step q = and_then (try_queue what step q) (\<lambda>x. case x of
     Some y \<Rightarrow> ok y
   | None \<Rightarrow> until_settled (reload_queue lost what step (qr_name q)))"

section \<open>Shared steps\<close>

definition by_id :: "string \<Rightarrow> 'a sop \<Rightarrow> 'a sop" where
  "by_id name m = map_err (Wrapped (''failed to load '' @ name)) m"

text \<open>The opening of every stage: decode, check the identity, resolve the stores.\<close>

definition opened :: "stove_message \<Rightarrow> (string \<times> string) sop" where
  "opened msg = (case st_payload msg of
     ById i q \<Rightarrow>
       and_then (map_err (Wrapped ''invalid message identity'') (of_sum (validate_payload_queue (st_envelope msg) q))) (\<lambda>_.
       and_then (map_err (Wrapped ''failed to resolve storage for queue'') (stove_storage_for q)) (\<lambda>_. ok (i, q)))
   | _ \<Rightarrow> fail (Wrapped ''failed to deserialize'' (Plain ''malformed payload'')))"

definition same_queue :: "string \<Rightarrow> validation \<Rightarrow> unit sop" where
  "same_queue q r = (if q \<noteq> [] \<and> q \<noteq> va_queue r then fail (Plain ''payload queue does not match queue of request'') else ok ())"

definition persist_state_log :: "validation \<Rightarrow> outcome_reason \<Rightarrow> unit sop" where
  "persist_state_log r reason = map_err (Wrapped ''failed to record state for request'') (persist_request_log (new_request_state_log r reason))"

definition new_event :: "string \<Rightarrow> validation \<Rightarrow> int \<Rightarrow> hook_event" where
  "new_event t r now = \<lparr>he_id = strings_join ''/'' [''stovepipe'', t, va_id r, ''0''], he_source = ''stovepipe'', he_type = t,
     he_timestamp = now, he_queue = va_queue r, he_request = va_id r\<rparr>"

definition publish_hook_event :: "string \<Rightarrow> validation \<Rightarrow> unit sop" where
  "publish_hook_event t r = and_then stove_now (\<lambda>now.
     let e = new_event t r now in
     map_err (Wrapped ''failed to announce'') (map_err (Wrapped ''failed to publish hook event'')
       (stove_publish TopicHook (va_queue r) (intent_id (he_id e) []) (va_id r) (HookPayload e))))"

abbreviation repository_started :: string where "repository_started \<equiv> ''validation.repository.started''"
abbreviation repository_recorded :: string where "repository_recorded \<equiv> ''validation.repository.recorded''"
abbreviation repository_cancelled :: string where "repository_cancelled \<equiv> ''validation.repository.cancelled''"

section \<open>Ingest\<close>

record ingest_request =
  ig_queue :: string
  ig_has_enablement :: bool
  ig_enablement :: enablement

definition source_not_found :: goerr where
  "source_not_found = Plain ''source control reference not found''"

definition ingest_invalid :: goerr where
  "ingest_invalid = new_user_error (Plain ''invalid request'')"

definition mint_counter :: "stove_db \<Rightarrow> (goerr + int) \<times> stove_db" where
  "mint_counter d = (let v = s_counter d + 1; d' = d\<lparr>s_counter := v\<rparr> in
     if v \<le> 0 then (Inl (Plain ''counter returned non-positive value''), d') else (Inr v, d'))"

definition resolve_id :: "string \<Rightarrow> string sop" where
  "resolve_id u = and_then (attempt (get_id_by_uri u)) (\<lambda>r. case r of
     Inr i \<Rightarrow> ok i
   | Inl e \<Rightarrow> if \<not> is_not_found e then fail (Wrapped ''failed to look up existing request for queue'' e)
       else
       and_then (map_err (Wrapped ''failed to generate request ID for queue'') (db_op mint_counter)) (\<lambda>n.
       and_then (map_err (Wrapped ''generated invalid request ID for queue'') (of_sum (from_counter n))) (\<lambda>i.
       and_then (attempt (request_uri_create u i)) (\<lambda>c. case c of
         Inr _ \<Rightarrow> ok i
       | Inl e \<Rightarrow> if is_already_exists e then map_err (Wrapped ''failed to resolve raced request for queue'') (get_id_by_uri u)
           else fail (Wrapped ''failed to map URI for queue'' e)))))"

definition ensure_request :: "string \<Rightarrow> string \<Rightarrow> string \<Rightarrow> validation sop" where
  "ensure_request i q u = and_then (attempt (validation_get i)) (\<lambda>r. case r of
     Inr got \<Rightarrow> ok got
   | Inl e \<Rightarrow> if \<not> is_not_found e then fail (Wrapped ''failed to load request'' e)
       else let request = \<lparr>va_id = i, va_queue = q, va_uri = u, va_strategy = StrategyUnknown, va_base = [], va_state = StoveAccepted,
           va_build = [], va_terminal_build = [], va_version = 1\<rparr> in
         and_then (attempt (validation_create request)) (\<lambda>c. case c of
           Inr _ \<Rightarrow> ok request
         | Inl e \<Rightarrow> if \<not> is_already_exists e then fail (Wrapped ''failed to persist request'' e) else validation_get i))"

definition ensure_queue :: "string \<Rightarrow> queue_row sop" where
  "ensure_queue name = and_then (attempt (queue_get name)) (\<lambda>r. case r of
     Inr got \<Rightarrow> ok got
   | Inl e \<Rightarrow> if \<not> is_not_found e then fail (Wrapped ''failed to load queue'' e)
       else and_then (attempt (queue_create (empty_queue_row name))) (\<lambda>c. case c of
           Inr _ \<Rightarrow> ok (empty_queue_row name)
         | Inl e \<Rightarrow> if \<not> is_already_exists e then fail (Wrapped ''failed to persist queue'' e) else queue_get name))"

definition newer_latest :: "string \<Rightarrow> queue_row \<Rightarrow> queue_row cas" where
  "newer_latest i q =
     (if qr_latest_request q = [] then Put (q\<lparr>qr_latest_request := i\<rparr>)
      else case compare_ids i (qr_latest_request q) of
        Inl e \<Rightarrow> Refuse (Wrapped ''failed to compare request ids for queue'' e)
      | Inr c \<Rightarrow> if c \<le> 0 then Keep else Put (q\<lparr>qr_latest_request := i\<rparr>))"

definition advance_round :: "string \<Rightarrow> string \<Rightarrow> (bool \<times> queue_row) option sop" where
  "advance_round name i = and_then (ensure_queue name) (try_queue ''failed to update queue latest_request_id'' (newer_latest i))"

definition advance_queue_latest_request_id :: "string \<Rightarrow> string \<Rightarrow> unit sop" where
  "advance_queue_latest_request_id name i = and_then (until_settled (advance_round name i)) (\<lambda>_. ok ())"

definition publish_process :: "string \<Rightarrow> string \<Rightarrow> unit sop" where
  "publish_process i q = map_err (Wrapped ''failed to publish process request'') (stove_publish TopicProcess q (intent_id i []) q (ById i q))"

definition decision_round :: "stove_env \<Rightarrow> string \<Rightarrow> enablement \<Rightarrow> string \<Rightarrow> queue_state option sop" where
  "decision_round env name desired u = and_then (prepare_change env name desired u) (\<lambda>c. again_if is_version_mismatch (apply_change env c))"

definition apply_enablement_decision :: "stove_env \<Rightarrow> string \<Rightarrow> enablement \<Rightarrow> string \<Rightarrow> queue_state sop" where
  "apply_enablement_decision env name desired u = until_settled (decision_round env name desired u)"

definition ingest :: "stove_env \<Rightarrow> string set \<Rightarrow> ingest_request \<Rightarrow> (string \<times> queue_state) sop" where
  "ingest env configured rq =
     (let q = ig_queue rq in
      if q = [] then fail (Wrapped ''requires the request to have a queue name specified'' ingest_invalid)
      else if q \<notin> configured then fail (Wrapped ''queue is not configured'' ingest_invalid)
      else
      and_then (map_err (Wrapped ''failed to resolve storage for queue'') (stove_storage_for q)) (\<lambda>_.
      and_then (map_err (\<lambda>e. if errors_is e source_not_found then GroupedError [e, ingest_invalid] else Wrapped ''failed to resolve head for queue'' e)
        (ask_env (se_latest env))) (\<lambda>u.
      if ig_has_enablement rq \<and> ig_enablement rq \<noteq> Enabled \<and> ig_enablement rq \<noteq> Disabled
      then fail (Wrapped ''unsupported enablement'' err_invalid_change)
      else
      and_then (map_err (Wrapped ''resolve enablement for queue'') (and_then (initialize_enablement q) (\<lambda>state.
        if ig_has_enablement rq then apply_enablement_decision env q (ig_enablement rq) u else ok state))) (\<lambda>state.
      and_then (resolve_id u) (\<lambda>i.
      and_then (ensure_request i q u) (\<lambda>request.
      and_then (if va_state request = StoveAccepted then persist_state_log request ReasonUnknown else ok ()) (\<lambda>_.
      and_then (advance_queue_latest_request_id q i) (\<lambda>_.
      and_then (if va_state request = StoveAccepted then map_err (Wrapped ''failed to publish request to process'') (publish_process i q) else ok ())
        (\<lambda>_. ok (i, state))))))))))"

section \<open>Process\<close>

definition publish_build :: "string \<Rightarrow> string \<Rightarrow> unit sop" where
  "publish_build i q = map_err (Wrapped ''failed to publish build request'') (stove_publish TopicBuild q (intent_id i []) i (ById i q))"

definition publish_issue_tracking :: "validation \<Rightarrow> unit sop" where
  "publish_issue_tracking r = map_err (Wrapped ''register issue tracking for request'')
     (stove_publish TopicIssueTrack (va_queue r) (intent_id (va_id r) [''issues'']) (va_queue r) (ById (va_id r) (va_queue r)))"

definition derive_build_strategy :: "stove_env \<Rightarrow> queue_row \<Rightarrow> validation \<Rightarrow> (build_strategy \<times> string) sop" where
  "derive_build_strategy env q r =
     (if qr_last_green_uri q = [] then ok (StrategyFull, [])
      else and_then (attempt (ask_env (se_is_ancestor env (qr_last_green_uri q) (va_uri r)))) (\<lambda>a. case a of
        Inl e \<Rightarrow> if errors_is e source_not_found then ok (StrategyFull, []) else fail (Wrapped ''failed to check ancestry for queue'' e)
      | Inr True \<Rightarrow> ok (StrategyIncrementalSinceGreen, qr_last_green_uri q)
      | Inr False \<Rightarrow> ok (StrategyFull, [])))"

definition admit_step :: "build_strategy \<Rightarrow> string \<Rightarrow> validation \<Rightarrow> validation cas" where
  "admit_step strategy base r =
     (if va_state r \<noteq> StoveAccepted then Keep
      else Put (r\<lparr>va_state := StoveProcessing, va_strategy := strategy, va_base := base\<rparr>))"

definition mark_processing :: "build_strategy \<Rightarrow> string \<Rightarrow> validation \<Rightarrow> (bool \<times> validation) sop" where
  "mark_processing strategy base r =
     settle_validation ''failed to reload request after version mismatch'' ''failed to mark request processing'' (admit_step strategy base) r"

definition supersede_step :: "validation \<Rightarrow> validation cas" where
  "supersede_step r = (if va_state r \<noteq> StoveAccepted then Keep else Put (r\<lparr>va_state := StoveSuperseded\<rparr>))"

definition supersede_request :: "validation \<Rightarrow> validation sop" where
  "supersede_request r =
     and_then (settle_validation ''failed to reload request after version mismatch'' ''failed to supersede request'' supersede_step r) (\<lambda>(_, r'). ok r')"

definition claim_build_slot :: "queue_row \<Rightarrow> unit sop" where
  "claim_build_slot q =
     and_then (settle_queue ''failed to reload queue after version mismatch'' ''failed to claim build slot for queue''
       (\<lambda>q. Put (q\<lparr>qr_in_flight := qr_in_flight q + 1\<rparr>)) q) (\<lambda>_. ok ())"

definition hold_for_build_slot :: "int \<Rightarrow> stove_outcome sop" where
  "hold_for_build_slot delay = (if delay \<le> 0 then fail (Plain ''requires a positive gate wait delay for queue'') else ok (Hold delay))"

definition coalesce :: "validation \<Rightarrow> string \<Rightarrow> bool sop" where
  "coalesce r latest = (case compare_ids (va_id r) latest of
     Inl e \<Rightarrow> fail (Wrapped ''failed to compare request ids for queue'' e)
   | Inr c \<Rightarrow>
       if c \<ge> 0 then ok False
       else and_then (supersede_request r) (\<lambda>r'.
         if va_state r' \<noteq> StoveSuperseded then ok True
         else and_then (persist_state_log r' ReasonSupersededByNewerHead) (\<lambda>_. ok True)))"

definition start_build :: "validation \<Rightarrow> unit sop" where
  "start_build r =
     and_then (persist_state_log r ReasonUnknown) (\<lambda>_.
     and_then (publish_hook_event repository_started r) (\<lambda>_.
     map_err (Wrapped ''failed to publish request to build'') (publish_build (va_id r) (va_queue r))))"

definition admit_latest_head :: "stove_env \<Rightarrow> validation \<Rightarrow> queue_row \<Rightarrow> stove_config \<Rightarrow> stove_outcome sop" where
  "admit_latest_head env r q cfg =
     (if qr_in_flight q \<ge> sv_max_concurrent cfg then hold_for_build_slot (sv_gate_wait_delay_ms cfg)
      else
      and_then (derive_build_strategy env q r) (\<lambda>(strategy, base).
      and_then (publish_issue_tracking r) (\<lambda>_.
      if qr_version q = int32_max then fail (Plain ''queue version exhausted'')
      else
      and_then (attempt (queue_update q (qr_version q) (qr_version q + 1))) (\<lambda>u. case u of
        Inl e \<Rightarrow> if is_version_mismatch e then ok (Hold 0) else fail (Wrapped ''confirm tracking registration before admission'' e)
      | Inr _ \<Rightarrow>
          and_then (mark_processing strategy base r) (\<lambda>(transitioned, r').
          if \<not> transitioned then ok Ack
          else
          and_then (claim_build_slot (q\<lparr>qr_version := qr_version q + 1\<rparr>)) (\<lambda>_.
          and_then (start_build r') (\<lambda>_. ok Ack)))))))"

definition process_accepted :: "stove_env \<Rightarrow> validation \<Rightarrow> stove_outcome sop" where
  "process_accepted env r =
     and_then (by_id ''queue'' (queue_get (va_queue r))) (\<lambda>q.
     if qr_latest_request q = [] then ok Ack
     else
     and_then (coalesce r (qr_latest_request q)) (\<lambda>superseded.
     if superseded then ok Ack
     else
     and_then (map_err (Wrapped ''failed to load queue config'') (ask_env (se_config env (va_queue r)))) (\<lambda>cfg.
     admit_latest_head env r q cfg)))"

definition stove_process :: "stove_env \<Rightarrow> stove_message \<Rightarrow> stove_outcome sop" where
  "stove_process env msg =
     and_then (opened msg) (\<lambda>(i, q).
     and_then (by_id ''request'' (validation_get i)) (\<lambda>r.
     and_then (same_queue q r) (\<lambda>_.
     case va_state r of
       StoveProcessing \<Rightarrow> and_then (start_build r) (\<lambda>_. ok Ack)
     | StoveSuperseded \<Rightarrow> and_then (persist_state_log r ReasonSupersededByNewerHead) (\<lambda>_. ok Ack)
     | StoveAccepted \<Rightarrow> process_accepted env r
     | _ \<Rightarrow> ok Ack)))"

end
