(* ===== verification/StoveBuild.thy ===== *)
theory StoveBuild
  imports Stove
begin

text \<open>
  Stovepipe from the build on: build, buildsignal, record and the dead-letter reconcilers of the four
  stages (\<open>stovepipe/controller/{build,buildsignal,record,dlq}\<close>).
\<close>

section \<open>Build\<close>

definition associate_step :: "string \<Rightarrow> validation \<Rightarrow> validation cas" where
  "associate_step b r =
     (if va_build r \<noteq> [] then Keep
      else if va_version r = int32_max then Refuse (Plain ''request version exhausted'')
      else Put (r\<lparr>va_build := b\<rparr>))"

definition associate_build :: "string \<Rightarrow> validation \<Rightarrow> validation sop" where
  "associate_build b r =
     and_then (settle_validation ''failed to load request'' ''associate build with request'' (associate_step b) r) (\<lambda>(_, r'). ok r')"

definition stove_publish_signal :: "string \<Rightarrow> string \<Rightarrow> unit sop" where
  "stove_publish_signal b q = stove_publish TopicBuildSignal q (intent_id b []) b (ById b q)"

definition publish_build_analysis :: "string \<Rightarrow> string \<Rightarrow> string \<Rightarrow> unit sop" where
  "publish_build_analysis cause b q = map_err (Wrapped ''failed to publish build analysis'')
     (stove_publish TopicBuildAnalysis q (intent_id b [cause]) b (ById b q))"

definition error_of :: "goerr + 'a \<Rightarrow> goerr option" where
  "error_of r = (case r of Inl e \<Rightarrow> Some e | Inr _ \<Rightarrow> None)"

text \<open>\<open>errs.Group\<close> over two publishes that are both attempted.\<close>

definition both :: "unit sop \<Rightarrow> unit sop \<Rightarrow> unit sop" where
  "both m n = and_then (attempt m) (\<lambda>r. and_then (attempt n) (\<lambda>s. case group [error_of r, error_of s] of
     Some e \<Rightarrow> fail e | None \<Rightarrow> ok ()))"

definition persist_build_log :: "stove_event \<Rightarrow> validation \<Rightarrow> string \<Rightarrow> unit sop" where
  "persist_build_log event r b = map_err (Wrapped ''failed to record build for request'')
     (persist_request_log (stove_event_log r event b [(''build_id'', b)]))"

definition trigger_build :: "stove_env \<Rightarrow> string \<Rightarrow> string \<Rightarrow> string sop" where
  "trigger_build env base u w = (case se_trigger env base u w of
     Inl e \<Rightarrow> (Inl (Wrapped ''failed to trigger build for request'' e), w)
   | Inr b \<Rightarrow> (Inr b, w\<lparr>s_effects := s_effects w @ [Triggered_build base u]\<rparr>))"

definition create_build :: "stove_env \<Rightarrow> string \<Rightarrow> validation \<Rightarrow> validation sop" where
  "create_build env base r =
     and_then (trigger_build env base (va_uri r)) (\<lambda>b.
     and_then (attempt (stove_build_create \<lparr>sb_id = b, sb_request = va_id r, sb_status = RunAccepted, sb_version = 1\<rparr>)) (\<lambda>c. case c of
       Inr _ \<Rightarrow> associate_build b r
     | Inl e \<Rightarrow> if is_already_exists e
         then and_then (by_id ''existing build'' (stove_build_get b)) (\<lambda>retained.
           if sb_request retained \<noteq> va_id r then fail (Plain ''build belongs to another request'') else associate_build b r)
         else fail (Wrapped ''failed to persist build'' e)))"

definition stove_build_process :: "stove_env \<Rightarrow> stove_message \<Rightarrow> stove_outcome sop" where
  "stove_build_process env msg =
     and_then (opened msg) (\<lambda>(i, q).
     and_then (by_id ''request'' (validation_get i)) (\<lambda>r.
     and_then (same_queue q r) (\<lambda>_.
     if stove_terminal (va_state r) then ok Ack
     else if va_strategy r = StrategyUnknown then fail (new_retryable_error (Plain ''request has no build strategy yet''))
     else
     let base = (if va_strategy r = StrategyIncrementalSinceGreen then va_base r else []) in
     and_then (if va_build r = [] then create_build env base r else ok r) (\<lambda>r'.
     and_then (persist_build_log BuildTriggered r' (va_build r')) (\<lambda>_.
     and_then (both (map_err (Wrapped ''failed to publish build signal'') (stove_publish_signal (va_build r') (va_queue r')))
         (publish_build_analysis ''started'' (va_build r') (va_queue r')))
       (\<lambda>_. ok Ack))))))"

section \<open>Buildsignal\<close>

definition poll_delay_running_ms :: int where "poll_delay_running_ms = 2000"
definition poll_delay_accepted_ms :: int where "poll_delay_accepted_ms = 5000"

definition stove_poll_delay :: "stove_build_status \<Rightarrow> int" where
  "stove_poll_delay s = (if s = RunRunning then poll_delay_running_ms else poll_delay_accepted_ms)"

definition stove_reconcile :: "stove_build \<Rightarrow> stove_build_status \<Rightarrow> stove_build_status sop" where
  "stove_reconcile b status =
     (if status = sb_status b then ok (sb_status b)
      else if run_terminal (sb_status b) then ok (sb_status b)
      else and_then (map_err (Wrapped ''failed to persist status for build'')
        (stove_build_update (b\<lparr>sb_status := status\<rparr>) (sb_version b) (sb_version b + 1))) (\<lambda>_. ok status))"

definition build_outcome_state :: "stove_build_status \<Rightarrow> stove_state" where
  "build_outcome_state s = (case s of RunSucceeded \<Rightarrow> StoveSucceeded | RunCancelled \<Rightarrow> StoveCancelled | _ \<Rightarrow> StoveFailed)"

definition release_step :: "queue_row \<Rightarrow> queue_row cas" where
  "release_step q = (if qr_in_flight q \<le> 0 then Keep else Put (q\<lparr>qr_in_flight := qr_in_flight q - 1\<rparr>))"

definition release_build_slot :: "string \<Rightarrow> unit sop" where
  "release_build_slot name =
     and_then (until_settled (reload_queue ''failed to load queue to release build slot'' ''failed to release build slot for queue'' release_step name))
       (\<lambda>_. ok ())"

definition outcome_step :: "string \<Rightarrow> stove_state \<Rightarrow> validation \<Rightarrow> validation cas" where
  "outcome_step b s r =
     (if va_state r \<noteq> StoveProcessing then Keep else Put (r\<lparr>va_state := s, va_terminal_build := b\<rparr>))"

definition mark_outcome :: "string \<Rightarrow> stove_state \<Rightarrow> validation \<Rightarrow> validation sop" where
  "mark_outcome b s r =
     and_then (settle_validation ''failed to reload request after version mismatch'' ''failed to mark request'' (outcome_step b s) r) (\<lambda>(_, r'). ok r')"

definition finish_request :: "validation \<Rightarrow> string \<Rightarrow> stove_build_status \<Rightarrow> validation sop" where
  "finish_request r b status =
     (if has_build_outcome (va_state r) then ok r
      else and_then (release_build_slot (va_queue r)) (\<lambda>_. mark_outcome b (build_outcome_state status) r))"

definition compare_to_bookmark :: "string \<Rightarrow> string \<Rightarrow> goerr + int" where
  "compare_to_bookmark candidate current =
     (if current = [] then Inr 1
      else case compare_ids candidate current of Inl e \<Rightarrow> Inl (Wrapped ''failed to compare request ids for queue'' e) | Inr c \<Rightarrow> Inr c)"

definition green_step :: "validation \<Rightarrow> queue_row \<Rightarrow> queue_row cas" where
  "green_step r q = (case compare_to_bookmark (va_id r) (qr_last_green_request q) of
     Inl e \<Rightarrow> Refuse e
   | Inr c \<Rightarrow> if c \<le> 0 then Keep else Put (q\<lparr>qr_last_green_uri := va_uri r, qr_last_green_request := va_id r\<rparr>))"

definition advance_last_green :: "validation \<Rightarrow> unit sop" where
  "advance_last_green r =
     and_then (until_settled (reload_queue ''failed to load queue to advance last green'' ''failed to advance last green for queue'' (green_step r) (va_queue r)))
       (\<lambda>_. ok ())"

definition persist_outcome_log :: "validation \<Rightarrow> unit sop" where
  "persist_outcome_log r =
     (let record = (\<lambda>reason. let l = new_request_state_log r reason in
        map_err (Wrapped ''failed to record state for request'') (persist_request_log
          (if va_terminal_build r \<noteq> [] then l\<lparr>sl_metadata := (''build_id'', va_terminal_build r) # sl_metadata l\<rparr> else l))) in
      case va_state r of
        StoveSucceeded \<Rightarrow> record ReasonBuildSucceeded
      | StoveFailed \<Rightarrow> record ReasonBuildFailed
      | StoveCancelled \<Rightarrow> record ReasonBuildCancelled
      | _ \<Rightarrow> fail (Plain ''request has no build outcome to record''))"

definition publish_record :: "string \<Rightarrow> string \<Rightarrow> unit sop" where
  "publish_record i q = stove_publish TopicRecord q (intent_id i []) i (ById i q)"

definition conclude_build :: "validation \<Rightarrow> string \<Rightarrow> stove_build_status \<Rightarrow> unit sop" where
  "conclude_build r b status =
     and_then (persist_build_log BuildFinished r b) (\<lambda>_.
     and_then (finish_request r b status) (\<lambda>r'.
     and_then (if va_state r' = StoveSucceeded then advance_last_green r' else ok ()) (\<lambda>_.
     and_then (persist_outcome_log r') (\<lambda>_.
     both (map_err (Wrapped ''failed to publish record for request'') (publish_record (va_id r') (va_queue r')))
       (publish_build_analysis ''finished'' b (va_queue r'))))))"

definition stove_signal_process :: "stove_env \<Rightarrow> stove_message \<Rightarrow> stove_outcome sop" where
  "stove_signal_process env msg =
     and_then (opened msg) (\<lambda>(i, q).
     and_then (by_id ''build'' (stove_build_get i)) (\<lambda>b.
     and_then (by_id ''request'' (validation_get (sb_request b))) (\<lambda>r.
     and_then (same_queue q r) (\<lambda>_.
     if va_state r \<noteq> StoveProcessing \<and> \<not> has_build_outcome (va_state r) then ok Ack
     else
     and_then (map_err (Wrapped ''failed to poll status for build'') (ask_env (se_status env (sb_id b)))) (\<lambda>status.
     and_then (stove_reconcile b status) (\<lambda>effective.
     if run_terminal effective
     then and_then (conclude_build r (sb_id b) effective) (\<lambda>_. ok Ack)
     else ok (Hold (stove_poll_delay effective))))))))"

section \<open>Record\<close>

definition record_validation_fact :: "validation_fact \<Rightarrow> (validation_fact \<times> bool) sop" where
  "record_validation_fact f = and_then (attempt (fact_create f)) (\<lambda>c. case c of
     Inr _ \<Rightarrow> ok (f, True)
   | Inl e \<Rightarrow> if is_already_exists e
       then and_then (map_err (Wrapped ''failed to load the existing fact'') (fact_get (vf_uri f) (vf_project f))) (\<lambda>stored.
         if vf_request stored \<noteq> vf_request f then fail (Plain ''fact is owned by another request'') else ok (stored, False))
       else fail (Wrapped ''failed to create the fact'' e))"

definition degree_for :: "stove_state \<Rightarrow> project_result list \<Rightarrow> degree" where
  "degree_for s results = (if s = StoveSucceeded then degree_green else if results \<noteq> [] then degree_partial else degree_broken)"

definition record_fact :: "validation \<Rightarrow> project_result list \<Rightarrow> (validation_fact \<times> bool) sop" where
  "record_fact r results = and_then stove_now (\<lambda>now. record_validation_fact
     \<lparr>vf_uri = va_uri r, vf_project = [], vf_project_type = [], vf_degree = degree_for (va_state r) results, vf_request = va_id r, vf_created_at = now\<rparr>)"

definition persist_fact_log :: "stove_env \<Rightarrow> validation \<Rightarrow> validation_fact \<Rightarrow> unit sop" where
  "persist_fact_log env r f = map_err (Wrapped ''failed to record validation fact for request'')
     (persist_request_log ((stove_event_log r ValidationFactRecorded (se_fact_identity env (vf_uri f) (vf_project f))
        [(''fact_degree'', se_degree_text env (vf_degree f))])\<lparr>sl_timestamp := vf_created_at f\<rparr>))"

fun validate_results :: "project_result list \<Rightarrow> string list \<Rightarrow> goerr + unit" where
  "validate_results [] seen = Inr ()"
| "validate_results (p # ps) seen =
     (if pj_name p = [] then Inl (Plain ''project status result has an empty project'')
      else if pj_name p \<in> set seen then Inl (Plain ''project status result contains duplicate project'')
      else if \<not> valid_degree (pj_degree p) then Inl (Plain ''project status result has invalid degree'')
      else validate_results ps (pj_name p # seen))"

definition resolve_project_results :: "stove_env \<Rightarrow> validation \<Rightarrow> project_result list sop" where
  "resolve_project_results env r =
     and_then (map_err (Wrapped ''resolve project status results for request'') (ask_env (se_results env r (va_terminal_build r)))) (\<lambda>results.
     and_then (of_sum (validate_results results [])) (\<lambda>_. ok results))"

definition persist_project_fact :: "validation \<Rightarrow> project_result \<Rightarrow> nat \<Rightarrow> nat sop" where
  "persist_project_fact r p broken =
     and_then stove_now (\<lambda>now.
     and_then (record_validation_fact \<lparr>vf_uri = va_uri r, vf_project = pj_name p, vf_project_type = pj_type p, vf_degree = pj_degree p,
         vf_request = va_id r, vf_created_at = now\<rparr>) (\<lambda>(f, _).
     and_then (of_sum (new_project_fact_by_degree f)) (\<lambda>entry.
     and_then (attempt (by_degree_create entry)) (\<lambda>c.
     let broken' = (if fact_is_green f then broken else Suc broken) in
     case c of
       Inl e \<Rightarrow> if is_already_exists e then ok broken' else fail (Wrapped ''failed to index project fact'' e)
     | Inr _ \<Rightarrow> ok broken'))))"

definition persist_project_facts :: "validation \<Rightarrow> project_result list \<Rightarrow> unit sop" where
  "persist_project_facts r results =
     and_then (fold_act (persist_project_fact r) results 0) (\<lambda>broken.
     map_err (Wrapped ''failed to record project facts for request'') (persist_request_log
       (stove_event_log r ProjectFactsRecorded ''all''
         [(''project_fact_count'', dec (length results)), (''broken_project_fact_count'', dec broken)])))"

definition promote :: "stove_env \<Rightarrow> validation \<Rightarrow> unit sop" where
  "promote env r w = (case se_promote env (va_uri r) w of
     Inl e \<Rightarrow> if errors_is e source_not_found then (Inr (), w) else (Inl (Wrapped ''failed to promote uri'' e), w)
   | Inr _ \<Rightarrow> (Inr (), w\<lparr>s_effects := s_effects w @ [Promoted (va_uri r)]\<rparr>))"

definition apply_fact_to_derived_caches :: "stove_env \<Rightarrow> validation \<Rightarrow> validation_fact \<Rightarrow> unit sop" where
  "apply_fact_to_derived_caches env r f =
     (if \<not> fact_is_green f then ok ()
      else and_then (queue_get (va_queue r)) (\<lambda>q.
      and_then (if qr_last_green_request q \<noteq> [] then and_then (of_sum (compare_ids (va_id r) (qr_last_green_request q))) (\<lambda>_. ok ()) else ok ()) (\<lambda>_.
      if qr_last_green_request q \<noteq> va_id r \<or> qr_last_green_uri q \<noteq> va_uri r then ok ()
      else promote env r)))"

definition stove_record_process :: "stove_env \<Rightarrow> stove_message \<Rightarrow> stove_outcome sop" where
  "stove_record_process env msg =
     and_then (opened msg) (\<lambda>(i, q).
     and_then (by_id ''request'' (validation_get i)) (\<lambda>r.
     and_then (same_queue q r) (\<lambda>_.
     if va_state r \<in> {StoveSucceeded, StoveFailed}
     then
       and_then (resolve_project_results env r) (\<lambda>results.
       and_then (record_fact r results) (\<lambda>(f, _).
       and_then (persist_fact_log env r f) (\<lambda>_.
       and_then (persist_project_facts r results) (\<lambda>_.
       and_then (apply_fact_to_derived_caches env r f) (\<lambda>_.
       and_then (publish_hook_event repository_recorded r) (\<lambda>_. ok Ack))))))
     else if va_state r = StoveCancelled then and_then (publish_hook_event repository_cancelled r) (\<lambda>_. ok Ack)
     else if va_state r = StoveSuperseded then ok Ack
     else fail (Plain ''request reached record in non-terminal state''))))"

section \<open>Dead letters\<close>

definition release_slot :: "string \<Rightarrow> unit sop" where
  "release_slot name =
     and_then (until_settled (and_then (attempt (queue_get name)) (\<lambda>g. case g of
         Inl e \<Rightarrow> if is_not_found e then ok (Some ()) else fail (Wrapped ''failed to get queue'' e)
       | Inr q \<Rightarrow> and_then (try_queue ''failed to release slot for queue'' release_step q) (\<lambda>x. ok (map_option (\<lambda>_. ()) x)))))
       (\<lambda>_. ok ())"

definition persist_failure_log :: "validation \<Rightarrow> outcome_reason \<Rightarrow> unit sop" where
  "persist_failure_log r reason = map_err (Wrapped ''failed to record failed state for request'') (persist_request_log (new_request_state_log r reason))"

definition stove_fail_request :: "string \<Rightarrow> outcome_reason \<Rightarrow> unit sop" where
  "stove_fail_request i reason = and_then (attempt (validation_get i)) (\<lambda>g. case g of
     Inl e \<Rightarrow> if is_not_found e then ok () else fail (Wrapped ''failed to get request'' e)
   | Inr r \<Rightarrow>
       if stove_terminal (va_state r) then if va_state r = StoveFailed then persist_failure_log r reason else ok ()
       else
       and_then (if va_state r = StoveProcessing then map_err (Wrapped ''failed to release queue slot for request'') (release_slot (va_queue r)) else ok ()) (\<lambda>_.
       let updated = r\<lparr>va_state := StoveFailed\<rparr> in
       and_then (map_err (Wrapped ''failed to update request state to failed'') (validation_update updated (va_version r) (va_version r + 1))) (\<lambda>_.
       persist_failure_log (updated\<lparr>va_version := va_version r + 1\<rparr>) reason)))"

text \<open>The opening of the reconcilers: a wrong identity is acknowledged, the rest retried.\<close>

definition dlq_opened :: "stove_message \<Rightarrow> (string \<times> string) option sop" where
  "dlq_opened msg = (case st_payload msg of
     ById i q \<Rightarrow>
       if isl (validate_payload_queue (st_envelope msg) q) then ok None
       else if i = [] then fail (Plain ''dlq payload decoded to empty id'')
       else and_then (map_err (Wrapped ''failed to resolve storage for queue'') (stove_storage_for q)) (\<lambda>_. ok (Some (i, q)))
   | _ \<Rightarrow> fail (Wrapped ''failed to decode dlq payload'' (Plain ''malformed payload'')))"

definition stove_dlq_request :: "stove_message \<Rightarrow> unit sop" where
  "stove_dlq_request msg = and_then (dlq_opened msg) (\<lambda>opt. case opt of None \<Rightarrow> ok () | Some (i, _) \<Rightarrow> stove_fail_request i ReasonProcessingFailed)"

definition stove_dlq_build :: "stove_message \<Rightarrow> unit sop" where
  "stove_dlq_build msg = and_then (dlq_opened msg) (\<lambda>opt. case opt of None \<Rightarrow> ok () | Some (i, _) \<Rightarrow> stove_fail_request i ReasonProcessingFailed)"

definition stove_dlq_signal :: "stove_message \<Rightarrow> unit sop" where
  "stove_dlq_signal msg = and_then (dlq_opened msg) (\<lambda>opt. case opt of
     None \<Rightarrow> ok ()
   | Some (i, _) \<Rightarrow> and_then (attempt (stove_build_get i)) (\<lambda>g. case g of
       Inl e \<Rightarrow> if is_not_found e then ok () else fail (Wrapped ''failed to get build'' e)
     | Inr b \<Rightarrow> if sb_request b = [] then ok () else stove_fail_request (sb_request b) ReasonBuildPollingExhausted))"

definition stove_dlq_record :: "stove_env \<Rightarrow> stove_message \<Rightarrow> unit sop" where
  "stove_dlq_record env msg = (case st_payload msg of
     ById i q \<Rightarrow>
       if isl (validate_payload_queue (st_envelope msg) q) \<or> i = [] then ok ()
       else and_then (attempt (stove_storage_for q)) (\<lambda>s. if isl s then ok ()
       else and_then (attempt (validation_get i)) (\<lambda>g. case g of
         Inl e \<Rightarrow> if is_not_found e then ok () else fail (Wrapped ''failed to load request for record dlq'' e)
       | Inr r \<Rightarrow>
           if q \<noteq> [] \<and> q \<noteq> va_queue r then ok ()
           else
           and_then (map_err (Wrapped ''failed to retain abandoned record work for request'')
             (persist_request_log (stove_event_log r RecordAbandoned ''repository'' []))) (\<lambda>_.
           if va_state r = StoveFailed
           then and_then (record_fact r []) (\<lambda>(f, _).
             and_then (persist_fact_log env r f) (\<lambda>_. publish_hook_event repository_recorded r))
           else ok ())))
   | _ \<Rightarrow> ok ())"

end
