(* ===== verification/StoveLaws.thy ===== *)
theory StoveLaws
  imports StoveBuild
begin

text \<open>
  What the stages of Stovepipe never do, whatever runs beside them and whichever of their calls fail:
  take a request off its state graph, decide a strategy or a verdict twice, move the last-green
  bookmark back or onto a commit that did not succeed, or record a fact that is not the outcome of its
  request.  Every stage is a triple over the relation of lawful changes.
\<close>

section \<open>Lawful changes\<close>

definition stove_leads :: "stove_state \<Rightarrow> stove_state \<Rightarrow> bool" where
  "stove_leads s s' \<longleftrightarrow> s' = s \<or> s = StoveAccepted \<and> s' \<in> {StoveProcessing, StoveSuperseded, StoveSucceeded, StoveFailed, StoveCancelled} \<or>
     s = StoveProcessing \<and> has_build_outcome s' \<or> s = StoveUnknown \<and> s' = StoveFailed"

definition validation_moves :: "validation \<Rightarrow> validation \<Rightarrow> bool" where
  "validation_moves r r' \<longleftrightarrow> r' = r \<or> va_version r < va_version r' \<and> va_id r' = va_id r \<and> va_queue r' = va_queue r \<and> va_uri r' = va_uri r \<and>
     stove_leads (va_state r) (va_state r') \<and>
     (va_state r \<noteq> StoveAccepted \<longrightarrow> va_strategy r' = va_strategy r \<and> va_base r' = va_base r) \<and>
     (va_build r \<noteq> [] \<longrightarrow> va_build r' = va_build r) \<and>
     (stove_terminal (va_state r) \<longrightarrow> va_terminal_build r' = va_terminal_build r)"

definition build_moves :: "stove_build \<Rightarrow> stove_build \<Rightarrow> bool" where
  "build_moves b b' \<longleftrightarrow> b' = b \<or> sb_version b < sb_version b' \<and> sb_id b' = sb_id b \<and> sb_request b' = sb_request b \<and>
     (run_terminal (sb_status b) \<longrightarrow> sb_status b' = sb_status b)"

definition id_le :: "string \<Rightarrow> string \<Rightarrow> bool" where
  "id_le a b \<longleftrightarrow> a = [] \<or> a = b \<or> (\<exists>x y. parse_resource_id a = Inr x \<and> parse_resource_id b = Inr y \<and> x \<le> y)"

definition queue_moves :: "queue_row \<Rightarrow> queue_row \<Rightarrow> bool" where
  "queue_moves q q' \<longleftrightarrow> q' = q \<or> qr_version q < qr_version q' \<and> qr_name q' = qr_name q \<and>
     id_le (qr_latest_request q) (qr_latest_request q') \<and> id_le (qr_last_green_request q) (qr_last_green_request q')"

definition rows_move :: "('r \<Rightarrow> 'r \<Rightarrow> bool) \<Rightarrow> ('k \<rightharpoonup> 'r) \<Rightarrow> ('k \<rightharpoonup> 'r) \<Rightarrow> bool" where
  "rows_move M t t' \<longleftrightarrow> (\<forall>k x. t k = Some x \<longrightarrow> (\<exists>y. t' k = Some y \<and> M x y))"

text \<open>The whole-repository fact of a commit is the outcome of its request.\<close>

definition fact_of_outcome :: "(string \<rightharpoonup> validation) \<Rightarrow> validation_fact \<Rightarrow> bool" where
  "fact_of_outcome t f \<longleftrightarrow> (\<exists>r. t (vf_request f) = Some r \<and> va_uri r = vf_uri f \<and>
     va_state r = (if fact_is_green f then StoveSucceeded else StoveFailed))"

definition green_request :: "(string \<rightharpoonup> validation) \<Rightarrow> string \<Rightarrow> string \<Rightarrow> bool" where
  "green_request t i u \<longleftrightarrow> (\<exists>r. t i = Some r \<and> va_uri r = u \<and> va_state r = StoveSucceeded)"

definition stove_inv :: "stove_db \<Rightarrow> bool" where
  "stove_inv d \<longleftrightarrow>
     (\<forall>i r. s_requests d i = Some r \<longrightarrow> va_id r = i \<and> s_uris d (va_uri r) = Some i) \<and>
     (\<forall>i b. s_builds d i = Some b \<longrightarrow> sb_id b = i) \<and>
     (\<forall>i s. s_summaries d i = Some s \<longrightarrow> su_request s = i) \<and>
     (\<forall>q. s_queue_row d = Some q \<longrightarrow> qr_last_green_request q \<noteq> [] \<longrightarrow>
        green_request (s_requests d) (qr_last_green_request q) (qr_last_green_uri q)) \<and>
     (\<forall>u f. s_facts d (u, []) = Some f \<longrightarrow> vf_uri f = u \<and> fact_of_outcome (s_requests d) f)"

definition stove_evolves :: "stove_db \<Rightarrow> stove_db \<Rightarrow> bool" where
  "stove_evolves d d' \<longleftrightarrow> (stove_inv d \<longrightarrow> stove_inv d') \<and>
     s_uris d \<subseteq>\<^sub>m s_uris d' \<and> s_facts d \<subseteq>\<^sub>m s_facts d' \<and> s_logs d \<subseteq>\<^sub>m s_logs d' \<and> s_queue_logs d \<subseteq>\<^sub>m s_queue_logs d' \<and>
     rows_move validation_moves (s_requests d) (s_requests d') \<and> rows_move build_moves (s_builds d) (s_builds d') \<and>
     (\<forall>q. s_queue_row d = Some q \<longrightarrow> (\<exists>q'. s_queue_row d' = Some q' \<and> queue_moves q q'))"

lemma leads_trans: "stove_leads s s' \<Longrightarrow> stove_leads s' s'' \<Longrightarrow> stove_leads s s''"
  by (auto simp: stove_leads_def has_build_outcome_def)

lemma leads_leaves_accepted: "stove_leads s s' \<Longrightarrow> s \<noteq> StoveAccepted \<Longrightarrow> s' \<noteq> StoveAccepted"
  by (auto simp: stove_leads_def has_build_outcome_def)

lemma leads_terminal: "stove_leads s s' \<Longrightarrow> stove_terminal s \<Longrightarrow> s' = s"
  by (auto simp: stove_leads_def stove_terminal_def)

lemma validation_moves_refl: "validation_moves r r"
  by (simp add: validation_moves_def)

lemma validation_moves_trans:
  assumes "validation_moves r r'" and "validation_moves r' r''"
  shows "validation_moves r r''"
proof (cases "r' = r \<or> r'' = r'")
  case True
  with assms show ?thesis by auto
next
  case False
  with assms have 1: "va_version r < va_version r'" "stove_leads (va_state r) (va_state r')" and
    2: "va_version r' < va_version r''" "stove_leads (va_state r') (va_state r'')"
    by (auto simp: validation_moves_def)
  note terminal = leads_terminal [OF 1(2)]
  from assms False 1 2 leads_trans [OF 1(2) 2(2)] leads_leaves_accepted [OF 1(2)] terminal
  show ?thesis unfolding validation_moves_def by auto
qed

lemma build_moves_refl: "build_moves b b"
  by (simp add: build_moves_def)

lemma build_moves_trans: "build_moves b b' \<Longrightarrow> build_moves b' b'' \<Longrightarrow> build_moves b b''"
  by (auto simp: build_moves_def)

lemma id_le_refl: "id_le a a"
  by (simp add: id_le_def)

lemma id_le_trans:
  assumes "id_le a b" and "id_le b c"
  shows "id_le a c"
proof -
  have "isl (parse_resource_id [])" by (simp add: parse_resource_id_def validate_id_def parse_int_def parse_nat_def)
  then have "parse_resource_id [] \<noteq> Inr y" for y by auto
  with assms show ?thesis unfolding id_le_def by (auto intro: order.trans)
qed

lemma queue_moves_refl: "queue_moves q q"
  by (simp add: queue_moves_def)

lemma queue_moves_trans: "queue_moves q q' \<Longrightarrow> queue_moves q' q'' \<Longrightarrow> queue_moves q q''"
  unfolding queue_moves_def using id_le_trans by (metis order.strict_trans)

lemma rows_move_refl: "(\<And>x. M x x) \<Longrightarrow> rows_move M t t"
  by (simp add: rows_move_def)

lemma rows_move_trans:
  "rows_move M t t' \<Longrightarrow> rows_move M t' t'' \<Longrightarrow> (\<And>x y z. M x y \<Longrightarrow> M y z \<Longrightarrow> M x z) \<Longrightarrow> rows_move M t t''"
  unfolding rows_move_def by meson

lemma rows_move_at: "rows_move M t t' \<Longrightarrow> t k = Some x \<Longrightarrow> \<exists>y. t' k = Some y \<and> M x y"
  by (simp add: rows_move_def)

interpretation stoves: evolution stove_inv stove_evolves
proof
  fix d d' d'' :: stove_db
  show "stove_evolves d d"
    by (simp add: stove_evolves_def rows_move_refl validation_moves_refl build_moves_refl queue_moves_refl)
  assume 1: "stove_evolves d d'" and 2: "stove_evolves d' d''"
  show "stove_evolves d d''"
    unfolding stove_evolves_def
  proof (intro conjI allI impI)
    show "stove_inv d''" if "stove_inv d" using that 1 2 by (simp add: stove_evolves_def)
    show "s_uris d \<subseteq>\<^sub>m s_uris d''" "s_facts d \<subseteq>\<^sub>m s_facts d''" "s_logs d \<subseteq>\<^sub>m s_logs d''" "s_queue_logs d \<subseteq>\<^sub>m s_queue_logs d''"
      using 1 2 by (auto simp: stove_evolves_def intro: map_le_trans)
    show "rows_move validation_moves (s_requests d) (s_requests d'')"
      using 1 2 unfolding stove_evolves_def by (blast intro: rows_move_trans validation_moves_trans)
    show "rows_move build_moves (s_builds d) (s_builds d'')"
      using 1 2 unfolding stove_evolves_def by (blast intro: rows_move_trans build_moves_trans)
    fix q assume "s_queue_row d = Some q"
    with 1 obtain q' where "s_queue_row d' = Some q'" "queue_moves q q'" by (auto simp: stove_evolves_def)
    with 2 obtain q'' where "s_queue_row d'' = Some q''" "queue_moves q' q''" by (auto simp: stove_evolves_def)
    with \<open>queue_moves q q'\<close> show "\<exists>q'. s_queue_row d'' = Some q' \<and> queue_moves q q'" by (blast intro: queue_moves_trans)
  qed
next
  fix d d' :: stove_db
  assume "stove_inv d" "stove_evolves d d'"
  then show "stove_inv d'" by (simp add: stove_evolves_def)
qed

end
