(* ===== verification/StoveSafe.thy ===== *)
theory StoveSafe
  imports StoveLaws
begin

text \<open>
  Every stage of Stovepipe as a triple over the lawful changes: the rows a stage holds in hand are
  older than the stored ones, so a conditional write that hits finds exactly the row it was computed
  from, and what it writes is one lawful move of it.
\<close>

abbreviation lawfully :: "(stove_db \<Rightarrow> bool) \<Rightarrow> 'a sop \<Rightarrow> ('a \<Rightarrow> stove_db \<Rightarrow> bool) \<Rightarrow> bool" where
  "lawfully \<equiv> triple stove_inv stove_evolves"

abbreviation tame :: "'a sop \<Rightarrow> bool" where
  "tame m \<equiv> lawfully (\<lambda>_. True) m (\<lambda>_ _. True)"

section \<open>Rows in hand\<close>

definition seen :: "validation \<Rightarrow> stove_db \<Rightarrow> bool" where
  "seen r d \<longleftrightarrow> (\<exists>r0. s_requests d (va_id r) = Some r0 \<and> validation_moves r r0)"

definition seen_build :: "stove_build \<Rightarrow> stove_db \<Rightarrow> bool" where
  "seen_build b d \<longleftrightarrow> (\<exists>b0. s_builds d (sb_id b) = Some b0 \<and> build_moves b b0)"

definition seen_queue :: "queue_row \<Rightarrow> stove_db \<Rightarrow> bool" where
  "seen_queue q d \<longleftrightarrow> (\<exists>q0. s_queue_row d = Some q0 \<and> queue_moves q q0)"

definition green_in :: "string \<Rightarrow> string \<Rightarrow> stove_db \<Rightarrow> bool" where
  "green_in i u d \<longleftrightarrow> green_request (s_requests d) i u"

definition mapped_uri :: "string \<Rightarrow> string \<Rightarrow> stove_db \<Rightarrow> bool" where
  "mapped_uri u i d \<longleftrightarrow> s_uris d u = Some i"

lemma stable_seen [stable_intros]: "stable stove_evolves (seen r)"
proof
  fix d d' assume "seen r d" and step: "stove_evolves d d'"
  then obtain r0 where r0: "s_requests d (va_id r) = Some r0" "validation_moves r r0" unfolding seen_def by blast
  with step obtain r1 where "s_requests d' (va_id r) = Some r1" "validation_moves r0 r1"
    unfolding stove_evolves_def rows_move_def by blast
  with r0(2) show "seen r d'" unfolding seen_def by (blast intro: validation_moves_trans)
qed

lemma stable_seen_build [stable_intros]: "stable stove_evolves (seen_build b)"
proof
  fix d d' assume "seen_build b d" and step: "stove_evolves d d'"
  then obtain b0 where b0: "s_builds d (sb_id b) = Some b0" "build_moves b b0" unfolding seen_build_def by blast
  with step obtain b1 where "s_builds d' (sb_id b) = Some b1" "build_moves b0 b1"
    unfolding stove_evolves_def rows_move_def by blast
  with b0(2) show "seen_build b d'" unfolding seen_build_def by (blast intro: build_moves_trans)
qed

lemma stable_seen_queue [stable_intros]: "stable stove_evolves (seen_queue q)"
proof
  fix d d' assume "seen_queue q d" and step: "stove_evolves d d'"
  then obtain q0 where q0: "s_queue_row d = Some q0" "queue_moves q q0" unfolding seen_queue_def by blast
  with step obtain q1 where "s_queue_row d' = Some q1" "queue_moves q0 q1" unfolding stove_evolves_def by blast
  with q0(2) show "seen_queue q d'" unfolding seen_queue_def by (blast intro: queue_moves_trans)
qed

lemma green_request_moves:
  assumes "green_request t i u" and "rows_move validation_moves t t'"
  shows "green_request t' i u"
proof -
  from assms(1) obtain r where r: "t i = Some r" "va_uri r = u" "va_state r = StoveSucceeded" unfolding green_request_def by blast
  with assms(2) obtain r' where "t' i = Some r'" "validation_moves r r'" unfolding rows_move_def by blast
  with r show ?thesis
    by (auto simp: green_request_def validation_moves_def stove_leads_def)
qed

lemma fact_of_outcome_moves:
  assumes "fact_of_outcome t f" and "rows_move validation_moves t t'"
  shows "fact_of_outcome t' f"
proof -
  from assms(1) obtain r where r: "t (vf_request f) = Some r" "va_uri r = vf_uri f"
    "va_state r = (if fact_is_green f then StoveSucceeded else StoveFailed)" unfolding fact_of_outcome_def by blast
  with assms(2) obtain r' where "t' (vf_request f) = Some r'" "validation_moves r r'" unfolding rows_move_def by blast
  with r show ?thesis
    by (auto simp: fact_of_outcome_def validation_moves_def stove_leads_def split: if_splits)
qed

lemma stable_green_in [stable_intros]: "stable stove_evolves (green_in i u)"
  unfolding green_in_def by (rule stableI) (auto simp: stove_evolves_def intro: green_request_moves)

lemma stable_mapped_uri [stable_intros]: "stable stove_evolves (mapped_uri u i)"
  unfolding mapped_uri_def by (rule stableI) (auto simp: stove_evolves_def map_le_def dom_def)

lemma stable_stove_inv [stable_intros]: "stable stove_evolves stove_inv"
  by (rule stableI) (simp add: stove_evolves_def)

section \<open>Lawful writes\<close>

lemma moves_aside:
  assumes "s_requests d' = s_requests d" "s_uris d' = s_uris d" "s_queue_row d' = s_queue_row d" "s_builds d' = s_builds d"
    "s_facts d' = s_facts d" "s_summaries d' = s_summaries d" "s_logs d \<subseteq>\<^sub>m s_logs d'" "s_queue_logs d \<subseteq>\<^sub>m s_queue_logs d'"
  shows "stove_evolves d d'"
  using assms by (simp add: stove_evolves_def stove_inv_def rows_move_refl validation_moves_refl build_moves_refl queue_moves_refl)

lemma insert_row_le: "insert_row k r t = Some t' \<Longrightarrow> t \<subseteq>\<^sub>m t' \<and> t k = None \<and> t' = t(k \<mapsto> r)"
  by (auto simp: insert_row_def map_le_def split: option.splits)

lemma rows_move_insert: "(\<And>x. M x x) \<Longrightarrow> t k = None \<Longrightarrow> rows_move M t (t(k \<mapsto> r))"
  by (auto simp: rows_move_def)

lemma rows_move_upd: "(\<And>x. M x x) \<Longrightarrow> t k = Some r \<Longrightarrow> M r r' \<Longrightarrow> rows_move M t (t(k \<mapsto> r'))"
  by (auto simp: rows_move_def)

lemma request_keyed: "stove_inv d \<Longrightarrow> s_requests d i = Some r \<Longrightarrow> va_id r = i \<and> s_uris d (va_uri r) = Some i"
  by (simp add: stove_inv_def)

text \<open>A write to the requests that moves every row lawfully.\<close>

lemma moves_requests:
  assumes "rows_move validation_moves (s_requests d) t"
    and "stove_inv d \<Longrightarrow> \<forall>i r. t i = Some r \<longrightarrow> va_id r = i \<and> s_uris d (va_uri r) = Some i"
  shows "stove_evolves d (d\<lparr>s_requests := t\<rparr>)"
proof -
  have "stove_inv (d\<lparr>s_requests := t\<rparr>)" if inv: "stove_inv d"
    unfolding stove_inv_def
  proof (intro conjI allI impI)
    fix i r assume "s_requests (d\<lparr>s_requests := t\<rparr>) i = Some r"
    with assms(2) [OF inv] show "va_id r = i" "s_uris (d\<lparr>s_requests := t\<rparr>) (va_uri r) = Some i" by simp_all
  next
    fix q assume "s_queue_row (d\<lparr>s_requests := t\<rparr>) = Some q" "qr_last_green_request q \<noteq> []"
    with inv have "green_request (s_requests d) (qr_last_green_request q) (qr_last_green_uri q)" by (simp add: stove_inv_def)
    from green_request_moves [OF this assms(1)]
    show "green_request (s_requests (d\<lparr>s_requests := t\<rparr>)) (qr_last_green_request q) (qr_last_green_uri q)" by simp
  next
    fix u f assume "s_facts (d\<lparr>s_requests := t\<rparr>) (u, []) = Some f"
    with inv have f: "vf_uri f = u" "fact_of_outcome (s_requests d) f" by (simp_all add: stove_inv_def)
    from f(1) show "vf_uri f = u" .
    from fact_of_outcome_moves [OF f(2) assms(1)] show "fact_of_outcome (s_requests (d\<lparr>s_requests := t\<rparr>)) f" by simp
  qed (use inv in \<open>simp_all add: stove_inv_def\<close>)
  with assms(1) show ?thesis by (simp add: stove_evolves_def rows_move_refl build_moves_refl queue_moves_refl)
qed

lemma hit_is_seen: "seen r d \<Longrightarrow> s_requests d (va_id r) = Some r0 \<Longrightarrow> va_version r0 = va_version r \<Longrightarrow> r0 = r"
  by (auto simp: seen_def validation_moves_def)

definition validation_step :: "validation \<Rightarrow> validation \<Rightarrow> bool" where
  "validation_step r new \<longleftrightarrow> validation_moves r (new\<lparr>va_version := va_version r + 1\<rparr>)"

lemma validation_update_lawful:
  assumes "seen r d" and "validation_step r new"
  shows "stove_evolves d (snd (validation_row_update new (va_version r) (va_version r + 1) d))"
    and "fst (validation_row_update new (va_version r) (va_version r + 1) d) = Inr () \<Longrightarrow>
      seen (new\<lparr>va_version := va_version r + 1\<rparr>) (snd (validation_row_update new (va_version r) (va_version r + 1) d))"
proof -
  let ?new = "new\<lparr>va_version := va_version r + 1\<rparr>"
  have moves: "validation_moves r ?new" using assms(2) by (simp add: validation_step_def)
  then have same: "va_id new = va_id r" "va_uri new = va_uri r"
    by (auto simp: validation_moves_def dest: arg_cong [where f = va_id] arg_cong [where f = va_uri])
  obtain r0 where r0: "s_requests d (va_id r) = Some r0" using assms(1) by (auto simp: seen_def)
  have "stove_evolves d (d\<lparr>s_requests := (s_requests d)(va_id r \<mapsto> ?new)\<rparr>)" if "r0 = r"
  proof (rule moves_requests)
    show "rows_move validation_moves (s_requests d) ((s_requests d)(va_id r \<mapsto> ?new))"
      using r0 that moves by (intro rows_move_upd) (simp_all add: validation_moves_refl)
    show "\<forall>i s. ((s_requests d)(va_id r \<mapsto> ?new)) i = Some s \<longrightarrow> va_id s = i \<and> s_uris d (va_uri s) = Some i" if "stove_inv d"
    proof (intro allI impI)
      fix i s assume s: "((s_requests d)(va_id r \<mapsto> ?new)) i = Some s"
      from request_keyed [OF that r0] \<open>r0 = r\<close> have r: "s_uris d (va_uri r) = Some (va_id r)" by simp
      show "va_id s = i \<and> s_uris d (va_uri s) = Some i"
      proof (cases "i = va_id r")
        case True
        with s have "s = ?new" by simp
        with True r same show ?thesis by simp
      next
        case False
        with s request_keyed [OF that] show ?thesis by simp
      qed
    qed
  qed
  moreover have "r0 = r" if "va_version r0 = va_version r" by (rule hit_is_seen [OF assms(1) r0 that])
  ultimately show "stove_evolves d (snd (validation_row_update new (va_version r) (va_version r + 1) d))"
    and "fst (validation_row_update new (va_version r) (va_version r + 1) d) = Inr () \<Longrightarrow>
      seen ?new (snd (validation_row_update new (va_version r) (va_version r + 1) d))"
    using r0 same
    by (auto simp: validation_row_update_def update_where_def stoves.evolves_refl seen_def validation_moves_refl)
qed

lemma safe_bound: "lawfully P m Q \<Longrightarrow> lawfully P (bound q m) Q"
proof (rule triple_world)
  fix w :: stove
  assume m: "lawfully P m Q"
  show "\<exists>m'. bound q m w = m' w \<and> lawfully P m' Q"
  proof (cases "q = s_queue w")
    case True
    with m show ?thesis by (auto simp: bound_def)
  next
    case False
    then have "bound q m w = fail (Plain ''queue does not match the bound queue of the store'') w"
      by (simp add: bound_def fail_apply)
    with stoves.triple_fail show ?thesis by blast
  qed
qed

lemma safe_validation_update:
  "validation_step r new \<Longrightarrow> lawfully (seen r) (validation_update new (va_version r) (va_version r + 1))
     (\<lambda>_. seen (new\<lparr>va_version := va_version r + 1\<rparr>))"
  unfolding validation_update_def
  by (intro safe_bound stoves.triple_db_op stable_seen) (auto intro: validation_update_lawful)

lemma seen_got: "stove_inv d \<Longrightarrow> s_requests d i = Some r \<Longrightarrow> seen r d \<and> va_id r = i"
  by (auto simp: seen_def stove_inv_def validation_moves_refl)

lemma safe_validation_get: "lawfully (\<lambda>_. True) (validation_get i) (\<lambda>r d. seen r d \<and> va_id r = i)"
  unfolding validation_get_def
  by (rule stoves.triple_inv, rule stoves.triple_db_read)
    (auto intro: stable_stove_inv simp: select_row_def dest: seen_got split: option.splits)

lemma safe_validation_create:
  "lawfully (mapped_uri (va_uri r) (va_id r)) (validation_create r) (\<lambda>_. seen r)"
  unfolding validation_create_def
proof (intro safe_bound stoves.triple_db_op stable_mapped_uri)
  fix d assume uri: "mapped_uri (va_uri r) (va_id r) d"
  show "stove_evolves d (snd (validation_row_create r d))"
  proof (cases "s_requests d (va_id r)")
    case None
    then have "stove_evolves d (d\<lparr>s_requests := (s_requests d)(va_id r \<mapsto> r)\<rparr>)"
      using uri by (intro moves_requests rows_move_insert) (auto simp: validation_moves_refl mapped_uri_def dest: request_keyed)
    with None show ?thesis by (simp add: validation_row_create_def insert_row_def)
  qed (simp add: validation_row_create_def insert_row_def stoves.evolves_refl)
next
  fix d and x :: unit assume "fst (validation_row_create r d) = Inr x"
  then show "seen r (snd (validation_row_create r d))"
    by (auto simp: validation_row_create_def insert_row_def seen_def validation_moves_refl split: option.splits)
qed

text \<open>The queue row.\<close>

definition queue_step :: "queue_row \<Rightarrow> queue_row \<Rightarrow> stove_db \<Rightarrow> bool" where
  "queue_step q new d \<longleftrightarrow> queue_moves q (new\<lparr>qr_version := qr_version q + 1\<rparr>) \<and>
     (qr_last_green_request new = qr_last_green_request q \<and> qr_last_green_uri new = qr_last_green_uri q \<or>
      green_in (qr_last_green_request new) (qr_last_green_uri new) d)"

lemma stable_queue_step [stable_intros]: "stable stove_evolves (queue_step q new)"
  using stable_green_in unfolding queue_step_def stable_def by blast

lemma evolves_queue_row:
  assumes "\<And>q. s_queue_row d = Some q \<Longrightarrow> queue_moves q new"
    and "stove_inv d \<Longrightarrow> qr_last_green_request new \<noteq> [] \<Longrightarrow> green_in (qr_last_green_request new) (qr_last_green_uri new) d"
  shows "stove_evolves d (d\<lparr>s_queue_row := Some new\<rparr>)"
proof -
  have "stove_inv (d\<lparr>s_queue_row := Some new\<rparr>)" if "stove_inv d"
    using that assms(2) [OF that] by (simp add: stove_inv_def green_in_def)
  with assms(1) show ?thesis
    by (simp add: stove_evolves_def rows_move_refl validation_moves_refl build_moves_refl)
qed

lemma queue_update_lawful:
  assumes "seen_queue q d" and "queue_step q new d"
  shows "stove_evolves d (snd (queue_row_update new (qr_version q) (qr_version q + 1) d))"
    and "fst (queue_row_update new (qr_version q) (qr_version q + 1) d) = Inr () \<Longrightarrow>
      seen_queue (new\<lparr>qr_version := qr_version q + 1\<rparr>) (snd (queue_row_update new (qr_version q) (qr_version q + 1) d))"
proof -
  let ?new = "new\<lparr>qr_version := qr_version q + 1\<rparr>"
  obtain q0 where q0: "s_queue_row d = Some q0" "queue_moves q q0" using assms(1) by (auto simp: seen_queue_def)
  have hit: "q0 = q" if "qr_version q0 = qr_version q" using q0(2) that by (auto simp: queue_moves_def)
  have "stove_evolves d (d\<lparr>s_queue_row := Some ?new\<rparr>)" if "q0 = q"
  proof (rule evolves_queue_row)
    show "queue_moves q' ?new" if "s_queue_row d = Some q'" for q'
      using that q0(1) \<open>q0 = q\<close> assms(2) by (simp add: queue_step_def)
    assume inv: "stove_inv d" and "qr_last_green_request ?new \<noteq> []"
    then show "green_in (qr_last_green_request ?new) (qr_last_green_uri ?new) d"
      using assms(2) q0(1) \<open>q0 = q\<close> by (auto simp: queue_step_def stove_inv_def green_in_def)
  qed
  with q0(1) hit show "stove_evolves d (snd (queue_row_update new (qr_version q) (qr_version q + 1) d))"
    and "fst (queue_row_update new (qr_version q) (qr_version q + 1) d) = Inr () \<Longrightarrow>
      seen_queue ?new (snd (queue_row_update new (qr_version q) (qr_version q + 1) d))"
    by (auto simp: queue_row_update_def stoves.evolves_refl seen_queue_def queue_moves_refl)
qed

lemma safe_queue_update:
  "lawfully (\<lambda>d. seen_queue q d \<and> queue_step q new d) (queue_update new (qr_version q) (qr_version q + 1))
     (\<lambda>_. seen_queue (new\<lparr>qr_version := qr_version q + 1\<rparr>))"
  unfolding queue_update_def
  by (intro safe_bound stoves.triple_db_op stable_conj stable_seen_queue stable_queue_step) (auto intro: queue_update_lawful)

lemma safe_queue_get: "lawfully (\<lambda>_. True) (queue_get name) (\<lambda>q. seen_queue q)"
proof (rule triple_world)
  fix w :: stove
  have "lawfully (\<lambda>_. True) (db_op (\<lambda>d. (select_row (s_queue_row d), d))) (\<lambda>q. seen_queue q)"
    by (rule stoves.triple_db_read) (auto simp: select_row_def seen_queue_def queue_moves_refl split: option.splits)
  moreover have "lawfully (\<lambda>_. True) (fail e) (\<lambda>q. seen_queue q)" for e by (rule stoves.triple_fail)
  ultimately show "\<exists>m'. queue_get name w = m' w \<and> lawfully (\<lambda>_. True) m' (\<lambda>q. seen_queue q)"
    unfolding queue_get_def fail_apply [symmetric] by auto
qed

lemma safe_queue_create: "qr_last_green_request q = [] \<Longrightarrow> lawfully (\<lambda>_. True) (queue_create q) (\<lambda>_. seen_queue q)"
  unfolding queue_create_def queue_row_create_def
  by (intro safe_bound stoves.triple_db_op)
    (auto simp: stoves.evolves_refl seen_queue_def queue_moves_refl split: option.splits intro!: evolves_queue_row)

text \<open>Builds, facts, URIs, and the tables that only grow.\<close>

lemma evolves_builds:
  assumes "rows_move build_moves (s_builds d) t" and "stove_inv d \<Longrightarrow> \<forall>i b. t i = Some b \<longrightarrow> sb_id b = i"
  shows "stove_evolves d (d\<lparr>s_builds := t\<rparr>)"
proof -
  have "stove_inv (d\<lparr>s_builds := t\<rparr>)" if "stove_inv d" using that assms(2) [OF that] by (simp add: stove_inv_def)
  with assms(1) show ?thesis by (simp add: stove_evolves_def rows_move_refl validation_moves_refl queue_moves_refl)
qed

lemma build_keyed: "stove_inv d \<Longrightarrow> s_builds d i = Some b \<Longrightarrow> sb_id b = i"
  by (simp add: stove_inv_def)

lemma safe_stove_build_get: "lawfully (\<lambda>_. True) (stove_build_get i) (\<lambda>b d. seen_build b d \<and> sb_id b = i)"
  unfolding stove_build_get_def
  by (rule stoves.triple_inv, rule stoves.triple_db_read)
    (auto intro: stable_stove_inv simp: select_row_def seen_build_def build_moves_refl dest: build_keyed split: option.splits)

lemma tame_build_create: "tame (stove_build_create b)"
  unfolding stove_build_create_def stove_build_row_create_def insert_row_def
  by (rule stoves.triple_db_op)
    (auto simp: stoves.evolves_refl build_moves_refl split: option.splits if_splits intro!: evolves_builds rows_move_insert dest: build_keyed)

lemma safe_build_update:
  assumes "\<not> run_terminal (sb_status b)"
  shows "lawfully (seen_build b) (stove_build_update (b\<lparr>sb_status := s\<rparr>) (sb_version b) (sb_version b + 1)) (\<lambda>_ _. True)"
  unfolding stove_build_update_def
proof (rule stoves.triple_db_op [OF stable_seen_build])
  fix d assume "seen_build b d"
  then obtain b0 where b0: "s_builds d (sb_id b) = Some b0" "build_moves b b0" by (auto simp: seen_build_def)
  let ?b = "b0\<lparr>sb_status := s, sb_version := sb_version b + 1\<rparr>"
  have "stove_evolves d (d\<lparr>s_builds := (s_builds d)(sb_id b \<mapsto> ?b)\<rparr>)" if hit: "sb_version b0 = sb_version b"
  proof -
    from b0(2) hit have "b0 = b" by (auto simp: build_moves_def)
    with assms have "build_moves b0 ?b" by (simp add: build_moves_def)
    moreover have "sb_id b0 = sb_id b" by (simp add: \<open>b0 = b\<close>)
    ultimately show ?thesis using b0(1)
      by (intro evolves_builds rows_move_upd) (auto simp: build_moves_refl dest: build_keyed)
  qed
  with b0(1) show "stove_evolves d (snd (stove_build_row_update (b\<lparr>sb_status := s\<rparr>) (sb_version b) (sb_version b + 1) d))"
    by (auto simp: stove_build_row_update_def stoves.evolves_refl)
qed simp

lemma map_le_insert: "t k = None \<Longrightarrow> t \<subseteq>\<^sub>m t(k \<mapsto> x)"
  by (auto simp: map_le_def)

lemma evolves_uris:
  assumes "s_uris d u = None"
  shows "stove_evolves d (d\<lparr>s_uris := (s_uris d)(u \<mapsto> i)\<rparr>)"
proof -
  have "stove_inv (d\<lparr>s_uris := (s_uris d)(u \<mapsto> i)\<rparr>)" if "stove_inv d"
    using that assms by (auto simp: stove_inv_def)
  with assms show ?thesis
    by (simp add: stove_evolves_def rows_move_refl validation_moves_refl build_moves_refl queue_moves_refl map_le_insert)
qed

lemma safe_uri_create: "lawfully (\<lambda>_. True) (request_uri_create u i) (\<lambda>_. mapped_uri u i)"
  unfolding request_uri_create_def uri_row_create_def insert_row_def
  by (rule stoves.triple_db_op)
    (auto simp: stoves.evolves_refl mapped_uri_def split: option.splits intro: evolves_uris)

lemma safe_get_id_by_uri: "lawfully (\<lambda>_. True) (get_id_by_uri u) (\<lambda>i. mapped_uri u i)"
  unfolding get_id_by_uri_def
  by (rule stoves.triple_db_read) (auto simp: select_row_def mapped_uri_def split: option.splits)

definition fact_in :: "validation_fact \<Rightarrow> stove_db \<Rightarrow> bool" where
  "fact_in f d \<longleftrightarrow> vf_project f = [] \<longrightarrow> fact_of_outcome (s_requests d) f"

lemma stable_fact_in [stable_intros]: "stable stove_evolves (fact_in f)"
  unfolding fact_in_def by (rule stableI) (auto simp: stove_evolves_def intro: fact_of_outcome_moves)

lemma safe_fact_create: "lawfully (fact_in f) (fact_create f) (\<lambda>_ _. True)"
  unfolding fact_create_def
proof (rule stoves.triple_db_op [OF stable_fact_in])
  fix d assume f: "fact_in f d"
  have "stove_evolves d (d\<lparr>s_facts := (s_facts d)((vf_uri f, vf_project f) \<mapsto> f)\<rparr>)" if "s_facts d (vf_uri f, vf_project f) = None"
  proof -
    have "stove_inv (d\<lparr>s_facts := (s_facts d)((vf_uri f, vf_project f) \<mapsto> f)\<rparr>)" if "stove_inv d"
      using that f by (simp add: stove_inv_def fact_in_def)
    with that show ?thesis
      by (simp add: stove_evolves_def rows_move_refl validation_moves_refl build_moves_refl queue_moves_refl map_le_insert)
  qed
  then show "stove_evolves d (snd (fact_row_create f d))"
    by (auto simp: fact_row_create_def insert_row_def stoves.evolves_refl split: option.splits)
qed simp

lemma tame_read: "(\<And>d. snd (f d) = d) \<Longrightarrow> tame (db_op f)"
  by (rule stoves.triple_db_read) auto

lemma tame_appends:
  "tame (db_op (acceptance_row_create a))" "tame (db_op (by_degree_row_create e))" "tame (db_op (log_row_create l))"
  "tame (db_op (queue_log_row_create ql))" "tame (db_op (queue_summary_row_create qs))"
  "tame (db_op (queue_summary_row_update qs old new))" "tame (db_op (stove_message_stmt m))" "tame (db_op mint_counter)"
  by (rule stoves.triple_db_op, simp,
      auto simp: acceptance_row_create_def by_degree_row_create_def log_row_create_def queue_log_row_create_def
        queue_summary_row_create_def queue_summary_row_update_def stove_message_stmt_def mint_counter_def insert_row_def Let_def
        stoves.evolves_refl intro!: moves_aside map_le_insert split: option.splits)+

lemma evolves_summaries:
  assumes "stove_inv d \<Longrightarrow> \<forall>i s. t i = Some s \<longrightarrow> su_request s = i"
  shows "stove_evolves d (d\<lparr>s_summaries := t\<rparr>)"
proof -
  have "stove_inv (d\<lparr>s_summaries := t\<rparr>)" if "stove_inv d" using that assms [OF that] by (simp add: stove_inv_def)
  then show ?thesis by (simp add: stove_evolves_def rows_move_refl validation_moves_refl build_moves_refl queue_moves_refl)
qed

lemma summary_keyed: "stove_inv d \<Longrightarrow> s_summaries d i = Some s \<Longrightarrow> su_request s = i"
  by (simp add: stove_inv_def)

lemma tame_summaries: "tame (db_op (summary_row_create s))" "tame (db_op (summary_update_row s old new))"
  by (rule stoves.triple_db_op, simp,
      auto simp: summary_row_create_def summary_update_row_def insert_row_def stoves.evolves_refl dest: summary_keyed
        intro!: evolves_summaries split: option.splits if_splits)+

end
