(* ===== verification/StoveStages.thy ===== *)
theory StoveStages
  imports StoveSafe
begin

text \<open>
  The operations of Stovepipe, each as a triple over the lawful changes: the logs and read models
  (they never touch a request), the conditional writes and their retry loops, then stage by stage.
\<close>

section \<open>Plain operations\<close>

lemma tame_bind: "tame m \<Longrightarrow> (\<And>x. tame (f x)) \<Longrightarrow> tame (and_then m f)"
  by (rule stoves.triple_bind)

lemma tame_attempt: "tame m \<Longrightarrow> tame (attempt m)"
  by (rule stoves.triple_conseq [OF stoves.triple_attempt]) auto

lemma tame_leaf: "tame (ok x)" "tame (fail e)" "tame (of_sum v)"
  by (simp_all add: stoves.triple_ok stoves.triple_fail stoves.triple_of_sum)

lemma tame_of: "lawfully (\<lambda>_. True) m Q \<Longrightarrow> tame m"
  by (rule stoves.triple_conseq) auto

lemma safe_weaken: "tame m \<Longrightarrow> lawfully P m (\<lambda>_ _. True)"
  by (rule stoves.triple_pre) auto

lemma safe_carry:
  "tame m \<Longrightarrow> stable stove_evolves F \<Longrightarrow> (\<And>x. lawfully F (f x) Q) \<Longrightarrow> lawfully F (and_then m f) Q"
  by (rule stoves.triple_bind [where Q = "\<lambda>_. F"], rule stoves.triple_conseq [OF stoves.triple_keep [OF safe_weaken]]) auto

lemma tame_until_settled: "tame body \<Longrightarrow> tame (until_settled body)"
  by (rule stoves.triple_until_settled [where P = "\<lambda>_. True"]) (simp add: option.case_eq_if)

lemma tame_local:
  assumes "\<And>w. w_db (snd (m w)) = w_db w \<and> w_script (snd (m w)) = w_script w"
  shows "tame m"
  by (rule stoves.triple_conseq [OF stoves.triple_local [OF assms]]) auto

lemma tame_now: "tame stove_now"
  by (rule tame_local) (simp add: stove_now_def)

lemma tame_storage_for: "tame (stove_storage_for q)"
  by (rule tame_local) (simp add: stove_storage_for_def)

lemma tame_ask: "tame (ask_env f)"
  by (rule tame_local) (simp add: ask_env_def)

lemma tame_trigger: "tame (trigger_build env base u)"
  by (rule tame_local) (simp add: trigger_build_def split: sum.split)

lemma tame_promote: "tame (promote env r)"
  by (rule tame_local) (simp add: promote_def split: sum.split)

lemma tame_fold_act: "(\<And>x s. tame (body x s)) \<Longrightarrow> tame (fold_act body xs s)"
  using stoves.triple_fold_act [of xs "\<lambda>_ _. True" body s] by simp

lemmas tame_reads = safe_validation_get [THEN tame_of] safe_queue_get [THEN tame_of] safe_stove_build_get [THEN tame_of]
  safe_get_id_by_uri [THEN tame_of] safe_uri_create [THEN tame_of]

lemmas tame_intros = tame_leaf tame_bind tame_attempt tame_fold_act tame_until_settled stoves.triple_map_err stoves.triple_if
  stoves.triple_case_sum stoves.triple_case_option stoves.triple_case_prod stoves.triple_let safe_bound
  tame_now tame_storage_for tame_ask tame_trigger tame_promote tame_reads tame_appends tame_summaries tame_build_create

lemma tame_stores:
  "tame (stove_log_create l)" "tame (stove_log_get i j)" "tame (stove_summary_get i)" "tame (stove_summary_create s)"
  "tame (stove_summary_update s old new)" "tame (acceptance_create a)" "tame (fact_get u p)" "tame (by_degree_create e)"
  "tame (queue_log_create ql)" "tame (queue_log_get i)" "tame (queue_summary_get)" "tame (queue_summary_create qs)"
  "tame (queue_summary_update qs old new)"
  unfolding stove_log_create_def stove_log_get_def stove_summary_get_def stove_summary_create_def stove_summary_update_def
    acceptance_create_def fact_get_def by_degree_create_def queue_log_create_def queue_log_get_def queue_summary_get_def
    queue_summary_create_def queue_summary_update_def
  by (intro tame_intros tame_read; simp)+

lemma tame_publish: "tame (stove_publish key tenant i pk p)"
proof (rule triple_world)
  fix w :: stove
  have "tame (and_then stove_now (\<lambda>now. let m = f now in and_then (of_sum (check_message m))
      (\<lambda>_. map_err g (db_op (stove_message_stmt (h m))))))" for f g h
    by (intro tame_intros)
  moreover have "tame (fail e)" for e by (rule tame_leaf)
  ultimately show "\<exists>m'. stove_publish key tenant i pk p w = m' w \<and> tame m'"
    unfolding stove_publish_def fail_apply [symmetric] by (auto split: option.split intro: tame_leaf)
qed

section \<open>Logs and read models\<close>

lemma tame_again_if: "tame m \<Longrightarrow> tame (again_if lost m)"
  unfolding again_if_def by (intro tame_intros)

lemma tame_persist_request_log: "tame (persist_request_log l)"
  unfolding persist_request_log_def retain_request_log_def materialize_request_summary_def request_summary_round_def
    create_initial_request_summary_def update_existing_request_summary_def ensure_request_acceptance_mapping_def
  by (intro tame_intros tame_stores tame_again_if)

lemma tame_persist_queue_log: "tame (persist_queue_log l)"
  unfolding persist_queue_log_def queue_summary_round_def
  by (intro tame_intros tame_stores tame_again_if)

lemma tame_load_version: "tame (load_version q v)"
  unfolding load_version_def by (intro tame_intros tame_stores)

lemma tame_load_summary: "tame (load_summary q)"
  unfolding load_summary_def by (intro tame_intros tame_stores tame_load_version)

lemma tame_repair: "tame (repair_queue_read_models q)"
  unfolding repair_queue_read_models_def by (intro tame_intros tame_persist_queue_log)

section \<open>Conditional writes\<close>

definition lawful_validation :: "(validation \<Rightarrow> validation cas) \<Rightarrow> bool" where
  "lawful_validation step \<longleftrightarrow> (\<forall>r new. step r = Put new \<longrightarrow> validation_step r new)"

definition lawful_queue :: "(stove_db \<Rightarrow> bool) \<Rightarrow> (queue_row \<Rightarrow> queue_row cas) \<Rightarrow> bool" where
  "lawful_queue G step \<longleftrightarrow> stable stove_evolves G \<and> (\<forall>q new d. step q = Put new \<longrightarrow> G d \<longrightarrow> queue_step q new d)"

abbreviation seen_option :: "(bool \<times> validation) option \<Rightarrow> stove_db \<Rightarrow> bool" where
  "seen_option x d \<equiv> (case x of None \<Rightarrow> True | Some y \<Rightarrow> seen (snd y) d)"

lemma safe_try_validation:
  assumes "lawful_validation step"
  shows "lawfully (seen r) (try_validation what step r) seen_option"
proof (cases "step r")
  case (Put new)
  have "lawfully (seen r) (and_then (attempt (validation_update new (va_version r) (va_version r + 1))) (\<lambda>u. case u of
       Inr _ \<Rightarrow> ok (Some (True, new\<lparr>va_version := va_version r + 1\<rparr>))
     | Inl e \<Rightarrow> if is_version_mismatch e then ok None else fail (Wrapped what e))) seen_option"
    using assms Put
    by (intro stoves.triple_bind [OF stoves.triple_attempt [OF safe_validation_update stable_seen]])
      (auto simp: lawful_validation_def intro!: stoves.triple_ok stoves.triple_fail split: sum.split)
  with Put show ?thesis by (simp add: try_validation_def)
qed (auto simp: try_validation_def intro!: stoves.triple_ok stoves.triple_fail)

lemma safe_reload_validation:
  "lawful_validation step \<Longrightarrow> lawfully (\<lambda>_. True) (reload_validation lost what step i) seen_option"
  unfolding reload_validation_def
  by (rule stoves.triple_bind [OF stoves.triple_map_err [OF safe_validation_get]])
    (auto intro: stoves.triple_pre [OF safe_try_validation])

lemma safe_settle_validation:
  assumes "lawful_validation step"
  shows "lawfully (seen r) (settle_validation lost what step r) (\<lambda>y. seen (snd y))"
  unfolding settle_validation_def
proof (rule stoves.triple_bind [OF safe_try_validation [OF assms]], rule stoves.triple_case_option)
  fix x :: "(bool \<times> validation) option"
  have "lawfully (\<lambda>_. True) (until_settled (reload_validation lost what step (va_id r))) (\<lambda>y. seen (snd y))"
    using safe_reload_validation [OF assms] by (rule stoves.triple_until_settled)
  then show "lawfully (seen_option x) (until_settled (reload_validation lost what step (va_id r))) (\<lambda>y. seen (snd y))"
    by (rule stoves.triple_pre) simp
qed (auto intro: stoves.triple_ok)

lemma safe_try_queue:
  assumes "lawful_queue G step"
  shows "lawfully (\<lambda>d. seen_queue q d \<and> G d) (try_queue what step q) (\<lambda>_. G)"
proof (cases "step q")
  case (Put new)
  have G: "stable stove_evolves G" using assms by (simp add: lawful_queue_def)
  have "lawfully (\<lambda>d. seen_queue q d \<and> G d) (queue_update new (qr_version q) (qr_version q + 1)) (\<lambda>_ _. True)"
    using assms Put by (intro stoves.triple_conseq [OF safe_queue_update]) (auto simp: lawful_queue_def)
  from stoves.triple_attempt [OF this stable_conj [OF stable_seen_queue G]]
  have "lawfully (\<lambda>d. seen_queue q d \<and> G d) (and_then (attempt (queue_update new (qr_version q) (qr_version q + 1))) (\<lambda>u. case u of
       Inr _ \<Rightarrow> ok (Some (True, new\<lparr>qr_version := qr_version q + 1\<rparr>))
     | Inl e \<Rightarrow> if is_version_mismatch e then ok None else fail (Wrapped what e))) (\<lambda>_. G)"
    by (rule stoves.triple_bind) (auto intro!: stoves.triple_ok stoves.triple_fail split: sum.split)
  with Put show ?thesis by (simp add: try_queue_def)
qed (auto simp: try_queue_def intro!: stoves.triple_ok stoves.triple_fail)

lemma safe_reload_queue:
  assumes "lawful_queue G step"
  shows "lawfully G (reload_queue lost what step name) (\<lambda>_. G)"
proof -
  have "lawfully G (map_err (Wrapped lost) (queue_get name)) (\<lambda>q d. seen_queue q d \<and> G d)"
    using assms
    by (intro stoves.triple_keep [OF stoves.triple_map_err [OF stoves.triple_pre [OF safe_queue_get]]]) (auto simp: lawful_queue_def)
  from stoves.triple_bind [OF this safe_try_queue [OF assms]] show ?thesis unfolding reload_queue_def .
qed

lemma safe_queue_loop:
  assumes "lawful_queue G step"
  shows "lawfully G (until_settled (reload_queue lost what step name)) (\<lambda>_. G)"
  by (rule stoves.triple_until_settled, rule stoves.triple_conseq [OF safe_reload_queue [OF assms]]) (auto split: option.split)

lemma safe_settle_queue:
  assumes "lawful_queue G step"
  shows "lawfully (\<lambda>d. seen_queue q d \<and> G d) (settle_queue lost what step q) (\<lambda>_. G)"
  unfolding settle_queue_def
  by (rule stoves.triple_bind [OF safe_try_queue [OF assms]], rule stoves.triple_case_option)
    (auto intro: stoves.triple_ok safe_queue_loop [OF assms])

text \<open>The steps of the stages are lawful.\<close>

lemmas step_defs = lawful_validation_def lawful_queue_def validation_step_def queue_step_def validation_moves_def queue_moves_def
  stove_leads_def has_build_outcome_def

lemma lawful_admit: "lawful_validation (admit_step s b)"
  by (auto simp: step_defs admit_step_def stove_terminal_def split: if_splits)

lemma lawful_supersede: "lawful_validation supersede_step"
  by (auto simp: step_defs supersede_step_def stove_terminal_def split: if_splits)

lemma lawful_associate: "lawful_validation (associate_step b)"
  by (auto simp: step_defs associate_step_def split: if_splits)

lemma lawful_outcome_step: "has_build_outcome s \<Longrightarrow> lawful_validation (outcome_step b s)"
  by (auto simp: step_defs outcome_step_def stove_terminal_def split: if_splits)

lemma lawful_claim: "lawful_queue (\<lambda>_. True) (\<lambda>q. Put (q\<lparr>qr_in_flight := qr_in_flight q + 1\<rparr>))"
  by (auto simp: step_defs id_le_refl)

lemma lawful_release: "lawful_queue (\<lambda>_. True) release_step"
  by (auto simp: step_defs release_step_def id_le_refl split: if_splits)

lemma compare_ids_positive: "compare_ids a b = Inr c \<Longrightarrow> 0 < c \<Longrightarrow> id_le b a"
  by (auto simp: compare_ids_def id_le_def split: sum.splits if_splits)

lemma lawful_newer: "lawful_queue (\<lambda>_. True) (newer_latest i)"
  by (auto simp: step_defs newer_latest_def id_le_refl id_le_def [of "[]"] split: if_splits sum.splits intro: compare_ids_positive)

lemma lawful_green: "lawful_queue (green_in (va_id r) (va_uri r)) (green_step r)"
  by (auto simp: step_defs green_step_def compare_to_bookmark_def id_le_refl id_le_def [of "[]"] stable_green_in
      split: if_splits sum.splits intro: compare_ids_positive)

section \<open>Ingest\<close>

lemma safe_again_if: "lawfully P m Q \<Longrightarrow> stable stove_evolves P \<Longrightarrow> lawfully P (again_if lost m) (\<lambda>_ _. True)"
  unfolding again_if_def
  by (rule stoves.triple_bind [OF stoves.triple_attempt])
    (auto intro!: stoves.triple_ok stoves.triple_fail split: sum.split)

lemma safe_got: "lawfully (\<lambda>_. True) m Q \<Longrightarrow> lawfully (\<lambda>_. True) (attempt m) (\<lambda>r d. \<forall>x. r = Inr x \<longrightarrow> Q x d)"
  by (rule stoves.triple_conseq [OF stoves.triple_attempt]) auto

lemma queue_step_enablement:
  "queue_step q (q\<lparr>qr_enablement := e, qr_enablement_version := v, qr_enablement_changed_at := t\<rparr>) d"
  "queue_step q (q\<lparr>qr_enablement := e, qr_enablement_version := v, qr_effective_from := u, qr_enablement_changed_at := t\<rparr>) d"
  "queue_step q q d"
  by (simp_all add: queue_step_def queue_moves_def id_le_refl)

lemma safe_row_write:
  "(\<And>d. queue_step q new d) \<Longrightarrow> lawfully (seen_queue q) (queue_update new (qr_version q) (qr_version q + 1)) (\<lambda>_ _. True)"
  by (rule stoves.triple_conseq [OF safe_queue_update]) auto

lemma tame_initialize_round: "tame (initialize_round name)"
  unfolding initialize_round_def Let_def
proof (rule stoves.triple_bind [OF safe_got [OF safe_queue_get]], rule stoves.triple_case_sum)
  fix r :: "goerr + queue_row" and q assume r: "r = Inr q"
  have "lawfully (seen_queue q) (and_then (queue_update (q\<lparr>qr_enablement := Disabled, qr_enablement_version := 1, qr_enablement_changed_at := now\<rparr>)
      (qr_version q) (qr_version q + 1)) (\<lambda>_. ok x)) (\<lambda>_ _. True)" for now x
    by (rule stoves.triple_bind [OF safe_row_write [OF queue_step_enablement(1)] tame_leaf(1)])
  note again = safe_again_if [OF this stable_seen_queue]
  show "lawfully (\<lambda>d. \<forall>x. r = Inr x \<longrightarrow> seen_queue x d)
     (if qr_name q \<noteq> name \<or> qr_version q \<le> 0 then fail (Wrapped ''invalid stored queue'' err_inconsistent_history)
      else if \<not> unregistered q then ok (Some q)
      else and_then stove_now (\<lambda>now. if isl (validate_queue_state (enablement_state (q\<lparr>qr_enablement := Disabled, qr_enablement_version := 1, qr_enablement_changed_at := now\<rparr>)))
        then fail (Wrapped ''invalid enablement'' err_invalid_change)
        else if qr_version q = int32_max then fail (Wrapped ''row version exhausted'' err_invalid_change)
        else again_if is_version_mismatch (and_then (queue_update (q\<lparr>qr_enablement := Disabled, qr_enablement_version := 1, qr_enablement_changed_at := now\<rparr>) (qr_version q) (qr_version q + 1))
          (\<lambda>_. ok (q\<lparr>qr_enablement := Disabled, qr_enablement_version := 1, qr_enablement_changed_at := now, qr_version := qr_version q + 1\<rparr>)))))
     (\<lambda>_ _. True)"
    by (rule stoves.triple_pre [where P' = "seen_queue q"],
        intro stoves.triple_if safe_weaken [OF tame_leaf(1)] stoves.triple_fail safe_carry [OF tame_now stable_seen_queue] again)
      (simp add: r)
next
  fix r :: "goerr + queue_row" and e assume "r = Inl e"
  have "lawfully (\<lambda>_. True) (queue_create ((empty_queue_row name)\<lparr>qr_enablement := Disabled, qr_enablement_version := 1, qr_enablement_changed_at := now\<rparr>)) (\<lambda>_ _. True)" for now
    by (rule tame_of [OF safe_queue_create]) (simp add: empty_queue_row_def)
  then show "lawfully (\<lambda>d. \<forall>x. r = Inr x \<longrightarrow> seen_queue x d)
     (if \<not> is_not_found e then fail e
      else and_then stove_now (\<lambda>now. if isl (validate_queue_state (enablement_state ((empty_queue_row name)\<lparr>qr_enablement := Disabled, qr_enablement_version := 1, qr_enablement_changed_at := now\<rparr>)))
        then fail (Wrapped ''invalid enablement'' err_invalid_change)
        else again_if is_already_exists (and_then (queue_create ((empty_queue_row name)\<lparr>qr_enablement := Disabled, qr_enablement_version := 1, qr_enablement_changed_at := now\<rparr>))
          (\<lambda>_. ok ((empty_queue_row name)\<lparr>qr_enablement := Disabled, qr_enablement_version := 1, qr_enablement_changed_at := now\<rparr>)))))
     (\<lambda>_ _. True)"
    by (intro safe_weaken [OF stoves.triple_if] tame_intros tame_again_if)
qed

lemma tame_resolve_stores: "tame (resolve_stores q)"
  unfolding resolve_stores_def by (intro tame_intros)

lemma tame_initialize_enablement: "tame (initialize_enablement name)"
  unfolding initialize_enablement_def by (intro tame_intros tame_resolve_stores tame_initialize_round tame_repair)

lemma safe_load_internal: "lawfully (\<lambda>_. True) (load_internal_queue name) (\<lambda>q. seen_queue q)"
  unfolding load_internal_queue_def
  by (rule stoves.triple_bind [OF safe_queue_get])
    (auto intro!: stoves.triple_fail stoves.triple_ok safe_carry tame_repair stable_seen_queue)

lemma tame_prepare_change: "tame (prepare_change env name desired u)"
  unfolding prepare_change_def includes_boundary_def Let_def
  by (intro tame_intros tame_resolve_stores tame_of [OF safe_load_internal])

lemma tame_reconcile_change: "tame (reconcile_change current c v)"
  unfolding reconcile_change_def by (intro tame_intros tame_load_version)

lemma tame_validate_boundary: "tame (validate_prepared_boundary env c)"
  unfolding validate_prepared_boundary_def includes_boundary_def by (intro tame_intros)

lemma tame_apply_round: "tame (apply_round env c)"
proof -
  have row: "lawfully (seen_queue q) (and_then (attempt (queue_update (q\<lparr>qr_enablement := e, qr_enablement_version := v, qr_effective_from := u,
      qr_enablement_changed_at := t\<rparr>) (qr_version q) (qr_version q + 1))) f) (\<lambda>_ _. True)"
    if "\<And>x. tame (f x)" for q e v u t and f :: "goerr + unit \<Rightarrow> queue_state option sop"
    by (rule stoves.triple_bind [OF stoves.triple_attempt [OF safe_row_write [OF queue_step_enablement(2)] stable_seen_queue]])
      (rule safe_weaken [OF that])
  show ?thesis
    unfolding apply_round_def Let_def
    by (rule stoves.triple_bind [OF safe_load_internal],
        intro stoves.triple_if safe_carry [OF tame_validate_boundary stable_seen_queue] row;
        (rule safe_weaken)?;
        intro tame_intros tame_load_version tame_reconcile_change tame_repair tame_of [OF safe_load_internal])
qed

lemma tame_enablement: "tame (apply_enablement_decision env name desired u)"
  unfolding apply_enablement_decision_def decision_round_def apply_change_def
  by (intro tame_intros tame_prepare_change tame_again_if tame_apply_round tame_resolve_stores)

lemma safe_resolve_id: "lawfully (\<lambda>_. True) (resolve_id u) (\<lambda>i. mapped_uri u i)"
proof -
  have raced: "lawfully (\<lambda>_. True) (and_then (attempt (request_uri_create u i)) (\<lambda>c. case c of
      Inr _ \<Rightarrow> ok i
    | Inl e \<Rightarrow> if is_already_exists e then map_err g (get_id_by_uri u) else fail (h e))) (\<lambda>i. mapped_uri u i)" for i g h
    by (rule stoves.triple_bind [OF safe_got [OF safe_uri_create]])
      (auto intro!: stoves.triple_ok stoves.triple_fail stoves.triple_map_err stoves.triple_pre [OF safe_get_id_by_uri] split: sum.split)
  show ?thesis
    unfolding resolve_id_def
    by (rule stoves.triple_bind [OF safe_got [OF safe_get_id_by_uri]], rule stoves.triple_case_sum)
      (auto intro!: stoves.triple_ok stoves.triple_fail safe_carry [where F = "\<lambda>_. True"] stoves.triple_map_err tame_appends
        tame_leaf raced intro: stoves.triple_pre [where P' = "\<lambda>_. True"])
qed

lemma safe_ensure_request: "lawfully (mapped_uri u i) (ensure_request i q u) (\<lambda>r. seen r)"
proof -
  let ?r = "\<lparr>va_id = i, va_queue = q, va_uri = u, va_strategy = StrategyUnknown, va_base = [], va_state = StoveAccepted,
           va_build = [], va_terminal_build = [], va_version = 1\<rparr>"
  have get: "lawfully (mapped_uri u i) (validation_get i) (\<lambda>r. seen r)"
    by (rule stoves.triple_conseq [OF safe_validation_get]) auto
  have "lawfully (mapped_uri u i) (validation_create ?r) (\<lambda>_. seen ?r)"
    using safe_validation_create [of ?r] by simp
  from stoves.triple_attempt [OF this stable_mapped_uri]
  have create: "lawfully (mapped_uri u i) (and_then (attempt (validation_create ?r)) (\<lambda>c. case c of
      Inr _ \<Rightarrow> ok ?r
    | Inl e \<Rightarrow> if \<not> is_already_exists e then fail (g e) else validation_get i)) (\<lambda>r. seen r)" for g
    by (rule stoves.triple_bind)
      (auto intro!: stoves.triple_ok stoves.triple_fail intro: stoves.triple_pre [OF get] split: sum.split)
  show ?thesis
    unfolding ensure_request_def Let_def
    by (rule stoves.triple_bind [OF stoves.triple_attempt [OF get stable_mapped_uri]], rule stoves.triple_case_sum)
      (auto intro!: stoves.triple_ok stoves.triple_fail intro: stoves.triple_pre [OF create])
qed

lemma safe_ensure_queue: "lawfully (\<lambda>_. True) (ensure_queue name) (\<lambda>q. seen_queue q)"
proof -
  have "qr_last_green_request (empty_queue_row name) = []" by (simp add: empty_queue_row_def)
  from safe_got [OF safe_queue_create [OF this]]
  have create: "lawfully (\<lambda>_. True) (and_then (attempt (queue_create (empty_queue_row name))) (\<lambda>c. case c of
      Inr _ \<Rightarrow> ok (empty_queue_row name)
    | Inl e \<Rightarrow> if \<not> is_already_exists e then fail (g e) else queue_get name)) (\<lambda>q. seen_queue q)" for g
    by (rule stoves.triple_bind)
      (auto intro!: stoves.triple_ok stoves.triple_fail intro: stoves.triple_pre [OF safe_queue_get] split: sum.split)
  show ?thesis
    unfolding ensure_queue_def
    by (rule stoves.triple_bind [OF safe_got [OF safe_queue_get]], rule stoves.triple_case_sum)
      (auto intro!: stoves.triple_ok stoves.triple_fail intro: stoves.triple_pre [OF create])
qed

lemma tame_advance_latest: "tame (advance_queue_latest_request_id name i)"
proof -
  have "tame (advance_round name i)"
    unfolding advance_round_def
    by (rule stoves.triple_bind [OF safe_ensure_queue], rule stoves.triple_conseq [OF safe_try_queue [OF lawful_newer]]) auto
  then show ?thesis unfolding advance_queue_latest_request_id_def by (intro tame_intros)
qed

lemma tame_publishes:
  "tame (publish_process i q)" "tame (publish_build i q)" "tame (publish_issue_tracking r)" "tame (stove_publish_signal b q)"
  "tame (publish_build_analysis cause b q)" "tame (publish_record i q)" "tame (publish_hook_event t r)"
  unfolding publish_process_def publish_build_def publish_issue_tracking_def stove_publish_signal_def publish_build_analysis_def
    publish_record_def publish_hook_event_def Let_def
  by (intro tame_intros tame_publish)+

lemma tame_logs: "tame (persist_state_log r reason)" "tame (persist_build_log event r b)" "tame (persist_outcome_log r)"
  "tame (persist_failure_log r reason)" "tame (persist_fact_log env r f)"
  unfolding persist_state_log_def persist_build_log_def persist_outcome_log_def persist_failure_log_def persist_fact_log_def
  by (auto intro!: tame_intros tame_persist_request_log split: stove_state.split)

lemma tame_ingest: "tame (ingest env configured rq)"
proof -
  have rest: "lawfully (\<lambda>_. True) (and_then (resolve_id u) (\<lambda>i. and_then (ensure_request i q u) (f i))) (\<lambda>_ _. True)"
    if "\<And>i r. tame (f i r)" for u q and f :: "string \<Rightarrow> validation \<Rightarrow> (string \<times> queue_state) sop"
    by (rule stoves.triple_bind [OF safe_resolve_id], rule stoves.triple_bind [OF safe_ensure_request], rule safe_weaken [OF that])
  show ?thesis
    unfolding ingest_def Let_def
    by (intro stoves.triple_if tame_leaf tame_bind stoves.triple_map_err tame_storage_for tame_ask tame_initialize_enablement
        tame_enablement rest tame_logs tame_advance_latest tame_publishes)
qed

end
