(* ===== verification/StoveRun.thy ===== *)
theory StoveRun
  imports StoveStages
begin

text \<open>
  The stages after ingest and the dead-letter reconcilers as triples, and what follows for every call
  of the service: the lifecycle of a request, and what the bookmark and the facts of a queue may say.
\<close>

section \<open>Process\<close>

lemma safe_carry2:
  "lawfully F m Q \<Longrightarrow> stable stove_evolves F \<Longrightarrow> (\<And>x. lawfully (\<lambda>d. Q x d \<and> F d) (f x) S) \<Longrightarrow> lawfully F (and_then m f) S"
  by (rule stoves.triple_bind [OF stoves.triple_keep])

lemma safe_opened: "tame (opened msg)"
  unfolding opened_def by (cases "st_payload msg") (auto intro!: tame_intros)

lemma tame_same_queue: "tame (same_queue q r)"
  unfolding same_queue_def by (intro tame_intros)

lemma safe_by_id: "lawfully P m Q \<Longrightarrow> lawfully P (by_id name m) Q"
  unfolding by_id_def by (rule stoves.triple_map_err)

lemma tame_start_build: "tame (start_build r)"
  unfolding start_build_def by (intro tame_intros tame_logs tame_publishes)

lemma tame_strategy: "tame (derive_build_strategy env q r)"
  unfolding derive_build_strategy_def
  by (intro stoves.triple_if tame_leaf tame_bind tame_attempt tame_ask) (auto intro!: tame_leaf split: sum.split bool.split)

lemma tame_claim: "lawfully (seen_queue q) (claim_build_slot q) (\<lambda>_ _. True)"
  unfolding claim_build_slot_def
  by (rule stoves.triple_bind [OF stoves.triple_conseq [OF safe_settle_queue [OF lawful_claim]]]) (auto intro: tame_leaf)

lemma safe_mark_processing: "lawfully (seen r) (mark_processing s b r) (\<lambda>_ _. True)"
  unfolding mark_processing_def
  by (rule stoves.triple_conseq [OF safe_settle_validation [OF lawful_admit]]) auto

lemma safe_coalesce: "lawfully (seen r) (coalesce r latest) (\<lambda>_. seen r)"
proof -
  have "lawfully (seen r) (supersede_request r) (\<lambda>_. seen r)"
    unfolding supersede_request_def
    by (rule stoves.triple_bind [OF stoves.triple_keep [OF safe_settle_validation [OF lawful_supersede] stable_seen]])
      (auto intro: stoves.triple_ok)
  note bind = stoves.triple_bind [OF this]
  have "lawfully (seen r) (and_then (supersede_request r) (\<lambda>r'. if va_state r' \<noteq> StoveSuperseded then ok True
      else and_then (persist_state_log r' ReasonSupersededByNewerHead) (\<lambda>_. ok True))) (\<lambda>_. seen r)"
    by (rule bind) (intro stoves.triple_if safe_carry [OF tame_logs(1) stable_seen] stoves.triple_ok)
  then show ?thesis
    unfolding coalesce_def by (intro stoves.triple_case_sum stoves.triple_fail stoves.triple_if stoves.triple_ok)
qed

lemma safe_admit: "lawfully (\<lambda>d. seen_queue q d \<and> seen r d) (admit_latest_head env r q cfg) (\<lambda>_ _. True)"
proof -
  have claimed: "lawfully (\<lambda>d. seen_queue (q\<lparr>qr_version := qr_version q + 1\<rparr>) d \<and> seen r d)
      (and_then (mark_processing s b r) (\<lambda>(transitioned, r'). if \<not> transitioned then ok Ack
        else and_then (claim_build_slot (q\<lparr>qr_version := qr_version q + 1\<rparr>)) (\<lambda>_. and_then (start_build r') (\<lambda>_. ok Ack)))) (\<lambda>_ _. True)" for s b
  proof (rule stoves.triple_bind [where Q = "\<lambda>_. seen_queue (q\<lparr>qr_version := qr_version q + 1\<rparr>)"])
    show "lawfully (\<lambda>d. seen_queue (q\<lparr>qr_version := qr_version q + 1\<rparr>) d \<and> seen r d) (mark_processing s b r)
        (\<lambda>_. seen_queue (q\<lparr>qr_version := qr_version q + 1\<rparr>))"
      by (rule stoves.triple_conseq [OF stoves.triple_frame [OF safe_mark_processing stable_seen_queue]]) auto
  qed (auto intro!: stoves.triple_ok stoves.triple_bind [OF tame_claim] tame_bind tame_start_build tame_leaf)
  have confirm: "lawfully (\<lambda>d. seen_queue q d \<and> seen r d) (and_then (attempt (queue_update q (qr_version q) (qr_version q + 1))) (\<lambda>u. case u of
        Inl e \<Rightarrow> if is_version_mismatch e then ok (Hold 0) else fail (g e)
      | Inr _ \<Rightarrow> and_then (mark_processing s b r) (\<lambda>(transitioned, r'). if \<not> transitioned then ok Ack
        else and_then (claim_build_slot (q\<lparr>qr_version := qr_version q + 1\<rparr>)) (\<lambda>_. and_then (start_build r') (\<lambda>_. ok Ack))))) (\<lambda>_ _. True)" for s b g
  proof -
    have "lawfully (\<lambda>d. seen_queue q d \<and> seen r d) (queue_update q (qr_version q) (qr_version q + 1))
        (\<lambda>_. seen_queue (q\<lparr>qr_version := qr_version q + 1\<rparr>))"
      by (rule stoves.triple_conseq [OF safe_queue_update]) (auto intro: queue_step_enablement(3))
    from stoves.triple_attempt [OF this stable_conj [OF stable_seen_queue stable_seen]] show ?thesis
      by (rule stoves.triple_bind)
        (auto intro!: stoves.triple_ok stoves.triple_fail intro: stoves.triple_pre [OF claimed] split: sum.split)
  qed
  note stable = stable_conj [OF stable_seen_queue stable_seen]
  show ?thesis
    unfolding admit_latest_head_def hold_for_build_slot_def
    by (intro stoves.triple_if safe_weaken [OF tame_leaf(1)] stoves.triple_fail safe_carry [OF tame_strategy stable]
        stoves.triple_case_prod safe_carry [OF tame_publishes(3) stable] confirm)
qed

lemma safe_process_accepted: "lawfully (seen r) (process_accepted env r) (\<lambda>_ _. True)"
proof -
  have "lawfully (\<lambda>d. seen_queue q d \<and> seen r d) (coalesce r latest) (\<lambda>_ d. seen_queue q d \<and> seen r d)" for q latest
    by (rule stoves.triple_conseq [OF stoves.triple_frame [OF safe_coalesce stable_seen_queue]]) auto
  note coalesced = stoves.triple_bind [OF this]
  have "lawfully (\<lambda>d. seen_queue q d \<and> seen r d) (if qr_latest_request q = [] then ok Ack
     else and_then (coalesce r (qr_latest_request q)) (\<lambda>superseded. if superseded then ok Ack
       else and_then (map_err (Wrapped ''failed to load queue config'') (ask_env (se_config env (va_queue r)))) (\<lambda>cfg. admit_latest_head env r q cfg)))
     (\<lambda>_ _. True)" for q
    by (intro stoves.triple_if safe_weaken [OF tame_leaf(1)] coalesced safe_carry [OF stoves.triple_map_err [OF tame_ask]]
        stable_conj stable_seen_queue stable_seen safe_admit)
  moreover have "lawfully (seen r) (by_id ''queue'' (queue_get (va_queue r))) (\<lambda>q d. seen_queue q d)"
    by (rule safe_by_id, rule stoves.triple_pre [OF safe_queue_get]) simp
  ultimately show ?thesis
    unfolding process_accepted_def by (intro safe_carry2 [OF _ stable_seen])
qed

text \<open>What every stage does after its message: read the request.\<close>

lemma safe_on_request:
  assumes "\<And>r. lawfully (seen r) (f r) Q"
  shows "lawfully (\<lambda>_. True) (and_then (by_id name (validation_get i)) (\<lambda>r. and_then (same_queue q r) (\<lambda>_. f r))) Q"
  by (rule stoves.triple_bind [OF safe_by_id [OF safe_validation_get]],
      rule stoves.triple_pre [OF safe_carry [OF tame_same_queue stable_seen]])
    (auto intro: assms)

lemma tame_process: "tame (stove_process env msg)"
proof -
  have "lawfully (seen r) (case va_state r of
       StoveProcessing \<Rightarrow> and_then (start_build r) (\<lambda>_. ok Ack)
     | StoveSuperseded \<Rightarrow> and_then (persist_state_log r ReasonSupersededByNewerHead) (\<lambda>_. ok Ack)
     | StoveAccepted \<Rightarrow> process_accepted env r
     | _ \<Rightarrow> ok Ack) (\<lambda>_ _. True)" for r
    by (auto intro!: safe_weaken [OF tame_leaf(1)] safe_weaken [OF tame_bind] tame_start_build tame_logs tame_leaf safe_process_accepted
        split: stove_state.split)
  then show ?thesis
    unfolding stove_process_def by (intro stoves.triple_bind [OF safe_opened] stoves.triple_case_prod safe_on_request)
qed

section \<open>Build\<close>

lemma safe_associate: "lawfully (seen r) (associate_build b r) (\<lambda>r'. seen r')"
  unfolding associate_build_def
  by (rule stoves.triple_bind [OF safe_settle_validation [OF lawful_associate]]) (auto intro: stoves.triple_ok)

lemma safe_create_build: "lawfully (seen r) (create_build env base r) (\<lambda>r'. seen r')"
  unfolding create_build_def
  by (intro safe_carry tame_intros stable_seen stoves.triple_case_sum stoves.triple_if stoves.triple_fail safe_associate safe_by_id)

lemma tame_both: "tame m \<Longrightarrow> tame n \<Longrightarrow> tame (both m n)"
  unfolding both_def by (intro tame_intros)

lemma tame_build_process: "tame (stove_build_process env msg)"
proof -
  have announce: "tame (and_then (persist_build_log BuildTriggered r b) (\<lambda>_. and_then (both (map_err g (stove_publish_signal b q))
      (publish_build_analysis c b q)) (\<lambda>_. ok Ack)))" for r b q c g
    by (intro tame_bind tame_logs tame_both stoves.triple_map_err tame_publishes tame_leaf)
  have "lawfully (seen r) (and_then (if va_build r = [] then create_build env base r else ok r) (\<lambda>r'. and_then (persist_build_log BuildTriggered r' (va_build r')) (\<lambda>_.
     and_then (both (map_err (Wrapped ''failed to publish build signal'') (stove_publish_signal (va_build r') (va_queue r')))
         (publish_build_analysis ''started'' (va_build r') (va_queue r'))) (\<lambda>_. ok Ack)))) (\<lambda>_ _. True)" for r base
    by (rule stoves.triple_bind [where Q = "\<lambda>r'. seen r'"])
      (auto intro!: safe_create_build stoves.triple_ok safe_weaken [OF announce])
  then show ?thesis
    unfolding stove_build_process_def Let_def
    by (intro stoves.triple_bind [OF safe_opened] stoves.triple_case_prod safe_on_request stoves.triple_if safe_weaken [OF tame_leaf(1)] stoves.triple_fail)
qed

section \<open>Buildsignal\<close>

lemma tame_release: "tame (release_build_slot name)"
  unfolding release_build_slot_def
  by (rule stoves.triple_bind [OF stoves.triple_conseq [OF safe_queue_loop [OF lawful_release]]]) (auto intro: tame_leaf)

lemma outcome_is_one: "has_build_outcome (build_outcome_state s)"
  by (simp add: build_outcome_state_def has_build_outcome_def split: stove_build_status.split)

lemma safe_finish: "lawfully (seen r) (finish_request r b s) (\<lambda>r'. seen r')"
  unfolding finish_request_def mark_outcome_def
  by (intro stoves.triple_if safe_carry [OF tame_release stable_seen] stoves.triple_bind [OF safe_settle_validation [OF lawful_outcome_step [OF outcome_is_one]]])
    (auto intro: stoves.triple_ok)

lemma seen_green: "seen r d \<Longrightarrow> va_state r = StoveSucceeded \<Longrightarrow> green_in (va_id r) (va_uri r) d"
  by (auto simp: seen_def green_in_def green_request_def validation_moves_def stove_leads_def)

lemma safe_advance_green: "va_state r = StoveSucceeded \<Longrightarrow> lawfully (seen r) (advance_last_green r) (\<lambda>_ _. True)"
  unfolding advance_last_green_def
  by (rule stoves.triple_bind [OF stoves.triple_pre [OF safe_queue_loop [OF lawful_green]]]) (auto intro: seen_green stoves.triple_ok)

lemma safe_conclude: "lawfully (seen r) (conclude_build r b s) (\<lambda>_ _. True)"
proof -
  have "lawfully (seen r') (and_then (if va_state r' = StoveSucceeded then advance_last_green r' else ok ()) (\<lambda>_. and_then (persist_outcome_log r') (\<lambda>_.
     both (map_err g (publish_record (va_id r') (va_queue r'))) (publish_build_analysis c b (va_queue r'))))) (\<lambda>_ _. True)" for r' g c
    by (intro stoves.triple_bind [where Q = "\<lambda>_ _. True"] stoves.triple_if safe_advance_green safe_weaken [OF tame_leaf(1)] tame_bind tame_logs
        tame_both stoves.triple_map_err tame_publishes)
  then show ?thesis
    unfolding conclude_build_def
    by (intro safe_carry [OF tame_logs(2) stable_seen] stoves.triple_bind [OF safe_finish])
qed

lemma safe_reconcile: "lawfully (seen_build b) (stove_reconcile b s) (\<lambda>_ _. True)"
  unfolding stove_reconcile_def
  by (intro stoves.triple_if safe_weaken [OF tame_leaf(1)] stoves.triple_bind [OF stoves.triple_map_err [OF safe_build_update]])
    (auto intro: tame_leaf)

lemma tame_signal: "tame (stove_signal_process env msg)"
proof -
  have "lawfully (\<lambda>d. seen r d \<and> seen_build b d) (and_then (stove_reconcile b status) (\<lambda>effective.
     if run_terminal effective then and_then (conclude_build r (sb_id b) effective) (\<lambda>_. ok Ack) else ok (Hold (stove_poll_delay effective))))
     (\<lambda>_ _. True)" for r b status
    by (rule stoves.triple_bind [where Q = "\<lambda>_. seen r"],
        rule stoves.triple_conseq [OF stoves.triple_frame [OF safe_reconcile stable_seen]])
      (auto intro!: stoves.triple_bind [OF safe_conclude] stoves.triple_ok)
  then have polled: "lawfully (\<lambda>d. seen r d \<and> seen_build b d) (if va_state r \<noteq> StoveProcessing \<and> \<not> has_build_outcome (va_state r) then ok Ack
     else and_then (map_err g (ask_env f)) (\<lambda>status. and_then (stove_reconcile b status) (\<lambda>effective.
     if run_terminal effective then and_then (conclude_build r (sb_id b) effective) (\<lambda>_. ok Ack) else ok (Hold (stove_poll_delay effective)))))
     (\<lambda>_ _. True)" for r b f g
    by (intro stoves.triple_if safe_weaken [OF tame_leaf(1)] safe_carry [OF stoves.triple_map_err [OF tame_ask]] stable_conj stable_seen stable_seen_build)
  have request: "lawfully (seen_build b) (by_id ''request'' (validation_get i)) (\<lambda>r d. seen r d)" for b i
    by (rule safe_by_id, rule stoves.triple_conseq [OF safe_validation_get]) auto
  have build: "lawfully (\<lambda>_. True) (by_id ''build'' (stove_build_get i)) (\<lambda>b d. seen_build b d)" for i
    by (rule safe_by_id, rule stoves.triple_conseq [OF safe_stove_build_get]) auto
  show ?thesis
    unfolding stove_signal_process_def
    by (intro stoves.triple_bind [OF safe_opened] stoves.triple_case_prod stoves.triple_bind [OF build] safe_carry2 [OF request stable_seen_build]
        safe_carry [OF tame_same_queue] stable_conj stable_seen stable_seen_build polled)
qed

section \<open>Record\<close>

lemma safe_record_validation_fact: "lawfully (fact_in f) (record_validation_fact f) (\<lambda>_ _. True)"
  unfolding record_validation_fact_def
  by (rule stoves.triple_bind [OF stoves.triple_attempt [OF safe_fact_create stable_fact_in]])
    (rule safe_weaken, intro stoves.triple_case_sum tame_leaf stoves.triple_if tame_bind stoves.triple_map_err tame_stores)

lemma seen_outcome:
  assumes "seen r d" and "va_state r \<in> {StoveSucceeded, StoveFailed}"
  shows "fact_in \<lparr>vf_uri = va_uri r, vf_project = [], vf_project_type = [], vf_degree = degree_for (va_state r) results,
    vf_request = va_id r, vf_created_at = now\<rparr> d"
proof -
  from assms obtain r0 where "s_requests d (va_id r) = Some r0" "va_uri r0 = va_uri r" "va_state r0 = va_state r"
    by (auto simp: seen_def validation_moves_def stove_leads_def)
  with assms(2) show ?thesis
    by (auto simp: fact_in_def fact_of_outcome_def fact_is_green_def degree_for_def degree_green_def degree_partial_def degree_broken_def)
qed

lemma safe_record_fact: "va_state r \<in> {StoveSucceeded, StoveFailed} \<Longrightarrow> lawfully (seen r) (record_fact r results) (\<lambda>_ _. True)"
  unfolding record_fact_def
  by (rule safe_carry [OF tame_now stable_seen], rule stoves.triple_pre [OF safe_record_validation_fact]) (erule seen_outcome)

lemma tame_project_fact:
  assumes "pj_name p \<noteq> []"
  shows "tame (persist_project_fact r p broken)"
proof -
  have "tame (record_validation_fact \<lparr>vf_uri = va_uri r, vf_project = pj_name p, vf_project_type = pj_type p, vf_degree = pj_degree p,
      vf_request = va_id r, vf_created_at = now\<rparr>)" for now
    by (rule stoves.triple_pre [OF safe_record_validation_fact]) (simp add: fact_in_def assms)
  then show ?thesis
    unfolding persist_project_fact_def Let_def by (intro tame_intros tame_stores)
qed

lemma validate_results_named: "validate_results ps names = Inr () \<Longrightarrow> p \<in> set ps \<Longrightarrow> pj_name p \<noteq> []"
  by (induction ps names rule: validate_results.induct) (auto split: if_splits)

lemma safe_resolve_results: "lawfully (\<lambda>_. True) (resolve_project_results env r) (\<lambda>results _. \<forall>p\<in>set results. pj_name p \<noteq> [])"
  unfolding resolve_project_results_def
  by (intro tame_bind stoves.triple_bind [OF stoves.triple_map_err [OF tame_ask]] stoves.triple_bind [OF stoves.triple_of_sum [where Q = "\<lambda>_ _. validate_results x [] = Inr ()" for x]])
    (auto intro: stoves.triple_ok dest: validate_results_named)

lemma tame_project_facts: "\<forall>p\<in>set results. pj_name p \<noteq> [] \<Longrightarrow> tame (persist_project_facts r results)"
  unfolding persist_project_facts_def
  by (intro tame_bind stoves.triple_fold_act [of results "\<lambda>_ _. True"] stoves.triple_map_err tame_persist_request_log)
    (auto intro: tame_project_fact)

lemma tame_derived: "tame (apply_fact_to_derived_caches env r f)"
  unfolding apply_fact_to_derived_caches_def by (intro tame_intros)

lemma tame_record: "tame (stove_record_process env msg)"
proof -
  have facts: "lawfully (\<lambda>d. (\<forall>p\<in>set results. pj_name p \<noteq> []) \<and> seen r d) (and_then (record_fact r results) (\<lambda>(f, _). and_then (persist_fact_log env r f) (\<lambda>_.
       and_then (persist_project_facts r results) (\<lambda>_. and_then (apply_fact_to_derived_caches env r f) (\<lambda>_.
       and_then (publish_hook_event repository_recorded r) (\<lambda>_. ok Ack)))))) (\<lambda>_ _. True)"
    if "va_state r \<in> {StoveSucceeded, StoveFailed}" for r results
  proof (cases "\<forall>p\<in>set results. pj_name p \<noteq> []")
    case True
    have "lawfully (seen r) (and_then (record_fact r results) (\<lambda>(f, _). and_then (persist_fact_log env r f) (\<lambda>_.
       and_then (persist_project_facts r results) (\<lambda>_. and_then (apply_fact_to_derived_caches env r f) (\<lambda>_.
       and_then (publish_hook_event repository_recorded r) (\<lambda>_. ok Ack)))))) (\<lambda>_ _. True)"
      by (intro stoves.triple_bind [OF safe_record_fact [OF that]] stoves.triple_case_prod tame_bind tame_logs tame_project_facts [OF True]
          tame_derived tame_publishes tame_leaf)
    then show ?thesis by (rule stoves.triple_pre) simp
  next
    case False
    then show ?thesis unfolding triple_def by blast
  qed
  have "lawfully (seen r) (if va_state r \<in> {StoveSucceeded, StoveFailed} then and_then (resolve_project_results env r) (\<lambda>results.
       and_then (record_fact r results) (\<lambda>(f, _). and_then (persist_fact_log env r f) (\<lambda>_.
       and_then (persist_project_facts r results) (\<lambda>_. and_then (apply_fact_to_derived_caches env r f) (\<lambda>_.
       and_then (publish_hook_event repository_recorded r) (\<lambda>_. ok Ack))))))
     else if va_state r = StoveCancelled then and_then (publish_hook_event repository_cancelled r) (\<lambda>_. ok Ack)
     else if va_state r = StoveSuperseded then ok Ack
     else fail (Plain ''request reached record in non-terminal state'')) (\<lambda>_ _. True)" for r
    by (intro stoves.triple_if safe_weaken [OF tame_leaf(1)] stoves.triple_fail safe_weaken [OF tame_bind] tame_publishes tame_leaf
        safe_carry2 [OF stoves.triple_pre [OF safe_resolve_results] stable_seen] facts) auto
  then show ?thesis
    unfolding stove_record_process_def by (intro stoves.triple_bind [OF safe_opened] stoves.triple_case_prod safe_on_request)
qed

section \<open>Dead letters\<close>

lemma tame_release_slot: "tame (release_slot name)"
proof -
  have release: "lawfully (seen_queue q) (try_queue what release_step q) (\<lambda>_ _. True)" for q what
    by (rule stoves.triple_conseq [OF safe_try_queue [OF lawful_release]]) auto
  have "tame (and_then (attempt (queue_get name)) (\<lambda>g. case g of
         Inl e \<Rightarrow> if is_not_found e then ok (Some ()) else fail (Wrapped ''failed to get queue'' e)
       | Inr q \<Rightarrow> and_then (try_queue ''failed to release slot for queue'' release_step q) (\<lambda>x. ok (map_option (\<lambda>_. ()) x))))"
    by (rule stoves.triple_bind [OF safe_got [OF safe_queue_get]], rule stoves.triple_case_sum)
      (auto intro!: safe_weaken [OF stoves.triple_if] tame_leaf stoves.triple_ok intro: stoves.triple_pre [OF stoves.triple_bind [OF release]])
  then show ?thesis unfolding release_slot_def by (rule tame_bind [OF tame_until_settled tame_leaf(1)])
qed

lemma failing_step: "\<not> stove_terminal (va_state r) \<Longrightarrow> validation_step r (r\<lparr>va_state := StoveFailed\<rparr>)"
  by (cases "va_state r") (auto simp: step_defs stove_terminal_def)

lemma tame_found:
  assumes "\<And>e. tame (f e)" and "\<And>r. lawfully (seen r) (g r) (\<lambda>_ _. True)"
  shows "tame (and_then (attempt (validation_get i)) (\<lambda>x. case x of Inl e \<Rightarrow> f e | Inr r \<Rightarrow> g r))"
  by (rule stoves.triple_bind [OF safe_got [OF safe_validation_get]], rule stoves.triple_case_sum)
    (auto intro: safe_weaken assms stoves.triple_pre [OF assms(2)])

lemma tame_fail_request: "tame (stove_fail_request i reason)"
proof -
  have "lawfully (seen r) (if stove_terminal (va_state r) then if va_state r = StoveFailed then persist_failure_log r reason else ok ()
     else and_then (if va_state r = StoveProcessing then map_err g (release_slot (va_queue r)) else ok ()) (\<lambda>_.
       and_then (map_err h (validation_update (r\<lparr>va_state := StoveFailed\<rparr>) (va_version r) (va_version r + 1))) (\<lambda>_.
       persist_failure_log (r\<lparr>va_state := StoveFailed, va_version := va_version r + 1\<rparr>) reason))) (\<lambda>_ _. True)" for r g h
    by (intro stoves.triple_if safe_weaken [OF tame_logs(4)] safe_weaken [OF tame_leaf(1)] safe_carry stable_seen stoves.triple_map_err tame_release_slot
        tame_leaf stoves.triple_bind [OF stoves.triple_map_err [OF safe_validation_update [OF failing_step]]])
  then show ?thesis
    unfolding stove_fail_request_def Let_def by (rule tame_found [OF stoves.triple_if [OF tame_leaf(1) tame_leaf(2)]])
qed

lemma tame_dlq_opened: "tame (dlq_opened msg)"
  unfolding dlq_opened_def by (cases "st_payload msg") (auto intro!: tame_intros)

lemma tame_dlqs: "tame (stove_dlq_request msg)" "tame (stove_dlq_build msg)" "tame (stove_dlq_signal msg)"
  unfolding stove_dlq_request_def stove_dlq_build_def stove_dlq_signal_def
  by (intro tame_intros tame_dlq_opened tame_fail_request)+

lemma tame_dlq_record: "tame (stove_dlq_record env msg)"
proof -
  have settled: "lawfully (seen r) (and_then (record_fact r []) (\<lambda>(f, _). and_then (persist_fact_log env r f) (\<lambda>_. publish_hook_event repository_recorded r)))
      (\<lambda>_ _. True)" if "va_state r = StoveFailed" for r
    by (intro stoves.triple_bind [OF safe_record_fact] stoves.triple_case_prod tame_bind tame_logs tame_publishes) (simp add: that)
  have "lawfully (seen r) (if q \<noteq> [] \<and> q \<noteq> va_queue r then ok () else
      and_then (map_err g (persist_request_log l)) (\<lambda>_. if va_state r = StoveFailed
         then and_then (record_fact r []) (\<lambda>(f, _). and_then (persist_fact_log env r f) (\<lambda>_. publish_hook_event repository_recorded r)) else ok ()))
      (\<lambda>_ _. True)" for r q g l
    by (intro stoves.triple_if safe_weaken [OF tame_leaf(1)] safe_carry stable_seen stoves.triple_map_err tame_persist_request_log settled)
  note found = tame_found [OF stoves.triple_if [OF tame_leaf(1) tame_leaf(2)] this]
  show ?thesis
  proof (cases "st_payload msg")
    case (ById i q)
    show ?thesis
      unfolding stove_dlq_record_def ById stove_payload.case
      by (intro stoves.triple_if tame_leaf(1) tame_bind [OF tame_attempt [OF tame_storage_for]] found)
  qed (simp_all add: stove_dlq_record_def tame_leaf)
qed

section \<open>Every call\<close>

datatype stove_call =
    Ingest "string set" ingest_request
  | ProcessMessage stove_message
  | BuildMessage stove_message
  | SignalMessage stove_message
  | RecordMessage stove_message
  | DeadProcess stove_message
  | DeadBuild stove_message
  | DeadSignal stove_message
  | DeadRecord stove_message

fun after_stage :: "stove_env \<Rightarrow> stove_call \<Rightarrow> stove \<Rightarrow> stove" where
  "after_stage env (Ingest configured rq) w = snd (ingest env configured rq w)"
| "after_stage env (ProcessMessage m) w = snd (stove_process env m w)"
| "after_stage env (BuildMessage m) w = snd (stove_build_process env m w)"
| "after_stage env (SignalMessage m) w = snd (stove_signal_process env m w)"
| "after_stage env (RecordMessage m) w = snd (stove_record_process env m w)"
| "after_stage env (DeadProcess m) w = snd (stove_dlq_request m w)"
| "after_stage env (DeadBuild m) w = snd (stove_dlq_build m w)"
| "after_stage env (DeadSignal m) w = snd (stove_dlq_signal m w)"
| "after_stage env (DeadRecord m) w = snd (stove_dlq_record env m w)"

lemma stage_evolves:
  assumes "abides stove_inv stove_evolves w" and "stove_inv (w_db w)"
  shows "stove_evolves (w_db w) (w_db (after_stage env c w))"
  by (cases c) (auto intro!: triple_evolves [where I = stove_inv and P = "\<lambda>_. True" and Q = "\<lambda>_ _. True"]
      assms tame_ingest tame_process tame_build_process tame_signal tame_record tame_dlqs tame_dlq_record)

end
