(* ===== verification/StoveFacts.thy ===== *)
theory StoveFacts
  imports StoveRun
begin

text \<open>
  What follows for Stovepipe as a whole: its loops end as one of their rounds does and never for lack
  of rounds, a request keeps to its lifecycle, the bookmark and the facts of a queue tell the truth,
  and a dead letter that comes after the outcome is never reconciled.
\<close>

section \<open>The loops of the conditional writes\<close>

lemma db_op_shortens: "w_script (snd (db_op f w)) = tl (w_script w)"
  by (cases "db_op f w") (simp add: db_op_script)

definition shrinks :: "'a sop \<Rightarrow> bool" where
  "shrinks m \<longleftrightarrow> (\<forall>w. length (w_script (snd (m w))) \<le> length (w_script w))"

lemma shrinks_and_then: "shrinks m \<Longrightarrow> (\<And>x. shrinks (f x)) \<Longrightarrow> shrinks (and_then m f)"
  unfolding shrinks_def
proof
  fix w
  assume m: "\<forall>w. length (w_script (snd (m w))) \<le> length (w_script w)"
    and f: "\<And>x. \<forall>w. length (w_script (snd (f x w))) \<le> length (w_script w)"
  show "length (w_script (snd (and_then m f w))) \<le> length (w_script w)"
  proof (cases "m w")
    case (Pair r w1)
    with m have "length (w_script w1) \<le> length (w_script w)" by (metis snd_conv)
    with Pair f show ?thesis by (cases r) (auto simp: act_simps intro: order.trans)
  qed
qed

lemma shrinks_leaf: "shrinks (ok x)" "shrinks (fail e)" "shrinks (db_op f)"
  by (simp_all add: shrinks_def ok_apply fail_apply db_op_shortens)

lemma shrinks_attempt: "shrinks m \<Longrightarrow> shrinks (attempt m)"
  by (simp add: shrinks_def attempt_apply)

lemma shrinks_bound: "shrinks m \<Longrightarrow> shrinks (bound q m)"
  by (simp add: shrinks_def bound_def)

lemma shrinks_writes: "shrinks (validation_update r old new)" "shrinks (queue_update q old new)"
  unfolding validation_update_def queue_update_def by (intro shrinks_bound shrinks_leaf)+

lemma shrinks_tries: "shrinks (try_validation what vstep r)" "shrinks (try_queue what qstep q)"
proof -
  show "shrinks (try_validation what vstep r)"
    unfolding try_validation_def
    by (cases "vstep r") (auto intro!: shrinks_leaf shrinks_and_then shrinks_attempt shrinks_writes split: sum.split)
  show "shrinks (try_queue what qstep q)"
    unfolding try_queue_def
    by (cases "qstep q") (auto intro!: shrinks_leaf shrinks_and_then shrinks_attempt shrinks_writes split: sum.split)
qed

text \<open>With an empty script a read is what the database holds, and a conditional write of the row just read hits.\<close>

lemma retrying_queue: "retrying (\<lambda>_. True) (reload_queue lost what step name)"
proof
  fix w w' :: stove
  assume run: "reload_queue lost what step name w = (Inr None, w')"
  then obtain q w1 where got: "queue_get name w = (Inr q, w1)" and tried: "try_queue what step q w1 = (Inr None, w')"
    unfolding reload_queue_def by (auto simp: act_simps split: prod.splits sum.splits)
  from got have bound: "name = s_queue w" and op: "db_op (\<lambda>d. (select_row (s_queue_row d), d)) w = (Inr q, w1)"
    by (auto simp: queue_get_def split: if_splits)
  have "length (w_script w') \<le> length (w_script w1)"
    using shrinks_tries(2) [of what step q] tried unfolding shrinks_def by (metis snd_conv)
  moreover have "w_script w1 = tl (w_script w)" using op by (rule db_op_script)
  moreover have False if quiet: "w_script w = []"
  proof -
    from op quiet have row: "s_queue_row (w_db w) = Some q" and w1: "w1 = w"
      by (auto simp: act_simps select_row_def split: option.splits)
    show False
    proof (cases "step q")
      case (Put new)
      have "queue_row_update new (qr_version q) (qr_version q + 1) (w_db w) = (Inr (), (w_db w)\<lparr>s_queue_row := Some (new\<lparr>qr_version := qr_version q + 1\<rparr>)\<rparr>)"
        using row by (auto simp: queue_row_update_def dest: arg_cong [where f = qr_version])
      with tried quiet w1 Put show False
        by (auto simp: try_queue_def queue_update_def bound_def act_simps split: if_splits)
    qed (use tried quiet in \<open>auto simp: try_queue_def act_simps\<close>)
  qed
  ultimately show "True \<and> length (w_script w') < length (w_script w)" by (cases "w_script w") auto
qed

definition lawful_world :: "stove \<Rightarrow> bool" where
  "lawful_world w \<longleftrightarrow> abides stove_inv stove_evolves w \<and> stove_inv (w_db w)"

lemma safe_lawful: "lawfully P m Q \<Longrightarrow> lawful_world w \<Longrightarrow> P (w_db w) \<Longrightarrow> m w = (r, w') \<Longrightarrow> lawful_world w'"
  unfolding triple_def lawful_world_def using stoves.evolves_keeps by blast

lemma retrying_validation:
  assumes "lawful_validation step"
  shows "retrying lawful_world (reload_validation lost what step i)"
proof
  fix w w'
  assume ready: "lawful_world w" and run: "reload_validation lost what step i w = (Inr None, w')"
  then obtain r w1 where got: "validation_get i w = (Inr r, w1)" and tried: "try_validation what step r w1 = (Inr None, w')"
    unfolding reload_validation_def by (auto simp: act_simps split: prod.splits sum.splits)
  from got have op: "db_op (\<lambda>d. (select_row (s_requests d i), d)) w = (Inr r, w1)" by (simp add: validation_get_def)
  have "length (w_script w') \<le> length (w_script w1)"
    using shrinks_tries(1) [of what step r] tried unfolding shrinks_def by (metis snd_conv)
  moreover have "w_script w1 = tl (w_script w)" using op by (rule db_op_script)
  moreover have False if quiet: "w_script w = []"
  proof -
    from op quiet have row: "s_requests (w_db w) i = Some r" and w1: "w1 = w"
      by (auto simp: act_simps select_row_def split: option.splits)
    with ready have i: "va_id r = i" by (auto simp: lawful_world_def dest: request_keyed)
    show False
    proof (cases "step r")
      case (Put new)
      with assms have "validation_moves r (new\<lparr>va_version := va_version r + 1\<rparr>)"
        by (auto simp: lawful_validation_def validation_step_def)
      then have "va_id new = i" using i by (auto simp: validation_moves_def dest: arg_cong [where f = va_id])
      then have "validation_row_update new (va_version r) (va_version r + 1) (w_db w) =
          (Inr (), (w_db w)\<lparr>s_requests := (s_requests (w_db w))(i \<mapsto> new\<lparr>va_version := va_version r + 1\<rparr>)\<rparr>)"
        using row by (auto simp: validation_row_update_def update_where_def dest: arg_cong [where f = va_version])
      with tried quiet w1 Put show False
        by (auto simp: try_validation_def validation_update_def bound_def act_simps split: if_splits)
    qed (use tried quiet in \<open>auto simp: try_validation_def act_simps\<close>)
  qed
  moreover have "lawful_world w'"
    using safe_reload_validation [OF assms] ready TrueI run by (rule safe_lawful)
  ultimately show "lawful_world w' \<and> length (w_script w') < length (w_script w)" by (cases "w_script w") auto
qed

interpretation queue_loop: retrying "\<lambda>_. True" "reload_queue lost what step name" for lost what step name
  by (rule retrying_queue)

interpretation outcome_loop: retrying lawful_world "reload_validation lost what (outcome_step b (build_outcome_state s)) i" for lost what b s i
  by (rule retrying_validation [OF lawful_outcome_step [OF outcome_is_one]])

lemma try_errors:
  "try_queue what qstep q w = (Inl e, w') \<Longrightarrow> (\<exists>c. e = Wrapped what c) \<or> qstep q = Refuse e"
  "try_validation what vstep r w = (Inl e, w') \<Longrightarrow> (\<exists>c. e = Wrapped what c) \<or> vstep r = Refuse e"
  by (auto simp: try_queue_def try_validation_def act_simps split: cas.splits sum.splits if_splits)

lemma reload_errors:
  "reload_queue lost what qstep name w = (Inl e, w') \<Longrightarrow> (\<exists>m c. e = Wrapped m c) \<or> (\<exists>q. qstep q = Refuse e)"
  "reload_validation lost what vstep i w = (Inl e, w') \<Longrightarrow> (\<exists>m c. e = Wrapped m c) \<or> (\<exists>r. vstep r = Refuse e)"
  by (auto simp: reload_queue_def reload_validation_def act_simps split: prod.splits sum.splits dest: try_errors)

lemma release_never_exhausts: "release_build_slot name w = (Inl e, w') \<Longrightarrow> e \<noteq> out_of_rounds"
proof -
  assume "release_build_slot name w = (Inl e, w')"
  then have "until_settled (reload_queue ''failed to load queue to release build slot'' ''failed to release build slot for queue'' release_step name) w = (Inl e, w')"
    by (auto simp: release_build_slot_def act_simps split: prod.splits sum.splits)
  from queue_loop.error_of_a_round [OF TrueI this] obtain w0 where
    "reload_queue ''failed to load queue to release build slot'' ''failed to release build slot for queue'' release_step name w0 = (Inl e, w')" by blast
  then show ?thesis by (auto dest!: reload_errors simp: out_of_rounds_def release_step_def split: if_splits)
qed

lemma mark_never_exhausts:
  assumes "lawful_world w" and "seen r (w_db w)" and "mark_outcome b (build_outcome_state s) r w = (Inl e, w')"
  shows "e \<noteq> out_of_rounds"
proof -
  let ?step = "outcome_step b (build_outcome_state s)"
  let ?once = "try_validation ''failed to mark request'' ?step r"
  let ?body = "reload_validation ''failed to reload request after version mismatch'' ''failed to mark request'' ?step (va_id r)"
  obtain y w1 where tried: "?once w = (y, w1)" by (cases "?once w")
  have no_refusal: "?step q \<noteq> Refuse out_of_rounds" for q by (simp add: outcome_step_def)
  show ?thesis
  proof (cases y)
    case (Inl e')
    with assms(3) tried have "?once w = (Inl e, w')"
      by (simp add: mark_outcome_def settle_validation_def act_simps split: prod.splits)
    from try_errors(2) [OF this] no_refusal show ?thesis by (auto simp: out_of_rounds_def)
  next
    case (Inr z)
    with assms(3) tried have z: "z = None" and rounds: "until_settled ?body w1 = (Inl e, w')"
      by (auto simp: mark_outcome_def settle_validation_def act_simps split: prod.splits sum.splits option.splits)
    have "lawful_world w1"
      using safe_try_validation [OF lawful_outcome_step [OF outcome_is_one]] assms(1,2) tried by (rule safe_lawful)
    from outcome_loop.error_of_a_round [OF this rounds] obtain w0 where "?body w0 = (Inl e, w')" by blast
    from reload_errors(2) [OF this] no_refusal show ?thesis by (auto simp: out_of_rounds_def)
  qed
qed

section \<open>A small queue\<close>

definition sample_validation :: validation where
  "sample_validation = \<lparr>va_id = ''7'', va_queue = ''q'', va_uri = ''c'', va_strategy = StrategyFull, va_base = [], va_state = StoveProcessing,
     va_build = ''b'', va_terminal_build = [], va_version = 2\<rparr>"

definition sample_stove :: stove where
  "sample_stove = \<lparr>w_db = \<lparr>s_requests = [''7'' \<mapsto> sample_validation], s_uris = [''c'' \<mapsto> ''7''],
     s_queue_row = Some ((empty_queue_row ''q'')\<lparr>qr_in_flight := 1, qr_latest_request := ''7''\<rparr>),
     s_builds = [''b'' \<mapsto> \<lparr>sb_id = ''b'', sb_request = ''7'', sb_status = RunRunning, sb_version = 1\<rparr>],
     s_logs = Map.empty, s_summaries = Map.empty, s_acceptances = [], s_facts = Map.empty, s_facts_by_degree = [],
     s_queue_logs = Map.empty, s_queue_summary = None, s_counter = 7, s_messages = []\<rparr>, w_script = [],
     s_queue = ''q'', s_registry = (\<lambda>_. Some ''t''), s_clock = (\<lambda>n. 10), s_ticks = 0, s_effects = []\<rparr>"

definition sample_env :: stove_env where
  "sample_env = \<lparr>se_latest = (\<lambda>_. Inr ''c''), se_is_ancestor = (\<lambda>_ _ _. Inr True), se_promote = (\<lambda>_ _. Inr ()), se_trigger = (\<lambda>_ _ _. Inr ''b''),
     se_status = (\<lambda>_ _. Inr RunSucceeded), se_config = (\<lambda>q _. Inr \<lparr>sv_name = q, sv_max_concurrent = 1, sv_gate_wait_delay_ms = 10\<rparr>),
     se_results = (\<lambda>_ _ _. Inr []), se_degree_text = (\<lambda>_. []), se_fact_identity = (\<lambda>u p. u @ p)\<rparr>"

definition sample_stove_message :: "string \<Rightarrow> stove_message" where
  "sample_stove_message i = \<lparr>st_envelope = \<lparr>m_tenant = ''q'', m_topic = ''t'', m_id = ''m'', m_partition = ''p'', m_payload = PBad,
     m_metadata = [metadata_key_queue_name \<mapsto> ''q''], m_published_at = 10\<rparr>, st_payload = ById i ''q''\<rparr>"

lemma sample_lawful: "lawful_world sample_stove"
  by (simp add: lawful_world_def abides_def sample_stove_def stove_inv_def sample_validation_def empty_queue_row_def)

lemma sample_seen: "seen sample_validation (w_db sample_stove)"
  by (simp add: seen_def sample_stove_def validation_moves_refl) (simp add: sample_validation_def)

text \<open>
  C32. Concluding a build returns: the loops that free its slot and mark its request go round again only
  after another writer won, so they end, with the outcome written or with the error of a failed call,
  and never for lack of rounds, whatever the others do and whichever calls fail.
\<close>
theorem finish_request_returns:
  assumes "lawful_world w" and "seen r (w_db w)"
  shows "fst (finish_request r b s w) \<noteq> Inl out_of_rounds"
proof
  assume "fst (finish_request r b s w) = Inl out_of_rounds"
  then obtain w' where run: "finish_request r b s w = (Inl out_of_rounds, w')" by (cases "finish_request r b s w") auto
  obtain y w1 where released: "release_build_slot (va_queue r) w = (y, w1)" by (cases "release_build_slot (va_queue r) w")
  show False
  proof (cases y)
    case (Inl e)
    with run released release_never_exhausts [of "va_queue r" w e w1] show False
      by (auto simp: finish_request_def act_simps split: if_splits)
  next
    case (Inr u)
    have "lawfully (seen r) (release_build_slot (va_queue r)) (\<lambda>_ _. True)" by (rule safe_weaken [OF tame_release])
    note step = this [unfolded triple_def, rule_format, of w]
    from assms have w: "abides stove_inv stove_evolves w" "stove_inv (w_db w)" by (simp_all add: lawful_world_def)
    from step [OF w assms(2) released] have w1: "stove_evolves (w_db w) (w_db w1)" by simp
    have "lawful_world w1" using safe_weaken [OF tame_release, of "seen r"] assms released by (rule safe_lawful)
    moreover have "seen r (w_db w1)" using stable_seen assms(2) w1 by (rule stableD)
    ultimately have "mark_outcome b (build_outcome_state s) r w1 \<noteq> (Inl out_of_rounds, w')"
      using mark_never_exhausts by blast
    with run released Inr show False by (auto simp: finish_request_def act_simps split: if_splits)
  qed
qed

lemma finish_request_returns_witness: "fst (finish_request sample_validation ''b'' RunSucceeded sample_stove) \<noteq> Inl out_of_rounds"
  by (rule finish_request_returns [OF sample_lawful sample_seen])

section \<open>The lifecycle\<close>

text \<open>
  C28. A request keeps to its lifecycle: no stage and no reconciler, whatever runs beside it and
  whichever of its calls fail, loses a request, changes its commit, takes it off the state graph, decides its
  strategy or its build a second time, or touches the verdict of one that has ended.
\<close>
theorem request_lifecycle:
  assumes "lawful_world w" and "s_requests (w_db w) i = Some r"
  shows "\<exists>r'. s_requests (w_db (after_stage env c w)) i = Some r' \<and> va_uri r' = va_uri r \<and> stove_leads (va_state r) (va_state r') \<and>
    (stove_terminal (va_state r) \<longrightarrow> va_state r' = va_state r \<and> va_terminal_build r' = va_terminal_build r) \<and>
    (va_state r \<noteq> StoveAccepted \<longrightarrow> va_strategy r' = va_strategy r \<and> va_base r' = va_base r) \<and>
    (va_build r \<noteq> [] \<longrightarrow> va_build r' = va_build r)"
proof -
  from assms(1) have "stove_evolves (w_db w) (w_db (after_stage env c w))" by (simp add: lawful_world_def stage_evolves)
  with assms(2) obtain r' where "s_requests (w_db (after_stage env c w)) i = Some r'" "validation_moves r r'"
    unfolding stove_evolves_def rows_move_def by blast
  moreover from this(2) have "stove_leads (va_state r) (va_state r')" by (auto simp: validation_moves_def stove_leads_def)
  ultimately show ?thesis
    by (intro exI [of _ r'] conjI impI) (auto simp: validation_moves_def dest: leads_terminal)
qed

lemma request_lifecycle_witness:
  "\<exists>r'. s_requests (w_db (after_stage sample_env (SignalMessage (sample_stove_message ''b'')) sample_stove)) ''7'' = Some r' \<and>
     va_strategy r' = StrategyFull \<and> va_build r' = ''b''"
proof -
  have row: "s_requests (w_db sample_stove) ''7'' = Some sample_validation" by (simp add: sample_stove_def)
  from request_lifecycle [OF sample_lawful row, of sample_env "SignalMessage (sample_stove_message ''b'')"] show ?thesis
    by (elim exE conjE) (simp add: sample_validation_def)
qed

lemma stage_keeps_inv: "lawful_world w \<Longrightarrow> stove_inv (w_db (after_stage env c w))"
  unfolding lawful_world_def using stage_evolves stoves.evolves_keeps by blast

text \<open>
  C29. The last-green bookmark of a queue never goes back to an older request, and what it names is the
  commit of a request that succeeded, at every moment and whatever happens.
\<close>
theorem bookmark_advances:
  assumes "lawful_world w" and "s_queue_row (w_db w) = Some q"
  shows "\<exists>q'. s_queue_row (w_db (after_stage env c w)) = Some q' \<and> id_le (qr_last_green_request q) (qr_last_green_request q') \<and>
    (qr_last_green_request q' \<noteq> [] \<longrightarrow> green_request (s_requests (w_db (after_stage env c w))) (qr_last_green_request q') (qr_last_green_uri q'))"
proof -
  from assms(1) have "stove_evolves (w_db w) (w_db (after_stage env c w))" by (simp add: lawful_world_def stage_evolves)
  with assms(2) obtain q' where q': "s_queue_row (w_db (after_stage env c w)) = Some q'" "queue_moves q q'"
    unfolding stove_evolves_def by blast
  moreover have "id_le (qr_last_green_request q) (qr_last_green_request q')" using q'(2) by (auto simp: queue_moves_def id_le_refl)
  ultimately show ?thesis using stage_keeps_inv [OF assms(1)] by (auto simp: stove_inv_def)
qed

lemma bookmark_advances_witness:
  "\<exists>q'. s_queue_row (w_db (after_stage sample_env (SignalMessage (sample_stove_message ''b'')) sample_stove)) = Some q' \<and>
     id_le [] (qr_last_green_request q')"
proof -
  have row: "s_queue_row (w_db sample_stove) = Some ((empty_queue_row ''q'')\<lparr>qr_in_flight := 1, qr_latest_request := ''7''\<rparr>)"
    by (simp add: sample_stove_def)
  from bookmark_advances [OF sample_lawful row, of sample_env "SignalMessage (sample_stove_message ''b'')"] show ?thesis
    by (elim exE conjE) (simp add: empty_queue_row_def)
qed

text \<open>
  C30. A commit has one request: whatever the ingests of a commit race against and whichever of their calls
  fail, two stored requests never carry the same URI.
\<close>
theorem one_request_per_commit:
  assumes "lawful_world w" and "s_requests (w_db (after_stage env c w)) i = Some r" and "s_requests (w_db (after_stage env c w)) j = Some r'"
    and "va_uri r = va_uri r'"
  shows "i = j"
proof -
  note inv = stage_keeps_inv [OF assms(1), of env c]
  from request_keyed [OF inv assms(2)] request_keyed [OF inv assms(3)] assms(4) show ?thesis by simp
qed

lemma one_request_per_commit_witness:
  "{j. \<exists>r. s_requests (w_db (after_stage sample_env (SignalMessage (sample_stove_message ''b'')) sample_stove)) j = Some r \<and> va_uri r = ''c''} = {''7''}"
proof -
  have row: "s_requests (w_db sample_stove) ''7'' = Some sample_validation" by (simp add: sample_stove_def)
  have "stove_evolves (w_db sample_stove) (w_db (after_stage sample_env (SignalMessage (sample_stove_message ''b'')) sample_stove))"
    using sample_lawful unfolding lawful_world_def by (intro stage_evolves) simp_all
  then have "rows_move validation_moves (s_requests (w_db sample_stove))
      (s_requests (w_db (after_stage sample_env (SignalMessage (sample_stove_message ''b'')) sample_stove)))"
    unfolding stove_evolves_def by (elim conjE)
  from rows_move_at [OF this row] obtain r where r:
    "s_requests (w_db (after_stage sample_env (SignalMessage (sample_stove_message ''b'')) sample_stove)) ''7'' = Some r" "validation_moves sample_validation r"
    by (elim exE conjE)
  then have "va_uri r = ''c''" by (auto simp: validation_moves_def sample_validation_def)
  moreover have "j = ''7''" if "s_requests (w_db (after_stage sample_env (SignalMessage (sample_stove_message ''b'')) sample_stove)) j = Some s"
    and "va_uri s = ''c''" for j s
    using one_request_per_commit [OF sample_lawful that(1) r(1)] that(2) \<open>va_uri r = ''c''\<close> by simp
  ultimately show ?thesis using r(1) by blast
qed

text \<open>
  C31. The whole-repository fact of a commit is the outcome of its request: green exactly if the request
  succeeded, and of a request that failed otherwise; no other state leaves a fact behind.
\<close>
theorem facts_are_outcomes:
  assumes "lawful_world w" and "s_facts (w_db (after_stage env c w)) (u, []) = Some f"
  shows "\<exists>r. s_requests (w_db (after_stage env c w)) (vf_request f) = Some r \<and> va_uri r = u \<and>
    va_state r = (if fact_is_green f then StoveSucceeded else StoveFailed)"
proof -
  have "vf_uri f = u \<and> fact_of_outcome (s_requests (w_db (after_stage env c w))) f"
    using stage_keeps_inv [OF assms(1), of env c] assms(2) unfolding stove_inv_def by blast
  then show ?thesis by (auto simp: fact_of_outcome_def)
qed

definition sample_recorded :: stove where
  "sample_recorded = sample_stove\<lparr>w_db := (w_db sample_stove)\<lparr>s_requests := [''7'' \<mapsto> sample_validation\<lparr>va_state := StoveSucceeded\<rparr>],
     s_facts := [(''c'', []) \<mapsto> \<lparr>vf_uri = ''c'', vf_project = [], vf_project_type = [], vf_degree = degree_green, vf_request = ''7'', vf_created_at = 10\<rparr>]\<rparr>\<rparr>"

lemma facts_are_outcomes_witness:
  "\<exists>r. s_requests (w_db (after_stage sample_env (RecordMessage (sample_stove_message ''7'')) sample_recorded)) ''7'' = Some r \<and> va_state r = StoveSucceeded"
proof -
  let ?f = "\<lparr>vf_uri = ''c'', vf_project = [], vf_project_type = [], vf_degree = degree_green, vf_request = ''7'', vf_created_at = 10\<rparr>"
  have w: "lawful_world sample_recorded"
    by (simp add: lawful_world_def abides_def sample_recorded_def sample_stove_def stove_inv_def sample_validation_def empty_queue_row_def
        fact_of_outcome_def fact_is_green_def)
  have "s_facts (w_db sample_recorded) (''c'', []) = Some ?f" by (simp add: sample_recorded_def)
  moreover have "s_facts (w_db sample_recorded) \<subseteq>\<^sub>m s_facts (w_db (after_stage sample_env (RecordMessage (sample_stove_message ''7'')) sample_recorded))"
    using w stage_evolves unfolding lawful_world_def stove_evolves_def by blast
  ultimately have "s_facts (w_db (after_stage sample_env (RecordMessage (sample_stove_message ''7'')) sample_recorded)) (''c'', []) = Some ?f"
    by (auto simp: map_le_def dom_def)
  from facts_are_outcomes [OF w this] show ?thesis by (auto simp: fact_is_green_def)
qed

section \<open>A dead letter after the outcome\<close>

lemma is_already_exists_wrapped: "is_already_exists (Wrapped m ErrAlreadyExists)"
  by code_simp

text \<open>
  When polling a build dead-letters after the outcome of its request was logged, the reconciler can
  never finish: it offers the failure under another reason than the log retains, is refused, and changes
  nothing, so every redelivery fails the same way and the message for the record stage is never sent.
\<close>
theorem dead_signal_conflicts:
  assumes "w_script w = []" and "st_payload msg = ById i (s_queue w)" and "validate_payload_queue (st_envelope msg) (s_queue w) = Inr ()"
    and "i \<noteq> []" and "s_queue w \<noteq> []" and "s_builds (w_db w) i = Some b" and "sb_request b \<noteq> []"
    and "s_requests (w_db w) (sb_request b) = Some r" and "va_id r = sb_request b" and "va_queue r = s_queue w" and "va_state r = StoveFailed"
    and "0 < va_version r" and "0 < s_clock w (s_ticks w)"
    and "s_logs (w_db w) (va_id r, intent_id ''state'' [int_text (va_version r)]) = Some l" and "sl_reason l = ReasonBuildFailed"
  shows "\<exists>e. stove_dlq_signal msg w = (Inl e, w\<lparr>s_ticks := Suc (s_ticks w)\<rparr>)"
proof -
  have intent: "intent_id ''state'' [int_text (va_version r)] \<noteq> []" by (simp add: intent_id_def)
  have opened: "dlq_opened msg w = (Inr (Some (i, s_queue w)), w)"
    using assms(2-5) by (simp add: dlq_opened_def stove_storage_for_def act_simps)
  have build: "stove_build_get i w = (Inr b, w)" using assms(1,6) by (simp add: stove_build_get_def act_simps select_row_def)
  have request: "validation_get (sb_request b) w = (Inr r, w)" using assms(1,8) by (simp add: validation_get_def act_simps select_row_def)
  have conflict: "\<exists>e. persist_request_log (new_request_state_log r ReasonBuildPollingExhausted) w = (Inl e, w\<lparr>s_ticks := Suc (s_ticks w)\<rparr>)"
    using assms intent
    by (simp add: persist_request_log_def new_request_state_log_def stove_now_def act_simps validate_log_def validate_log_state_def is_failure_reason_def
        retain_request_log_def stove_log_create_def bound_def log_row_create_def insert_row_def is_already_exists_wrapped stove_log_get_def select_row_def
        same_semantic_occurrence_def Let_def)
  then show ?thesis
    using opened build request assms(7,11)
    by (auto simp: stove_dlq_signal_def stove_fail_request_def persist_failure_log_def stove_terminal_def act_simps)
qed

text \<open>One that comes after a success is acknowledged, and the record stage hears of it as little.\<close>

lemma dead_signal_drops_success:
  assumes "w_script w = []" and "st_payload msg = ById i (s_queue w)" and "validate_payload_queue (st_envelope msg) (s_queue w) = Inr ()"
    and "i \<noteq> []" and "s_queue w \<noteq> []" and "s_builds (w_db w) i = Some b" and "s_requests (w_db w) (sb_request b) = Some r" and "va_state r = StoveSucceeded"
  shows "stove_dlq_signal msg w = (Inr (), w)"
  using assms
  by (simp add: stove_dlq_signal_def dlq_opened_def stove_storage_for_def stove_build_get_def validation_get_def stove_fail_request_def select_row_def
      stove_terminal_def act_simps)

definition sample_failed :: stove where
  "sample_failed = sample_stove\<lparr>w_db := (w_db sample_stove)\<lparr>s_requests := [''7'' \<mapsto> sample_validation\<lparr>va_state := StoveFailed\<rparr>],
     s_logs := [(''7'', intent_id ''state'' [int_text 2]) \<mapsto> new_request_state_log (sample_validation\<lparr>va_state := StoveFailed\<rparr>) ReasonBuildFailed]\<rparr>\<rparr>"

lemma dead_signal_conflicts_witness:
  "\<exists>e. stove_dlq_signal (sample_stove_message ''b'') sample_failed = (Inl e, sample_failed\<lparr>s_ticks := 1\<rparr>)"
proof -
  have queue: "s_queue sample_failed = ''q''" by (simp add: sample_failed_def sample_stove_def)
  let ?r = "sample_validation\<lparr>va_state := StoveFailed\<rparr>"
  let ?l = "new_request_state_log (sample_validation\<lparr>va_state := StoveFailed\<rparr>) ReasonBuildFailed"
  have "\<exists>e. stove_dlq_signal (sample_stove_message ''b'') sample_failed = (Inl e, sample_failed\<lparr>s_ticks := Suc (s_ticks sample_failed)\<rparr>)"
    by (rule dead_signal_conflicts [where r = ?r and l = ?l and i = "''b''" and b = "\<lparr>sb_id = ''b'', sb_request = ''7'', sb_status = RunRunning, sb_version = 1\<rparr>"])
      (simp_all add: queue sample_failed_def sample_stove_def sample_validation_def sample_stove_message_def new_request_state_log_def
        validate_payload_queue_def validate_tenant_metadata_def metadata_get_def)
  then show ?thesis by (simp add: sample_failed_def sample_stove_def)
qed

end
