(* ===== verification/Changes.thy ===== *)
theory Changes
  imports Ids Publish
begin

text \<open>
  Change URIs (\<open>platform/base/change\<close>): the identifiers of GitHub pull requests, git commits and
  Phabricator diffs, as they are parsed and printed.  \<open>net/url\<close> is an argument: \<open>url.Parse\<close>,
  reduced to the parts that are read, \<open>url.PathUnescape\<close> and \<open>url.PathEscape\<close>.
\<close>

section \<open>Strings\<close>

text \<open>\<open>strings.HasPrefix\<close>, \<open>strings.Cut\<close>, \<open>strings.Contains\<close> and \<open>strings.Split\<close> at a character.\<close>

fun has_prefix :: "string \<Rightarrow> string \<Rightarrow> bool" where
  "has_prefix s [] = True"
| "has_prefix [] (p # ps) = False"
| "has_prefix (c # cs) (p # ps) = (c = p \<and> has_prefix cs ps)"

fun string_cut :: "string \<Rightarrow> string \<Rightarrow> (string \<times> string) option" where
  "string_cut s sep = (if has_prefix s sep then Some ([], drop (length sep) s)
     else case s of [] \<Rightarrow> None | c # cs \<Rightarrow> map_option (\<lambda>(a, b). (c # a, b)) (string_cut cs sep))"

declare string_cut.simps [simp del]

definition string_contains :: "string \<Rightarrow> string \<Rightarrow> bool" where
  "string_contains s sub \<longleftrightarrow> string_cut s sub \<noteq> None"

fun split_on :: "char \<Rightarrow> string \<Rightarrow> string list" where
  "split_on d [] = [[]]"
| "split_on d (c # cs) = (if c = d then [] # split_on d cs else case split_on d cs of s # ss \<Rightarrow> (c # s) # ss | [] \<Rightarrow> [[c]])"

definition trim_prefix :: "string \<Rightarrow> string \<Rightarrow> string" where
  "trim_prefix s p = (if has_prefix s p then drop (length p) s else s)"

section \<open>Helpers\<close>

record go_url =
  u_scheme :: string
  u_host :: string
  u_hostname :: string
  u_escaped_path :: string

record url_library =
  ul_parse :: "string \<Rightarrow> goerr + go_url"
  ul_path_unescape :: "string \<Rightarrow> goerr + string"
  ul_path_escape :: "string \<Rightarrow> string"

definition is_lowercase_ascii :: "string \<Rightarrow> bool" where
  "is_lowercase_ascii s \<longleftrightarrow> list_all (\<lambda>c. \<not> (65 \<le> (of_char c :: nat) \<and> (of_char c :: nat) \<le> 90)) s"

definition hex_char :: "char \<Rightarrow> bool" where
  "hex_char c \<longleftrightarrow> (let k = of_char c :: nat in 48 \<le> k \<and> k \<le> 57 \<or> 97 \<le> k \<and> k \<le> 102)"

definition is_full_hex :: "string \<Rightarrow> nat \<Rightarrow> bool" where
  "is_full_hex s n \<longleftrightarrow> length s = n \<and> list_all hex_char s"

definition sha_length :: nat where "sha_length = 40"

text \<open>What the three parsers do first: the scheme, the host, the segments of the escaped path.\<close>

definition change_url :: "url_library \<Rightarrow> string \<Rightarrow> string \<Rightarrow> goerr + go_url \<times> string list" where
  "change_url lib scheme raw = (case ul_parse lib raw of
     Inl e \<Rightarrow> Inl (Wrapped ''invalid change ID'' e)
   | Inr u \<Rightarrow>
       if u_scheme u \<noteq> scheme then Inl (Plain ''invalid change ID: wrong scheme'')
       else if u_host u = [] then Inl (Plain ''invalid change ID: missing host'')
       else if \<not> is_lowercase_ascii (u_hostname u) then Inl (Plain ''invalid change ID: host must be lowercase'')
       else Inr (u, split_on (CHR ''/'') (trim_prefix (u_escaped_path u) ''/'')))"

text \<open>\<open>strconv.Atoi\<close> on a positive number in canonical form.\<close>

definition positive_canonical :: "string \<Rightarrow> int option" where
  "positive_canonical s = (case parse_int s of
     Some n \<Rightarrow> if n < 1 \<or> dec (nat n) \<noteq> s then None else Some n
   | None \<Rightarrow> None)"

section \<open>GitHub\<close>

record github_change =
  gh_scheme :: string
  gh_host :: string
  gh_org :: string
  gh_repo :: string
  gh_number :: int
  gh_sha :: string

definition github_segments :: "go_url \<Rightarrow> string list \<Rightarrow> goerr + github_change" where
  "github_segments u segments =
     (if length segments < 5 then Inl (Plain ''invalid change ID: need at least owner/repo/pull/pr/sha'')
      else let n = length segments; sha = segments ! (n - 1); pr = segments ! (n - 2); lit = segments ! (n - 3); path = take (n - 3) segments in
      if lit \<noteq> ''pull'' then Inl (Plain ''invalid change ID: expected literal pull segment'')
      else if sha = [] then Inl (Plain ''invalid change ID: empty head commit SHA'')
      else if \<not> is_full_hex sha sha_length then Inl (Plain ''invalid change ID: head commit SHA must be lowercase hex'')
      else case positive_canonical pr of None \<Rightarrow> Inl (Plain ''invalid change ID: PR number must be a positive integer'')
      | Some number \<Rightarrow>
          if length path < 2 then Inl (Plain ''invalid change ID: repo path must have at least owner/repo'')
          else if list_ex (\<lambda>s. s = []) path then Inl (Plain ''invalid change ID: repo path contains an empty segment'')
          else Inr \<lparr>gh_scheme = u_scheme u, gh_host = u_host u, gh_org = strings_join ''/'' (butlast path), gh_repo = last path,
            gh_number = number, gh_sha = sha\<rparr>)"

definition parse_github_change :: "url_library \<Rightarrow> string \<Rightarrow> goerr + github_change" where
  "parse_github_change lib raw = (case change_url lib ''github'' raw of Inl e \<Rightarrow> Inl e | Inr (u, segments) \<Rightarrow> github_segments u segments)"

definition github_change_string :: "github_change \<Rightarrow> string" where
  "github_change_string c = gh_scheme c @ ''://'' @ strings_join ''/'' [gh_host c, gh_org c, gh_repo c, ''pull'', dec (nat (gh_number c)), gh_sha c]"

definition owner_repo :: "github_change \<Rightarrow> string" where
  "owner_repo c = gh_org c @ ''/'' @ gh_repo c"

section \<open>git\<close>

record git_change =
  gc_scheme :: string
  gc_remote :: string
  gc_repo :: string
  gc_ref :: string
  gc_sha :: string

definition git_change_string :: "url_library \<Rightarrow> git_change \<Rightarrow> string" where
  "git_change_string lib c = gc_scheme c @ ''://'' @ strings_join ''/'' [gc_remote c, gc_repo c, ul_path_escape lib (gc_ref c), gc_sha c]"

definition parse_git_change :: "url_library \<Rightarrow> string \<Rightarrow> goerr + git_change" where
  "parse_git_change lib raw = (case change_url lib ''git'' raw of
     Inl e \<Rightarrow> Inl e
   | Inr (u, segments) \<Rightarrow>
       if length segments < 3 then Inl (Plain ''invalid change ID: need at least repo/ref/sha'')
       else let n = length segments; sha = segments ! (n - 1); encoded = segments ! (n - 2); path = take (n - 2) segments; repo = strings_join ''/'' path in
       if sha = [] then Inl (Plain ''invalid change ID: empty commit SHA'')
       else if \<not> is_full_hex sha sha_length then Inl (Plain ''invalid change ID: commit SHA must be lowercase hex'')
       else case ul_path_unescape lib encoded of
         Inl e \<Rightarrow> Inl (Wrapped ''invalid change ID: ref is not valid percent-encoding'' e)
       | Inr ref \<Rightarrow>
           if \<not> has_prefix ref ''refs/'' \<or> ref = ''refs/'' then Inl (Plain ''invalid change ID: ref must be a fully-qualified git ref'')
           else if repo = [] then Inl (Plain ''invalid change ID: empty repo'')
           else if list_ex (\<lambda>s. s = []) path then Inl (Plain ''invalid change ID: repo path contains an empty segment'')
           else let c = \<lparr>gc_scheme = u_scheme u, gc_remote = u_host u, gc_repo = repo, gc_ref = ref, gc_sha = sha\<rparr> in
             if git_change_string lib c \<noteq> raw then Inl (Plain ''invalid change ID: not in canonical form'') else Inr c)"

section \<open>Phabricator\<close>

record phab_change =
  ph_scheme :: string
  ph_host :: string
  ph_revision :: int
  ph_diff :: int

text \<open>\<open>[1-9]\d*\<close> and \<open>strconv.Atoi\<close>: what is left of a match is an overflow.\<close>

definition parse_phab_change :: "url_library \<Rightarrow> string \<Rightarrow> goerr + phab_change" where
  "parse_phab_change lib raw = (case change_url lib ''phab'' raw of
     Inl e \<Rightarrow> Inl e
   | Inr (u, segments) \<Rightarrow> (case segments of
       [revision, diff] \<Rightarrow>
         if \<not> has_prefix revision ''D'' then Inl (Plain ''invalid change ID: revision must match'')
         else (case positive_canonical (tl revision) of None \<Rightarrow> Inl (Plain ''invalid change ID: revision must match'')
         | Some r \<Rightarrow> (case positive_canonical diff of None \<Rightarrow> Inl (Plain ''invalid change ID: diff must be a positive integer'')
           | Some d \<Rightarrow> Inr \<lparr>ph_scheme = u_scheme u, ph_host = u_host u, ph_revision = r, ph_diff = d\<rparr>))
     | _ \<Rightarrow> Inl (Plain ''invalid change ID: path must have exactly 2 segments'')))"

definition phab_change_string :: "phab_change \<Rightarrow> string" where
  "phab_change_string c = ph_scheme c @ ''://'' @ ph_host c @ ''/D'' @ dec (nat (ph_revision c)) @ ''/'' @ dec (nat (ph_diff c))"

definition phab_revision :: "phab_change \<Rightarrow> string" where
  "phab_revision c = ''D'' @ dec (nat (ph_revision c))"

section \<open>What an identifier says\<close>

lemma split_on_join: "strings_join [d] (split_on d s) = s"
proof (induction s)
  case Nil
  then show ?case by simp
next
  case (Cons c cs)
  have "split_on d cs \<noteq> []" by (cases cs) (auto split: list.splits)
  then obtain s ss where "split_on d cs = s # ss" by (cases "split_on d cs") auto
  with Cons show ?case by (cases ss) auto
qed

text \<open>A git URI that parses is the one and only spelling of its identifier.\<close>

lemma git_change_canonical: "parse_git_change lib raw = Inr c \<Longrightarrow> git_change_string lib c = raw"
  by (auto simp: parse_git_change_def Let_def split: sum.splits if_splits)

lemma git_change_injective:
  "parse_git_change lib a = Inr c \<Longrightarrow> parse_git_change lib b = Inr c \<Longrightarrow> a = b"
  by (auto dest!: git_change_canonical)

lemma github_change_sha: "parse_github_change lib raw = Inr c \<Longrightarrow> is_full_hex (gh_sha c) 40 \<and> 0 < gh_number c"
  by (auto simp: parse_github_change_def github_segments_def positive_canonical_def Let_def sha_length_def split: sum.splits if_splits option.splits)

end
