(* ===== verification/GitMerger.thy ===== *)
theory GitMerger
  imports Changes
begin

text \<open>
  The git merger of Runway (\<open>runway/extension/merger/git\<close>) with the merger interface and its terminal
  errors (\<open>runway/extension/merger/merger.go\<close>) and the runner of git commands.  Git itself - the
  checkout, the remote and whoever else pushes to it - is an argument: what a command with given
  environment and arguments answers, and the state it leaves.  \<open>ck_calls\<close> records the commands run;
  no decision reads it.  Text is ASCII.
\<close>

section \<open>Text of commands\<close>

definition is_space :: "char \<Rightarrow> bool" where
  "is_space c \<longleftrightarrow> (let k = of_char c :: nat in 9 \<le> k \<and> k \<le> 13 \<or> k = 32)"

definition trim_space :: "string \<Rightarrow> string" where
  "trim_space s = rev (dropWhile is_space (rev (dropWhile is_space s)))"

definition text_fields :: "string \<Rightarrow> string list" where
  "text_fields s = filter (\<lambda>f. f \<noteq> []) (split_on CHR '' '' (map (\<lambda>c. if is_space c then CHR '' '' else c) s))"

definition trim_newlines :: "string \<Rightarrow> string" where
  "trim_newlines s = rev (dropWhile (\<lambda>c. c = char_of (10::nat)) (rev s))"

section \<open>Terminal errors\<close>

definition err_conflict :: goerr where "err_conflict = Plain ''merge conflict''"
definition err_invalid_merge :: goerr where "err_invalid_merge = Plain ''invalid merge request''"

definition is_terminal :: "goerr \<Rightarrow> bool" where
  "is_terminal e \<longleftrightarrow> errors_is e err_conflict \<or> errors_is e err_invalid_merge"

abbreviation invalid_request :: "string \<Rightarrow> goerr" where "invalid_request d \<equiv> Detailed err_invalid_merge d"
abbreviation merge_conflict :: "string \<Rightarrow> goerr" where "merge_conflict d \<equiv> Detailed err_conflict d"

section \<open>Results\<close>

record step_result =
  sr_step :: string
  sr_outputs :: "string list"
  sr_reason :: string

record runway_result = merge_result +
  mr_steps :: "step_result list"

definition success_result :: "merge_request \<Rightarrow> step_result list \<Rightarrow> runway_result" where
  "success_result req steps = \<lparr>mr_id = mq_id req, mr_queue = [], mr_outcome = OutcomeSucceeded, mr_reason = [], mr_steps = steps\<rparr>"

definition strip_outputs :: "step_result list \<Rightarrow> step_result list" where
  "strip_outputs = map (\<lambda>s. s\<lparr>sr_outputs := []\<rparr>)"

section \<open>Git commands\<close>

record author_ident =
  au_name :: string
  au_email :: string

definition no_author :: author_ident where "no_author = \<lparr>au_name = [], au_email = []\<rparr>"

definition author_complete :: "author_ident \<Rightarrow> bool" where
  "author_complete a \<longleftrightarrow> au_name a \<noteq> [] \<and> au_email a \<noteq> []"

definition author_env :: "author_ident \<Rightarrow> string list" where
  "author_env a = (if author_complete a then [''GIT_AUTHOR_NAME='' @ au_name a, ''GIT_AUTHOR_EMAIL='' @ au_email a] else [])"

text \<open>
  What a command answers: the exit code (none when the process did not run to its end), the text of
  the process error, standard output, standard error, and the two combined.
\<close>

record git_answer =
  ga_exit :: "int option"
  ga_error :: string
  ga_stdout :: string
  ga_stderr :: string
  ga_combined :: string

definition succeeded :: "git_answer \<Rightarrow> bool" where "succeeded a \<longleftrightarrow> ga_exit a = Some 0"

record git_run =
  gr_author :: author_ident
  gr_args :: "string list"
  gr_answer :: git_answer

record 's checkout =
  ck_state :: 's
  ck_calls :: "git_run list"

type_synonym ('s, 'a) git_act = "('s checkout, goerr, 'a) act"

text \<open>How the context of the operation has ended, if it has: \<open>ctx.Err()\<close>.\<close>

datatype context_end = Canceled | DeadlineExceeded

definition context_error :: "context_end \<Rightarrow> goerr" where
  "context_error c = (case c of Canceled \<Rightarrow> Plain ''context canceled'' | DeadlineExceeded \<Rightarrow> Plain ''context deadline exceeded'')"

record 's git_merger =
  gm_run :: "string list \<Rightarrow> string list \<Rightarrow> 's \<Rightarrow> git_answer \<times> 's"
  gm_context :: "'s \<Rightarrow> context_end option"
  gm_library :: url_library
  gm_remote :: string
  gm_target :: string
  gm_default :: proto_strategy
  gm_attempts :: int
  gm_refspecs :: "string list"
  gm_staleness :: bool
  gm_unrelated :: bool
  gm_name :: string
  gm_email :: string

definition default_max_push_attempts :: int where "default_max_push_attempts = 10"

definition is_concrete_strategy :: "proto_strategy \<Rightarrow> bool" where
  "is_concrete_strategy s = (case s of REBASE \<Rightarrow> True | SQUASH_REBASE \<Rightarrow> True | MERGE \<Rightarrow> True | PROMOTE \<Rightarrow> True | _ \<Rightarrow> False)"

text \<open>\<open>NewMerger\<close>; the validation of the pinned runtime is an argument.\<close>

definition new_merger :: "goerr + unit \<Rightarrow> 's git_merger \<Rightarrow> goerr + 's git_merger" where
  "new_merger runtime p = (case runtime of Inl e \<Rightarrow> Inl e | Inr _ \<Rightarrow>
     if \<not> is_concrete_strategy (gm_default p) then Inl (Plain ''default strategy must be concrete'')
     else Inr (p\<lparr>gm_attempts := (if gm_attempts p \<le> 0 then default_max_push_attempts else gm_attempts p),
       gm_name := (if gm_name p = [] then ''SubmitQueue Runway'' else gm_name p),
       gm_email := (if gm_email p = [] then ''runway@submitqueue.invalid'' else gm_email p)\<rparr>))"

definition identity_args :: "'s git_merger \<Rightarrow> string list" where
  "identity_args m = [''-c'', ''user.name='' @ gm_name m, ''-c'', ''user.email='' @ gm_email m, ''-c'', ''commit.gpgsign=false'']"

definition command_as :: "'s git_merger \<Rightarrow> author_ident \<Rightarrow> string list \<Rightarrow> ('s, git_answer) git_act" where
  "command_as m author args w = (case gm_run m (author_env author) (identity_args m @ args) (ck_state w) of (a, s) \<Rightarrow>
     (Inr a, \<lparr>ck_state = s, ck_calls = ck_calls w @ [\<lparr>gr_author = author, gr_args = args, gr_answer = a\<rparr>]\<rparr>))"

definition git_operation :: "string list \<Rightarrow> string" where
  "git_operation args = (case args of [] \<Rightarrow> [] | x # xs \<Rightarrow> x)"

text \<open>A context that has ended takes precedence over what git reported.\<close>

definition command_failure :: "context_end option \<Rightarrow> string list \<Rightarrow> string \<Rightarrow> git_answer \<Rightarrow> goerr" where
  "command_failure ended args detail a =
     (let message = ga_error a @ (if trim_space detail = [] then [] else '': '' @ trim_space detail) in
      case ended of
        Some c \<Rightarrow> Wrapped (''git '' @ git_operation args @ '': '' @ message) (context_error c)
      | None \<Rightarrow> CommandError (git_operation args) message (ga_exit a))"

definition context_ended :: "'s git_merger \<Rightarrow> ('s, context_end option) git_act" where
  "context_ended m w = (Inr (gm_context m (ck_state w)), w)"

definition run_as :: "'s git_merger \<Rightarrow> author_ident \<Rightarrow> string list \<Rightarrow> ('s, string) git_act" where
  "run_as m author args = and_then (command_as m author args) (\<lambda>a. and_then (context_ended m) (\<lambda>c.
     if succeeded a then ok (ga_stdout a) else fail (command_failure c args (ga_stderr a) a)))"

definition run_git :: "'s git_merger \<Rightarrow> string list \<Rightarrow> ('s, string) git_act" where
  "run_git m args = run_as m no_author args"

text \<open>The combined output comes with an error too.\<close>

definition run_combined_as :: "'s git_merger \<Rightarrow> author_ident \<Rightarrow> string list \<Rightarrow> ('s, string \<times> goerr option) git_act" where
  "run_combined_as m author args = and_then (command_as m author args) (\<lambda>a. and_then (context_ended m) (\<lambda>c.
     ok (ga_combined a, if succeeded a then None else Some (command_failure c args (ga_combined a) a))))"

definition run_combined :: "'s git_merger \<Rightarrow> string list \<Rightarrow> ('s, string \<times> goerr option) git_act" where
  "run_combined m args = run_combined_as m no_author args"

fun exit_code :: "goerr \<Rightarrow> int option" where
  "exit_code (CommandError operation message code) = code"
| "exit_code (Wrapped m c) = exit_code c"
| "exit_code (Detailed c d) = exit_code c"
| "exit_code e = None"

section \<open>Queries and small operations\<close>

definition wrap_as :: "string \<Rightarrow> ('s, 'a) git_act \<Rightarrow> ('s, 'a) git_act" where
  "wrap_as text = map_err (Wrapped text)"

definition has_unmerged_paths :: "'s git_merger \<Rightarrow> ('s, bool) git_act" where
  "has_unmerged_paths m = and_then (attempt (run_git m [''ls-files'', ''--unmerged''])) (\<lambda>r.
     ok (case r of Inl e \<Rightarrow> False | Inr out \<Rightarrow> trim_space out \<noteq> []))"

definition merge_base :: "'s git_merger \<Rightarrow> string \<Rightarrow> string \<Rightarrow> ('s, string) git_act" where
  "merge_base m a b = and_then (attempt (run_git m [''merge-base'', a, b])) (\<lambda>r. case r of
     Inr out \<Rightarrow> ok (trim_space out)
   | Inl e \<Rightarrow> if exit_code e = Some 1 then ok [] else fail (Wrapped ''git merge-base'' e))"

definition rev_list :: "'s git_merger \<Rightarrow> string \<Rightarrow> string \<Rightarrow> ('s, string list) git_act" where
  "rev_list m a b = and_then (wrap_as ''git rev-list'' (run_git m [''rev-list'', ''--reverse'', a @ ''..'' @ b])) (\<lambda>out. ok (text_fields out))"

definition reset_to_remote :: "'s git_merger \<Rightarrow> ('s, unit) git_act" where
  "reset_to_remote m =
     and_then (wrap_as ''git fetch'' (run_git m [''fetch'', gm_remote m])) (\<lambda>_.
     and_then (for_each (\<lambda>refspec. and_then (wrap_as ''git fetch'' (run_git m [''fetch'', gm_remote m, refspec])) (\<lambda>_. ok ())) (gm_refspecs m)) (\<lambda>_.
     and_then (wrap_as ''git reset --hard'' (run_git m [''reset'', ''--hard'', gm_remote m @ ''/'' @ gm_target m])) (\<lambda>_.
     and_then (wrap_as ''git clean'' (run_git m [''clean'', ''-fdx''])) (\<lambda>_. ok ()))))"

definition head_sha :: "'s git_merger \<Rightarrow> ('s, string) git_act" where
  "head_sha m = and_then (wrap_as ''git rev-parse HEAD'' (run_git m [''rev-parse'', ''HEAD''])) (\<lambda>out. ok (trim_space out))"

definition refetch_tip_sha :: "'s git_merger \<Rightarrow> ('s, string) git_act" where
  "refetch_tip_sha m =
     and_then (wrap_as ''git fetch'' (run_git m [''fetch'', gm_remote m])) (\<lambda>_.
     and_then (wrap_as ''git rev-parse'' (run_git m [''rev-parse'', gm_remote m @ ''/'' @ gm_target m])) (\<lambda>out. ok (trim_space out)))"

definition is_ancestor :: "'s git_merger \<Rightarrow> string \<Rightarrow> string \<Rightarrow> ('s, bool) git_act" where
  "is_ancestor m a b = (let args = [''merge-base'', ''--is-ancestor'', a, b] in
     and_then (command_as m no_author args) (\<lambda>r.
       if succeeded r then ok True
       else if ga_exit r = Some 1 then ok False
       else and_then (context_ended m) (\<lambda>c. fail (Wrapped ''git merge-base --is-ancestor'' (command_failure c args (ga_stderr r) r)))))"

definition commit_tree_sha :: "'s git_merger \<Rightarrow> string \<Rightarrow> ('s, string) git_act" where
  "commit_tree_sha m ref = and_then (wrap_as ''git rev-parse tree'' (run_git m [''rev-parse'', ref @ ''^{tree}''])) (\<lambda>out. ok (trim_space out))"

definition git_push :: "'s git_merger \<Rightarrow> ('s, unit) git_act" where
  "git_push m = and_then (wrap_as ''git push'' (run_git m [''push'', gm_remote m, ''HEAD:refs/heads/'' @ gm_target m])) (\<lambda>_. ok ())"

definition commit_author :: "'s git_merger \<Rightarrow> string \<Rightarrow> ('s, author_ident) git_act" where
  "commit_author m sha =
     and_then (wrap_as ''git show --no-patch --format author'' (run_git m [''show'', ''--no-patch'', ''--format=%an%x00%ae'', sha])) (\<lambda>out.
     ok (case string_cut (trim_newlines out) [char_of (0::nat)] of
           None \<Rightarrow> no_author | Some (name, email) \<Rightarrow> \<lparr>au_name = name, au_email = email\<rparr>))"

section \<open>References of changes\<close>

record change_ref =
  cr_provider :: string
  cr_sha :: string
  cr_ref :: string
  cr_label :: string

definition resolve_change :: "url_library \<Rightarrow> string \<Rightarrow> goerr + change_ref" where
  "resolve_change lib uri = (case string_cut uri ''://'' of
     None \<Rightarrow> Inl (invalid_request ''change URI has no scheme'')
   | Some (scheme, _) \<Rightarrow>
       if scheme = ''github'' then (case parse_github_change lib uri of
           Inl e \<Rightarrow> Inl (invalid_request (''invalid change URI: '' @ error_text e))
         | Inr c \<Rightarrow> Inr \<lparr>cr_provider = scheme, cr_sha = gh_sha c, cr_ref = ''refs/pull/'' @ dec (nat (gh_number c)) @ ''/head'',
             cr_label = owner_repo c @ ''#'' @ dec (nat (gh_number c))\<rparr>)
       else if scheme = ''git'' then (case parse_git_change lib uri of
           Inl e \<Rightarrow> Inl (invalid_request (''invalid change URI: '' @ error_text e))
         | Inr c \<Rightarrow> Inr \<lparr>cr_provider = scheme, cr_sha = gc_sha c, cr_ref = gc_ref c, cr_label = gc_repo c @ ''@'' @ gc_ref c\<rparr>)
       else Inl (invalid_request ''unsupported change URI scheme''))"

record resolved_step =
  rs_step :: merge_step
  rs_strategy :: proto_strategy
  rs_refs :: "change_ref list"

definition step_change_refs :: "resolved_step list \<Rightarrow> change_ref list" where
  "step_change_refs steps = concat (map rs_refs steps)"

text \<open>\<open>providerCheck\<close>: the provider and the step of the first change, once there is one.\<close>

definition provider_check :: "(string \<times> string) option \<Rightarrow> change_ref \<Rightarrow> string \<Rightarrow> goerr + (string \<times> string) option" where
  "provider_check first ref step = (case first of
     None \<Rightarrow> Inr (Some (cr_provider ref, step))
   | Some (provider, i) \<Rightarrow> if cr_provider ref \<noteq> provider
       then Inl (invalid_request (''request mixes change providers: step '' @ i @ '' uses '' @ provider @ '', step '' @ step @ '' uses '' @ cr_provider ref))
       else Inr first)"

fun resolve_uris :: "url_library \<Rightarrow> string \<Rightarrow> (string \<times> string) option \<Rightarrow> string list \<Rightarrow> goerr + (change_ref list \<times> (string \<times> string) option)" where
  "resolve_uris lib step first [] = Inr ([], first)"
| "resolve_uris lib step first (uri # uris) = (case resolve_change lib uri of Inl e \<Rightarrow> Inl e | Inr ref \<Rightarrow>
     (case provider_check first ref step of Inl e \<Rightarrow> Inl e | Inr first' \<Rightarrow>
     (case resolve_uris lib step first' uris of Inl e \<Rightarrow> Inl e | Inr (refs, f) \<Rightarrow> Inr (ref # refs, f))))"

definition resolved_strategy :: "'s git_merger \<Rightarrow> merge_step \<Rightarrow> proto_strategy" where
  "resolved_strategy m step = (if ms_strategy step = DEFAULT then gm_default m else ms_strategy step)"

fun resolve_steps :: "'s git_merger \<Rightarrow> (string \<times> string) option \<Rightarrow> merge_step list \<Rightarrow> goerr + resolved_step list" where
  "resolve_steps m first [] = Inr []"
| "resolve_steps m first (step # steps) = (let strategy = resolved_strategy m step in
     if \<not> is_concrete_strategy strategy then Inl (invalid_request ''unsupported strategy'')
     else if ms_uris step = [] then Inl (invalid_request (''step '' @ ms_step step @ '' has no change URIs''))
     else (case resolve_uris (gm_library m) (ms_step step) first (ms_uris step) of Inl e \<Rightarrow> Inl e | Inr (refs, first') \<Rightarrow>
       (case resolve_steps m first' steps of Inl e \<Rightarrow> Inl e
        | Inr rest \<Rightarrow> Inr (\<lparr>rs_step = step, rs_strategy = strategy, rs_refs = refs\<rparr> # rest))))"

definition resolve_and_validate :: "'s git_merger \<Rightarrow> merge_request \<Rightarrow> goerr + resolved_step list" where
  "resolve_and_validate m req =
     (if mq_steps req = [] then Inl (invalid_request ''request has no steps'')
      else case resolve_steps m None (mq_steps req) of Inl e \<Rightarrow> Inl e | Inr steps \<Rightarrow>
        if list_ex (\<lambda>rs. rs_strategy rs = PROMOTE) steps \<and> (length steps \<noteq> 1 \<or> length (ms_uris (rs_step (hd steps))) \<noteq> 1)
        then Inl (invalid_request ''PROMOTE must be the entire request (one step, one change, one URI)'')
        else Inr steps)"

section \<open>Availability and staleness of the commits\<close>

definition has_commit :: "'s git_merger \<Rightarrow> string \<Rightarrow> ('s, bool) git_act" where
  "has_commit m sha = and_then (attempt (run_git m [''cat-file'', ''-e'', sha @ ''^{commit}''])) (\<lambda>r.
     ok (case r of Inl e \<Rightarrow> False | Inr out \<Rightarrow> True))"

text \<open>One fetch of a commit, and whether the commit is there after it.\<close>

definition fetched :: "'s git_merger \<Rightarrow> string \<Rightarrow> string \<Rightarrow> ('s, bool) git_act" where
  "fetched m what sha = and_then (attempt (run_git m [''fetch'', gm_remote m, what])) (\<lambda>r.
     case r of Inl e \<Rightarrow> ok False | Inr out \<Rightarrow> has_commit m sha)"

definition ensure_object :: "'s git_merger \<Rightarrow> change_ref \<Rightarrow> ('s, unit) git_act" where
  "ensure_object m ref = and_then (has_commit m (cr_sha ref)) (\<lambda>there.
     if there then ok ()
     else and_then (fetched m (cr_sha ref) (cr_sha ref)) (\<lambda>by_sha.
       if by_sha then ok ()
       else and_then (if cr_ref ref \<noteq> [] then fetched m (cr_ref ref) (cr_sha ref) else ok False) (\<lambda>by_ref.
         if by_ref then ok ()
         else and_then (wrap_as ''remote unreachable while resolving commit''
                (run_git m [''ls-remote'', ''--exit-code'', gm_remote m, ''HEAD''])) (\<lambda>_.
           fail (invalid_request (''commit '' @ cr_sha ref @ '' of '' @ cr_label ref @ '' is not available from remote '' @ gm_remote m))))))"

definition ensure_objects :: "'s git_merger \<Rightarrow> change_ref list \<Rightarrow> ('s, unit) git_act" where
  "ensure_objects m refs = for_each (ensure_object m) refs"

definition check_ref_stale :: "'s git_merger \<Rightarrow> change_ref \<Rightarrow> ('s, unit) git_act" where
  "check_ref_stale m ref =
     (if cr_ref ref = [] then ok ()
      else and_then (wrap_as ''git ls-remote'' (run_git m [''ls-remote'', gm_remote m, cr_ref ref])) (\<lambda>out.
        case text_fields out of
          [] \<Rightarrow> ok ()
        | current # rest \<Rightarrow> if current \<noteq> cr_sha ref
            then fail (invalid_request (''change is stale: '' @ cr_label ref @ '' names commit '' @ cr_sha ref @ '' but '' @ cr_ref ref @ '' now points at '' @ current))
            else ok ()))"

definition check_stale :: "'s git_merger \<Rightarrow> change_ref list \<Rightarrow> ('s, unit) git_act" where
  "check_stale m refs = (if \<not> gm_staleness m then ok () else for_each (check_ref_stale m) refs)"

section \<open>Picking\<close>

definition is_redundant_cherry_pick :: "string \<Rightarrow> bool" where
  "is_redundant_cherry_pick out \<longleftrightarrow> string_contains out ''previous cherry-pick is now empty'' \<or> string_contains out ''nothing to commit''"

text \<open>
  The loop of \<open>cherryPickRange\<close> skips redundant commits for as long as git reports them; \<open>pick_stuck\<close> marks
  a run that used up its bound on the number of skips.
\<close>

definition pick_stuck :: goerr where "pick_stuck = CommandError ''cherry-pick'' ''still skipping'' None"

fun cherry_pick_rounds :: "'s git_merger \<Rightarrow> nat \<Rightarrow> string \<Rightarrow> goerr option \<Rightarrow> ('s, unit) git_act" where
  "cherry_pick_rounds m n out None = ok ()"
| "cherry_pick_rounds m n out (Some e) =
     (if is_redundant_cherry_pick out then (case n of
         0 \<Rightarrow> fail pick_stuck
       | Suc k \<Rightarrow> and_then (run_combined m [''cherry-pick'', ''--skip'']) (\<lambda>(out', err'). cherry_pick_rounds m k out' err'))
      else and_then (has_unmerged_paths m) (\<lambda>conflicted.
        and_then (attempt (run_git m [''cherry-pick'', ''--abort''])) (\<lambda>_.
        if \<not> conflicted then fail (Wrapped ''git cherry-pick'' e)
        else fail (merge_conflict (''git cherry-pick: '' @ trim_space out)))))"

definition cherry_pick_range :: "'s git_merger \<Rightarrow> nat \<Rightarrow> string \<Rightarrow> string \<Rightarrow> ('s, unit) git_act" where
  "cherry_pick_range m n base sha = and_then (run_combined m [''cherry-pick'', base @ ''..'' @ sha]) (\<lambda>(out, err). cherry_pick_rounds m n out err)"

definition pick_range :: "'s git_merger \<Rightarrow> nat \<Rightarrow> change_ref \<Rightarrow> ('s, string list) git_act" where
  "pick_range m n ref = and_then (merge_base m ''HEAD'' (cr_sha ref)) (\<lambda>base.
     if base = [] then fail (invalid_request (''change '' @ cr_label ref @ '' shares no history with the merge target; use the MERGE strategy to integrate an unrelated history''))
     else and_then (rev_list m base (cr_sha ref)) (\<lambda>pending.
       if pending = [] then ok []
       else and_then (head_sha m) (\<lambda>pre.
         and_then (cherry_pick_range m n base (cr_sha ref)) (\<lambda>_. rev_list m pre ''HEAD''))))"

definition pick_step_changes :: "'s git_merger \<Rightarrow> nat \<Rightarrow> resolved_step \<Rightarrow> ('s, string list) git_act" where
  "pick_step_changes m n rs = fold_act (\<lambda>ref picked. and_then (pick_range m n ref) (\<lambda>created. ok (picked @ created))) (rs_refs rs) []"

definition apply_rebase :: "'s git_merger \<Rightarrow> nat \<Rightarrow> resolved_step \<Rightarrow> ('s, string list) git_act" where
  "apply_rebase m n rs = pick_step_changes m n rs"

definition squash_message :: "merge_step \<Rightarrow> change_ref \<Rightarrow> string" where
  "squash_message step ref = (if ms_step step \<noteq> [] then ''squash: '' @ ms_step step @ '' ('' @ cr_label ref @ '')'' else ''squash: '' @ cr_label ref)"

text \<open>The commit the change was squashed to; \<open>None\<close> is \<open>squashed=false\<close>.\<close>

definition squash_change :: "'s git_merger \<Rightarrow> nat \<Rightarrow> merge_step \<Rightarrow> change_ref \<Rightarrow> ('s, string option) git_act" where
  "squash_change m n step ref = and_then (head_sha m) (\<lambda>pre.
     and_then (pick_range m n ref) (\<lambda>created.
     if created = [] then ok None
     else and_then (commit_tree_sha m pre) (\<lambda>pre_tree.
       and_then (commit_tree_sha m ''HEAD'') (\<lambda>post_tree.
       if pre_tree = post_tree
       then and_then (wrap_as ''git reset --hard after empty squash'' (run_git m [''reset'', ''--hard'', pre])) (\<lambda>_. ok None)
       else and_then (wrap_as ''git reset --soft'' (run_git m [''reset'', ''--soft'', pre])) (\<lambda>_.
         and_then (commit_author m (cr_sha ref)) (\<lambda>author.
         and_then (wrap_as ''git commit (squash)'' (run_as m author [''commit'', ''-m'', squash_message step ref])) (\<lambda>_.
         and_then (head_sha m) (\<lambda>sha. ok (Some sha)))))))))"

definition apply_squash_rebase :: "'s git_merger \<Rightarrow> nat \<Rightarrow> resolved_step \<Rightarrow> ('s, string list) git_act" where
  "apply_squash_rebase m n rs = fold_act (\<lambda>ref out. and_then (squash_change m n (rs_step rs) ref) (\<lambda>squashed.
     ok (case squashed of None \<Rightarrow> out | Some sha \<Rightarrow> out @ [sha]))) (rs_refs rs) []"

section \<open>Merging\<close>

definition classify_merge_failure :: "change_ref \<Rightarrow> string \<Rightarrow> bool \<Rightarrow> goerr \<Rightarrow> goerr" where
  "classify_merge_failure ref out conflicted cause = (let detail = trim_space out in
     if string_contains detail ''refusing to merge unrelated histories''
     then invalid_request (cr_label ref @ '' shares no history with the merge target'')
     else if \<not> conflicted then Wrapped ''git merge'' cause
     else merge_conflict (''git merge: '' @ detail))"

definition merge_change :: "'s git_merger \<Rightarrow> change_ref \<Rightarrow> string list \<Rightarrow> ('s, string list) git_act" where
  "merge_change m ref out = and_then (is_ancestor m (cr_sha ref) ''HEAD'') (\<lambda>contained.
     if contained then ok out
     else and_then (commit_author m (cr_sha ref)) (\<lambda>author.
       and_then (run_combined_as m author ([''merge'', ''--no-ff'', ''--no-edit'']
           @ (if gm_unrelated m then [''--allow-unrelated-histories''] else []) @ [cr_sha ref])) (\<lambda>(o_text, err).
       case err of
         Some e \<Rightarrow> and_then (has_unmerged_paths m) (\<lambda>conflicted.
           and_then (attempt (run_git m [''merge'', ''--abort''])) (\<lambda>_. fail (classify_merge_failure ref o_text conflicted e)))
       | None \<Rightarrow> and_then (head_sha m) (\<lambda>sha. ok (out @ [sha])))))"

definition apply_merge :: "'s git_merger \<Rightarrow> resolved_step \<Rightarrow> ('s, string list) git_act" where
  "apply_merge m rs = fold_act (merge_change m) (rs_refs rs) []"

section \<open>The cycle\<close>

definition apply_step :: "'s git_merger \<Rightarrow> nat \<Rightarrow> resolved_step \<Rightarrow> step_result list \<Rightarrow> ('s, step_result list) git_act" where
  "apply_step m n rs results = and_then (case rs_strategy rs of
       REBASE \<Rightarrow> apply_rebase m n rs
     | SQUASH_REBASE \<Rightarrow> apply_squash_rebase m n rs
     | MERGE \<Rightarrow> apply_merge m rs
     | _ \<Rightarrow> fail (invalid_request ''unsupported strategy'')) (\<lambda>outputs.
     ok (results @ [\<lparr>sr_step = ms_step (rs_step rs), sr_outputs = outputs, sr_reason = []\<rparr>]))"

definition apply_steps :: "'s git_merger \<Rightarrow> nat \<Rightarrow> resolved_step list \<Rightarrow> ('s, step_result list) git_act" where
  "apply_steps m n steps = fold_act (apply_step m n) steps []"

text \<open>The base the cycle was based on, empty when it never got one, beside the error or the results.\<close>

definition based_on :: "string \<Rightarrow> ('s, 'a) git_act \<Rightarrow> 's checkout \<Rightarrow> (string \<times> (goerr + 'a)) \<times> 's checkout" where
  "based_on base m w = (case m w of (r, w') \<Rightarrow> ((base, r), w'))"

definition try_apply :: "'s git_merger \<Rightarrow> nat \<Rightarrow> resolved_step list \<Rightarrow> bool \<Rightarrow> 's checkout \<Rightarrow> (string \<times> (goerr + step_result list)) \<times> 's checkout" where
  "try_apply m n steps commit w =
     (case and_then (reset_to_remote m) (\<lambda>_. head_sha m) w of
        (Inl e, w') \<Rightarrow> (([], Inl e), w')
      | (Inr base, w') \<Rightarrow> based_on base (and_then (apply_steps m n steps) (\<lambda>results.
          if commit then and_then (git_push m) (\<lambda>_. ok results) else ok results)) w')"

fun apply_attempts :: "'s git_merger \<Rightarrow> nat \<Rightarrow> merge_request \<Rightarrow> resolved_step list \<Rightarrow> bool \<Rightarrow> nat \<Rightarrow> goerr \<Rightarrow> ('s, runway_result) git_act" where
  "apply_attempts m n req steps commit 0 last_err w =
     (Inl (Wrapped ''exceeded merge attempts due to remote contention'' last_err), w)"
| "apply_attempts m n req steps commit (Suc k) last_err w = (case try_apply m n steps commit w of
     ((base, Inr results), w') \<Rightarrow>
       (if commit then ok (success_result req results)
        else and_then (wrap_as ''discard after dry-run'' (reset_to_remote m)) (\<lambda>_. ok (success_result req (strip_outputs results)))) w'
   | ((base, Inl e), w') \<Rightarrow>
       (if errors_is e err_conflict
        then (if commit then fail e else and_then (attempt (reset_to_remote m)) (\<lambda>_. fail e)) w'
        else if \<not> commit \<or> base = [] then (Inl e, w')
        else (case refetch_tip_sha m w' of
            (Inl e', w'') \<Rightarrow> (Inl (Wrapped ''refetch after push failure failed'' e), w'')
          | (Inr current, w'') \<Rightarrow> if current = base then (Inl e, w'') else apply_attempts m n req steps commit k e w'')))"

definition apply_transforming :: "'s git_merger \<Rightarrow> nat \<Rightarrow> merge_request \<Rightarrow> resolved_step list \<Rightarrow> bool \<Rightarrow> ('s, runway_result) git_act" where
  "apply_transforming m n req steps commit =
     and_then (ensure_objects m (step_change_refs steps)) (\<lambda>_.
     and_then (check_stale m (step_change_refs steps)) (\<lambda>_.
     apply_attempts m n req steps commit (nat (gm_attempts m)) (Plain ''no error'')))"

section \<open>Promotion and the two operations\<close>

definition promote_result :: "merge_request \<Rightarrow> resolved_step \<Rightarrow> string \<Rightarrow> bool \<Rightarrow> runway_result" where
  "promote_result req rs sha commit =
     success_result req [\<lparr>sr_step = ms_step (rs_step rs), sr_outputs = (if commit then [sha] else []), sr_reason = []\<rparr>]"

fun promote_attempts :: "'s git_merger \<Rightarrow> merge_request \<Rightarrow> resolved_step \<Rightarrow> string \<Rightarrow> bool \<Rightarrow> nat \<Rightarrow> goerr \<Rightarrow> ('s, runway_result) git_act" where
  "promote_attempts m req rs sha commit 0 last_err =
     fail (Wrapped ''exceeded promote attempts due to remote contention'' last_err)"
| "promote_attempts m req rs sha commit (Suc k) last_err =
     and_then (reset_to_remote m) (\<lambda>_.
     and_then (head_sha m) (\<lambda>tip.
     if sha = tip then ok (promote_result req rs sha commit)
     else and_then (is_ancestor m sha tip) (\<lambda>contained.
       if contained then ok (promote_result req rs sha commit)
       else and_then (is_ancestor m tip sha) (\<lambda>fast_forward.
         if \<not> fast_forward then fail (merge_conflict (''promote target '' @ sha @ '' is not a fast-forward of '' @ tip))
         else if \<not> commit then ok (promote_result req rs sha commit)
         else and_then (attempt (run_git m [''push'', gm_remote m, sha @ '':refs/heads/'' @ gm_target m])) (\<lambda>r. case r of
             Inl e \<Rightarrow> promote_attempts m req rs sha commit k e
           | Inr _ \<Rightarrow> ok (promote_result req rs sha commit))))))"

definition git_promote :: "'s git_merger \<Rightarrow> merge_request \<Rightarrow> resolved_step \<Rightarrow> bool \<Rightarrow> ('s, runway_result) git_act" where
  "git_promote m req rs commit = (let ref = hd (rs_refs rs) in
     and_then (ensure_objects m [ref]) (\<lambda>_.
     and_then (check_stale m [ref]) (\<lambda>_.
     promote_attempts m req rs (cr_sha ref) commit (nat (gm_attempts m)) (Plain ''no error''))))"

definition git_process :: "'s git_merger \<Rightarrow> nat \<Rightarrow> merge_request \<Rightarrow> bool \<Rightarrow> ('s, runway_result) git_act" where
  "git_process m n req commit = and_then (of_sum (resolve_and_validate m req)) (\<lambda>steps.
     if rs_strategy (hd steps) = PROMOTE then git_promote m req (hd steps) commit
     else apply_transforming m n req steps commit)"

definition git_merge :: "'s git_merger \<Rightarrow> nat \<Rightarrow> merge_request \<Rightarrow> ('s, runway_result) git_act" where
  "git_merge m n req = git_process m n req True"

definition git_check :: "'s git_merger \<Rightarrow> nat \<Rightarrow> merge_request \<Rightarrow> ('s, runway_result) git_act" where
  "git_check m n req = git_process m n req False"

section \<open>Classification of failed commands\<close>

definition remote_operations :: "string list" where
  "remote_operations = [''clone'', ''fetch'', ''ls-remote'', ''pull'', ''push'']"

definition transient_transport_fragments :: "string list" where
  "transient_transport_fragments = [''502 bad gateway'', ''503 service unavailable'', ''504 gateway timeout'', ''broken pipe'',
     ''connection refused'', ''connection reset by peer'', ''connection timed out'', ''could not resolve host'', ''early eof'',
     ''network is unreachable'', ''no route to host'', ''operation timed out'', ''ssh_exchange_identification'',
     ''temporary failure in name resolution'', ''transfer closed with outstanding read data remaining'']"

definition transient_checkout_fragments :: "string list" where
  "transient_checkout_fragments = [''.lock'' @ [char_of (39::nat)] @ '': file exists'', ''cannot lock ref'', ''index.lock'', ''resource temporarily unavailable'']"

definition to_lower :: "string \<Rightarrow> string" where
  "to_lower = map (\<lambda>c. let k = of_char c :: nat in if 65 \<le> k \<and> k \<le> 90 then char_of (k + 32) else c)"

definition contains_any :: "string \<Rightarrow> string list \<Rightarrow> bool" where
  "contains_any diagnostic fragments \<longleftrightarrow> list_ex (string_contains diagnostic) fragments"

definition classify_command :: "string \<Rightarrow> string \<Rightarrow> verdict" where
  "classify_command operation diagnostic = (let d = to_lower diagnostic; remote = operation \<in> set remote_operations;
       transient = contains_any d transient_checkout_fragments \<or> remote \<and> contains_any d transient_transport_fragments in
     if transient \<and> remote then InfraDependencyRetryable
     else if transient then InfraRetryable
     else if remote then InfraDependency
     else Infra)"

definition git_classifier :: "goerr \<Rightarrow> verdict" where
  "git_classifier e = (case e of CommandError operation message code \<Rightarrow> classify_command operation message | _ \<Rightarrow> Unknown)"

end
