(* ===== verification/GithubMerger.thy ===== *)
theory GithubMerger
  imports GitMerger
begin

text \<open>
  The GitHub merger of Runway (\<open>runway/extension/merger/github\<close>): the client of the REST API, the
  validation of a step against the pull requests and the stack GitHub has, the asynchronous merge and
  the polling of it.  GitHub is an argument: what it answers to a request and the state it is left in,
  together with the decoding of the bodies and the clock, which a request or a wait may advance.
  \<open>hb_calls\<close> records the requests; no decision reads it.  Contexts are never cancelled, so a wait returns.
\<close>

section \<open>The API\<close>

record git_ref =
  rf_ref :: string
  rf_sha :: string

record pull_request =
  pr_state :: string
  pr_draft :: bool
  pr_merged :: bool
  pr_mergeable :: "bool option"
  pr_mergeable_state :: string
  pr_head :: git_ref
  pr_base :: git_ref

record stack_pull =
  sp_number :: int
  sp_state :: string
  sp_merged_at :: "string option"

record hub_stack =
  hs_number :: int
  hs_base :: git_ref
  hs_pulls :: "stack_pull list"

record async_merge_request =
  am_sha :: string
  am_method :: string
  am_action :: string
  am_bypass :: bool

record async_merge_status =
  as_status :: string
  as_message :: string
  as_uuid :: string
  as_expected :: string
  as_method :: string

record issue_event =
  ie_event :: string
  ie_commit :: string

datatype submit_outcome = SubmitAccepted | SubmitDone | SubmitRejected | SubmitConflicting

definition empty_status :: async_merge_status where
  "empty_status = \<lparr>as_status = [], as_message = [], as_uuid = [], as_expected = [], as_method = []\<rparr>"

definition stack_pull_unmerged :: "stack_pull \<Rightarrow> bool" where
  "stack_pull_unmerged p \<longleftrightarrow> sp_state p = ''open'' \<and> sp_merged_at p = None"

text \<open>A request: a read of a path, or the submission of a merge.\<close>

datatype hub_call = GetCall string | PutCall string async_merge_request

record 's hub =
  hb_state :: 's
  hb_calls :: "hub_call list"

type_synonym ('s, 'a) hop = "('s hub, goerr, 'a) act"

record 's github_merger =
  hm_send :: "hub_call \<Rightarrow> 's \<Rightarrow> (goerr + int \<times> string) \<times> 's"
  hm_decode_pull :: "string \<Rightarrow> goerr + pull_request"
  hm_decode_events :: "string \<Rightarrow> goerr + issue_event list"
  hm_decode_stacks :: "string \<Rightarrow> goerr + hub_stack list"
  hm_decode_status :: "string \<Rightarrow> goerr + async_merge_status"
  hm_partial_status :: "string \<Rightarrow> async_merge_status"
  hm_now :: "'s \<Rightarrow> int"
  hm_wait :: "int \<Rightarrow> 's \<Rightarrow> 's"
  hm_library :: url_library
  hm_host :: string
  hm_owner :: string
  hm_repo :: string
  hm_target :: string
  hm_default :: proto_strategy
  hm_bypass :: bool
  hm_interval :: int
  hm_max_poll :: int

definition err_merge_pending :: goerr where "err_merge_pending = Plain ''github merge still pending''"

definition github_classifier :: "goerr \<Rightarrow> verdict" where
  "github_classifier e = (if e = err_merge_pending then InfraDependencyRetryable else Unknown)"

definition merge_method :: "proto_strategy \<Rightarrow> string option" where
  "merge_method s = (case s of REBASE \<Rightarrow> Some ''rebase'' | SQUASH_REBASE \<Rightarrow> Some ''squash'' | MERGE \<Rightarrow> Some ''merge'' | _ \<Rightarrow> None)"

text \<open>\<open>New\<close>, for a client that is there; durations are in milliseconds.\<close>

definition new_github_merger :: "'s github_merger \<Rightarrow> goerr + 's github_merger" where
  "new_github_merger p =
     (if list_ex (\<lambda>v. v = []) [hm_host p, hm_owner p, hm_repo p, hm_target p] then Inl (Plain ''github merger: a parameter is required'')
      else if merge_method (hm_default p) = None then Inl (Plain ''github merger: default strategy must be REBASE, SQUASH_REBASE or MERGE'')
      else Inr (p\<lparr>hm_interval := (if hm_interval p = 0 then 2000 else hm_interval p),
        hm_max_poll := (if hm_max_poll p \<le> 0 then 600000 else hm_max_poll p)\<rparr>))"

section \<open>The client\<close>

definition hub_send :: "'s github_merger \<Rightarrow> hub_call \<Rightarrow> ('s, int \<times> string) hop" where
  "hub_send g c w = (case hm_send g c (hb_state w) of (r, s) \<Rightarrow> (r, \<lparr>hb_state = s, hb_calls = hb_calls w @ [c]\<rparr>))"

text \<open>
  \<open>strconv.Itoa\<close>; the text of a \<open>StatusError\<close>, with at most 1024 bytes of the body (the mark of a
  truncated one is written without its ellipsis).
\<close>

definition hub_itoa :: "int \<Rightarrow> string" where
  "hub_itoa i = (if i < 0 then ''-'' @ dec (nat (- i)) else dec (nat i))"

definition status_error :: "int \<Rightarrow> string \<Rightarrow> goerr" where
  "status_error code body = Plain (''unexpected status '' @ hub_itoa code @ (if body = [] then [] else '': '' @ (if length body > 1024 then take 1024 body @ '' (truncated)'' else body)))"

definition get_json :: "'s github_merger \<Rightarrow> (string \<Rightarrow> goerr + 'a) \<Rightarrow> string \<Rightarrow> ('s, 'a) hop" where
  "get_json g decode path = and_then (hub_send g (GetCall path)) (\<lambda>(status, body).
     if status \<noteq> 200 then fail (status_error status body)
     else map_err (Wrapped ''unmarshal response'') (of_sum (decode body)))"

definition repo_path :: "'s github_merger \<Rightarrow> string list \<Rightarrow> string" where
  "repo_path g segments = (let escape = ul_path_escape (hm_library g) in
     ''/repos/'' @ escape (hm_owner g) @ ''/'' @ escape (hm_repo g) @ concat (map (\<lambda>s. ''/'' @ escape s) segments))"

definition get_pull :: "'s github_merger \<Rightarrow> int \<Rightarrow> ('s, pull_request) hop" where
  "get_pull g number = map_err (Wrapped ''get pull request'') (get_json g (hm_decode_pull g) (repo_path g [''pulls'', hub_itoa number]))"

definition issue_events_page_size :: nat where "issue_events_page_size = 100"

text \<open>The last merged event that names a commit, over the pages; \<open>hub_stuck\<close> marks a run past its bound.\<close>

definition hub_stuck :: goerr where "hub_stuck = CommandError ''github'' ''still polling'' None"

definition merged_commit :: "string \<Rightarrow> issue_event list \<Rightarrow> string" where
  "merged_commit found events = foldl (\<lambda>c e. if ie_event e = ''merged'' \<and> ie_commit e \<noteq> [] then ie_commit e else c) found events"

fun merge_commit_pages :: "'s github_merger \<Rightarrow> int \<Rightarrow> nat \<Rightarrow> int \<Rightarrow> string \<Rightarrow> ('s, string option) hop" where
  "merge_commit_pages g number 0 page found = fail hub_stuck"
| "merge_commit_pages g number (Suc n) page found =
     and_then (map_err (Wrapped ''list events of pull request'') (get_json g (hm_decode_events g)
       (repo_path g [''issues'', hub_itoa number, ''events''] @ ''?per_page='' @ dec issue_events_page_size @ ''&page='' @ hub_itoa page))) (\<lambda>events.
     let found' = merged_commit found events in
     if length events < issue_events_page_size then ok (if found' = [] then None else Some found')
     else merge_commit_pages g number n (page + 1) found')"

definition get_merge_commit :: "'s github_merger \<Rightarrow> nat \<Rightarrow> int \<Rightarrow> ('s, string option) hop" where
  "get_merge_commit g n number = merge_commit_pages g number n 1 []"

definition get_stack_for_pull :: "'s github_merger \<Rightarrow> int \<Rightarrow> ('s, hub_stack option) hop" where
  "get_stack_for_pull g number =
     and_then (map_err (Wrapped ''list stacks for pull request'') (get_json g (hm_decode_stacks g) (repo_path g [''stacks''] @ ''?pull_request='' @ hub_itoa number))) (\<lambda>stacks.
     ok (find_first (\<lambda>s. list_ex (\<lambda>p. sp_number p = number) (hs_pulls s)) stacks))"

definition submit_merge :: "'s github_merger \<Rightarrow> int \<Rightarrow> async_merge_request \<Rightarrow> ('s, async_merge_status \<times> submit_outcome) hop" where
  "submit_merge g number req =
     and_then (map_err (Wrapped ''merge pull request'') (hub_send g (PutCall (repo_path g [''pulls'', hub_itoa number, ''merge-async'']) req))) (\<lambda>(status, body).
     if status = 400 \<or> status = 422 then ok (hm_partial_status g body, SubmitRejected)
     else if status \<notin> {200, 202, 409} then fail (Wrapped ''merge pull request'' (status_error status body))
     else and_then (map_err (Wrapped ''merge pull request: unmarshal response'') (of_sum (hm_decode_status g body))) (\<lambda>out.
       if status = 409 \<and> as_uuid out \<noteq> [] then
         (if as_expected out \<noteq> am_sha req \<or> as_method out \<noteq> am_method req then ok (out, SubmitConflicting) else ok (out, SubmitAccepted))
       else if status = 409 then fail (Wrapped ''merge pull request'' (status_error status body))
       else if as_status out = ''pending'' \<and> as_uuid out \<noteq> [] then ok (out, SubmitAccepted)
       else ok (out, SubmitDone)))"

definition get_merge_status :: "'s github_merger \<Rightarrow> int \<Rightarrow> string \<Rightarrow> ('s, async_merge_status) hop" where
  "get_merge_status g number uuid =
     map_err (Wrapped ''get merge status'') (get_json g (hm_decode_status g) (repo_path g [''pulls'', hub_itoa number, ''merge-async'', uuid]))"

section \<open>The merger\<close>

record pull_ref =
  pf_number :: int
  pf_sha :: string
  pf_label :: string

record step_pull =
  su_ref :: pull_ref
  su_pr :: pull_request

definition resolve_pull :: "'s github_merger \<Rightarrow> string \<Rightarrow> goerr + pull_ref" where
  "resolve_pull g uri = (case parse_github_change (hm_library g) uri of
     Inl e \<Rightarrow> Inl (invalid_request (''invalid change URI: '' @ error_text e))
   | Inr c \<Rightarrow>
       if gh_host c \<noteq> hm_host g \<or> gh_org c \<noteq> hm_owner g \<or> gh_repo c \<noteq> hm_repo g
       then Inl (invalid_request (''change URI is not in '' @ hm_host g @ ''/'' @ hm_owner g @ ''/'' @ hm_repo g))
       else Inr \<lparr>pf_number = gh_number c, pf_sha = gh_sha c, pf_label = owner_repo c @ ''#'' @ dec (nat (gh_number c))\<rparr>)"

definition github_strategy :: "'s github_merger \<Rightarrow> merge_step \<Rightarrow> proto_strategy" where
  "github_strategy g step = (if ms_strategy step = DEFAULT then hm_default g else ms_strategy step)"

fun first_error :: "('x \<Rightarrow> goerr + 'a) \<Rightarrow> 'x list \<Rightarrow> goerr + unit" where
  "first_error f [] = Inr ()"
| "first_error f (x # xs) = (case f x of Inl e \<Rightarrow> Inl e | Inr _ \<Rightarrow> first_error f xs)"

definition github_validate_step :: "'s github_merger \<Rightarrow> merge_step \<Rightarrow> goerr + unit" where
  "github_validate_step g step =
     (if ms_uris step = [] then Inl (invalid_request (''step '' @ ms_step step @ '' has no change URIs''))
      else if merge_method (github_strategy g step) = None then Inl (invalid_request (''step '' @ ms_step step @ '': strategy is not supported by the GitHub merger''))
      else first_error (resolve_pull g) (ms_uris step))"

definition github_validate :: "'s github_merger \<Rightarrow> merge_request \<Rightarrow> goerr + unit" where
  "github_validate g req =
     (if mq_steps req = [] then Inl (invalid_request ''request has no steps'') else first_error (github_validate_step g) (mq_steps req))"

definition load_pull :: "'s github_merger \<Rightarrow> string \<Rightarrow> string \<Rightarrow> ('s, step_pull) hop" where
  "load_pull g step uri = and_then (of_sum (resolve_pull g uri)) (\<lambda>ref.
     and_then (get_pull g (pf_number ref)) (\<lambda>pr.
     if pr_merged pr then ok \<lparr>su_ref = ref, su_pr = pr\<rparr>
     else if rf_sha (pr_head pr) \<noteq> pf_sha ref
       then fail (invalid_request (''step '' @ step @ '': '' @ pf_label ref @ '' head moved from '' @ pf_sha ref @ '' to '' @ rf_sha (pr_head pr)))
     else if pr_state pr \<noteq> ''open'' then fail (invalid_request (''step '' @ step @ '': '' @ pf_label ref @ '' is closed without being merged''))
     else if pr_draft pr then fail (invalid_request (''step '' @ step @ '': '' @ pf_label ref @ '' is a draft''))
     else ok \<lparr>su_ref = ref, su_pr = pr\<rparr>))"

definition load_step_pulls :: "'s github_merger \<Rightarrow> merge_step \<Rightarrow> ('s, step_pull list) hop" where
  "load_step_pulls g step = fold_act (\<lambda>uri pulls. and_then (load_pull g (ms_step step) uri) (\<lambda>p. ok (pulls @ [p]))) (ms_uris step) []"

definition unmerged_pulls :: "step_pull list \<Rightarrow> step_pull list" where
  "unmerged_pulls pulls = dropWhile (\<lambda>p. pr_merged (su_pr p)) pulls"

text \<open>The unmerged pull requests are the bottom of the stack, in order and with no gap.\<close>

fun bottom_of_stack :: "step_pull list \<Rightarrow> int list \<Rightarrow> bool" where
  "bottom_of_stack [] numbers = True"
| "bottom_of_stack (p # ps) [] = False"
| "bottom_of_stack (p # ps) (i # is) = (i = pf_number (su_ref p) \<and> bottom_of_stack ps is)"

definition validate_step_is_stack :: "'s github_merger \<Rightarrow> merge_step \<Rightarrow> step_pull list \<Rightarrow> ('s, unit) hop" where
  "validate_step_is_stack g step pulls = (let pending = unmerged_pulls pulls; said = ''step '' @ ms_step step @ '': '' in
     if pending = [] then ok ()
     else if list_ex (\<lambda>p. pr_merged (su_pr p)) pending
       then fail (invalid_request (said @ ''a pull request is already merged but listed after an unmerged pull request''))
     else if length pending = 1 then
       (if rf_ref (pr_base (su_pr (hd pending))) \<noteq> hm_target g
        then fail (invalid_request (said @ ''a stacked pull request must be listed with the pull requests below it'')) else ok ())
     else and_then (get_stack_for_pull g (pf_number (su_ref (last pending)))) (\<lambda>found. case found of
         None \<Rightarrow> fail (invalid_request (said @ ''the pull requests are not a GitHub stack''))
       | Some s \<Rightarrow>
           if rf_ref (hs_base s) \<noteq> hm_target g then fail (invalid_request (said @ ''the stack is based on another branch''))
           else if \<not> bottom_of_stack pending (map sp_number (filter stack_pull_unmerged (hs_pulls s)))
             then fail (invalid_request (said @ ''the pull requests are not the unmerged bottom of the stack''))
           else ok ()))"

definition load_valid_step_pulls :: "'s github_merger \<Rightarrow> merge_step \<Rightarrow> ('s, step_pull list) hop" where
  "load_valid_step_pulls g step = and_then (load_step_pulls g step) (\<lambda>pulls. and_then (validate_step_is_stack g step pulls) (\<lambda>_. ok pulls))"

section \<open>Polling\<close>

definition hub_now :: "'s github_merger \<Rightarrow> ('s, int) hop" where
  "hub_now g w = (Inr (hm_now g (hb_state w)), w)"

definition wait_poll_interval :: "'s github_merger \<Rightarrow> ('s, unit) hop" where
  "wait_poll_interval g w = (Inr (), if hm_interval g < 0 then w else w\<lparr>hb_state := hm_wait g (hm_interval g) (hb_state w)\<rparr>)"

text \<open>The three loops, each with a bound \<open>n\<close> on its rounds.\<close>

fun await_merge_commit :: "'s github_merger \<Rightarrow> nat \<Rightarrow> int \<Rightarrow> step_pull \<Rightarrow> nat \<Rightarrow> ('s, string) hop" where
  "await_merge_commit g pages deadline p 0 = fail hub_stuck"
| "await_merge_commit g pages deadline p (Suc n) = and_then (get_merge_commit g pages (pf_number (su_ref p))) (\<lambda>found. case found of
     Some sha \<Rightarrow> ok sha
   | None \<Rightarrow> and_then (hub_now g) (\<lambda>now.
       if \<not> now < deadline then fail (Detailed err_merge_pending (''pull request '' @ pf_label (su_ref p) @ '' not yet reported merged''))
       else and_then (wait_poll_interval g) (\<lambda>_. await_merge_commit g pages deadline p n)))"

definition await_merge_commits :: "'s github_merger \<Rightarrow> nat \<Rightarrow> step_pull list \<Rightarrow> ('s, string list) hop" where
  "await_merge_commits g n pulls = and_then (hub_now g) (\<lambda>now.
     fold_act (\<lambda>p outputs. and_then (await_merge_commit g n (now + hm_max_poll g) p n) (\<lambda>sha. ok (outputs @ [sha]))) pulls [])"

fun poll_merge :: "'s github_merger \<Rightarrow> int \<Rightarrow> step_pull \<Rightarrow> nat \<Rightarrow> async_merge_status \<Rightarrow> ('s, async_merge_status) hop" where
  "poll_merge g deadline peak 0 status = fail hub_stuck"
| "poll_merge g deadline peak (Suc n) status =
     (if as_status status \<noteq> ''pending'' then ok status
      else and_then (hub_now g) (\<lambda>now.
        if \<not> now < deadline then fail (Detailed err_merge_pending (''merge '' @ as_uuid status @ '' of '' @ pf_label (su_ref peak)))
        else and_then (wait_poll_interval g) (\<lambda>_.
          and_then (get_merge_status g (pf_number (su_ref peak)) (as_uuid status)) (\<lambda>next.
          poll_merge g deadline peak n (if as_uuid next = [] then next\<lparr>as_uuid := as_uuid status\<rparr> else next)))))"

definition merge_stack :: "'s github_merger \<Rightarrow> nat \<Rightarrow> merge_step \<Rightarrow> step_pull \<Rightarrow> string \<Rightarrow> ('s, unit) hop" where
  "merge_stack g n step peak method_name = (let ref = su_ref peak; said = ''step '' @ ms_step step @ '': '' in
     and_then (submit_merge g (pf_number ref) \<lparr>am_sha = pf_sha ref, am_method = method_name, am_action = ''direct_merge'', am_bypass = hm_bypass g\<rparr>) (\<lambda>(status, outcome).
     if outcome = SubmitRejected then fail (invalid_request (said @ ''GitHub refused to merge '' @ pf_label ref @ '': '' @ as_message status))
     else if outcome = SubmitConflicting then fail (invalid_request (said @ pf_label ref @ '' already has a merge in flight for head '' @ as_expected status))
     else and_then (hub_now g) (\<lambda>now. and_then (poll_merge g (now + hm_max_poll g) peak n status) (\<lambda>settled.
       if as_status settled = ''merged'' then ok ()
       else if as_status settled = ''failed'' then fail (merge_conflict (said @ ''GitHub failed to merge '' @ pf_label ref @ '': '' @ as_message settled))
       else fail (Plain ''unexpected merge status'')))))"

fun await_mergeable :: "'s github_merger \<Rightarrow> int \<Rightarrow> pull_ref \<Rightarrow> nat \<Rightarrow> pull_request \<Rightarrow> ('s, bool \<times> pull_request) hop" where
  "await_mergeable g deadline ref 0 pr = fail hub_stuck"
| "await_mergeable g deadline ref (Suc n) pr = (case pr_mergeable pr of
     Some b \<Rightarrow> ok (b, pr)
   | None \<Rightarrow> and_then (hub_now g) (\<lambda>now.
       if \<not> now < deadline then fail (Detailed err_merge_pending (''mergeability of '' @ pf_label ref))
       else and_then (wait_poll_interval g) (\<lambda>_. and_then (get_pull g (pf_number ref)) (await_mergeable g deadline ref n))))"

definition check_pull_mergeable :: "'s github_merger \<Rightarrow> nat \<Rightarrow> merge_step \<Rightarrow> step_pull \<Rightarrow> ('s, unit) hop" where
  "check_pull_mergeable g n step p = and_then (hub_now g) (\<lambda>now.
     and_then (await_mergeable g (now + hm_max_poll g) (su_ref p) n (su_pr p)) (\<lambda>(mergeable, pr).
     if \<not> mergeable \<or> pr_mergeable_state pr = ''dirty''
     then fail (merge_conflict (''step '' @ ms_step step @ '': '' @ pf_label (su_ref p) @ '' conflicts with '' @ rf_ref (pr_base pr))) else ok ()))"

section \<open>The two operations\<close>

definition github_check_step :: "'s github_merger \<Rightarrow> nat \<Rightarrow> merge_step \<Rightarrow> step_result list \<Rightarrow> ('s, step_result list) hop" where
  "github_check_step g n step results = and_then (load_valid_step_pulls g step) (\<lambda>pulls.
     and_then (for_each (check_pull_mergeable g n step) (unmerged_pulls pulls)) (\<lambda>_.
     ok (results @ [\<lparr>sr_step = ms_step step, sr_outputs = [], sr_reason = []\<rparr>])))"

definition github_check :: "'s github_merger \<Rightarrow> nat \<Rightarrow> merge_request \<Rightarrow> ('s, runway_result) hop" where
  "github_check g n req = and_then (of_sum (github_validate g req)) (\<lambda>_.
     and_then (fold_act (github_check_step g n) (mq_steps req) []) (\<lambda>results. ok (success_result req results)))"

definition merge_github_step :: "'s github_merger \<Rightarrow> nat \<Rightarrow> merge_step \<Rightarrow> ('s, string list) hop" where
  "merge_github_step g n step = and_then (load_valid_step_pulls g step) (\<lambda>pulls. let pending = unmerged_pulls pulls in
     and_then (if pending = [] then ok ()
       else merge_stack g n step (last pending) (case merge_method (github_strategy g step) of None \<Rightarrow> [] | Some k \<Rightarrow> k)) (\<lambda>_.
     await_merge_commits g n pulls))"

text \<open>An error comes with the steps reported beside it, none when the result is nil.\<close>

fun merge_github_steps :: "'s github_merger \<Rightarrow> nat \<Rightarrow> merge_request \<Rightarrow> merge_step list \<Rightarrow> step_result list \<Rightarrow> 's hub
    \<Rightarrow> (goerr \<times> step_result list + runway_result) \<times> 's hub" where
  "merge_github_steps g n req [] results w = (Inr (success_result req results), w)"
| "merge_github_steps g n req (step # steps) results w = (case merge_github_step g n step w of
     (Inl e, w') \<Rightarrow> (Inl (e, if is_terminal e then results @ [\<lparr>sr_step = ms_step step, sr_outputs = [], sr_reason = error_text e\<rparr>] else []), w')
   | (Inr outputs, w') \<Rightarrow> merge_github_steps g n req steps (results @ [\<lparr>sr_step = ms_step step, sr_outputs = outputs, sr_reason = []\<rparr>]) w')"

definition github_merge :: "'s github_merger \<Rightarrow> nat \<Rightarrow> merge_request \<Rightarrow> 's hub \<Rightarrow> (goerr \<times> step_result list + runway_result) \<times> 's hub" where
  "github_merge g n req w = (case github_validate g req of
     Inl e \<Rightarrow> (Inl (e, []), w)
   | Inr _ \<Rightarrow> merge_github_steps g n req (mq_steps req) [] w)"

end
