(* ===== verification/RunLog.thy ===== *)
theory RunLog
  imports Errs
begin

text \<open>
  Contracts on what an action does to the outside, for actions that record the commands or requests
  they issue in a trail of the state.  \<open>leaves trail Q f\<close>: what \<open>f\<close> adds to the trail and the error it ends with,
  if any, are as \<open>Q\<close> asks.  The locale \<open>log_contract\<close> says which \<open>Q\<close> can be followed through code: they hold
  of doing nothing, compose in sequence, survive a wrapped or an ignored error, and allow every error
  that is not \<open>bad\<close> to be returned.
\<close>

definition end_error :: "goerr + 'a \<Rightarrow> goerr option" where
  "end_error r = (case r of Inl e \<Rightarrow> Some e | Inr x \<Rightarrow> None)"

lemma end_error_simps [simp]: "end_error (Inl e) = Some e" "end_error (Inr x) = None"
  by (simp_all add: end_error_def)

definition leaves :: "('w \<Rightarrow> 'c list) \<Rightarrow> (goerr option \<Rightarrow> 'c list \<Rightarrow> bool) \<Rightarrow> ('w, goerr, 'a) act \<Rightarrow> bool" where
  "leaves trail Q f \<longleftrightarrow> (\<forall>w r w'. f w = (r, w') \<longrightarrow> (\<exists>cs. trail w' = trail w @ cs \<and> Q (end_error r) cs))"

lemma leavesI:
  "(\<And>w r w'. f w = (r, w') \<Longrightarrow> \<exists>cs. trail w' = trail w @ cs \<and> Q (end_error r) cs) \<Longrightarrow> leaves trail Q f"
  by (simp add: leaves_def)

lemma leavesE:
  assumes "leaves trail Q f" and "f w = (r, w')"
  obtains cs where "trail w' = trail w @ cs" and "Q (end_error r) cs"
  using assms unfolding leaves_def by metis

locale log_contract =
  fixes Q :: "goerr option \<Rightarrow> 'c list \<Rightarrow> bool"
    and bad :: "goerr \<Rightarrow> bool"
  assumes no_run: "Q None []"
    and in_turn: "Q None cs \<Longrightarrow> Q r ds \<Longrightarrow> Q r (cs @ ds)"
    and aftermath: "Q r cs \<Longrightarrow> Q None ds \<Longrightarrow> Q r (cs @ ds)"
    and ignored: "Q (Some e) cs \<Longrightarrow> Q None cs"
    and wrapped: "Q (Some e) cs \<Longrightarrow> Q (Some (Wrapped t e)) cs"
    and refused: "\<not> bad e \<Longrightarrow> Q (Some e) []"
begin

lemma any_error: "Q None cs \<Longrightarrow> \<not> bad e \<Longrightarrow> Q (Some e) cs"
  using in_turn [of cs "Some e" "[]"] refused by simp

lemma leaves_ok: "leaves trail Q (ok x)"
  by (auto intro!: leavesI simp: ok_def no_run)

lemma leaves_fail: "\<not> bad e \<Longrightarrow> leaves trail Q (fail e)"
  by (auto intro!: leavesI simp: fail_def refused)

lemma leaves_of_sum: "(\<And>e. r = Inl e \<Longrightarrow> \<not> bad e) \<Longrightarrow> leaves trail Q (of_sum r)"
  by (cases r) (auto intro!: leavesI simp: of_sum_def refused no_run)

lemma leaves_then:
  assumes "leaves trail Q f" and "\<And>x. leaves trail Q (g x)"
  shows "leaves trail Q (and_then f g)"
proof (rule leavesI)
  fix w r w' assume "and_then f g w = (r, w')"
  then show "\<exists>cs. trail w' = trail w @ cs \<and> Q (end_error r) cs"
  proof (cases rule: and_then_cases)
    case (failure e)
    with assms(1) show ?thesis by (auto elim: leavesE)
  next
    case (success x v)
    obtain cs where "trail v = trail w @ cs" "Q None cs" using assms(1) success(1) by (auto elim: leavesE)
    moreover obtain ds where "trail w' = trail v @ ds" "Q (end_error r) ds" using assms(2) success(2) by (auto elim: leavesE)
    ultimately show ?thesis using in_turn by auto
  qed
qed

lemma leaves_attempt: "leaves trail Q f \<Longrightarrow> leaves trail Q (attempt f)"
proof (rule leavesI)
  fix w r w' assume f: "leaves trail Q f" and run: "attempt f w = (r, w')"
  obtain r0 where r0: "f w = (r0, w')" and r: "r = Inr r0" using run by (auto simp: attempt_def split: prod.splits)
  obtain cs where cs: "trail w' = trail w @ cs" "Q (end_error r0) cs" using f r0 by (rule leavesE)
  then have "Q None cs" using ignored by (cases r0) auto
  with cs r show "\<exists>cs. trail w' = trail w @ cs \<and> Q (end_error r) cs" by auto
qed

lemma leaves_wrap: "leaves trail Q f \<Longrightarrow> leaves trail Q (map_err (Wrapped t) f)"
proof (rule leavesI)
  fix w r w' assume f: "leaves trail Q f" and run: "map_err (Wrapped t) f w = (r, w')"
  obtain r0 where r0: "f w = (r0, w')" and r: "r = (case r0 of Inl e \<Rightarrow> Inl (Wrapped t e) | Inr x \<Rightarrow> Inr x)"
    using run by (auto simp: map_err_def split: prod.splits sum.splits)
  obtain cs where cs: "trail w' = trail w @ cs" "Q (end_error r0) cs" using f r0 by (rule leavesE)
  then have "Q (end_error r) cs" using wrapped r by (cases r0) auto
  with cs show "\<exists>cs. trail w' = trail w @ cs \<and> Q (end_error r) cs" by auto
qed

lemma leaves_if: "(c \<Longrightarrow> leaves trail Q f) \<Longrightarrow> (\<not> c \<Longrightarrow> leaves trail Q g) \<Longrightarrow> leaves trail Q (if c then f else g)"
  by simp

lemma leaves_each: "(\<And>x. leaves trail Q (body x)) \<Longrightarrow> leaves trail Q (for_each body xs)"
  by (induction xs) (simp_all add: leaves_ok leaves_then)

lemma leaves_fold: "(\<And>x s. x \<in> set xs \<Longrightarrow> leaves trail Q (body x s)) \<Longrightarrow> leaves trail Q (fold_act body xs s)"
  by (induction xs arbitrary: s) (simp_all add: leaves_ok leaves_then)

end

end
