(* ===== verification/GithubFacts.thy ===== *)
theory GithubFacts
  imports GithubMerger RunLog
begin

text \<open>
  What the GitHub merger asks of GitHub, whatever GitHub answers: a check only reads; a merge submits
  only heads the request pins, with the method of the step; and what it reports is a prefix of the
  steps.  \<open>hub_contract\<close> follows a contract on the requests through the reading half of the code.
\<close>

section \<open>Contracts on the requests\<close>

locale hub_contract = log_contract Q "\<lambda>_. False" for Q :: "goerr option \<Rightarrow> hub_call list \<Rightarrow> bool" +
  assumes reads: "Q None [GetCall path]"
begin

lemma leaves_json: "leaves hb_calls Q (get_json g decode path)"
proof -
  have "Q (end_error r) [GetCall path]" for r :: "goerr + int \<times> string" using reads any_error by (cases r) auto
  then have "leaves hb_calls Q (hub_send g (GetCall path))"
    by (intro leavesI) (auto simp: hub_send_def split: prod.splits)
  then show ?thesis unfolding get_json_def
    by (auto intro!: leaves_then leaves_fail leaves_wrap leaves_of_sum)
qed

lemma leaves_now: "leaves hb_calls Q (hub_now g)"
  by (rule leavesI) (auto simp: hub_now_def no_run)

lemma leaves_wait: "leaves hb_calls Q (wait_poll_interval g)"
  by (rule leavesI) (auto simp: wait_poll_interval_def no_run)

lemma leaves_get_pull: "leaves hb_calls Q (get_pull g number)"
  unfolding get_pull_def by (intro leaves_wrap leaves_json)

lemma leaves_pages: "leaves hb_calls Q (merge_commit_pages g number n page found)"
proof (induction n arbitrary: page found)
  case 0
  then show ?case by (simp add: leaves_fail)
next
  case (Suc n)
  then show ?case by (auto simp: Let_def intro!: leaves_then leaves_wrap leaves_json leaves_ok)
qed

lemma leaves_stack: "leaves hb_calls Q (get_stack_for_pull g number)"
  unfolding get_stack_for_pull_def by (intro leaves_then leaves_wrap leaves_json leaves_ok)

lemma leaves_load: "leaves hb_calls Q (load_valid_step_pulls g step)"
proof -
  have "leaves hb_calls Q (load_pull g s uri)" for s uri
    unfolding load_pull_def by (intro leaves_then leaves_of_sum leaves_get_pull leaves_if leaves_ok leaves_fail) simp_all
  moreover have "leaves hb_calls Q (validate_step_is_stack g step pulls)" for pulls
    unfolding validate_step_is_stack_def Let_def
    by (intro leaves_if leaves_ok leaves_fail leaves_then leaves_stack) (auto intro: leaves_ok leaves_fail split: option.splits)
  ultimately show ?thesis unfolding load_valid_step_pulls_def load_step_pulls_def
    by (intro leaves_then leaves_fold leaves_ok)
qed

lemma leaves_await: "leaves hb_calls Q (await_merge_commits g n pulls)"
proof -
  have "leaves hb_calls Q (await_merge_commit g pages deadline p k)" for pages deadline p k
  proof (induction k)
    case 0
    then show ?case by (simp add: leaves_fail)
  next
    case (Suc k)
    then show ?case
      by (auto simp: get_merge_commit_def intro!: leaves_then leaves_pages leaves_now leaves_wait leaves_ok leaves_fail split: option.splits)
  qed
  then show ?thesis unfolding await_merge_commits_def by (intro leaves_then leaves_now leaves_fold leaves_ok)
qed

lemma leaves_poll: "leaves hb_calls Q (poll_merge g deadline peak n status)"
proof (induction n arbitrary: status)
  case 0
  then show ?case by (simp add: leaves_fail)
next
  case (Suc n)
  then show ?case unfolding get_merge_status_def poll_merge.simps
    by (intro leaves_if leaves_ok leaves_then leaves_now leaves_fail leaves_wait leaves_wrap leaves_json) simp_all
qed

lemma leaves_mergeable: "leaves hb_calls Q (check_pull_mergeable g n step p)"
proof -
  have "leaves hb_calls Q (await_mergeable g deadline ref k pr)" for deadline ref k pr
  proof (induction k arbitrary: pr)
    case 0
    then show ?case by (simp add: leaves_fail)
  next
    case (Suc k)
    then show ?case
      by (auto intro!: leaves_then leaves_now leaves_wait leaves_ok leaves_fail leaves_get_pull split: option.splits)
  qed
  then show ?thesis unfolding check_pull_mergeable_def
    by (auto intro!: leaves_then leaves_now leaves_ok leaves_fail)
qed

end

section \<open>A check only reads\<close>

definition is_get :: "hub_call \<Rightarrow> bool" where
  "is_get c = (case c of GetCall path \<Rightarrow> True | PutCall path req \<Rightarrow> False)"

definition only_reads :: "goerr option \<Rightarrow> hub_call list \<Rightarrow> bool" where
  "only_reads e cs \<longleftrightarrow> list_all is_get cs"

interpretation reading: hub_contract only_reads
  by unfold_locales (auto simp: only_reads_def is_get_def)

text \<open>
  A mergeability check only reads from GitHub, whatever GitHub answers: every request it makes
  is a GET.
\<close>

theorem github_check_only_reads:
  "\<exists>cs. hb_calls (snd (github_check g n req w)) = hb_calls w @ cs \<and> list_all is_get cs"
proof -
  have "leaves hb_calls only_reads (github_check g n req)"
    unfolding github_check_def github_check_step_def
    by (intro reading.leaves_then reading.leaves_of_sum reading.leaves_fold reading.leaves_load reading.leaves_each reading.leaves_mergeable reading.leaves_ok) simp
  moreover obtain r w' where "github_check g n req w = (r, w')" by fastforce
  ultimately show ?thesis by (elim leavesE) (auto simp: only_reads_def)
qed

section \<open>What a merge submits\<close>

text \<open>
  A submission the step allows: of the head a URI of the step pins, with the step's merge method, as a
  direct merge that bypasses rules only as configured.
\<close>

definition submits_for :: "'s github_merger \<Rightarrow> merge_step \<Rightarrow> hub_call \<Rightarrow> bool" where
  "submits_for g step c = (case c of GetCall path \<Rightarrow> True
     | PutCall path r \<Rightarrow> am_action r = ''direct_merge'' \<and> am_bypass r = hm_bypass g \<and> merge_method (github_strategy g step) = Some (am_method r) \<and>
         list_ex (\<lambda>uri. case resolve_pull g uri of Inl e \<Rightarrow> False
           | Inr ref \<Rightarrow> am_sha r = pf_sha ref \<and> path = repo_path g [''pulls'', hub_itoa (pf_number ref), ''merge-async'']) (ms_uris step))"

definition step_submits :: "'s github_merger \<Rightarrow> merge_step \<Rightarrow> goerr option \<Rightarrow> hub_call list \<Rightarrow> bool" where
  "step_submits g step e cs \<longleftrightarrow> list_all (submits_for g step) cs"

interpretation submitting: hub_contract "step_submits g step" for g step
  by unfold_locales (auto simp: step_submits_def submits_for_def)

lemma fold_collects:
  assumes "fold_act (\<lambda>x acc. and_then (f x) (\<lambda>y. ok (acc @ [y]))) xs acc w = (Inr ys, w')"
  shows "\<exists>zs. ys = acc @ zs \<and> list_all2 (\<lambda>x z. \<exists>u v. f x u = (Inr z, v)) xs zs"
  using assms
proof (induction xs arbitrary: acc w)
  case Nil
  then show ?case by (simp add: ok_def)
next
  case (Cons x xs)
  then obtain y v u where y: "f x w = (Inr y, v)" and "fold_act (\<lambda>x acc. and_then (f x) (\<lambda>y. ok (acc @ [y]))) xs (acc @ [y]) v = (Inr ys, w')"
    by (auto simp: ok_def elim!: and_then_Inr)
  then obtain zs where "ys = (acc @ [y]) @ zs" "list_all2 (\<lambda>x z. \<exists>u v. f x u = (Inr z, v)) xs zs" using Cons.IH by blast
  then show ?case using y by (intro exI [of _ "y # zs"]) auto
qed

lemma loaded_pulls:
  assumes "load_valid_step_pulls g step w = (Inr pulls, w')"
  shows "list_all2 (\<lambda>uri p. resolve_pull g uri = Inr (su_ref p)) (ms_uris step) pulls"
proof -
  obtain v where v: "load_step_pulls g step w = (Inr pulls, v)"
    using assms by (auto simp: load_valid_step_pulls_def ok_def elim!: and_then_Inr)
  have "list_all2 (\<lambda>uri p. \<exists>u v. load_pull g (ms_step step) uri u = (Inr p, v)) (ms_uris step) pulls"
    using fold_collects [OF v [unfolded load_step_pulls_def]] by simp
  then show ?thesis
    by (rule list_all2_mono) (auto simp: load_pull_def of_sum_def ok_def fail_def elim!: and_then_Inr split: if_splits)
qed


lemma merge_stack_submits:
  assumes "merge_method (github_strategy g step) = Some k" and "uri \<in> set (ms_uris step)" and "resolve_pull g uri = Inr (su_ref peak)"
  shows "leaves hb_calls (step_submits g step) (merge_stack g n step peak k)"
proof -
  let ?req = "\<lparr>am_sha = pf_sha (su_ref peak), am_method = k, am_action = ''direct_merge'', am_bypass = hm_bypass g\<rparr>"
  have "leaves hb_calls (step_submits g step) (hub_send g (PutCall (repo_path g [''pulls'', hub_itoa (pf_number (su_ref peak)), ''merge-async'']) ?req))"
    using assms by (intro leavesI) (auto simp: hub_send_def step_submits_def submits_for_def list_ex_iff split: prod.splits intro!: bexI [of _ uri])
  then have "leaves hb_calls (step_submits g step) (submit_merge g (pf_number (su_ref peak)) ?req)"
    unfolding submit_merge_def
    by (auto intro!: submitting.leaves_then submitting.leaves_wrap submitting.leaves_if submitting.leaves_ok submitting.leaves_fail submitting.leaves_of_sum)
  then show ?thesis unfolding merge_stack_def Let_def
    by (auto intro!: submitting.leaves_then submitting.leaves_if submitting.leaves_ok submitting.leaves_fail submitting.leaves_now submitting.leaves_poll)
qed

lemma unmerged_subset: "set (unmerged_pulls pulls) \<subseteq> set pulls"
  by (auto simp: unmerged_pulls_def dest: set_dropWhileD)

lemma merge_step_submits:
  assumes "merge_method (github_strategy g step) \<noteq> None" and run: "merge_github_step g n step w = (r, w')"
  obtains cs where "hb_calls w' = hb_calls w @ cs" and "list_all (submits_for g step) cs"
proof -
  obtain k where k: "merge_method (github_strategy g step) = Some k" using assms(1) by auto
  obtain t v where t: "load_valid_step_pulls g step w = (t, v)" by fastforce
  obtain cs where cs: "hb_calls v = hb_calls w @ cs" "list_all (submits_for g step) cs"
    using submitting.leaves_load t by (rule leavesE) (simp add: step_submits_def)
  show thesis
  proof (cases t)
    case (Inl e)
    then show thesis using run t cs by (intro that [of cs]) (auto simp: merge_github_step_def and_then_def)
  next
    case (Inr pulls)
    note refs = loaded_pulls [OF t [unfolded Inr]]
    let ?rest = "let pending = unmerged_pulls pulls in and_then (if pending = [] then ok () else merge_stack g n step (last pending) k) (\<lambda>_. await_merge_commits g n pulls)"
    have "leaves hb_calls (step_submits g step) ?rest"
      unfolding Let_def
    proof (intro submitting.leaves_then submitting.leaves_await submitting.leaves_if submitting.leaves_ok)
      assume "unmerged_pulls pulls \<noteq> []"
      then have "last (unmerged_pulls pulls) \<in> set pulls" using unmerged_subset last_in_set by blast
      then obtain uri where "uri \<in> set (ms_uris step)" "resolve_pull g uri = Inr (su_ref (last (unmerged_pulls pulls)))"
        using refs by (auto simp: list_all2_conv_all_nth in_set_conv_nth) metis
      then show "leaves hb_calls (step_submits g step) (merge_stack g n step (last (unmerged_pulls pulls)) k)"
        using merge_stack_submits [OF k] by blast
    qed
    moreover have "?rest v = (r, w')" using run t Inr k by (auto simp: merge_github_step_def and_then_def Let_def split: if_splits)
    ultimately obtain ds where "hb_calls w' = hb_calls v @ ds" "list_all (submits_for g step) ds"
      by (rule leavesE) (simp add: step_submits_def)
    then show thesis using cs by (intro that [of "cs @ ds"]) auto
  qed
qed

lemma validated_methods: "github_validate g req = Inr () \<Longrightarrow> step \<in> set (mq_steps req) \<Longrightarrow> merge_method (github_strategy g step) \<noteq> None"
proof -
  have "first_error f xs = Inr () \<Longrightarrow> x \<in> set xs \<Longrightarrow> \<exists>y. f x = Inr y" for f :: "'x \<Rightarrow> goerr + 'b" and xs x
    by (induction xs) (auto split: sum.splits)
  then show "github_validate g req = Inr () \<Longrightarrow> step \<in> set (mq_steps req) \<Longrightarrow> merge_method (github_strategy g step) \<noteq> None"
    by (fastforce simp: github_validate_def github_validate_step_def split: if_splits)
qed

lemma merge_steps_submit:
  assumes "\<And>step. step \<in> set steps \<Longrightarrow> merge_method (github_strategy g step) \<noteq> None"
  shows "\<exists>cs. hb_calls (snd (merge_github_steps g n req steps results w)) = hb_calls w @ cs \<and> list_all (\<lambda>c. list_ex (\<lambda>step. submits_for g step c) steps) cs"
  using assms
proof (induction steps arbitrary: results w)
  case Nil
  then show ?case by simp
next
  case (Cons step steps)
  obtain r v where v: "merge_github_step g n step w = (r, v)" by fastforce
  have "merge_method (github_strategy g step) \<noteq> None" using Cons.prems [of step] by simp
  then obtain cs where cs: "hb_calls v = hb_calls w @ cs" "list_all (submits_for g step) cs" using v by (rule merge_step_submits)
  show ?case
  proof (cases r)
    case (Inl e)
    then show ?thesis using v cs by (auto simp: list_all_iff)
  next
    case (Inr outputs)
    let ?results = "results @ [\<lparr>sr_step = ms_step step, sr_outputs = outputs, sr_reason = []\<rparr>]"
    obtain ds where "hb_calls (snd (merge_github_steps g n req steps ?results v)) = hb_calls v @ ds"
      "list_all (\<lambda>c. list_ex (\<lambda>step. submits_for g step c) steps) ds" using Cons.IH [of ?results v] Cons.prems by auto
    then show ?thesis using v cs Inr by (intro exI [of _ "cs @ ds"]) (auto simp: list_all_iff)
  qed
qed

text \<open>
  C38. Every merge the merger submits is one the request asked for, whatever GitHub answers: its head is
  the commit pinned by a URI of one of the steps, on the path of that pull request, with that step's
  merge method, merging directly and bypassing branch rules only as configured.
\<close>

theorem github_submits_what_was_asked:
  "\<exists>cs. hb_calls (snd (github_merge g n req w)) = hb_calls w @ cs \<and>
     list_all (\<lambda>c. is_get c \<or> list_ex (\<lambda>step. submits_for g step c) (mq_steps req)) cs"
proof (cases "github_validate g req")
  case (Inl e)
  then show ?thesis by (simp add: github_merge_def)
next
  case (Inr u)
  then have valid: "github_validate g req = Inr ()" by simp
  have "\<exists>cs. hb_calls (snd (merge_github_steps g n req (mq_steps req) [] w)) = hb_calls w @ cs \<and>
      list_all (\<lambda>c. list_ex (\<lambda>step. submits_for g step c) (mq_steps req)) cs"
    by (rule merge_steps_submit) (rule validated_methods [OF valid])
  then obtain cs where "hb_calls (snd (github_merge g n req w)) = hb_calls w @ cs"
    "list_all (\<lambda>c. list_ex (\<lambda>step. submits_for g step c) (mq_steps req)) cs"
    using valid by (auto simp: github_merge_def)
  then show ?thesis by (auto simp: list_all_iff)
qed

section \<open>What a merge reports\<close>

text \<open>
  A merge commit GitHub reported for the pull request of a URI, and the entry of a step that landed: the
  id of the step, no reason, and such a commit for each of its URIs, in order.
\<close>

definition reported_commit :: "'s github_merger \<Rightarrow> string \<Rightarrow> string \<Rightarrow> bool" where
  "reported_commit g uri commit \<longleftrightarrow> commit \<noteq> [] \<and>
     (\<exists>ref n w w'. resolve_pull g uri = Inr ref \<and> get_merge_commit g n (pf_number ref) w = (Inr (Some commit), w'))"

definition step_landed :: "'s github_merger \<Rightarrow> merge_step \<Rightarrow> step_result \<Rightarrow> bool" where
  "step_landed g step r \<longleftrightarrow> sr_step r = ms_step step \<and> sr_reason r = [] \<and> list_all2 (reported_commit g) (ms_uris step) (sr_outputs r)"

lemma merge_commit_nonempty: "merge_commit_pages g number n page found w = (Inr (Some sha), w') \<Longrightarrow> sha \<noteq> []"
proof (induction n arbitrary: page found w)
  case 0
  then show ?case by (simp add: fail_def)
next
  case (Suc n)
  then show ?case by (auto simp: Let_def ok_def elim!: and_then_Inr split: if_splits)
qed

lemma awaited_commit:
  assumes "await_merge_commit g pages deadline p n w = (Inr sha, w')" and "resolve_pull g uri = Inr (su_ref p)"
  shows "reported_commit g uri sha"
proof -
  have "\<exists>u v. get_merge_commit g pages (pf_number (su_ref p)) u = (Inr (Some sha), v)"
    using assms(1)
  proof (induction n arbitrary: w)
    case 0
    then show ?case by (simp add: fail_def)
  next
    case (Suc n)
    then show ?case
      by (auto simp: ok_def fail_def hub_now_def elim!: and_then_Inr split: option.splits if_splits) blast+
  qed
  then show ?thesis using assms(2) merge_commit_nonempty by (fastforce simp: reported_commit_def get_merge_commit_def)
qed

lemma merge_step_outputs:
  assumes "merge_github_step g n step w = (Inr outputs, w')"
  shows "list_all2 (reported_commit g) (ms_uris step) outputs"
proof -
  obtain pulls u v x where l: "load_valid_step_pulls g step w = (Inr pulls, u)" and a: "await_merge_commits g n pulls v = (Inr outputs, x)"
    using assms by (auto simp: merge_github_step_def Let_def elim!: and_then_Inr)
  obtain d where "list_all2 (\<lambda>p sha. \<exists>w w'. await_merge_commit g n d p n w = (Inr sha, w')) pulls outputs"
    using a by (auto simp: await_merge_commits_def dest!: fold_collects elim!: and_then_Inr)
  with loaded_pulls [OF l] show ?thesis
    by (rule list_all2_trans [rotated]) (auto intro: awaited_commit)
qed

definition reported_until :: "'s github_merger \<Rightarrow> merge_step list \<Rightarrow> goerr \<Rightarrow> step_result list \<Rightarrow> bool" where
  "reported_until g steps e results \<longleftrightarrow>
     (\<exists>before step after. steps = before @ step # after \<and> list_all2 (step_landed g) before (butlast results) \<and>
        results \<noteq> [] \<and> last results = \<lparr>sr_step = ms_step step, sr_outputs = [], sr_reason = error_text e\<rparr>)"

lemma merge_steps_report:
  assumes "list_all2 (step_landed g) before results" and "mq_steps req = before @ steps"
  shows "case fst (merge_github_steps g n req steps results w) of
      Inr res \<Rightarrow> list_all2 (step_landed g) (mq_steps req) (mr_steps res)
    | Inl (e, results') \<Rightarrow> if is_terminal e then reported_until g (mq_steps req) e results' else results' = []"
  using assms
proof (induction steps arbitrary: before results w)
  case Nil
  then show ?case by (simp add: success_result_def)
next
  case (Cons step steps)
  obtain r v where v: "merge_github_step g n step w = (r, v)" by fastforce
  show ?case
  proof (cases r)
    case (Inl e)
    then show ?thesis using v Cons.prems by (auto simp: reported_until_def)
  next
    case (Inr outputs)
    let ?r = "\<lparr>sr_step = ms_step step, sr_outputs = outputs, sr_reason = []\<rparr>"
    have "list_all2 (step_landed g) (before @ [step]) (results @ [?r])"
      using merge_step_outputs [OF v [unfolded Inr]] by (intro list_all2_appendI Cons.prems(1)) (simp add: step_landed_def)
    then show ?thesis using Cons.IH [of "before @ [step]" "results @ [?r]" v] Cons.prems(2) v Inr by simp
  qed
qed

text \<open>
  C39. What the GitHub merger reports is what landed: on success one entry per step in order, each with a
  merge commit GitHub reported for each of its URIs; on a terminal error of a step the landed steps that
  precede it, each with its commits, and that step with the error as its reason; and no steps on any other
  error or when the request is refused before anything is submitted.
\<close>

theorem github_reports_landed_prefix:
  "case fst (github_merge g n req w) of
     Inr res \<Rightarrow> list_all2 (step_landed g) (mq_steps req) (mr_steps res)
   | Inl (e, results) \<Rightarrow> (case github_validate g req of
         Inl refused \<Rightarrow> e = refused \<and> results = []
       | Inr u \<Rightarrow> if is_terminal e then reported_until g (mq_steps req) e results else results = [])"
  using merge_steps_report [of g "[]" "[]" req "mq_steps req" n w] by (auto simp: github_merge_def split: sum.splits)

end
