(* ===== verification/GitFacts.thy ===== *)
theory GitFacts
  imports GitMerger RunLog
begin

text \<open>
  What the git merger does to its remote and how it reports, whatever git answers.  \<open>leaves ck_calls Q f\<close>: the
  commands \<open>f\<close> runs and the error it ends with, if any, are as \<open>Q\<close> asks.  The locale \<open>run_contract\<close>
  collects what such a contract has to promise of single commands; its lemmas then follow the code up
  to a whole cycle, and are used for two contracts: that nothing is pushed, and that a conflict is
  reported only when the index held unmerged paths.
\<close>

section \<open>Contracts on the commands run\<close>

definition is_push :: "git_run \<Rightarrow> bool" where
  "is_push c \<longleftrightarrow> git_operation (gr_args c) = ''push''"

definition shows_unmerged :: "git_run \<Rightarrow> bool" where
  "shows_unmerged c \<longleftrightarrow> gr_args c = [''ls-files'', ''--unmerged''] \<and> succeeded (gr_answer c) \<and> trim_space (ga_stdout (gr_answer c)) \<noteq> []"

lemma command_failure_sound [simp]: "\<not> errors_is (command_failure c args detail a) err_conflict"
  by (auto simp: command_failure_def context_error_def err_conflict_def Let_def split: option.splits context_end.splits)

lemma command_failure_not_stuck [simp]:
  "command_failure c args detail a \<noteq> Plain t" "command_failure c args detail a \<noteq> Detailed e d"
  by (simp_all add: command_failure_def Let_def split: option.splits)

lemma run_error_sound: "run_git m args w = (Inl e, w') \<Longrightarrow> \<not> errors_is e err_conflict"
  by (auto simp: run_git_def run_as_def command_as_def context_ended_def and_then_def ok_def fail_def
           split: prod.splits sum.splits if_splits)

lemma wrapped_conflict [simp]: "errors_is (Wrapped t e) err_conflict \<longleftrightarrow> errors_is e err_conflict"
  by (simp add: err_conflict_def)

locale run_contract =
  log_contract Q "\<lambda>e. errors_is e err_conflict"
  for Q :: "goerr option \<Rightarrow> git_run list \<Rightarrow> bool" +
  assumes one_run: "\<not> is_push c \<Longrightarrow> Q None [c]"
begin

lemma leaves_wrap_as: "leaves ck_calls Q f \<Longrightarrow> leaves ck_calls Q (wrap_as t f)"
  unfolding wrap_as_def by (rule leaves_wrap)

lemma leaves_command:
  assumes "git_operation args \<noteq> ''push''"
  shows "leaves ck_calls Q (command_as m author args)"
proof (rule leavesI)
  fix w r w' assume "command_as m author args w = (r, w')"
  then show "\<exists>cs. ck_calls w' = ck_calls w @ cs \<and> Q (end_error r) cs"
    using assms by (auto simp: command_as_def is_push_def intro!: one_run split: prod.splits)
qed

lemma leaves_context: "leaves ck_calls Q (context_ended m)"
  by (rule leavesI) (auto simp: context_ended_def no_run)

lemma leaves_run: "git_operation args \<noteq> ''push'' \<Longrightarrow> leaves ck_calls Q (run_as m author args)"
  unfolding run_as_def by (auto intro!: leaves_then leaves_command leaves_context leaves_ok leaves_fail)

lemma leaves_git: "git_operation args \<noteq> ''push'' \<Longrightarrow> leaves ck_calls Q (run_git m args)"
  by (simp add: run_git_def leaves_run)

lemma leaves_combined: "git_operation args \<noteq> ''push'' \<Longrightarrow> leaves ck_calls Q (run_combined_as m author args)"
  unfolding run_combined_as_def by (auto intro!: leaves_then leaves_command leaves_context leaves_ok)

lemmas steps = leaves_then leaves_wrap_as leaves_attempt leaves_git leaves_run leaves_ok

lemma leaves_head: "leaves ck_calls Q (head_sha m)"
  unfolding head_sha_def by (intro steps) (simp add: git_operation_def)

lemma leaves_tree: "leaves ck_calls Q (commit_tree_sha m ref)"
  unfolding commit_tree_sha_def by (intro steps) (simp add: git_operation_def)

lemma leaves_rev_list: "leaves ck_calls Q (rev_list m a b)"
  unfolding rev_list_def by (intro steps) (simp add: git_operation_def)

lemma leaves_author: "leaves ck_calls Q (commit_author m sha)"
  unfolding commit_author_def by (intro steps) (simp add: git_operation_def)

lemma leaves_unmerged: "leaves ck_calls Q (has_unmerged_paths m)"
  unfolding has_unmerged_paths_def by (intro steps) (simp add: git_operation_def)

lemma leaves_reset: "leaves ck_calls Q (reset_to_remote m)"
  unfolding reset_to_remote_def by (intro steps leaves_each) (simp_all add: git_operation_def)

lemma leaves_refetch: "leaves ck_calls Q (refetch_tip_sha m)"
  unfolding refetch_tip_sha_def by (intro steps) (simp_all add: git_operation_def)

lemma leaves_ancestor: "leaves ck_calls Q (is_ancestor m a b)"
  unfolding is_ancestor_def Let_def
  by (intro leaves_then leaves_command leaves_if leaves_ok leaves_context leaves_fail)
     (simp_all only: wrapped_conflict command_failure_sound, simp_all add: git_operation_def)

lemma leaves_merge_base: "leaves ck_calls Q (merge_base m a b)"
proof -
  have run: "leaves ck_calls Q (run_git m [''merge-base'', a, b])" by (rule leaves_git) (simp add: git_operation_def)
  show ?thesis
  proof (rule leavesI)
    fix w r w' assume "merge_base m a b w = (r, w')"
    then obtain r0 where r0: "run_git m [''merge-base'', a, b] w = (r0, w')"
      and r: "r = (case r0 of Inr out \<Rightarrow> Inr (trim_space out) | Inl e \<Rightarrow> if exit_code e = Some 1 then Inr [] else Inl (Wrapped ''git merge-base'' e))"
      by (auto simp: merge_base_def and_then_def attempt_def ok_def fail_def split: prod.splits sum.splits if_splits)
    obtain cs where cs: "ck_calls w' = ck_calls w @ cs" "Q (end_error r0) cs" using run r0 by (rule leavesE)
    have "Q (end_error r) cs" using cs(2) r r0 ignored wrapped by (cases r0) auto
    with cs(1) show "\<exists>cs. ck_calls w' = ck_calls w @ cs \<and> Q (end_error r) cs" by auto
  qed
qed

lemma leaves_has_commit: "leaves ck_calls Q (has_commit m sha)"
  unfolding has_commit_def by (intro steps) (simp add: git_operation_def)

lemma leaves_fetched: "leaves ck_calls Q (fetched m what sha)"
  unfolding fetched_def
  by (rule leaves_then, intro steps) (auto simp: git_operation_def leaves_ok leaves_has_commit split: sum.splits)

lemma leaves_invalid: "leaves ck_calls Q (fail (invalid_request d))"
  by (rule leaves_fail) (simp add: err_invalid_merge_def err_conflict_def)

lemma leaves_ensure: "leaves ck_calls Q (ensure_objects m refs)"
proof -
  have "leaves ck_calls Q (ensure_object m ref)" for ref
    unfolding ensure_object_def
    by (intro leaves_then leaves_if leaves_has_commit leaves_fetched leaves_ok leaves_wrap_as leaves_git leaves_invalid) (simp add: git_operation_def)
  then show ?thesis unfolding ensure_objects_def by (intro leaves_each)
qed

lemma leaves_stale: "leaves ck_calls Q (check_stale m refs)"
proof -
  have "leaves ck_calls Q (check_ref_stale m ref)" for ref
    unfolding check_ref_stale_def
    by (intro leaves_if leaves_ok leaves_then leaves_wrap_as leaves_git)
       (auto simp: git_operation_def intro: leaves_ok leaves_invalid split: list.splits)
  then show ?thesis unfolding check_stale_def by (intro leaves_if leaves_ok leaves_each)
qed

text \<open>Where the error of a command is looked at next, it is known to be no conflict.\<close>

lemma leaves_run_as_then:
  assumes "git_operation args \<noteq> ''push''"
    and "\<And>out err. \<forall>e. err = Some e \<longrightarrow> \<not> errors_is e err_conflict \<Longrightarrow> leaves ck_calls Q (g (out, err))"
  shows "leaves ck_calls Q (and_then (run_combined_as m author args) g)"
proof -
  have "and_then (run_combined_as m author args) g = and_then (command_as m author args) (\<lambda>a. and_then (context_ended m) (\<lambda>c.
      g (ga_combined a, if succeeded a then None else Some (command_failure c args (ga_combined a) a))))"
    by (simp add: run_combined_as_def and_then_assoc)
  moreover have "leaves ck_calls Q \<dots>"
    by (intro leaves_then leaves_command leaves_context assms) simp
  ultimately show ?thesis by simp
qed

lemma leaves_run_then:
  assumes "git_operation args \<noteq> ''push''"
    and "\<And>out err. \<forall>e. err = Some e \<longrightarrow> \<not> errors_is e err_conflict \<Longrightarrow> leaves ck_calls Q (g out err)"
  shows "leaves ck_calls Q (and_then (run_combined m args) (\<lambda>(out, err). g out err))"
  unfolding run_combined_def by (rule leaves_run_as_then) (use assms in auto)

end

text \<open>A contract that lets a conflict be reported when the index held unmerged paths.\<close>

locale verdict_contract = run_contract +
  assumes conflicted_then: "shows_unmerged c \<Longrightarrow> Q (Some e) [c]"
begin

text \<open>A conflict is decided by the index, read before the operation is aborted.\<close>

lemma has_unmerged_shows:
  assumes "has_unmerged_paths m w = (Inr True, w')"
  obtains c where "ck_calls w' = ck_calls w @ [c]" and "shows_unmerged c"
  using assms
  by (auto simp: has_unmerged_paths_def run_git_def run_as_def command_as_def context_ended_def and_then_def attempt_def ok_def fail_def shows_unmerged_def
           split: prod.splits sum.splits if_splits)

lemma leaves_verdict:
  assumes abort: "git_operation args \<noteq> ''push''"
    and fails: "\<And>c. g c = fail (f c)"
    and errs: "\<not> errors_is (f False) err_conflict"
  shows "leaves ck_calls Q (and_then (has_unmerged_paths m) (\<lambda>c. and_then (attempt (run_git m args)) (\<lambda>_. g c)))"
proof (rule leavesI)
  let ?g = "\<lambda>c. and_then (attempt (run_git m args)) (\<lambda>_. g c)"
  have rest: "leaves ck_calls Q (attempt (run_git m args))" by (intro steps abort)
  fix w r w' assume run: "and_then (has_unmerged_paths m) ?g w = (r, w')"
  obtain c v where cv: "has_unmerged_paths m w = (Inr c, v)" by (cases "run_git m [''ls-files'', ''--unmerged''] w") (auto simp: has_unmerged_paths_def and_then_def attempt_def ok_def)
  obtain u where u: "attempt (run_git m args) v = (Inr u, w')" and r: "r = Inl (f c)"
    using run cv by (auto simp: fails and_then_def attempt_def fail_def split: prod.splits)
  obtain ds where ds: "ck_calls w' = ck_calls v @ ds" "Q None ds" by (rule leavesE [OF rest u]) simp
  obtain cs where cs: "ck_calls v = ck_calls w @ cs" "Q None cs" by (rule leavesE [OF leaves_unmerged cv]) simp
  show "\<exists>cs. ck_calls w' = ck_calls w @ cs \<and> Q (end_error r) cs"
  proof (cases c)
    case False
    then have "Q (end_error r) (cs @ ds)" using in_turn [OF cs(2) ds(2)] any_error errs r by auto
    with cs ds show ?thesis by auto
  next
    case True
    have "has_unmerged_paths m w = (Inr True, v)" using cv True by simp
    then obtain b where b: "ck_calls v = ck_calls w @ [b]" "shows_unmerged b" by (rule has_unmerged_shows)
    then have "Q (Some (f c)) ([b] @ ds)" using aftermath [OF conflicted_then [OF b(2)] ds(2)] by simp
    with b ds r show ?thesis by auto
  qed
qed

lemma leaves_rounds: "\<forall>e. err = Some e \<longrightarrow> \<not> errors_is e err_conflict \<Longrightarrow> leaves ck_calls Q (cherry_pick_rounds m n out err)"
proof (induction m n out err rule: cherry_pick_rounds.induct)
  case (1 m n out)
  then show ?case by (simp add: leaves_ok)
next
  case (2 m n out e)
  show ?case
  proof (cases "is_redundant_cherry_pick out")
    case False
    let ?f = "\<lambda>c. if \<not> c then Wrapped ''git cherry-pick'' e else merge_conflict (''git cherry-pick: '' @ trim_space out)"
    have "leaves ck_calls Q (and_then (has_unmerged_paths m) (\<lambda>c. and_then (attempt (run_git m [''cherry-pick'', ''--abort'']))
        (\<lambda>_. if \<not> c then fail (Wrapped ''git cherry-pick'' e) else fail (merge_conflict (''git cherry-pick: '' @ trim_space out)))))"
      by (rule leaves_verdict [where f = ?f]) (use "2.prems" in \<open>simp_all add: git_operation_def err_conflict_def\<close>)
    then show ?thesis using False by simp
  next
    case True
    show ?thesis
    proof (cases n)
      case 0
      then show ?thesis using True by (simp add: leaves_fail pick_stuck_def err_conflict_def)
    next
      case (Suc k)
      have "leaves ck_calls Q (and_then (run_combined m [''cherry-pick'', ''--skip'']) (\<lambda>(out', err'). cherry_pick_rounds m k out' err'))"
      proof (rule leaves_run_then)
        show "git_operation [''cherry-pick'', ''--skip''] \<noteq> ''push''" by (simp add: git_operation_def)
        fix out' err' assume "\<forall>e. err' = Some e \<longrightarrow> \<not> errors_is e err_conflict"
        then show "leaves ck_calls Q (cherry_pick_rounds m k out' err')" by (rule "2.IH" [OF True Suc])
      qed
      then show ?thesis using True Suc by simp
    qed
  qed
qed

lemma leaves_pick: "leaves ck_calls Q (pick_range m n ref)"
proof -
  have "leaves ck_calls Q (cherry_pick_range m n base sha)" for base sha
    unfolding cherry_pick_range_def
    by (rule leaves_run_then) (simp_all add: git_operation_def leaves_rounds)
  then show ?thesis unfolding pick_range_def
    by (intro leaves_then leaves_if leaves_merge_base leaves_invalid leaves_rev_list leaves_ok leaves_head)
qed

lemma leaves_squash: "leaves ck_calls Q (squash_change m n step ref)"
  unfolding squash_change_def
  by (intro leaves_then leaves_if leaves_pick leaves_head leaves_tree leaves_author leaves_ok leaves_wrap_as leaves_git leaves_run)
     (simp_all add: git_operation_def)

lemma leaves_merge_change: "leaves ck_calls Q (merge_change m ref out)"
proof -
  let ?f = "\<lambda>o_text e c. classify_merge_failure ref o_text c e"
  have verdict: "leaves ck_calls Q (and_then (has_unmerged_paths m) (\<lambda>c. and_then (attempt (run_git m [''merge'', ''--abort''])) (\<lambda>_. fail (?f t e c))))"
    if "\<not> errors_is e err_conflict" for t e
    by (rule leaves_verdict [where f = "?f t e"]) (use that in \<open>simp_all add: git_operation_def err_conflict_def err_invalid_merge_def classify_merge_failure_def Let_def\<close>)
  show ?thesis unfolding merge_change_def
    by (intro leaves_then leaves_if leaves_ancestor leaves_author leaves_ok leaves_run_as_then)
       (auto simp: git_operation_def intro: verdict leaves_then leaves_head leaves_ok split: option.splits)
qed

lemma leaves_steps: "leaves ck_calls Q (apply_steps m n steps)"
proof -
  have rebase: "leaves ck_calls Q (apply_rebase m n rs)" for rs
    unfolding apply_rebase_def pick_step_changes_def by (intro leaves_fold leaves_then leaves_pick leaves_ok)
  have squash: "leaves ck_calls Q (apply_squash_rebase m n rs)" for rs
    unfolding apply_squash_rebase_def by (intro leaves_fold leaves_then leaves_squash leaves_ok)
  have merge: "leaves ck_calls Q (apply_merge m rs)" for rs
    unfolding apply_merge_def by (intro leaves_fold leaves_merge_change)
  have "leaves ck_calls Q (apply_step m n rs results)" for rs results
    unfolding apply_step_def
    by (rule leaves_then) (simp_all add: rebase squash merge leaves_invalid leaves_ok split: proto_strategy.splits)
  then show ?thesis unfolding apply_steps_def by (intro leaves_fold)
qed

lemma leaves_try:
  assumes pushing: "commit \<Longrightarrow> leaves ck_calls Q (git_push m)" and run: "try_apply m n steps commit w = ((base, r), w')"
  obtains cs where "ck_calls w' = ck_calls w @ cs" and "Q (end_error r) cs"
proof -
  let ?start = "and_then (reset_to_remote m) (\<lambda>_. head_sha m)"
  let ?work = "and_then (apply_steps m n steps) (\<lambda>results. if commit then and_then (git_push m) (\<lambda>_. ok results) else ok results)"
  have start: "leaves ck_calls Q ?start" by (intro leaves_then leaves_reset leaves_head)
  have work: "leaves ck_calls Q ?work" by (intro leaves_then leaves_steps leaves_if leaves_ok pushing)
  obtain r0 v where v: "?start w = (r0, v)" by fastforce
  obtain cs where cs: "ck_calls v = ck_calls w @ cs" "Q (end_error r0) cs" by (rule leavesE [OF start v])
  show thesis
  proof (cases r0)
    case (Inl e)
    then have "w' = v" "r = Inl e" using run v by (auto simp: try_apply_def)
    with cs Inl show thesis by (auto intro: that)
  next
    case (Inr b)
    then have "?work v = (r, w')" using run v by (auto simp: try_apply_def based_on_def split: prod.splits)
    then obtain ds where ds: "ck_calls w' = ck_calls v @ ds" "Q (end_error r) ds" by (rule leavesE [OF work])
    show thesis using cs ds Inr in_turn by (intro that [of "cs @ ds"]) auto
  qed
qed

lemma leaves_attempts:
  assumes pushing: "commit \<Longrightarrow> leaves ck_calls Q (git_push m)"
  shows "\<not> errors_is e err_conflict \<Longrightarrow> leaves ck_calls Q (apply_attempts m n req steps commit k e)"
proof (induction k arbitrary: e)
  case 0
  then show ?case by (auto intro!: leavesI refused simp: err_conflict_def)
next
  case (Suc k)
  show ?case
  proof (rule leavesI)
    fix w r w' assume run: "apply_attempts m n req steps commit (Suc k) e w = (r, w')"
    obtain base t v where v: "try_apply m n steps commit w = ((base, t), v)" by (metis prod.exhaust)
    obtain cs where cs: "ck_calls v = ck_calls w @ cs" "Q (end_error t) cs" by (rule leaves_try [OF pushing v])
    have on: "\<exists>cs. ck_calls w' = ck_calls w @ cs \<and> Q (end_error r) cs" if f: "leaves ck_calls Q f" "f v = (r, w')" and q: "Q None cs" for f :: "('a, runway_result) git_act"
    proof -
      obtain ds where "ck_calls w' = ck_calls v @ ds" "Q (end_error r) ds" by (rule leavesE [OF f])
      with cs(1) in_turn [OF q] show ?thesis by auto
    qed
    show "\<exists>cs. ck_calls w' = ck_calls w @ cs \<and> Q (end_error r) cs"
    proof (cases t)
      case (Inr results)
      let ?f = "if commit then ok (success_result req results)
        else and_then (wrap_as ''discard after dry-run'' (reset_to_remote m)) (\<lambda>_. ok (success_result req (strip_outputs results)))"
      have "leaves ck_calls Q ?f" by (intro leaves_if leaves_ok leaves_then leaves_wrap_as leaves_reset)
      then show ?thesis by (rule on) (use run v Inr cs(2) in auto)
    next
      case (Inl e')
      then have q: "Q (Some e') cs" and skip: "Q None cs" using cs(2) ignored by auto
      show ?thesis
      proof (cases "errors_is e' err_conflict")
        case True
        show ?thesis
        proof (cases commit)
          case True
          then show ?thesis using run v Inl \<open>errors_is e' err_conflict\<close> cs by (auto simp: fail_def)
        next
          case False
          obtain u where u: "attempt (reset_to_remote m) v = (Inr u, w')" and r: "r = Inl e'"
            using run v Inl True False by (auto simp: and_then_def attempt_def fail_def split: prod.splits)
          obtain ds where "ck_calls w' = ck_calls v @ ds" "Q None ds" by (rule leavesE [OF leaves_attempt [OF leaves_reset] u]) simp
          with cs(1) r aftermath [OF q] show ?thesis by auto
        qed
      next
        case sound: False
        let ?f = "and_then (attempt (refetch_tip_sha m)) (\<lambda>a. case a of
            Inl x \<Rightarrow> fail (Wrapped ''refetch after push failure failed'' e')
          | Inr current \<Rightarrow> if current = base then fail e' else apply_attempts m n req steps commit k e')"
        have w: "\<not> errors_is (Wrapped ''refetch after push failure failed'' e') err_conflict" using sound by (simp add: err_conflict_def)
        have "leaves ck_calls Q ?f" using sound w
          by (intro leaves_then leaves_attempt leaves_refetch) (auto intro: leaves_fail leaves_if Suc.IH split: sum.splits)
        moreover have "?f v = (r, w') \<or> r = Inl e' \<and> w' = v"
          using run v Inl sound by (auto simp: and_then_def attempt_def fail_def split: prod.splits sum.splits if_splits)
        ultimately show ?thesis using on skip cs q by (metis end_error_simps(1))
      qed
    qed
  qed
qed

lemma leaves_transforming:
  "(commit \<Longrightarrow> leaves ck_calls Q (git_push m)) \<Longrightarrow> leaves ck_calls Q (apply_transforming m n req steps commit)"
  unfolding apply_transforming_def
  by (intro leaves_then leaves_ensure leaves_stale leaves_attempts) (simp_all add: err_conflict_def)

end

text \<open>What the queries of a promotion were answered.\<close>

definition reads_head :: "git_run \<Rightarrow> bool" where
  "reads_head c \<longleftrightarrow> gr_args c = [''rev-parse'', ''HEAD''] \<and> succeeded (gr_answer c)"

definition head_read :: "git_run \<Rightarrow> string" where
  "head_read c = trim_space (ga_stdout (gr_answer c))"

definition says_ancestor :: "string \<Rightarrow> string \<Rightarrow> git_run \<Rightarrow> bool" where
  "says_ancestor a b c \<longleftrightarrow> gr_args c = [''merge-base'', ''--is-ancestor'', a, b] \<and> succeeded (gr_answer c)"

definition says_no_ancestor :: "string \<Rightarrow> string \<Rightarrow> git_run \<Rightarrow> bool" where
  "says_no_ancestor a b c \<longleftrightarrow> gr_args c = [''merge-base'', ''--is-ancestor'', a, b] \<and> ga_exit (gr_answer c) = Some 1"

text \<open>A contract that lets any error be returned after a commit was found to be no ancestor.\<close>

locale promote_contract = run_contract +
  assumes diverged: "says_no_ancestor a b c \<Longrightarrow> Q (Some e) [c]"
begin

lemma leaves_fast_forward:
  assumes "leaves ck_calls Q g"
  shows "leaves ck_calls Q (and_then (is_ancestor m a b) (\<lambda>ff. if \<not> ff then fail e else g))"
proof (rule leavesI)
  fix w r w' assume run: "and_then (is_ancestor m a b) (\<lambda>ff. if \<not> ff then fail e else g) w = (r, w')"
  obtain t v where v: "is_ancestor m a b w = (t, v)" by fastforce
  obtain cs where cs: "ck_calls v = ck_calls w @ cs" "Q (end_error t) cs" by (rule leavesE [OF leaves_ancestor v])
  consider (failed) x where "t = Inl x" | (behind) "t = Inr True" | (apart) "t = Inr False" by (metis (full_types) sum.exhaust)
  then show "\<exists>cs. ck_calls w' = ck_calls w @ cs \<and> Q (end_error r) cs"
  proof cases
    case failed
    then show ?thesis using run v cs by (auto simp: and_then_def)
  next
    case behind
    then have g: "g v = (r, w')" using run v by (simp add: and_then_def)
    obtain ds where "ck_calls w' = ck_calls v @ ds" "Q (end_error r) ds" by (rule leavesE [OF assms g])
    with cs behind in_turn [of cs] show ?thesis by auto
  next
    case apart
    then have r: "r = Inl e" "w' = v" using run v by (auto simp: and_then_def fail_def)
    have "\<exists>c. ck_calls v = ck_calls w @ [c] \<and> says_no_ancestor a b c"
      using v apart by (auto simp: is_ancestor_def Let_def command_as_def context_ended_def and_then_def ok_def fail_def says_no_ancestor_def split: prod.splits if_splits)
    with r diverged show ?thesis by auto
  qed
qed

lemma leaves_promote:
  assumes pushing: "\<And>src. commit \<Longrightarrow> leaves ck_calls Q (run_git m [''push'', gm_remote m, src @ '':refs/heads/'' @ gm_target m])"
  shows "leaves ck_calls Q (git_promote m req rs commit)"
proof -
  have rounds: "\<not> errors_is e err_conflict \<Longrightarrow> leaves ck_calls Q (promote_attempts m req rs sha commit k e)" for sha k e
  proof (induction k arbitrary: e)
    case 0
    then show ?case by (auto intro!: leaves_fail simp: err_conflict_def)
  next
    case (Suc k)
    let ?args = "[''push'', gm_remote m, sha @ '':refs/heads/'' @ gm_target m]"
    let ?last = "\<lambda>r. case r of Inl e \<Rightarrow> promote_attempts m req rs sha commit k e | Inr _ \<Rightarrow> ok (promote_result req rs sha commit)"
    have "leaves ck_calls Q (and_then (attempt (run_git m ?args)) ?last)" if c: commit
    proof (rule leavesI)
      fix w r w' assume run: "and_then (attempt (run_git m ?args)) ?last w = (r, w')"
      obtain t v where v: "attempt (run_git m ?args) w = (Inr t, v)" "?last t v = (r, w')"
        using run by (auto simp: and_then_def attempt_def split: prod.splits)
      have "run_git m ?args w = (t, v)" using v(1) by (auto simp: attempt_def split: prod.splits)
      then have "\<not> errors_is a err_conflict" if "t = Inl a" for a using that run_error_sound by simp
      then have t: "leaves ck_calls Q (?last t)" using Suc.IH by (cases t) (auto simp only: sum.case leaves_ok)
      obtain cs where cs: "ck_calls v = ck_calls w @ cs" "Q None cs"
        by (rule leavesE [OF leaves_attempt [OF pushing [OF c]] v(1)]) simp
      obtain ds where "ck_calls w' = ck_calls v @ ds" "Q (end_error r) ds" by (rule leavesE [OF t v(2)])
      with cs in_turn [of cs] show "\<exists>cs. ck_calls w' = ck_calls w @ cs \<and> Q (end_error r) cs" by auto
    qed
    then have final: "leaves ck_calls Q (if \<not> commit then ok (promote_result req rs sha commit) else and_then (attempt (run_git m ?args)) ?last)"
      by (auto intro: leaves_ok)
    show ?case unfolding promote_attempts.simps
      by (rule leaves_then [OF leaves_reset], rule leaves_then [OF leaves_head], rule leaves_if [OF leaves_ok],
          rule leaves_then [OF leaves_ancestor], rule leaves_if [OF leaves_ok], rule leaves_fast_forward [OF final])
  qed
  show ?thesis unfolding git_promote_def Let_def
    by (intro leaves_then leaves_ensure leaves_stale rounds) (simp add: err_conflict_def)
qed

end

section \<open>Nothing is pushed; a conflict has its evidence\<close>

definition pushes_nothing :: "goerr option \<Rightarrow> git_run list \<Rightarrow> bool" where
  "pushes_nothing e cs \<longleftrightarrow> list_all (\<lambda>c. \<not> is_push c) cs"

definition conflict_is_seen :: "goerr option \<Rightarrow> git_run list \<Rightarrow> bool" where
  "conflict_is_seen err cs \<longleftrightarrow> (\<forall>e. err = Some e \<longrightarrow> errors_is e err_conflict \<longrightarrow> list_ex shows_unmerged cs)"

lemma shows_unmerged_no_push: "shows_unmerged c \<Longrightarrow> \<not> is_push c"
  by (simp add: shows_unmerged_def is_push_def git_operation_def)

lemma no_push_simps [simp]:
  "reads_head c \<Longrightarrow> \<not> is_push c" "says_ancestor a b c \<Longrightarrow> \<not> is_push c" "says_no_ancestor a b c \<Longrightarrow> \<not> is_push c"
  by (simp_all add: reads_head_def says_ancestor_def says_no_ancestor_def is_push_def git_operation_def)

text \<open>Neither a push nor a conflict.\<close>

definition calm :: "goerr option \<Rightarrow> git_run list \<Rightarrow> bool" where
  "calm err cs \<longleftrightarrow> list_all (\<lambda>c. \<not> is_push c) cs \<and> (case err of None \<Rightarrow> True | Some e \<Rightarrow> \<not> errors_is e err_conflict)"

interpretation silent: verdict_contract pushes_nothing
  by unfold_locales (auto simp: pushes_nothing_def shows_unmerged_no_push)

interpretation silent: promote_contract pushes_nothing
  by unfold_locales (auto simp: pushes_nothing_def)

interpretation seen: verdict_contract conflict_is_seen
  by unfold_locales (auto simp: conflict_is_seen_def err_conflict_def)

interpretation calm: run_contract calm
  by unfold_locales (auto simp: calm_def err_conflict_def split: option.splits)

lemma run_git_calls:
  assumes "run_git m args w = (r, w')"
  obtains c where "ck_calls w' = ck_calls w @ [c]" and "gr_args c = args" and "succeeded (gr_answer c) \<longleftrightarrow> (\<exists>x. r = Inr x)"
  using assms by (auto simp: run_git_def run_as_def command_as_def context_ended_def and_then_def ok_def fail_def split: prod.splits sum.splits if_splits)

lemma leaves_any_git:
  assumes "\<And>e c. \<not> errors_is e err_conflict \<Longrightarrow> Q (Some e) [c]" and "\<And>c. Q None [c]"
  shows "leaves ck_calls Q (run_git m args)"
proof (rule leavesI)
  fix w r w' assume run: "run_git m args w = (r, w')"
  then obtain c where c: "ck_calls w' = ck_calls w @ [c]" by (rule run_git_calls)
  have "\<not> errors_is a err_conflict" if "r = Inl a" for a using that run_error_sound run by simp
  then have "Q (end_error r) [c]" using assms by (cases r) auto
  with c show "\<exists>cs. ck_calls w' = ck_calls w @ cs \<and> Q (end_error r) cs" by auto
qed

section \<open>Validation\<close>

lemma resolve_uris_length: "resolve_uris lib step first uris = Inr (refs, f) \<Longrightarrow> length refs = length uris"
  by (induction lib step first uris arbitrary: refs f rule: resolve_uris.induct) (auto split: sum.splits prod.splits)

lemma resolve_uris_invalid: "resolve_uris lib step first uris = Inl e \<Longrightarrow> \<exists>d. e = invalid_request d"
  by (induction lib step first uris rule: resolve_uris.induct)
     (auto simp: resolve_change_def provider_check_def split: sum.splits prod.splits option.splits if_splits)

lemma resolve_steps_invalid: "resolve_steps m first steps = Inl e \<Longrightarrow> \<exists>d. e = invalid_request d"
  by (induction m first steps rule: resolve_steps.induct)
     (auto simp: Let_def dest: resolve_uris_invalid split: sum.splits prod.splits if_splits)

lemma resolve_steps_shape:
  "resolve_steps m first steps = Inr rss \<Longrightarrow> map rs_step rss = steps \<and>
     list_all (\<lambda>rs. is_concrete_strategy (rs_strategy rs) \<and> length (rs_refs rs) = length (ms_uris (rs_step rs)) \<and> rs_refs rs \<noteq> []) rss"
  by (induction m first steps arbitrary: rss rule: resolve_steps.induct)
     (fastforce simp: Let_def dest: resolve_uris_length split: sum.splits prod.splits if_splits)+

lemma validate_invalid: "resolve_and_validate m req = Inl e \<Longrightarrow> \<exists>d. e = invalid_request d"
  by (auto simp: resolve_and_validate_def dest: resolve_steps_invalid split: sum.splits if_splits)

lemma validated:
  assumes "resolve_and_validate m req = Inr steps"
  shows "map rs_step steps = mq_steps req" and "steps \<noteq> []"
    and "list_all (\<lambda>rs. is_concrete_strategy (rs_strategy rs) \<and> rs_refs rs \<noteq> []) steps"
    and "rs_strategy (hd steps) = PROMOTE \<Longrightarrow> length steps = 1 \<and> length (rs_refs (hd steps)) = 1"
proof -
  have r: "mq_steps req \<noteq> []" "resolve_steps m None (mq_steps req) = Inr steps"
      "\<not> (list_ex (\<lambda>rs. rs_strategy rs = PROMOTE) steps \<and> (length steps \<noteq> 1 \<or> length (ms_uris (rs_step (hd steps))) \<noteq> 1))"
    using assms by (auto simp: resolve_and_validate_def split: sum.splits if_splits)
  note shape = resolve_steps_shape [OF r(2)]
  show "map rs_step steps = mq_steps req" using shape by simp
  show ne: "steps \<noteq> []" using shape r(1) by auto
  show "list_all (\<lambda>rs. is_concrete_strategy (rs_strategy rs) \<and> rs_refs rs \<noteq> []) steps" using shape by (auto simp: list_all_iff)
  assume "rs_strategy (hd steps) = PROMOTE"
  moreover have "hd steps \<in> set steps" using ne by simp
  ultimately have "list_ex (\<lambda>rs. rs_strategy rs = PROMOTE) steps" by (auto simp: list_ex_iff)
  then show "length steps = 1 \<and> length (rs_refs (hd steps)) = 1"
    using r(3) shape \<open>hd steps \<in> set steps\<close> by (auto simp: list_all_iff)
qed


section \<open>What a merge and a check do\<close>

text \<open>C37. A check never pushes, whatever git answers.\<close>

theorem check_never_pushes:
  "\<exists>cs. ck_calls (snd (git_check m n req w)) = ck_calls w @ cs \<and> list_all (\<lambda>c. \<not> is_push c) cs"
proof -
  obtain r w' where run: "git_check m n req w = (r, w')" by fastforce
  have "leaves ck_calls pushes_nothing (git_check m n req)"
    unfolding git_check_def git_process_def
    by (intro silent.leaves_then silent.leaves_if silent.leaves_promote silent.leaves_transforming silent.leaves_of_sum)
       (auto dest: validate_invalid simp: err_conflict_def err_invalid_merge_def)
  then show ?thesis using run by (elim leavesE) (auto simp: pushes_nothing_def)
qed

text \<open>The commit a validated request asks to promote, none when it asks for something else.\<close>

definition promoted_commit :: "'s git_merger \<Rightarrow> merge_request \<Rightarrow> string option" where
  "promoted_commit m req = (case resolve_and_validate m req of Inl e \<Rightarrow> None
   | Inr steps \<Rightarrow> if rs_strategy (hd steps) = PROMOTE then Some (cr_sha (hd (rs_refs (hd steps)))) else None)"

text \<open>
  How the commands of a promotion of \<open>sha\<close> can end: with the tip read and found to be \<open>sha\<close> or to
  contain it; or with the tip read, found not to contain \<open>sha\<close>, and \<open>sha\<close> found not to contain it.
\<close>

definition shows_contained :: "string \<Rightarrow> git_run list \<Rightarrow> bool" where
  "shows_contained sha cs \<longleftrightarrow> (case rev cs of [] \<Rightarrow> False
     | c # bs \<Rightarrow> reads_head c \<and> head_read c = sha \<or>
         (case bs of [] \<Rightarrow> False | h # as \<Rightarrow> reads_head h \<and> says_ancestor sha (head_read h) c))"

definition shows_divergence :: "string \<Rightarrow> git_run list \<Rightarrow> bool" where
  "shows_divergence sha cs \<longleftrightarrow> (case rev cs of
       d # c # h # bs \<Rightarrow> reads_head h \<and> says_no_ancestor sha (head_read h) c \<and> says_no_ancestor (head_read h) sha d
     | _ \<Rightarrow> False)"

lemma shows_contained_append: "shows_contained sha ds \<Longrightarrow> shows_contained sha (cs @ ds)"
  by (auto simp: shows_contained_def split: list.splits)

lemma shows_divergence_append: "shows_divergence sha ds \<Longrightarrow> shows_divergence sha (cs @ ds)"
  by (auto simp: shows_divergence_def split: list.splits)

text \<open>A push lands when git reports success; where it goes is the target branch of the remote.\<close>

definition landed :: "git_run \<Rightarrow> bool" where
  "landed c \<longleftrightarrow> is_push c \<and> succeeded (gr_answer c)"

definition goes_to_target :: "'s git_merger \<Rightarrow> string \<Rightarrow> git_run \<Rightarrow> bool" where
  "goes_to_target m src c \<longleftrightarrow> gr_args c = [''push'', gm_remote m, src @ '':refs/heads/'' @ gm_target m]"

definition ends_landed :: "git_run list \<Rightarrow> bool" where
  "ends_landed cs \<longleftrightarrow> cs \<noteq> [] \<and> landed (last cs)"

text \<open>
  The commands of a merge that ended so: at most \<open>k\<close> pushes, all of \<open>src\<close> to the target; none landed on an
  error, none before the last command otherwise, and then the commands end as \<open>E\<close> asks.
\<close>

definition atomic_run :: "'s git_merger \<Rightarrow> string \<Rightarrow> (git_run list \<Rightarrow> bool) \<Rightarrow> nat \<Rightarrow> goerr + 'a \<Rightarrow> git_run list \<Rightarrow> bool" where
  "atomic_run m src E k r cs \<longleftrightarrow> list_all (\<lambda>c. is_push c \<longrightarrow> goes_to_target m src c) cs \<and> length (filter is_push cs) \<le> k \<and>
     (case r of Inl e \<Rightarrow> list_all (\<lambda>c. \<not> landed c) cs
      | Inr x \<Rightarrow> list_all (\<lambda>c. \<not> landed c) (butlast cs) \<and> E cs)"

lemma atomic_quiet: "list_all (\<lambda>c. \<not> is_push c) cs \<Longrightarrow> atomic_run m src E k (Inl e) cs"
  by (induction cs) (auto simp: atomic_run_def landed_def)

lemma atomic_quiet_value: "list_all (\<lambda>c. \<not> is_push c) cs \<Longrightarrow> E cs \<Longrightarrow> atomic_run m src E k (Inr x) cs"
  by (auto simp: atomic_run_def landed_def list_all_iff dest: in_set_butlastD)

lemma atomic_failed_push:
  "goes_to_target m src c \<Longrightarrow> \<not> succeeded (gr_answer c) \<Longrightarrow> atomic_run m src E 1 (Inl e) [c]"
  by (auto simp: atomic_run_def landed_def)

lemma atomic_push:
  "goes_to_target m src c \<Longrightarrow> E [c] \<Longrightarrow> atomic_run m src E 1 (Inr x) [c]"
  by (auto simp: atomic_run_def)

lemma landed_push: "goes_to_target m src c \<Longrightarrow> succeeded (gr_answer c) \<Longrightarrow> ends_landed [c]"
  by (simp add: ends_landed_def landed_def is_push_def goes_to_target_def git_operation_def)

lemma ends_landed_append: "ends_landed ds \<Longrightarrow> ends_landed (cs @ ds)"
  by (simp add: ends_landed_def)

lemma atomic_append:
  assumes "atomic_run m src E j (Inl e) cs" and "atomic_run m src E k r ds" and "E ds \<Longrightarrow> E (cs @ ds)"
  shows "atomic_run m src E (j + k) r (cs @ ds)"
  using assms by (cases r) (auto simp: atomic_run_def butlast_append landed_def list_all_iff dest: in_set_butlastD)

lemma atomic_more: "atomic_run m src E j r cs \<Longrightarrow> j \<le> k \<Longrightarrow> atomic_run m src E k r cs"
  by (auto simp: atomic_run_def)

lemma atomic_error: "atomic_run m src E k (Inl e) cs \<Longrightarrow> atomic_run m src E' k (Inl e') cs"
  by (simp add: atomic_run_def)

abbreviation pushed_once :: "'s git_merger \<Rightarrow> nat \<Rightarrow> goerr + 'a \<Rightarrow> git_run list \<Rightarrow> bool" where
  "pushed_once m \<equiv> atomic_run m ''HEAD'' ends_landed"

text \<open>One attempt of the cycle.\<close>

lemma git_push_run:
  assumes "git_push m w = (r, w')"
  obtains c where "ck_calls w' = ck_calls w @ [c]" and "goes_to_target m ''HEAD'' c"
    and "succeeded (gr_answer c) \<longleftrightarrow> (\<exists>x. r = Inr x)"
proof -
  obtain t where t: "run_git m [''push'', gm_remote m, ''HEAD:refs/heads/'' @ gm_target m] w = (t, w')"
    and r: "(\<exists>x. r = Inr x) \<longleftrightarrow> (\<exists>x. t = Inr x)"
    using assms by (auto simp: git_push_def wrap_as_def map_err_def and_then_def ok_def split: prod.splits sum.splits)
  obtain c where "ck_calls w' = ck_calls w @ [c]" "gr_args c = [''push'', gm_remote m, ''HEAD:refs/heads/'' @ gm_target m]"
    "succeeded (gr_answer c) \<longleftrightarrow> (\<exists>x. t = Inr x)" using t by (rule run_git_calls)
  then show thesis using r by (intro that) (auto simp: goes_to_target_def)
qed

lemma try_apply_atomic:
  assumes "try_apply m n steps True w = ((base, r), w')"
  shows "\<exists>cs. ck_calls w' = ck_calls w @ cs \<and> pushed_once m 1 r cs"
proof -
  let ?start = "and_then (reset_to_remote m) (\<lambda>_. head_sha m)"
  obtain r0 v where v: "?start w = (r0, v)" by fastforce
  have "leaves ck_calls pushes_nothing ?start" by (intro silent.leaves_then silent.leaves_reset silent.leaves_head)
  then obtain cs where cs: "ck_calls v = ck_calls w @ cs" "list_all (\<lambda>c. \<not> is_push c) cs" using v by (rule leavesE) (simp add: pushes_nothing_def)
  show ?thesis
  proof (cases r0)
    case (Inl e)
    then show ?thesis using assms v cs by (auto simp: try_apply_def intro: atomic_quiet)
  next
    case (Inr b)
    obtain r1 u where u: "apply_steps m n steps v = (r1, u)" by fastforce
    obtain ds where ds: "ck_calls u = ck_calls v @ ds" "list_all (\<lambda>c. \<not> is_push c) ds"
      using silent.leaves_steps u by (rule leavesE) (simp add: pushes_nothing_def)
    have quiet: "list_all (\<lambda>c. \<not> is_push c) (cs @ ds)" using cs(2) ds(2) by simp
    show ?thesis
    proof (cases r1)
      case (Inl e)
      then have "w' = u" "r = Inl e" using assms v u Inr by (auto simp: try_apply_def based_on_def and_then_def)
      then show ?thesis using cs ds atomic_quiet [OF quiet] by auto
    next
      case (Inr results)
      obtain t where t: "git_push m u = (t, w')" and r: "r = map_sum id (\<lambda>_. results) t"
        using assms v u \<open>r0 = Inr b\<close> Inr by (auto simp: try_apply_def based_on_def and_then_def ok_def split: prod.splits sum.splits)
      obtain c where c: "ck_calls w' = ck_calls u @ [c]" "goes_to_target m ''HEAD'' c"
        "succeeded (gr_answer c) \<longleftrightarrow> (\<exists>x. t = Inr x)" using t by (rule git_push_run)
      have "pushed_once m 1 r [c]"
        using c(3) r atomic_push [OF c(2), of ends_landed results] atomic_failed_push [OF c(2), of ends_landed] landed_push [OF c(2)]
        by (cases t) simp_all
      then have "pushed_once m (0 + 1) r ((cs @ ds) @ [c])" by (rule atomic_append [OF atomic_quiet [OF quiet]]) (rule ends_landed_append)
      then show ?thesis using c cs ds by auto
    qed
  qed
qed

lemma apply_attempts_atomic:
  "apply_attempts m n req steps True k e w = (r, w') \<Longrightarrow> \<exists>cs. ck_calls w' = ck_calls w @ cs \<and> pushed_once m k r cs"
proof (induction k arbitrary: e w)
  case 0
  then show ?case by (auto simp: atomic_run_def)
next
  case (Suc k)
  obtain base t v where v: "try_apply m n steps True w = ((base, t), v)" by (metis prod.exhaust)
  obtain cs where cs: "ck_calls v = ck_calls w @ cs" "pushed_once m 1 t cs" using try_apply_atomic [OF v] by blast
  have once: "\<exists>cs. ck_calls w' = ck_calls w @ cs \<and> pushed_once m (Suc k) r cs" if "w' = v" "pushed_once m 1 r cs"
    using cs(1) that atomic_more [OF that(2), of "Suc k"] by auto
  show ?case
  proof (cases t)
    case (Inr results)
    then have "r = Inr (success_result req results)" "w' = v" using Suc.prems v by (auto simp: ok_def)
    then show ?thesis using once cs(2) Inr by (auto simp: atomic_run_def)
  next
    case (Inl e')
    show ?thesis
    proof (cases "errors_is e' err_conflict \<or> base = []")
      case True
      then have "r = Inl e'" "w' = v" using Suc.prems v Inl by (auto simp: fail_def split: if_splits)
      then show ?thesis using cs(2) Inl by (intro once) (auto intro: atomic_error)
    next
      case False
      obtain q u where u: "refetch_tip_sha m v = (q, u)" by fastforce
      obtain ds where ds: "ck_calls u = ck_calls v @ ds" "list_all (\<lambda>c. \<not> is_push c) ds"
        using silent.leaves_refetch u by (rule leavesE) (simp add: pushes_nothing_def)
      have waited: "pushed_once m (1 + 0) (Inl x) (cs @ ds)" for x :: goerr
        using cs(2) Inl by (intro atomic_append [OF _ atomic_quiet [OF ds(2)]]) (auto intro: ends_landed_append)
      show ?thesis
      proof (cases "\<exists>current. q = Inr current \<and> current \<noteq> base")
        case True
        then have again: "apply_attempts m n req steps True k e' u = (r, w')" using Suc.prems v Inl False u by auto
        obtain es where es: "ck_calls w' = ck_calls u @ es" "pushed_once m k r es" using Suc.IH [OF again] by blast
        have "pushed_once m ((1 + 0) + k) r ((cs @ ds) @ es)" by (rule atomic_append [OF waited es(2)]) (rule ends_landed_append)
        then show ?thesis using cs(1) ds(1) es(1) by auto
      next
        case stop: False
        then obtain x where "r = Inl x" "w' = u" using Suc.prems v Inl False u by (cases q) (auto split: if_splits)
        then show ?thesis using cs(1) ds(1) atomic_more [OF waited, of "Suc k" x] by auto
      qed
    qed
  qed
qed

text \<open>Promotion: how its commands end on a success and on a conflict.\<close>

definition promote_evidence :: "string \<Rightarrow> git_run list \<Rightarrow> bool" where
  "promote_evidence sha cs \<longleftrightarrow> ends_landed cs \<or> shows_contained sha cs"

definition promote_run :: "'s git_merger \<Rightarrow> string \<Rightarrow> bool \<Rightarrow> nat \<Rightarrow> goerr + 'a \<Rightarrow> git_run list \<Rightarrow> bool" where
  "promote_run m sha commit k r cs \<longleftrightarrow> atomic_run m sha (\<lambda>cs. commit \<longrightarrow> promote_evidence sha cs) k r cs \<and>
     (case r of Inl e \<Rightarrow> errors_is e err_conflict \<longrightarrow> shows_divergence sha cs | Inr x \<Rightarrow> True)"

lemma promote_evidence_append: "promote_evidence sha ds \<Longrightarrow> promote_evidence sha (cs @ ds)"
  by (auto simp: promote_evidence_def ends_landed_append shows_contained_append)

lemma promote_calm: "calm (Some e) cs \<Longrightarrow> promote_run m sha commit k (Inl e) cs"
  by (auto simp: promote_run_def calm_def intro: atomic_quiet)

lemma promote_append:
  assumes "atomic_run m sha (\<lambda>cs. commit \<longrightarrow> promote_evidence sha cs) j (Inl e) cs" and "promote_run m sha commit k r ds"
  shows "promote_run m sha commit (j + k) r (cs @ ds)"
  using assms unfolding promote_run_def
  by (auto intro!: atomic_append [OF assms(1)] intro: promote_evidence_append shows_divergence_append split: sum.splits)

lemma calm_error:
  assumes "leaves ck_calls calm f" and "f w = (Inl e, w')"
  obtains cs where "ck_calls w' = ck_calls w @ cs" and "calm (Some e) cs"
  by (rule leavesE [OF assms]) (auto intro: that)

lemma promote_first:
  assumes "leaves ck_calls calm f" and "and_then f g w = (r, w')"
    and "\<And>x v. f w = (Inr x, v) \<Longrightarrow> g x v = (r, w') \<Longrightarrow> \<exists>cs. ck_calls w' = ck_calls v @ cs \<and> promote_run m sha commit k r cs"
  shows "\<exists>cs. ck_calls w' = ck_calls w @ cs \<and> promote_run m sha commit k r cs"
  using assms(2)
proof (cases rule: and_then_cases)
  case (failure e)
  then show ?thesis using assms(1) by (elim leavesE) (auto intro: promote_calm)
next
  case (success x v)
  obtain cs where cs: "ck_calls v = ck_calls w @ cs" "list_all (\<lambda>c. \<not> is_push c) cs"
    using assms(1) success(1) by (rule leavesE) (simp add: calm_def)
  obtain ds where ds: "ck_calls w' = ck_calls v @ ds" "promote_run m sha commit k r ds" using assms(3) [OF success] by blast
  have "promote_run m sha commit (0 + k) r (cs @ ds)" by (rule promote_append [OF atomic_quiet [OF cs(2)] ds(2)])
  then show ?thesis using cs ds by auto
qed

lemma head_sha_run:
  assumes "head_sha m w = (Inr tip, w')"
  obtains h where "ck_calls w' = ck_calls w @ [h]" and "reads_head h" and "head_read h = tip"
  using assms
  by (auto simp: head_sha_def run_git_def run_as_def command_as_def context_ended_def wrap_as_def map_err_def and_then_def ok_def fail_def
      reads_head_def head_read_def split: prod.splits sum.splits if_splits)

lemma is_ancestor_run:
  assumes "is_ancestor m a b w = (Inr t, w')"
  obtains c where "ck_calls w' = ck_calls w @ [c]" and "if t then says_ancestor a b c else says_no_ancestor a b c"
  using assms
  by (auto simp: is_ancestor_def Let_def command_as_def context_ended_def and_then_def ok_def fail_def says_ancestor_def says_no_ancestor_def
      split: prod.splits if_splits)

lemma promote_push_run:
  assumes run: "and_then (attempt (run_git m [''push'', gm_remote m, sha @ '':refs/heads/'' @ gm_target m])) (\<lambda>t. case t of
             Inl e \<Rightarrow> promote_attempts m req rs sha True k e | Inr _ \<Rightarrow> ok (promote_result req rs sha True)) v = (r, w')"
    and again: "\<And>e w. \<not> errors_is e err_conflict \<Longrightarrow> promote_attempts m req rs sha True k e w = (r, w') \<Longrightarrow>
      \<exists>cs. ck_calls w' = ck_calls w @ cs \<and> promote_run m sha True k r cs"
  shows "\<exists>cs. ck_calls w' = ck_calls v @ cs \<and> promote_run m sha True (Suc k) r cs"
proof -
  obtain t u where t: "run_git m [''push'', gm_remote m, sha @ '':refs/heads/'' @ gm_target m] v = (t, u)" by fastforce
  obtain c where c: "ck_calls u = ck_calls v @ [c]" "gr_args c = [''push'', gm_remote m, sha @ '':refs/heads/'' @ gm_target m]"
    "succeeded (gr_answer c) \<longleftrightarrow> (\<exists>x. t = Inr x)" using t by (rule run_git_calls)
  have goes: "goes_to_target m sha c" using c(2) by (simp add: goes_to_target_def)
  show ?thesis
  proof (cases t)
    case (Inr x)
    then have r: "r = Inr (promote_result req rs sha True)" "w' = u" using run t by (auto simp: and_then_def attempt_def ok_def)
    have "promote_evidence sha [c]" using landed_push [OF goes] c(3) Inr by (simp add: promote_evidence_def)
    then have "promote_run m sha True (Suc k) r [c]"
      using r(1) atomic_more [OF atomic_push [OF goes], of _ "Suc k"] by (simp add: promote_run_def)
    then show ?thesis using c(1) r(2) by auto
  next
    case (Inl x)
    then have rest: "promote_attempts m req rs sha True k x u = (r, w')" using run t by (auto simp: and_then_def attempt_def)
    have sound: "\<not> errors_is x err_conflict" using run_error_sound t Inl by blast
    obtain es where es: "ck_calls w' = ck_calls u @ es" "promote_run m sha True k r es" using again [OF sound rest] by blast
    have ns: "\<not> succeeded (gr_answer c)" using c(3) Inl by simp
    have "promote_run m sha True (1 + k) r ([c] @ es)" by (rule promote_append [OF atomic_failed_push [OF goes ns] es(2)])
    then show ?thesis using c(1) es(1) by auto
  qed
qed

lemma promote_attempts_run:
  "\<not> errors_is e err_conflict \<Longrightarrow> promote_attempts m req rs sha commit k e w = (r, w') \<Longrightarrow>
     \<exists>cs. ck_calls w' = ck_calls w @ cs \<and> promote_run m sha commit k r cs"
proof (induction k arbitrary: e w)
  case 0
  then show ?case by (auto simp: fail_def promote_run_def atomic_run_def err_conflict_def)
next
  case (Suc k)
  let ?E = "\<lambda>cs. commit \<longrightarrow> promote_evidence sha cs"
  show ?case
  proof (rule promote_first [OF calm.leaves_reset Suc.prems(2) [unfolded promote_attempts.simps]], goal_cases)
    case (1 x v0)
    from 1(2) show ?case
    proof (cases rule: and_then_cases)
      case (failure e)
      obtain cs where "ck_calls w' = ck_calls v0 @ cs" "calm (Some e) cs" using calm.leaves_head failure(1) by (rule calm_error)
      then show ?thesis using failure(2) promote_calm by auto
    next
      case (success tip v)
      obtain h where h: "ck_calls v = ck_calls v0 @ [h]" "reads_head h" "head_read h = tip" using success(1) by (rule head_sha_run)
      show ?thesis
      proof (cases "sha = tip")
        case True
        then have "r = Inr (promote_result req rs sha commit)" "w' = v" using success(2) by (auto simp: ok_def)
        then show ?thesis using h True
          by (auto simp: promote_run_def promote_evidence_def shows_contained_def intro!: atomic_quiet_value)
      next
        case apart: False
        from success(2) [unfolded if_not_P [OF apart]] show ?thesis
        proof (cases rule: and_then_cases)
          case (failure e)
          obtain cs where cs: "ck_calls w' = ck_calls v @ cs" "calm (Some e) cs" using calm.leaves_ancestor failure(1) by (rule calm_error)
          then have "calm (Some e) ([h] @ cs)" using h(2) by (simp add: calm_def)
          then show ?thesis using promote_calm failure(2) cs(1) h(1) by auto
        next
          case (success contained u)
          obtain c where c: "ck_calls u = ck_calls v @ [c]" "if contained then says_ancestor sha tip c else says_no_ancestor sha tip c"
            using success(1) by (rule is_ancestor_run)
          show ?thesis
          proof (cases contained)
            case True
            then have "r = Inr (promote_result req rs sha commit)" "w' = u" using success(2) by (auto simp: ok_def)
            then show ?thesis using h c True
              by (auto simp: promote_run_def promote_evidence_def shows_contained_def intro!: atomic_quiet_value)
          next
            case False
            then have no: "says_no_ancestor sha tip c" using c(2) by simp
            from success(2) [unfolded if_not_P [OF False]] show ?thesis
            proof (cases rule: and_then_cases)
              case (failure e)
              obtain cs where cs: "ck_calls w' = ck_calls u @ cs" "calm (Some e) cs" using calm.leaves_ancestor failure(1) by (rule calm_error)
              then have "calm (Some e) ([h, c] @ cs)" using h(2) no by (simp add: calm_def)
              then show ?thesis using promote_calm failure(2) cs(1) c(1) h(1) by auto
            next
              case (success ff t)
              obtain d where d: "ck_calls t = ck_calls u @ [d]" "if ff then says_ancestor tip sha d else says_no_ancestor tip sha d"
                using success(1) by (rule is_ancestor_run)
              have quiet: "list_all (\<lambda>c. \<not> is_push c) [h, c, d]" using h(2) no d(2) by (auto split: if_splits)
              have calls: "ck_calls t = ck_calls v0 @ [h, c, d]" using h(1) c(1) d(1) by simp
              consider (stop) "\<not> ff" | (check) "ff" "\<not> commit" | (push) "ff" "commit" by blast
              then show ?thesis
              proof cases
                case stop
                then obtain x where "r = Inl x" "w' = t" using success(2) by (auto simp: fail_def)
                moreover have "shows_divergence sha [h, c, d]" using h(2,3) no d(2) stop by (simp add: shows_divergence_def)
                ultimately show ?thesis using calls atomic_quiet [OF quiet] by (auto simp: promote_run_def)
              next
                case check
                then have "r = Inr (promote_result req rs sha commit)" "w' = t" using success(2) by (auto simp: ok_def)
                then show ?thesis using calls check atomic_quiet_value [OF quiet, of ?E] by (auto simp: promote_run_def)
              next
                case push
                then have "\<exists>cs. ck_calls w' = ck_calls t @ cs \<and> promote_run m sha commit (Suc k) r cs"
                  using success(2) Suc.IH by (simp only: simp_thms if_True if_False) (rule promote_push_run, auto)
                then obtain es where es: "ck_calls w' = ck_calls t @ es" "promote_run m sha commit (Suc k) r es" by blast
                have "promote_run m sha commit (0 + Suc k) r ([h, c, d] @ es)" by (rule promote_append [OF atomic_quiet [OF quiet] es(2)])
                then show ?thesis using calls es(1) by auto
              qed
            qed
          qed
        qed
      qed
    qed
  qed
qed

lemma git_promote_run:
  assumes "git_promote m req rs commit w = (r, w')"
  shows "\<exists>cs. ck_calls w' = ck_calls w @ cs \<and> promote_run m (cr_sha (hd (rs_refs rs))) commit (nat (gm_attempts m)) r cs"
  by (rule promote_first [OF calm.leaves_ensure assms [unfolded git_promote_def Let_def]], erule promote_first [OF calm.leaves_stale])
     (rule promote_attempts_run, simp_all add: err_conflict_def)

lemma promoted_cases:
  assumes "resolve_and_validate m req = Inr steps"
  shows "promoted_commit m req = (if rs_strategy (hd steps) = PROMOTE then Some (cr_sha (hd (rs_refs (hd steps)))) else None)"
    and "git_process m n req commit = (if rs_strategy (hd steps) = PROMOTE then git_promote m req (hd steps) commit
      else apply_transforming m n req steps commit)"
  using assms by (auto simp: promoted_commit_def git_process_def and_then_def of_sum_def)

text \<open>
  C34. A conflict is a verdict about the changes, not about git: it is reported, by a merge or a check, only
  when the index was seen to hold unmerged paths; for a promotion only right after the tip was read, did not
  contain the commit, and the commit did not contain it.
\<close>

theorem conflict_has_evidence:
  assumes "git_process m n req commit w = (Inl e, w')" and "errors_is e err_conflict"
  shows "\<exists>cs. ck_calls w' = ck_calls w @ cs \<and>
    (case promoted_commit m req of Some sha \<Rightarrow> shows_divergence sha cs | None \<Rightarrow> list_ex shows_unmerged cs)"
proof (cases "resolve_and_validate m req")
  case (Inl x)
  then obtain d where "e = invalid_request d" using assms(1) validate_invalid by (fastforce simp: git_process_def and_then_def of_sum_def)
  then show ?thesis using assms(2) by (simp add: err_conflict_def err_invalid_merge_def)
next
  case (Inr steps)
  show ?thesis
  proof (cases "rs_strategy (hd steps) = PROMOTE")
    case True
    then have "git_promote m req (hd steps) commit w = (Inl e, w')" using assms(1) promoted_cases(2) [OF Inr] by simp
    from git_promote_run [OF this] show ?thesis using assms(2) True promoted_cases(1) [OF Inr] by (auto simp: promote_run_def)
  next
    case False
    have "leaves ck_calls conflict_is_seen (run_git m args)" for args
      by (rule leaves_any_git) (simp_all add: conflict_is_seen_def)
    then have "leaves ck_calls conflict_is_seen (git_push m)" unfolding git_push_def by (intro seen.leaves_then seen.leaves_wrap_as seen.leaves_ok)
    then have l: "leaves ck_calls conflict_is_seen (apply_transforming m n req steps commit)" by (intro seen.leaves_transforming)
    have "apply_transforming m n req steps commit w = (Inl e, w')" using assms(1) False promoted_cases(2) [OF Inr] by simp
    obtain cs where "ck_calls w' = ck_calls w @ cs" "conflict_is_seen (end_error (Inl e :: goerr + runway_result)) cs"
      using l \<open>apply_transforming m n req steps commit w = (Inl e, w')\<close> by (rule leavesE)
    then show ?thesis using assms(2) False promoted_cases(1) [OF Inr] by (auto simp: conflict_is_seen_def)
  qed
qed

lemma quiet_first:
  assumes f: "leaves ck_calls pushes_nothing f"
    and run: "and_then f g w = (r, w')"
    and rest: "\<And>x v. g x v = (r, w') \<Longrightarrow> \<exists>cs. ck_calls w' = ck_calls v @ cs \<and> pushed_once m k r cs"
  shows "\<exists>cs. ck_calls w' = ck_calls w @ cs \<and> pushed_once m k r cs"
  using run
proof (cases rule: and_then_cases)
  case (failure e)
  then show ?thesis using f by (elim leavesE) (auto simp: pushes_nothing_def intro: atomic_quiet)
next
  case (success x v)
  obtain cs where cs: "ck_calls v = ck_calls w @ cs" "list_all (\<lambda>c. \<not> is_push c) cs"
    using f success(1) by (rule leavesE) (simp add: pushes_nothing_def)
  obtain ds where ds: "ck_calls w' = ck_calls v @ ds" "pushed_once m k r ds" using rest [OF success(2)] by blast
  have "pushed_once m (0 + k) r (cs @ ds)" by (rule atomic_append [OF atomic_quiet [OF cs(2)] ds(2)]) (rule ends_landed_append)
  then show ?thesis using cs ds by auto
qed

lemma git_merge_atomic:
  assumes "git_merge m n req w = (r, w')"
  shows "\<exists>cs. ck_calls w' = ck_calls w @ cs \<and>
    (case promoted_commit m req of None \<Rightarrow> atomic_run m ''HEAD'' ends_landed (nat (gm_attempts m)) r cs
     | Some sha \<Rightarrow> atomic_run m sha (\<lambda>cs. ends_landed cs \<or> shows_contained sha cs) (nat (gm_attempts m)) r cs)"
proof (cases "resolve_and_validate m req")
  case (Inl e)
  then show ?thesis using assms by (auto simp: git_merge_def git_process_def and_then_def of_sum_def atomic_run_def promoted_commit_def)
next
  case (Inr steps)
  note shape = promoted_cases [OF Inr]
  show ?thesis
  proof (cases "rs_strategy (hd steps) = PROMOTE")
    case True
    then have "git_promote m req (hd steps) True w = (r, w')" using assms shape(2) by (simp add: git_merge_def)
    from git_promote_run [OF this] show ?thesis using True shape(1) by (auto simp: promote_run_def promote_evidence_def)
  next
    case False
    then have run: "apply_transforming m n req steps True w = (r, w')" using assms shape(2) by (simp add: git_merge_def)
    have "\<exists>cs. ck_calls w' = ck_calls w @ cs \<and> pushed_once m (nat (gm_attempts m)) r cs"
      by (rule quiet_first [OF silent.leaves_ensure run [unfolded apply_transforming_def]], erule quiet_first [OF silent.leaves_stale])
         (rule apply_attempts_atomic)
    then show ?thesis using False shape(1) by simp
  qed
qed

text \<open>
  C33. A merge is atomic for its remote, whatever git answers: it makes at most \<open>MaxPushAttempts\<close> pushes, all
  of HEAD - for a promotion of the promoted commit - to the target branch; when it returns an error no push
  landed; when it succeeds nothing landed before its last command, and that command is a push that landed
  or, for a promotion, the query that found the commit in the tip just read.
\<close>

theorem merge_is_atomic:
  "\<exists>cs. ck_calls (snd (git_merge m n req w)) = ck_calls w @ cs \<and>
     (case promoted_commit m req of None \<Rightarrow> atomic_run m ''HEAD'' ends_landed (nat (gm_attempts m)) (fst (git_merge m n req w)) cs
      | Some sha \<Rightarrow> atomic_run m sha (\<lambda>cs. ends_landed cs \<or> shows_contained sha cs) (nat (gm_attempts m)) (fst (git_merge m n req w)) cs)"
  by (rule git_merge_atomic) simp

section \<open>Every step is reported\<close>

lemma apply_steps_reports:
  "fold_act (apply_step m n) steps acc w = (Inr results, w') \<Longrightarrow>
     map sr_step results = map sr_step acc @ map (\<lambda>rs. ms_step (rs_step rs)) steps"
proof (induction steps arbitrary: acc w)
  case Nil
  then show ?case by (simp add: ok_def)
next
  case (Cons rs rest)
  then obtain acc' v where "apply_step m n rs acc w = (Inr acc', v)" and last: "fold_act (apply_step m n) rest acc' v = (Inr results, w')"
    by (auto elim: and_then_Inr)
  then have "map sr_step acc' = map sr_step acc @ [ms_step (rs_step rs)]"
    by (auto simp: apply_step_def ok_def elim!: and_then_Inr)
  then show ?case using Cons.IH [OF last] by simp
qed

lemma try_apply_reports:
  assumes "try_apply m n steps commit w = ((base, Inr results), w')"
  shows "map sr_step results = map (\<lambda>rs. ms_step (rs_step rs)) steps"
proof -
  have "\<exists>v u. apply_steps m n steps v = (Inr results, u)"
    using assms
    by (auto simp: try_apply_def based_on_def ok_def split: prod.splits sum.splits if_splits elim!: and_then_Inr) blast+
  then show ?thesis by (auto simp: apply_steps_def dest: apply_steps_reports)
qed

lemma apply_attempts_reports:
  "apply_attempts m n req steps commit k e w = (Inr res, w') \<Longrightarrow>
     \<exists>results. map sr_step results = map (\<lambda>rs. ms_step (rs_step rs)) steps \<and>
       res = success_result req (if commit then results else strip_outputs results)"
proof (induction k arbitrary: e w)
  case 0
  then show ?case by simp
next
  case (Suc k)
  obtain base t v where v: "try_apply m n steps commit w = ((base, t), v)" by (metis prod.exhaust)
  show ?case
  proof (cases t)
    case (Inr results)
    then have "res = success_result req (if commit then results else strip_outputs results)"
      using Suc.prems v by (auto simp: ok_def elim!: and_then_Inr split: if_splits)
    then show ?thesis using try_apply_reports v Inr by blast
  next
    case (Inl e')
    then show ?thesis using Suc v
      by (auto simp: fail_def and_then_def split: prod.splits sum.splits if_splits)
  qed
qed

lemma promote_attempts_reports:
  "promote_attempts m req rs sha commit k e w = (Inr res, w') \<Longrightarrow> res = promote_result req rs sha commit"
proof (induction k arbitrary: e w)
  case 0
  then show ?case by (simp add: fail_def)
next
  case (Suc k)
  then show ?case
    by (auto simp: ok_def fail_def elim!: and_then_Inr split: sum.splits if_splits)
qed

lemma process_reports:
  assumes "git_process m n req commit w = (Inr res, w')"
  shows "mr_id res = mq_id req \<and> mr_outcome res = OutcomeSucceeded \<and> map sr_step (mr_steps res) = map ms_step (mq_steps req) \<and>
    list_all (\<lambda>s. commit \<or> sr_outputs s = []) (mr_steps res)"
proof -
  obtain steps where steps: "resolve_and_validate m req = Inr steps"
    using assms by (cases "resolve_and_validate m req") (auto simp: git_process_def and_then_def of_sum_def)
  note v = validated [OF steps]
  have names: "map (\<lambda>rs. ms_step (rs_step rs)) steps = map ms_step (mq_steps req)" unfolding v(1) [symmetric] by simp
  show ?thesis
  proof (cases "rs_strategy (hd steps) = PROMOTE")
    case True
    then have "git_promote m req (hd steps) commit w = (Inr res, w')" using assms steps by (simp add: git_process_def and_then_def of_sum_def)
    then have res: "res = promote_result req (hd steps) (cr_sha (hd (rs_refs (hd steps)))) commit"
      by (auto simp: git_promote_def Let_def elim!: and_then_Inr dest: promote_attempts_reports)
    have "steps = [hd steps]" using v(4) [OF True] by (cases steps) auto
    then have "map ms_step (mq_steps req) = [ms_step (rs_step (hd steps))]" using names by (metis list.simps(8) list.simps(9))
    then show ?thesis by (simp add: res promote_result_def success_result_def)
  next
    case False
    then have "apply_transforming m n req steps commit w = (Inr res, w')" using assms steps by (simp add: git_process_def and_then_def of_sum_def)
    then obtain results where "map sr_step results = map (\<lambda>rs. ms_step (rs_step rs)) steps"
      "res = success_result req (if commit then results else strip_outputs results)"
      by (auto simp: apply_transforming_def elim!: and_then_Inr dest: apply_attempts_reports)
    then show ?thesis using names by (auto simp: success_result_def strip_outputs_def list_all_iff o_def)
  qed
qed

text \<open>
  C36. A result says what the request asked: its id, the outcome SUCCEEDED, one entry per step in order,
  and for a check no outputs at all.
\<close>

theorem every_step_reported:
  "case fst (git_process m n req commit w) of
     Inr res \<Rightarrow> mr_id res = mq_id req \<and> mr_outcome res = OutcomeSucceeded \<and> map sr_step (mr_steps res) = map ms_step (mq_steps req) \<and>
       list_all (\<lambda>s. commit \<or> sr_outputs s = []) (mr_steps res)
   | Inl e \<Rightarrow> True"
proof (cases "fst (git_process m n req commit w)")
  case (Inr res)
  then have "git_process m n req commit w = (Inr res, snd (git_process m n req commit w))" by (metis prod.collapse)
  then show ?thesis using process_reports Inr by fastforce
qed simp

section \<open>Skipping ends\<close>

lemma unmerged_never_fails [simp]: "has_unmerged_paths m w \<noteq> (Inl e, v)"
  by (auto simp: has_unmerged_paths_def and_then_def attempt_def ok_def split: prod.splits)

lemma rounds_settle:
  assumes skip: "\<And>s a s'. gm_run m (author_env no_author) (identity_args m @ [''cherry-pick'', ''--skip'']) s = (a, s') \<Longrightarrow>
      \<not> succeeded a \<Longrightarrow> is_redundant_cherry_pick (ga_combined a) \<Longrightarrow> left s' < (left s :: nat)"
  shows "(\<And>e. err = Some e \<Longrightarrow> is_redundant_cherry_pick out \<Longrightarrow> left (ck_state w) < n) \<Longrightarrow> fst (cherry_pick_rounds m n out err w) \<noteq> Inl pick_stuck"
proof (induction n arbitrary: out err w)
  case 0
  then show ?case
    by (cases err) (auto simp: ok_def fail_def and_then_def attempt_def pick_stuck_def split: prod.splits sum.splits if_splits)
next
  case (Suc k)
  show ?case
  proof (cases "\<exists>e. err = Some e \<and> is_redundant_cherry_pick out")
    case False
    then show ?thesis
      by (cases err) (auto simp: ok_def fail_def and_then_def attempt_def pick_stuck_def split: prod.splits sum.splits if_splits)
  next
    case True
    then have before: "left (ck_state w) < Suc k" using Suc.prems by auto
    obtain a s' where a: "gm_run m (author_env no_author) (identity_args m @ [''cherry-pick'', ''--skip'']) (ck_state w) = (a, s')" by fastforce
    let ?w = "\<lparr>ck_state = s', ck_calls = ck_calls w @ [\<lparr>gr_author = no_author, gr_args = [''cherry-pick'', ''--skip''], gr_answer = a\<rparr>]\<rparr>"
    let ?err = "if succeeded a then None else Some (command_failure (gm_context m s') [''cherry-pick'', ''--skip''] (ga_combined a) a)"
    have "fst (cherry_pick_rounds m k (ga_combined a) ?err ?w) \<noteq> Inl pick_stuck"
      by (rule Suc.IH) (use skip [OF a] before in \<open>auto split: if_splits\<close>)
    moreover have "cherry_pick_rounds m (Suc k) out err w = cherry_pick_rounds m k (ga_combined a) ?err ?w"
      using True a by (auto simp: run_combined_def run_combined_as_def command_as_def context_ended_def and_then_def ok_def)
    ultimately show ?thesis by simp
  qed
qed

text \<open>
  C35. The loop of \<open>cherryPickRange\<close> ends: if a skip that git still answers with a redundant commit leaves
  fewer commits to replay - what \<open>--skip\<close> is documented to do - and the range leaves fewer than \<open>n\<close>, then
  \<open>n\<close> rounds are enough.
\<close>

theorem cherry_pick_settles:
  assumes "\<And>s a s'. gm_run m (author_env no_author) (identity_args m @ [''cherry-pick'', ''--skip'']) s = (a, s') \<Longrightarrow>
      \<not> succeeded a \<Longrightarrow> is_redundant_cherry_pick (ga_combined a) \<Longrightarrow> left s' < (left s :: nat)"
    and "\<And>a s'. gm_run m (author_env no_author) (identity_args m @ [''cherry-pick'', base @ ''..'' @ sha]) (ck_state w) = (a, s') \<Longrightarrow> left s' < n"
  shows "fst (cherry_pick_range m n base sha w) \<noteq> Inl pick_stuck"
proof -
  obtain a s' where a: "gm_run m (author_env no_author) (identity_args m @ [''cherry-pick'', base @ ''..'' @ sha]) (ck_state w) = (a, s')" by fastforce
  have "fst (cherry_pick_rounds m n (ga_combined a) err \<lparr>ck_state = s', ck_calls = cs\<rparr>) \<noteq> Inl pick_stuck" for err cs
    by (rule rounds_settle [OF assms(1)]) (use assms(2) [OF a] in auto)
  then show ?thesis using a
    by (auto simp: cherry_pick_range_def run_combined_def run_combined_as_def command_as_def context_ended_def and_then_def ok_def)
qed


text \<open>A git whose picks of a range stop \<open>s\<close> times at a redundant commit.\<close>

definition sample_library :: url_library where
  "sample_library = \<lparr>ul_parse = (\<lambda>raw. Inr \<lparr>u_scheme = ''git'', u_host = ''h'', u_hostname = ''h'', u_escaped_path = drop 7 raw\<rparr>),
     ul_path_unescape = (\<lambda>s. Inr ''refs/x''), ul_path_escape = (\<lambda>s. ''x'')\<rparr>"

definition git_settings :: "(string list \<Rightarrow> string list \<Rightarrow> 's \<Rightarrow> git_answer \<times> 's) \<Rightarrow> 's git_merger" where
  "git_settings git = \<lparr>gm_run = git, gm_context = (\<lambda>s. None), gm_library = sample_library, gm_remote = ''origin'', gm_target = ''main'', gm_default = REBASE, gm_attempts = 2,
     gm_refspecs = [], gm_staleness = False, gm_unrelated = False, gm_name = ''n'', gm_email = ''e''\<rparr>"

definition answered :: "int \<Rightarrow> string \<Rightarrow> git_answer" where
  "answered code out = \<lparr>ga_exit = Some code, ga_error = ''exit status'', ga_stdout = out, ga_stderr = out, ga_combined = out\<rparr>"

definition skipping_git :: "string list \<Rightarrow> string list \<Rightarrow> nat \<Rightarrow> git_answer \<times> nat" where
  "skipping_git env args s = (let k = if last args = ''--skip'' then s - 1 else s in (answered (if k = 0 then 0 else 1) ''nothing to commit'', k))"

lemma cherry_pick_settles_witness:
  "fst (cherry_pick_range (git_settings skipping_git) 4 ''a'' ''b'' \<lparr>ck_state = 3, ck_calls = []\<rparr>) \<noteq> Inl pick_stuck"
  by (rule cherry_pick_settles [where left = "\<lambda>s. s"])
    (auto simp: git_settings_def skipping_git_def answered_def succeeded_def Let_def split: if_splits)

text \<open>A git that finds every pick in conflict.\<close>

definition clashing_git :: "string list \<Rightarrow> string list \<Rightarrow> unit \<Rightarrow> git_answer \<times> unit" where
  "clashing_git env args s = (if drop 6 args = [''cherry-pick'', ''b..'' @ replicate 40 CHR ''a''] then answered 1 ''CONFLICT'' else answered 0 ''b'', ())"

definition clashing_request :: merge_request where
  "clashing_request = \<lparr>mq_id = ''r'', mq_queue = ''q'', mq_steps = [\<lparr>ms_step = ''s'', ms_uris = [''git://h/repo/x/'' @ replicate 40 CHR ''a''], ms_strategy = DEFAULT\<rparr>]\<rparr>"

lemma clash: "case fst (git_process (git_settings clashing_git) 1 clashing_request True \<lparr>ck_state = (), ck_calls = []\<rparr>) of Inl e \<Rightarrow> errors_is e err_conflict | Inr res \<Rightarrow> False"
  by code_simp

lemma conflict_has_evidence_witness:
  "\<exists>e cs. fst (git_process (git_settings clashing_git) 1 clashing_request True \<lparr>ck_state = (), ck_calls = []\<rparr>) = Inl e \<and> errors_is e err_conflict \<and>
     ck_calls (snd (git_process (git_settings clashing_git) 1 clashing_request True \<lparr>ck_state = (), ck_calls = []\<rparr>)) = cs \<and>
     (case promoted_commit (git_settings clashing_git) clashing_request of Some sha \<Rightarrow> shows_divergence sha cs | None \<Rightarrow> list_ex shows_unmerged cs)"
proof -
  let ?w = "\<lparr>ck_state = (), ck_calls = []\<rparr> :: unit checkout"
  let ?run = "git_process (git_settings clashing_git) 1 clashing_request True ?w"
  obtain e where e: "fst ?run = Inl e" "errors_is e err_conflict" using clash by (cases "fst ?run") auto
  then have run: "?run = (Inl e, snd ?run)" by (metis prod.collapse)
  from conflict_has_evidence [OF run e(2)] e show ?thesis by auto
qed

end
