(* ===== verification/Runway.thy ===== *)
theory Runway
  imports GithubFacts GitFacts "HOL-Library.Word"
begin

text \<open>
  The controllers of Runway (\<open>runway/controller\<close>): the committing merge, the dry-run check and the
  reconciler of their dead letters; the no-op and the fake merger with the marker convention; and the
  git and GitHub mergers behind the merger interface.  A merger is the two operations on a state of its
  own; an error of \<open>Merge\<close> comes with the steps of the result beside it, none for a nil result.  The
  store of Runway is the signal messages held by its queue.
\<close>

section \<open>Mergers\<close>

record 'm merger =
  mg_check :: "merge_request \<Rightarrow> 'm \<Rightarrow> (goerr + runway_result) \<times> 'm"
  mg_merge :: "merge_request \<Rightarrow> 'm \<Rightarrow> (goerr \<times> step_result list + runway_result) \<times> 'm"

definition without_result :: "(goerr + runway_result) \<times> 'm \<Rightarrow> (goerr \<times> step_result list + runway_result) \<times> 'm" where
  "without_result rw = (case rw of (Inl e, w) \<Rightarrow> (Inl (e, []), w) | (Inr res, w) \<Rightarrow> (Inr res, w))"

definition git_as_merger :: "'s git_merger \<Rightarrow> nat \<Rightarrow> 's checkout merger" where
  "git_as_merger m n = \<lparr>mg_check = git_check m n, mg_merge = (\<lambda>req w. without_result (git_merge m n req w))\<rparr>"

definition github_as_merger :: "'s github_merger \<Rightarrow> nat \<Rightarrow> 's hub merger" where
  "github_as_merger g n = \<lparr>mg_check = github_check g n, mg_merge = github_merge g n\<rparr>"

text \<open>\<open>%040x\<close>.\<close>

definition hex_digit :: "nat \<Rightarrow> char" where
  "hex_digit k = (if k < 10 then char_of (48 + k) else char_of (87 + k))"

fun hex_text :: "nat \<Rightarrow> nat \<Rightarrow> string" where
  "hex_text 0 k = []"
| "hex_text (Suc width) k = hex_text width (k div 16) @ [hex_digit (k mod 16)]"

definition synthetic_id :: "64 word \<Rightarrow> string" where
  "synthetic_id n = hex_text 40 (unat n)"

text \<open>The two stubs share one counter of 64 bits over all their queues.\<close>

fun stub_steps :: "merge_step list \<Rightarrow> 64 word \<Rightarrow> step_result list \<times> 64 word" where
  "stub_steps [] n = ([], n)"
| "stub_steps (s # ss) n = (let k = n + 1 in case stub_steps ss k of (rs, n') \<Rightarrow>
     (\<lparr>sr_step = ms_step s, sr_outputs = [synthetic_id k], sr_reason = []\<rparr> # rs, n'))"

definition noop_check :: "merge_request \<Rightarrow> 64 word \<Rightarrow> (goerr + runway_result) \<times> 64 word" where
  "noop_check req n = (Inr (success_result req (map (\<lambda>s. \<lparr>sr_step = ms_step s, sr_outputs = [], sr_reason = []\<rparr>) (mq_steps req))), n)"

definition noop_merge :: "merge_request \<Rightarrow> 64 word \<Rightarrow> (goerr \<times> step_result list + runway_result) \<times> 64 word" where
  "noop_merge req n = (case stub_steps (mq_steps req) n of (rs, n') \<Rightarrow> (Inr (success_result req rs), n'))"

definition marker_prefix :: string where "marker_prefix = ''sq-fake=''"

text \<open>\<open>fakemarker.Token\<close> and \<open>TokenInChanges\<close>.\<close>

fun marker_token :: "string list \<Rightarrow> string" where
  "marker_token [] = []"
| "marker_token (u # us) = (case string_cut u marker_prefix of
     Some (a, rest) \<Rightarrow> takeWhile (\<lambda>c. c \<noteq> CHR ''&'' \<and> c \<noteq> CHR ''#'') rest
   | None \<Rightarrow> marker_token us)"

fun marker_in_changes :: "string list list \<Rightarrow> string" where
  "marker_in_changes [] = []"
| "marker_in_changes (uris # rest) = (if marker_token uris \<noteq> [] then marker_token uris else marker_in_changes rest)"

fun injected_failure :: "merge_step list \<Rightarrow> goerr option" where
  "injected_failure [] = None"
| "injected_failure (s # ss) = (let token = marker_token (ms_uris s) in
     if token = ''merge-conflict'' then Some (Wrapped ''fake: marked conflicting'' err_conflict)
     else if token = ''merge-invalid'' then Some (Wrapped ''fake: marked invalid'' err_invalid_merge)
     else if token = ''merge-error'' then Some (Plain ''fake: marked failing'')
     else injected_failure ss)"

definition fake_check :: "merge_request \<Rightarrow> 64 word \<Rightarrow> (goerr + runway_result) \<times> 64 word" where
  "fake_check req n = (case injected_failure (mq_steps req) of Some e \<Rightarrow> (Inl e, n) | None \<Rightarrow> noop_check req n)"

definition fake_merge :: "merge_request \<Rightarrow> 64 word \<Rightarrow> (goerr \<times> step_result list + runway_result) \<times> 64 word" where
  "fake_merge req n = (case injected_failure (mq_steps req) of Some e \<Rightarrow> (Inl (e, []), n) | None \<Rightarrow> noop_merge req n)"

section \<open>The service\<close>

datatype signal_topic = MergeSignal | MergeConflictCheckSignal

record signal =
  sg_envelope :: message
  sg_result :: runway_result

type_synonym runway_db = "signal list"

record 'm runway = "runway_db store_world" +
  rw_registry :: "signal_topic \<Rightarrow> string option"
  rw_now :: int
  rw_mergers :: 'm

type_synonym ('m, 'a) rop = "('m runway, goerr, 'a) act"

text \<open>The deduplicating insert, on the signals held.\<close>

definition signal_insert :: "signal \<Rightarrow> runway_db \<Rightarrow> (goerr + unit) \<times> runway_db" where
  "signal_insert s d = (Inr (), if list_ex (\<lambda>t. same_message_key (sg_envelope s) (sg_envelope t)) d then d else d @ [s])"

definition publish_signal :: "signal_topic \<Rightarrow> runway_result \<Rightarrow> string \<Rightarrow> string \<Rightarrow> ('m, unit) rop" where
  "publish_signal key result i pk w =
     (if mr_queue result = [] then (Inl (Plain ''tenant is required''), w)
      else case rw_registry w key of
        None \<Rightarrow> (Inl (Plain ''no queue registered for topic key''), w)
      | Some topic \<Rightarrow> (let m = \<lparr>m_tenant = mr_queue result, m_topic = topic, m_id = i, m_partition = pk, m_payload = PBad,
              m_metadata = [metadata_key_queue_name \<mapsto> mr_queue result], m_published_at = rw_now w\<rparr> in
          and_then (of_sum (check_message m)) (\<lambda>_.
          map_err (Wrapped ''publish message store insert error'') (db_op (signal_insert \<lparr>sg_envelope = m, sg_result = result\<rparr>)))) w)"

definition publish_result :: "signal_topic \<Rightarrow> runway_result \<Rightarrow> string list \<Rightarrow> string \<Rightarrow> ('m, unit) rop" where
  "publish_result key result cause pk =
     map_err (Wrapped ''failed to publish message'') (publish_signal key result (intent_id (mr_id result) cause) pk)"

definition unmarshal_merge_request :: "payload \<Rightarrow> goerr + merge_request" where
  "unmarshal_merge_request p = (case p of PMergeRequest req \<Rightarrow> Inr req | _ \<Rightarrow> Inl (Plain ''failed to unmarshal''))"

definition failed_result :: "merge_request \<Rightarrow> string \<Rightarrow> step_result list \<Rightarrow> runway_result" where
  "failed_result req reason steps = \<lparr>mr_id = mq_id req, mr_queue = [], mr_outcome = OutcomeFailed, mr_reason = reason, mr_steps = steps\<rparr>"

text \<open>The mergers of a queue, by \<open>Factory.For\<close>.\<close>

type_synonym 'm factory = "string \<Rightarrow> goerr + 'm merger"

definition on_mergers :: "('m \<Rightarrow> 'r \<times> 'm) \<Rightarrow> 'm runway \<Rightarrow> 'r \<times> 'm runway" where
  "on_mergers f w = (case f (rw_mergers w) of (r, s) \<Rightarrow> (r, w\<lparr>rw_mergers := s\<rparr>))"

definition received :: "delivery \<Rightarrow> goerr + merge_request" where
  "received dl = (case unmarshal_merge_request (m_payload (dl_message dl)) of
     Inl e \<Rightarrow> Inl (Wrapped ''failed to deserialize merge request'' e)
   | Inr req \<Rightarrow> (case validate_payload_queue (dl_message dl) (mq_queue req) of
       Inl e \<Rightarrow> Inl (Wrapped ''invalid message identity'' e)
     | Inr _ \<Rightarrow> Inr req))"

text \<open>The answer to a request: the result, or FAILED for a terminal error; any other error is the delivery's.\<close>

definition merge_answer :: "'m merger \<Rightarrow> merge_request \<Rightarrow> ('m, runway_result) rop" where
  "merge_answer m req w = (case on_mergers (mg_merge m req) w of
     (Inr result, w') \<Rightarrow> (Inr result, w')
   | (Inl (e, steps), w') \<Rightarrow>
       (if \<not> is_terminal e then (Inl (Wrapped ''failed to merge'' e), w')
        else (Inr (failed_result req (error_text e) steps), w')))"

definition check_answer :: "'m merger \<Rightarrow> merge_request \<Rightarrow> ('m, runway_result) rop" where
  "check_answer m req w = (case on_mergers (mg_check m req) w of
     (Inr result, w') \<Rightarrow> (Inr result, w')
   | (Inl e, w') \<Rightarrow>
       (if \<not> is_terminal e then (Inl (Wrapped ''failed to check mergeability'' e), w')
        else (Inr (failed_result req (error_text e) []), w')))"

definition merge_process :: "'m factory \<Rightarrow> delivery \<Rightarrow> ('m, unit) rop" where
  "merge_process factory dl = and_then (of_sum (received dl)) (\<lambda>req.
     and_then (map_err (Wrapped ''failed to create merger'') (of_sum (factory (mq_queue req)))) (\<lambda>m.
     and_then (merge_answer m req) (\<lambda>result.
     map_err (Wrapped ''failed to publish merge result'')
       (publish_result MergeSignal (result\<lparr>mr_queue := mq_queue req\<rparr>) [] (m_partition (dl_message dl))))))"

definition check_process :: "'m factory \<Rightarrow> delivery \<Rightarrow> ('m, unit) rop" where
  "check_process factory dl = and_then (of_sum (received dl)) (\<lambda>req.
     and_then (map_err (Wrapped ''failed to create merger'') (of_sum (factory (mq_queue req)))) (\<lambda>m.
     and_then (check_answer m req) (\<lambda>result.
     map_err (Wrapped ''failed to publish merge-conflict-check result'')
       (publish_result MergeConflictCheckSignal (result\<lparr>mr_queue := mq_queue req\<rparr>) [] (m_partition (dl_message dl))))))"

text \<open>The reconciler of dead letters, for the signal topic it was wired to.\<close>

definition dlq_topic_key :: "string \<Rightarrow> string" where
  "dlq_topic_key main = main @ ''_dlq''"

definition dead_reason :: "delivery \<Rightarrow> string" where
  "dead_reason dl = (let recorded = (case dl_failure dl of Some f \<Rightarrow> f_message f | None \<Rightarrow> []);
       noted = (if recorded = [] then metadata_get (dl_metadata dl) ''dlq.last_error'' else recorded) in
     if noted = [] then ''runway failed to process the merge request'' else noted)"

definition dead_process :: "signal_topic \<Rightarrow> delivery \<Rightarrow> ('m, unit) rop" where
  "dead_process key dl = (case unmarshal_merge_request (m_payload (dl_message dl)) of
     Inl e \<Rightarrow> ok ()
   | Inr req \<Rightarrow> (case validate_payload_queue (dl_message dl) (mq_queue req) of
       Inl e \<Rightarrow> ok ()
     | Inr _ \<Rightarrow> map_err (Wrapped ''failed to publish dlq failure result'')
         (publish_result key ((failed_result req (''dead-lettered: '' @ dead_reason dl) [])\<lparr>mr_queue := mq_queue req\<rparr>)
           [''dlq''] (m_partition (dl_message dl)))))"

section \<open>The contract of a merger\<close>

text \<open>What the controllers rely on: a result carries the id of its request, and a check reports no outputs.\<close>

locale merger_contract =
  fixes m :: "'m merger"
  assumes merge_echoes: "mg_merge m req s = (Inr res, s') \<Longrightarrow> mr_id res = mq_id req"
    and check_echoes: "mg_check m req s = (Inr res, s') \<Longrightarrow> mr_id res = mq_id req"
    and check_has_no_outputs: "mg_check m req s = (Inr res, s') \<Longrightarrow> list_all (\<lambda>r. sr_outputs r = []) (mr_steps res)"
begin

lemma merge_answer_id: "merge_answer m req w = (Inr res, w') \<Longrightarrow> mr_id res = mq_id req"
  by (auto simp: merge_answer_def on_mergers_def failed_result_def dest: merge_echoes split: prod.splits sum.splits if_splits)

lemma check_answer_id: "check_answer m req w = (Inr res, w') \<Longrightarrow> mr_id res = mq_id req"
  by (auto simp: check_answer_def on_mergers_def failed_result_def dest: check_echoes split: prod.splits sum.splits if_splits)

lemma check_answer_outputs: "check_answer m req w = (Inr res, w') \<Longrightarrow> list_all (\<lambda>r. sr_outputs r = []) (mr_steps res)"
  by (auto simp: check_answer_def on_mergers_def failed_result_def dest: check_has_no_outputs split: prod.splits sum.splits if_splits)

end

interpretation git: merger_contract "git_as_merger m n" for m n
  by unfold_locales
    (auto simp: git_as_merger_def without_result_def git_merge_def git_check_def split: prod.splits sum.splits dest: process_reports)

lemma github_merge_echoes: "merge_github_steps g n req steps results w = (Inr res, w') \<Longrightarrow> mr_id res = mq_id req"
  by (induction g n req steps results w rule: merge_github_steps.induct) (auto simp: success_result_def split: prod.splits sum.splits)

lemma github_check_no_outputs:
  "fold_act (github_check_step g n) steps acc w = (Inr results, w') \<Longrightarrow> list_all (\<lambda>r. sr_outputs r = []) acc \<Longrightarrow>
     list_all (\<lambda>r. sr_outputs r = []) results"
proof (induction steps arbitrary: acc w)
  case Nil
  then show ?case by (simp add: ok_def)
next
  case (Cons step steps)
  then obtain acc' v where v: "github_check_step g n step acc w = (Inr acc', v)" "fold_act (github_check_step g n) steps acc' v = (Inr results, w')"
    by (auto elim: and_then_Inr)
  then have "list_all (\<lambda>r. sr_outputs r = []) acc'"
    using Cons.prems(2) by (auto simp: github_check_step_def ok_def elim!: and_then_Inr)
  then show ?case using Cons.IH v(2) by blast
qed

interpretation github: merger_contract "github_as_merger g n" for g n
proof
  fix req s res s'
  show "mg_merge (github_as_merger g n) req s = (Inr res, s') \<Longrightarrow> mr_id res = mq_id req"
    by (auto simp: github_as_merger_def github_merge_def dest: github_merge_echoes split: sum.splits)
  show "mg_check (github_as_merger g n) req s = (Inr res, s') \<Longrightarrow> mr_id res = mq_id req"
    by (auto simp: github_as_merger_def github_check_def success_result_def ok_def elim!: and_then_Inr)
  show "mg_check (github_as_merger g n) req s = (Inr res, s') \<Longrightarrow> list_all (\<lambda>r. sr_outputs r = []) (mr_steps res)"
    by (auto simp: github_as_merger_def github_check_def success_result_def ok_def elim!: and_then_Inr dest: github_check_no_outputs)
qed

interpretation noop: merger_contract "\<lparr>mg_check = noop_check, mg_merge = noop_merge\<rparr>"
  by unfold_locales (auto simp: noop_check_def noop_merge_def success_result_def list_all_iff split: prod.splits)

interpretation fake: merger_contract "\<lparr>mg_check = fake_check, mg_merge = fake_merge\<rparr>"
  by unfold_locales (auto simp: fake_check_def fake_merge_def noop_check_def noop_merge_def success_result_def list_all_iff split: prod.splits option.splits)

section \<open>Every acknowledged request is answered once\<close>

definition answers :: "(signal_topic \<Rightarrow> string option) \<Rightarrow> signal_topic \<Rightarrow> string \<Rightarrow> string \<Rightarrow> string \<Rightarrow> signal \<Rightarrow> bool" where
  "answers registry key queue i pk s \<longleftrightarrow> registry key = Some (m_topic (sg_envelope s)) \<and> m_tenant (sg_envelope s) = queue \<and>
     m_id (sg_envelope s) = i \<and> m_partition (sg_envelope s) = pk"

text \<open>No two signals held have the same identity; whoever adds or deletes signals keeps that so.\<close>

definition signals_unique :: "runway_db \<Rightarrow> bool" where
  "signals_unique d \<longleftrightarrow> distinct (map (\<lambda>s. (m_tenant (sg_envelope s), m_topic (sg_envelope s), m_partition (sg_envelope s), m_id (sg_envelope s))) d)"

definition signals_kept :: "runway_db \<Rightarrow> runway_db \<Rightarrow> bool" where
  "signals_kept d d' \<longleftrightarrow> (signals_unique d \<longrightarrow> signals_unique d')"

interpretation signals: evolution signals_unique signals_kept
  by unfold_locales (auto simp: signals_kept_def)

lemma answered_once:
  assumes "signals_unique d" and "s \<in> set d" and "answers registry key queue i pk s"
  shows "length (filter (answers registry key queue i pk) d) = 1"
proof -
  let ?key = "\<lambda>s. (m_tenant (sg_envelope s), m_topic (sg_envelope s), m_partition (sg_envelope s), m_id (sg_envelope s))"
  have dist: "distinct d" and inj: "inj_on ?key (set d)" using assms(1) by (simp_all add: signals_unique_def distinct_map)
  have "set (filter (answers registry key queue i pk) d) = {s}"
  proof
    show "{s} \<subseteq> set (filter (answers registry key queue i pk) d)" using assms by simp
    show "set (filter (answers registry key queue i pk) d) \<subseteq> {s}"
    proof
      fix t assume "t \<in> set (filter (answers registry key queue i pk) d)"
      then have "?key t = ?key s" "t \<in> set d" using assms(3) by (auto simp: answers_def)
      with inj assms(2) show "t \<in> {s}" by (auto dest: inj_onD)
    qed
  qed
  then show ?thesis using distinct_card [of "filter (answers registry key queue i pk) d"] dist by simp
qed

lemma insert_keeps: "signals_kept d (snd (signal_insert s d))"
  by (auto simp: signals_kept_def signals_unique_def signal_insert_def same_message_key_def list_ex_iff)


lemma publish_answers:
  assumes "publish_signal key result i pk w = (Inr (), w')"
    and "abides signals_unique signals_kept w" and "signals_unique (w_db w)"
  shows "length (filter (answers (rw_registry w) key (mr_queue result) i pk) (w_db w')) = 1"
proof -
  obtain topic where topic: "rw_registry w key = Some topic"
    using assms(1) by (auto simp: publish_signal_def split: if_splits option.splits)
  let ?m = "\<lparr>m_tenant = mr_queue result, m_topic = topic, m_id = i, m_partition = pk, m_payload = PBad,
      m_metadata = [metadata_key_queue_name \<mapsto> mr_queue result], m_published_at = rw_now w\<rparr>"
  let ?s = "\<lparr>sg_envelope = ?m, sg_result = result\<rparr>"
  let ?held = "\<lambda>d. \<exists>s\<in>set d. answers (rw_registry w) key (mr_queue result) i pk s"
  let ?post = "and_then (of_sum (check_message ?m)) (\<lambda>_. map_err (Wrapped ''publish message store insert error'') (db_op (signal_insert ?s))) :: ('a, unit) rop"
  have held: "?held (snd (signal_insert ?s d))" for d
    using topic by (auto simp: signal_insert_def answers_def same_message_key_def list_ex_iff)
  have t: "triple signals_unique signals_kept (\<lambda>_. True) ?post (\<lambda>_ d. ?held d)"
    by (rule signals.triple_bind [where Q = "\<lambda>_ _. True"], rule signals.triple_of_sum, simp,
        rule signals.triple_map_err, rule signals.triple_db_op) (auto simp: insert_keeps held)
  have "?post w = (Inr (), w')" using assms(1) topic by (auto simp: publish_signal_def Let_def split: if_splits)
  then have "?held (w_db w') \<and> signals_kept (w_db w) (w_db w')" using t assms(2,3) unfolding triple_def by fastforce
  then show ?thesis using assms(3) answered_once unfolding signals_kept_def by blast
qed

definition runway_handlers :: "'m factory \<Rightarrow> (signal_topic \<times> string list \<times> (delivery \<Rightarrow> ('m, unit) rop)) list" where
  "runway_handlers factory = [(MergeSignal, [], merge_process factory), (MergeConflictCheckSignal, [], check_process factory),
     (MergeSignal, [''dlq''], dead_process MergeSignal), (MergeConflictCheckSignal, [''dlq''], dead_process MergeConflictCheckSignal)]"

lemma merge_answer_world: "merge_answer m req w = (r, w') \<Longrightarrow> \<exists>s. w' = w\<lparr>rw_mergers := s\<rparr>"
  by (auto simp: merge_answer_def on_mergers_def split: prod.splits sum.splits if_splits)

lemma check_answer_world: "check_answer m req w = (r, w') \<Longrightarrow> \<exists>s. w' = w\<lparr>rw_mergers := s\<rparr>"
  by (auto simp: check_answer_def on_mergers_def split: prod.splits sum.splits if_splits)

lemma map_err_ok: "map_err f m w = (Inr x, w') \<Longrightarrow> m w = (Inr x, w')"
  by (auto simp: map_err_def split: prod.splits sum.splits)

definition honest_factory :: "'m factory \<Rightarrow> bool" where
  "honest_factory factory \<longleftrightarrow> (\<forall>q m. factory q = Inr m \<longrightarrow> merger_contract m)"

lemma honest_factoryD: "honest_factory factory \<Longrightarrow> factory q = Inr m \<Longrightarrow> merger_contract m"
  by (simp add: honest_factory_def)

lemma handler_publishes:
  assumes "honest_factory factory"
    and "(key, cause, h) \<in> set (runway_handlers factory)" and "received dl = Inr req" and "h dl w = (Inr (), w')"
  shows "\<exists>s result. mr_id result = mq_id req \<and> mr_queue result = mq_queue req \<and>
    publish_signal key result (intent_id (mq_id req) cause) (m_partition (dl_message dl)) (w\<lparr>rw_mergers := s\<rparr>) = (Inr (), w')"
proof -
  have pub: "\<exists>result. mr_id result = mq_id req \<and> mr_queue result = mq_queue req \<and>
      publish_signal k result (intent_id (mq_id req) c) (m_partition (dl_message dl)) v = (Inr (), w')"
    if "publish_result k (res\<lparr>mr_queue := mq_queue req\<rparr>) c (m_partition (dl_message dl)) v = (Inr (), w')" "mr_id res = mq_id req"
    for k res c v
    using that by (intro exI [of _ "res\<lparr>mr_queue := mq_queue req\<rparr>"]) (auto simp: publish_result_def dest!: map_err_ok)
  have dead: ?thesis if "dead_process k dl w = (Inr (), w')" "key = k" "cause = [''dlq'']" for k
  proof -
    have "unmarshal_merge_request (m_payload (dl_message dl)) = Inr req" "validate_payload_queue (dl_message dl) (mq_queue req) = Inr ()"
      using assms(3) by (auto simp: received_def split: sum.splits)
    then have "publish_result k ((failed_result req (''dead-lettered: '' @ dead_reason dl) [])\<lparr>mr_queue := mq_queue req\<rparr>) [''dlq'']
        (m_partition (dl_message dl)) (w\<lparr>rw_mergers := rw_mergers w\<rparr>) = (Inr (), w')"
      using that by (auto simp: dead_process_def dest!: map_err_ok)
    from pub [OF this] that show ?thesis by (intro exI [of _ "rw_mergers w"]) (simp add: failed_result_def)
  qed
  consider (merge) "key = MergeSignal" "cause = []" "h = merge_process factory"
    | (check) "key = MergeConflictCheckSignal" "cause = []" "h = check_process factory"
    | (gone) k where "key = k" "cause = [''dlq'']" "h = dead_process k"
    using assms(2) by (auto simp: runway_handlers_def)
  then show ?thesis
  proof cases
    case merge
    then obtain m res v where m: "factory (mq_queue req) = Inr m" and a: "merge_answer m req w = (Inr res, v)"
      and p: "publish_result MergeSignal (res\<lparr>mr_queue := mq_queue req\<rparr>) [] (m_partition (dl_message dl)) v = (Inr (), w')"
      using assms(3,4) by (auto simp: merge_process_def of_sum_def elim!: and_then_Inr dest!: map_err_ok)
    have "mr_id res = mq_id req" by (rule merger_contract.merge_answer_id [OF honest_factoryD [OF assms(1) m] a])
    from pub [OF p this] merge_answer_world [OF a] merge show ?thesis by blast
  next
    case check
    then obtain m res v where m: "factory (mq_queue req) = Inr m" and a: "check_answer m req w = (Inr res, v)"
      and p: "publish_result MergeConflictCheckSignal (res\<lparr>mr_queue := mq_queue req\<rparr>) [] (m_partition (dl_message dl)) v = (Inr (), w')"
      using assms(3,4) by (auto simp: check_process_def of_sum_def elim!: and_then_Inr dest!: map_err_ok)
    have "mr_id res = mq_id req" by (rule merger_contract.check_answer_id [OF honest_factoryD [OF assms(1) m] a])
    from pub [OF p this] check_answer_world [OF a] check show ?thesis by blast
  next
    case gone
    then show ?thesis using dead assms(4) by blast
  qed
qed


text \<open>
  C40. When the handler of a merge request, of a mergeability check or of the dead letters of either
  returns no error on a request it accepts - one that decodes and whose queue is the tenant of its
  envelope - the request has been answered, and once: with mergers that echo the id of the request,
  whatever fails and whatever the other processes add or delete, the signal topic of the handler then holds
  exactly one signal with the request's id (marked as a dead letter's for the reconcilers), queue and
  partition.
\<close>

theorem acked_request_answered_once:
  assumes "honest_factory factory"
    and "(key, cause, h) \<in> set (runway_handlers factory)"
    and "received dl = Inr req" and "h dl w = (Inr (), w')"
    and "abides signals_unique signals_kept w" and "signals_unique (w_db w)"
  shows "length (filter (answers (rw_registry w) key (mq_queue req) (intent_id (mq_id req) cause) (m_partition (dl_message dl))) (w_db w')) = 1"
proof -
  obtain s result where "mr_queue result = mq_queue req"
    and p: "publish_signal key result (intent_id (mq_id req) cause) (m_partition (dl_message dl)) (w\<lparr>rw_mergers := s\<rparr>) = (Inr (), w')"
    using handler_publishes [OF assms(1-4)] by blast
  moreover have "abides signals_unique signals_kept (w\<lparr>rw_mergers := s\<rparr>)" using assms(5) by (simp add: abides_def)
  ultimately show ?thesis using publish_answers [OF p] assms(6) by simp
qed

definition stub_factory :: "(64 word) factory" where
  "stub_factory q = Inr \<lparr>mg_check = noop_check, mg_merge = noop_merge\<rparr>"

definition sample_merge_request :: merge_request where
  "sample_merge_request = \<lparr>mq_id = ''r1'', mq_queue = ''q'', mq_steps = [\<lparr>ms_step = ''s1'', ms_uris = [''git://h/r/x/y''], ms_strategy = REBASE\<rparr>]\<rparr>"

definition runway_delivery :: delivery where
  "runway_delivery = \<lparr>dl_message = \<lparr>m_tenant = ''q'', m_topic = ''merge'', m_id = ''r1'', m_partition = ''q'', m_payload = PMergeRequest sample_merge_request,
     m_metadata = Map.empty, m_published_at = 0\<rparr>, dl_attempt = 1, dl_metadata = Map.empty, dl_failure = None\<rparr>"

definition sample_runway :: "(64 word) runway" where
  "sample_runway = \<lparr>w_db = [], w_script = [], rw_registry = (\<lambda>key. Some ''signals''), rw_now = 0, rw_mergers = 0\<rparr>"

lemma sample_received: "received runway_delivery = Inr sample_merge_request"
  by (simp add: received_def runway_delivery_def unmarshal_merge_request_def validate_payload_queue_def validate_tenant_metadata_def
    metadata_get_def sample_merge_request_def)

lemma sample_acked: "fst (merge_process stub_factory runway_delivery sample_runway) = Inr ()"
  unfolding merge_process_def sample_received
  by (simp add: and_then_def of_sum_def map_err_def stub_factory_def merge_answer_def on_mergers_def noop_merge_def
    sample_merge_request_def Let_def success_result_def publish_result_def publish_signal_def intent_id_def sample_runway_def runway_delivery_def
    check_message_def validate_tenant_metadata_def metadata_get_def validate_ascii_identifier_def validate_text_identifier_def db_op_def signal_insert_def)

lemma acked_request_answered_once_witness:
  "length (filter (answers (\<lambda>key. Some ''signals'') MergeSignal ''q'' ''r1'' ''q'') (w_db (snd (merge_process stub_factory runway_delivery sample_runway)))) = 1"
proof -
  have "merge_process stub_factory runway_delivery sample_runway = (Inr (), snd (merge_process stub_factory runway_delivery sample_runway))"
    using sample_acked by (metis prod.collapse)
  from acked_request_answered_once [of stub_factory MergeSignal "[]" "merge_process stub_factory", OF _ _ sample_received this] show ?thesis
    by (simp add: honest_factory_def stub_factory_def noop.merger_contract_axioms runway_handlers_def abides_def signals_unique_def sample_runway_def runway_delivery_def
      sample_merge_request_def intent_id_def)
qed

end
