(* ===== verification/Spec2Isabelle.thy ===== *)
theory Spec2Isabelle
  imports Races Proposals Scorers QueueFacts QueueGaps ConsumerFacts GatewaySafe StoveFacts Runway
begin

text \<open>
  A verification of the submit queue: the services that take land requests, speculate on batches of them,
  build the guesses and land what passed, with the message queue that connects them.

  \<^bold>\<open>The program.\<close>  The gateway (\<open>submitqueue/gateway\<close>) takes requests from users and answers reads.  The
  orchestrator (\<open>submitqueue/orchestrator\<close>) carries a request through its stages.  Runway (\<open>runway\<close>) checks
  and merges changes by git or GitHub.  Stovepipe (\<open>stovepipe\<close>) validates what landed and keeps the
  last-green bookmark of a branch.  Each is a set of message handlers on the topics of a persistent queue
  (\<open>platform/extension/messagequeue/mysql\<close> behind \<open>platform/consumer\<close>); they share nothing but databases.
  Deliveries are at least once, several processes run at the same time, and any database call may fail
  before or after it took effect.  Rows are protected by optimistic locking, and a publish whose message ID
  is still held is dropped.

  \<^bold>\<open>The model.\<close>  A function that reads and writes shared state is an action \<open>world \<Rightarrow> (goerr + 'a) \<times> world\<close>
  (Prelude).  A world holds a store and a script that says, for each call, what the other processes did to the
  store before it and whether the call fails; an exhausted script is a quiet store (Machine).  Machine also has
  the rely/guarantee triples: the locale \<open>evolution\<close> fixes an invariant and a relation the processes keep,
  and its rules compose triples along the code; it is interpreted for the orchestrator (Lifecycle), the
  queue (QueueSafe), the gateway (GatewaySafe), Stovepipe (StoveLaws) and the signals of Runway.  Every error
  return of the source is a branch of the model.

  \<^item> Prelude, Machine, World: actions, loops, scripts, triples, the messages and the orchestrator's database.
  \<^item> Detail, DetailText, Errs, Ids, Entity: \<open>platform/base/failure\<close> with what JSON and \<open>%v\<close> make of its values,
    \<open>platform/errs\<close>, \<open>platform/base/id\<close>, \<open>submitqueue/entity\<close>.
  \<^item> Storage, Publish: the orchestrator's stores and counter as the statements they send (locale
    \<open>versioned_table\<close>: optimistic locking, for four stores); publishing and the deduplicating insert.
  \<^item> CoreBatch, CoreRequest, SpecDecide, SpecRun: \<open>orchestrator/core\<close> and the speculate controller, its pure
    decisions and its handler (read, admit, finalize, ask, check, dispatch); SpecFacts: what the decisions
    guarantee.
  \<^item> Controllers, Intake, Enroll, Landing, Building, DeadLetters: the other controllers of the orchestrator.
    PathSets, Lifecycle: the contract between its processes - state graphs, growing versions, path sets
    that only grow.  SpecSafe, IntakeSafe and the ends of the controller theories: every handler keeps it.
    Pipeline: the table of stages and its histories.  Races: schedules the contract does not exclude.
  \<^item> Ranking, BestFirst, BestFacts, BestPaths, Allocate, Proposals, Scorers: floats and heaps, the best-first
    generator, the sticky allocator, the standard speculator (\<open>submitqueue/extension/speculation\<close>) and the
    scorers.  The locale \<open>priority\<close> is the heap's contract, interpreted on the two orders the generator uses;
    \<open>candidate_source\<close> is what the allocator needs of a generator.
  \<^item> QueueStore, QueuePoll, QueueLease: the tables of the message queue and their statements, the partition
    worker and the methods of a delivery, the supervisor with its leases and fair shares.  QueueSafe,
    QueueTriples, QueueHistory: no message is lost.  QueueFacts, QueueShare: what polls and settlements do,
    how shares add up.  QueueGaps: what the assumptions of QueueHistory exclude and the code does not.
  \<^item> Consumer, ConsumerFacts: the consumer framework, its consume loop as steps of its goroutines.
  \<^item> GatewayStore, Gateway: the gateway's tables, the materializer of request logs, its controllers.
    GatewayLogs, GatewayPages, GatewaySafe: the summary against the log, the paged list against its
    specification, and what is public.
  \<^item> StoveStore, StoveLogs, Stove, StoveBuild: Stovepipe's stores, its logs and their read models, and its stages
    (\<open>ingest\<close>, \<open>process\<close>; \<open>build\<close>, \<open>buildsignal\<close>, \<open>record\<close> and the reconcilers).  The locale \<open>retrying\<close> is a retry
    loop whose rounds use up the script.  StoveLaws, StoveSafe, StoveStages, StoveRun, StoveFacts: what the
    stages never do, stage by stage, and what follows.
  \<^item> Changes, GitMerger, GithubMerger, Runway: change URIs (\<open>platform/base/change\<close>), the two mergers
    (\<open>runway/extension/merger\<close>) and the controllers.  RunLog: contracts on the commands an action issues
    (locale \<open>log_contract\<close>, extended in GitFacts and GithubFacts along the code).  Runway interprets
    \<open>merger_contract\<close>, what the controllers need of a merger, on all four mergers.

  \<^bold>\<open>What is shown.\<close>  Orchestrator: a head is landed only if one of its passed builds was made on exactly the
  dependencies that succeed, however the unfinished ones end, and failed only when the surviving combination
  failed; under any faults and any interference that keeps the contract every handler keeps the contract, so
  ended batches and requests are never changed and finished builds are never erased.  Speculation: the generator
  yields every coherent path once, best first; proposals keep to the budget and pass the controller's check;
  prices are probabilities.  Queue: a message is deleted only when every group has acknowledged it or one has
  rejected it; a poll hands out the rows that are due; dead letters carry their failure, as JSON reads it
  back; a delivery is acknowledged only if its controller was done with it, and partitions are worked off in
  order.  Gateway: receipts name public requests only, pages are the whole list, and the summary agrees with
  the log when clocks do.  Stovepipe: requests keep to their lifecycle, the bookmark and the facts tell the
  truth, one request per commit.  Runway: a merge lands as a whole or not at all on git, submits to GitHub what
  was asked, reports conflicts only on evidence, and every request it accepts is answered once.  Races,
  QueueGaps and a few more lemmas show schedules whose outcome the code's comments rule out.

  \<^bold>\<open>Bounds and fuel.\<close>  Loops over lists are structural; the fixed point of \<open>finalize\<close> and the materializer's loop
  have measures.  The other loops carry a bound, and running out of it is a value of its own: the draining of
  the generator's iterator (shown never to be reached, Allocate), the retry loops of Stovepipe, bounded by the
  length of the script since each further round takes an event of it (\<open>out_of_rounds\<close>, not reached by the two loops
  of \<open>finish_request\<close>, StoveFacts), the skips of a cherry-pick (\<open>pick_stuck\<close>, not reached when a skip leaves
  fewer commits, GitFacts) and the polling of GitHub (\<open>hub_stuck\<close>, for which no such bound is claimed).

  \<^bold>\<open>Assumptions.\<close>  Parameters of the model: SHA-256, \<open>net/url\<close>, the rounding and logarithm of floats in the scores
  (with their laws as hypotheses), the conflict analyzer, build runner, change provider and validators, git with
  its remote, GitHub with the decoding of its answers, clocks.  A heap is the multiset it holds.  Versions, offsets
  and times are unbounded integers, with the range checks of the code written out; the counter of the stub
  mergers is a 64-bit word.  \<open>q_acks\<close>, \<open>q_dead\<close>, \<open>ck_calls\<close> and \<open>hb_calls\<close> are auxiliary: no decision reads them.
  \<open>MoveToDLQ\<close> is one step, an insert transaction is not.  The no-loss theorem assumes rows committed in
  the order of their offsets and offset rows that are not deleted.  An action is not interrupted by its context:
  a cancelled context is a failing call, and for git the way it ended is an argument.  Text is ASCII and error
  messages keep their constant parts.

  \<^bold>\<open>Not modelled.\<close>  Metrics and log lines; protobuf and JSON bytes (decoded values are kept); the rest of
  Stovepipe (build analysis, issues, fixes, reads); the file-backed consumer gate; mutexes; the overlap of two
  handlers whose calls alternate, other than as interference; generated code, servers and clients.
\<close>

end
